(* ===== verification/Prelude.thy ===== *)
theory Prelude
  imports Main "HOL-Library.Word" "HOL-Library.Sublist"
begin

text \<open>
  Shared vocabulary of the development: machine integers, fallible results, little-endian
  bytes, byte slices and the string operations of the Rust standard library the modelled
  code uses.  Strings are UTF-8 byte sequences (\<open>string\<close>), so \<open>length\<close> is Rust's
  \<open>str::len\<close>.  The lemma collections \<open>checked_simps\<close> and \<open>bytes_simps\<close> carry the
  arithmetic and encoding facts of the component theories.
\<close>

unbundle bit_operations_syntax

named_theorems checked_simps \<open>what a checked or saturating operation returned\<close>
named_theorems bytes_simps \<open>lengths and round trips of the byte encodings\<close>

section \<open>Machine integers\<close>

type_synonym u8 = "8 word"
type_synonym u16 = "16 word"
type_synonym u32 = "32 word"
type_synonym u64 = "64 word"
type_synonym i64 = "64 word"
type_synonym bytes = "u8 list"

definition checked_add :: "'a::len word \<Rightarrow> 'a word \<Rightarrow> 'a word option" where
  "checked_add a b = (if unat a + unat b < 2 ^ LENGTH('a) then Some (a + b) else None)"

definition checked_sub :: "'a::len word \<Rightarrow> 'a word \<Rightarrow> 'a word option" where
  "checked_sub a b = (if b \<le> a then Some (a - b) else None)"

definition checked_mul :: "'a::len word \<Rightarrow> 'a word \<Rightarrow> 'a word option" where
  "checked_mul a b = (if unat a * unat b < 2 ^ LENGTH('a) then Some (a * b) else None)"

definition saturating_add :: "'a::len word \<Rightarrow> 'a word \<Rightarrow> 'a word" where
  "saturating_add a b = (if unat a + unat b < 2 ^ LENGTH('a) then a + b else - 1)"

definition saturating_sub :: "'a::len word \<Rightarrow> 'a word \<Rightarrow> 'a word" where
  "saturating_sub a b = (if b \<le> a then a - b else 0)"

lemma checked_add_SomeD [checked_simps]:
  "checked_add a b = Some c \<longleftrightarrow> unat a + unat b < 2 ^ LENGTH('a) \<and> c = a + b"
  for a b c :: "'a::len word"
  by (auto simp: checked_add_def)

lemma checked_add_NoneD [checked_simps]:
  "checked_add a b = None \<longleftrightarrow> 2 ^ LENGTH('a) \<le> unat a + unat b" for a b :: "'a::len word"
  by (auto simp: checked_add_def)

lemma checked_sub_SomeD [checked_simps]: "checked_sub a b = Some c \<longleftrightarrow> b \<le> a \<and> c = a - b"
  by (auto simp: checked_sub_def)

lemma checked_sub_NoneD [checked_simps]: "checked_sub a b = None \<longleftrightarrow> a < b"
  by (auto simp: checked_sub_def)

lemma checked_mul_SomeD [checked_simps]:
  "checked_mul a b = Some c \<longleftrightarrow> unat a * unat b < 2 ^ LENGTH('a) \<and> c = a * b"
  for a b c :: "'a::len word"
  by (auto simp: checked_mul_def)

lemma unat_add_nowrap: "unat a + unat b < 2 ^ LENGTH('a) \<Longrightarrow> unat (a + b) = unat a + unat b"
  for a b :: "'a::len word"
  by (simp add: unat_word_ariths)

lemma unat_mult_nowrap: "unat a * unat b < 2 ^ LENGTH('a) \<Longrightarrow> unat (a * b) = unat a * unat b"
  for a b :: "'a::len word"
  by (simp add: unat_word_ariths)

lemma unat_sub_nowrap: "b \<le> a \<Longrightarrow> unat (a - b) = unat a - unat b" for a b :: "'a::len word"
  by (simp add: unat_sub)

lemma checked_add_unat: "checked_add a b = Some c \<Longrightarrow> unat c = unat a + unat b"
  by (simp add: checked_add_SomeD unat_add_nowrap)

lemma checked_sub_unat: "checked_sub a b = Some c \<Longrightarrow> unat c + unat b = unat a"
  by (auto simp: checked_sub_SomeD unat_sub_nowrap word_le_nat_alt)

lemma unat_lt_width: "unat a < 2 ^ LENGTH('a)" for a :: "'a::len word"
  by (rule unsigned_less)

lemma unat_byte [simp]: "unat (b :: u8) < 256"
  using unat_lt_width [of b] by simp

lemma unat_max_word: "unat (- 1 :: 'a::len word) = 2 ^ LENGTH('a) - 1"
  by (simp add: unsigned_minus_1_eq_mask mask_eq_exp_minus_1)

lemma unat_saturating_add:
  "unat (saturating_add a b) = min (unat a + unat b) (2 ^ LENGTH('a) - 1)" for a b :: "'a::len word"
  using unat_lt_width [of a]
  by (auto simp: saturating_add_def unat_add_nowrap unat_max_word)

lemma saturating_add_ge: "a \<le> saturating_add a b" for a b :: "'a::len word"
proof -
  have "unat a \<le> 2 ^ LENGTH('a) - 1"
    using unat_lt_width [of a] by linarith
  then show ?thesis
    by (simp add: word_le_nat_alt unat_saturating_add)
qed

section \<open>Results\<close>

text \<open>
  A fallible function of the source returns \<open>'e fault + 'a\<close>: \<open>Inr v\<close> for \<open>Ok(v)\<close>,
  \<open>Inl (Err e)\<close> for \<open>Err(e)\<close>, and \<open>Inl Panic\<close> where the code unwinds (a failed
  \<open>unwrap\<close>, an out-of-range slice, \<open>todo!\<close>, \<open>unreachable!\<close>, a double borrow).  A function
  that cannot panic uses a plain sum.
\<close>

datatype 'e fault = Err 'e | Panic

type_synonym ('a, 'e) res = "'e fault + 'a"

definition rbind :: "'e + 'a \<Rightarrow> ('a \<Rightarrow> 'e + 'b) \<Rightarrow> 'e + 'b" where
  "rbind r f = (case r of Inl e \<Rightarrow> Inl e | Inr a \<Rightarrow> f a)"

definition ok_or :: "'a option \<Rightarrow> 'e \<Rightarrow> 'e + 'a" where
  "ok_or x e = (case x of None \<Rightarrow> Inl e | Some a \<Rightarrow> Inr a)"

definition is_ok :: "'e + 'a \<Rightarrow> bool" where
  "is_ok r = (case r of Inl _ \<Rightarrow> False | Inr _ \<Rightarrow> True)"

lemma rbind_simps [simp]: "rbind (Inl e) f = Inl e" "rbind (Inr a) f = f a"
  by (simp_all add: rbind_def)

lemma rbind_Inr_iff: "rbind r f = Inr b \<longleftrightarrow> (\<exists>a. r = Inr a \<and> f a = Inr b)"
  by (cases r) auto

lemma rbind_Inl_iff: "rbind r f = Inl e \<longleftrightarrow> r = Inl e \<or> (\<exists>a. r = Inr a \<and> f a = Inl e)"
  by (cases r) auto

lemma ok_or_simps [simp]:
  "ok_or None e = Inl e" "ok_or (Some a) e = Inr a"
  by (simp_all add: ok_or_def)

lemma ok_or_Inr_iff: "ok_or x e = Inr a \<longleftrightarrow> x = Some a"
  by (cases x) auto

lemma ok_or_Inl_iff: "ok_or x e = Inl e' \<longleftrightarrow> x = None \<and> e' = e"
  by (cases x) auto

lemma is_ok_simps [simp]: "\<not> is_ok (Inl e)" "is_ok (Inr a)"
  by (simp_all add: is_ok_def)

lemma is_ok_iff: "is_ok r \<longleftrightarrow> (\<exists>a. r = Inr a)"
  by (cases r) auto

definition lift_err :: "'e + 'a \<Rightarrow> ('a, 'e) res" where
  "lift_err r = (case r of Inl e \<Rightarrow> Inl (Err e) | Inr a \<Rightarrow> Inr a)"

lemma lift_err_iff [simp]: "lift_err r = Inr a \<longleftrightarrow> r = Inr a" "lift_err r = Inl (Err e) \<longleftrightarrow> r = Inl e"
  "lift_err r \<noteq> Inl Panic" "lift_err (Inr a) = Inr a" "lift_err (Inl e) = Inl (Err e)"
  by (auto simp: lift_err_def split: sum.splits)

lemmas result_iffs = rbind_Inr_iff rbind_Inl_iff ok_or_Inr_iff ok_or_Inl_iff

section \<open>Little-endian bytes\<close>

fun le_bytes :: "nat \<Rightarrow> nat \<Rightarrow> bytes" where
  "le_bytes 0 v = []"
| "le_bytes (Suc n) v = of_nat v # le_bytes n (v div 256)"

fun le_nat :: "bytes \<Rightarrow> nat" where
  "le_nat [] = 0"
| "le_nat (b # bs) = unat b + 256 * le_nat bs"

lemma length_le_bytes [simp, bytes_simps]: "length (le_bytes n v) = n"
  by (induction n arbitrary: v) auto

lemma le_nat_le_bytes [bytes_simps]: "le_nat (le_bytes n v) = v mod 256 ^ n"
proof (induction n arbitrary: v)
  case (Suc n)
  have "le_nat (le_bytes (Suc n) v) = v mod 256 + 256 * (v div 256 mod 256 ^ n)"
    by (simp add: Suc unat_of_nat)
  also have "\<dots> = v mod (256 * 256 ^ n)"
    by (simp add: mod_mult2_eq)
  finally show ?case by simp
qed simp

lemma le_nat_bound: "le_nat bs < 256 ^ length bs"
proof (induction bs)
  case (Cons b bs)
  have "unat b < 256" by (rule unat_byte)
  then have "unat b + 256 * le_nat bs < 256 * (le_nat bs + 1)" by (simp del: unat_byte)
  also have "\<dots> \<le> 256 * 256 ^ length bs"
    using Cons by (intro mult_le_mono2) simp
  finally show ?case by simp
qed simp

lemma le_bytes_le_nat [bytes_simps]: "length bs = n \<Longrightarrow> le_bytes n (le_nat bs) = bs"
proof (induction bs arbitrary: n)
  case (Cons b bs)
  have "unat (of_nat (unat b + 256 * le_nat bs) :: u8) = unat b"
    by (simp only: unat_of_nat) simp
  then have "of_nat (unat b + 256 * le_nat bs) = b"
    by (simp only: word_unat_eq_iff)
  moreover have "(unat b + 256 * le_nat bs) div 256 = le_nat bs"
    by simp
  ultimately show ?case using Cons by (cases n) auto
qed simp

definition u64_bytes :: "u64 \<Rightarrow> bytes" where
  "u64_bytes x = le_bytes 8 (unat x)"

definition bytes_u64 :: "bytes \<Rightarrow> u64" where
  "bytes_u64 bs = of_nat (le_nat bs)"

definition u16_bytes :: "u16 \<Rightarrow> bytes" where
  "u16_bytes x = le_bytes 2 (unat x)"

definition bytes_u16 :: "bytes \<Rightarrow> u16" where
  "bytes_u16 bs = of_nat (le_nat bs)"

text \<open>
  A \<open>Pubkey\<close> is 32 bytes; it is kept as the 256-bit word whose little-endian bytes they are.
  \<open>key_bytes\<close> is \<open>Pubkey::as_ref\<close>, \<open>bytes_key\<close> is \<open>Pubkey::new_from_array\<close>, and
  \<open>Pubkey::default()\<close>, all zero bytes, is \<open>0\<close>.
\<close>

type_synonym pubkey = "256 word"

definition key_bytes :: "pubkey \<Rightarrow> bytes" where
  "key_bytes k = le_bytes 32 (unat k)"

definition bytes_key :: "bytes \<Rightarrow> pubkey" where
  "bytes_key bs = of_nat (le_nat bs)"

lemma length_int_bytes [simp, bytes_simps]:
  "length (u64_bytes x) = 8" "length (u16_bytes y) = 2" "length (key_bytes k) = 32"
  by (simp_all add: u64_bytes_def u16_bytes_def key_bytes_def)

lemma bytes_u64_u64_bytes [simp, bytes_simps]: "bytes_u64 (u64_bytes x) = x"
  using unat_lt_width [of x] by (simp add: bytes_u64_def u64_bytes_def le_nat_le_bytes)

lemma bytes_u16_u16_bytes [simp, bytes_simps]: "bytes_u16 (u16_bytes x) = x"
  using unat_lt_width [of x] by (simp add: bytes_u16_def u16_bytes_def le_nat_le_bytes)

lemma bytes_key_key_bytes [simp, bytes_simps]: "bytes_key (key_bytes k) = k"
  using unat_lt_width [of k] by (simp add: bytes_key_def key_bytes_def le_nat_le_bytes)

lemma u64_bytes_bytes_u64 [bytes_simps]: "length bs = 8 \<Longrightarrow> u64_bytes (bytes_u64 bs) = bs"
  using le_nat_bound [of bs]
  by (simp add: bytes_u64_def u64_bytes_def unat_of_nat le_bytes_le_nat)

lemma u16_bytes_bytes_u16 [bytes_simps]: "length bs = 2 \<Longrightarrow> u16_bytes (bytes_u16 bs) = bs"
  using le_nat_bound [of bs]
  by (simp add: bytes_u16_def u16_bytes_def unat_of_nat le_bytes_le_nat)

lemma key_bytes_bytes_key [bytes_simps]: "length bs = 32 \<Longrightarrow> key_bytes (bytes_key bs) = bs"
  using le_nat_bound [of bs]
  by (simp add: bytes_key_def key_bytes_def unat_of_nat le_bytes_le_nat)

section \<open>Slices\<close>

text \<open>\<open>slice i n xs\<close> is \<open>&xs[i..i + n]\<close>; the callers check the range.\<close>

definition slice :: "nat \<Rightarrow> nat \<Rightarrow> 'a list \<Rightarrow> 'a list" where
  "slice i n xs = take n (drop i xs)"

definition patch :: "nat \<Rightarrow> 'a list \<Rightarrow> 'a list \<Rightarrow> 'a list" where
  "patch i ys xs = take i xs @ ys @ drop (i + length ys) xs"

lemma length_slice [simp, bytes_simps]: "i + n \<le> length xs \<Longrightarrow> length (slice i n xs) = n"
  by (simp add: slice_def)

lemma length_patch [simp, bytes_simps]: "i + length ys \<le> length xs \<Longrightarrow> length (patch i ys xs) = length xs"
  by (simp add: patch_def)

lemma slice_patch_same [simp]:
  "i + length ys \<le> length xs \<Longrightarrow> n = length ys \<Longrightarrow> slice i n (patch i ys xs) = ys"
  by (simp add: slice_def patch_def)

lemma slice_patch_before: "j + n \<le> i \<Longrightarrow> i \<le> length xs \<Longrightarrow> slice j n (patch i ys xs) = slice j n xs"
  by (simp add: slice_def patch_def drop_take)

lemma slice_patch_after:
  "i + length ys \<le> j \<Longrightarrow> i + length ys \<le> length xs \<Longrightarrow> slice j n (patch i ys xs) = slice j n xs"
  by (simp add: slice_def patch_def)

section \<open>Strings\<close>

abbreviation starts_with :: "string \<Rightarrow> string \<Rightarrow> bool" where
  "starts_with s p \<equiv> prefix p s"

definition contains_str :: "string \<Rightarrow> string \<Rightarrow> bool" where
  "contains_str s p = list_ex (\<lambda>i. prefix p (drop i s)) [0..<Suc (length s)]"

fun split_on :: "'a \<Rightarrow> 'a list \<Rightarrow> 'a list list" where
  "split_on c [] = [[]]"
| "split_on c (x # xs) =
     (if x = c then [] # split_on c xs
      else (case split_on c xs of [] \<Rightarrow> [[x]] | p # ps \<Rightarrow> (x # p) # ps))"

fun split_once :: "'a \<Rightarrow> 'a list \<Rightarrow> ('a list \<times> 'a list) option" where
  "split_once c [] = None"
| "split_once c (x # xs) =
     (if x = c then Some ([], xs)
      else map_option (\<lambda>(a, b). (x # a, b)) (split_once c xs))"

lemma contains_str_iff: "contains_str s p \<longleftrightarrow> sublist p s"
proof
  assume "contains_str s p"
  then obtain i where "prefix p (drop i s)"
    by (auto simp: contains_str_def list_ex_iff simp del: upt_Suc)
  then show "sublist p s"
    by (metis append_take_drop_id prefix_def sublist_appendI)
next
  assume "sublist p s"
  then obtain xs ys where s: "s = xs @ p @ ys"
    by (auto simp: sublist_def)
  then have "prefix p (drop (length xs) s)" and "length xs < Suc (length s)"
    by simp_all
  then show "contains_str s p"
    by (auto simp: contains_str_def list_ex_iff simp del: upt_Suc)
qed

text \<open>
  \<open>char::is_whitespace\<close> on the UTF-8 encoding: \<open>ws_len s\<close> is the number of bytes of the
  \<open>White_Space\<close> character \<open>s\<close> starts with, 0 when it starts with another character.
\<close>

fun ws_code :: "nat list \<Rightarrow> nat" where
  "ws_code (a # r) =
     (if 9 \<le> a \<and> a \<le> 13 \<or> a = 32 then 1
      else case r of
        [] \<Rightarrow> 0
      | b # r' \<Rightarrow>
          (if a = 194 \<and> (b = 133 \<or> b = 160) then 2
           else case r' of
             [] \<Rightarrow> 0
           | c # _ \<Rightarrow>
               (if a = 225 \<and> b = 154 \<and> c = 128
                 \<or> a = 226 \<and> b = 128 \<and> (128 \<le> c \<and> c \<le> 138 \<or> c = 168 \<or> c = 169 \<or> c = 175)
                 \<or> a = 226 \<and> b = 129 \<and> c = 159
                 \<or> a = 227 \<and> b = 128 \<and> c = 128 then 3 else 0)))"
| "ws_code [] = 0"

definition ws_len :: "string \<Rightarrow> nat" where
  "ws_len s = ws_code (map of_char (take 3 s))"

definition ws_len_end :: "string \<Rightarrow> nat" where
  "ws_len_end s =
     (case find (\<lambda>n. n \<le> length s \<and> ws_code (map of_char (drop (length s - n) s)) = n) [1, 2, 3] of
        None \<Rightarrow> 0 | Some n \<Rightarrow> n)"

function trim_start :: "string \<Rightarrow> string" where
  "trim_start s = (if s \<noteq> [] \<and> 0 < ws_len s then trim_start (drop (ws_len s) s) else s)"
  by pat_completeness auto
termination
  by (relation "measure length") auto

function trim_end :: "string \<Rightarrow> string" where
  "trim_end s =
     (if s \<noteq> [] \<and> 0 < ws_len_end s then trim_end (take (length s - ws_len_end s) s) else s)"
  by pat_completeness auto
termination
  by (relation "measure length") auto

declare trim_start.simps [simp del] trim_end.simps [simp del]

definition trim_str :: "string \<Rightarrow> string" where
  "trim_str s = trim_end (trim_start s)"

lemma trim_start_id: "ws_len s = 0 \<Longrightarrow> trim_start s = s"
  by (subst trim_start.simps) simp

lemma trim_end_id: "ws_len_end s = 0 \<Longrightarrow> trim_end s = s"
  by (subst trim_end.simps) simp

lemma trim_str_id: "ws_len s = 0 \<Longrightarrow> ws_len_end s = 0 \<Longrightarrow> trim_str s = s"
  by (simp add: trim_str_def trim_start_id trim_end_id)

lemma split_once_append: "c \<notin> set a \<Longrightarrow> split_once c (a @ c # b) = Some (a, b)"
  by (induction a) auto

lemma split_once_SomeD: "split_once c s = Some (a, b) \<Longrightarrow> s = a @ c # b \<and> c \<notin> set a"
  by (induction s arbitrary: a) (auto split: if_splits)

lemma split_on_Nil [simp]: "split_on c s \<noteq> []"
  by (induction s) (auto split: list.splits)

lemma split_on_single: "c \<notin> set a \<Longrightarrow> split_on c a = [a]"
  by (induction a) auto

lemma split_on_append: "split_on c (xs @ c # ys) = split_on c xs @ split_on c ys"
  by (induction xs) (auto split: list.splits)

lemma split_on_hd_prefix: "split_on c s = q # qs \<Longrightarrow> prefix q s"
  by (induction s arbitrary: q qs) (auto split: if_splits list.splits)

lemma split_part_sublist: "p \<in> set (split_on c s) \<Longrightarrow> sublist p s"
proof (induction s arbitrary: p)
  case (Cons x s)
  obtain q qs where q: "split_on c s = q # qs"
    using split_on_Nil [of c s] by (cases "split_on c s") auto
  then have "prefix q s" by (rule split_on_hd_prefix)
  then have "sublist (x # q) (x # s)" by (intro prefix_imp_sublist) simp
  moreover have "sublist r (x # s)" if "sublist r s" for r
    using that by (simp add: sublist_Cons_right)
  ultimately show ?case
    using Cons q by (auto split: if_splits)
qed simp

section \<open>Machines with inputs and outputs\<close>

fun run_steps :: "('i \<Rightarrow> 's \<Rightarrow> 's \<times> 'o) \<Rightarrow> 'i list \<Rightarrow> 's \<Rightarrow> 's \<times> 'o list" where
  "run_steps step [] s = (s, [])"
| "run_steps step (i # is) s =
     (let r = step i s; q = run_steps step is (fst r) in (fst q, snd r # snd q))"

fun admissible :: "('a \<Rightarrow> 'i \<Rightarrow> bool) \<Rightarrow> ('i \<Rightarrow> 'a \<Rightarrow> 'a \<times> 'o) \<Rightarrow> 'i list \<Rightarrow> 'a \<Rightarrow> bool" where
  "admissible admits step [] a = True"
| "admissible admits step (i # is) a =
     (admits a i \<and> admissible admits step is (fst (step i a)))"

lemma length_run_steps [simp]: "length (snd (run_steps step is s)) = length is"
  by (induction "is" arbitrary: s) (auto simp: Let_def)

text \<open>
  A contract of a stateful component: its operation keeps an invariant, so every run does.
\<close>

locale step_invariant =
  fixes step :: "'i \<Rightarrow> 's \<Rightarrow> 's \<times> 'o"
    and inv :: "'s \<Rightarrow> bool"
  assumes step_keeps: "inv s \<Longrightarrow> inv (fst (step i s))"
begin

lemma run_keeps: "inv s \<Longrightarrow> inv (fst (run_steps step is s))"
  by (induction "is" arbitrary: s) (auto simp: Let_def step_keeps)

end

text \<open>
  Functional refinement: the concrete operation answers as the abstract one does and keeps
  the abstraction relation, for the inputs the abstract state admits.
\<close>

locale machine_refinement =
  fixes cstep :: "'i \<Rightarrow> 'c \<Rightarrow> 'c \<times> 'o"
    and astep :: "'i \<Rightarrow> 'a \<Rightarrow> 'a \<times> 'o"
    and rel :: "'c \<Rightarrow> 'a \<Rightarrow> bool"
    and admits :: "'a \<Rightarrow> 'i \<Rightarrow> bool"
  assumes same_output: "rel c a \<Longrightarrow> admits a i \<Longrightarrow> snd (cstep i c) = snd (astep i a)"
    and rel_kept: "rel c a \<Longrightarrow> admits a i \<Longrightarrow> rel (fst (cstep i c)) (fst (astep i a))"
begin

lemma run_refines:
  "rel c a \<Longrightarrow> admissible admits astep is a \<Longrightarrow>
     snd (run_steps cstep is c) = snd (run_steps astep is a)
   \<and> rel (fst (run_steps cstep is c)) (fst (run_steps astep is a))"
  by (induction "is" arbitrary: c a) (auto simp: Let_def same_output rel_kept)

end

end
