(* ===== verification/Learning_Session.thy ===== *)
theory Learning_Session
  imports Prelude
begin

text \<open>
  The anonymous tutor sessions of the API server (\<open>server/src/routes/learning/session.rs\<close>):
  signed session tokens, the daily quota counters and the choice of the client address.

  The crates \<open>uuid\<close>, \<open>hmac\<close>/\<open>sha2\<close>, \<open>base64\<close> and \<open>http\<close> are not part of the repository:
  their functions are the fields of \<open>session_env\<close>, an argument of the definitions, and what
  the code relies on is \<open>session_env_laws\<close>.
\<close>

section \<open>State\<close>

record daily_usage =
  usage_day :: u64
  ai_turns :: u32

record ('uuid, 'ip) usage_counters =
  sessions :: "'uuid \<rightharpoonup> daily_usage"
  ips :: "'ip \<rightharpoonup> daily_usage"
  global :: daily_usage

record ('uuid, 'ip) session_env =
  uuid_simple :: "'uuid \<Rightarrow> string"
  uuid_parse :: "string \<Rightarrow> 'uuid option"
  hmac_sha256 :: "string \<Rightarrow> string \<Rightarrow> bytes option"
  b64_encode :: "bytes \<Rightarrow> string"
  b64_decode :: "string \<Rightarrow> bytes option"
  header_to_str :: "string \<Rightarrow> string option"
  ip_parse :: "string \<Rightarrow> 'ip option"

record learning_config =
  session_secret :: string
  ai_daily_limit :: u32
  ai_global_daily_limit :: u32

type_synonym headers = "string \<rightharpoonup> string"

datatype session_error =
    MissingSession
  | InvalidSession
  | InvalidSecret
  | DailyLimitReached

definition SESSION_HEADER :: string where
  "SESSION_HEADER = ''x-solpg-session''"

definition default_usage :: daily_usage where
  "default_usage = \<lparr>usage_day = 0, ai_turns = 0\<rparr>"

definition empty_counters :: "('uuid, 'ip) usage_counters" where
  "empty_counters = \<lparr>sessions = Map.empty, ips = Map.empty, global = default_usage\<rparr>"

text \<open>
  What the crates promise: a UUID's 32 digit form parses back and has no dot, base64
  decodes what it encoded and has no dot either, HMAC accepts keys of every length, and a
  header value that is a printable string reads back unchanged.
\<close>

definition session_env_laws :: "('uuid, 'ip) session_env \<Rightarrow> bool" where
  "session_env_laws E \<longleftrightarrow>
     (\<forall>uid. uuid_parse E (uuid_simple E uid) = Some uid \<and> CHR ''.'' \<notin> set (uuid_simple E uid)
        \<and> length (uuid_simple E uid) = 32)
   \<and> (\<forall>bs. b64_decode E (b64_encode E bs) = Some bs)
   \<and> (\<forall>key msg. hmac_sha256 E key msg \<noteq> None)"

section \<open>Session tokens\<close>

definition sign_session ::
  "('uuid, 'ip) session_env \<Rightarrow> learning_config \<Rightarrow> 'uuid \<Rightarrow> session_error + string" where
  "sign_session E cfg uid =
     (let payload = uuid_simple E uid
      in rbind (ok_or (hmac_sha256 E (session_secret cfg) payload) InvalidSecret) (\<lambda>mac.
         Inr (payload @ ''.'' @ b64_encode E mac)))"

definition verify_session ::
  "('uuid, 'ip) session_env \<Rightarrow> learning_config \<Rightarrow> headers \<Rightarrow> session_error + 'uuid" where
  "verify_session E cfg headers =
     rbind (ok_or (Option.bind (headers SESSION_HEADER) (header_to_str E)) MissingSession) (\<lambda>token.
     rbind (ok_or (split_once (CHR ''.'') token) InvalidSession) (\<lambda>(payload, signature).
     rbind (ok_or (uuid_parse E payload) InvalidSession) (\<lambda>uid.
     rbind (ok_or (b64_decode E signature) InvalidSession) (\<lambda>supplied.
     rbind (ok_or (hmac_sha256 E (session_secret cfg) payload) InvalidSecret) (\<lambda>mac.
     if mac = supplied then Inr uid else Inl InvalidSession)))))"

definition session_safety_id :: "('uuid, 'ip) session_env \<Rightarrow> 'uuid \<Rightarrow> (string, session_error) res" where
  "session_safety_id E owner =
     (let s = uuid_simple E owner
      in if length s < 20 then Inl Panic else Inr (''solpg_'' @ take 20 s))"

section \<open>Daily quotas\<close>

definition retain_day :: "u64 \<Rightarrow> ('k \<rightharpoonup> daily_usage) \<Rightarrow> ('k \<rightharpoonup> daily_usage)" where
  "retain_day day m = (\<lambda>k. case m k of None \<Rightarrow> None
                         | Some v \<Rightarrow> if usage_day v = day then Some v else None)"

definition or_insert :: "'k \<Rightarrow> 'v \<Rightarrow> ('k \<rightharpoonup> 'v) \<Rightarrow> ('k \<rightharpoonup> 'v)" where
  "or_insert k v m = (case m k of None \<Rightarrow> m(k \<mapsto> v) | Some _ \<Rightarrow> m)"

definition bump_turn :: "'k \<Rightarrow> ('k \<rightharpoonup> daily_usage) \<Rightarrow> ('k \<rightharpoonup> daily_usage)" where
  "bump_turn k m = m(k \<mapsto> (the (m k))\<lparr>ai_turns := ai_turns (the (m k)) + 1\<rparr>)"

definition day_of :: "u64 \<Rightarrow> u64" where
  "day_of now = now div 86400"

definition consume_ai_turn ::
  "learning_config \<Rightarrow> u64 \<Rightarrow> 'uuid \<Rightarrow> 'ip \<Rightarrow> ('uuid, 'ip) usage_counters
     \<Rightarrow> ('uuid, 'ip) usage_counters \<times> (session_error + u32)" where
  "consume_ai_turn cfg now owner peer usage =
     (let day = day_of now;
          fresh = \<lparr>usage_day = day, ai_turns = 0\<rparr>;
          sess = or_insert owner fresh (retain_day day (sessions usage));
          addrs = or_insert peer fresh (retain_day day (ips usage));
          glob = (if usage_day (global usage) \<noteq> day then fresh else global usage);
          session_turns = ai_turns (the (sess owner));
          ip_turns = ai_turns (the (addrs peer))
      in if ai_daily_limit cfg \<le> session_turns \<or> ai_daily_limit cfg \<le> ip_turns
            \<or> ai_global_daily_limit cfg \<le> ai_turns glob
         then (usage\<lparr>sessions := sess, ips := addrs, global := glob\<rparr>, Inl DailyLimitReached)
         else (usage\<lparr>sessions := bump_turn owner sess, ips := bump_turn peer addrs,
                     global := glob\<lparr>ai_turns := ai_turns glob + 1\<rparr>\<rparr>,
               Inr (ai_daily_limit cfg - (session_turns + 1))))"

section \<open>The client address\<close>

definition nth_opt :: "'a list \<Rightarrow> nat \<Rightarrow> 'a option" where
  "nth_opt xs i = (if i < length xs then Some (xs ! i) else None)"

definition client_ip :: "('uuid, 'ip) session_env \<Rightarrow> headers \<Rightarrow> 'ip \<Rightarrow> 'ip" where
  "client_ip E headers peer =
     (let forwarded =
        Option.bind (Option.bind (headers ''x-forwarded-for'') (header_to_str E)) (\<lambda>value.
          nth_opt (List.map_filter (\<lambda>part. ip_parse E (trim_str part))
                     (rev (split_on (CHR '','') value))) 1)
      in case forwarded of
           Some ip \<Rightarrow> ip
         | None \<Rightarrow>
             (case Option.bind (Option.bind (headers ''x-appengine-user-ip'') (header_to_str E)) (ip_parse E) of
                Some ip \<Rightarrow> ip
              | None \<Rightarrow> peer))"

section \<open>Tokens: round trip and authenticity\<close>

lemma sign_session_Inr_iff:
  "sign_session E cfg uid = Inr token \<longleftrightarrow>
     (\<exists>mac. hmac_sha256 E (session_secret cfg) (uuid_simple E uid) = Some mac
          \<and> token = uuid_simple E uid @ CHR ''.'' # b64_encode E mac)"
  by (auto simp: sign_session_def Let_def result_iffs)

lemma verify_session_Inr_iff:
  "verify_session E cfg headers = Inr uid \<longleftrightarrow>
     (\<exists>raw token payload signature mac.
        headers SESSION_HEADER = Some raw \<and> header_to_str E raw = Some token
      \<and> split_once (CHR ''.'') token = Some (payload, signature)
      \<and> uuid_parse E payload = Some uid \<and> b64_decode E signature = Some mac
      \<and> hmac_sha256 E (session_secret cfg) payload = Some mac)"
  by (auto simp: verify_session_def result_iffs Option.bind_eq_Some_conv split: if_splits prod.splits)

text \<open>
  A token \<open>sign_session\<close> issued for a session verifies to that session wherever it is
  presented in the session header.
\<close>

theorem session_round_trip:
  assumes "session_env_laws E"
  shows "\<exists>token. sign_session E cfg uid = Inr token
     \<and> (\<forall>headers. headers SESSION_HEADER = Some token \<longrightarrow> header_to_str E token = Some token
          \<longrightarrow> verify_session E cfg headers = Inr uid)"
proof -
  obtain mac where mac: "hmac_sha256 E (session_secret cfg) (uuid_simple E uid) = Some mac"
    using assms by (fastforce simp: session_env_laws_def)
  let ?token = "uuid_simple E uid @ CHR ''.'' # b64_encode E mac"
  have "split_once (CHR ''.'') ?token = Some (uuid_simple E uid, b64_encode E mac)"
    using assms by (intro split_once_append) (simp add: session_env_laws_def)
  then show ?thesis
    using assms mac
    by (intro exI [of _ ?token]) (auto simp: sign_session_Inr_iff verify_session_Inr_iff session_env_laws_def)
qed

text \<open>
  C1. A token is accepted only under its own MAC.  When the header holds a token, the session is that
  of an id exactly if the token is a text that parses as the id, a dot, and a base64 encoding of the
  MAC of that text, and everything else is refused as an invalid session: a token without a dot or
  with a text that is no id, and, behind whatever text, a signature that is empty, cut short,
  undecodable or that of another text.  The token the server issued is accepted.
\<close>

theorem session_tamper_rejected:
  assumes "session_env_laws E" and "headers SESSION_HEADER = Some raw" and "header_to_str E raw = Some token"
  shows "(verify_session E cfg headers = Inr uid \<longleftrightarrow>
      (\<exists>payload signature mac. token = payload @ CHR ''.'' # signature \<and> CHR ''.'' \<notin> set payload
         \<and> uuid_parse E payload = Some uid
         \<and> hmac_sha256 E (session_secret cfg) payload = Some mac \<and> b64_decode E signature = Some mac))
    \<and> (\<forall>payload signature. token = payload @ CHR ''.'' # signature \<and> CHR ''.'' \<notin> set payload
         \<and> b64_decode E signature \<noteq> hmac_sha256 E (session_secret cfg) payload \<longrightarrow>
         verify_session E cfg headers = Inl InvalidSession)
    \<and> (CHR ''.'' \<notin> set token \<longrightarrow> verify_session E cfg headers = Inl InvalidSession)
    \<and> (sign_session E cfg uid = Inr token \<longrightarrow> verify_session E cfg headers = Inr uid)"
proof -
  define mac where "mac payload = the (hmac_sha256 E (session_secret cfg) payload)" for payload
  have mac: "hmac_sha256 E (session_secret cfg) payload = Some (mac payload)" for payload
    using assms(1) by (simp add: session_env_laws_def mac_def)
  have split: "split_once (CHR ''.'') (payload @ CHR ''.'' # signature) = Some (payload, signature)"
    if "CHR ''.'' \<notin> set payload" for payload signature
    using that by (rule split_once_append)
  have verify: "verify_session E cfg headers =
      (case split_once (CHR ''.'') token of
         None \<Rightarrow> Inl InvalidSession
       | Some (payload, signature) \<Rightarrow>
          (case uuid_parse E payload of
             None \<Rightarrow> Inl InvalidSession
           | Some uid \<Rightarrow> if b64_decode E signature = Some (mac payload) then Inr uid else Inl InvalidSession))"
  proof (cases "split_once (CHR ''.'') token")
    case None
    then show ?thesis by (simp add: verify_session_def assms(2,3))
  next
    case (Some parts)
    then show ?thesis
      by (cases "uuid_parse E (fst parts)"; cases "b64_decode E (snd parts)"; cases parts)
        (auto simp: verify_session_def assms(2,3) mac)
  qed
  have issued: "verify_session E cfg headers = Inr uid" if "sign_session E cfg uid = Inr token"
    using that assms(1) split [of "uuid_simple E uid"]
    by (auto simp: verify sign_session_Inr_iff session_env_laws_def mac)
  have accepted: "verify_session E cfg headers = Inr uid \<longleftrightarrow>
      (\<exists>payload signature mac. token = payload @ CHR ''.'' # signature \<and> CHR ''.'' \<notin> set payload
         \<and> uuid_parse E payload = Some uid
         \<and> hmac_sha256 E (session_secret cfg) payload = Some mac \<and> b64_decode E signature = Some mac)"
    unfolding verify_session_Inr_iff by (simp add: assms(2,3)) (metis split split_once_SomeD)
  have others: "verify_session E cfg headers = Inl InvalidSession"
    if "token = payload @ CHR ''.'' # signature \<and> CHR ''.'' \<notin> set payload
         \<and> b64_decode E signature \<noteq> hmac_sha256 E (session_secret cfg) payload" for payload signature
    using that by (simp add: verify split mac split: option.split)
  have undotted: "verify_session E cfg headers = Inl InvalidSession" if "CHR ''.'' \<notin> set token"
    using that by (cases "split_once (CHR ''.'') token") (auto simp: verify dest: split_once_SomeD)
  from accepted others undotted issued show ?thesis by blast
qed

definition sample_env :: "(bool, string) session_env" where
  "sample_env = \<lparr>
     uuid_simple = (\<lambda>b. replicate 32 (if b then CHR ''a'' else CHR ''b'')),
     uuid_parse = (\<lambda>s. if s = replicate 32 (CHR ''a'') then Some True
                       else if s = replicate 32 (CHR ''b'') then Some False else None),
     hmac_sha256 = (\<lambda>key msg. Some (map (of_nat \<circ> of_char) (key @ msg))),
     b64_encode = map (char_of \<circ> unat),
     b64_decode = (\<lambda>s. Some (map (of_nat \<circ> of_char) s)),
     header_to_str = Some,
     ip_parse = (\<lambda>s. if s = [] then None else Some s)\<rparr>"

definition sample_config :: learning_config where
  "sample_config = \<lparr>session_secret = ''k'', ai_daily_limit = 2, ai_global_daily_limit = 3\<rparr>"

lemma of_nat_of_char_of [simp]: "of_nat (of_char (char_of (unat b) :: char)) = b" for b :: u8
  by simp

lemma sample_env_laws: "session_env_laws sample_env"
  by (auto simp: session_env_laws_def sample_env_def map_idI)

theorem session_round_trip_witness:
  "\<exists>token. sign_session sample_env sample_config True = Inr token
     \<and> verify_session sample_env sample_config [SESSION_HEADER \<mapsto> token] = Inr True"
proof -
  from session_round_trip [OF sample_env_laws, of sample_config True] obtain token where
    "sign_session sample_env sample_config True = Inr token"
    and "\<forall>headers. headers SESSION_HEADER = Some token \<longrightarrow> header_to_str sample_env token = Some token
          \<longrightarrow> verify_session sample_env sample_config headers = Inr True"
    by blast
  then show ?thesis by (intro exI [of _ token]) (simp add: sample_env_def)
qed

theorem session_tamper_rejected_witness:
  "let mac = hmac_sha256 sample_env ''k'' (uuid_simple sample_env True);
       verify = (\<lambda>token. verify_session sample_env sample_config [SESSION_HEADER \<mapsto> token]) in
     verify (replicate 32 (CHR ''b'') @ CHR ''.'' # b64_encode sample_env (the mac)) = Inl InvalidSession
   \<and> verify (replicate 32 (CHR ''a'') @ ''.'') = Inl InvalidSession
   \<and> verify (replicate 32 (CHR ''a'') @ CHR ''.'' # b64_encode sample_env (the mac)) = Inr True"
proof -
  define mac where "mac = the (hmac_sha256 sample_env ''k'' (uuid_simple sample_env True))"
  note checked = session_tamper_rejected [OF sample_env_laws, where cfg = sample_config and uid = True
      and headers = "[SESSION_HEADER \<mapsto> token]" and raw = token and token = token for token]
  have sample: "[SESSION_HEADER \<mapsto> token] SESSION_HEADER = Some token" "header_to_str sample_env token = Some token"
    for token
    by (simp_all add: sample_env_def)
  have "b64_decode sample_env (b64_encode sample_env mac)
      \<noteq> hmac_sha256 sample_env (session_secret sample_config) (replicate 32 (CHR ''b''))"
    "b64_decode sample_env [] \<noteq> hmac_sha256 sample_env (session_secret sample_config) (replicate 32 (CHR ''a''))"
    using sample_env_laws
    by (simp_all add: session_env_laws_def mac_def)
      (simp_all add: sample_env_def sample_config_def numeral_eq_Suc)
  moreover have "sign_session sample_env sample_config True
      = Inr (replicate 32 (CHR ''a'') @ CHR ''.'' # b64_encode sample_env mac)"
    by (simp add: sign_session_def sample_env_def sample_config_def mac_def)
  ultimately show ?thesis
    unfolding Let_def mac_def [symmetric]
    using checked [OF sample, of "replicate 32 (CHR ''b'') @ CHR ''.'' # b64_encode sample_env mac"]
      checked [OF sample, of "replicate 32 (CHR ''a'') @ ''.''"]
      checked [OF sample, of "replicate 32 (CHR ''a'') @ CHR ''.'' # b64_encode sample_env mac"]
    by simp
qed

section \<open>Quotas: refinement of a history of accepted turns\<close>

text \<open>
  The abstract quota is the list of accepted turns and the day of the latest request; a turn
  is accepted when fewer than the limits were accepted on its day for its session, for its
  address and overall.  The counters implement it as long as the clock does not run back
  across a day boundary (\<open>clock_admits\<close>).  The day is read before the counters are locked, so
  requests can reach them out of day order: \<open>day_log_turn\<close> is the quota they implement then, the
  same log, emptied whenever the day of a request is not the day of the request before it.
\<close>

type_synonym ('uuid, 'ip) turn = "u64 \<times> 'uuid \<times> 'ip"

definition turns_where :: "('t \<Rightarrow> bool) \<Rightarrow> 't list \<Rightarrow> nat" where
  "turns_where P h = length (filter P h)"

definition spec_turn ::
  "learning_config \<Rightarrow> u64 \<times> 'uuid \<times> 'ip \<Rightarrow> u64 \<times> ('uuid, 'ip) turn list
     \<Rightarrow> (u64 \<times> ('uuid, 'ip) turn list) \<times> (session_error + u32)" where
  "spec_turn cfg = (\<lambda>(now, owner, peer) (_, h).
     let day = day_of now;
         n = turns_where (\<lambda>(d, s, a). d = day \<and> s = owner) h
     in if n < unat (ai_daily_limit cfg)
           \<and> turns_where (\<lambda>(d, s, a). d = day \<and> a = peer) h < unat (ai_daily_limit cfg)
           \<and> turns_where (\<lambda>(d, s, a). d = day) h < unat (ai_global_daily_limit cfg)
        then ((day, (day, owner, peer) # h), Inr (ai_daily_limit cfg - of_nat (Suc n)))
        else ((day, h), Inl DailyLimitReached))"

definition day_log_turn ::
  "learning_config \<Rightarrow> u64 \<times> 'uuid \<times> 'ip \<Rightarrow> u64 \<times> ('uuid, 'ip) turn list
     \<Rightarrow> (u64 \<times> ('uuid, 'ip) turn list) \<times> (session_error + u32)" where
  "day_log_turn cfg = (\<lambda>request (day, h).
     spec_turn cfg request (day, if day_of (fst request) = day then h else []))"

definition clock_admits :: "u64 \<times> 'h \<Rightarrow> u64 \<times> 'uuid \<times> 'ip \<Rightarrow> bool" where
  "clock_admits = (\<lambda>(day, _) (now, _, _). day \<le> day_of now)"

definition turn_step ::
  "learning_config \<Rightarrow> u64 \<times> 'uuid \<times> 'ip \<Rightarrow> ('uuid, 'ip) usage_counters
     \<Rightarrow> ('uuid, 'ip) usage_counters \<times> (session_error + u32)" where
  "turn_step cfg = (\<lambda>(now, owner, peer). consume_ai_turn cfg now owner peer)"

definition counts_for :: "u64 \<Rightarrow> ('k \<Rightarrow> nat) \<Rightarrow> ('k \<rightharpoonup> daily_usage) \<Rightarrow> bool" where
  "counts_for day count m \<longleftrightarrow>
     (\<forall>k. case m k of None \<Rightarrow> count k = 0 | Some v \<Rightarrow> usage_day v = day \<and> unat (ai_turns v) = count k)"

definition usage_rel :: "('uuid, 'ip) usage_counters \<Rightarrow> u64 \<times> ('uuid, 'ip) turn list \<Rightarrow> bool" where
  "usage_rel u = (\<lambda>(day, h).
     (\<forall>(d, s, a) \<in> set h. d \<le> day)
   \<and> counts_for day (\<lambda>k. turns_where (\<lambda>(d, s, a). d = day \<and> s = k) h) (sessions u)
   \<and> counts_for day (\<lambda>k. turns_where (\<lambda>(d, s, a). d = day \<and> a = k) h) (ips u)
   \<and> usage_day (global u) = day
   \<and> unat (ai_turns (global u)) = turns_where (\<lambda>(d, s, a). d = day) h)"

lemma turns_where_simps [simp]:
  "turns_where P [] = 0"
  "turns_where P (t # h) = (if P t then Suc (turns_where P h) else turns_where P h)"
  by (simp_all add: turns_where_def)

lemma turns_where_none: "(\<And>t. t \<in> set h \<Longrightarrow> \<not> P t) \<Longrightarrow> turns_where P h = 0"
  by (simp add: turns_where_def)

lemma counts_for_iff:
  "counts_for day count m \<longleftrightarrow>
     (\<forall>k v. m k = Some v \<longrightarrow> usage_day v = day \<and> unat (ai_turns v) = count k)
   \<and> (\<forall>k. m k = None \<longrightarrow> count k = 0)"
  by (auto simp: counts_for_def split: option.splits)

lemma or_insert_eq: "or_insert k v m = m(k \<mapsto> (case m k of None \<Rightarrow> v | Some v' \<Rightarrow> v'))"
  by (auto simp: or_insert_def fun_eq_iff split: option.splits)

lemma or_insert_Some: "\<exists>v. or_insert k fresh m k = Some v"
  by (simp add: or_insert_eq)

lemma counts_for_same_day:
  "counts_for day count m \<Longrightarrow>
     counts_for day count (or_insert k \<lparr>usage_day = day, ai_turns = 0\<rparr> (retain_day day m))"
  by (auto simp: counts_for_iff or_insert_eq retain_day_def split: option.splits if_splits)

lemma counts_for_new_day:
  "counts_for day count m \<Longrightarrow> day' \<noteq> day \<Longrightarrow>
     counts_for day' (\<lambda>_. 0) (or_insert k \<lparr>usage_day = day', ai_turns = 0\<rparr> (retain_day day' m))"
  by (auto simp: counts_for_iff or_insert_eq retain_day_def split: option.splits if_splits)

lemma unat_succ_turn: "a < b \<Longrightarrow> unat (a + 1) = Suc (unat a)" for a b :: u32
  using unat_lt_width [of b] by (simp add: word_less_nat_alt unat_word_ariths)

lemma counts_for_bump:
  assumes "counts_for day count m" "m k = Some v" "ai_turns v < b"
  shows "counts_for day (count(k := Suc (count k))) (bump_turn k m)"
  using assms unat_succ_turn [of "ai_turns v" b]
  by (simp add: counts_for_iff bump_turn_def)

lemma spec_day_change:
  assumes "usage_rel u (day, h)" "day < day'"
  shows "turns_where (\<lambda>(d, s, a). d = day' \<and> Q d s a) h = 0"
  using assms by (intro turns_where_none) (fastforce simp: usage_rel_def)

lemma reset_counts:
  assumes rel: "usage_rel u (day, h)" and "day \<le> day'"
  defines "fresh \<equiv> \<lparr>usage_day = day', ai_turns = 0\<rparr>"
  shows "counts_for day' (\<lambda>k. turns_where (\<lambda>(d, s, a). d = day' \<and> s = k) h)
           (or_insert owner fresh (retain_day day' (sessions u)))" (is ?S)
    and "counts_for day' (\<lambda>k. turns_where (\<lambda>(d, s, a). d = day' \<and> a = k) h)
           (or_insert peer fresh (retain_day day' (ips u)))" (is ?I)
    and "unat (ai_turns (if usage_day (global u) \<noteq> day' then fresh else global u))
           = turns_where (\<lambda>(d, s, a). d = day') h" (is ?G)
proof -
  have cs: "counts_for day (\<lambda>k. turns_where (\<lambda>(d, s, a). d = day \<and> s = k) h) (sessions u)"
    and ci: "counts_for day (\<lambda>k. turns_where (\<lambda>(d, s, a). d = day \<and> a = k) h) (ips u)"
    and gd: "usage_day (global u) = day"
    and gc: "unat (ai_turns (global u)) = turns_where (\<lambda>(d, s, a). d = day) h"
    using rel by (simp_all add: usage_rel_def)
  have "?S \<and> ?I \<and> ?G"
  proof (cases "day' = day")
    case True
    then show ?thesis
      using counts_for_same_day [OF cs] counts_for_same_day [OF ci] gd gc by (simp add: fresh_def)
  next
    case False
    with assms(2) have lt: "day < day'" by simp
    have "(\<lambda>k. turns_where (\<lambda>(d, s, a). d = day' \<and> s = k) h) = (\<lambda>_. 0)"
      and "(\<lambda>k. turns_where (\<lambda>(d, s, a). d = day' \<and> a = k) h) = (\<lambda>_. 0)"
      and "turns_where (\<lambda>(d, s, a). d = day') h = 0"
      using spec_day_change [OF rel lt, of "\<lambda>_ s _. s = k" for k]
        spec_day_change [OF rel lt, of "\<lambda>_ _ a. a = k" for k]
        spec_day_change [OF rel lt, of "\<lambda>_ _ _. True"] by simp_all
    then show ?thesis
      using counts_for_new_day [OF cs False] counts_for_new_day [OF ci False] gd False
      by (simp add: fresh_def)
  qed
  then show ?S and ?I and ?G by blast+
qed

lemma spec_turn_eq:
  "spec_turn cfg (now, owner, peer) (day, h) =
     (let day' = day_of now; n = turns_where (\<lambda>(d, s, a). d = day' \<and> s = owner) h
      in if n < unat (ai_daily_limit cfg)
           \<and> turns_where (\<lambda>(d, s, a). d = day' \<and> a = peer) h < unat (ai_daily_limit cfg)
           \<and> turns_where (\<lambda>(d, s, a). d = day') h < unat (ai_global_daily_limit cfg)
         then ((day', (day', owner, peer) # h), Inr (ai_daily_limit cfg - of_nat (Suc n)))
         else ((day', h), Inl DailyLimitReached))"
  by (simp add: spec_turn_def)

lemma usage_rel_extend:
  assumes "\<forall>(d, s, a) \<in> set h. d \<le> day"
    and "counts_for day (\<lambda>k. turns_where (\<lambda>(d, s, a). d = day \<and> s = k) h) S" "S owner = Some v"
    and "counts_for day (\<lambda>k. turns_where (\<lambda>(d, s, a). d = day \<and> a = k) h) I" "I peer = Some w"
    and "usage_day g = day" "unat (ai_turns g) = turns_where (\<lambda>(d, s, a). d = day) h"
    and "ai_turns v < lim" "ai_turns w < lim" "ai_turns g < glim"
  shows "usage_rel (u\<lparr>sessions := bump_turn owner S, ips := bump_turn peer I,
                       global := g\<lparr>ai_turns := ai_turns g + 1\<rparr>\<rparr>) (day, (day, owner, peer) # h)"
proof -
  have "(\<lambda>k. turns_where (\<lambda>(d, s, a). d = day \<and> s = k) ((day, owner, peer) # h))
      = (\<lambda>k. turns_where (\<lambda>(d, s, a). d = day \<and> s = k) h)
          (owner := Suc (turns_where (\<lambda>(d, s, a). d = day \<and> s = owner) h))"
    by (auto simp: fun_eq_iff)
  moreover have "(\<lambda>k. turns_where (\<lambda>(d, s, a). d = day \<and> a = k) ((day, owner, peer) # h))
      = (\<lambda>k. turns_where (\<lambda>(d, s, a). d = day \<and> a = k) h)
          (peer := Suc (turns_where (\<lambda>(d, s, a). d = day \<and> a = peer) h))"
    by (auto simp: fun_eq_iff)
  ultimately show ?thesis
    using assms counts_for_bump [OF assms(2,3,8)] counts_for_bump [OF assms(4,5,9)]
    by (simp add: usage_rel_def unat_succ_turn [OF assms(10)])
qed

lemma consume_refines_counts:
  fixes u :: "('uuid, 'ip) usage_counters"
  defines "fresh \<equiv> \<lambda>now. \<lparr>usage_day = day_of now, ai_turns = 0\<rparr>"
  assumes old: "\<forall>(d, s, a) \<in> set h. d \<le> day_of now"
    and cs: "counts_for (day_of now) (\<lambda>k. turns_where (\<lambda>(d, s, a). d = day_of now \<and> s = k) h)
               (or_insert owner (fresh now) (retain_day (day_of now) (sessions u)))"
    and ci: "counts_for (day_of now) (\<lambda>k. turns_where (\<lambda>(d, s, a). d = day_of now \<and> a = k) h)
               (or_insert peer (fresh now) (retain_day (day_of now) (ips u)))"
    and cg: "unat (ai_turns (if usage_day (global u) \<noteq> day_of now then fresh now else global u))
               = turns_where (\<lambda>(d, s, a). d = day_of now) h"
  shows "snd (consume_ai_turn cfg now owner peer u) = snd (spec_turn cfg (now, owner, peer) (day, h))
     \<and> usage_rel (fst (consume_ai_turn cfg now owner peer u))
                 (fst (spec_turn cfg (now, owner, peer) (day, h)))"
proof -
  define D where "D = day_of now"
  define S where "S = or_insert owner (fresh now) (retain_day D (sessions u))"
  define I where "I = or_insert peer (fresh now) (retain_day D (ips u))"
  define g where "g = (if usage_day (global u) \<noteq> D then fresh now else global u)"
  obtain v w where v: "S owner = Some v" and w: "I peer = Some w"
    using or_insert_Some [of owner] or_insert_Some [of peer] unfolding S_def I_def by metis
  have cs: "counts_for D (\<lambda>k. turns_where (\<lambda>(d, s, a). d = D \<and> s = k) h) S"
    and ci: "counts_for D (\<lambda>k. turns_where (\<lambda>(d, s, a). d = D \<and> a = k) h) I"
    and cg: "unat (ai_turns g) = turns_where (\<lambda>(d, s, a). d = D) h"
    using assms unfolding S_def I_def g_def D_def by simp_all
  have tv: "unat (ai_turns v) = turns_where (\<lambda>(d, s, a). d = D \<and> s = owner) h"
    and tw: "unat (ai_turns w) = turns_where (\<lambda>(d, s, a). d = D \<and> a = peer) h"
    using cs ci v w by (auto simp: counts_for_iff)
  have gday: "usage_day g = D" by (simp add: g_def fresh_def D_def)
  have old: "\<forall>(d, s, a) \<in> set h. d \<le> D"
    using old by (simp add: D_def)
  have step: "consume_ai_turn cfg now owner peer u =
      (if ai_turns v < ai_daily_limit cfg \<and> ai_turns w < ai_daily_limit cfg
          \<and> ai_turns g < ai_global_daily_limit cfg
       then (u\<lparr>sessions := bump_turn owner S, ips := bump_turn peer I,
               global := g\<lparr>ai_turns := ai_turns g + 1\<rparr>\<rparr>, Inr (ai_daily_limit cfg - (ai_turns v + 1)))
       else (u\<lparr>sessions := S, ips := I, global := g\<rparr>, Inl DailyLimitReached))"
    using v w by (auto simp: consume_ai_turn_def Let_def S_def I_def g_def D_def fresh_def not_le)
  have out: "ai_turns v + 1 = of_nat (Suc (turns_where (\<lambda>(d, s, a). d = D \<and> s = owner) h))"
    using tv by (metis of_nat_Suc of_nat_unat ucast_id add.commute)
  have spec: "spec_turn cfg (now, owner, peer) (day, h) =
      (if ai_turns v < ai_daily_limit cfg \<and> ai_turns w < ai_daily_limit cfg
          \<and> ai_turns g < ai_global_daily_limit cfg
       then ((D, (D, owner, peer) # h), Inr (ai_daily_limit cfg - (ai_turns v + 1)))
       else ((D, h), Inl DailyLimitReached))"
    unfolding spec_turn_eq Let_def D_def [symmetric] word_less_nat_alt out tv tw cg by (rule refl)
  show ?thesis
  proof (cases "ai_turns v < ai_daily_limit cfg \<and> ai_turns w < ai_daily_limit cfg
      \<and> ai_turns g < ai_global_daily_limit cfg")
    case True
    then have "usage_rel (u\<lparr>sessions := bump_turn owner S, ips := bump_turn peer I,
        global := g\<lparr>ai_turns := ai_turns g + 1\<rparr>\<rparr>) (D, (D, owner, peer) # h)"
      by (intro usage_rel_extend [OF old cs v ci w gday cg, where lim = "ai_daily_limit cfg"
            and glim = "ai_global_daily_limit cfg"]) simp_all
    with True show ?thesis by (simp only: step spec) simp
  next
    case False
    have "usage_rel (u\<lparr>sessions := S, ips := I, global := g\<rparr>) (D, h)"
      using old cs ci gday cg by (simp add: usage_rel_def)
    with False show ?thesis by (simp only: step spec) simp
  qed
qed

lemma consume_refines_spec:
  assumes rel: "usage_rel u (day, h)" and le: "day \<le> day_of now"
  shows "snd (consume_ai_turn cfg now owner peer u) = snd (spec_turn cfg (now, owner, peer) (day, h))
     \<and> usage_rel (fst (consume_ai_turn cfg now owner peer u))
                 (fst (spec_turn cfg (now, owner, peer) (day, h)))"
proof (rule consume_refines_counts)
  show "\<forall>(d, s, a) \<in> set h. d \<le> day_of now"
    using rel le by (fastforce simp: usage_rel_def)
qed (rule reset_counts [OF rel le])+

lemma consume_refines_day_log:
  assumes rel: "usage_rel u (day, h)"
  shows "snd (consume_ai_turn cfg now owner peer u) = snd (day_log_turn cfg (now, owner, peer) (day, h))
     \<and> usage_rel (fst (consume_ai_turn cfg now owner peer u))
                 (fst (day_log_turn cfg (now, owner, peer) (day, h)))"
proof (cases "day_of now = day")
  case True
  then show ?thesis using consume_refines_spec [OF rel] by (simp add: day_log_turn_def)
next
  case False
  with rel have "counts_for (day_of now) (\<lambda>_. 0)
        (or_insert owner \<lparr>usage_day = day_of now, ai_turns = 0\<rparr> (retain_day (day_of now) (sessions u)))"
    "counts_for (day_of now) (\<lambda>_. 0)
        (or_insert peer \<lparr>usage_day = day_of now, ai_turns = 0\<rparr> (retain_day (day_of now) (ips u)))"
    "usage_day (global u) \<noteq> day_of now"
    by (auto simp: usage_rel_def intro: counts_for_new_day)
  with False show ?thesis
    using consume_refines_counts [of "[]" now owner u peer cfg day] by (simp add: day_log_turn_def)
qed

lemma turn_step_refines_log:
  assumes "usage_rel u a"
  shows "snd (turn_step cfg i u) = snd (day_log_turn cfg i a)
     \<and> usage_rel (fst (turn_step cfg i u)) (fst (day_log_turn cfg i a))"
  using assms by (cases a; cases i) (simp add: turn_step_def consume_refines_day_log)

lemma turn_step_refines:
  assumes "usage_rel u a" "clock_admits a i"
  shows "snd (turn_step cfg i u) = snd (spec_turn cfg i a)
     \<and> usage_rel (fst (turn_step cfg i u)) (fst (spec_turn cfg i a))"
proof -
  obtain day h now owner peer where "a = (day, h)" "i = (now, owner, peer)"
    by (cases a, cases i)
  with assms show ?thesis
    by (simp add: turn_step_def clock_admits_def consume_refines_spec)
qed

interpretation quota: machine_refinement "turn_step cfg" "spec_turn cfg" usage_rel clock_admits for cfg
  by unfold_locales (simp_all add: turn_step_refines)

interpretation day_log: machine_refinement "turn_step cfg" "day_log_turn cfg" usage_rel "\<lambda>_ _. True" for cfg
  by unfold_locales (simp_all add: turn_step_refines_log)

lemma always_admissible: "admissible (\<lambda>_ _. True) step reqs a"
  by (induction reqs arbitrary: a) simp_all

definition within_limits :: "learning_config \<Rightarrow> u64 \<times> ('uuid, 'ip) turn list \<Rightarrow> bool" where
  "within_limits cfg = (\<lambda>(_, h). \<forall>day.
     (\<forall>k. turns_where (\<lambda>(d, s, a). d = day \<and> s = k) h \<le> unat (ai_daily_limit cfg))
   \<and> (\<forall>k. turns_where (\<lambda>(d, s, a). d = day \<and> a = k) h \<le> unat (ai_daily_limit cfg))
   \<and> turns_where (\<lambda>(d, s, a). d = day) h \<le> unat (ai_global_daily_limit cfg))"

lemma spec_turn_within_limits: "within_limits cfg a \<Longrightarrow> within_limits cfg (fst (spec_turn cfg i a))"
  by (cases a, cases i) (auto simp: spec_turn_eq within_limits_def Let_def)

interpretation spec_quota: step_invariant "spec_turn cfg" "within_limits cfg" for cfg
  by unfold_locales (rule spec_turn_within_limits)

definition accepted :: "(u64 \<times> 'uuid \<times> 'ip) list \<Rightarrow> (session_error + u32) list \<Rightarrow> ('uuid, 'ip) turn list" where
  "accepted reqs outs =
     map (\<lambda>((now, owner, peer), _). (day_of now, owner, peer)) (filter (is_ok \<circ> snd) (zip reqs outs))"

lemma spec_history:
  "snd (fst (run_steps (spec_turn cfg) reqs (day, h)))
     = rev (accepted reqs (snd (run_steps (spec_turn cfg) reqs (day, h)))) @ h"
proof (induction reqs arbitrary: day h)
  case (Cons r reqs)
  obtain now owner peer where r: "r = (now, owner, peer)" by (cases r)
  show ?case
    by (simp add: r Let_def spec_turn_eq Cons.IH accepted_def)
qed (simp add: accepted_def)

lemma clock_sorted_admissible:
  "sorted (map (day_of \<circ> fst) reqs) \<Longrightarrow> (\<And>r. r \<in> set reqs \<Longrightarrow> day \<le> day_of (fst r))
     \<Longrightarrow> admissible clock_admits (spec_turn cfg) reqs (day, h)"
proof (induction reqs arbitrary: day h)
  case (Cons r reqs)
  obtain now owner peer where r: "r = (now, owner, peer)" by (cases r)
  have "day \<le> day_of now" using Cons.prems(2) [of r] r by simp
  moreover have "admissible clock_admits (spec_turn cfg) reqs (day_of now, h')" for h'
    using Cons.prems(1) r by (intro Cons.IH) auto
  ultimately show ?case
    by (simp add: r clock_admits_def spec_turn_eq Let_def)
qed simp

lemma empty_counters_rel: "usage_rel empty_counters (0, [])"
  by (simp add: usage_rel_def empty_counters_def default_usage_def counts_for_iff)

text \<open>
  C2. The quota counters implement a log of the accepted turns, whatever the order in which the
  requests reach them: every request is answered (with the same remaining allowance, or refused)
  exactly as the log of the turns accepted since the day of the requests last changed prescribes.
  When the days never run back, that is what the complete list of accepted turns prescribes.
\<close>

theorem quota_history_refinement:
  "snd (run_steps (turn_step cfg) reqs empty_counters) = snd (run_steps (day_log_turn cfg) reqs (0, []))
   \<and> (sorted (map (day_of \<circ> fst) reqs) \<longrightarrow>
        snd (run_steps (turn_step cfg) reqs empty_counters) = snd (run_steps (spec_turn cfg) reqs (0, [])))"
proof (intro conjI impI)
  show "snd (run_steps (turn_step cfg) reqs empty_counters) = snd (run_steps (day_log_turn cfg) reqs (0, []))"
    using day_log.run_refines [OF empty_counters_rel always_admissible] by blast
  assume "sorted (map (day_of \<circ> fst) reqs)"
  then show "snd (run_steps (turn_step cfg) reqs empty_counters) = snd (run_steps (spec_turn cfg) reqs (0, []))"
    using quota.run_refines [OF empty_counters_rel clock_sorted_admissible] by fastforce
qed

text \<open>
  C3. The daily limits hold for every session, every address and the whole server: over any
  sequence of requests whose clock does not run back across a day, no day sees more accepted
  turns than configured.
\<close>

theorem quota_limits_hold:
  assumes "sorted (map (day_of \<circ> fst) reqs)"
    and "turns = accepted reqs (snd (run_steps (turn_step cfg) reqs empty_counters))"
  shows "turns_where (\<lambda>(d, s, a). d = day \<and> s = owner) turns \<le> unat (ai_daily_limit cfg)
    \<and> turns_where (\<lambda>(d, s, a). d = day \<and> a = peer) turns \<le> unat (ai_daily_limit cfg)
    \<and> turns_where (\<lambda>(d, s, a). d = day) turns \<le> unat (ai_global_daily_limit cfg)"
proof -
  have same: "snd (run_steps (turn_step cfg) reqs empty_counters)
      = snd (run_steps (spec_turn cfg) reqs (0, []))"
    using quota.run_refines [OF empty_counters_rel clock_sorted_admissible] assms(1) by fastforce
  have "within_limits cfg (0, [])" by (simp add: within_limits_def)
  then have "within_limits cfg (fst (run_steps (spec_turn cfg) reqs (0, [])))"
    by (rule spec_quota.run_keeps)
  then obtain d where "within_limits cfg (d, rev turns)"
    using spec_history [of cfg reqs 0 "[]"]
    by (cases "fst (run_steps (spec_turn cfg) reqs (0, []))") (simp add: assms(2) same)
  moreover have "turns_where P (rev turns) = turns_where P turns" for P
    by (simp add: turns_where_def rev_filter [symmetric])
  ultimately show ?thesis
    by (simp add: within_limits_def)
qed

definition sample_requests :: "(u64 \<times> bool \<times> string) list" where
  "sample_requests = [(10, True, ''a''), (20, True, ''b''), (30, True, ''c''), (86400, True, ''a'')]"

lemma sample_requests_sorted: "sorted (map (day_of \<circ> fst) sample_requests)"
  by (simp add: sample_requests_def day_of_def)

theorem quota_history_refinement_witness:
  "snd (run_steps (turn_step sample_config) sample_requests empty_counters)
     = [Inr 1, Inr 0, Inl DailyLimitReached, Inr 1]
   \<and> snd (run_steps (turn_step sample_config) [(10, True, ''a''), (86400, True, ''a''), (20, True, ''a'')]
        empty_counters) = [Inr 1, Inr 1, Inr 1]"
proof -
  have "snd (run_steps (spec_turn sample_config) sample_requests (0, []))
     = [Inr 1, Inr 0, Inl DailyLimitReached, Inr 1]"
    by (simp add: sample_requests_def spec_turn_eq sample_config_def day_of_def Let_def)
  moreover have "snd (run_steps (day_log_turn sample_config)
      [(10, True, ''a''), (86400, True, ''a''), (20, True, ''a'')] (0, [])) = [Inr 1, Inr 1, Inr 1]"
    by (simp add: day_log_turn_def spec_turn_eq sample_config_def day_of_def Let_def)
  ultimately show ?thesis
    by (simp only: quota_history_refinement [THEN conjunct2, rule_format, OF sample_requests_sorted]
        quota_history_refinement [THEN conjunct1, of sample_config
          "[(10, True, ''a''), (86400, True, ''a''), (20, True, ''a'')]"])
qed

theorem quota_limits_hold_witness:
  "turns_where (\<lambda>(d, s, a). d = 0 \<and> s = True)
     (accepted sample_requests
       (snd (run_steps (turn_step sample_config) sample_requests empty_counters))) \<le> 2"
  using quota_limits_hold [OF sample_requests_sorted refl, where cfg = sample_config and day = 0 and owner = True]
  by (simp add: sample_config_def)

section \<open>The client address cannot be spoofed by a prefix\<close>

text \<open>
  The load balancer appends the client's and its own address to \<open>X-Forwarded-For\<close>:
  whatever the caller put in front of them, \<open>client_ip\<close> returns the second address from
  the right.
\<close>

theorem client_ip_ignores_forged_prefix:
  assumes "headers ''x-forwarded-for'' = Some raw"
    and "header_to_str E raw = Some (forged @ CHR '','' # client @ CHR '','' # balancer)"
    and "CHR '','' \<notin> set client" "CHR '','' \<notin> set balancer"
    and "ip_parse E (trim_str client) = Some ip" "ip_parse E (trim_str balancer) = Some lb"
  shows "client_ip E headers peer = ip"
  using assms
  by (simp add: client_ip_def split_on_append split_on_single nth_opt_def)

theorem client_ip_ignores_forged_prefix_witness:
  "client_ip sample_env [''x-forwarded-for'' \<mapsto> ''6.6.6.6, 9.9.9.9,1.2.3.4,5.6.7.8''] ''peer'' = ''1.2.3.4''"
  by (rule client_ip_ignores_forged_prefix [where forged = "''6.6.6.6, 9.9.9.9''" and balancer = "''5.6.7.8''"
        and client = "''1.2.3.4''" and lb = "''5.6.7.8''"])
     (simp_all add: sample_env_def trim_str_id ws_len_def ws_len_end_def)

end
