(* ===== verification/Learning_Request.thy ===== *)
theory Learning_Request
  imports Learning_Session "HOL-Library.AList"
begin

text \<open>
  The tutor endpoint of the API server: the request body and its validation
  (\<open>server/src/routes/learning/request.rs\<close>), the tool schemas
  (\<open>server/src/routes/learning/tools.rs\<close>), the handler that guards the upstream call
  (\<open>server/src/routes/learning/mod.rs\<close>) and the status codes of its errors
  (\<open>server/src/error.rs\<close>).  The text of a JSON value (\<open>serde_json\<close>'s \<open>Display\<close>), the system
  prompt and the HTTP exchange with the model provider are arguments.
\<close>

section \<open>JSON values\<close>

datatype json =
    JNull
  | JBool bool
  | JNum nat
  | JStr string
  | JArr "json list"
  | JObj "(string \<times> json) list"

fun json_get :: "json \<Rightarrow> string \<Rightarrow> json option" where
  "json_get (JObj kvs) k = map_of kvs k"
| "json_get _ k = None"

fun json_set :: "json \<Rightarrow> string \<Rightarrow> json \<Rightarrow> json" where
  "json_set (JObj kvs) k v = JObj (AList.update k v kvs)"
| "json_set j k v = j"

definition json_opt :: "string option \<Rightarrow> json" where
  "json_opt x = (case x of None \<Rightarrow> JNull | Some s \<Rightarrow> JStr s)"

section \<open>The request body\<close>

record workspace_file =
  path :: string
  content :: string

record tool_output =
  call_id :: string
  tool_result :: json

record ai_request =
  message :: string
  previous_response_id :: "string option"
  workspace :: "workspace_file list"
  current_file :: "string option"
  selection :: "string option"
  lesson_id :: "string option"
  runtime :: "json option"
  tool_outputs :: "tool_output list option"

definition MAX_WORKSPACE_FILES :: nat where "MAX_WORKSPACE_FILES = 64"
definition MAX_FILE_CONTENT_BYTES :: nat where "MAX_FILE_CONTENT_BYTES = 128 * 1024"
definition MAX_MESSAGE_BYTES :: nat where "MAX_MESSAGE_BYTES = 16 * 1024"
definition MAX_OUTPUT_TOKENS :: nat where "MAX_OUTPUT_TOKENS = 4096"

definition is_some_and :: "'a option \<Rightarrow> ('a \<Rightarrow> bool) \<Rightarrow> bool" where
  "is_some_and x P = (case x of None \<Rightarrow> False | Some a \<Rightarrow> P a)"

datatype validation_error =
    MessageEmpty
  | RequestTooLarge
  | TooManyFiles
  | ToolOutputTooLarge
  | FileNotAllowed

definition invalid_workspace_file :: "workspace_file \<Rightarrow> bool" where
  "invalid_workspace_file f =
     (let allowed_path = starts_with (path f) ''src/'' \<or> starts_with (path f) ''tests/''
      in \<not> allowed_path
         \<or> contains_str (path f) ''..''
         \<or> contains_str (path f) ''//''
         \<or> 256 < length (path f)
         \<or> MAX_FILE_CONTENT_BYTES < length (content f))"

definition validate_ai_request :: "(json \<Rightarrow> string) \<Rightarrow> ai_request \<Rightarrow> validation_error + unit" where
  "validate_ai_request json_text p =
     (if trim_str (message p) = []
         \<and> (case tool_outputs p of None \<Rightarrow> True | Some outs \<Rightarrow> outs = [])
      then Inl MessageEmpty
      else if MAX_MESSAGE_BYTES < length (message p)
         \<or> is_some_and (selection p) (\<lambda>s. MAX_MESSAGE_BYTES < length s)
         \<or> is_some_and (previous_response_id p) (\<lambda>i. 128 < length i)
         \<or> is_some_and (lesson_id p) (\<lambda>i. 64 < length i)
         \<or> is_some_and (tool_outputs p) (\<lambda>outs. 16 < length outs)
      then Inl RequestTooLarge
      else if MAX_WORKSPACE_FILES < length (workspace p)
      then Inl TooManyFiles
      else if is_some_and (tool_outputs p) (list_ex (\<lambda>out.
           128 < length (call_id out) \<or> MAX_FILE_CONTENT_BYTES < length (json_text (tool_result out))))
      then Inl ToolOutputTooLarge
      else if list_ex invalid_workspace_file (workspace p)
      then Inl FileNotAllowed
      else Inr ())"

section \<open>The request to the model provider\<close>

definition workspace_json :: "workspace_file list \<Rightarrow> json" where
  "workspace_json fs = JArr (map (\<lambda>f. JObj [(''path'', JStr (path f)), (''content'', JStr (content f))]) fs)"

definition create_input :: "(json \<Rightarrow> string) \<Rightarrow> ai_request \<Rightarrow> json" where
  "create_input json_text p =
     (case tool_outputs p of
        Some (out # outs) \<Rightarrow>
          JArr (map (\<lambda>item. JObj
            [(''type'', JStr ''function_call_output''),
             (''call_id'', JStr (call_id item)),
             (''output'', JStr (json_text (tool_result item)))]) (out # outs))
      | _ \<Rightarrow>
          (let ctx = JObj
            [(''lesson'', json_opt (lesson_id p)),
             (''currentFile'', json_opt (current_file p)),
             (''selection'', json_opt (selection p)),
             (''workspace'', workspace_json (workspace p)),
             (''runtime'', case runtime p of None \<Rightarrow> JNull | Some v \<Rightarrow> v)]
           in JArr [JObj
             [(''role'', JStr ''user''),
              (''content'', JArr [JObj
                [(''type'', JStr ''input_text''),
                 (''text'', JStr (message p @ ''\<newline>\<newline><playground_context>'' @ json_text ctx
                                  @ ''</playground_context>''))]])]]))"

definition function_tool :: "string \<Rightarrow> string \<Rightarrow> json \<Rightarrow> json" where
  "function_tool name description parameters =
     JObj [(''type'', JStr ''function''), (''name'', JStr name), (''description'', JStr description),
           (''strict'', JBool True), (''parameters'', parameters)]"

definition string_schema :: json where
  "string_schema = JObj [(''type'', JStr ''string'')]"

definition reason_parameters :: json where
  "reason_parameters =
     JObj [(''type'', JStr ''object''),
           (''properties'', JObj [(''reason'', string_schema)]),
           (''required'', JArr [JStr ''reason'']),
           (''additionalProperties'', JBool False)]"

definition tutor_tools :: json where
  "tutor_tools = JArr
     [JObj [(''type'', JStr ''mcp''), (''server_label'', JStr ''solana_docs''),
            (''server_url'', JStr ''https://mcp.solana.com/mcp''), (''require_approval'', JStr ''never'')],
      function_tool ''propose_workspace_patch''
        ''Propose a previewable change to one or more workspace files.''
        (JObj
          [(''type'', JStr ''object''),
           (''properties'', JObj
             [(''title'', string_schema),
              (''explanation'', string_schema),
              (''learningObjective'', string_schema),
              (''files'', JObj
                [(''type'', JStr ''array''),
                 (''items'', JObj
                   [(''type'', JStr ''object''),
                    (''properties'', JObj [(''path'', string_schema), (''content'', string_schema)]),
                    (''required'', JArr [JStr ''path'', JStr ''content'']),
                    (''additionalProperties'', JBool False)])])]),
           (''required'', JArr [JStr ''title'', JStr ''explanation'', JStr ''learningObjective'', JStr ''files'']),
           (''additionalProperties'', JBool False)]),
      function_tool ''build_program''
        ''Build the current Playground program and return compiler output and IDL status.''
        reason_parameters,
      function_tool ''deploy_program''
        ''Deploy the current built program to the configured Surfpool.''
        reason_parameters,
      function_tool ''run_instruction''
        ''Run the current lesson test for a named instruction on the configured Surfpool.''
        (JObj
          [(''type'', JStr ''object''),
           (''properties'', JObj [(''instruction'', string_schema), (''reason'', string_schema)]),
           (''required'', JArr [JStr ''instruction'', JStr ''reason'']),
           (''additionalProperties'', JBool False)])]"

definition create_openai_request ::
  "(json \<Rightarrow> string) \<Rightarrow> string \<Rightarrow> ai_request \<Rightarrow> string \<Rightarrow> string \<Rightarrow> json" where
  "create_openai_request json_text instructions p model safety_id =
     (let request = JObj
        [(''model'', JStr model),
         (''instructions'', JStr instructions),
         (''input'', create_input json_text p),
         (''stream'', JBool True),
         (''store'', JBool True),
         (''max_output_tokens'', JNum MAX_OUTPUT_TOKENS),
         (''reasoning'', JObj [(''effort'', JStr ''medium''), (''context'', JStr ''all_turns'')]),
         (''text'', JObj [(''verbosity'', JStr ''medium'')]),
         (''safety_identifier'', JStr safety_id),
         (''tools'', tutor_tools)]
      in case previous_response_id p of
           None \<Rightarrow> request
         | Some i \<Rightarrow> json_set request ''previous_response_id'' (JStr i))"

section \<open>The handler\<close>

datatype api_error =
    BadRequest validation_error
  | Unauthorized session_error
  | TooManyRequests session_error
  | Other

fun status_code :: "api_error \<Rightarrow> nat" where
  "status_code (BadRequest _) = 400"
| "status_code (Unauthorized _) = 401"
| "status_code (TooManyRequests _) = 429"
| "status_code Other = 500"

text \<open>
  What the provider's HTTP API may answer: the exchange fails, a status that is no success
  with the body when it can be read, or a success whose body is streamed back.
\<close>

datatype upstream =
    SendFailed
  | Refused nat "string option"
  | Streaming string

datatype reply =
    NotConfigured
  | UpstreamStatus nat string
  | EventStream string u32

text \<open>
  \<open>ai_response\<close> returns the counters it leaves, the requests it sent to the provider (in
  order) and the answer.
\<close>

definition ai_response ::
  "('uuid, 'ip) session_env \<Rightarrow> learning_config \<Rightarrow> string \<Rightarrow> string \<Rightarrow> (json \<Rightarrow> string) \<Rightarrow> string
     \<Rightarrow> (json \<Rightarrow> upstream) \<Rightarrow> u64 \<Rightarrow> 'ip \<Rightarrow> headers \<Rightarrow> ai_request \<Rightarrow> ('uuid, 'ip) usage_counters
     \<Rightarrow> ('uuid, 'ip) usage_counters \<times> json list \<times> (reply, api_error) res" where
  "ai_response E cfg key model json_text instructions send now peer headers payload usage =
     (case verify_session E cfg headers of
        Inl e \<Rightarrow> (usage, [], Inl (Err (Unauthorized e)))
      | Inr owner \<Rightarrow>
     (case validate_ai_request json_text payload of
        Inl e \<Rightarrow> (usage, [], Inl (Err (BadRequest e)))
      | Inr _ \<Rightarrow>
     if key = [] then (usage, [], Inr NotConfigured)
     else (case consume_ai_turn cfg now owner (client_ip E headers peer) usage of
        (usage', Inl e) \<Rightarrow> (usage', [], Inl (Err (TooManyRequests e)))
      | (usage', Inr remaining) \<Rightarrow>
     (case session_safety_id E owner of
        Inl _ \<Rightarrow> (usage', [], Inl Panic)
      | Inr safety_id \<Rightarrow>
     (let request = create_openai_request json_text instructions payload model safety_id
      in (usage', [request],
          case send request of
            SendFailed \<Rightarrow> Inl (Err Other)
          | Refused status body \<Rightarrow>
              Inr (UpstreamStatus status (case body of None \<Rightarrow> ''OpenAI request failed'' | Some b \<Rightarrow> b))
          | Streaming body \<Rightarrow> Inr (EventStream body remaining)))))))"

section \<open>Validation\<close>

lemma is_some_and_iff: "is_some_and x P \<longleftrightarrow> (\<exists>a. x = Some a \<and> P a)"
  by (auto simp: is_some_and_def split: option.splits)

lemma valid_workspace_file_iff:
  "\<not> invalid_workspace_file f \<longleftrightarrow>
     (prefix ''src/'' (path f) \<or> prefix ''tests/'' (path f))
   \<and> \<not> sublist ''..'' (path f) \<and> \<not> sublist ''//'' (path f)
   \<and> length (path f) \<le> 256 \<and> length (content f) \<le> MAX_FILE_CONTENT_BYTES"
  by (auto simp: invalid_workspace_file_def contains_str_iff Let_def)

lemma validate_Inr_iff:
  "validate_ai_request json_text p = Inr () \<longleftrightarrow>
     \<not> (trim_str (message p) = [] \<and> (tool_outputs p = None \<or> tool_outputs p = Some []))
   \<and> length (message p) \<le> MAX_MESSAGE_BYTES
   \<and> (\<forall>s. selection p = Some s \<longrightarrow> length s \<le> MAX_MESSAGE_BYTES)
   \<and> (\<forall>i. previous_response_id p = Some i \<longrightarrow> length i \<le> 128)
   \<and> (\<forall>i. lesson_id p = Some i \<longrightarrow> length i \<le> 64)
   \<and> (\<forall>outs. tool_outputs p = Some outs \<longrightarrow> length outs \<le> 16
        \<and> (\<forall>out \<in> set outs. length (call_id out) \<le> 128
              \<and> length (json_text (tool_result out)) \<le> MAX_FILE_CONTENT_BYTES))
   \<and> length (workspace p) \<le> MAX_WORKSPACE_FILES
   \<and> (\<forall>f \<in> set (workspace p). \<not> invalid_workspace_file f)"
  by (cases "tool_outputs p")
     (fastforce simp: validate_ai_request_def is_some_and_def list_ex_iff not_less [symmetric]
        simp del: not_less linorder_not_less split: option.splits if_splits)+

lemma sum_list_bound: "(\<And>x. x \<in> set xs \<Longrightarrow> f x \<le> (b::nat)) \<Longrightarrow> sum_list (map f xs) \<le> length xs * b"
  by (induction xs) (auto intro: add_mono)

text \<open>
  A tutor request that passes validation carries at most 64 files, 8 MiB of file content
  and 16 KiB of prompt, and every file is a path under \<open>src/\<close> or \<open>tests/\<close> none of whose
  components steps up a directory.
\<close>

theorem validated_request_bounded:
  assumes "validate_ai_request json_text p = Inr ()"
  shows "length (workspace p) \<le> 64
    \<and> sum_list (map (length \<circ> content) (workspace p)) \<le> 8 * 1024 * 1024
    \<and> length (message p) \<le> 16 * 1024
    \<and> (\<forall>f \<in> set (workspace p).
         (prefix ''src/'' (path f) \<or> prefix ''tests/'' (path f)) \<and> ''..'' \<notin> set (split_on (CHR ''/'') (path f)))"
proof -
  have files: "\<not> invalid_workspace_file f" if "f \<in> set (workspace p)" for f
    using assms that by (simp add: validate_Inr_iff)
  have n: "length (workspace p) \<le> 64"
    using assms by (simp add: validate_Inr_iff MAX_WORKSPACE_FILES_def)
  have "sum_list (map (length \<circ> content) (workspace p)) \<le> length (workspace p) * MAX_FILE_CONTENT_BYTES"
    using files by (intro sum_list_bound) (auto simp: valid_workspace_file_iff)
  also have "\<dots> \<le> 64 * MAX_FILE_CONTENT_BYTES"
    using n by (rule mult_le_mono1)
  finally show ?thesis
    using n assms files split_part_sublist [of "''..''" "CHR ''/''"]
    by (auto simp: validate_Inr_iff MAX_MESSAGE_BYTES_def MAX_FILE_CONTENT_BYTES_def valid_workspace_file_iff)
qed

definition sample_request :: ai_request where
  "sample_request = \<lparr>message = ''Explain this'', previous_response_id = None,
     workspace = [\<lparr>path = ''src/lib.rs'', content = ''use x;''\<rparr>],
     current_file = None, selection = None, lesson_id = Some ''hello-solana'', runtime = None,
     tool_outputs = None\<rparr>"

lemma sample_request_valid: "validate_ai_request (\<lambda>_. []) sample_request = Inr ()"
  by (simp add: validate_Inr_iff sample_request_def trim_str_id ws_len_def ws_len_end_def
      valid_workspace_file_iff contains_str_iff [symmetric] contains_str_def
      MAX_MESSAGE_BYTES_def MAX_WORKSPACE_FILES_def MAX_FILE_CONTENT_BYTES_def)

theorem validated_request_bounded_witness:
  "length (workspace sample_request) \<le> 64
    \<and> ''..'' \<notin> set (split_on (CHR ''/'') (path (hd (workspace sample_request))))"
proof -
  have "hd (workspace sample_request) \<in> set (workspace sample_request)"
    by (simp add: sample_request_def)
  then show ?thesis using validated_request_bounded [OF sample_request_valid] by blast
qed

section \<open>The handler guards the provider\<close>

lemma safety_id_ok: "session_env_laws E \<Longrightarrow> \<exists>sid. session_safety_id E owner = Inr sid \<and> length sid = 26"
  by (auto simp: session_safety_id_def session_env_laws_def Let_def)

text \<open>
  C4. Nothing reaches the model provider unless the session token verified, the request
  validated, a provider key is configured and a turn was charged to the caller's session and
  address; and then exactly one request is sent, the one built from the caller's payload.
\<close>

theorem provider_call_guarded:
  assumes "ai_response E cfg key model json_text instructions send now peer headers payload usage
             = (usage', sent, r)"
    and "sent \<noteq> []"
  shows "\<exists>owner remaining safety_id.
      verify_session E cfg headers = Inr owner
    \<and> validate_ai_request json_text payload = Inr ()
    \<and> key \<noteq> []
    \<and> consume_ai_turn cfg now owner (client_ip E headers peer) usage = (usage', Inr remaining)
    \<and> session_safety_id E owner = Inr safety_id
    \<and> sent = [create_openai_request json_text instructions payload model safety_id]"
  using assms
  by (auto simp: ai_response_def Let_def split: sum.splits prod.splits if_splits)

text \<open>
  A refused or unserved request costs nothing: with an invalid session, an invalid
  payload or no provider key the counters are untouched and nothing is sent, and the answer
  has status 401, 400 or is the 503 reply; past the quota the answer has status 429 and
  nothing is sent.  The checks are made in this order.
\<close>

theorem refused_request_is_free:
  "ai_response E cfg key model json_text instructions send now peer headers payload usage =
    (usage', sent, r) \<Longrightarrow>
   (case verify_session E cfg headers of
      Inl e \<Rightarrow> usage' = usage \<and> sent = [] \<and> r = Inl (Err (Unauthorized e)) \<and> status_code (Unauthorized e) = 401
    | Inr owner \<Rightarrow>
   (case validate_ai_request json_text payload of
      Inl e \<Rightarrow> usage' = usage \<and> sent = [] \<and> r = Inl (Err (BadRequest e)) \<and> status_code (BadRequest e) = 400
    | Inr _ \<Rightarrow>
      if key = [] then usage' = usage \<and> sent = [] \<and> r = Inr NotConfigured
      else (\<forall>e. snd (consume_ai_turn cfg now owner (client_ip E headers peer) usage) = Inl e \<longrightarrow>
              sent = [] \<and> r = Inl (Err (TooManyRequests e)) \<and> status_code (TooManyRequests e) = 429)))"
  by (auto simp: ai_response_def Let_def split: sum.splits prod.splits if_splits)

definition sample_headers :: headers where
  "sample_headers = [SESSION_HEADER \<mapsto> replicate 32 (CHR ''a'') @ CHR ''.''
     # b64_encode sample_env (the (hmac_sha256 sample_env ''k'' (replicate 32 (CHR ''a''))))]"

lemma sample_headers_verify: "verify_session sample_env sample_config sample_headers = Inr True"
proof -
  have "split_once (CHR ''.'') (replicate 32 (CHR ''a'') @ CHR ''.'' # s) = Some (replicate 32 (CHR ''a''), s)" for s
    by (rule split_once_append) simp
  then show ?thesis
    by (simp add: verify_session_def sample_headers_def sample_env_def sample_config_def)
qed

abbreviation sample_response where
  "sample_response key usage \<equiv> ai_response sample_env sample_config key ''m'' (\<lambda>_. []) []
     (\<lambda>_. SendFailed) 10 ''ip'' sample_headers sample_request usage"

lemma sample_consume: "\<exists>u. consume_ai_turn sample_config 10 True addr empty_counters = (u, Inr 1)"
  by (simp add: consume_ai_turn_def Let_def sample_config_def empty_counters_def default_usage_def
      retain_day_def or_insert_def day_of_def)

lemma sample_safety_id: "session_safety_id sample_env True = Inr (''solpg_'' @ replicate 20 (CHR ''a''))"
  by (simp add: session_safety_id_def sample_env_def)

lemma sample_response_eq:
  "sample_response ''key'' empty_counters =
     (fst (consume_ai_turn sample_config 10 True (client_ip sample_env sample_headers ''ip'') empty_counters),
      [create_openai_request (\<lambda>_. []) [] sample_request ''m'' (''solpg_'' @ replicate 20 (CHR ''a''))],
      Inl (Err Other))"
proof -
  obtain u where "consume_ai_turn sample_config 10 True (client_ip sample_env sample_headers ''ip'')
      empty_counters = (u, Inr 1)"
    by (rule exE [OF sample_consume])
  then show ?thesis
    by (simp only: ai_response_def sample_headers_verify sample_request_valid sample_safety_id Let_def
        sum.case prod.case upstream.case list.distinct if_False fst_conv)
qed

theorem provider_call_guarded_witness:
  "verify_session sample_env sample_config sample_headers = Inr True
   \<and> (\<exists>owner remaining. consume_ai_turn sample_config 10 owner
          (client_ip sample_env sample_headers ''ip'') empty_counters
        = (fst (consume_ai_turn sample_config 10 True (client_ip sample_env sample_headers ''ip'')
                  empty_counters), Inr remaining))"
  using provider_call_guarded [OF sample_response_eq] sample_headers_verify by blast

theorem refused_request_is_free_witness:
  "sample_response [] empty_counters = (empty_counters, [], Inr NotConfigured)"
proof -
  obtain u s r where eq: "sample_response [] empty_counters = (u, s, r)"
    by (cases "sample_response [] empty_counters")
  from refused_request_is_free [OF eq] show ?thesis
    by (simp add: eq sample_headers_verify sample_request_valid)
qed

section \<open>The tool schemas\<close>

text \<open>
  The provider's strict mode wants every object schema closed and every property required.
\<close>

fun strict_schema :: "json \<Rightarrow> bool" where
  "strict_schema (JObj kvs) =
     ((map_of kvs ''type'' = Some (JStr ''object'') \<longrightarrow>
         map_of kvs ''additionalProperties'' = Some (JBool False)
       \<and> (case (map_of kvs ''properties'', map_of kvs ''required'') of
            (Some (JObj ps), Some (JArr rs)) \<Rightarrow> rs = map (JStr \<circ> fst) ps
          | _ \<Rightarrow> False))
      \<and> list_all (\<lambda>kv. strict_schema (snd kv)) kvs)"
| "strict_schema (JArr js) = list_all strict_schema js"
| "strict_schema _ = True"

definition declares_strict :: "json \<Rightarrow> bool" where
  "declares_strict t = (json_get t ''type'' = Some (JStr ''function'') \<longrightarrow> json_get t ''strict'' = Some (JBool True))"

text \<open>
  Every request carries the tutor's tools, each function tool declares strict mode, and
  all their parameter schemas satisfy it: closed objects that require each of their
  properties.
\<close>

theorem request_tools_strict:
  "\<exists>tools. json_get (create_openai_request json_text instructions p model safety_id) ''tools'' = Some (JArr tools)
     \<and> list_all declares_strict tools \<and> list_all strict_schema tools \<and> length tools = 5"
  by (auto simp: create_openai_request_def Let_def tutor_tools_def function_tool_def reason_parameters_def
      string_schema_def declares_strict_def split: option.splits)

end
