(* ===== verification/Build_Permits.thy ===== *)
theory Build_Permits
  imports Prelude "HOL-Library.Multiset"
begin

text \<open>
  The build queue of \<open>server/src/routes/build.rs\<close>: \<open>BuildState\<close>, \<open>Permit::acquire\<close>, the
  \<open>Drop\<close> of a permit, and the \<open>build\<close> handler as the phases one request goes through.  The
  handlers run concurrently, so the component is a step relation over a list of requests:
  every \<open>await\<close> of the handler is a point where another request may move, and where the
  server may drop the handler because its client has gone.  The compilation itself runs in
  \<open>spawn_blocking\<close>, which a dropped handler does not stop.
\<close>

section \<open>State\<close>

datatype phase =
    Waiting \<comment> \<open>in \<open>acquire_owned().await\<close>\<close>
  | Admitted \<comment> \<open>holds the semaphore permit, the ids are not locked yet\<close>
  | Holding nat \<comment> \<open>has a \<open>Permit\<close> with this id\<close>
  | Building nat \<comment> \<open>in \<open>spawn_blocking(..).await\<close>, the permit is held\<close>
  | Dropping nat \<comment> \<open>\<open>Permit::drop\<close> is about to run\<close>
  | Releasing \<comment> \<open>the body of \<open>drop\<close> has run, the semaphore permit is still to be dropped\<close>
  | Finished
  | Failed string

record build_state =
  sem :: nat \<comment> \<open>available permits of the semaphore\<close>
  ids :: "bool list"
  phases :: "phase list" \<comment> \<open>one entry per request received\<close>
  jobs :: "nat option list" \<comment> \<open>the blocking job of the request and the concurrency id it uses\<close>

definition new_build_state :: "nat \<Rightarrow> build_state" where
  "new_build_state concurrency =
     \<lparr>sem = concurrency, ids = replicate concurrency False, phases = [], jobs = []\<rparr>"

text \<open>\<open>ids.iter().enumerate().find_map(|(id, used)| (!used).then_some(id))\<close>\<close>

fun find_free :: "bool list \<Rightarrow> nat option" where
  "find_free [] = None"
| "find_free (used # us) = (if \<not> used then Some 0 else map_option Suc (find_free us))"

section \<open>Operations\<close>

definition arrive :: "build_state \<Rightarrow> build_state" where
  "arrive s = s\<lparr>phases := phases s @ [Waiting], jobs := jobs s @ [None]\<rparr>"

definition set_phase :: "nat \<Rightarrow> phase \<Rightarrow> build_state \<Rightarrow> build_state" where
  "set_phase t p s = s\<lparr>phases := (phases s)[t := p]\<rparr>"

definition take_permit :: "nat \<Rightarrow> build_state \<Rightarrow> build_state" where
  "take_permit t s = set_phase t Admitted (s\<lparr>sem := sem s - 1\<rparr>)"

definition take_id :: "nat \<Rightarrow> build_state \<Rightarrow> build_state" where
  "take_id t s =
     (case find_free (ids s) of
        None \<Rightarrow> set_phase t (Failed ''Failed to find concurrency id'') (s\<lparr>sem := sem s + 1\<rparr>)
      | Some i \<Rightarrow> set_phase t (Holding i) (s\<lparr>ids := (ids s)[i := True]\<rparr>))"

definition spawn_build :: "nat \<Rightarrow> nat \<Rightarrow> build_state \<Rightarrow> build_state" where
  "spawn_build t i s = set_phase t (Building i) (s\<lparr>jobs := (jobs s)[t := Some i]\<rparr>)"

definition job_ends :: "nat \<Rightarrow> build_state \<Rightarrow> build_state" where
  "job_ends t s = s\<lparr>jobs := (jobs s)[t := None]\<rparr>"

definition drop_id :: "nat \<Rightarrow> nat \<Rightarrow> build_state \<Rightarrow> build_state" where
  "drop_id t i s = set_phase t Releasing (s\<lparr>ids := (ids s)[i := False]\<rparr>)"

definition drop_permit :: "nat \<Rightarrow> build_state \<Rightarrow> build_state" where
  "drop_permit t s = set_phase t Finished (s\<lparr>sem := sem s + 1\<rparr>)"

definition at_phase :: "build_state \<Rightarrow> nat \<Rightarrow> phase \<Rightarrow> bool" where
  "at_phase s t p \<longleftrightarrow> t < length (phases s) \<and> phases s ! t = p"

definition no_job :: "build_state \<Rightarrow> nat \<Rightarrow> bool" where
  "no_job s t \<longleftrightarrow> jobs s ! t = None"

text \<open>
  One step of the server.  The steps named \<open>Disconnect\<close> drop a handler at an \<open>await\<close>: its
  locals are dropped, so a held permit is released, and a spawned job keeps running.
\<close>

datatype event = Progress | Disconnect

inductive bstep :: "build_state \<Rightarrow> event \<Rightarrow> build_state \<Rightarrow> bool" where
  Arrive: "bstep s Progress (arrive s)"
| Take_permit: "at_phase s t Waiting \<Longrightarrow> 0 < sem s \<Longrightarrow> bstep s Progress (take_permit t s)"
| Take_id: "at_phase s t Admitted \<Longrightarrow> bstep s Progress (take_id t s)"
| Spawn: "at_phase s t (Holding i) \<Longrightarrow> bstep s Progress (spawn_build t i s)"
| Job_ends: "t < length (jobs s) \<Longrightarrow> jobs s ! t = Some i \<Longrightarrow> bstep s Progress (job_ends t s)"
| Join: "at_phase s t (Building i) \<Longrightarrow> no_job s t \<Longrightarrow> bstep s Progress (set_phase t (Dropping i) s)"
| Drop_id: "at_phase s t (Dropping i) \<Longrightarrow> bstep s Progress (drop_id t i s)"
| Drop_permit: "at_phase s t Releasing \<Longrightarrow> bstep s Progress (drop_permit t s)"
| Disconnect_waiting: "at_phase s t Waiting \<Longrightarrow> bstep s Disconnect (set_phase t Finished s)"
| Disconnect_building: "at_phase s t (Building i) \<Longrightarrow> bstep s Disconnect (set_phase t (Dropping i) s)"

inductive reachable_build :: "nat \<Rightarrow> event set \<Rightarrow> build_state \<Rightarrow> bool" for n E where
  Start: "reachable_build n E (new_build_state n)"
| Step: "reachable_build n E s \<Longrightarrow> e \<in> E \<Longrightarrow> bstep s e s' \<Longrightarrow> reachable_build n E s'"

inductive_cases bstep_progressE: "bstep s Progress s'"
inductive_cases bstep_disconnectE: "bstep s Disconnect s'"
inductive_simps bstep_disconnect_iff: "bstep s Disconnect s'"

section \<open>Counting permits and ids\<close>

fun holds_permit :: "phase \<Rightarrow> bool" where
  "holds_permit Waiting = False"
| "holds_permit Finished = False"
| "holds_permit (Failed _) = False"
| "holds_permit _ = True"

fun held_id :: "phase \<Rightarrow> nat option" where
  "held_id (Holding i) = Some i"
| "held_id (Building i) = Some i"
| "held_id (Dropping i) = Some i"
| "held_id _ = None"

definition permits_held :: "build_state \<Rightarrow> nat" where
  "permits_held s = length (filter holds_permit (phases s))"

definition ids_held :: "build_state \<Rightarrow> nat list" where
  "ids_held s = List.map_filter held_id (phases s)"

definition build_inv :: "nat \<Rightarrow> build_state \<Rightarrow> bool" where
  "build_inv n s \<longleftrightarrow>
     length (ids s) = n \<and> length (jobs s) = length (phases s)
   \<and> sem s + permits_held s = n
   \<and> distinct (ids_held s) \<and> (\<forall>i. i \<in> set (ids_held s) \<longleftrightarrow> i < n \<and> ids s ! i)
   \<and> (\<forall>m. Failed m \<notin> set (phases s))"

lemma find_free_Some:
  "find_free us = Some i \<Longrightarrow> i < length us \<and> \<not> us ! i \<and> (\<forall>j < i. us ! j)"
proof (induction us arbitrary: i)
  case (Cons u us)
  then show ?case by (cases i) (auto simp: less_Suc_eq_0_disj split: if_splits)
qed simp

lemma find_free_None: "find_free us = None \<longleftrightarrow> (\<forall>i < length us. us ! i)"
proof (induction us)
  case (Cons u us)
  then show ?case by (simp add: All_less_Suc2)
qed simp

lemma split_at: "t < length xs \<Longrightarrow> \<exists>as bs. xs = as @ xs ! t # bs \<and> (\<forall>y. xs[t := y] = as @ y # bs)"
  by (intro exI [of _ "take t xs"] exI [of _ "drop (Suc t) xs"])
     (simp add: id_take_nth_drop [symmetric] upd_conv_take_nth_drop)

lemma map_filter_append': "List.map_filter f (xs @ ys) = List.map_filter f xs @ List.map_filter f ys"
  by (simp add: List.map_filter_def)

lemma map_filter_Cons':
  "List.map_filter f (x # xs) = (case f x of None \<Rightarrow> [] | Some y \<Rightarrow> [y]) @ List.map_filter f xs"
  by (simp add: List.map_filter_def split: option.splits)

lemmas filter_simps = map_filter_append' map_filter_Cons'

lemma length_map_filter_le:
  "(\<And>x. f x \<noteq> None \<Longrightarrow> P x) \<Longrightarrow> length (List.map_filter f xs) \<le> length (filter P xs)"
  by (induction xs) (auto simp: filter_simps List.map_filter_def split: option.splits)

lemma held_id_permit: "held_id p \<noteq> None \<Longrightarrow> holds_permit p"
  by (cases p) auto

lemma ids_held_lt:
  assumes "at_phase s t Admitted" shows "length (ids_held s) < permits_held s"
proof -
  obtain as bs where ph: "phases s = as @ Admitted # bs"
    using assms split_at [of t "phases s"] by (auto simp: at_phase_def)
  have "length (List.map_filter held_id xs) \<le> length (filter holds_permit xs)" for xs
    using held_id_permit by (rule length_map_filter_le)
  from add_mono [OF this [of as] this [of bs]] show ?thesis
    by (simp add: ids_held_def permits_held_def ph filter_simps)
qed

text \<open>An admitted request always finds a free id: fewer ids than permits are in use.\<close>

lemma free_id_exists:
  assumes "build_inv n s" and "at_phase s t Admitted"
  shows "\<exists>i. find_free (ids s) = Some i"
proof (rule ccontr)
  assume "\<nexists>i. find_free (ids s) = Some i"
  then have "find_free (ids s) = None" by (cases "find_free (ids s)") auto
  then have "set (ids_held s) = {..<n}"
    using assms(1) by (auto simp: find_free_None build_inv_def)
  moreover have "distinct (ids_held s)"
    using assms(1) by (simp add: build_inv_def)
  ultimately have "length (ids_held s) = n"
    by (metis card_lessThan distinct_card)
  then show False
    using assms ids_held_lt [OF assms(2)] by (simp add: build_inv_def)
qed

section \<open>The invariant\<close>

text \<open>
  Every step moves at most one request to another phase; \<open>phase_split\<close> gives the context in
  which the counters are then recomputed.
\<close>

lemma phase_split:
  assumes "at_phase s t p"
  obtains as bs where "phases s = as @ p # bs" and "\<And>q. (phases s)[t := q] = as @ q # bs"
  using assms split_at [of t "phases s"] by (auto simp: at_phase_def)

lemma inv_new: "build_inv n (new_build_state n)"
  by (simp add: build_inv_def new_build_state_def permits_held_def ids_held_def List.map_filter_def)

lemma inv_arrive: "build_inv n s \<Longrightarrow> build_inv n (arrive s)"
  by (auto simp: build_inv_def arrive_def permits_held_def ids_held_def filter_simps List.map_filter_def)

lemma inv_jobs: "build_inv n s \<Longrightarrow> length js = length (jobs s) \<Longrightarrow> build_inv n (s\<lparr>jobs := js\<rparr>)"
  by (simp add: build_inv_def permits_held_def ids_held_def)

text \<open>A request that keeps its id and its permit.\<close>

lemma inv_same_holding:
  assumes "build_inv n s" and "at_phase s t p" and "held_id q = held_id p"
    and "holds_permit q = holds_permit p" and "\<forall>m. q \<noteq> Failed m"
  shows "build_inv n (set_phase t q s)"
proof (rule phase_split [OF assms(2)])
  fix as bs
  assume "phases s = as @ p # bs" and "\<And>q. (phases s)[t := q] = as @ q # bs"
  then show ?thesis
    using assms
    by (auto simp: build_inv_def set_phase_def permits_held_def ids_held_def filter_simps
        split: option.splits)
qed

lemma inv_take_permit:
  assumes "build_inv n s" and "at_phase s t Waiting" and "0 < sem s"
  shows "build_inv n (take_permit t s)"
proof (rule phase_split [OF assms(2)])
  fix as bs
  assume "phases s = as @ Waiting # bs" and "\<And>q. (phases s)[t := q] = as @ q # bs"
  then show ?thesis
    using assms
    by (auto simp: build_inv_def take_permit_def set_phase_def permits_held_def ids_held_def filter_simps)
qed

lemma inv_take_id:
  assumes "build_inv n s" and "at_phase s t Admitted"
  shows "build_inv n (take_id t s)"
proof (rule phase_split [OF assms(2)])
  fix as bs
  assume ph: "phases s = as @ Admitted # bs" "\<And>q. (phases s)[t := q] = as @ q # bs"
  obtain i where i: "find_free (ids s) = Some i"
    using free_id_exists [OF assms] by blast
  then have "i < n" "\<not> ids s ! i"
    using assms(1) find_free_Some [OF i] by (auto simp: build_inv_def)
  then show ?thesis
    using assms ph i
    by (auto simp: build_inv_def take_id_def set_phase_def permits_held_def ids_held_def filter_simps
        nth_list_update)
qed

lemma inv_drop_id:
  assumes "build_inv n s" and "at_phase s t (Dropping i)"
  shows "build_inv n (drop_id t i s)"
proof (rule phase_split [OF assms(2)])
  fix as bs
  assume ph: "phases s = as @ Dropping i # bs" "\<And>q. (phases s)[t := q] = as @ q # bs"
  then have held: "ids_held s = List.map_filter held_id as @ i # List.map_filter held_id bs"
    and held': "ids_held (drop_id t i s) = List.map_filter held_id as @ List.map_filter held_id bs"
    by (simp_all add: ids_held_def drop_id_def set_phase_def filter_simps)
  have "distinct (ids_held s)" and used: "\<And>j. j \<in> set (ids_held s) \<longleftrightarrow> j < n \<and> ids s ! j"
    and len: "length (ids s) = n"
    using assms(1) by (auto simp: build_inv_def)
  then have "j \<in> set (ids_held (drop_id t i s)) \<longleftrightarrow> j < n \<and> ids (drop_id t i s) ! j" for j
    using used [of j] used [of i] unfolding held held'
    by (cases "j = i") (auto simp: drop_id_def set_phase_def)
  moreover have "distinct (ids_held (drop_id t i s))"
    using \<open>distinct (ids_held s)\<close> by (simp add: held held')
  moreover have "permits_held (drop_id t i s) = permits_held s"
    by (simp add: permits_held_def drop_id_def set_phase_def ph(2)) (simp add: ph(1))
  ultimately show ?thesis
    using assms(1) ph by (auto simp: build_inv_def drop_id_def set_phase_def)
qed

lemma inv_drop_permit:
  assumes "build_inv n s" and "at_phase s t Releasing"
  shows "build_inv n (drop_permit t s)"
proof (rule phase_split [OF assms(2)])
  fix as bs
  assume "phases s = as @ Releasing # bs" and "\<And>q. (phases s)[t := q] = as @ q # bs"
  then show ?thesis
    using assms
    by (auto simp: build_inv_def drop_permit_def set_phase_def permits_held_def ids_held_def filter_simps)
qed

lemma at_phase_jobs [simp]: "at_phase (s\<lparr>jobs := js\<rparr>) t p = at_phase s t p"
  by (simp add: at_phase_def)

lemma set_phase_jobs: "set_phase t q (s\<lparr>jobs := js\<rparr>) = (set_phase t q s)\<lparr>jobs := js\<rparr>"
  by (simp add: set_phase_def)

lemma jobs_set_phase [simp]: "jobs (set_phase t q s) = jobs s"
  by (simp add: set_phase_def)

lemma inv_spawn:
  assumes "build_inv n s" and "at_phase s t (Holding i)" shows "build_inv n (spawn_build t i s)"
  using inv_same_holding [OF assms, of "Building i"] by (simp add: spawn_build_def set_phase_jobs inv_jobs)

lemma inv_disconnect_waiting:
  assumes "build_inv n s" and "at_phase s t Waiting" shows "build_inv n (set_phase t Finished s)"
  using inv_same_holding [OF assms, of Finished] by simp

lemma inv_leave_build:
  assumes "build_inv n s" and "at_phase s t (Building i)" shows "build_inv n (set_phase t (Dropping i) s)"
  using inv_same_holding [OF assms, of "Dropping i"] by simp

lemmas inv_steps = inv_arrive inv_take_permit inv_take_id inv_spawn inv_leave_build inv_drop_id
  inv_drop_permit inv_disconnect_waiting

lemma bstep_inv: "bstep s e s' \<Longrightarrow> build_inv n s \<Longrightarrow> build_inv n s'"
  by (induction rule: bstep.induct) (auto simp: inv_steps job_ends_def inv_jobs)

lemma reachable_inv: "reachable_build n E s \<Longrightarrow> build_inv n s"
  by (induction rule: reachable_build.induct) (auto simp: inv_new bstep_inv)

lemma held_ids_inj:
  assumes "distinct (List.map_filter held_id ps)" and "t < length ps" and "u < length ps"
    and "held_id (ps ! t) = Some i" and "held_id (ps ! u) = Some i"
  shows "t = u"
  using assms
proof (induction ps arbitrary: t u)
  case (Cons p ps)
  have *: "i \<in> set (List.map_filter held_id ps)" if "k < length ps" "held_id (ps ! k) = Some i" for k
    using that by (force simp: List.map_filter_def image_iff in_set_conv_nth)
  from Cons show ?case
    by (cases t; cases u) (auto simp: filter_simps dest: * split: option.splits)
qed simp

lemmas build_op_defs = arrive_def new_build_state_def take_permit_def take_id_def set_phase_def
  spawn_build_def job_ends_def drop_id_def drop_permit_def

section \<open>What the queue promises\<close>

text \<open>
  C5. Whatever the interleaving and whichever clients disconnect, the permits handed out and
  the permits left always add up to the configured concurrency, no two permits carry the same
  id, the ids in use are below the concurrency and are exactly the flags set, and no request
  ever fails with the \<open>Failed to find concurrency id\<close> error.
\<close>

theorem permit_ids_distinct:
  assumes "reachable_build n E s"
  shows "sem s + permits_held s = n
    \<and> (\<forall>t u i. t < length (phases s) \<and> u < length (phases s)
         \<and> held_id (phases s ! t) = Some i \<and> held_id (phases s ! u) = Some i \<longrightarrow> t = u)
    \<and> (\<forall>i. (\<exists>t < length (phases s). held_id (phases s ! t) = Some i) \<longleftrightarrow> i < n \<and> ids s ! i)
    \<and> (\<forall>m. Failed m \<notin> set (phases s))"
proof -
  have inv: "build_inv n s" using assms by (rule reachable_inv)
  have mem: "i \<in> set (ids_held s) \<longleftrightarrow> (\<exists>t < length (phases s). held_id (phases s ! t) = Some i)" for i
    by (force simp: ids_held_def List.map_filter_def in_set_conv_nth image_iff)
  have "distinct (List.map_filter held_id (phases s))"
    using inv by (simp add: build_inv_def ids_held_def)
  from held_ids_inj [OF this] inv show ?thesis
    by (auto simp: build_inv_def mem)
qed

definition permits_run :: build_state where
  "permits_run = take_id 0 (take_permit 0 (arrive (new_build_state 1)))"

lemma permits_run_reachable: "reachable_build 1 {Progress} permits_run"
  unfolding permits_run_def
  by (rule reachable_build.Step [OF reachable_build.Step [OF reachable_build.Step [OF reachable_build.Start
        _ bstep.Arrive] _ bstep.Take_permit [of _ 0]] _ bstep.Take_id [of _ 0]])
     (simp_all add: at_phase_def arrive_def new_build_state_def take_permit_def set_phase_def)

lemma permits_run_eq:
  "permits_run = \<lparr>sem = 0, ids = [True], phases = [Holding 0], jobs = [None]\<rparr>"
  by (simp add: permits_run_def arrive_def new_build_state_def take_permit_def take_id_def set_phase_def)

theorem permit_ids_distinct_witness: "sem permits_run + permits_held permits_run = 1"
  using permit_ids_distinct [OF permits_run_reachable] by blast

section \<open>Builds that share a directory\<close>

definition running :: "build_state \<Rightarrow> nat list" where
  "running s = [i. Some i \<leftarrow> jobs s]"

definition job_inv :: "build_state \<Rightarrow> bool" where
  "job_inv s \<longleftrightarrow> length (jobs s) = length (phases s)
     \<and> (\<forall>t < length (jobs s). \<forall>i. jobs s ! t = Some i \<longrightarrow> phases s ! t = Building i)"

lemma bstep_job_inv: "bstep s e s' \<Longrightarrow> e = Progress \<Longrightarrow> job_inv s \<Longrightarrow> job_inv s'"
  by (induction rule: bstep.induct)
     (auto simp: job_inv_def arrive_def take_permit_def take_id_def spawn_build_def set_phase_def at_phase_def
       job_ends_def no_job_def drop_id_def drop_permit_def nth_append nth_list_update less_Suc_eq
       split: option.splits if_splits)

lemma reachable_job_inv: "reachable_build n {Progress} s \<Longrightarrow> job_inv s"
proof (induction rule: reachable_build.induct)
  case Start
  then show ?case by (simp add: job_inv_def new_build_state_def)
next
  case (Step s e s')
  then show ?case using bstep_job_inv [of s e s'] by simp
qed

lemma set_running: "i \<in> set (running s) \<longleftrightarrow> (\<exists>t < length (jobs s). jobs s ! t = Some i)"
  by (force simp: running_def in_set_conv_nth)

lemma distinct_running:
  assumes "\<And>t u i. t < length js \<Longrightarrow> u < length js \<Longrightarrow> js ! t = Some i \<Longrightarrow> js ! u = Some i \<Longrightarrow> t = u"
  shows "distinct [i. Some i \<leftarrow> js]"
  using assms
proof (induction js)
  case (Cons j js)
  have "distinct [i. Some i \<leftarrow> js]"
    using Cons.prems [of "Suc _" "Suc _"] by (intro Cons.IH) auto
  moreover have "i \<notin> set [i. Some i \<leftarrow> js]" if "j = Some i" for i
    using Cons.prems [of 0 "Suc _" i] that by (auto simp: in_set_conv_nth split: option.splits)
  ultimately show ?case by (auto split: option.splits)
qed simp

text \<open>
  As long as no client disconnects, the compilations that run at the same time use
  distinct concurrency ids, so their working directories differ, and there are at most as
  many of them as the configured concurrency.
\<close>

theorem connected_builds_disjoint:
  assumes "reachable_build n {Progress} s"
  shows "distinct (running s) \<and> set (running s) \<subseteq> {..<n} \<and> length (running s) \<le> n"
proof -
  have inv: "build_inv n s" and job: "job_inv s"
    using assms reachable_inv reachable_job_inv by blast+
  have at: "at_phase s t (Building i)" if "t < length (jobs s)" "jobs s ! t = Some i" for t i
    using that job by (simp add: job_inv_def at_phase_def)
  have mem: "i \<in> set (ids_held s)" if "at_phase s t (Building i)" for t i
    using that by (rule phase_split) (simp add: ids_held_def filter_simps)
  have "i < n" if "at_phase s t (Building i)" for t i
    using inv mem [OF that] by (simp add: build_inv_def)
  then have sub: "set (running s) \<subseteq> {..<n}"
    using at by (metis lessThan_iff set_running subsetI)
  have "distinct (running s)"
    unfolding running_def
  proof (rule distinct_running)
    fix t u i
    assume "t < length (jobs s)" "u < length (jobs s)" "jobs s ! t = Some i" "jobs s ! u = Some i"
    then show "t = u"
      using at [of t i] at [of u i] held_ids_inj [of "phases s" t u i] inv
      by (auto simp: at_phase_def build_inv_def ids_held_def)
  qed
  then show ?thesis
    using sub card_mono [OF _ sub] by (simp add: distinct_card)
qed

lemma permits_run_building: "reachable_build 1 {Progress} (spawn_build 0 0 permits_run)"
  by (rule reachable_build.Step [OF permits_run_reachable _ bstep.Spawn])
     (simp_all add: permits_run_def at_phase_def arrive_def new_build_state_def take_permit_def take_id_def
       set_phase_def)

theorem connected_builds_disjoint_witness: "length (running (spawn_build 0 0 permits_run)) \<le> 1"
  using connected_builds_disjoint [OF permits_run_building] by blast

definition overlapping_run :: build_state where
  "overlapping_run =
     (let s = arrive (arrive (new_build_state 1));
          s = spawn_build 0 0 (take_id 0 (take_permit 0 s));
          s = drop_permit 0 (drop_id 0 0 (set_phase 0 (Dropping 0) s))
      in spawn_build 1 0 (take_id 1 (take_permit 1 s)))"

text \<open>
  A disconnect breaks that bound: with one build at a time allowed, a client that leaves
  while its program compiles returns its permit and its id although the compiler still
  runs, and the next request then compiles beside it with the same concurrency id.
\<close>

theorem disconnected_build_overlaps:
  "reachable_build 1 {Progress, Disconnect} overlapping_run \<and> running overlapping_run = [0, 0]"
proof
  show "running overlapping_run = [0, 0]"
    by (simp add: overlapping_run_def Let_def build_op_defs running_def)
  show "reachable_build 1 {Progress, Disconnect} overlapping_run"
    unfolding overlapping_run_def Let_def
    by (rule reachable_build.Step [OF reachable_build.Step [OF reachable_build.Step [OF reachable_build.Step
         [OF reachable_build.Step [OF reachable_build.Step [OF reachable_build.Step [OF reachable_build.Step
         [OF reachable_build.Step [OF reachable_build.Step [OF reachable_build.Step [OF reachable_build.Start
          _ bstep.Arrive] _ bstep.Arrive] _ bstep.Take_permit [of _ 0]] _ bstep.Take_id [of _ 0]]
          _ bstep.Spawn] _ bstep.Disconnect_building] _ bstep.Drop_id] _ bstep.Drop_permit]
          _ bstep.Take_permit [of _ 1]] _ bstep.Take_id [of _ 1]] _ bstep.Spawn])
       (simp_all add: build_op_defs at_phase_def)
qed

section \<open>Progress\<close>

fun rank :: "phase \<Rightarrow> nat" where
  "rank Waiting = 7"
| "rank Admitted = 6"
| "rank (Holding _) = 5"
| "rank (Building _) = 3"
| "rank (Dropping _) = 2"
| "rank Releasing = 1"
| "rank Finished = 0"
| "rank (Failed _) = 0"

definition work :: "build_state \<Rightarrow> nat" where
  "work s = sum_list (map rank (phases s)) + sum_list (map (case_option 0 (\<lambda>_. 1)) (jobs s))"

lemma sum_list_update:
  assumes "t < length xs"
  shows "sum_list (map f (xs[t := y])) + f (xs ! t) = sum_list (map f xs) + (f y :: nat)"
  using assms
proof (induction xs arbitrary: t)
  case (Cons x xs)
  then show ?case by (cases t) (auto simp: algebra_simps)
qed simp

lemma sum_list_pos: "0 < sum_list (map f xs) \<Longrightarrow> \<exists>t < length xs. 0 < (f (xs ! t) :: nat)"
  by (induction xs) (auto simp: Ex_less_Suc2)

lemma work_pos:
  assumes "0 < work s"
  shows "(\<exists>t i. t < length (jobs s) \<and> jobs s ! t = Some i)
    \<or> (\<exists>t. t < length (phases s) \<and> 0 < rank (phases s ! t))"
proof (cases "0 < sum_list (map rank (phases s))")
  case True
  then show ?thesis using sum_list_pos by blast
next
  case False
  then obtain t where "t < length (jobs s)" "0 < (case_option 0 (\<lambda>_. 1) (jobs s ! t) :: nat)"
    using assms sum_list_pos unfolding work_def by (metis add.commute add.right_neutral not_gr_zero)
  then show ?thesis by (auto split: option.splits)
qed

lemma sum_rank_update:
  "at_phase s t p \<Longrightarrow>
     sum_list (map rank ((phases s)[t := q])) + rank p = sum_list (map rank (phases s)) + rank q"
  using sum_list_update [of t "phases s" rank q] by (simp add: at_phase_def)

lemma at_phase_simps [simp]:
  "at_phase (s\<lparr>sem := x\<rparr>) t p = at_phase s t p" "at_phase (s\<lparr>ids := us\<rparr>) t p = at_phase s t p"
  by (simp_all add: at_phase_def)

lemma work_simps [simp]: "work (s\<lparr>sem := x\<rparr>) = work s" "work (s\<lparr>ids := us\<rparr>) = work s"
  by (simp_all add: work_def)

lemma work_set_phase_simps [simp]:
  "work (set_phase t q (s\<lparr>sem := x\<rparr>)) = work (set_phase t q s)"
  "work (set_phase t q (s\<lparr>ids := us\<rparr>)) = work (set_phase t q s)"
  by (simp_all add: work_def set_phase_def)

lemma work_set_phase: "at_phase s t p \<Longrightarrow> rank q < rank p \<Longrightarrow> work (set_phase t q s) < work s"
  using sum_rank_update [of s t p q] by (simp add: work_def set_phase_def)

lemma bstep_work:
  assumes "bstep s e s'" and "build_inv n s" and "length (phases s') = length (phases s)"
  shows "work s' < work s"
  using assms
proof (induction rule: bstep.induct)
  case (Take_id s t)
  then obtain i where "find_free (ids s) = Some i" using free_id_exists by blast
  then show ?case
    using Take_id.hyps by (auto simp: take_id_def intro!: work_set_phase)
next
  case (Spawn s t i)
  then have "t < length (jobs s)" by (simp add: build_inv_def at_phase_def)
  then show ?case
    using sum_rank_update [OF Spawn.hyps, of "Building i"] sum_list_update [of t "jobs s" "case_option 0 (\<lambda>_. 1)" "Some i"]
    by (simp add: work_def build_op_defs split: option.splits)
next
  case (Job_ends t s i)
  then show ?case
    using sum_list_update [of t "jobs s" "case_option 0 (\<lambda>_. 1)" None] by (simp add: work_def build_op_defs)
qed (auto simp: take_permit_def drop_id_def drop_permit_def arrive_def intro!: work_set_phase)

lemma permit_holder_moves:
  assumes "t < length (phases s)" and "length (jobs s) = length (phases s)" and "holds_permit (phases s ! t)"
  shows "\<exists>s'. bstep s Progress s' \<and> length (phases s') = length (phases s)"
proof (cases "phases s ! t")
  case (Building i)
  show ?thesis
  proof (cases "jobs s ! t")
    case None
    then show ?thesis
      using assms Building bstep.Join [of s t i] by (fastforce simp: at_phase_def no_job_def build_op_defs)
  next
    case (Some j)
    then show ?thesis
      using assms bstep.Job_ends [of t s j] by (fastforce simp: build_op_defs)
  qed
next
  case Admitted
  then show ?thesis
    using assms bstep.Take_id [of s t]
    by (intro exI [of _ "take_id t s"]) (simp add: at_phase_def build_op_defs take_id_def split: option.splits)
next
  case (Holding i)
  then show ?thesis
    using assms bstep.Spawn [of s t i] by (fastforce simp: at_phase_def build_op_defs)
next
  case (Dropping i)
  then show ?thesis
    using assms bstep.Drop_id [of s t i] by (fastforce simp: at_phase_def build_op_defs)
next
  case Releasing
  then show ?thesis
    using assms bstep.Drop_permit [of s t] by (fastforce simp: at_phase_def build_op_defs)
qed (use assms in auto)

text \<open>
  C6. The queue makes progress: with a positive concurrency, as long as some request is not
  finished the server can take a step that is no new arrival, and every such step, a
  disconnect included, strictly decreases the remaining work, so every request ends and every
  permit is returned.
\<close>

theorem queue_makes_progress:
  assumes "reachable_build n E s" and "0 < n"
  shows "(\<forall>e s'. bstep s e s' \<and> length (phases s') = length (phases s) \<longrightarrow> work s' < work s)
    \<and> (0 < work s \<longrightarrow> (\<exists>s'. bstep s Progress s' \<and> length (phases s') = length (phases s)))"
proof (intro conjI impI)
  have inv: "build_inv n s" using assms reachable_inv by blast
  show "\<forall>e s'. bstep s e s' \<and> length (phases s') = length (phases s) \<longrightarrow> work s' < work s"
    using inv bstep_work by blast
  have len: "length (jobs s) = length (phases s)" using inv by (simp add: build_inv_def)
  assume "0 < work s"
  then consider (job) t i where "t < length (jobs s)" "jobs s ! t = Some i"
    | (phase) t where "t < length (phases s)" "0 < rank (phases s ! t)"
    using work_pos [of s] by blast
  then show "\<exists>s'. bstep s Progress s' \<and> length (phases s') = length (phases s)"
  proof cases
    case job
    then show ?thesis using bstep.Job_ends [of t s i] by (fastforce simp: build_op_defs)
  next
    case phase
    show ?thesis
    proof (cases "phases s ! t = Waiting \<and> 0 < sem s")
      case True
      then show ?thesis
        using phase bstep.Take_permit [of s t] by (fastforce simp: at_phase_def build_op_defs)
    next
      case False
      have "\<exists>u < length (phases s). holds_permit (phases s ! u)"
      proof (cases "phases s ! t = Waiting")
        case True
        then have "0 < permits_held s" using False inv assms(2) by (simp add: build_inv_def)
        then show ?thesis by (auto simp: permits_held_def filter_empty_conv in_set_conv_nth)
      next
        case nw: False
        then show ?thesis using phase by (intro exI [of _ t]) (cases "phases s ! t"; simp)
      qed
      then show ?thesis using permit_holder_moves len by blast
    qed
  qed
qed

theorem queue_makes_progress_witness:
  "\<exists>s'. bstep permits_run Progress s' \<and> length (phases s') = length (phases permits_run)"
proof -
  have "0 < work permits_run" by (simp add: work_def permits_run_eq)
  then show ?thesis using queue_makes_progress [OF permits_run_reachable zero_less_one] by blast
qed

end
