(* ===== verification/Program_Files.thy ===== *)
theory Program_Files
  imports Prelude
begin

text \<open>
  \<open>server/src/program.rs\<close> and the handlers around it: the validation of a build request, the
  preparation of the program's directory, the compiler run with its time limit, and the read
  of a binary (\<open>server/src/routes/deploy.rs\<close>), over a model of the file system calls the code
  makes.  The regular expression engine, the UUID parser, the compiler process and the IDL
  parser are parameters, the fields of \<open>build_env\<close>.  Also the CORS predicate of
  \<open>server/src/middlewares/cors.rs\<close>.
\<close>

section \<open>The file system\<close>

text \<open>
  A node is addressed by its component list from the root.  There are no symbolic links and
  no permission errors; every directory of a path must exist for \<open>write\<close> and \<open>copy\<close>.
\<close>

datatype node = Dir | File string

type_synonym fs = "string list \<Rightarrow> node option"

datatype io_error = NotFound | AlreadyExists | NotADirectory | IsADirectory | InvalidInput

definition below_file :: "fs \<Rightarrow> string list \<Rightarrow> bool" where
  "below_file f p = list_ex (\<lambda>k. case f (take k p) of Some (File _) \<Rightarrow> True | _ \<Rightarrow> False) [0..<length p]"

definition fs_stat :: "fs \<Rightarrow> string list \<Rightarrow> io_error + node" where
  "fs_stat f p =
     (if below_file f p then Inl NotADirectory
      else case f p of None \<Rightarrow> Inl NotFound | Some n \<Rightarrow> Inr n)"

definition fs_exists :: "fs \<Rightarrow> string list \<Rightarrow> io_error + bool" where
  "fs_exists f p =
     (case fs_stat f p of
        Inr _ \<Rightarrow> Inr True
      | Inl e \<Rightarrow> if e = NotFound then Inr False else Inl e)"

definition fs_read :: "fs \<Rightarrow> string list \<Rightarrow> io_error + string" where
  "fs_read f p =
     (case fs_stat f p of Inl e \<Rightarrow> Inl e | Inr Dir \<Rightarrow> Inl IsADirectory | Inr (File c) \<Rightarrow> Inr c)"

definition fs_create_dir_all :: "fs \<Rightarrow> string list \<Rightarrow> io_error + fs" where
  "fs_create_dir_all f p =
     (if below_file f p then Inl NotADirectory
      else case f p of
        Some (File _) \<Rightarrow> Inl AlreadyExists
      | _ \<Rightarrow> Inr (\<lambda>q. if prefix q p then Some Dir else f q))"

definition fs_write :: "fs \<Rightarrow> string list \<Rightarrow> string \<Rightarrow> io_error + fs" where
  "fs_write f p c =
     (if below_file f p then Inl NotADirectory
      else if f (butlast p) = None then Inl NotFound
      else if f p = Some Dir then Inl IsADirectory
      else Inr (f(p \<mapsto> File c)))"

definition fs_copy :: "fs \<Rightarrow> string list \<Rightarrow> string list \<Rightarrow> io_error + fs" where
  "fs_copy f src dst =
     (case fs_stat f src of
        Inl e \<Rightarrow> Inl e
      | Inr Dir \<Rightarrow> Inl InvalidInput
      | Inr (File c) \<Rightarrow> fs_write f dst c)"

definition fs_remove_dir_all :: "fs \<Rightarrow> string list \<Rightarrow> io_error + fs" where
  "fs_remove_dir_all f p =
     (case fs_stat f p of
        Inl e \<Rightarrow> Inl e
      | Inr (File _) \<Rightarrow> Inl NotADirectory
      | Inr Dir \<Rightarrow> Inr (\<lambda>q. if prefix p q then None else f q))"

text \<open>\<open>Path::join\<close> on Unix, and the node a path string denotes from a working directory.\<close>

definition join_path :: "string \<Rightarrow> string \<Rightarrow> string" where
  "join_path a b =
     (if starts_with b ''/'' then b
      else if a = [] \<or> last a = CHR ''/'' then a @ b
      else a @ ''/'' @ b)"

definition walk :: "string list \<Rightarrow> string \<Rightarrow> string list" where
  "walk acc c = (if c = [] \<or> c = ''.'' then acc else if c = ''..'' then butlast acc else acc @ [c])"

definition resolve :: "string list \<Rightarrow> string \<Rightarrow> string list" where
  "resolve cwd p =
     foldl walk (if starts_with p ''/'' then [] else cwd) (split_on (CHR ''/'') p)"

section \<open>The build\<close>

record build_request_flags =
  seeds_feature :: "bool option"
  no_docs :: "bool option"
  safety_checks :: "bool option"

record build_request =
  files :: "(string \<times> string) list"
  uuid :: "string option"
  flags :: "build_request_flags option"

datatype process_status = Exit nat | Signalled

text \<open>
  What the code calls outside its own sources: the compiled regular expression
  \<open>^/src/[\w/-]+\.rs$\<close>, \<open>Uuid::try_parse(..).is_ok()\<close>, the process \<open>timeout .. cargo-build-sbf\<close>
  with its arguments, which may change any file, and the IDL parser; \<open>to_decimal\<close> is
  \<open>usize::to_string\<close>.
\<close>

record 'idl build_env =
  allowed_regex :: "string \<Rightarrow> bool"
  uuid_valid :: "string \<Rightarrow> bool"
  run_compiler :: "fs \<Rightarrow> string list \<Rightarrow> fs \<times> (io_error + process_status \<times> string option \<times> nat)"
  parse_idl :: "fs \<Rightarrow> string \<Rightarrow> bool \<Rightarrow> bool \<Rightarrow> bool \<Rightarrow> string + 'idl"

datatype lazy = Unread | Ready string | Poisoned

record build_disk =
  disk :: fs
  manifest :: lazy \<comment> \<open>the \<open>MANIFEST\<close> static\<close>

datatype build_error =
    TooManyFiles nat
  | InvalidPath string
  | RemoveFailed io_error
  | Io io_error
  | TimedOut
  | OutputTooLong nat
  | NotUtf8

definition PROGRAMS_DIR :: string where "PROGRAMS_DIR = ''programs''"
definition MAX_FILE_AMOUNT :: nat where "MAX_FILE_AMOUNT = 64"
definition MAX_PATH_LEN :: nat where "MAX_PATH_LEN = 128"
definition MAX_STDERR_LEN :: nat where "MAX_STDERR_LEN = 1024 * 1024 * 1024"
definition BUILD_TIMEOUT_SECONDS :: nat where "BUILD_TIMEOUT_SECONDS = 240"

fun to_decimal :: "nat \<Rightarrow> string" where
  "to_decimal n =
     (if n < 10 then [char_of (48 + n)] else to_decimal (n div 10) @ [char_of (48 + n mod 10)])"

declare to_decimal.simps [simp del]

fun trim_start_matches :: "char \<Rightarrow> string \<Rightarrow> string" where
  "trim_start_matches c [] = []"
| "trim_start_matches c (x # xs) = (if x = c then trim_start_matches c xs else x # xs)"

text \<open>\<open>str::replacen(pat, new, 1)\<close>\<close>

fun replace_first :: "string \<Rightarrow> string \<Rightarrow> string \<Rightarrow> string" where
  "replace_first pat new [] = (if pat = [] then new else [])"
| "replace_first pat new (x # xs) =
     (if prefix pat (x # xs) then new @ drop (length pat) (x # xs)
      else x # replace_first pat new xs)"

definition valid_build_path :: "'idl build_env \<Rightarrow> string \<Rightarrow> bool" where
  "valid_build_path E p \<longleftrightarrow>
     length p \<le> MAX_PATH_LEN \<and> \<not> contains_str p ''..'' \<and> \<not> contains_str p ''//'' \<and> allowed_regex E p"

definition check_build_files :: "'idl build_env \<Rightarrow> (string \<times> string) list \<Rightarrow> build_error + unit" where
  "check_build_files E fs =
     (if length fs > MAX_FILE_AMOUNT then Inl (TooManyFiles (length fs))
      else case find (\<lambda>(p, _). \<not> valid_build_path E p) fs of
        Some (p, _) \<Rightarrow> Inl (InvalidPath p)
      | None \<Rightarrow> Inr ())"

definition io :: "io_error + 'a \<Rightarrow> build_error fault + 'a" where
  "io r = (case r of Inl e \<Rightarrow> Inl (Err (Io e)) | Inr a \<Rightarrow> Inr a)"

definition program_dir :: "string \<Rightarrow> string" where
  "program_dir name = join_path PROGRAMS_DIR name"

text \<open>Sequencing with \<open>?\<close>: a failed call leaves the disk as it was and ends the function.\<close>

definition fs_do :: "fs \<Rightarrow> io_error + fs \<Rightarrow> (fs \<Rightarrow> fs \<times> (io_error + 'a)) \<Rightarrow> fs \<times> (io_error + 'a)" where
  "fs_do f r k = (case r of Inl e \<Rightarrow> (f, Inl e) | Inr f' \<Rightarrow> k f')"

definition init_concurrency :: "string list \<Rightarrow> nat \<Rightarrow> fs \<Rightarrow> fs \<times> (io_error + unit)" where
  "init_concurrency cwd cid f =
     (let dir = program_dir (to_decimal cid); at = \<lambda>n. resolve cwd (join_path dir n);
          shared = \<lambda>n. resolve cwd (join_path PROGRAMS_DIR n)
      in case fs_exists f (at ''ready'') of
           Inl e \<Rightarrow> (f, Inl e)
         | Inr True \<Rightarrow> (f, Inr ())
         | Inr False \<Rightarrow>
             fs_do f (fs_create_dir_all f (resolve cwd dir)) (\<lambda>f.
             fs_do f (fs_copy f (shared ''Cargo.toml'') (at ''Cargo.toml'')) (\<lambda>f.
             fs_do f (fs_copy f (shared ''Cargo.lock'') (at ''Cargo.lock'')) (\<lambda>f.
             fs_do f (fs_write f (at ''ready'') []) (\<lambda>f. (f, Inr ()))))))"

definition item_path :: "string list \<Rightarrow> string \<Rightarrow> string \<Rightarrow> string list" where
  "item_path cwd name p =
     resolve cwd (join_path (program_dir name) (trim_start_matches (CHR ''/'') p))"

fun write_files :: "string list \<Rightarrow> string \<Rightarrow> (string \<times> string) list \<Rightarrow> fs \<Rightarrow> fs \<times> (io_error + unit)" where
  "write_files cwd name [] f = (f, Inr ())"
| "write_files cwd name ((p, c) # fs) f =
     (let item = item_path cwd name p
      in fs_do f (fs_create_dir_all f (butlast item)) (\<lambda>f.
         fs_do f (fs_write f item c) (\<lambda>f.
         write_files cwd name fs f)))"

definition force_manifest :: "string list \<Rightarrow> build_disk \<Rightarrow> build_disk \<times> string option" where
  "force_manifest cwd d =
     (case manifest d of
        Ready m \<Rightarrow> (d, Some m)
      | Poisoned \<Rightarrow> (d, None)
      | Unread \<Rightarrow>
         (case fs_read (disk d) (resolve cwd (join_path PROGRAMS_DIR ''Cargo.toml'')) of
            Inl _ \<Rightarrow> (d\<lparr>manifest := Poisoned\<rparr>, None)
          | Inr m \<Rightarrow> (d\<lparr>manifest := Ready m\<rparr>, Some m)))"

definition manifest_for :: "string \<Rightarrow> string \<Rightarrow> string" where
  "manifest_for name m = replace_first ''default'' (''../'' @ name) m"

definition write_program ::
  "string list \<Rightarrow> nat \<Rightarrow> string \<Rightarrow> (string \<times> string) list \<Rightarrow> build_disk
     \<Rightarrow> build_disk \<times> (unit, build_error) res" where
  "write_program cwd cid name fs d =
     (let (f, r) = write_files cwd name fs (disk d); d = d\<lparr>disk := f\<rparr>
      in case r of
        Inl e \<Rightarrow> (d, Inl (Err (Io e)))
      | Inr _ \<Rightarrow>
     (case force_manifest cwd d of
        (d, None) \<Rightarrow> (d, Inl Panic)
      | (d, Some m) \<Rightarrow>
     (case fs_write (disk d) (resolve cwd (join_path (program_dir (to_decimal cid)) ''Cargo.toml''))
             (manifest_for name m) of
        Inl e \<Rightarrow> (d, Inl (Err (Io e)))
      | Inr f \<Rightarrow> (d\<lparr>disk := f\<rparr>, Inr ()))))"

text \<open>Everything \<open>build\<close> does before it starts the compiler.\<close>

definition prepare_build ::
  "'idl build_env \<Rightarrow> string list \<Rightarrow> nat \<Rightarrow> string \<Rightarrow> (string \<times> string) list \<Rightarrow> build_disk
     \<Rightarrow> build_disk \<times> (unit, build_error) res" where
  "prepare_build E cwd cid name fs d =
     (case check_build_files E fs of
        Inl e \<Rightarrow> (d, Inl (Err e))
      | Inr _ \<Rightarrow>
     (let (f, r) = init_concurrency cwd cid (disk d); d = d\<lparr>disk := f\<rparr>
      in case r of
        Inl e \<Rightarrow> (d, Inl (Err (Io e)))
      | Inr _ \<Rightarrow>
     (case fs_remove_dir_all (disk d) (resolve cwd (join_path (program_dir name) ''src'')) of
        Inl e \<Rightarrow> if e \<noteq> NotFound then (d, Inl (Err (RemoveFailed e))) else write_program cwd cid name fs d
      | Inr f \<Rightarrow> write_program cwd cid name fs (d\<lparr>disk := f\<rparr>))))"

definition compiler_args :: "string \<Rightarrow> nat \<Rightarrow> string list" where
  "compiler_args name cid =
     [''--signal=TERM'', ''--kill-after=5s'', to_decimal BUILD_TIMEOUT_SECONDS @ ''s'', ''cargo-build-sbf'',
      ''--manifest-path'', join_path (program_dir (to_decimal cid)) ''Cargo.toml'',
      ''--sbf-out-dir'', program_dir name, ''--offline'']"

text \<open>
  The result of the compiler process: its exit status, its standard error as text if it is
  UTF-8, and the number of bytes of it.
\<close>

definition finish_build ::
  "'idl build_env \<Rightarrow> string list \<Rightarrow> string \<Rightarrow> bool \<Rightarrow> bool \<Rightarrow> bool \<Rightarrow> fs
     \<Rightarrow> process_status \<Rightarrow> string option \<Rightarrow> nat \<Rightarrow> (string \<times> 'idl option, build_error) res" where
  "finish_build E cwd name seeds docs safety f status stderr stderr_len =
     (if status = Exit 124 \<or> status = Exit 137 then Inl (Err TimedOut)
      else if stderr_len > MAX_STDERR_LEN then Inl (Err (OutputTooLong stderr_len))
      else case stderr of
        None \<Rightarrow> Inl (Err NotUtf8)
      | Some text \<Rightarrow>
          if status \<noteq> Exit 0 then Inr (text, None)
          else
            let lib_path = join_path (join_path (program_dir name) ''src'') ''lib.rs''
            in case fs_read f (resolve cwd lib_path) of
                 Inl e \<Rightarrow> Inl (Err (Io e))
               | Inr source \<Rightarrow>
                   if \<not> contains_str source ''anchor_lang'' then Inr (text, None)
                   else case parse_idl E f lib_path seeds docs safety of
                     Inl e \<Rightarrow> Inr (''IDL error: '' @ e, None)
                   | Inr idl \<Rightarrow> Inr (text, Some idl))"

definition build_program ::
  "'idl build_env \<Rightarrow> string list \<Rightarrow> nat \<Rightarrow> string \<Rightarrow> (string \<times> string) list \<Rightarrow> bool \<Rightarrow> bool \<Rightarrow> bool
     \<Rightarrow> build_disk \<Rightarrow> build_disk \<times> (string \<times> 'idl option, build_error) res" where
  "build_program E cwd cid name fs seeds docs safety d =
     (case prepare_build E cwd cid name fs d of
        (d, Inl e) \<Rightarrow> (d, Inl e)
      | (d, Inr _) \<Rightarrow>
     (case run_compiler E (disk d) (compiler_args name cid) of
        (f, Inl e) \<Rightarrow> (d\<lparr>disk := f\<rparr>, Inl (Err (Io e)))
      | (f, Inr (status, stderr, len)) \<Rightarrow>
          (d\<lparr>disk := f\<rparr>, finish_build E cwd name seeds docs safety f status stderr len)))"

record 'idl build_response =
  stderr :: string
  response_uuid :: "string option"
  idl :: "'idl option"

datatype build_failure = InvalidUuid | BuildFailed build_error

definition flag :: "build_request \<Rightarrow> (build_request_flags \<Rightarrow> bool option) \<Rightarrow> bool \<Rightarrow> bool" where
  "flag req g dflt =
     (case flags req of None \<Rightarrow> dflt | Some fl \<Rightarrow> (case g fl of None \<Rightarrow> dflt | Some b \<Rightarrow> b))"

text \<open>The \<open>build\<close> handler once its permit carries the id \<open>cid\<close>; \<open>fresh\<close> is \<open>Uuid::new_v4()\<close>.\<close>

definition build_handler ::
  "'idl build_env \<Rightarrow> string list \<Rightarrow> string \<Rightarrow> nat \<Rightarrow> build_request \<Rightarrow> build_disk
     \<Rightarrow> build_disk \<times> ('idl build_response, build_failure) res" where
  "build_handler E cwd fresh cid req d =
     (case (case uuid req of
              Some u \<Rightarrow> if uuid_valid E u then Inr (u, False) else Inl (Err InvalidUuid)
            | None \<Rightarrow> Inr (fresh, True)) of
        Inl e \<Rightarrow> (d, Inl e)
      | Inr (u, respond_with_uuid) \<Rightarrow>
     (case build_program E cwd cid u (files req) (flag req seeds_feature False) (flag req no_docs True)
             (flag req safety_checks False) d of
        (d, Inl (Err e)) \<Rightarrow> (d, Inl (Err (BuildFailed e)))
      | (d, Inl Panic) \<Rightarrow> (d, Inl Panic)
      | (d, Inr (text, i)) \<Rightarrow>
          (d, Inr \<lparr>stderr = text, response_uuid = (if respond_with_uuid then Some u else None), idl = i\<rparr>)))"

definition get_binary :: "string list \<Rightarrow> fs \<Rightarrow> string \<Rightarrow> io_error + string" where
  "get_binary cwd f name = fs_read f (resolve cwd (join_path (program_dir name) ''solpg.so''))"

datatype deploy_error = NotBuilt | DeployIo io_error

definition deploy :: "string list \<Rightarrow> fs \<Rightarrow> string \<Rightarrow> deploy_error + string" where
  "deploy cwd f u =
     (case get_binary cwd f u of
        Inl e \<Rightarrow> Inl (if e = NotFound then NotBuilt else DeployIo e)
      | Inr elf \<Rightarrow> Inr elf)"

section \<open>CORS\<close>

fun trim_end_matches :: "char \<Rightarrow> string \<Rightarrow> string" where
  "trim_end_matches c s = rev (trim_start_matches c (rev s))"

definition strip_prefix :: "string \<Rightarrow> string \<Rightarrow> string option" where
  "strip_prefix p s = (if prefix p s then Some (drop (length p) s) else None)"

definition is_ascii_digit :: "char \<Rightarrow> bool" where
  "is_ascii_digit c \<longleftrightarrow> 48 \<le> (of_char c :: nat) \<and> (of_char c :: nat) \<le> 57"

definition origin_matches :: "string \<Rightarrow> string \<Rightarrow> bool" where
  "origin_matches origin allowed =
     (let allowed = trim_end_matches (CHR ''/'') allowed
      in if origin = allowed then True
         else case Option.bind (strip_prefix allowed origin) (strip_prefix '':'') of
           None \<Rightarrow> False
         | Some port \<Rightarrow> port \<noteq> [] \<and> list_all is_ascii_digit port)"

text \<open>\<open>origin\<close> is the header's \<open>to_str()\<close>, absent when it is not visible ASCII.\<close>

definition cors_allows :: "string list \<Rightarrow> string option \<Rightarrow> bool" where
  "cors_allows client_urls origin =
     list_ex (\<lambda>url. case origin of None \<Rightarrow> False | Some o' \<Rightarrow> origin_matches o' url) client_urls"

section \<open>Paths\<close>

definition plain_name :: "string \<Rightarrow> bool" where
  "plain_name n \<longleftrightarrow> n \<noteq> [] \<and> n \<noteq> ''.'' \<and> n \<noteq> ''..'' \<and> CHR ''/'' \<notin> set n"

text \<open>
  What the code relies on: a path the expression accepts starts with \<open>/src/\<close> and ends with
  \<open>.rs\<close>, and a UUID in any accepted format is a plain file name.
\<close>

definition build_env_laws :: "'idl build_env \<Rightarrow> bool" where
  "build_env_laws E \<longleftrightarrow>
     (\<forall>p. allowed_regex E p \<longrightarrow> (\<exists>m. p = ''/src/'' @ m @ ''.rs''))
   \<and> (\<forall>u. uuid_valid E u \<longrightarrow> plain_name u)"

lemma split_suffix:
  assumes "c \<notin> set e" shows "\<exists>q \<in> set (split_on c (m @ e)). suffix e q"
proof (induction m)
  case Nil
  then show ?case using assms by (simp add: split_on_single)
next
  case (Cons x m)
  obtain p ps where "split_on c (m @ e) = p # ps"
    using split_on_Nil [of c "m @ e"] by (cases "split_on c (m @ e)") auto
  then show ?case using Cons by (auto simp: suffix_Cons)
qed

lemma foldl_walk:
  "''..'' \<notin> set ps \<Longrightarrow> foldl walk acc ps = acc @ filter (\<lambda>c. c \<noteq> [] \<and> c \<noteq> ''.'') ps"
  by (induction ps arbitrary: acc) (auto simp: walk_def)

lemma split_on_join: "CHR ''/'' \<notin> set a \<Longrightarrow> split_on (CHR ''/'') (a @ ''/'' @ b) = a # split_on (CHR ''/'') b"
  using split_on_append [of "CHR ''/''" a b] by (simp add: split_on_single)

lemma slash_last: "CHR ''/'' \<notin> set a \<Longrightarrow> a \<noteq> [] \<Longrightarrow> last a \<noteq> CHR ''/''"
  using last_in_set by force

lemma slash_start: "CHR ''/'' \<notin> set a \<Longrightarrow> \<not> prefix ''/'' a"
  by (cases a) auto

lemma program_dir_plain: "plain_name n \<Longrightarrow> program_dir n = ''programs/'' @ n"
  by (simp add: program_dir_def join_path_def PROGRAMS_DIR_def plain_name_def slash_start)

lemma join_program_dir:
  assumes "plain_name n" and "\<not> prefix ''/'' r"
  shows "join_path (program_dir n) r = ''programs/'' @ n @ ''/'' @ r"
proof -
  have "last (''programs/'' @ n) \<noteq> CHR ''/''"
    using assms slash_last [of n] by (simp add: plain_name_def)
  then show ?thesis
    using assms by (simp add: join_path_def program_dir_plain)
qed

lemma split_programs:
  "split_on (CHR ''/'') (''programs/'' @ x) = ''programs'' # split_on (CHR ''/'') x"
  using split_on_join [of "''programs''" x] by simp

lemma resolve_in_program:
  assumes "plain_name n" and "\<not> prefix ''/'' r" and "''..'' \<notin> set (split_on (CHR ''/'') r)"
  shows "resolve cwd (join_path (program_dir n) r)
       = cwd @ [''programs'', n] @ filter (\<lambda>c. c \<noteq> [] \<and> c \<noteq> ''.'') (split_on (CHR ''/'') r)"
proof -
  have "split_on (CHR ''/'') (''programs/'' @ n @ ''/'' @ r) = ''programs'' # n # split_on (CHR ''/'') r"
    using assms(1) split_on_join [of n r] by (simp add: split_programs plain_name_def)
  then show ?thesis
    using assms by (simp add: join_program_dir resolve_def foldl_walk) (simp add: plain_name_def walk_def)
qed

lemma resolve_program_dir:
  "plain_name n \<Longrightarrow> resolve cwd (program_dir n) = cwd @ [''programs'', n]"
  by (simp add: program_dir_plain resolve_def split_programs split_on_single foldl_walk plain_name_def walk_def)

lemma item_path_under_src:
  assumes "build_env_laws E" and "plain_name n" and "valid_build_path E p"
  shows "\<exists>x xs. item_path cwd n p = cwd @ [''programs'', n, ''src''] @ x # xs"
proof -
  obtain m where p: "p = ''/src/'' @ m @ ''.rs''"
    using assms by (auto simp: build_env_laws_def valid_build_path_def)
  let ?r = "m @ ''.rs''"
  have trim: "trim_start_matches (CHR ''/'') p = ''src/'' @ ?r" by (simp add: p)
  have "split_on (CHR ''/'') p = [] # split_on (CHR ''/'') (''src/'' @ ?r)" by (simp add: p)
  moreover have split: "split_on (CHR ''/'') (''src/'' @ ?r) = ''src'' # split_on (CHR ''/'') ?r"
    using split_on_join [of "''src''" ?r] by simp
  moreover have "''..'' \<notin> set (split_on (CHR ''/'') p)"
    using assms(3) split_part_sublist [of "''..''" "CHR ''/''" p]
    by (auto simp: valid_build_path_def contains_str_iff)
  ultimately have dots: "''..'' \<notin> set (split_on (CHR ''/'') (''src/'' @ ?r))" by simp
  obtain q where q: "q \<in> set (split_on (CHR ''/'') ?r)" "suffix ''.rs'' q"
    using split_suffix [of "CHR ''/''" "''.rs''" m] by auto
  then have "q \<noteq> []" "q \<noteq> ''.''" by (auto simp: suffix_def)
  then have "filter (\<lambda>c. c \<noteq> [] \<and> c \<noteq> ''.'') (split_on (CHR ''/'') ?r) \<noteq> []"
    using q(1) by (auto simp: filter_empty_conv)
  then show ?thesis
    unfolding item_path_def trim
    using resolve_in_program [OF assms(2) _ dots] split by (auto simp: neq_Nil_conv)
qed

section \<open>Confinement\<close>

text \<open>
  \<open>confined R f f'\<close>: between the disks \<open>f\<close> and \<open>f'\<close> only nodes under one of the roots \<open>R\<close>
  changed, apart from directories that were created above one of them.
\<close>

definition confined :: "string list set \<Rightarrow> fs \<Rightarrow> fs \<Rightarrow> bool" where
  "confined R f f' \<longleftrightarrow>
     (\<forall>q. f' q = f q \<or> (\<exists>r \<in> R. prefix r q) \<or> (f q = None \<and> f' q = Some Dir \<and> (\<exists>r \<in> R. prefix q r)))"

lemma confined_refl: "confined R f f"
  by (simp add: confined_def)

lemma confined_trans: "confined R f g \<Longrightarrow> confined R g h \<Longrightarrow> confined R f h"
  unfolding confined_def by (metis option.distinct(1))

lemma below_file_iff: "below_file f p \<longleftrightarrow> (\<exists>q c. strict_prefix q p \<and> f q = Some (File c))"
proof
  assume "below_file f p"
  then obtain k where "k < length p" "case f (take k p) of Some (File _) \<Rightarrow> True | _ \<Rightarrow> False"
    by (auto simp: below_file_def list_ex_iff)
  then show "\<exists>q c. strict_prefix q p \<and> f q = Some (File c)"
    by (intro exI [of _ "take k p"]) (auto simp: strict_prefix_def take_is_prefix split: option.splits node.splits)
next
  assume "\<exists>q c. strict_prefix q p \<and> f q = Some (File c)"
  then obtain q c where "strict_prefix q p" "f q = Some (File c)" by blast
  then show "below_file f p"
    by (auto simp: below_file_def list_ex_iff strict_prefix_def prefix_def intro!: bexI [of _ "length q"])
qed

lemma write_confined: "fs_write f p c = Inr f' \<Longrightarrow> \<exists>r \<in> R. prefix r p \<Longrightarrow> confined R f f'"
  by (auto simp: fs_write_def confined_def split: if_splits)

lemma copy_confined: "fs_copy f src p = Inr f' \<Longrightarrow> \<exists>r \<in> R. prefix r p \<Longrightarrow> confined R f f'"
  by (auto simp: fs_copy_def split: sum.splits node.splits intro: write_confined)

lemma create_confined:
  assumes "fs_create_dir_all f p = Inr f'" and "r \<in> R" and "prefix r p \<or> prefix p r"
  shows "confined R f f'"
  unfolding confined_def
proof
  fix q
  have f': "f' = (\<lambda>q. if prefix q p then Some Dir else f q)" and nb: "\<not> below_file f p"
    and np: "\<And>c. f p \<noteq> Some (File c)"
    using assms(1) by (auto simp: fs_create_dir_all_def split: if_splits option.splits node.splits)
  show "f' q = f q \<or> (\<exists>r \<in> R. prefix r q) \<or> (f q = None \<and> f' q = Some Dir \<and> (\<exists>r \<in> R. prefix q r))"
  proof (cases "prefix q p")
    case True
    then have "f q = None \<or> f q = Some Dir"
      using nb np by (metis below_file_iff node.exhaust option.exhaust strict_prefix_def)
    moreover have "prefix r q \<or> prefix q r"
      using True assms(3) prefix_same_cases prefix_order.trans by metis
    ultimately show ?thesis using True assms(2) f' by auto
  qed (simp add: f')
qed

lemma remove_confined: "fs_remove_dir_all f p = Inr f' \<Longrightarrow> p \<in> R \<Longrightarrow> confined R f f'"
  by (auto simp: fs_remove_dir_all_def confined_def split: sum.splits node.splits)

lemma to_decimal_digits: "c \<in> set (to_decimal n) \<Longrightarrow> \<exists>d < 10. c = char_of (48 + d :: nat)"
proof (induction n rule: to_decimal.induct)
  case (1 n)
  show ?case
  proof (cases "n < 10")
    case True
    then show ?thesis using 1 by (subst (asm) to_decimal.simps) auto
  next
    case False
    then have "c \<in> set (to_decimal (n div 10)) \<or> c = char_of (48 + n mod 10)"
      using 1(2) by (subst (asm) to_decimal.simps) auto
    then show ?thesis using 1(1) [OF False] by (auto intro: exI [of _ "n mod 10"])
  qed
qed

lemma to_decimal_plain [simp]: "plain_name (to_decimal n)"
proof -
  have "of_char c \<noteq> (46 :: nat) \<and> of_char c \<noteq> (47 :: nat)" if "c \<in> set (to_decimal n)" for c
    using to_decimal_digits [OF that] by (auto simp: of_char_of)
  moreover have "of_char (CHR ''.'') = (46 :: nat)" "of_char (CHR ''/'') = (47 :: nat)" by simp_all
  ultimately have "CHR ''.'' \<notin> set (to_decimal n)" "CHR ''/'' \<notin> set (to_decimal n)" by metis+
  moreover have "to_decimal n \<noteq> []" by (subst to_decimal.simps) simp
  ultimately show ?thesis by (auto simp: plain_name_def)
qed

lemma concurrency_paths:
  "resolve cwd (join_path (program_dir (to_decimal cid)) ''ready'') = cwd @ [''programs'', to_decimal cid, ''ready'']"
  "resolve cwd (join_path (program_dir (to_decimal cid)) ''Cargo.toml'')
     = cwd @ [''programs'', to_decimal cid, ''Cargo.toml'']"
  "resolve cwd (join_path (program_dir (to_decimal cid)) ''Cargo.lock'')
     = cwd @ [''programs'', to_decimal cid, ''Cargo.lock'']"
  by (subst resolve_in_program; simp)+

definition build_roots :: "string list \<Rightarrow> nat \<Rightarrow> string \<Rightarrow> string list set" where
  "build_roots cwd cid name = {cwd @ [''programs'', to_decimal cid], cwd @ [''programs'', name, ''src'']}"

lemma src_path: "plain_name n \<Longrightarrow> resolve cwd (join_path (program_dir n) ''src'') = cwd @ [''programs'', n, ''src'']"
  by (subst resolve_in_program; simp)

lemma fs_do_confined:
  assumes "\<And>g. r = Inr g \<Longrightarrow> confined R f g" and "\<And>g. r = Inr g \<Longrightarrow> confined R g (fst (k g))"
  shows "confined R f (fst (fs_do f r k))"
proof (cases r)
  case (Inl e)
  then show ?thesis by (simp add: fs_do_def confined_refl)
next
  case (Inr g)
  then show ?thesis using assms [of g] by (simp add: fs_do_def) (rule confined_trans)
qed

lemma cid_create:
  "fs_create_dir_all f (cwd @ [''programs'', to_decimal cid]) = Inr f' \<Longrightarrow> confined (build_roots cwd cid name) f f'"
  by (rule create_confined) (auto simp: build_roots_def)

lemma cid_copy:
  "fs_copy f p (cwd @ [''programs'', to_decimal cid, x]) = Inr f' \<Longrightarrow> confined (build_roots cwd cid name) f f'"
  by (rule copy_confined) (auto simp: build_roots_def)

lemma cid_write:
  "fs_write f (cwd @ [''programs'', to_decimal cid, x]) c = Inr f' \<Longrightarrow> confined (build_roots cwd cid name) f f'"
  by (rule write_confined) (auto simp: build_roots_def)

lemma init_confined: "confined (build_roots cwd cid name) f (fst (init_concurrency cwd cid f))"
proof -
  have chain: "confined (build_roots cwd cid name) f
      (fst (fs_do f (fs_create_dir_all f (resolve cwd (program_dir (to_decimal cid)))) (\<lambda>f.
             fs_do f (fs_copy f p (cwd @ [''programs'', to_decimal cid, a])) (\<lambda>f.
             fs_do f (fs_copy f q (cwd @ [''programs'', to_decimal cid, b])) (\<lambda>f.
             fs_do f (fs_write f (cwd @ [''programs'', to_decimal cid, c]) []) (\<lambda>f. (f, Inr ())))))))"
    for p q a b c
    by (intro fs_do_confined; simp add: resolve_program_dir confined_refl cid_create cid_copy cid_write)
  show ?thesis
    unfolding init_concurrency_def Let_def concurrency_paths
    by (auto simp: confined_refl split: sum.splits bool.splits intro: chain)
qed

lemma item_steps:
  assumes "item = cwd @ [''programs'', name, ''src''] @ x # xs"
  shows "fs_create_dir_all g (butlast item) = Inr g' \<Longrightarrow> confined (build_roots cwd cid name) g g'"
    and "fs_write g item c = Inr g' \<Longrightarrow> confined (build_roots cwd cid name) g g'"
proof -
  have "prefix (cwd @ [''programs'', name, ''src'']) (butlast item)"
    by (auto simp: assms butlast_append)
  then show "fs_create_dir_all g (butlast item) = Inr g' \<Longrightarrow> confined (build_roots cwd cid name) g g'"
    by (rule_tac create_confined [where r = "cwd @ [''programs'', name, ''src'']"]) (auto simp: build_roots_def)
  show "fs_write g item c = Inr g' \<Longrightarrow> confined (build_roots cwd cid name) g g'"
    by (rule write_confined) (auto simp: build_roots_def assms)
qed

lemma write_files_confined:
  assumes "build_env_laws E" and "plain_name name" and "\<forall>(p, c) \<in> set fs. valid_build_path E p"
  shows "confined (build_roots cwd cid name) f (fst (write_files cwd name fs f))"
  using assms(3)
proof (induction fs arbitrary: f)
  case Nil
  then show ?case by (simp add: confined_refl)
next
  case (Cons pc fs)
  obtain p c where pc: "pc = (p, c)" by (cases pc)
  obtain x xs where item: "item_path cwd name p = cwd @ [''programs'', name, ''src''] @ x # xs"
    using item_path_under_src [OF assms(1,2)] Cons.prems pc by fastforce
  have rest: "confined (build_roots cwd cid name) g (fst (write_files cwd name fs g))" for g
    using Cons by simp
  show ?case
    unfolding pc write_files.simps Let_def
    by (intro fs_do_confined item_steps [OF item] rest)
qed

lemma check_build_files_ok:
  "check_build_files E fs = Inr u \<Longrightarrow> length fs \<le> MAX_FILE_AMOUNT \<and> (\<forall>(p, c) \<in> set fs. valid_build_path E p)"
  by (auto simp: check_build_files_def find_None_iff split: if_splits option.splits)

lemma force_manifest_disk: "force_manifest cwd d = (d', m) \<Longrightarrow> disk d' = disk d"
  by (auto simp: force_manifest_def split: lazy.splits sum.splits)

lemma force_manifest_ready: "snd (force_manifest cwd d) = Some m \<Longrightarrow> manifest (fst (force_manifest cwd d)) = Ready m"
  by (simp add: force_manifest_def split: lazy.splits sum.splits)

lemma write_program_confined:
  assumes "build_env_laws E" and "plain_name name" and "\<forall>(p, c) \<in> set fs. valid_build_path E p"
  shows "confined (build_roots cwd cid name) (disk d) (disk (fst (write_program cwd cid name fs d)))"
proof -
  obtain f r where w: "write_files cwd name fs (disk d) = (f, r)" by fastforce
  then have c: "confined (build_roots cwd cid name) (disk d) f"
    using write_files_confined [OF assms, of cwd cid "disk d"] by simp
  obtain d' m where m: "force_manifest cwd (d\<lparr>disk := f\<rparr>) = (d', m)" by fastforce
  then have "disk d' = f" using force_manifest_disk by fastforce
  then show ?thesis
    using c unfolding write_program_def Let_def concurrency_paths w prod.case m
    by (auto split: sum.splits option.splits intro: confined_trans [OF _ cid_write])
qed

lemma prepare_confined:
  assumes "build_env_laws E" and "plain_name name"
  shows "confined (build_roots cwd cid name) (disk d) (disk (fst (prepare_build E cwd cid name fs d)))"
proof (cases "check_build_files E fs")
  case (Inl e)
  then show ?thesis by (simp add: prepare_build_def confined_refl)
next
  case (Inr u)
  then have valid: "\<forall>(p, c) \<in> set fs. valid_build_path E p"
    using check_build_files_ok by blast
  obtain f r where i: "init_concurrency cwd cid (disk d) = (f, r)" by fastforce
  then have c: "confined (build_roots cwd cid name) (disk d) f"
    using init_confined [of cwd cid name "disk d"] by simp
  have w: "confined (build_roots cwd cid name) g (disk (fst (write_program cwd cid name fs (d\<lparr>disk := g\<rparr>))))" for g
    using write_program_confined [OF assms valid, of cwd cid "d\<lparr>disk := g\<rparr>"] by simp
  have "confined (build_roots cwd cid name) (disk d) g"
    if "fs_remove_dir_all f (cwd @ [''programs'', name, ''src'']) = Inr g" for g
    using c remove_confined [OF that, of "build_roots cwd cid name"]
    by (auto simp: build_roots_def intro: confined_trans)
  then have "confined (build_roots cwd cid name) (disk d) (disk (fst (write_program cwd cid name fs (d\<lparr>disk := g\<rparr>))))"
    if "fs_remove_dir_all f (cwd @ [''programs'', name, ''src'']) = Inr g" for g
    using that w confined_trans by blast
  moreover note confined_trans [OF c w]
  ultimately show ?thesis
    using c unfolding prepare_build_def Let_def Inr sum.case i prod.case src_path [OF assms(2)]
    by (auto split: sum.splits)
qed

section \<open>The written tree\<close>

definition fs_tree :: "fs \<Rightarrow> bool" where
  "fs_tree f \<longleftrightarrow> (\<forall>q. q \<noteq> [] \<and> f q \<noteq> None \<longrightarrow> f (butlast q) = Some Dir)"

lemma tree_prefix:
  assumes "fs_tree f" and "f q \<noteq> None" shows "strict_prefix p q \<Longrightarrow> f p = Some Dir"
  using assms(2)
proof (induction q rule: rev_induct)
  case (snoc x q)
  then have "f q = Some Dir" using assms(1) by (auto simp: fs_tree_def)
  then show ?case using snoc by (cases "p = q") (auto simp: strict_prefix_def)
qed simp

lemma prefix_butlast: "prefix q p \<Longrightarrow> q \<noteq> p \<Longrightarrow> prefix q (butlast p)"
  by (cases p rule: rev_cases) auto

lemma tree_create: "fs_create_dir_all f p = Inr f' \<Longrightarrow> fs_tree f \<Longrightarrow> fs_tree f'"
proof -
  assume c: "fs_create_dir_all f p = Inr f'" and t: "fs_tree f"
  have f': "f' = (\<lambda>q. if prefix q p then Some Dir else f q)"
    using c by (auto simp: fs_create_dir_all_def split: if_splits option.splits node.splits)
  have "prefix (butlast q) p" if "prefix q p" for q
    using that by (meson prefix_order.trans prefixeq_butlast)
  then show ?thesis using t by (auto simp: fs_tree_def f')
qed

lemma tree_write:
  assumes "fs_write f p c = Inr f'" and "fs_tree f" and "p \<noteq> []"
  shows "fs_tree f'"
  unfolding fs_tree_def
proof (intro allI impI)
  fix q assume q: "q \<noteq> [] \<and> f' q \<noteq> None"
  have f': "f' = f(p \<mapsto> File c)" and par: "f (butlast p) \<noteq> None" and np: "f p \<noteq> Some Dir"
    and nb: "\<not> below_file f p"
    using assms(1) by (auto simp: fs_write_def split: if_splits)
  have "strict_prefix (butlast p) p"
    using assms(3) by (simp add: strict_prefix_def prefixeq_butlast) (metis append_butlast_last_id not_Cons_self2 self_append_conv)
  then have pd: "f (butlast p) = Some Dir"
    using nb par by (metis below_file_iff node.exhaust option.exhaust)
  show "f' (butlast q) = Some Dir"
  proof (cases "q = p")
    case True
    then show ?thesis using pd np by (auto simp: f')
  next
    case False
    then have "f (butlast q) = Some Dir" using q assms(2) by (auto simp: f' fs_tree_def)
    then show ?thesis using np by (auto simp: f')
  qed
qed

lemma tree_copy: "fs_copy f s p = Inr f' \<Longrightarrow> fs_tree f \<Longrightarrow> p \<noteq> [] \<Longrightarrow> fs_tree f'"
  by (auto simp: fs_copy_def split: sum.splits node.splits intro: tree_write)

lemma fs_do_tree:
  assumes "fs_tree f" and "\<And>g. r = Inr g \<Longrightarrow> fs_tree g"
    and "\<And>g. fs_tree g \<Longrightarrow> fs_tree (fst (k g))"
  shows "fs_tree (fst (fs_do f r k))"
  using assms by (auto simp: fs_do_def split: sum.splits)

lemma init_tree: "fs_tree f \<Longrightarrow> fs_tree (fst (init_concurrency cwd cid f))"
proof -
  assume t: "fs_tree f"
  show ?thesis
    unfolding init_concurrency_def Let_def concurrency_paths
    by (simp add: t split: sum.splits bool.splits)
       (intro allI impI fs_do_tree; (assumption | rule t | erule tree_create tree_copy tree_write | simp)+)
qed

text \<open>The file contents after the writes: the last entry for a path wins.\<close>

abbreviation requested :: "string list \<Rightarrow> string \<Rightarrow> (string \<times> string) list \<Rightarrow> string list \<Rightarrow> string option" where
  "requested cwd name fs \<equiv> map_of (rev (map (\<lambda>(p, c). (item_path cwd name p, c)) fs))"

lemma create_files: "fs_create_dir_all f p = Inr f' \<Longrightarrow> f' q = Some (File c) \<longleftrightarrow> f q = Some (File c)"
  by (auto simp: fs_create_dir_all_def below_file_iff strict_prefix_def
      split: if_splits option.splits node.splits)

lemma write_files_result:
  "write_files cwd name fs f = (f', Inr u) \<Longrightarrow>
     f' q = Some (File c) \<longleftrightarrow>
       (case requested cwd name fs q of Some c' \<Rightarrow> c = c' | None \<Rightarrow> f q = Some (File c))"
proof (induction fs arbitrary: f)
  case (Cons pc fs)
  obtain p c0 where pc: "pc = (p, c0)" by (cases pc)
  let ?i = "item_path cwd name p"
  obtain g h where g: "fs_create_dir_all f (butlast ?i) = Inr g" and h: "fs_write g ?i c0 = Inr h"
    and w: "write_files cwd name fs h = (f', Inr u)"
    using Cons.prems by (auto simp: pc fs_do_def Let_def split: sum.splits)
  have "h q = Some (File c) \<longleftrightarrow> (if q = ?i then c = c0 else f q = Some (File c))"
    using h create_files [OF g, of q c] by (auto simp: fs_write_def split: if_splits)
  then show ?case
    using Cons.IH [OF w] by (auto simp: pc map_add_def split: option.splits)
qed simp

section \<open>What a build does to the disk\<close>

text \<open>
  C7. Whatever files a request names, everything \<open>build\<close> writes before the compiler starts
  lies under the directory of its concurrency id or under \<open>programs/<uuid>/src\<close>; above them it
  only creates missing directories.  A request with too many files or a path the checks
  reject changes nothing at all.
\<close>

theorem build_writes_confined:
  assumes "build_env_laws E" and "uuid_valid E name"
    and "prepare_build E cwd cid name fs d = (d', r)"
  shows "(\<forall>q. disk d' q = disk d q
          \<or> prefix (cwd @ [''programs'', to_decimal cid]) q \<or> prefix (cwd @ [''programs'', name, ''src'']) q
          \<or> (disk d q = None \<and> disk d' q = Some Dir
              \<and> (prefix q (cwd @ [''programs'', to_decimal cid]) \<or> prefix q (cwd @ [''programs'', name, ''src'']))))
    \<and> (MAX_FILE_AMOUNT < length fs \<or> (\<exists>(p, c) \<in> set fs. \<not> valid_build_path E p) \<longrightarrow> d' = d \<and> r \<noteq> Inr ())"
proof
  have "plain_name name" using assms(1,2) by (simp add: build_env_laws_def)
  then have "confined (build_roots cwd cid name) (disk d) (disk d')"
    using prepare_confined [OF assms(1), of name cwd cid d fs] assms(3) by simp
  then show "\<forall>q. disk d' q = disk d q
          \<or> prefix (cwd @ [''programs'', to_decimal cid]) q \<or> prefix (cwd @ [''programs'', name, ''src'']) q
          \<or> (disk d q = None \<and> disk d' q = Some Dir
              \<and> (prefix q (cwd @ [''programs'', to_decimal cid]) \<or> prefix q (cwd @ [''programs'', name, ''src''])))"
    unfolding confined_def build_roots_def by blast
  show "MAX_FILE_AMOUNT < length fs \<or> (\<exists>(p, c) \<in> set fs. \<not> valid_build_path E p) \<longrightarrow> d' = d \<and> r \<noteq> Inr ()"
    using assms(3) check_build_files_ok [of E fs]
    by (cases "check_build_files E fs") (auto simp: prepare_build_def)
qed

text \<open>
  When the preparation succeeds, the source directory of the program holds exactly the
  files of this request, with the content of the last entry for each path and nothing left
  from an earlier build, and the manifest the compiler is given names this program.
\<close>

theorem prepared_sources_exact:
  assumes "build_env_laws E" and "uuid_valid E name" and "fs_tree (disk d)"
    and "prepare_build E cwd cid name fs d = (d', Inr ())"
  shows "(\<forall>x xs c. disk d' (cwd @ [''programs'', name, ''src''] @ x # xs) = Some (File c)
            \<longleftrightarrow> requested cwd name fs (cwd @ [''programs'', name, ''src''] @ x # xs) = Some c)
    \<and> (\<exists>m. manifest d' = Ready m
         \<and> disk d' (cwd @ [''programs'', to_decimal cid, ''Cargo.toml'']) = Some (File (manifest_for name m)))"
proof -
  have plain: "plain_name name" using assms(1,2) by (simp add: build_env_laws_def)
  let ?src = "cwd @ [''programs'', name, ''src'']"
  obtain f where i: "init_concurrency cwd cid (disk d) = (f, Inr ())"
    using assms(4) by (auto simp: prepare_build_def Let_def split: sum.splits prod.splits)
  then have t: "fs_tree f" using init_tree [OF assms(3), of cwd cid] by simp
  obtain g where cleared: "\<And>x xs. g (?src @ x # xs) = None"
    and w: "write_program cwd cid name fs (d\<lparr>disk := g\<rparr>) = (d', Inr ())"
  proof (cases "fs_remove_dir_all f ?src")
    case (Inr g)
    then have "g (?src @ x # xs) = None" for x xs
      by (auto simp: fs_remove_dir_all_def split: sum.splits node.splits)
    then show thesis
      using that [of g] assms(4) i Inr
      by (auto simp: prepare_build_def src_path [OF plain] split: sum.splits)
  next
    case (Inl e)
    then have e: "e = NotFound" and w: "write_program cwd cid name fs (d\<lparr>disk := f\<rparr>) = (d', Inr ())"
      using assms(4) i by (auto simp: prepare_build_def Let_def src_path [OF plain] split: sum.splits if_splits)
    then have "f ?src = None"
      using Inl by (auto simp: fs_remove_dir_all_def fs_stat_def split: sum.splits node.splits if_splits option.splits)
    then have "f (?src @ x # xs) = None" for x xs
      using tree_prefix [OF t, of "?src @ x # xs" ?src] by (cases "f (?src @ x # xs)") (auto simp: strict_prefix_def)
    then show thesis using that w by blast
  qed
  obtain h d1 m where h: "write_files cwd name fs g = (h, Inr ())"
    and m: "force_manifest cwd (d\<lparr>disk := h\<rparr>) = (d1, Some m)"
    and d': "fs_write (disk d1) (cwd @ [''programs'', to_decimal cid, ''Cargo.toml'']) (manifest_for name m)
        = Inr (disk d')" "manifest d' = manifest d1"
    using w by (auto simp: write_program_def Let_def concurrency_paths split: sum.splits prod.splits option.splits)
  have "disk d1 = h" using force_manifest_disk [OF m] by simp
  then have "disk d' = h(cwd @ [''programs'', to_decimal cid, ''Cargo.toml''] \<mapsto> File (manifest_for name m))"
    using d' by (auto simp: fs_write_def split: if_splits)
  moreover have "manifest d1 = Ready m"
    using force_manifest_ready [of cwd "d\<lparr>disk := h\<rparr>" m] by (simp add: m)
  moreover have "h (?src @ x # xs) = Some (File c) \<longleftrightarrow> requested cwd name fs (?src @ x # xs) = Some c" for x xs c
    using write_files_result [OF h, of "?src @ x # xs" c] cleared [of x xs]
    by (simp only: option.case split: option.split) auto
  ultimately show ?thesis
    using d'(2) by simp
qed

definition sample_build_env :: "unit build_env" where
  "sample_build_env =
     \<lparr>allowed_regex = (\<lambda>p. p = ''/src/lib.rs''), uuid_valid = (\<lambda>u. u = ''u''),
      run_compiler = (\<lambda>f _. (f, Inr (Exit 0, Some [], 0))), parse_idl = (\<lambda>_ _ _ _ _. Inr ())\<rparr>"

definition sample_disk :: build_disk where
  "sample_disk =
     \<lparr>disk = [[] \<mapsto> Dir, [''programs''] \<mapsto> Dir, [''programs'', ''Cargo.toml''] \<mapsto> File ''default'',
              [''programs'', ''Cargo.lock''] \<mapsto> File ''lock''], manifest = Ready ''default''\<rparr>"

lemma sample_build_laws: "build_env_laws sample_build_env"
  by (auto simp: build_env_laws_def sample_build_env_def plain_name_def intro: exI [of _ "''lib''"])

lemma sample_tree: "fs_tree (disk sample_disk)"
  by (auto simp: fs_tree_def sample_disk_def)

theorem build_writes_confined_witness:
  "disk (fst (prepare_build sample_build_env [] 0 ''u'' [(''/src/lib.rs'', ''x'')] sample_disk))
     [''programs'', ''Cargo.toml''] = Some (File ''default'')"
proof -
  obtain d' r where eq: "prepare_build sample_build_env [] 0 ''u'' [(''/src/lib.rs'', ''x'')] sample_disk = (d', r)"
    by fastforce
  have "uuid_valid sample_build_env ''u''" by (simp add: sample_build_env_def)
  from conjunct1 [OF build_writes_confined [OF sample_build_laws this eq], rule_format, of "[''programs'', ''Cargo.toml'']"]
  have "disk d' [''programs'', ''Cargo.toml''] = Some (File ''default'')"
    by (simp add: sample_disk_def to_decimal.simps)
  then show ?thesis by (simp add: eq)
qed

lemma sample_prepare:
  "snd (prepare_build sample_build_env [] 0 ''u'' [(''/src/lib.rs'', ''x'')] sample_disk) = Inr ()"
  by code_simp

theorem prepared_sources_exact_witness:
  "disk (fst (prepare_build sample_build_env [] 0 ''u'' [(''/src/lib.rs'', ''x'')] sample_disk))
     [''programs'', ''u'', ''src'', ''lib.rs''] = Some (File ''x'')"
proof -
  obtain d' where eq: "prepare_build sample_build_env [] 0 ''u'' [(''/src/lib.rs'', ''x'')] sample_disk = (d', Inr ())"
    using sample_prepare by (metis prod.collapse)
  have valid: "uuid_valid sample_build_env ''u''" by (simp add: sample_build_env_def)
  have "requested [] ''u'' [(''/src/lib.rs'', ''x'')] [''programs'', ''u'', ''src'', ''lib.rs''] = Some ''x''"
    by (simp add: item_path_def program_dir_def PROGRAMS_DIR_def join_path_def resolve_def walk_def)
  with conjunct1 [OF prepared_sources_exact [OF sample_build_laws valid sample_tree eq], rule_format, of "''lib.rs''" "[]"]
  show ?thesis by (simp add: eq)
qed

lemma finish_ok:
  "finish_build E cwd name seeds docs safety f status out n = Inr (t, i) \<Longrightarrow>
     \<exists>text. out = Some text \<and> n \<le> MAX_STDERR_LEN \<and> status \<noteq> Exit 124 \<and> status \<noteq> Exit 137
       \<and> (i \<noteq> None \<longrightarrow> status = Exit 0 \<and> t = text
           \<and> (\<exists>source. fs_read f (resolve cwd (join_path (join_path (program_dir name) ''src'') ''lib.rs'')) = Inr source
                \<and> contains_str source ''anchor_lang''))"
  by (auto simp: finish_build_def Let_def split: if_splits option.splits sum.splits)

lemma program_ok:
  "build_program E cwd cid name fs seeds docs safety d = (d', Inr r) \<Longrightarrow>
     \<exists>d1 f status out n. prepare_build E cwd cid name fs d = (d1, Inr ())
       \<and> run_compiler E (disk d1) (compiler_args name cid) = (f, Inr (status, out, n))
       \<and> d' = d1\<lparr>disk := f\<rparr>
       \<and> finish_build E cwd name seeds docs safety f status out n = Inr r"
  by (auto simp: build_program_def split: prod.splits sum.splits)

lemma handler_ok:
  assumes "build_handler E cwd fresh cid req d = (d', Inr resp)"
  obtains name where "name = (case uuid req of None \<Rightarrow> fresh | Some u' \<Rightarrow> u')"
    and "response_uuid resp = (if uuid req = None then Some fresh else None)"
    and "build_program E cwd cid name (files req) (flag req seeds_feature False) (flag req no_docs True)
             (flag req safety_checks False) d = (d', Inr (stderr resp, idl resp))"
  using assms
  by (cases "uuid req") (auto simp: build_handler_def split: if_splits prod.splits sum.splits fault.splits)

text \<open>
  What the handler answers is what happened: a success carries a fresh UUID exactly when
  the request had none, and an IDL only when the compiler exited with status 0 and
  \<open>src/lib.rs\<close> mentions Anchor; a compiler stopped by the time limit, output past the limit
  or an unparsable UUID is an error, and a bad UUID leaves the disk alone.
\<close>

theorem build_answers_truthfully:
  "(uuid req = Some u \<and> \<not> uuid_valid E u \<longrightarrow>
      build_handler E cwd fresh cid req d = (d, Inl (Err InvalidUuid)))
   \<and> (build_handler E cwd fresh cid req d = (d', Inr resp) \<longrightarrow>
      response_uuid resp = (if uuid req = None then Some fresh else None)
    \<and> (\<exists>name d1 f status text n. name = (case uuid req of None \<Rightarrow> fresh | Some u' \<Rightarrow> u')
       \<and> prepare_build E cwd cid name (files req) d = (d1, Inr ())
       \<and> run_compiler E (disk d1) (compiler_args name cid) = (f, Inr (status, Some text, n))
       \<and> d' = d1\<lparr>disk := f\<rparr> \<and> n \<le> MAX_STDERR_LEN \<and> status \<noteq> Exit 124 \<and> status \<noteq> Exit 137
       \<and> (idl resp \<noteq> None \<longrightarrow> status = Exit 0 \<and> stderr resp = text
           \<and> (\<exists>source. fs_read f (resolve cwd (join_path (join_path (program_dir name) ''src'') ''lib.rs'')) = Inr source
                \<and> contains_str source ''anchor_lang''))))"
proof (intro conjI impI)
  show "build_handler E cwd fresh cid req d = (d, Inl (Err InvalidUuid))" if "uuid req = Some u \<and> \<not> uuid_valid E u"
    using that by (simp add: build_handler_def)
  assume "build_handler E cwd fresh cid req d = (d', Inr resp)"
  then obtain name where name: "name = (case uuid req of None \<Rightarrow> fresh | Some u' \<Rightarrow> u')"
    "response_uuid resp = (if uuid req = None then Some fresh else None)"
    and ok: "build_program E cwd cid name (files req) (flag req seeds_feature False) (flag req no_docs True)
             (flag req safety_checks False) d = (d', Inr (stderr resp, idl resp))"
    by (rule handler_ok)
  show "response_uuid resp = (if uuid req = None then Some fresh else None)" by (rule name)
  show "\<exists>name d1 f status text n. name = (case uuid req of None \<Rightarrow> fresh | Some u' \<Rightarrow> u')
       \<and> prepare_build E cwd cid name (files req) d = (d1, Inr ())
       \<and> run_compiler E (disk d1) (compiler_args name cid) = (f, Inr (status, Some text, n))
       \<and> d' = d1\<lparr>disk := f\<rparr> \<and> n \<le> MAX_STDERR_LEN \<and> status \<noteq> Exit 124 \<and> status \<noteq> Exit 137
       \<and> (idl resp \<noteq> None \<longrightarrow> status = Exit 0 \<and> stderr resp = text
           \<and> (\<exists>source. fs_read f (resolve cwd (join_path (join_path (program_dir name) ''src'') ''lib.rs'')) = Inr source
                \<and> contains_str source ''anchor_lang''))"
    using program_ok [OF ok] finish_ok name(1) by metis
qed

theorem build_answers_truthfully_witness:
  "build_handler sample_build_env [] ''f'' 0 \<lparr>files = [], uuid = Some ''x'', flags = None\<rparr> sample_disk
     = (sample_disk, Inl (Err InvalidUuid))"
  using build_answers_truthfully [of "\<lparr>files = [], uuid = Some ''x'', flags = None\<rparr>" "''x''" sample_build_env "[]" "''f''" 0 sample_disk]
  by (simp add: sample_build_env_def)

text \<open>
  The deploy route joins its parameter to the programs directory as it is: a parameter that
  steps up is followed, unlike the UUID of a build request.
\<close>

lemma deploy_leaves_programs:
  "deploy cwd f ''../../other'' =
     (case fs_read f (butlast cwd @ [''other'', ''solpg.so'']) of
        Inl e \<Rightarrow> Inl (if e = NotFound then NotBuilt else DeployIo e) | Inr elf \<Rightarrow> Inr elf)"
  by (simp add: deploy_def get_binary_def program_dir_def PROGRAMS_DIR_def join_path_def resolve_def walk_def)

section \<open>Allowed origins\<close>

lemma trim_start_matches_split:
  "\<exists>n. s = replicate n c @ trim_start_matches c s \<and> \<not> prefix [c] (trim_start_matches c s)"
proof (induction s)
  case (Cons x s)
  then obtain n where "s = replicate n c @ trim_start_matches c s" "\<not> prefix [c] (trim_start_matches c s)"
    by blast
  then show ?case
    by (cases "x = c") (auto intro: exI [of _ "Suc n"] exI [of _ 0])
qed simp

lemma trim_start_matches_replicate: "trim_start_matches c (replicate n c @ s) = trim_start_matches c s"
  by (induction n) auto

lemma trim_start_matches_id: "\<not> prefix [c] s \<Longrightarrow> trim_start_matches c s = s"
  by (cases s) auto

lemma trim_end_matches_iff:
  "trim_end_matches c s = h \<longleftrightarrow> (\<exists>n. s = h @ replicate n c) \<and> \<not> suffix [c] h"
proof
  assume h: "trim_end_matches c s = h"
  obtain n where "rev s = replicate n c @ rev h" "\<not> prefix [c] (rev h)"
    using trim_start_matches_split [of "rev s" c] h by auto
  then have "s = h @ replicate n c" "\<not> suffix [c] h"
    by (metis rev_append rev_replicate rev_rev_ident) (simp add: suffix_to_prefix \<open>\<not> prefix [c] (rev h)\<close>)
  then show "(\<exists>n. s = h @ replicate n c) \<and> \<not> suffix [c] h" by blast
next
  assume "(\<exists>n. s = h @ replicate n c) \<and> \<not> suffix [c] h"
  then show "trim_end_matches c s = h"
    by (auto simp: trim_start_matches_replicate suffix_to_prefix trim_start_matches_id)
qed

lemma is_ascii_digit_iff: "is_ascii_digit c \<longleftrightarrow> c \<in> set ''0123456789''"
proof -
  have "of_char ` set ''0123456789'' = {48..57::nat}"
    by (simp add: atLeastAtMost_upt upt_rec insert_commute) 
  then have "is_ascii_digit c \<longleftrightarrow> of_char c \<in> (of_char ` set ''0123456789'' :: nat set)"
    by (simp only: is_ascii_digit_def atLeastAtMost_iff)
  then show ?thesis
    by (simp only: inj_image_mem_iff [OF inj_of_char])
qed

text \<open>
  The CORS layer lets an origin through exactly when it is a configured client URL
  without its trailing slashes, alone or followed by a colon and a decimal port: a host that
  only starts with an allowed one is refused.
\<close>

theorem cors_allows_exactly:
  "cors_allows client_urls origin \<longleftrightarrow>
     (\<exists>host n. host @ replicate n (CHR ''/'') \<in> set client_urls \<and> \<not> suffix ''/'' host
        \<and> (origin = Some host
          \<or> (\<exists>port. origin = Some (host @ '':'' @ port) \<and> port \<noteq> [] \<and> set port \<subseteq> set ''0123456789'')))"
proof -
  have match: "origin_matches o' url \<longleftrightarrow>
      (\<exists>host n. url = host @ replicate n (CHR ''/'') \<and> \<not> suffix ''/'' host
        \<and> (o' = host \<or> (\<exists>port. o' = host @ '':'' @ port \<and> port \<noteq> [] \<and> set port \<subseteq> set ''0123456789'')))" for o' url
  proof -
    obtain h where h: "trim_end_matches (CHR ''/'') url = h" by simp
    have "origin_matches o' url \<longleftrightarrow>
        o' = h \<or> (\<exists>port. o' = h @ '':'' @ port \<and> port \<noteq> [] \<and> list_all is_ascii_digit port)"
      by (auto simp: origin_matches_def Let_def h strip_prefix_def prefix_def bind_eq_Some_conv
          simp del: trim_end_matches.simps split: option.splits if_splits)
    moreover have "list_all is_ascii_digit port \<longleftrightarrow> set port \<subseteq> set ''0123456789''" for port
      unfolding list_all_iff subset_eq by (intro ball_cong refl is_ascii_digit_iff)
    moreover have "(\<exists>n. url = host @ replicate n (CHR ''/'')) \<and> \<not> suffix ''/'' host \<longleftrightarrow> host = h" for host
      unfolding trim_end_matches_iff [symmetric] h by blast
    ultimately show ?thesis by metis
  qed
  show ?thesis
    by (cases origin) (auto simp: cors_allows_def list_ex_iff match)
qed

end
