(* ===== verification/Token_State.thy ===== *)
theory Token_State
  imports Prelude
begin

text \<open>
  The account layouts of the in-repository port of Token-2022
  (\<open>wasm/utils/solana-extra/src/program/spl_token_2022\<close>): the program's errors
  (\<open>error.rs\<close>), the plain-old-data helpers of \<open>pod.rs\<close>, and the three base states of
  \<open>state.rs\<close> with their byte layouts, \<open>Mint\<close> (82 bytes), \<open>Account\<close> (165 bytes) and
  \<open>Multisig\<close> (355 bytes), and the raw readers of \<open>generic_token_account.rs\<close>.

  \<open>pack_into_slice\<close> writes into a caller's buffer and leaves the body of an absent option as
  it was, so packing takes the old buffer as an argument.  The contract of a layout is the
  locale \<open>slice_codec\<close>, interpreted for the three states.  \<open>Pack::unpack\<close>,
  \<open>Pack::unpack_unchecked\<close> and \<open>Pack::pack\<close> are provided by the Solana SDK and are fields of
  the record \<open>pack_fns\<close>; what the SDK documents of them is the locale \<open>pack_sdk\<close>.
\<close>

section \<open>Errors and constants\<close>

datatype token_error =
    NotRentExempt | InsufficientFunds | InvalidMint | MintMismatch | OwnerMismatch
  | FixedSupply | AlreadyInUse | InvalidNumberOfProvidedSigners
  | InvalidNumberOfRequiredSigners | UninitializedState
  | NativeNotSupported | NonNativeHasBalance | InvalidInstruction | InvalidState | Overflow
  | AuthorityTypeNotSupported | MintCannotFreeze | AccountFrozen | MintDecimalsMismatch
  | NonNativeNotSupported
  | ExtensionTypeMismatch | ExtensionBaseMismatch | ExtensionAlreadyInitialized
  | ConfidentialTransferAccountHasBalance | ConfidentialTransferAccountNotApproved
  | ConfidentialTransferDepositsAndTransfersDisabled | ConfidentialTransferElGamalPubkeyMismatch
  | ConfidentialTransferBalanceMismatch | MintHasSupply | NoAuthorityExists
  | TransferFeeExceedsMaximum | MintRequiredForTransfer | FeeMismatch | FeeParametersMismatch
  | ImmutableOwnerError
  | AccountHasWithheldTransferFees | NoMemo | NonTransferableError
  | NonTransferableNeedsImmutableOwnership | MaximumPendingBalanceCreditCounterExceeded

datatype program_error =
    InvalidArgument | InvalidInstructionData | InvalidAccountData | AccountDataTooSmall
  | IncorrectProgramId | MissingRequiredSignature | UninitializedAccount
  | NotEnoughAccountKeys | AccountBorrowFailed | UnsupportedSysvar
  | Token token_error

type_synonym 'a token_res = "('a, program_error) res"

abbreviation err :: "program_error \<Rightarrow> 'a token_res" where
  "err e \<equiv> Inl (Err e)"

definition MAX_SIGNERS :: nat where
  "MAX_SIGNERS = 11"

definition is_valid_signer_index :: "nat \<Rightarrow> bool" where
  "is_valid_signer_index i \<longleftrightarrow> 1 \<le> i \<and> i \<le> MAX_SIGNERS"

definition token_2022_id :: pubkey where
  "token_2022_id = 0xfc8ba1d828f9bdfe270db9834dfc1ab6dacd6ce4bc5d4218de8f75eee1f6dd06"

definition native_mint_id :: pubkey where
  "native_mint_id = 0x100000000f0a098553beb1adc39c4da35c01846637f68fb8481abfe57889b06"

section \<open>Plain old data\<close>

text \<open>\<open>OptionalNonZeroPubkey\<close>: a key in which all zero bytes encode \<open>None\<close>.\<close>

type_synonym optional_key = pubkey

definition optional_key_of :: "pubkey option \<Rightarrow> program_error + optional_key" where
  "optional_key_of p =
     (case p of
        None \<Rightarrow> Inr 0
      | Some k \<Rightarrow> if k = 0 then Inl InvalidArgument else Inr k)"

definition optional_key_value :: "optional_key \<Rightarrow> pubkey option" where
  "optional_key_value k = (if k = 0 then None else Some k)"

definition pod_bool_of :: "bool \<Rightarrow> u8" where
  "pod_bool_of b = (if b then 1 else 0)"

definition pod_bool_value :: "u8 \<Rightarrow> bool" where
  "pod_bool_value b \<longleftrightarrow> b \<noteq> 0"

lemma optional_key_roundtrip:
  "optional_key_of (optional_key_value k) = Inr k"
  "optional_key_of p = Inr k \<Longrightarrow> optional_key_value k = p"
  by (auto simp: optional_key_of_def optional_key_value_def split: option.splits if_splits)

lemma pod_bool_roundtrip [simp]: "pod_bool_value (pod_bool_of b) = b"
  by (simp add: pod_bool_value_def pod_bool_of_def)

section \<open>Optional fields\<close>

definition pack_coption_key :: "pubkey option \<Rightarrow> bytes \<Rightarrow> bytes" where
  "pack_coption_key src dst =
     (case src of
        Some key \<Rightarrow> [1, 0, 0, 0] @ key_bytes key
      | None \<Rightarrow> [0, 0, 0, 0] @ slice 4 32 dst)"

definition unpack_coption_key :: "bytes \<Rightarrow> program_error + pubkey option" where
  "unpack_coption_key src =
     (let tag = slice 0 4 src; body = slice 4 32 src in
      if tag = [0, 0, 0, 0] then Inr None
      else if tag = [1, 0, 0, 0] then Inr (Some (bytes_key body))
      else Inl InvalidAccountData)"

definition pack_coption_u64 :: "u64 option \<Rightarrow> bytes \<Rightarrow> bytes" where
  "pack_coption_u64 src dst =
     (case src of
        Some amount \<Rightarrow> [1, 0, 0, 0] @ u64_bytes amount
      | None \<Rightarrow> [0, 0, 0, 0] @ slice 4 8 dst)"

definition unpack_coption_u64 :: "bytes \<Rightarrow> program_error + u64 option" where
  "unpack_coption_u64 src =
     (let tag = slice 0 4 src; body = slice 4 8 src in
      if tag = [0, 0, 0, 0] then Inr None
      else if tag = [1, 0, 0, 0] then Inr (Some (bytes_u64 body))
      else Inl InvalidAccountData)"

definition unpack_flag :: "u8 \<Rightarrow> program_error + bool" where
  "unpack_flag b =
     (if b = 0 then Inr False else if b = 1 then Inr True else Inl InvalidAccountData)"

definition pack_flag :: "bool \<Rightarrow> u8" where
  "pack_flag b = (if b then 1 else 0)"

lemma unpack_flag_pack [simp]: "unpack_flag (pack_flag b) = Inr b"
  by (simp add: unpack_flag_def pack_flag_def)

lemma pack_unpack_flag: "unpack_flag b = Inr x \<Longrightarrow> pack_flag x = b"
  by (auto simp: unpack_flag_def pack_flag_def split: if_splits)

lemma length_pack_coption [simp]:
  "length dst = 36 \<Longrightarrow> length (pack_coption_key k dst) = 36"
  "length dst = 12 \<Longrightarrow> length (pack_coption_u64 a dst) = 12"
  by (auto simp: pack_coption_key_def pack_coption_u64_def split: option.split)

lemma unpack_pack_coption_key [simp]:
  "unpack_coption_key (pack_coption_key k dst) = Inr k"
  by (auto simp: unpack_coption_key_def pack_coption_key_def slice_def split: option.split)

lemma unpack_pack_coption_u64 [simp]:
  "unpack_coption_u64 (pack_coption_u64 k dst) = Inr k"
  by (auto simp: unpack_coption_u64_def pack_coption_u64_def slice_def split: option.split)

lemma slice_halves: "length xs = m + n \<Longrightarrow> slice 0 m xs @ slice m n xs = xs"
  by (simp add: slice_def)

lemma pack_unpack_coption_key:
  assumes "unpack_coption_key b = Inr k" and "length b = 36"
  shows "pack_coption_key k b = b"
proof -
  have halves: "slice 0 4 b @ slice 4 32 b = b"
    using assms(2) by (intro slice_halves) simp
  have body: "length (slice 4 32 b) = 32"
    using assms(2) by simp
  have "(slice 0 4 b = [0, 0, 0, 0] \<and> k = None)
      \<or> (slice 0 4 b = [1, 0, 0, 0] \<and> k = Some (bytes_key (slice 4 32 b)))"
    using assms(1) by (auto simp: unpack_coption_key_def Let_def split: if_splits)
  then show ?thesis
    using halves key_bytes_bytes_key [OF body]
    by (elim disjE) (auto simp: pack_coption_key_def)
qed

lemma pack_unpack_coption_u64:
  assumes "unpack_coption_u64 b = Inr k" and "length b = 12"
  shows "pack_coption_u64 k b = b"
proof -
  have halves: "slice 0 4 b @ slice 4 8 b = b"
    using assms(2) by (intro slice_halves) simp
  have body: "length (slice 4 8 b) = 8"
    using assms(2) by simp
  have "(slice 0 4 b = [0, 0, 0, 0] \<and> k = None)
      \<or> (slice 0 4 b = [1, 0, 0, 0] \<and> k = Some (bytes_u64 (slice 4 8 b)))"
    using assms(1) by (auto simp: unpack_coption_u64_def Let_def split: if_splits)
  then show ?thesis
    using halves u64_bytes_bytes_u64 [OF body]
    by (elim disjE) (auto simp: pack_coption_u64_def)
qed

section \<open>Base states\<close>

record mint =
  mint_authority :: "pubkey option"
  mint_supply :: u64
  decimals :: u8
  mint_is_initialized :: bool
  freeze_authority :: "pubkey option"

datatype account_state = StateUninitialized | Initialized | Frozen

record token_account =
  acc_mint :: pubkey
  acc_owner :: pubkey
  amount :: u64
  delegate :: "pubkey option"
  acc_state :: account_state
  is_native :: "u64 option"
  delegated_amount :: u64
  close_authority :: "pubkey option"

record multisig =
  required_signers :: u8
  valid_signers :: u8
  multisig_is_initialized :: bool
  signers :: "pubkey list"

definition account_state_of :: "u8 \<Rightarrow> program_error + account_state" where
  "account_state_of b =
     (if b = 0 then Inr StateUninitialized else if b = 1 then Inr Initialized
      else if b = 2 then Inr Frozen else Inl InvalidAccountData)"

fun account_state_byte :: "account_state \<Rightarrow> u8" where
  "account_state_byte StateUninitialized = 0"
| "account_state_byte Initialized = 1"
| "account_state_byte Frozen = 2"

definition is_frozen :: "token_account \<Rightarrow> bool" where
  "is_frozen a \<longleftrightarrow> acc_state a = Frozen"

definition is_native_account :: "token_account \<Rightarrow> bool" where
  "is_native_account a \<longleftrightarrow> is_native a \<noteq> None"

definition account_is_initialized :: "token_account \<Rightarrow> bool" where
  "account_is_initialized a \<longleftrightarrow> acc_state a \<noteq> StateUninitialized"

definition mint_unpack_from_slice :: "bytes \<Rightarrow> mint token_res" where
  "mint_unpack_from_slice src =
     (if length src < 82 then Inl Panic
      else lift_err (
        rbind (unpack_coption_key (slice 0 36 src)) (\<lambda>authority.
        rbind (unpack_flag (src ! 45)) (\<lambda>initialized.
        rbind (unpack_coption_key (slice 46 36 src)) (\<lambda>freeze.
        Inr \<lparr>mint_authority = authority,
             mint_supply = bytes_u64 (slice 36 8 src),
             decimals = src ! 44,
             mint_is_initialized = initialized,
             freeze_authority = freeze\<rparr>)))))"

definition mint_pack_into_slice :: "mint \<Rightarrow> bytes \<Rightarrow> bytes token_res" where
  "mint_pack_into_slice m dst =
     (if length dst < 82 then Inl Panic
      else Inr (pack_coption_key (mint_authority m) (slice 0 36 dst)
              @ u64_bytes (mint_supply m)
              @ [decimals m]
              @ [pack_flag (mint_is_initialized m)]
              @ pack_coption_key (freeze_authority m) (slice 46 36 dst)
              @ drop 82 dst))"

definition account_unpack_from_slice :: "bytes \<Rightarrow> token_account token_res" where
  "account_unpack_from_slice src =
     (if length src < 165 then Inl Panic
      else lift_err (
        rbind (unpack_coption_key (slice 72 36 src)) (\<lambda>del.
        rbind (account_state_of (src ! 108)) (\<lambda>st.
        rbind (unpack_coption_u64 (slice 109 12 src)) (\<lambda>nat.
        rbind (unpack_coption_key (slice 129 36 src)) (\<lambda>close.
        Inr \<lparr>acc_mint = bytes_key (slice 0 32 src),
             acc_owner = bytes_key (slice 32 32 src),
             amount = bytes_u64 (slice 64 8 src),
             delegate = del,
             acc_state = st,
             is_native = nat,
             delegated_amount = bytes_u64 (slice 121 8 src),
             close_authority = close\<rparr>))))))"

definition account_pack_into_slice :: "token_account \<Rightarrow> bytes \<Rightarrow> bytes token_res" where
  "account_pack_into_slice a dst =
     (if length dst < 165 then Inl Panic
      else Inr (key_bytes (acc_mint a)
              @ key_bytes (acc_owner a)
              @ u64_bytes (amount a)
              @ pack_coption_key (delegate a) (slice 72 36 dst)
              @ [account_state_byte (acc_state a)]
              @ pack_coption_u64 (is_native a) (slice 109 12 dst)
              @ u64_bytes (delegated_amount a)
              @ pack_coption_key (close_authority a) (slice 129 36 dst)
              @ drop 165 dst))"

definition multisig_unpack_from_slice :: "bytes \<Rightarrow> multisig token_res" where
  "multisig_unpack_from_slice src =
     (if length src < 355 then Inl Panic
      else lift_err (
        rbind (unpack_flag (src ! 2)) (\<lambda>initialized.
        Inr \<lparr>required_signers = src ! 0,
             valid_signers = src ! 1,
             multisig_is_initialized = initialized,
             signers = map (\<lambda>i. bytes_key (slice (3 + 32 * i) 32 src)) [0..<MAX_SIGNERS]\<rparr>)))"

definition multisig_pack_into_slice :: "multisig \<Rightarrow> bytes \<Rightarrow> bytes token_res" where
  "multisig_pack_into_slice s dst =
     (if length dst < 355 then Inl Panic
      else Inr ([required_signers s, valid_signers s, pack_flag (multisig_is_initialized s)]
              @ concat (map key_bytes (signers s))
              @ drop 355 dst))"

text \<open>The fixed-size array \<open>[Pubkey; MAX_SIGNERS]\<close> of a multisignature.\<close>

definition multisig_shape :: "multisig \<Rightarrow> bool" where
  "multisig_shape s \<longleftrightarrow> length (signers s) = MAX_SIGNERS"

lemma slice_append_skip:
  "length xs \<le> i \<Longrightarrow> slice i n (xs @ ys) = slice (i - length xs) n ys"
  by (simp add: slice_def)

lemma slice_append_here: "length xs = n \<Longrightarrow> slice 0 n (xs @ ys) = xs"
  by (simp add: slice_def)

lemma slice_Cons_skip: "0 < i \<Longrightarrow> slice i n (x # ys) = slice (i - 1) n ys"
  by (cases i) (auto simp: slice_def)

lemma slice_slice: "k + m \<le> n \<Longrightarrow> slice k m (slice i n xs) = slice (i + k) m xs"
  by (simp add: slice_def drop_take add.commute)

lemma layout_join:
  "j = i + n \<Longrightarrow> slice i n d @ drop j d = drop i d"
  by (simp add: slice_def) (metis append_take_drop_id drop_drop add.commute)

lemma layout_join_byte:
  "j = Suc i \<Longrightarrow> i < length d \<Longrightarrow> d ! i # drop j d = drop i d"
  by (simp add: Cons_nth_drop_Suc)

lemma slice_chain: "j = i + n \<Longrightarrow> slice i n d @ slice j m d = slice i (n + m) d"
  by (simp only: slice_def take_add) (simp add: add.commute)

lemma slice_full: "n = length d \<Longrightarrow> slice 0 n d = d"
  by (simp add: slice_def)

lemmas layout_split = slice_append_skip slice_append_here slice_Cons_skip

lemma account_state_roundtrip:
  "account_state_of (account_state_byte s) = Inr s"
  "account_state_of b = Inr s \<Longrightarrow> account_state_byte s = b"
  by (cases s; simp add: account_state_of_def) (auto simp: account_state_of_def split: if_splits)

lemma mint_unpack_pack:
  assumes "82 \<le> length dst"
  obtains d where "mint_pack_into_slice m dst = Inr d" and "length d = length dst"
    and "drop 82 d = drop 82 dst" and "mint_unpack_from_slice d = Inr m"
proof
  show "mint_pack_into_slice m dst = Inr (projr (mint_pack_into_slice m dst))"
    using assms by (simp add: mint_pack_into_slice_def)
qed (use assms in \<open>simp_all add: mint_pack_into_slice_def mint_unpack_from_slice_def
        layout_split nth_append\<close>)

lemma mint_pack_unpack:
  assumes "mint_unpack_from_slice d = Inr m"
  shows "82 \<le> length d \<and> mint_pack_into_slice m d = Inr d"
proof -
  have len: "82 \<le> length d"
    using assms by (auto simp: mint_unpack_from_slice_def split: if_splits)
  obtain k b f where parts: "unpack_coption_key (slice 0 36 d) = Inr k"
      "unpack_flag (d ! 45) = Inr b" "unpack_coption_key (slice 46 36 d) = Inr f"
    and m: "m = \<lparr>mint_authority = k, mint_supply = bytes_u64 (slice 36 8 d), decimals = d ! 44,
        mint_is_initialized = b, freeze_authority = f\<rparr>"
    using assms by (auto simp: mint_unpack_from_slice_def rbind_Inr_iff lift_err_iff split: if_splits)
  show ?thesis
    using len
    by (simp add: m mint_pack_into_slice_def pack_unpack_flag [OF parts(2)] u64_bytes_bytes_u64
        pack_unpack_coption_key [OF parts(1)] pack_unpack_coption_key [OF parts(3)]
        layout_join layout_join_byte)
qed

lemma account_unpack_pack:
  assumes "165 \<le> length dst"
  obtains d where "account_pack_into_slice a dst = Inr d" and "length d = length dst"
    and "drop 165 d = drop 165 dst" and "account_unpack_from_slice d = Inr a"
proof
  show "account_pack_into_slice a dst = Inr (projr (account_pack_into_slice a dst))"
    using assms by (simp add: account_pack_into_slice_def)
qed (use assms in \<open>simp_all add: account_pack_into_slice_def account_unpack_from_slice_def
        layout_split nth_append account_state_roundtrip(1)\<close>)

lemma account_pack_unpack:
  assumes "account_unpack_from_slice d = Inr a"
  shows "165 \<le> length d \<and> account_pack_into_slice a d = Inr d"
proof -
  have len: "165 \<le> length d"
    using assms by (auto simp: account_unpack_from_slice_def split: if_splits)
  obtain k s n c where parts: "unpack_coption_key (slice 72 36 d) = Inr k"
      "account_state_of (d ! 108) = Inr s" "unpack_coption_u64 (slice 109 12 d) = Inr n"
      "unpack_coption_key (slice 129 36 d) = Inr c"
    and a: "a = \<lparr>acc_mint = bytes_key (slice 0 32 d), acc_owner = bytes_key (slice 32 32 d),
        amount = bytes_u64 (slice 64 8 d), delegate = k, acc_state = s, is_native = n,
        delegated_amount = bytes_u64 (slice 121 8 d), close_authority = c\<rparr>"
    using assms
    by (auto simp: account_unpack_from_slice_def rbind_Inr_iff lift_err_iff split: if_splits)
  show ?thesis
    using len
    by (simp add: a account_pack_into_slice_def account_state_roundtrip(2) [OF parts(2)]
        u64_bytes_bytes_u64 key_bytes_bytes_key pack_unpack_coption_key [OF parts(1)]
        pack_unpack_coption_key [OF parts(4)] pack_unpack_coption_u64 [OF parts(3)]
        layout_join layout_join_byte)
qed

lemma slice_concat:
  assumes "\<forall>x \<in> set xs. length x = n" and "i < length xs"
  shows "slice (n * i) n (concat xs @ ys) = xs ! i"
  using assms
proof (induction xs arbitrary: i)
  case (Cons x xs)
  then show ?case
    by (cases i) (auto simp: layout_split)
qed simp

lemma concat_slices: "n * k \<le> length d \<Longrightarrow> concat (map (\<lambda>i. slice (n * i) n d) [0..<k]) = take (n * k) d"
proof (induction k)
  case (Suc k)
  then show ?case
    by (simp add: slice_def take_add add.commute [of n])
qed simp

lemma length_concat_keys: "length (concat (map key_bytes ks)) = 32 * length ks"
  by (induction ks) auto

lemma multisig_unpack_pack:
  assumes "355 \<le> length dst" and "multisig_shape s"
  obtains d where "multisig_pack_into_slice s dst = Inr d" and "length d = length dst"
    and "drop 355 d = drop 355 dst" and "multisig_unpack_from_slice d = Inr s"
proof -
  define d where "d = [required_signers s, valid_signers s, pack_flag (multisig_is_initialized s)]
              @ concat (map key_bytes (signers s)) @ drop 355 dst"
  have len: "length (concat (map key_bytes (signers s))) = 352"
    using assms(2) by (simp add: length_concat_keys multisig_shape_def MAX_SIGNERS_def)
  have chunk: "bytes_key (slice (3 + 32 * i) 32 d) = signers s ! i" if "i < MAX_SIGNERS" for i
  proof -
    have "slice (3 + 32 * i) 32 d = slice (32 * i) 32 (concat (map key_bytes (signers s)) @ drop 355 dst)"
      by (simp add: d_def slice_Cons_skip)
    then show ?thesis
      using slice_concat [of "map key_bytes (signers s)" 32 i "drop 355 dst"] that assms(2)
      by (simp add: multisig_shape_def)
  qed
  then have keys: "map (\<lambda>i. bytes_key (slice (3 + 32 * i) 32 d)) [0..<MAX_SIGNERS] = signers s"
    using assms(2) by (simp add: multisig_shape_def list_eq_iff_nth_eq)
  have length_d: "length d = length dst"
    using assms(1) len by (simp add: d_def)
  have bytes: "d ! 0 = required_signers s" "d ! Suc 0 = valid_signers s"
      "d ! 2 = pack_flag (multisig_is_initialized s)"
    by (simp_all add: d_def numeral_2_eq_2)
  show ?thesis
  proof
    show "multisig_pack_into_slice s dst = Inr d"
      using assms(1) by (simp add: multisig_pack_into_slice_def d_def)
    show "multisig_unpack_from_slice d = Inr s"
      using assms(1) length_d keys bytes by (simp add: multisig_unpack_from_slice_def)
    show "drop 355 d = drop 355 dst"
      using len by (simp add: d_def)
  qed (rule length_d)
qed

lemma multisig_pack_unpack:
  assumes "multisig_unpack_from_slice d = Inr s"
  shows "355 \<le> length d \<and> multisig_shape s \<and> multisig_pack_into_slice s d = Inr d"
proof -
  have len: "355 \<le> length d"
    using assms by (auto simp: multisig_unpack_from_slice_def split: if_splits)
  obtain b where flag: "unpack_flag (d ! 2) = Inr b"
    and s: "s = \<lparr>required_signers = d ! 0, valid_signers = d ! 1, multisig_is_initialized = b,
        signers = map (\<lambda>i. bytes_key (slice (3 + 32 * i) 32 d)) [0..<MAX_SIGNERS]\<rparr>"
    using assms by (auto simp: multisig_unpack_from_slice_def rbind_Inr_iff split: if_splits)
  have "concat (map key_bytes (signers s)) = concat (map (\<lambda>i. slice (32 * i) 32 (drop 3 d)) [0..<MAX_SIGNERS])"
    using len
    by (auto simp: s MAX_SIGNERS_def key_bytes_bytes_key slice_def add.commute intro!: arg_cong [of _ _ concat])
  also have "\<dots> = slice 3 352 d"
    using len concat_slices [of 32 MAX_SIGNERS "drop 3 d"] by (simp add: slice_def [of 3] MAX_SIGNERS_def)
  finally have keys: "concat (map key_bytes (signers s)) = slice 3 352 d" .
  have "multisig_pack_into_slice s d = Inr ([d ! 0, d ! 1, d ! 2] @ slice 3 352 d @ drop 355 d)"
    using len by (simp add: multisig_pack_into_slice_def keys) (simp add: s pack_unpack_flag [OF flag])
  also have "[d ! 0, d ! 1, d ! 2] @ slice 3 352 d @ drop 355 d = d"
    using len by (simp add: layout_join layout_join_byte) (cases d; simp)
  finally show ?thesis
    using len by (simp add: s multisig_shape_def)
qed

section \<open>The contract of a layout\<close>

text \<open>
  What the processor relies on: packing succeeds on a buffer that is long enough, touches
  only the first \<open>len\<close> bytes and reads back as the value, and packing an unpacked value into
  the buffer it came from changes nothing.
\<close>

locale slice_codec =
  fixes len :: nat
    and shape :: "'s \<Rightarrow> bool"
    and unpack_from_slice :: "bytes \<Rightarrow> 's token_res"
    and pack_into_slice :: "'s \<Rightarrow> bytes \<Rightarrow> bytes token_res"
  assumes pack_ok: "shape s \<Longrightarrow> len \<le> length dst \<Longrightarrow>
      \<exists>d. pack_into_slice s dst = Inr d \<and> length d = length dst
        \<and> drop len d = drop len dst \<and> unpack_from_slice d = Inr s"
    and unpack_ok: "unpack_from_slice d = Inr s \<Longrightarrow>
      len \<le> length d \<and> shape s \<and> pack_into_slice s d = Inr d"
begin

lemma unpack_pack:
  assumes "shape s" and "pack_into_slice s dst = Inr d" and "len \<le> length dst"
  shows "unpack_from_slice d = Inr s" and "length d = length dst" and "drop len d = drop len dst"
  using pack_ok [OF assms(1,3)] assms(2) by auto

lemma pack_total: "shape s \<Longrightarrow> len \<le> length dst \<Longrightarrow> \<exists>d. pack_into_slice s dst = Inr d"
  using pack_ok by blast

lemma pack_unpack: "unpack_from_slice d = Inr s \<Longrightarrow> pack_into_slice s d = Inr d"
  using unpack_ok by blast

lemma pack_injective:
  assumes "shape s" and "shape t" and "len \<le> length dst" and "pack_into_slice s dst = pack_into_slice t dst"
  shows "s = t"
  using pack_ok [OF assms(1,3)] pack_ok [OF assms(2,3)] assms(4) by auto

end

interpretation mint_codec: slice_codec 82 "\<lambda>_. True" mint_unpack_from_slice mint_pack_into_slice
proof
  show "\<exists>d. mint_pack_into_slice s dst = Inr d \<and> length d = length dst
        \<and> drop 82 d = drop 82 dst \<and> mint_unpack_from_slice d = Inr s"
    if "82 \<le> length dst" for s dst
    using mint_unpack_pack [OF that, of s thesis for thesis] by blast
qed (use mint_pack_unpack in blast)

interpretation account_codec: slice_codec 165 "\<lambda>_. True" account_unpack_from_slice account_pack_into_slice
proof
  show "\<exists>d. account_pack_into_slice s dst = Inr d \<and> length d = length dst
        \<and> drop 165 d = drop 165 dst \<and> account_unpack_from_slice d = Inr s"
    if "165 \<le> length dst" for s dst
    using account_unpack_pack [OF that, of s thesis for thesis] by blast
qed (use account_pack_unpack in blast)

interpretation multisig_codec:
  slice_codec 355 multisig_shape multisig_unpack_from_slice multisig_pack_into_slice
proof
  show "\<exists>d. multisig_pack_into_slice s dst = Inr d \<and> length d = length dst
        \<and> drop 355 d = drop 355 dst \<and> multisig_unpack_from_slice d = Inr s"
    if "multisig_shape s" "355 \<le> length dst" for s dst
    using multisig_unpack_pack [OF that(2,1), of thesis for thesis] by blast
qed (use multisig_pack_unpack in blast)

section \<open>Reading an account without unpacking it\<close>

definition nth_or :: "bytes \<Rightarrow> nat \<Rightarrow> u8 \<Rightarrow> u8" where
  "nth_or d i x = (if i < length d then d ! i else x)"

definition is_initialized_account :: "bytes \<Rightarrow> bool" where
  "is_initialized_account d \<longleftrightarrow> nth_or d 108 (account_state_byte StateUninitialized) \<noteq> account_state_byte StateUninitialized"

text \<open>The account type byte of an extended account is 2, \<open>AccountType::Account\<close>.\<close>

definition valid_account_data :: "bytes \<Rightarrow> bool" where
  "valid_account_data d \<longleftrightarrow>
     length d = 165 \<and> is_initialized_account d
   \<or> (165 \<le> length d \<and> length d \<noteq> 355 \<and> nth_or d 165 0 = 2 \<and> is_initialized_account d)"

definition unpack_account_owner :: "bytes \<Rightarrow> pubkey option" where
  "unpack_account_owner d =
     (if valid_account_data d then Some (bytes_key (slice 32 32 d)) else None)"

definition unpack_account_mint :: "bytes \<Rightarrow> pubkey option" where
  "unpack_account_mint d =
     (if valid_account_data d then Some (bytes_key (slice 0 32 d)) else None)"

lemma account_readers_agree:
  assumes "account_unpack_from_slice d = Inr a" and "account_is_initialized a" and "length d = 165"
  shows "unpack_account_owner d = Some (acc_owner a) \<and> unpack_account_mint d = Some (acc_mint a)"
proof -
  have "account_state_of (d ! 108) = Inr (acc_state a)"
      "acc_owner a = bytes_key (slice 32 32 d)" "acc_mint a = bytes_key (slice 0 32 d)"
    using assms(1) by (auto simp: account_unpack_from_slice_def rbind_Inr_iff split: if_splits)
  moreover from this(1) have "d ! 108 \<noteq> 0"
    using assms(2) by (auto simp: account_state_of_def account_is_initialized_def)
  ultimately show ?thesis
    using assms(3)
    by (simp add: unpack_account_owner_def unpack_account_mint_def valid_account_data_def
        is_initialized_account_def nth_or_def)
qed

section \<open>The SDK's \<open>Pack\<close> methods\<close>

text \<open>
  \<open>solana_sdk::program_pack::Pack\<close> provides \<open>unpack_unchecked\<close>, \<open>unpack\<close> and \<open>pack\<close> to an
  implementation of \<open>unpack_from_slice\<close> and \<open>pack_into_slice\<close>.  They are arguments of the
  model; \<open>pack_sdk\<close> states what their documentation says.
\<close>

record 's pack_fns =
  unpack_unchecked :: "bytes \<Rightarrow> 's token_res"
  unpack_checked :: "bytes \<Rightarrow> 's token_res"
  pack_checked :: "'s \<Rightarrow> bytes \<Rightarrow> bytes token_res"

locale pack_sdk =
  fixes P :: "'s pack_fns"
    and len :: nat
    and initialized :: "'s \<Rightarrow> bool"
    and from_slice :: "bytes \<Rightarrow> 's token_res"
    and into_slice :: "'s \<Rightarrow> bytes \<Rightarrow> bytes token_res"
  assumes unpack_unchecked_fits: "length d = len \<Longrightarrow> unpack_unchecked P d = from_slice d"
    and unpack_unchecked_length: "length d \<noteq> len \<Longrightarrow> unpack_unchecked P d = err InvalidAccountData"
    and unpack_checks: "unpack_checked P d = rbind (unpack_unchecked P d)
      (\<lambda>s. if initialized s then Inr s else err UninitializedAccount)"
    and pack_fits: "length d = len \<Longrightarrow> pack_checked P s d = into_slice s d"
    and pack_length: "length d \<noteq> len \<Longrightarrow> pack_checked P s d = err InvalidAccountData"
begin

lemma unpack_unchecked_iff:
  "unpack_unchecked P d = Inr s \<longleftrightarrow> length d = len \<and> from_slice d = Inr s"
  using unpack_unchecked_fits [of d] unpack_unchecked_length [of d] by (cases "length d = len") auto

lemma unpack_iff:
  "unpack_checked P d = Inr s \<longleftrightarrow> length d = len \<and> from_slice d = Inr s \<and> initialized s"
  by (auto simp: unpack_checks rbind_Inr_iff unpack_unchecked_iff)

lemma pack_iff:
  "pack_checked P s d = Inr d' \<longleftrightarrow> length d = len \<and> into_slice s d = Inr d'"
  using pack_fits [of d s] pack_length [of d s] by (cases "length d = len") auto

end

definition documented_pack ::
  "nat \<Rightarrow> ('s \<Rightarrow> bool) \<Rightarrow> (bytes \<Rightarrow> 's token_res) \<Rightarrow> ('s \<Rightarrow> bytes \<Rightarrow> bytes token_res) \<Rightarrow> 's pack_fns" where
  "documented_pack len initialized from_slice into_slice =
     (let unchecked = (\<lambda>d. if length d = len then from_slice d else err InvalidAccountData)
      in \<lparr>unpack_unchecked = unchecked,
          unpack_checked = (\<lambda>d. rbind (unchecked d)
            (\<lambda>s. if initialized s then Inr s else err UninitializedAccount)),
          pack_checked = (\<lambda>s d. if length d = len then into_slice s d else err InvalidAccountData)\<rparr>)"

lemma documented_pack_sdk: "pack_sdk (documented_pack len initialized from into) len initialized from into"
  by unfold_locales (simp_all add: documented_pack_def Let_def)

definition documented_mint_pack :: "mint pack_fns" where
  "documented_mint_pack = documented_pack 82 mint_is_initialized mint_unpack_from_slice mint_pack_into_slice"

definition documented_account_pack :: "token_account pack_fns" where
  "documented_account_pack =
     documented_pack 165 account_is_initialized account_unpack_from_slice account_pack_into_slice"

definition documented_multisig_pack :: "multisig pack_fns" where
  "documented_multisig_pack =
     documented_pack 355 multisig_is_initialized multisig_unpack_from_slice multisig_pack_into_slice"

interpretation mint_pack: pack_sdk documented_mint_pack 82 mint_is_initialized
  mint_unpack_from_slice mint_pack_into_slice
  unfolding documented_mint_pack_def by (rule documented_pack_sdk)

interpretation account_pack: pack_sdk documented_account_pack 165 account_is_initialized
  account_unpack_from_slice account_pack_into_slice
  unfolding documented_account_pack_def by (rule documented_pack_sdk)

interpretation multisig_pack: pack_sdk documented_multisig_pack 355 multisig_is_initialized
  multisig_unpack_from_slice multisig_pack_into_slice
  unfolding documented_multisig_pack_def by (rule documented_pack_sdk)

section \<open>Properties\<close>

text \<open>
  C13. The three base states survive a round trip: packed into a buffer that is long enough,
  whatever it held, a mint, a token account and a multisignature are read back unchanged, the
  buffer keeps its length and nothing behind the state is touched.
\<close>

theorem base_states_roundtrip:
  assumes "82 \<le> length b" and "165 \<le> length c" and "355 \<le> length e" and "multisig_shape s"
  shows "(\<exists>d. mint_pack_into_slice m b = Inr d \<and> mint_unpack_from_slice d = Inr m
            \<and> length d = length b \<and> drop 82 d = drop 82 b)
       \<and> (\<exists>d. account_pack_into_slice a c = Inr d \<and> account_unpack_from_slice d = Inr a
            \<and> length d = length c \<and> drop 165 d = drop 165 c)
       \<and> (\<exists>d. multisig_pack_into_slice s e = Inr d \<and> multisig_unpack_from_slice d = Inr s
            \<and> length d = length e \<and> drop 355 d = drop 355 e)"
  using mint_codec.pack_ok [OF TrueI assms(1), of m] account_codec.pack_ok [OF TrueI assms(2), of a]
    multisig_codec.pack_ok [OF assms(4,3)]
  by blast

definition sample_mint :: mint where
  "sample_mint = \<lparr>mint_authority = Some 7, mint_supply = 1000, decimals = 2,
     mint_is_initialized = True, freeze_authority = None\<rparr>"

definition sample_account :: token_account where
  "sample_account = \<lparr>acc_mint = 3, acc_owner = 5, amount = 40, delegate = Some 9,
     acc_state = Initialized, is_native = None, delegated_amount = 4, close_authority = None\<rparr>"

definition sample_multisig :: multisig where
  "sample_multisig = \<lparr>required_signers = 2, valid_signers = 3, multisig_is_initialized = True,
     signers = map of_nat [0..<11]\<rparr>"

lemma sample_multisig_shape: "multisig_shape sample_multisig"
  by (simp add: multisig_shape_def sample_multisig_def MAX_SIGNERS_def)

theorem base_states_roundtrip_witness:
  "(\<exists>d. mint_pack_into_slice sample_mint (replicate 82 1) = Inr d \<and> mint_unpack_from_slice d = Inr sample_mint)
 \<and> (\<exists>d. account_pack_into_slice sample_account (replicate 170 1) = Inr d
      \<and> account_unpack_from_slice d = Inr sample_account \<and> drop 165 d = replicate 5 1)
 \<and> (\<exists>d. multisig_pack_into_slice sample_multisig (replicate 355 0) = Inr d
      \<and> multisig_unpack_from_slice d = Inr sample_multisig)"
  using base_states_roundtrip [of "replicate 82 1" "replicate 170 1" "replicate 355 0" sample_multisig
      sample_mint sample_account]
  by (simp add: sample_multisig_shape) blast

text \<open>
  Packing writes only what it read: a mint or a token account unpacked from a buffer and
  packed back into it leaves every byte of the buffer as it was, also the body of an absent
  option, which \<open>pack_coption_key\<close> does not clear.
\<close>

theorem repacking_changes_nothing:
  "(mint_unpack_from_slice d = Inr m \<longrightarrow> mint_pack_into_slice m d = Inr d)
 \<and> (account_unpack_from_slice d = Inr a \<longrightarrow> account_pack_into_slice a d = Inr d)
 \<and> (multisig_unpack_from_slice d = Inr s \<longrightarrow> multisig_pack_into_slice s d = Inr d)"
  by (simp add: mint_codec.pack_unpack account_codec.pack_unpack multisig_codec.pack_unpack)

definition garbage_account :: bytes where
  "garbage_account = replicate 72 1 @ [0, 0, 0, 0] @ replicate 32 5 @ [1] @ [0, 0, 0, 0]
     @ replicate 16 3 @ [0, 0, 0, 0] @ replicate 32 6"

lemma garbage_account_unpacks: "is_ok (account_unpack_from_slice garbage_account)"
proof -
  have "slice 72 4 garbage_account = [0, 0, 0, 0]" "slice 109 4 garbage_account = [0, 0, 0, 0]"
      "slice 129 4 garbage_account = [0, 0, 0, 0]" "garbage_account ! 108 = 1"
      "length garbage_account = 165"
    by (simp_all add: garbage_account_def layout_split nth_append slice_def)
  then show ?thesis
    by (simp add: account_unpack_from_slice_def unpack_coption_key_def unpack_coption_u64_def
        account_state_of_def is_ok_iff rbind_Inr_iff Let_def slice_slice)
qed

theorem repacking_changes_nothing_witness:
  "account_pack_into_slice (projr (account_unpack_from_slice garbage_account)) garbage_account
     = Inr garbage_account"
  using repacking_changes_nothing [of garbage_account] garbage_account_unpacks
  by (auto simp: is_ok_iff)

end
