(* ===== verification/Token_Extension.thy ===== *)
theory Token_Extension
  imports Token_State "HOL-Library.AList"
begin

text \<open>
  Extensions of mints and token accounts
  (\<open>spl_token_2022/extension/mod.rs\<close> and the extension types beside it).  Behind the base
  state an account may hold a type byte and a list of type-length-value entries.  A Rust
  \<open>V: Extension\<close> is a record \<open>extension\<close> (its type code, size, bytes and default), a
  \<open>S: BaseState\<close> a record \<open>base_state\<close>; \<open>StateWithExtensionsMut\<close> is the record
  \<open>ext_state\<close>, whose parts put together are the account's data (\<open>ext_state_data\<close>).
  References into the entry list are byte positions; writing through one is \<open>write_extension\<close>.

  The abstract view of an entry list is a list of typed values, \<open>encode_entries\<close>; the
  lemmas on \<open>extension_indices\<close> show that searching and initialising refine looking up and
  appending in it.  Sizes are natural numbers: account data is at most 10 MiB and a length
  field at most 65535, so the \<open>saturating_add\<close>s on \<open>usize\<close> never saturate.
\<close>

section \<open>Account and extension types\<close>

datatype account_type = TypeUninitialized | MintType | AccountType

fun account_type_byte :: "account_type \<Rightarrow> u8" where
  "account_type_byte TypeUninitialized = 0"
| "account_type_byte MintType = 1"
| "account_type_byte AccountType = 2"

definition account_type_of :: "u8 \<Rightarrow> program_error + account_type" where
  "account_type_of b =
     (if b = 0 then Inr TypeUninitialized else if b = 1 then Inr MintType
      else if b = 2 then Inr AccountType else Inl InvalidAccountData)"

datatype extension_type =
    ExtUninitialized | TransferFeeConfig | TransferFeeAmount | MintCloseAuthority
  | ConfidentialTransferMint | ConfidentialTransferAccount | DefaultAccountState
  | ImmutableOwner | MemoTransfer | NonTransferable | InterestBearingConfig

fun extension_code :: "extension_type \<Rightarrow> u16" where
  "extension_code ExtUninitialized = 0"
| "extension_code TransferFeeConfig = 1"
| "extension_code TransferFeeAmount = 2"
| "extension_code MintCloseAuthority = 3"
| "extension_code ConfidentialTransferMint = 4"
| "extension_code ConfidentialTransferAccount = 5"
| "extension_code DefaultAccountState = 6"
| "extension_code ImmutableOwner = 7"
| "extension_code MemoTransfer = 8"
| "extension_code NonTransferable = 9"
| "extension_code InterestBearingConfig = 10"

definition extension_type_of :: "bytes \<Rightarrow> program_error + extension_type" where
  "extension_type_of a =
     (if length a \<noteq> 2 then Inl InvalidAccountData
      else ok_or (find (\<lambda>e. extension_code e = bytes_u16 a)
        [ExtUninitialized, TransferFeeConfig, TransferFeeAmount, MintCloseAuthority,
         ConfidentialTransferMint, ConfidentialTransferAccount, DefaultAccountState,
         ImmutableOwner, MemoTransfer, NonTransferable, InterestBearingConfig]) InvalidAccountData)"

fun get_account_type :: "extension_type \<Rightarrow> account_type" where
  "get_account_type ExtUninitialized = TypeUninitialized"
| "get_account_type TransferFeeConfig = MintType"
| "get_account_type MintCloseAuthority = MintType"
| "get_account_type ConfidentialTransferMint = MintType"
| "get_account_type DefaultAccountState = MintType"
| "get_account_type NonTransferable = MintType"
| "get_account_type InterestBearingConfig = MintType"
| "get_account_type ImmutableOwner = AccountType"
| "get_account_type TransferFeeAmount = AccountType"
| "get_account_type ConfidentialTransferAccount = AccountType"
| "get_account_type MemoTransfer = AccountType"

lemma account_type_of_byte [simp]: "account_type_of (account_type_byte t) = Inr t"
  by (cases t) (simp_all add: account_type_of_def)

lemma extension_type_of_code [simp]: "extension_type_of (u16_bytes (extension_code t)) = Inr t"
  by (cases t) (simp_all add: extension_type_of_def)

lemma get_account_type_uninitialized [simp]:
  "get_account_type t = TypeUninitialized \<longleftrightarrow> t = ExtUninitialized"
  by (cases t) simp_all

section \<open>The extension states\<close>

record transfer_fee =
  fee_epoch :: u64
  maximum_fee :: u64
  fee_basis_points :: u16

record transfer_fee_config =
  transfer_fee_config_authority :: optional_key
  withdraw_withheld_authority :: optional_key
  mint_withheld_amount :: u64
  older_transfer_fee :: transfer_fee
  newer_transfer_fee :: transfer_fee

record transfer_fee_amount =
  withheld_amount :: u64

record mint_close_authority =
  mint_close_key :: optional_key

record default_account_state =
  default_state :: u8

record memo_transfer =
  require_incoming_transfer_memos :: u8

text \<open>\<open>i16\<close> and \<open>i64\<close> fields are kept as words; nothing here reads their sign.\<close>

record interest_bearing_config =
  rate_authority :: optional_key
  initialization_timestamp :: i64
  pre_update_average_rate :: u16
  last_update_timestamp :: i64
  current_rate :: u16

text \<open>
  A plain-old-data extension: \<open>ext_bytes\<close> is \<open>pod_bytes_of\<close>, \<open>ext_value\<close> the reading of
  \<open>ext_len\<close> bytes in place.  \<open>ImmutableOwner\<close> and \<open>NonTransferable\<close> are empty structs.
\<close>

record 'v extension =
  ext_type :: extension_type
  ext_len :: nat
  ext_bytes :: "'v \<Rightarrow> bytes"
  ext_value :: "bytes \<Rightarrow> 'v"
  ext_default :: 'v

definition transfer_fee_bytes :: "transfer_fee \<Rightarrow> bytes" where
  "transfer_fee_bytes f =
     u64_bytes (fee_epoch f) @ u64_bytes (maximum_fee f) @ u16_bytes (fee_basis_points f)"

definition transfer_fee_value :: "bytes \<Rightarrow> transfer_fee" where
  "transfer_fee_value b =
     \<lparr>fee_epoch = bytes_u64 (slice 0 8 b), maximum_fee = bytes_u64 (slice 8 8 b),
      fee_basis_points = bytes_u16 (slice 16 2 b)\<rparr>"

definition zero_transfer_fee :: transfer_fee where
  "zero_transfer_fee = \<lparr>fee_epoch = 0, maximum_fee = 0, fee_basis_points = 0\<rparr>"

definition transfer_fee_config_ext :: "transfer_fee_config extension" where
  "transfer_fee_config_ext =
     \<lparr>ext_type = TransferFeeConfig, ext_len = 108,
      ext_bytes = (\<lambda>c. key_bytes (transfer_fee_config_authority c)
        @ key_bytes (withdraw_withheld_authority c) @ u64_bytes (mint_withheld_amount c)
        @ transfer_fee_bytes (older_transfer_fee c) @ transfer_fee_bytes (newer_transfer_fee c)),
      ext_value = (\<lambda>b. \<lparr>transfer_fee_config_authority = bytes_key (slice 0 32 b),
        withdraw_withheld_authority = bytes_key (slice 32 32 b),
        mint_withheld_amount = bytes_u64 (slice 64 8 b),
        older_transfer_fee = transfer_fee_value (slice 72 18 b),
        newer_transfer_fee = transfer_fee_value (slice 90 18 b)\<rparr>),
      ext_default = \<lparr>transfer_fee_config_authority = 0, withdraw_withheld_authority = 0,
        mint_withheld_amount = 0, older_transfer_fee = zero_transfer_fee,
        newer_transfer_fee = zero_transfer_fee\<rparr>\<rparr>"

definition transfer_fee_amount_ext :: "transfer_fee_amount extension" where
  "transfer_fee_amount_ext =
     \<lparr>ext_type = TransferFeeAmount, ext_len = 8,
      ext_bytes = (\<lambda>a. u64_bytes (withheld_amount a)),
      ext_value = (\<lambda>b. \<lparr>withheld_amount = bytes_u64 b\<rparr>), ext_default = \<lparr>withheld_amount = 0\<rparr>\<rparr>"

definition mint_close_authority_ext :: "mint_close_authority extension" where
  "mint_close_authority_ext =
     \<lparr>ext_type = MintCloseAuthority, ext_len = 32,
      ext_bytes = (\<lambda>a. key_bytes (mint_close_key a)),
      ext_value = (\<lambda>b. \<lparr>mint_close_key = bytes_key b\<rparr>), ext_default = \<lparr>mint_close_key = 0\<rparr>\<rparr>"

definition default_account_state_ext :: "default_account_state extension" where
  "default_account_state_ext =
     \<lparr>ext_type = DefaultAccountState, ext_len = 1, ext_bytes = (\<lambda>a. [default_state a]),
      ext_value = (\<lambda>b. \<lparr>default_state = hd b\<rparr>), ext_default = \<lparr>default_state = 0\<rparr>\<rparr>"

definition immutable_owner_ext :: "unit extension" where
  "immutable_owner_ext =
     \<lparr>ext_type = ImmutableOwner, ext_len = 0, ext_bytes = (\<lambda>_. []), ext_value = (\<lambda>_. ()),
      ext_default = ()\<rparr>"

definition memo_transfer_ext :: "memo_transfer extension" where
  "memo_transfer_ext =
     \<lparr>ext_type = MemoTransfer, ext_len = 1,
      ext_bytes = (\<lambda>a. [require_incoming_transfer_memos a]),
      ext_value = (\<lambda>b. \<lparr>require_incoming_transfer_memos = hd b\<rparr>),
      ext_default = \<lparr>require_incoming_transfer_memos = 0\<rparr>\<rparr>"

definition non_transferable_ext :: "unit extension" where
  "non_transferable_ext =
     \<lparr>ext_type = NonTransferable, ext_len = 0, ext_bytes = (\<lambda>_. []), ext_value = (\<lambda>_. ()),
      ext_default = ()\<rparr>"

definition interest_bearing_config_ext :: "interest_bearing_config extension" where
  "interest_bearing_config_ext =
     \<lparr>ext_type = InterestBearingConfig, ext_len = 52,
      ext_bytes = (\<lambda>c. key_bytes (rate_authority c) @ u64_bytes (initialization_timestamp c)
        @ u16_bytes (pre_update_average_rate c) @ u64_bytes (last_update_timestamp c)
        @ u16_bytes (current_rate c)),
      ext_value = (\<lambda>b. \<lparr>rate_authority = bytes_key (slice 0 32 b),
        initialization_timestamp = bytes_u64 (slice 32 8 b),
        pre_update_average_rate = bytes_u16 (slice 40 2 b),
        last_update_timestamp = bytes_u64 (slice 42 8 b),
        current_rate = bytes_u16 (slice 50 2 b)\<rparr>),
      ext_default = \<lparr>rate_authority = 0, initialization_timestamp = 0,
        pre_update_average_rate = 0, last_update_timestamp = 0, current_rate = 0\<rparr>\<rparr>"

fun get_type_len :: "extension_type \<Rightarrow> nat" where
  "get_type_len ExtUninitialized = 0"
| "get_type_len TransferFeeConfig = ext_len transfer_fee_config_ext"
| "get_type_len TransferFeeAmount = ext_len transfer_fee_amount_ext"
| "get_type_len MintCloseAuthority = ext_len mint_close_authority_ext"
| "get_type_len ImmutableOwner = ext_len immutable_owner_ext"
| "get_type_len ConfidentialTransferMint = 0"
| "get_type_len ConfidentialTransferAccount = 0"
| "get_type_len DefaultAccountState = ext_len default_account_state_ext"
| "get_type_len MemoTransfer = ext_len memo_transfer_ext"
| "get_type_len NonTransferable = ext_len non_transferable_ext"
| "get_type_len InterestBearingConfig = ext_len interest_bearing_config_ext"

definition get_tlv_len :: "extension_type \<Rightarrow> nat" where
  "get_tlv_len t = get_type_len t + 2 + 2"

text \<open>
  The contract of an extension type: its bytes have the declared size and read back, and its
  size is the one its type code announces.
\<close>

locale pod_extension =
  fixes V :: "'v extension"
  assumes bytes_length: "length (ext_bytes V v) = ext_len V"
    and value_bytes: "ext_value V (ext_bytes V v) = v"
    and bytes_value: "length b = ext_len V \<Longrightarrow> ext_bytes V (ext_value V b) = b"
    and declared_length: "ext_len V = get_type_len (ext_type V)"
    and real_type: "ext_type V \<noteq> ExtUninitialized"
    and length_fits: "ext_len V < 65536"

lemma transfer_fee_pod:
  "length (transfer_fee_bytes f) = 18"
  "transfer_fee_value (transfer_fee_bytes f) = f"
  "length b = 18 \<Longrightarrow> transfer_fee_bytes (transfer_fee_value b) = b"
  by (simp_all add: transfer_fee_bytes_def transfer_fee_value_def layout_split
      u64_bytes_bytes_u64 u16_bytes_bytes_u16 slice_chain slice_full)

lemma transfer_fee_config_pod: "pod_extension transfer_fee_config_ext"
  by unfold_locales
    (simp_all add: transfer_fee_config_ext_def layout_split transfer_fee_pod slice_full
      u64_bytes_bytes_u64 key_bytes_bytes_key slice_chain)

lemma interest_bearing_config_pod: "pod_extension interest_bearing_config_ext"
  by unfold_locales
    (simp_all add: interest_bearing_config_ext_def layout_split slice_full
      u64_bytes_bytes_u64 u16_bytes_bytes_u16 key_bytes_bytes_key slice_chain)

lemma list_length_1: "length b = Suc 0 \<Longrightarrow> [hd b] = b"
  by (cases b) auto

interpretation fee_config_ext: pod_extension transfer_fee_config_ext
  by (rule transfer_fee_config_pod)

interpretation interest_ext: pod_extension interest_bearing_config_ext
  by (rule interest_bearing_config_pod)

interpretation fee_amount_ext: pod_extension transfer_fee_amount_ext
  by unfold_locales (simp_all add: transfer_fee_amount_ext_def u64_bytes_bytes_u64)

interpretation close_authority_ext: pod_extension mint_close_authority_ext
  by unfold_locales (simp_all add: mint_close_authority_ext_def key_bytes_bytes_key)

interpretation default_state_ext: pod_extension default_account_state_ext
  by unfold_locales (simp_all add: default_account_state_ext_def list_length_1)

interpretation memo_ext: pod_extension memo_transfer_ext
  by unfold_locales (simp_all add: memo_transfer_ext_def list_length_1)

interpretation immutable_ext: pod_extension immutable_owner_ext
  by unfold_locales (simp_all add: immutable_owner_ext_def)

interpretation non_transferable: pod_extension non_transferable_ext
  by unfold_locales (simp_all add: non_transferable_ext_def)

section \<open>The entry list\<close>

record tlv_indices =
  type_start :: nat
  length_start :: nat
  value_start :: nat

definition get_tlv_indices :: "nat \<Rightarrow> tlv_indices" where
  "get_tlv_indices start =
     (let length_start = start + 2; value_start = length_start + 2
      in \<lparr>type_start = start, length_start = length_start, value_start = value_start\<rparr>)"

definition tlv_length :: "bytes \<Rightarrow> tlv_indices \<Rightarrow> nat" where
  "tlv_length tlv ix = unat (bytes_u16 (slice (length_start ix) 2 tlv))"

text \<open>\<open>get_extension_indices::<V>\<close> from \<open>start_index\<close> on; \<open>v\<close> is \<open>V::TYPE\<close>.\<close>

function extension_indices ::
  "extension_type \<Rightarrow> bytes \<Rightarrow> bool \<Rightarrow> nat \<Rightarrow> program_error + tlv_indices" where
  "extension_indices v tlv init start =
     (if \<not> start < length tlv then Inl InvalidAccountData
      else
        let ix = get_tlv_indices start
        in if length tlv < value_start ix then Inl InvalidAccountData
           else case extension_type_of (slice (type_start ix) 2 tlv) of
             Inl e \<Rightarrow> Inl e
           | Inr t \<Rightarrow>
               if t = ExtUninitialized then
                 (if init then Inr ix else extension_indices v tlv init (length_start ix))
               else if t = v then Inr ix
               else if get_account_type v \<noteq> get_account_type t
                 then Inl (Token ExtensionTypeMismatch)
               else extension_indices v tlv init (value_start ix + tlv_length tlv ix))"
  by pat_completeness auto
termination
  by (relation "measure (\<lambda>(v, tlv, init, start). length tlv - start)")
    (auto simp: get_tlv_indices_def Let_def)

declare extension_indices.simps [simp del]

definition get_extension_indices :: "extension_type \<Rightarrow> bytes \<Rightarrow> bool \<Rightarrow> program_error + tlv_indices" where
  "get_extension_indices v tlv init = extension_indices v tlv init 0"

function extension_types :: "bytes \<Rightarrow> nat \<Rightarrow> program_error + extension_type list" where
  "extension_types tlv start =
     (if \<not> start < length tlv then Inr []
      else
        let ix = get_tlv_indices start
        in if length tlv < value_start ix then Inr []
           else case extension_type_of (slice (type_start ix) 2 tlv) of
             Inl e \<Rightarrow> Inl e
           | Inr t \<Rightarrow>
               if t = ExtUninitialized then Inr []
               else case extension_types tlv (value_start ix + tlv_length tlv ix) of
                 Inl e \<Rightarrow> Inl e
               | Inr ts \<Rightarrow> Inr (t # ts))"
  by pat_completeness auto
termination
  by (relation "measure (\<lambda>(tlv, start). length tlv - start)")
    (auto simp: get_tlv_indices_def Let_def)

declare extension_types.simps [simp del]

definition get_extension_types :: "bytes \<Rightarrow> program_error + extension_type list" where
  "get_extension_types tlv = extension_types tlv 0"

definition get_first_extension_type :: "bytes \<Rightarrow> program_error + extension_type option" where
  "get_first_extension_type tlv =
     (if tlv = [] then Inr None
      else
        let ix = get_tlv_indices 0
        in if length tlv \<le> length_start ix then Inr None
           else rbind (extension_type_of (slice (type_start ix) 2 tlv)) (\<lambda>t.
             if t = ExtUninitialized then Inr None else Inr (Some t)))"

section \<open>Account sizes\<close>

definition dedupe :: "extension_type list \<Rightarrow> extension_type list" where
  "dedupe ts = foldl (\<lambda>seen t. if t \<in> set seen then seen else seen @ [t]) [] ts"

definition get_total_tlv_len :: "extension_type list \<Rightarrow> nat" where
  "get_total_tlv_len ts =
     (let tlv_len = sum_list (map get_tlv_len (dedupe ts))
      in if tlv_len = 355 - 165 - 1 then tlv_len + 2 else tlv_len)"

definition get_account_len :: "nat \<Rightarrow> extension_type list \<Rightarrow> nat" where
  "get_account_len base_len ts =
     (if ts = [] then base_len else get_total_tlv_len ts + 165 + 1)"

fun required_account_extension :: "extension_type \<Rightarrow> extension_type list" where
  "required_account_extension TransferFeeConfig = [TransferFeeAmount]"
| "required_account_extension _ = []"

definition get_required_init_account_extensions :: "extension_type list \<Rightarrow> extension_type list" where
  "get_required_init_account_extensions ts = concat (map required_account_extension ts)"

lemma dedupe_acc:
  "distinct acc \<Longrightarrow>
     distinct (foldl (\<lambda>seen t. if t \<in> set seen then seen else seen @ [t]) acc ts)
   \<and> set (foldl (\<lambda>seen t. if t \<in> set seen then seen else seen @ [t]) acc ts) = set acc \<union> set ts"
  by (induction ts arbitrary: acc) auto

lemma dedupe_distinct: "distinct (dedupe ts)" and set_dedupe: "set (dedupe ts) = set ts"
  using dedupe_acc [of "[]" ts] by (simp_all add: dedupe_def)

lemma total_tlv_len_set:
  "sum_list (map get_tlv_len (dedupe ts)) = sum get_tlv_len (set ts)"
  by (simp add: sum_list_distinct_conv_sum_set dedupe_distinct set_dedupe)

section \<open>States with extensions\<close>

record 's base_state =
  base_len :: nat
  base_type :: account_type
  base_pack :: "'s pack_fns"
  base_into_slice :: "'s \<Rightarrow> bytes \<Rightarrow> bytes token_res"
  base_initialized :: "'s \<Rightarrow> bool"

definition mint_base :: "mint pack_fns \<Rightarrow> mint base_state" where
  "mint_base P = \<lparr>base_len = 82, base_type = MintType, base_pack = P,
     base_into_slice = mint_pack_into_slice, base_initialized = mint_is_initialized\<rparr>"

definition account_base :: "token_account pack_fns \<Rightarrow> token_account base_state" where
  "account_base P = \<lparr>base_len = 165, base_type = AccountType, base_pack = P,
     base_into_slice = account_pack_into_slice, base_initialized = account_is_initialized\<rparr>"

text \<open>\<open>StateWithExtensions\<close>, and the parts of the buffer a \<open>StateWithExtensionsMut\<close> borrows.\<close>

record 's state_view =
  view_base :: 's
  view_tlv :: bytes

record 's ext_state =
  ext_base :: 's
  base_data :: bytes
  padding :: bytes
  account_type :: bytes
  tlv_data :: bytes

definition ext_state_data :: "'s ext_state \<Rightarrow> bytes" where
  "ext_state_data w = base_data w @ padding w @ account_type w @ tlv_data w"

definition check_min_len_and_not_multisig :: "bytes \<Rightarrow> nat \<Rightarrow> program_error + unit" where
  "check_min_len_and_not_multisig input minimum =
     (if length input = 355 \<or> length input < minimum then Inl InvalidAccountData else Inr ())"

definition check_account_type :: "'s base_state \<Rightarrow> account_type \<Rightarrow> program_error + unit" where
  "check_account_type S t = (if t \<noteq> base_type S then Inl InvalidAccountData else Inr ())"

definition type_and_tlv_indices :: "'s base_state \<Rightarrow> bytes \<Rightarrow> program_error + (nat \<times> nat) option" where
  "type_and_tlv_indices S rest =
     (if rest = [] then Inr None
      else
        let account_type_index = 165 - base_len S; tlv_start_index = account_type_index + 1
        in if length rest \<le> tlv_start_index then Inl InvalidAccountData
           else if take account_type_index rest \<noteq> replicate account_type_index 0
             then Inl InvalidAccountData
           else Inr (Some (account_type_index, tlv_start_index)))"

definition unpack_state :: "'s base_state \<Rightarrow> bytes \<Rightarrow> 's state_view token_res" where
  "unpack_state S input =
     rbind (lift_err (check_min_len_and_not_multisig input (base_len S))) (\<lambda>_.
     let raw = take (base_len S) input; rest = drop (base_len S) input in
     rbind (unpack_checked (base_pack S) raw) (\<lambda>base.
     rbind (lift_err (type_and_tlv_indices S rest)) (\<lambda>indices.
     case indices of
       None \<Rightarrow> Inr \<lparr>view_base = base, view_tlv = []\<rparr>
     | Some (type_index, tlv_index) \<Rightarrow>
         rbind (lift_err (account_type_of (rest ! type_index))) (\<lambda>t.
         rbind (lift_err (check_account_type S t)) (\<lambda>_.
         Inr \<lparr>view_base = base, view_tlv = drop tlv_index rest\<rparr>)))))"

text \<open>\<open>ext_parts\<close> is the splitting of the buffer both mutable constructors end with.\<close>

definition ext_parts :: "bytes \<Rightarrow> 's \<Rightarrow> bytes \<Rightarrow> (nat \<times> nat) option \<Rightarrow> 's ext_state" where
  "ext_parts raw base rest indices =
     (case indices of
        None \<Rightarrow> \<lparr>ext_base = base, base_data = raw, padding = [], account_type = [], tlv_data = []\<rparr>
      | Some (type_index, tlv_index) \<Rightarrow>
          \<lparr>ext_base = base, base_data = raw, padding = take type_index rest,
           account_type = slice type_index (tlv_index - type_index) rest,
           tlv_data = drop tlv_index rest\<rparr>)"

definition unpack_mut :: "'s base_state \<Rightarrow> bytes \<Rightarrow> 's ext_state token_res" where
  "unpack_mut S input =
     rbind (lift_err (check_min_len_and_not_multisig input (base_len S))) (\<lambda>_.
     let raw = take (base_len S) input; rest = drop (base_len S) input in
     rbind (unpack_checked (base_pack S) raw) (\<lambda>base.
     rbind (lift_err (type_and_tlv_indices S rest)) (\<lambda>indices.
     case indices of
       None \<Rightarrow> Inr (ext_parts raw base rest None)
     | Some (type_index, tlv_index) \<Rightarrow>
         rbind (lift_err (account_type_of (rest ! type_index))) (\<lambda>t.
         rbind (lift_err (check_account_type S t)) (\<lambda>_.
         Inr (ext_parts raw base rest (Some (type_index, tlv_index))))))))"

definition check_first_extension :: "'s base_state \<Rightarrow> 's ext_state \<Rightarrow> program_error + unit" where
  "check_first_extension S w =
     rbind (get_first_extension_type (tlv_data w)) (\<lambda>first.
     case first of
       None \<Rightarrow> Inr ()
     | Some t \<Rightarrow> if get_account_type t \<noteq> base_type S then Inl (Token ExtensionBaseMismatch) else Inr ())"

definition unpack_uninitialized :: "'s base_state \<Rightarrow> bytes \<Rightarrow> 's ext_state token_res" where
  "unpack_uninitialized S input =
     rbind (lift_err (check_min_len_and_not_multisig input (base_len S))) (\<lambda>_.
     let raw = take (base_len S) input; rest = drop (base_len S) input in
     rbind (unpack_unchecked (base_pack S) raw) (\<lambda>base.
     if base_initialized S base then err (Token AlreadyInUse)
     else
     rbind (lift_err (type_and_tlv_indices S rest)) (\<lambda>indices.
     case indices of
       None \<Rightarrow> Inr (ext_parts raw base rest None)
     | Some (type_index, tlv_index) \<Rightarrow>
         rbind (lift_err (account_type_of (rest ! type_index))) (\<lambda>t.
         if t \<noteq> TypeUninitialized then err InvalidAccountData
         else
           let w = ext_parts raw base rest (Some (type_index, tlv_index)) in
           rbind (lift_err (check_first_extension S w)) (\<lambda>_. Inr w)))))"

definition pack_base :: "'s base_state \<Rightarrow> 's ext_state \<Rightarrow> 's ext_state token_res" where
  "pack_base S w =
     rbind (base_into_slice S (ext_base w) (base_data w)) (\<lambda>d. Inr (w\<lparr>base_data := d\<rparr>))"

text \<open>
  Reading an extension: \<open>value_range\<close> slices the value out of the list and panics when the
  stored length reaches behind it; \<open>pod_from_bytes\<close> then insists on the size of the type.
\<close>

definition pod_from_bytes :: "'v extension \<Rightarrow> bytes \<Rightarrow> program_error + 'v" where
  "pod_from_bytes V b = (if length b = ext_len V then Inr (ext_value V b) else Inl InvalidArgument)"

definition value_range :: "bytes \<Rightarrow> tlv_indices \<Rightarrow> bytes token_res" where
  "value_range tlv ix =
     (if length tlv < value_start ix + tlv_length tlv ix then Inl Panic
      else Inr (slice (value_start ix) (tlv_length tlv ix) tlv))"

definition get_extension :: "'s base_state \<Rightarrow> 'v extension \<Rightarrow> bytes \<Rightarrow> 'v token_res" where
  "get_extension S V tlv =
     (if get_account_type (ext_type V) \<noteq> base_type S then err InvalidAccountData
      else
        rbind (lift_err (get_extension_indices (ext_type V) tlv False)) (\<lambda>ix.
        rbind (value_range tlv ix) (\<lambda>b.
        lift_err (pod_from_bytes V b))))"

text \<open>
  \<open>StateWithExtensionsMut::get_extension\<close> and \<open>get_extension_mut\<close> first check that the rest of
  the list could hold the entry; the mutable one also returns the position it points to.
\<close>

definition get_extension_mut :: "'s base_state \<Rightarrow> 'v extension \<Rightarrow> 's ext_state \<Rightarrow> (nat \<times> 'v) token_res" where
  "get_extension_mut S V w =
     (if get_account_type (ext_type V) \<noteq> base_type S then err InvalidAccountData
      else
        rbind (lift_err (get_extension_indices (ext_type V) (tlv_data w) False)) (\<lambda>ix.
        if length (drop (type_start ix) (tlv_data w)) < get_tlv_len (ext_type V)
          then err InvalidAccountData
        else
        rbind (value_range (tlv_data w) ix) (\<lambda>b.
        rbind (lift_err (pod_from_bytes V b)) (\<lambda>v.
        Inr (value_start ix, v)))))"

definition state_get_extension :: "'s base_state \<Rightarrow> 'v extension \<Rightarrow> 's ext_state \<Rightarrow> 'v token_res" where
  "state_get_extension S V w = rbind (get_extension_mut S V w) (\<lambda>(_, v). Inr v)"

definition write_extension :: "'v extension \<Rightarrow> nat \<Rightarrow> 'v \<Rightarrow> 's ext_state \<Rightarrow> 's ext_state" where
  "write_extension V pos v w = w\<lparr>tlv_data := patch pos (ext_bytes V v) (tlv_data w)\<rparr>"

definition init_extension ::
  "'s base_state \<Rightarrow> 'v extension \<Rightarrow> bool \<Rightarrow> 's ext_state \<Rightarrow> ('s ext_state \<times> nat) token_res" where
  "init_extension S V overwrite w =
     (if get_account_type (ext_type V) \<noteq> base_type S then err InvalidAccountData
      else
        rbind (lift_err (get_extension_indices (ext_type V) (tlv_data w) True)) (\<lambda>ix.
        if length (drop (type_start ix) (tlv_data w)) < get_tlv_len (ext_type V)
          then err InvalidAccountData
        else
        rbind (lift_err (extension_type_of (slice (type_start ix) 2 (tlv_data w)))) (\<lambda>t.
        if t = ExtUninitialized \<or> overwrite then
          (let tlv = patch (type_start ix) (u16_bytes (extension_code (ext_type V))) (tlv_data w);
               len = ext_len V
           in if 65536 \<le> len then Inl Panic
              else
                let tlv = patch (length_start ix) (u16_bytes (of_nat len)) tlv;
                    w = w\<lparr>tlv_data := tlv\<rparr>
                in if length tlv < value_start ix + len then Inl Panic
                   else Inr (write_extension V (value_start ix) (ext_default V) w, value_start ix))
        else err (Token ExtensionAlreadyInitialized))))"

definition init_account_extension_from_type ::
  "'s base_state \<Rightarrow> extension_type \<Rightarrow> 's ext_state \<Rightarrow> 's ext_state token_res" where
  "init_account_extension_from_type S t w =
     (if get_account_type t \<noteq> AccountType then Inr w
      else case t of
        TransferFeeAmount \<Rightarrow>
          rbind (init_extension S transfer_fee_amount_ext True w) (\<lambda>(w, _). Inr w)
      | ConfidentialTransferAccount \<Rightarrow> Inr w
      | _ \<Rightarrow> Inl Panic)"

definition init_account_type :: "'s base_state \<Rightarrow> 's ext_state \<Rightarrow> 's ext_state token_res" where
  "init_account_type S w =
     (if account_type w = [] then Inr w
      else
        rbind (lift_err (check_first_extension S w)) (\<lambda>_.
        Inr (w\<lparr>account_type := (account_type w)[0 := account_type_byte (base_type S)]\<rparr>)))"

definition base_is_initialized_account :: "bytes \<Rightarrow> program_error + bool" where
  "base_is_initialized_account input =
     (if length input \<noteq> 165 then Inl InvalidAccountData else Inr (input ! 108 \<noteq> 0))"

definition set_account_type :: "'s base_state \<Rightarrow> bytes \<Rightarrow> program_error + bytes" where
  "set_account_type S input =
     rbind (check_min_len_and_not_multisig input (base_len S)) (\<lambda>_.
     let raw = take (base_len S) input; rest = drop (base_len S) input in
     rbind (if base_type S = AccountType
            then rbind (base_is_initialized_account raw)
                   (\<lambda>b. if \<not> b then Inl InvalidAccountData else Inr ())
            else Inr ()) (\<lambda>_.
     rbind (type_and_tlv_indices S rest) (\<lambda>indices.
     case indices of
       None \<Rightarrow> Inl InvalidAccountData
     | Some (type_index, _) \<Rightarrow>
         rbind (account_type_of (rest ! type_index)) (\<lambda>t.
         if t = TypeUninitialized
         then rbind (check_account_type S (base_type S)) (\<lambda>_.
              Inr (raw @ rest[type_index := account_type_byte (base_type S)]))
         else rbind (check_account_type S t) (\<lambda>_. Inr input)))))"

section \<open>The abstract entry list\<close>

type_synonym entries = "(extension_type \<times> bytes) list"

fun entry_bytes :: "extension_type \<times> bytes \<Rightarrow> bytes" where
  "entry_bytes (t, v) = u16_bytes (extension_code t) @ u16_bytes (of_nat (length v)) @ v"

definition encode_entries :: "entries \<Rightarrow> bytes" where
  "encode_entries es = concat (map entry_bytes es)"

text \<open>Entries of one kind of account, each of the size of its type.\<close>

definition entries_of :: "account_type \<Rightarrow> entries \<Rightarrow> bool" where
  "entries_of k es \<longleftrightarrow>
     list_all (\<lambda>(t, v). t \<noteq> ExtUninitialized \<and> get_account_type t = k \<and> length v = get_type_len t) es"

lemma get_type_len_fits: "get_type_len t < 65536"
  by (cases t) (simp_all add: transfer_fee_config_ext_def transfer_fee_amount_ext_def
      mint_close_authority_ext_def immutable_owner_ext_def default_account_state_ext_def
      memo_transfer_ext_def non_transferable_ext_def interest_bearing_config_ext_def)

lemma u16_length: "n < 65536 \<Longrightarrow> unat (of_nat n :: u16) = n"
  by (simp add: unat_of_nat)

lemma encode_simps [simp]:
  "encode_entries [] = []"
  "encode_entries (e # es) = entry_bytes e @ encode_entries es"
  "encode_entries (es @ fs) = encode_entries es @ encode_entries fs"
  by (simp_all add: encode_entries_def)

lemma entries_of_simps [simp]:
  "entries_of k []"
  "entries_of k (e # es) \<longleftrightarrow> fst e \<noteq> ExtUninitialized \<and> get_account_type (fst e) = k
     \<and> length (snd e) = get_type_len (fst e) \<and> entries_of k es"
  "entries_of k (es @ fs) \<longleftrightarrow> entries_of k es \<and> entries_of k fs"
  by (auto simp: entries_of_def split: prod.splits)

lemma get_tlv_indices_simps [simp]:
  "type_start (get_tlv_indices i) = i"
  "length_start (get_tlv_indices i) = i + 2"
  "value_start (get_tlv_indices i) = i + 4"
  by (simp_all add: get_tlv_indices_def Let_def)

lemma entry_fields:
  assumes "tlv = pre @ entry_bytes (t, v) @ rest" and "length v < 65536"
  shows "slice (length pre) 2 tlv = u16_bytes (extension_code t)"
    and "tlv_length tlv (get_tlv_indices (length pre)) = length v"
    and "slice (length pre + 4) (length v) tlv = v"
    and "length pre + 4 + length v \<le> length tlv"
  using assms(2) by (simp_all add: assms(1) tlv_length_def layout_split u16_length)

lemma length_entry_bytes [simp]: "length (entry_bytes e) = 4 + length (snd e)"
  by (cases e) simp

declare entry_bytes.simps [simp del]

lemma extension_indices_hit:
  assumes "tlv = pre @ entry_bytes (v, x) @ rest" and "length x < 65536" and "v \<noteq> ExtUninitialized"
  shows "extension_indices v tlv init (length pre) = Inr (get_tlv_indices (length pre))"
  using entry_fields [OF assms(1,2)] assms(3)
  by (subst extension_indices.simps) (simp add: Let_def)

lemma extension_indices_step:
  assumes "tlv = pre @ entry_bytes (t, x) @ rest" and "length x < 65536" and "t \<noteq> ExtUninitialized"
    and "t \<noteq> v" and "get_account_type t = get_account_type v"
  shows "extension_indices v tlv init (length pre) = extension_indices v tlv init (length pre + 4 + length x)"
  using entry_fields [OF assms(1,2)] assms(3-)
  by (subst extension_indices.simps) (simp add: Let_def)

lemma extension_indices_skip:
  assumes "entries_of (get_account_type v) es" and "v \<notin> fst ` set es"
  shows "extension_indices v (pre @ encode_entries es @ rest) init (length pre)
       = extension_indices v (pre @ encode_entries es @ rest) init (length (pre @ encode_entries es))"
  using assms
proof (induction es arbitrary: pre)
  case (Cons e es)
  obtain t x where e: "e = (t, x)" by (cases e)
  let ?tlv = "pre @ encode_entries (e # es) @ rest"
  have "extension_indices v ?tlv init (length pre)
      = extension_indices v ?tlv init (length (pre @ entry_bytes e))"
    using Cons.prems extension_indices_step [of ?tlv pre t x "encode_entries es @ rest" v init]
    by (auto simp: e get_type_len_fits add.assoc)
  also have "\<dots> = extension_indices v ?tlv init (length ((pre @ entry_bytes e) @ encode_entries es))"
    using Cons.IH [of "pre @ entry_bytes e"] Cons.prems by simp
  finally show ?case by simp
qed simp

lemma extension_type_of_zero: "extension_type_of [0, 0] = Inr ExtUninitialized"
  by (simp add: extension_type_of_def bytes_u16_def)

lemma slice_zeros: "2 \<le> n \<Longrightarrow> slice (length pre) 2 (pre @ replicate n 0) = [0, 0]"
  by (simp add: slice_def numeral_2_eq_2)

lemma extension_indices_end:
  "extension_indices v (pre @ replicate n 0) False (length pre) = Inl InvalidAccountData"
proof (induction n arbitrary: pre rule: less_induct)
  case (less n)
  show ?case
  proof (cases "4 \<le> n")
    case False
    then show ?thesis by (subst extension_indices.simps) (simp add: Let_def)
  next
    case True
    obtain k where "n = 4 + k"
      using True by (auto simp: nat_le_iff_add)
    then have "pre @ replicate n 0 = (pre @ [0, 0]) @ replicate (n - 2) 0"
      by (simp add: eval_nat_numeral)
    then have "extension_indices v (pre @ replicate n 0) False (length pre + 2) = Inl InvalidAccountData"
      using less [of "n - 2" "pre @ [0, 0]"] True by simp
    then show ?thesis
      using True slice_zeros [of n pre]
      by (subst extension_indices.simps) (simp add: Let_def extension_type_of_zero)
  qed
qed

lemma extension_indices_free:
  "4 \<le> n \<Longrightarrow> extension_indices v (pre @ replicate n 0) True (length pre) = Inr (get_tlv_indices (length pre))"
  using slice_zeros [of n pre]
  by (subst extension_indices.simps) (simp add: Let_def extension_type_of_zero)

text \<open>Searching an encoded list: at the entry, or at the free space behind the last one.\<close>

lemma find_present:
  assumes "entries_of (get_account_type v) es" and "map_of es v = Some x"
  obtains before after where "es = before @ (v, x) # after" and "v \<notin> fst ` set before"
    and "get_extension_indices v (encode_entries es @ rest) init
       = Inr (get_tlv_indices (length (encode_entries before)))"
proof -
  have "\<exists>p \<in> set es. fst p = v"
    using assms(2) by (force dest: map_of_SomeD)
  then obtain before p after where p: "es = before @ p # after" "fst p = v" "\<forall>q \<in> set before. fst q \<noteq> v"
    using split_list_first_prop [of es "\<lambda>q. fst q = v"] by metis
  then obtain y where es: "es = before @ (v, y) # after" and fresh: "v \<notin> fst ` set before"
    by (cases p) force
  have "map_of before v = None"
    using fresh by (simp add: map_of_eq_None_iff)
  then have y: "y = x"
    using assms(2) by (simp add: es map_add_def)
  have "extension_indices v (encode_entries es @ rest) init (length (encode_entries before))
      = Inr (get_tlv_indices (length (encode_entries before)))"
    using assms(1)
    by (intro extension_indices_hit [where rest = "encode_entries after @ rest" and x = x])
      (auto simp: es y get_type_len_fits)
  moreover have "extension_indices v (encode_entries es @ rest) init 0
      = extension_indices v (encode_entries es @ rest) init (length (encode_entries before))"
    using extension_indices_skip [of v before "[]" "encode_entries ((v, x) # after) @ rest" init] assms(1) fresh
    by (simp add: es y)
  ultimately show ?thesis
    using that [of before after] es fresh y by (simp add: get_extension_indices_def)
qed

lemma find_absent:
  assumes "entries_of (get_account_type v) es" and "map_of es v = None"
  shows "get_extension_indices v (encode_entries es @ replicate n 0) False = Inl InvalidAccountData"
    and "4 \<le> n \<Longrightarrow> get_extension_indices v (encode_entries es @ replicate n 0) True
       = Inr (get_tlv_indices (length (encode_entries es)))"
    and "n < 4 \<Longrightarrow> get_extension_indices v (encode_entries es @ replicate n 0) True = Inl InvalidAccountData"
proof -
  have skip: "extension_indices v (encode_entries es @ replicate n 0) init 0
      = extension_indices v (encode_entries es @ replicate n 0) init (length (encode_entries es))" for init
    using extension_indices_skip [of v es "[]" "replicate n 0" init] assms by (simp add: map_of_eq_None_iff)
  show "get_extension_indices v (encode_entries es @ replicate n 0) False = Inl InvalidAccountData"
    using skip by (simp add: get_extension_indices_def extension_indices_end)
  show "get_extension_indices v (encode_entries es @ replicate n 0) True
       = Inr (get_tlv_indices (length (encode_entries es)))" if "4 \<le> n"
    using skip that by (simp add: get_extension_indices_def extension_indices_free)
  have "extension_indices v (encode_entries es @ replicate n 0) True (length (encode_entries es))
      = Inl InvalidAccountData" if "n < 4"
    using that by (subst extension_indices.simps) (simp add: Let_def)
  then show "get_extension_indices v (encode_entries es @ replicate n 0) True = Inl InvalidAccountData" if "n < 4"
    using skip that by (simp add: get_extension_indices_def)
qed

lemma patch_middle:
  "length ys = length xs \<Longrightarrow> patch (length pre) xs (pre @ ys @ rest) = pre @ xs @ rest"
  by (simp add: patch_def)

lemma slice_middle: "length ys = n \<Longrightarrow> slice (length pre) n (pre @ ys @ rest) = ys"
  by (simp add: slice_def)

definition tlv_holds :: "account_type \<Rightarrow> bytes \<Rightarrow> entries \<Rightarrow> bool" where
  "tlv_holds k tlv es \<longleftrightarrow>
     entries_of k es \<and> (\<exists>n. tlv = encode_entries es @ replicate n 0)"

lemma get_extension_encoded:
  assumes "tlv_holds (base_type S) tlv es" and "get_account_type (ext_type V) = base_type S"
  shows "get_extension S V tlv =
    (case map_of es (ext_type V) of
       None \<Rightarrow> err InvalidAccountData
     | Some b \<Rightarrow> lift_err (pod_from_bytes V b))"
proof -
  from assms(1) obtain n where es: "entries_of (get_account_type (ext_type V)) es"
    and tlv: "tlv = encode_entries es @ replicate n 0"
    using assms(2) by (auto simp: tlv_holds_def)
  show ?thesis
  proof (cases "map_of es (ext_type V)")
    case None
    then show ?thesis
      using find_absent(1) [OF es None] assms(2) by (simp add: get_extension_def tlv)
  next
    case (Some b)
    obtain before after where split: "es = before @ (ext_type V, b) # after"
      and found: "get_extension_indices (ext_type V) tlv False
        = Inr (get_tlv_indices (length (encode_entries before)))"
      using find_present [OF es Some, of "replicate n 0" False] tlv by blast
    have "length b < 65536"
      using es by (simp add: split get_type_len_fits)
    then have "value_range tlv (get_tlv_indices (length (encode_entries before))) = Inr b"
      using entry_fields [of tlv "encode_entries before" "ext_type V" b "encode_entries after @ replicate n 0"]
      by (simp add: value_range_def tlv split)
    then show ?thesis
      using Some found assms(2) by (simp add: get_extension_def)
  qed
qed

lemma update_absent: "map_of es t = None \<Longrightarrow> AList.update t v es = es @ [(t, v)]"
  by (induction es) (auto split: if_splits)

lemma update_present:
  "t \<notin> fst ` set before \<Longrightarrow> AList.update t v (before @ (t, x) # after) = before @ (t, v) # after"
  by (induction before) auto

lemma entries_of_update:
  "entries_of k es \<Longrightarrow> t \<noteq> ExtUninitialized \<Longrightarrow> get_account_type t = k \<Longrightarrow> length v = get_type_len t
    \<Longrightarrow> entries_of k (AList.update t v es)"
  by (induction es) (auto split: if_splits)

lemma init_extension_at:
  assumes V: "pod_extension V" "get_account_type (ext_type V) = base_type S"
    and tlv: "tlv_data w = pre @ a @ b @ c @ rest"
    and lengths: "length a = 2" "length b = 2" "length c = ext_len V"
    and found: "get_extension_indices (ext_type V) (tlv_data w) True = Inr (get_tlv_indices (length pre))"
    and type_read: "extension_type_of a = Inr t" "t = ExtUninitialized \<or> overwrite"
  shows "init_extension S V overwrite w
    = Inr (w\<lparr>tlv_data := pre @ entry_bytes (ext_type V, ext_bytes V (ext_default V)) @ rest\<rparr>, length pre + 4)"
proof -
  have len: "ext_len V < 65536" "get_tlv_len (ext_type V) = ext_len V + 4"
      "length (ext_bytes V (ext_default V)) = ext_len V"
    using V(1) by (simp_all add: pod_extension_def get_tlv_len_def)
  have t: "extension_type_of (slice (length pre) 2 (tlv_data w)) = Inr t"
    using type_read(1) lengths by (simp add: tlv slice_middle)
  have p1: "patch (length pre) (u16_bytes (extension_code (ext_type V))) (tlv_data w)
      = (pre @ u16_bytes (extension_code (ext_type V))) @ b @ c @ rest"
    using lengths by (simp add: tlv patch_middle)
  have p2: "patch (length pre + 2) (u16_bytes (of_nat (ext_len V)))
      ((pre @ u16_bytes (extension_code (ext_type V))) @ b @ c @ rest)
      = (pre @ u16_bytes (extension_code (ext_type V)) @ u16_bytes (of_nat (ext_len V))) @ c @ rest"
    using patch_middle [of b "u16_bytes (of_nat (ext_len V))"
        "pre @ u16_bytes (extension_code (ext_type V))" "c @ rest"] lengths
    by simp
  have p3: "patch (length pre + 4) (ext_bytes V (ext_default V))
      ((pre @ u16_bytes (extension_code (ext_type V)) @ u16_bytes (of_nat (ext_len V))) @ c @ rest)
      = pre @ entry_bytes (ext_type V, ext_bytes V (ext_default V)) @ rest"
    using patch_middle [of c "ext_bytes V (ext_default V)"
        "pre @ u16_bytes (extension_code (ext_type V)) @ u16_bytes (of_nat (ext_len V))" rest] lengths len(3)
    by (simp add: entry_bytes.simps)
  show ?thesis
    using V(2) found t type_read(2) p1 p2 p3 len lengths
    by (simp add: init_extension_def write_extension_def Let_def tlv)
qed

lemma init_extension_encoded:
  assumes V: "pod_extension V" "get_account_type (ext_type V) = base_type S"
    and holds: "entries_of (base_type S) es" "tlv_data w = encode_entries es @ replicate n 0"
    and room: "if map_of es (ext_type V) = None then get_tlv_len (ext_type V) \<le> n else overwrite"
  obtains w' pos n' where "init_extension S V overwrite w = Inr (w', pos)"
    and "w' = w\<lparr>tlv_data := encode_entries
           (AList.update (ext_type V) (ext_bytes V (ext_default V)) es) @ replicate n' 0\<rparr>"
proof (cases "map_of es (ext_type V)")
  case None
  have len: "4 + ext_len V \<le> n"
    using room None V(1) by (simp add: pod_extension_def get_tlv_len_def)
  then obtain k where n: "n = 2 + (2 + (ext_len V + k))"
    by (auto simp: nat_le_iff_add)
  have tlv: "tlv_data w = encode_entries es @ replicate 2 0 @ replicate 2 0
      @ replicate (ext_len V) 0 @ replicate k 0"
    by (simp only: holds(2) n replicate_add)
  have "get_extension_indices (ext_type V) (tlv_data w) True
      = Inr (get_tlv_indices (length (encode_entries es)))"
    using find_absent(2) [of "ext_type V" es n] holds V(2) None len by simp
  then have "init_extension S V overwrite w = Inr (w\<lparr>tlv_data := encode_entries es
      @ entry_bytes (ext_type V, ext_bytes V (ext_default V)) @ replicate k 0\<rparr>, length (encode_entries es) + 4)"
    by (intro init_extension_at [OF V tlv, where t = ExtUninitialized])
      (simp_all add: extension_type_of_zero numeral_2_eq_2)
  then show ?thesis
    using that by (simp add: update_absent None)
next
  case (Some b)
  obtain before after where split: "es = before @ (ext_type V, b) # after"
    and fresh: "ext_type V \<notin> fst ` set before"
    and found: "get_extension_indices (ext_type V) (tlv_data w) True
      = Inr (get_tlv_indices (length (encode_entries before)))"
    using find_present [of "ext_type V" es b "replicate n 0" True] holds V(2) Some by auto
  have tlv: "tlv_data w = encode_entries before @ u16_bytes (extension_code (ext_type V))
      @ u16_bytes (of_nat (length b)) @ b @ encode_entries after @ replicate n 0"
    by (simp add: holds(2) split entry_bytes.simps)
  have "length b = ext_len V"
    using holds(1) V(1) by (simp add: split pod_extension_def)
  then have "init_extension S V overwrite w = Inr (w\<lparr>tlv_data := encode_entries before
      @ entry_bytes (ext_type V, ext_bytes V (ext_default V)) @ encode_entries after @ replicate n 0\<rparr>,
      length (encode_entries before) + 4)"
    using room Some by (intro init_extension_at [OF V tlv _ _ _ found]) simp_all
  then show ?thesis
    using that by (simp add: split update_present fresh)
qed

text \<open>The two refusals: no room for the entry, or an entry that must not be overwritten.\<close>

lemma init_extension_refused:
  assumes V: "pod_extension V" "get_account_type (ext_type V) = base_type S"
    and holds: "entries_of (base_type S) es" "tlv_data w = encode_entries es @ replicate n 0"
  shows "map_of es (ext_type V) = None \<Longrightarrow> n < get_tlv_len (ext_type V) \<Longrightarrow>
      init_extension S V overwrite w = err InvalidAccountData"
    and "map_of es (ext_type V) \<noteq> None \<Longrightarrow>
      init_extension S V False w = err (Token ExtensionAlreadyInitialized)"
proof -
  assume none: "map_of es (ext_type V) = None" and little: "n < get_tlv_len (ext_type V)"
  have "entries_of (get_account_type (ext_type V)) es"
    using holds(1) V(2) by simp
  note absent = find_absent [OF this none, of n]
  show "init_extension S V overwrite w = err InvalidAccountData"
    using absent little V(2) holds(2) by (cases "n < 4") (simp_all add: init_extension_def lift_err_def)
next
  assume "map_of es (ext_type V) \<noteq> None"
  then obtain b where b: "map_of es (ext_type V) = Some b" by blast
  obtain before after where split: "es = before @ (ext_type V, b) # after"
    and found: "get_extension_indices (ext_type V) (tlv_data w) True
      = Inr (get_tlv_indices (length (encode_entries before)))"
    by (rule find_present [OF _ b, of "replicate n 0" True]) (use holds V(2) that in auto)
  have tlv: "tlv_data w = encode_entries before @ u16_bytes (extension_code (ext_type V))
      @ u16_bytes (of_nat (length b)) @ b @ encode_entries after @ replicate n 0"
    by (simp add: holds(2) split entry_bytes.simps)
  have "length b = ext_len V" "ext_type V \<noteq> ExtUninitialized" "get_tlv_len (ext_type V) = ext_len V + 4"
    using holds(1) V(1) by (simp_all add: split pod_extension_def get_tlv_len_def)
  then show "init_extension S V False w = err (Token ExtensionAlreadyInitialized)"
    using V(2) found slice_middle [of "u16_bytes (extension_code (ext_type V))" 2 "encode_entries before"
        "u16_bytes (of_nat (length b)) @ b @ encode_entries after @ replicate n 0"]
    by (simp add: init_extension_def lift_err_def tlv)
qed

section \<open>What a base state promises\<close>

text \<open>
  The shape of a buffer that holds a base state with or without extensions: \<open>tail_ok\<close> is what
  \<open>type_and_tlv_indices\<close> and the type check accept behind the base bytes.
\<close>

definition tail_ok :: "'s base_state \<Rightarrow> bytes \<Rightarrow> bytes \<Rightarrow> bytes \<Rightarrow> bool" where
  "tail_ok S pad ty tlv \<longleftrightarrow>
     (pad = [] \<and> ty = [] \<and> tlv = [])
   \<or> (pad = replicate (165 - base_len S) 0 \<and> ty = [account_type_byte (base_type S)] \<and> tlv \<noteq> [])"

lemma account_type_of_iff: "account_type_of b = Inr t \<longleftrightarrow> b = account_type_byte t"
  by (cases t) (auto simp: account_type_of_def)

lemma check_account_type_iff [simp]: "check_account_type S t = Inr u \<longleftrightarrow> t = base_type S"
  by (simp add: check_account_type_def)

lemma type_and_tlv_indices_iff:
  "type_and_tlv_indices S rest = Inr None \<longleftrightarrow> rest = []"
  "type_and_tlv_indices S rest = Inr (Some (i, j)) \<longleftrightarrow>
     i = 165 - base_len S \<and> j = i + 1 \<and> j < length rest \<and> take i rest = replicate i 0"
  by (auto simp: type_and_tlv_indices_def Let_def)

lemma unpack_mut_parts:
  assumes "pack_sdk (base_pack S) (base_len S) (base_initialized S) from_slice into"
    and "unpack_mut S d = Inr w"
  shows "length d \<noteq> 355" and "ext_state_data w = d" and "length (base_data w) = base_len S"
    and "from_slice (base_data w) = Inr (ext_base w)" and "base_initialized S (ext_base w)"
    and "tail_ok S (padding w) (account_type w) (tlv_data w)"
proof -
  let ?rest = "drop (base_len S) d"
  have len: "length d \<noteq> 355" "base_len S \<le> length d"
    using assms(2) by (auto simp: unpack_mut_def rbind_Inr_iff check_min_len_and_not_multisig_def split: if_splits)
  obtain base indices where base: "unpack_checked (base_pack S) (take (base_len S) d) = Inr base"
    and indices: "type_and_tlv_indices S ?rest = Inr indices"
    and result: "(case indices of
       None \<Rightarrow> Inr (ext_parts (take (base_len S) d) base ?rest None)
     | Some (i, j) \<Rightarrow>
         rbind (lift_err (account_type_of (?rest ! i))) (\<lambda>t.
         rbind (lift_err (check_account_type S t)) (\<lambda>_.
         Inr (ext_parts (take (base_len S) d) base ?rest (Some (i, j)))))) = Inr w"
    using assms(2) by (auto simp: unpack_mut_def rbind_Inr_iff Let_def)
  have w: "w = ext_parts (take (base_len S) d) base ?rest indices"
    and ty: "\<And>i j. indices = Some (i, j) \<Longrightarrow> ?rest ! i = account_type_byte (base_type S)"
    using result by (auto simp: rbind_Inr_iff account_type_of_iff split: option.splits)
  have parts: "base_data w = take (base_len S) d" "ext_base w = base"
    by (auto simp: w ext_parts_def split: option.split)
  then show "length (base_data w) = base_len S" "from_slice (base_data w) = Inr (ext_base w)"
      "base_initialized S (ext_base w)" "length d \<noteq> 355"
    using pack_sdk.unpack_iff [OF assms(1)] base len by auto
  have "ext_state_data w = d \<and> tail_ok S (padding w) (account_type w) (tlv_data w)"
  proof (cases indices)
    case None
    then show ?thesis
      using indices len by (simp add: w ext_parts_def ext_state_data_def tail_ok_def type_and_tlv_indices_iff)
  next
    case (Some ij)
    then obtain i where i: "indices = Some (i, i + 1)" "i = 165 - base_len S"
        "i + 1 < length ?rest" "take i ?rest = replicate i 0"
      using indices by (cases ij) (auto simp: type_and_tlv_indices_iff)
    then have "slice i (i + 1 - i) ?rest = [account_type_byte (base_type S)]"
      using ty [OF i(1)] by (simp add: slice_def take_Suc_conv_app_nth hd_drop_conv_nth add.commute)
    moreover have "ext_state_data w = take (base_len S) d
        @ take i ?rest @ slice i (i + 1 - i) ?rest @ drop (i + 1) ?rest"
      by (simp add: w i(1) ext_parts_def ext_state_data_def del: drop_drop)
    moreover have "take i ?rest @ slice i (i + 1 - i) ?rest @ drop (i + 1) ?rest = ?rest"
      by (simp only: slice_def) (metis add_diff_cancel_left' append_take_drop_id drop_drop add.commute)
    moreover have "tlv_data w \<noteq> []"
      using i by (simp add: w ext_parts_def)
    ultimately show ?thesis
      using i by (simp add: w ext_parts_def tail_ok_def)
  qed
  then show "ext_state_data w = d" "tail_ok S (padding w) (account_type w) (tlv_data w)"
    by simp_all
qed

lemma unpack_mut_join:
  assumes "pack_sdk (base_pack S) (base_len S) (base_initialized S) from_slice into"
    and "length raw = base_len S" and "from_slice raw = Inr base" and "base_initialized S base"
    and "tail_ok S pad ty tlv" and "length (raw @ pad @ ty @ tlv) \<noteq> 355"
  shows "unpack_mut S (raw @ pad @ ty @ tlv)
    = Inr \<lparr>ext_base = base, base_data = raw, padding = pad, account_type = ty, tlv_data = tlv\<rparr>"
proof -
  let ?d = "raw @ pad @ ty @ tlv"
  have base: "unpack_checked (base_pack S) raw = Inr base"
    using pack_sdk.unpack_iff [OF assms(1)] assms(2-4) by simp
  have start: "check_min_len_and_not_multisig ?d (base_len S) = Inr ()"
      "take (base_len S) ?d = raw" "drop (base_len S) ?d = pad @ ty @ tlv"
    using assms(2,6) by (auto simp: check_min_len_and_not_multisig_def)
  show ?thesis
  proof (cases "tlv = []")
    case True
    then show ?thesis
      using assms(5) start base
      by (simp add: unpack_mut_def tail_ok_def type_and_tlv_indices_iff Let_def ext_parts_def)
        (simp add: type_and_tlv_indices_def)
  next
    case False
    then have tail: "pad = replicate (165 - base_len S) 0" "ty = [account_type_byte (base_type S)]"
      using assms(5) by (auto simp: tail_ok_def)
    define rest where "rest = pad @ ty @ tlv"
    have "type_and_tlv_indices S rest = Inr (Some (length pad, length pad + 1))"
      using False by (cases tlv) (simp_all add: type_and_tlv_indices_iff tail rest_def)
    moreover have "rest ! length pad = account_type_byte (base_type S)"
        "slice (length pad) (length pad + 1 - length pad) rest = ty"
        "drop (length pad + 1) rest = tlv" "take (length pad) rest = pad"
      by (simp_all add: tail(2) slice_def rest_def)
    moreover note start [folded rest_def]
    ultimately show ?thesis
      using base
      by (simp add: unpack_mut_def Let_def ext_parts_def check_account_type_def rest_def [symmetric])
  qed
qed

text \<open>\<open>unpack\<close> reads what \<open>StateWithExtensionsMut::unpack\<close> reads.\<close>

lemma unpack_state_mut:
  "unpack_state S d = rbind (unpack_mut S d) (\<lambda>w. Inr \<lparr>view_base = ext_base w, view_tlv = tlv_data w\<rparr>)"
  by (auto simp: unpack_state_def unpack_mut_def rbind_def Let_def ext_parts_def check_account_type_def
      split: sum.split option.split)

text \<open>
  The promise the processor builds on: unpacking loses no byte, and changing the base state
  (kept initialised) and the entries (kept at their length), then packing, gives a buffer
  that unpacks to exactly the changed parts.
\<close>

locale base_contract =
  fixes S :: "'s base_state"
    and from_slice :: "bytes \<Rightarrow> 's token_res"
  assumes sdk: "pack_sdk (base_pack S) (base_len S) (base_initialized S) from_slice (base_into_slice S)"
    and codec: "slice_codec (base_len S) (\<lambda>_. True) from_slice (base_into_slice S)"
begin

lemmas parts = unpack_mut_parts [OF sdk]

lemma unpack_data: "unpack_mut S d = Inr w \<Longrightarrow> ext_state_data w = d"
  by (rule parts(2))

lemma unpack_initialized: "unpack_mut S d = Inr w \<Longrightarrow> base_initialized S (ext_base w)"
  by (rule parts(5))

lemma repack:
  assumes "unpack_mut S d = Inr w" and "base_initialized S b" and "length tlv = length (tlv_data w)"
  obtains w' where "pack_base S (w\<lparr>ext_base := b, tlv_data := tlv\<rparr>) = Inr w'"
    and "unpack_mut S (ext_state_data w') = Inr w'" and "ext_base w' = b" and "tlv_data w' = tlv"
    and "length (ext_state_data w') = length d"
proof -
  note p = parts [OF assms(1)]
  obtain raw where raw: "base_into_slice S b (base_data w) = Inr raw" "length raw = length (base_data w)"
      "from_slice raw = Inr b"
    using slice_codec.pack_ok [OF codec TrueI, of "base_data w" b] p(3) by auto
  let ?w' = "\<lparr>ext_base = b, base_data = raw, padding = padding w, account_type = account_type w, tlv_data = tlv\<rparr>"
  have "tail_ok S (padding w) (account_type w) tlv"
    using p(6) assms(3) by (auto simp: tail_ok_def)
  moreover have len: "length (raw @ padding w @ account_type w @ tlv) = length d"
    using p(2) raw(2) assms(3) by (auto simp: ext_state_data_def)
  ultimately have "unpack_mut S (raw @ padding w @ account_type w @ tlv) = Inr ?w'"
    using unpack_mut_join [OF sdk _ raw(3) assms(2)] p(1,3) raw(2) by simp
  moreover have "pack_base S (w\<lparr>ext_base := b, tlv_data := tlv\<rparr>) = Inr ?w'"
    using raw(1) by (simp add: pack_base_def)
  ultimately show ?thesis
    using that [of ?w'] len by (simp add: ext_state_data_def)
qed

lemma view_of_unpack:
  "unpack_mut S d = Inr w \<Longrightarrow> unpack_state S d = Inr \<lparr>view_base = ext_base w, view_tlv = tlv_data w\<rparr>"
  by (simp add: unpack_state_mut)

end

interpretation mint_contract: base_contract "mint_base documented_mint_pack" mint_unpack_from_slice
  by (unfold_locales; simp add: mint_base_def mint_pack.unpack_unchecked_fits
      mint_pack.unpack_unchecked_length mint_pack.unpack_checks mint_pack.pack_fits mint_pack.pack_length
      mint_codec.pack_ok mint_codec.unpack_ok)

interpretation account_contract: base_contract "account_base documented_account_pack" account_unpack_from_slice
  by (unfold_locales; simp add: account_base_def account_pack.unpack_unchecked_fits
      account_pack.unpack_unchecked_length account_pack.unpack_checks account_pack.pack_fits
      account_pack.pack_length account_codec.pack_ok account_codec.unpack_ok)

section \<open>Properties\<close>

text \<open>
  An account with extensions is never mistaken for a multisignature by its size, and the
  size only depends on the set of extensions: it has room for every entry, duplicates are
  counted once and the order is irrelevant.
\<close>

theorem account_len_avoids_multisig:
  "get_account_len 82 ts \<noteq> 355 \<and> get_account_len 165 ts \<noteq> 355
 \<and> (ts \<noteq> [] \<longrightarrow> 166 + (\<Sum>t \<in> set ts. get_tlv_len t) \<le> get_account_len l ts)
 \<and> (set us = set ts \<longrightarrow> get_account_len l us = get_account_len l ts)"
proof -
  have "get_account_len l us = get_account_len l ts" if "set us = set ts"
    using that by (auto simp: get_account_len_def get_total_tlv_len_def total_tlv_len_set)
  then show ?thesis
    by (auto simp: get_account_len_def get_total_tlv_len_def total_tlv_len_set Let_def)
qed

theorem account_len_avoids_multisig_witness:
  "get_account_len 165 [TransferFeeAmount, ImmutableOwner, TransferFeeAmount]
     = get_account_len 165 [ImmutableOwner, TransferFeeAmount]
 \<and> 182 \<le> get_account_len 165 [ImmutableOwner, TransferFeeAmount]"
  using account_len_avoids_multisig [of "[ImmutableOwner, TransferFeeAmount]" 165
      "[TransferFeeAmount, ImmutableOwner, TransferFeeAmount]"]
  by (auto simp: get_tlv_len_def transfer_fee_amount_ext_def immutable_owner_ext_def)

text \<open>
  C30. The entry list behaves as a finite map with bounded space.  On a well-formed list with \<open>n\<close> free
  bytes behind it, initialising extension \<open>V\<close> fails with \<open>InvalidAccountData\<close> if \<open>V\<close> has no entry and
  the free bytes do not hold one, and with \<open>ExtensionAlreadyInitialized\<close> if it has one that must not
  be overwritten.  In every other case it succeeds: afterwards \<open>V\<close> reads as its default, every other
  extension reads as it did before, and the base state and the type byte are untouched.
\<close>

theorem extensions_behave_as_a_map:
  assumes "pod_extension V" and "get_account_type (ext_type V) = base_type S"
    and "get_account_type (ext_type U) = base_type S" and "ext_type U \<noteq> ext_type V"
    and "entries_of (base_type S) es" and "tlv_data w = encode_entries es @ replicate n 0"
  shows "if map_of es (ext_type V) = None \<and> n < get_tlv_len (ext_type V) then
      init_extension S V overwrite w = err InvalidAccountData
    else if map_of es (ext_type V) \<noteq> None \<and> \<not> overwrite then
      init_extension S V overwrite w = err (Token ExtensionAlreadyInitialized)
    else \<exists>w' pos. init_extension S V overwrite w = Inr (w', pos)
      \<and> get_extension S V (tlv_data w') = Inr (ext_default V)
      \<and> get_extension S U (tlv_data w') = get_extension S U (tlv_data w)
      \<and> w'\<lparr>tlv_data := tlv_data w\<rparr> = w"
proof (cases "if map_of es (ext_type V) = None then get_tlv_len (ext_type V) \<le> n else overwrite")
  case False
  then show ?thesis
    using init_extension_refused [OF assms(1,2,5,6)] by (auto simp: not_le split: if_splits)
next
  case room: True
  let ?es = "AList.update (ext_type V) (ext_bytes V (ext_default V)) es"
  obtain w' pos n' where init: "init_extension S V overwrite w = Inr (w', pos)"
    and w': "w' = w\<lparr>tlv_data := encode_entries ?es @ replicate n' 0\<rparr>"
    by (rule init_extension_encoded [OF assms(1,2,5,6) room])
  have V: "length (ext_bytes V (ext_default V)) = ext_len V" "ext_len V = get_type_len (ext_type V)"
      "ext_type V \<noteq> ExtUninitialized" "ext_value V (ext_bytes V (ext_default V)) = ext_default V"
    using assms(1) by (auto simp: pod_extension_def)
  have old: "tlv_holds (base_type S) (tlv_data w) es"
    using assms(5,6) by (auto simp: tlv_holds_def)
  have updated: "tlv_holds (base_type S) (tlv_data w') ?es"
    using entries_of_update [OF assms(5) V(3) assms(2)] V(1,2) by (auto simp: tlv_holds_def w')
  have "get_extension S V (tlv_data w') = Inr (ext_default V)"
    using V by (simp add: get_extension_encoded [OF updated assms(2)] update_conv' pod_from_bytes_def)
  moreover have "get_extension S U (tlv_data w') = get_extension S U (tlv_data w)"
    using assms(4)
    by (simp add: get_extension_encoded [OF updated assms(3)] get_extension_encoded [OF old assms(3)]
        update_conv')
  moreover have "w'\<lparr>tlv_data := tlv_data w\<rparr> = w"
    by (simp add: w')
  moreover have "\<not> (map_of es (ext_type V) = None \<and> n < get_tlv_len (ext_type V))"
      "\<not> (map_of es (ext_type V) \<noteq> None \<and> \<not> overwrite)"
    using room by (auto split: if_splits)
  ultimately show ?thesis
    using init by (simp only: if_False) blast
qed

text \<open>A mint with one extension and free space for another.\<close>

definition sample_entries :: entries where
  "sample_entries = [(DefaultAccountState, [2])]"

definition sample_ext_mint :: "mint ext_state" where
  "sample_ext_mint = \<lparr>ext_base = sample_mint, base_data = replicate 82 0, padding = replicate 83 0,
     account_type = [1], tlv_data = encode_entries sample_entries @ replicate 40 0\<rparr>"

theorem extensions_behave_as_a_map_witness:
  "(\<exists>w' pos. init_extension (mint_base documented_mint_pack) mint_close_authority_ext True sample_ext_mint
        = Inr (w', pos)
    \<and> get_extension (mint_base documented_mint_pack) mint_close_authority_ext (tlv_data w')
        = Inr \<lparr>mint_close_key = 0\<rparr>
    \<and> get_extension (mint_base documented_mint_pack) default_account_state_ext (tlv_data w')
        = get_extension (mint_base documented_mint_pack) default_account_state_ext (tlv_data sample_ext_mint))
   \<and> init_extension (mint_base documented_mint_pack) default_account_state_ext False sample_ext_mint
        = err (Token ExtensionAlreadyInitialized)"
proof -
  let ?S = "mint_base documented_mint_pack"
  have list: "entries_of (base_type ?S) sample_entries"
      "tlv_data sample_ext_mint = encode_entries sample_entries @ replicate 40 0"
    by (simp_all add: mint_base_def sample_entries_def sample_ext_mint_def default_account_state_ext_def)
  have kinds: "get_account_type (ext_type mint_close_authority_ext) = base_type ?S"
      "get_account_type (ext_type default_account_state_ext) = base_type ?S"
      "ext_type default_account_state_ext \<noteq> ext_type mint_close_authority_ext"
    by (simp_all add: mint_close_authority_ext_def default_account_state_ext_def mint_base_def)
  have entries: "map_of sample_entries (ext_type mint_close_authority_ext) = None"
      "map_of sample_entries (ext_type default_account_state_ext) = Some [2]"
      "\<not> (40 :: nat) < get_tlv_len (ext_type mint_close_authority_ext)"
    by (simp_all add: mint_close_authority_ext_def default_account_state_ext_def sample_entries_def get_tlv_len_def)
  have "\<exists>w' pos. init_extension ?S mint_close_authority_ext True sample_ext_mint = Inr (w', pos)
    \<and> get_extension ?S mint_close_authority_ext (tlv_data w') = Inr (ext_default mint_close_authority_ext)
    \<and> get_extension ?S default_account_state_ext (tlv_data w')
        = get_extension ?S default_account_state_ext (tlv_data sample_ext_mint)
    \<and> w'\<lparr>tlv_data := tlv_data sample_ext_mint\<rparr> = sample_ext_mint"
    using extensions_behave_as_a_map [OF close_authority_ext.pod_extension_axioms kinds(1,2,3) list, of True]
      entries by simp
  moreover have "init_extension ?S default_account_state_ext False sample_ext_mint
      = err (Token ExtensionAlreadyInitialized)"
    using extensions_behave_as_a_map [OF default_state_ext.pod_extension_axioms kinds(2,1) kinds(3) [symmetric] list,
        of False] entries by simp
  ultimately show ?thesis
    by (auto simp: mint_close_authority_ext_def)
qed

lemma mint_tail:
  assumes "pack_sdk P 82 mint_is_initialized mint_unpack_from_slice mint_pack_into_slice"
    and "unpack_mut (mint_base P) d = Inr w"
  shows "length d \<noteq> 355" and "length d = 82 \<or> 166 < length d \<and> d ! 165 = 1"
proof -
  have "pack_sdk (base_pack (mint_base P)) (base_len (mint_base P)) (base_initialized (mint_base P))
      mint_unpack_from_slice mint_pack_into_slice"
    using assms(1) by (simp add: mint_base_def)
  from unpack_mut_parts [OF this assms(2)]
  show "length d \<noteq> 355" and "length d = 82 \<or> 166 < length d \<and> d ! 165 = 1"
    by (auto simp: tail_ok_def mint_base_def ext_state_data_def nth_append)
qed

lemma account_tail:
  assumes "pack_sdk Q 165 account_is_initialized account_unpack_from_slice account_pack_into_slice"
    and "unpack_mut (account_base Q) d = Inr w"
  shows "length d \<noteq> 355" and "length d = 165 \<or> 166 < length d \<and> d ! 165 = 2"
proof -
  have "pack_sdk (base_pack (account_base Q)) (base_len (account_base Q)) (base_initialized (account_base Q))
      account_unpack_from_slice account_pack_into_slice"
    using assms(1) by (simp add: account_base_def)
  from unpack_mut_parts [OF this assms(2)]
  show "length d \<noteq> 355" and "length d = 165 \<or> 166 < length d \<and> d ! 165 = 2"
    by (auto simp: tail_ok_def account_base_def ext_state_data_def nth_append)
qed

text \<open>
  No account data passes for two kinds of state: a buffer that unpacks as a mint does not
  unpack as a token account, and data of a multisignature's size unpacks as neither.  The
  handlers that try one kind after the other (\<open>SetAuthority\<close>, \<open>CloseAccount\<close>) depend on it.
\<close>

theorem account_kinds_disjoint:
  assumes "pack_sdk P 82 mint_is_initialized mint_unpack_from_slice mint_pack_into_slice"
    and "pack_sdk Q 165 account_is_initialized account_unpack_from_slice account_pack_into_slice"
  shows "\<not> (is_ok (unpack_mut (mint_base P) d) \<and> is_ok (unpack_mut (account_base Q) d))
    \<and> (length d = 355 \<longrightarrow> \<not> is_ok (unpack_mut (mint_base P) d) \<and> \<not> is_ok (unpack_mut (account_base Q) d))"
  using mint_tail [OF assms(1)] account_tail [OF assms(2)]
  by (fastforce simp: is_ok_iff)

theorem account_kinds_disjoint_witness:
  "\<not> is_ok (unpack_mut (mint_base documented_mint_pack) (replicate 355 1))
 \<and> \<not> is_ok (unpack_mut (account_base documented_account_pack) (replicate 355 1))"
  using account_kinds_disjoint [OF mint_pack.pack_sdk_axioms account_pack.pack_sdk_axioms, of "replicate 355 1"]
  by simp

end
