(* ===== verification/Token_Accounts.thy ===== *)
theory Token_Accounts
  imports Token_Extension
begin

text \<open>
  What the Token-2022 handlers share: the accounts of a call, borrowing their data, and
  \<open>Processor::validate_owner\<close> (\<open>spl_token_2022/processor.rs\<close>).

  The runtime hands every duplicate of an account the same cells, so the accounts are a store
  from keys to \<open>cell\<close>s and an \<open>AccountInfo\<close> is a key with its signer flag.  A \<open>RefCell\<close> that
  is borrowed a second time unwinds; the handlers pass the keys they have borrowed mutably.  A
  handler returns the new store or an error; the runtime discards the changes of a call that
  fails, so an error carries no store.

  \<open>token_sdk\<close> collects what the program uses of the Solana SDK: the \<open>Pack\<close> methods of the
  three states, the rent and clock sysvars, two well-known keys, the program of the previous
  sibling instruction, the System program calls the token program makes and the resizing of
  account data.  Two more fields stand for the \<open>f64\<close> conversions of the interest-bearing
  extension, which are not modelled.
\<close>

section \<open>The environment\<close>

record cell =
  cell_lamports :: u64
  cell_data :: bytes
  cell_owner :: pubkey

type_synonym store = "pubkey \<Rightarrow> cell"

record info =
  info_key :: pubkey
  info_is_signer :: bool

record rent =
  minimum_balance :: "nat \<Rightarrow> u64"
  is_exempt :: "u64 \<Rightarrow> nat \<Rightarrow> bool"

record clock =
  clock_epoch :: u64
  clock_unix_timestamp :: i64

record token_sdk =
  mint_fns :: "mint pack_fns"
  account_fns :: "token_account pack_fns"
  multisig_fns :: "multisig pack_fns"
  rent_get :: "program_error + rent"
  rent_from_account :: "pubkey \<Rightarrow> program_error + rent"
  clock_get :: "program_error + clock"
  system_program :: pubkey
  incinerator :: pubkey
  sibling_program :: "pubkey option"
  invoke_transfer :: "info \<Rightarrow> info \<Rightarrow> u64 \<Rightarrow> store \<Rightarrow> program_error + store"
  invoke_allocate :: "info \<Rightarrow> nat \<Rightarrow> store \<Rightarrow> program_error + store"
  invoke_assign :: "info \<Rightarrow> pubkey \<Rightarrow> store \<Rightarrow> program_error + store"
  realloc_data :: "bytes \<Rightarrow> nat \<Rightarrow> program_error + bytes"
  interest_ui_amount :: "interest_bearing_config \<Rightarrow> u64 \<Rightarrow> u8 \<Rightarrow> i64 \<Rightarrow> string option"
  interest_raw_amount :: "interest_bearing_config \<Rightarrow> string \<Rightarrow> u8 \<Rightarrow> i64 \<Rightarrow> program_error + u64"

text \<open>The documented behaviour of the \<open>Pack\<close> methods is all the proofs assume of it.\<close>

locale token_program =
  fixes K :: token_sdk
  assumes mint_sdk:
      "pack_sdk (mint_fns K) 82 mint_is_initialized mint_unpack_from_slice mint_pack_into_slice"
    and account_sdk:
      "pack_sdk (account_fns K) 165 account_is_initialized account_unpack_from_slice account_pack_into_slice"
    and multisig_sdk:
      "pack_sdk (multisig_fns K) 355 multisig_is_initialized multisig_unpack_from_slice multisig_pack_into_slice"

abbreviation MintS :: "token_sdk \<Rightarrow> mint base_state" where
  "MintS K \<equiv> mint_base (mint_fns K)"

abbreviation AccountS :: "token_sdk \<Rightarrow> token_account base_state" where
  "AccountS K \<equiv> account_base (account_fns K)"

text \<open>A concrete environment, with the documented methods, for witnesses.\<close>

definition sample_rent :: rent where
  "sample_rent = \<lparr>minimum_balance = (\<lambda>n. of_nat n), is_exempt = (\<lambda>l n. of_nat n \<le> l)\<rparr>"

definition sample_sdk :: token_sdk where
  "sample_sdk = \<lparr>mint_fns = documented_mint_pack, account_fns = documented_account_pack,
     multisig_fns = documented_multisig_pack, rent_get = Inr sample_rent,
     rent_from_account = (\<lambda>_. Inr sample_rent),
     clock_get = Inr \<lparr>clock_epoch = 7, clock_unix_timestamp = 1000\<rparr>,
     system_program = 0, incinerator = 99, sibling_program = None,
     invoke_transfer = (\<lambda>_ _ _. Inr), invoke_allocate = (\<lambda>_ _. Inr), invoke_assign = (\<lambda>_ _. Inr),
     realloc_data = (\<lambda>d n. Inr (take n d @ replicate (n - length d) 0)),
     interest_ui_amount = (\<lambda>_ _ _ _. None), interest_raw_amount = (\<lambda>_ _ _ _. Inl InvalidArgument)\<rparr>"

interpretation sample: token_program sample_sdk
  by unfold_locales
    (simp_all add: sample_sdk_def mint_pack.pack_sdk_axioms [unfolded pack_sdk_def]
      account_pack.pack_sdk_axioms [unfolded pack_sdk_def]
      multisig_pack.pack_sdk_axioms [unfolded pack_sdk_def])

section \<open>Accounts of a call\<close>

definition next_account_info :: "info list \<Rightarrow> (info \<times> info list) token_res" where
  "next_account_info accounts =
     (case accounts of [] \<Rightarrow> err NotEnoughAccountKeys | a # rest \<Rightarrow> Inr (a, rest))"

definition data_len :: "store \<Rightarrow> info \<Rightarrow> nat" where
  "data_len st a = length (cell_data (st (info_key a)))"

definition borrow_data :: "pubkey list \<Rightarrow> store \<Rightarrow> info \<Rightarrow> bytes token_res" where
  "borrow_data held st a =
     (if info_key a \<in> set held then Inl Panic else Inr (cell_data (st (info_key a))))"

definition try_borrow_data :: "pubkey list \<Rightarrow> store \<Rightarrow> info \<Rightarrow> bytes token_res" where
  "try_borrow_data held st a =
     (if info_key a \<in> set held then err AccountBorrowFailed else Inr (cell_data (st (info_key a))))"

definition info_owner :: "store \<Rightarrow> info \<Rightarrow> pubkey" where
  "info_owner st a = cell_owner (st (info_key a))"

definition put_data :: "info \<Rightarrow> bytes \<Rightarrow> store \<Rightarrow> store" where
  "put_data a d st = st(info_key a := (st (info_key a))\<lparr>cell_data := d\<rparr>)"

definition put_lamports :: "info \<Rightarrow> u64 \<Rightarrow> store \<Rightarrow> store" where
  "put_lamports a l st = st(info_key a := (st (info_key a))\<lparr>cell_lamports := l\<rparr>)"

definition check_program_account :: "pubkey \<Rightarrow> unit token_res" where
  "check_program_account owner = (if owner \<noteq> token_2022_id then err IncorrectProgramId else Inr ())"

definition is_owned_by_system_program_or_incinerator :: "token_sdk \<Rightarrow> token_account \<Rightarrow> bool" where
  "is_owned_by_system_program_or_incinerator K a \<longleftrightarrow>
     acc_owner a = system_program K \<or> acc_owner a = incinerator K"

lemma next_account_info_iff:
  "next_account_info accounts = Inr (a, rest) \<longleftrightarrow> accounts = a # rest"
  by (auto simp: next_account_info_def split: list.splits)

lemma check_program_account_iff [simp]: "check_program_account p = Inr u \<longleftrightarrow> p = token_2022_id"
  by (simp add: check_program_account_def)

lemma borrow_iffs:
  "borrow_data held st a = Inr d \<longleftrightarrow> info_key a \<notin> set held \<and> d = cell_data (st (info_key a))"
  "try_borrow_data held st a = Inr d \<longleftrightarrow> info_key a \<notin> set held \<and> d = cell_data (st (info_key a))"
  by (auto simp: borrow_data_def try_borrow_data_def)

section \<open>Owners and signers\<close>

text \<open>
  The loop of \<open>validate_owner\<close>: for each signer account, the positions of the multisignature
  with its key that are not matched yet.  \<open>num_signers\<close> counts at most 11 matches, so the
  \<open>u8\<close> counter is kept as a number.
\<close>

fun match_positions ::
  "info \<Rightarrow> (nat \<times> pubkey) list \<Rightarrow> bool list \<times> nat \<Rightarrow> (bool list \<times> nat) token_res" where
  "match_positions signer [] (matched, n) = Inr (matched, n)"
| "match_positions signer ((position, key) # keys) (matched, n) =
     (if key = info_key signer \<and> \<not> matched ! position then
        (if \<not> info_is_signer signer then err MissingRequiredSignature
         else match_positions signer keys (matched[position := True], n + 1))
      else match_positions signer keys (matched, n))"

fun match_signers ::
  "info list \<Rightarrow> (nat \<times> pubkey) list \<Rightarrow> bool list \<times> nat \<Rightarrow> (bool list \<times> nat) token_res" where
  "match_signers [] keys acc = Inr acc"
| "match_signers (signer # infos) keys acc =
     rbind (match_positions signer keys acc) (\<lambda>acc. match_signers infos keys acc)"

definition validate_owner ::
  "token_sdk \<Rightarrow> pubkey list \<Rightarrow> store \<Rightarrow> pubkey \<Rightarrow> pubkey \<Rightarrow> info \<Rightarrow> nat \<Rightarrow> info list \<Rightarrow> unit token_res" where
  "validate_owner K held st program_id expected_owner owner_info owner_data_len signer_infos =
     (if expected_owner \<noteq> info_key owner_info then err (Token OwnerMismatch)
      else if program_id = info_owner st owner_info \<and> owner_data_len = 355 then
        rbind (borrow_data held st owner_info) (\<lambda>d.
        rbind (unpack_checked (multisig_fns K) d) (\<lambda>ms.
        if length (signers ms) < unat (valid_signers ms) then Inl Panic
        else
          rbind (match_signers signer_infos (enumerate 0 (take (unat (valid_signers ms)) (signers ms)))
                   (replicate MAX_SIGNERS False, 0)) (\<lambda>(matched, n).
          if n < unat (required_signers ms) then err MissingRequiredSignature else Inr ())))
      else if \<not> info_is_signer owner_info then err MissingRequiredSignature
      else Inr ())"

text \<open>
  Who may act for an authority: the account itself by signing, or, for a multisignature of
  this program, enough of its first \<open>n\<close> positions whose keys signed.
\<close>

definition signing_positions :: "multisig \<Rightarrow> info list \<Rightarrow> nat set" where
  "signing_positions ms infos =
     {i. i < unat (valid_signers ms) \<and> (\<exists>s \<in> set infos. info_key s = signers ms ! i \<and> info_is_signer s)}"

definition authorised :: "store \<Rightarrow> pubkey \<Rightarrow> pubkey \<Rightarrow> info \<Rightarrow> info list \<Rightarrow> bool" where
  "authorised st program_id expected owner_info infos \<longleftrightarrow>
     info_key owner_info = expected \<and>
     (if cell_owner (st expected) = program_id \<and> length (cell_data (st expected)) = 355
      then \<exists>ms. multisig_unpack_from_slice (cell_data (st expected)) = Inr ms
             \<and> multisig_is_initialized ms
             \<and> unat (required_signers ms) \<le> card (signing_positions ms infos)
      else info_is_signer owner_info)"

text \<open>Matched positions are counted once each, and each was matched by a key that signed.\<close>

definition match_inv :: "pubkey list \<Rightarrow> info list \<Rightarrow> bool list \<times> nat \<Rightarrow> bool" where
  "match_inv keys infos acc \<longleftrightarrow>
     length (fst acc) = MAX_SIGNERS
   \<and> snd acc = card {i. i < length keys \<and> fst acc ! i}
   \<and> (\<forall>i < length keys. fst acc ! i \<longrightarrow> (\<exists>s \<in> set infos. info_key s = keys ! i \<and> info_is_signer s))"

lemma match_inv_mono: "match_inv keys infos acc \<Longrightarrow> set infos \<subseteq> set infos' \<Longrightarrow> match_inv keys infos' acc"
  unfolding match_inv_def by (meson subsetD)

lemma match_positions_inv:
  assumes "match_positions signer ps acc = Inr acc'" and "set ps \<subseteq> set (enumerate 0 keys)"
    and "match_inv keys infos acc" and "signer \<in> set infos" and "length keys \<le> MAX_SIGNERS"
  shows "match_inv keys infos acc'"
  using assms
proof (induction signer ps acc rule: match_positions.induct)
  case (2 signer position key ps matched n)
  show ?case
  proof (cases "key = info_key signer \<and> \<not> matched ! position")
    case True
    have pos: "position < length keys" "keys ! position = key"
      using "2.prems"(2) by (auto simp: in_set_enumerate_eq)
    have signed: "info_is_signer signer"
      using "2.prems"(1) True by (auto split: if_splits)
    have step: "match_positions signer ps (matched[position := True], n + 1) = Inr acc'"
      using "2.prems"(1) True signed by simp
    have "{i. i < length keys \<and> matched[position := True] ! i}
        = insert position {i. i < length keys \<and> matched ! i}"
      using pos(1) "2.prems"(3,5) by (auto simp: match_inv_def nth_list_update)
    moreover have "\<exists>s \<in> set infos. info_key s = keys ! i \<and> info_is_signer s"
      if "i < length keys" "matched[position := True] ! i" for i
      using that True pos signed "2.prems"(3,4)
      by (cases "i = position") (auto simp: match_inv_def)
    ultimately have "match_inv keys infos (matched[position := True], n + 1)"
      using True pos "2.prems"(3) by (simp add: match_inv_def)
    then show ?thesis
      using "2.IH"(1) [OF True _ step] signed "2.prems" by auto
  next
    case False
    then have "match_positions signer ps (matched, n) = Inr acc'"
      using "2.prems"(1) by (auto split: if_splits)
    then show ?thesis
      using "2.IH"(2) [OF False] "2.prems" by auto
  qed
qed simp

lemma match_signers_inv:
  assumes "match_signers infos (enumerate 0 keys) acc = Inr acc'" and "match_inv keys done_infos acc"
    and "length keys \<le> MAX_SIGNERS"
  shows "match_inv keys (done_infos @ infos) acc'"
  using assms
proof (induction infos arbitrary: acc done_infos)
  case (Cons s infos)
  then obtain acc1 where step: "match_positions s (enumerate 0 keys) acc = Inr acc1"
      "match_signers infos (enumerate 0 keys) acc1 = Inr acc'"
    by (auto simp: rbind_Inr_iff)
  have "match_inv keys (done_infos @ [s]) acc"
    using Cons.prems(2) by (rule match_inv_mono) auto
  then have "match_inv keys (done_infos @ [s]) acc1"
    using match_positions_inv [OF step(1) subset_refl] Cons.prems(3) by simp
  then show ?case
    using Cons.IH [OF step(2)] Cons.prems(3) by fastforce
qed simp

context token_program
begin

lemma validate_owner_authorised:
  assumes "validate_owner K held st program_id expected owner_info (data_len st owner_info) infos = Inr u"
  shows "authorised st program_id expected owner_info infos"
proof (cases "program_id = info_owner st owner_info \<and> data_len st owner_info = 355")
  case False
  then show ?thesis
    using assms
    by (auto simp: validate_owner_def authorised_def info_owner_def data_len_def split: if_splits)
next
  case True
  have key: "info_key owner_info = expected"
    using assms by (auto simp: validate_owner_def split: if_splits)
  obtain ms matched n where ms: "unpack_checked (multisig_fns K) (cell_data (st expected)) = Inr ms"
    and valid: "unat (valid_signers ms) \<le> length (signers ms)"
    and run: "match_signers infos (enumerate 0 (take (unat (valid_signers ms)) (signers ms)))
        (replicate MAX_SIGNERS False, 0) = Inr (matched, n)"
    and enough: "unat (required_signers ms) \<le> n"
    using assms True key
    by (auto simp: validate_owner_def rbind_Inr_iff borrow_iffs split: if_splits prod.splits)
  have unpacked: "multisig_unpack_from_slice (cell_data (st expected)) = Inr ms" "multisig_is_initialized ms"
    using ms pack_sdk.unpack_iff [OF multisig_sdk] by auto
  let ?keys = "take (unat (valid_signers ms)) (signers ms)"
  have keys: "length ?keys = unat (valid_signers ms)" "length ?keys \<le> MAX_SIGNERS"
    using valid multisig_codec.unpack_ok [OF unpacked(1)] by (auto simp: multisig_shape_def)
  have "match_inv ?keys [] (replicate MAX_SIGNERS False, 0)"
    using keys(2) by (auto simp: match_inv_def nth_replicate)
  then have inv: "match_inv ?keys infos (matched, n)"
    using match_signers_inv [OF run _ keys(2), of "[]"] by simp
  then have "{i. i < length ?keys \<and> matched ! i} \<subseteq> signing_positions ms infos"
    using keys(1) by (auto simp: match_inv_def signing_positions_def)
  moreover have "finite (signing_positions ms infos)"
    by (simp add: signing_positions_def)
  ultimately have "n \<le> card (signing_positions ms infos)"
    using inv card_mono by (fastforce simp: match_inv_def)
  then show ?thesis
    using True key unpacked enough by (auto simp: authorised_def info_owner_def data_len_def)
qed

end

section \<open>Properties\<close>

definition multisig_bytes :: bytes where
  "multisig_bytes = (case multisig_pack_into_slice sample_multisig (replicate 355 0) of Inr d \<Rightarrow> d | Inl _ \<Rightarrow> [])"

definition multisig_store :: store where
  "multisig_store _ = \<lparr>cell_lamports = 0, cell_data = multisig_bytes, cell_owner = token_2022_id\<rparr>"

lemma multisig_bytes:
  "length multisig_bytes = 355" "multisig_unpack_from_slice multisig_bytes = Inr sample_multisig"
  using multisig_codec.pack_ok [OF sample_multisig_shape, of "replicate 355 0"] by (auto simp: multisig_bytes_def)

text \<open>
  C19. Nobody acts for an authority without its signatures: when \<open>validate_owner\<close> accepts, the
  presented account is the expected one and either signed itself or is a multisignature of
  the program whose required number of distinct positions is held by keys that signed.
  Passing one signer account twice, or one key in place of two, does not help.
\<close>

theorem authority_needs_signatures:
  assumes "token_program K"
    and "validate_owner K held st program_id expected owner_info (data_len st owner_info) infos = Inr ()"
  shows "authorised st program_id expected owner_info infos"
  using assms(2) by (rule token_program.validate_owner_authorised [OF assms(1)])

theorem authority_needs_signatures_witness:
  "authorised multisig_store token_2022_id 4 \<lparr>info_key = 4, info_is_signer = False\<rparr>
     [\<lparr>info_key = 0, info_is_signer = True\<rparr>, \<lparr>info_key = 2, info_is_signer = True\<rparr>]"
proof -
  have unpack: "unpack_checked (multisig_fns sample_sdk) multisig_bytes = Inr sample_multisig"
    using pack_sdk.unpack_iff [OF sample.multisig_sdk] multisig_bytes by (simp add: sample_multisig_def)
  have keys: "take 3 (signers sample_multisig) = [0, 1, 2]"
    by (simp add: sample_multisig_def take_map upt_rec [of 0] upt_rec_numeral)
  have counts: "unat (valid_signers sample_multisig) = 3" "unat (required_signers sample_multisig) = 2"
      "length (signers sample_multisig) = 11"
    by (simp_all add: sample_multisig_def)
  have "validate_owner sample_sdk [] multisig_store token_2022_id 4 \<lparr>info_key = 4, info_is_signer = False\<rparr>
      (data_len multisig_store \<lparr>info_key = 4, info_is_signer = False\<rparr>)
      [\<lparr>info_key = 0, info_is_signer = True\<rparr>, \<lparr>info_key = 2, info_is_signer = True\<rparr>] = Inr ()"
    by (simp add: validate_owner_def data_len_def info_owner_def multisig_store_def multisig_bytes borrow_data_def
        unpack counts keys MAX_SIGNERS_def)
  then show ?thesis
    by (rule authority_needs_signatures [OF sample.token_program_axioms])
qed

end
