(* ===== verification/Token_Fee.thy ===== *)
theory Token_Fee
  imports Token_Extension
begin

text \<open>
  The transfer fee of Token-2022 (\<open>spl_token_2022/extension/transfer_fee/mod.rs\<close>): the fee on
  an amount in basis points, rounded up and capped, the choice between the older and the newer
  fee by epoch, and the state transition of the configuration.  \<open>u128\<close> arithmetic is 128-bit
  word arithmetic with its checks.
\<close>

type_synonym u128 = "128 word"

definition MAX_FEE_BASIS_POINTS :: u16 where
  "MAX_FEE_BASIS_POINTS = 10000"

definition ONE_IN_BASIS_POINTS :: u128 where
  "ONE_IN_BASIS_POINTS = ucast MAX_FEE_BASIS_POINTS"

text \<open>\<open>u64::try_from\<close> of a \<open>u128\<close>.\<close>

definition u64_try_from :: "u128 \<Rightarrow> u64 option" where
  "u64_try_from x = (if unat x < 2 ^ 64 then Some (ucast x) else None)"

definition checked_div :: "'a::len word \<Rightarrow> 'a word \<Rightarrow> 'a word option" where
  "checked_div a b = (if b = 0 then None else Some (a div b))"

definition checked_rem :: "'a::len word \<Rightarrow> 'a word \<Rightarrow> 'a word option" where
  "checked_rem a b = (if b = 0 then None else Some (a mod b))"

definition calculate :: "transfer_fee \<Rightarrow> u64 \<Rightarrow> u64 option" where
  "calculate f a =
     (let points = ucast (fee_basis_points f) :: u128 in
      if points = 0 \<or> a = 0 then Some 0
      else
        Option.bind (checked_mul (ucast a) points) (\<lambda>numerator.
        Option.bind (checked_div numerator ONE_IN_BASIS_POINTS) (\<lambda>raw_fee.
        Option.bind (checked_rem numerator ONE_IN_BASIS_POINTS) (\<lambda>remainder.
        Option.bind (if 0 < remainder then checked_add raw_fee 1 else Some raw_fee) (\<lambda>raw_fee.
        Option.bind (u64_try_from raw_fee) (\<lambda>raw_fee.
        Some (min raw_fee (maximum_fee f))))))))"

definition get_epoch_fee :: "transfer_fee_config \<Rightarrow> u64 \<Rightarrow> transfer_fee" where
  "get_epoch_fee c epoch =
     (if fee_epoch (newer_transfer_fee c) \<le> epoch then newer_transfer_fee c else older_transfer_fee c)"

definition calculate_epoch_fee :: "transfer_fee_config \<Rightarrow> u64 \<Rightarrow> u64 \<Rightarrow> u64 option" where
  "calculate_epoch_fee c epoch a = calculate (get_epoch_fee c epoch) a"

definition closable :: "transfer_fee_amount \<Rightarrow> program_error + unit" where
  "closable a = (if withheld_amount a = 0 then Inr () else Inl (Token AccountHasWithheldTransferFees))"

text \<open>\<open>ceil_div a b\<close>: the quotient rounded up.\<close>

definition ceil_div :: "nat \<Rightarrow> nat \<Rightarrow> nat" where
  "ceil_div a b = (a + b - 1) div b"

lemma ceil_div_step: "0 < b \<Longrightarrow> ceil_div a b = a div b + (if a mod b = 0 then 0 else 1)"
proof -
  assume b: "0 < b"
  show ?thesis
  proof (cases "a mod b = 0")
    case True
    then obtain k where "a = b * k" by (metis dvd_def mod_0_imp_dvd)
    then show ?thesis
      using b div_mult_self1 [of b "b - 1" k] by (simp add: ceil_div_def add.commute mult.commute)
  next
    case False
    then have "a + b - 1 = (a mod b - 1) + b * (a div b + 1)"
      using b by (simp add: distrib_left)
    then have "ceil_div a b = (a div b + 1) + (a mod b - 1) div b"
      using b by (simp only: ceil_div_def div_mult_self2)
    moreover have "(a mod b - 1) div b = 0"
      using b by (intro div_less less_imp_diff_less) simp
    ultimately show ?thesis
      using False by simp
  qed
qed

lemma unat_ucast_u128: "unat (ucast (x :: 'a::len word) :: u128) = unat x" if "LENGTH('a) \<le> 128"
proof -
  have "unat x < 2 ^ 128"
    by (rule order_less_le_trans [OF unat_lt_width power_increasing]) (use that in simp_all)
  then show ?thesis
    by (simp add: unsigned_ucast_eq take_bit_nat_eq_self)
qed

lemma u64_try_from_iff: "u64_try_from x = Some y \<longleftrightarrow> unat x = unat y"
proof -
  have "unat (ucast x :: u64) = unat x" if "unat x < 2 ^ 64"
    using that by (simp add: unsigned_ucast_eq take_bit_nat_eq_self)
  then show ?thesis
    using unat_lt_width [of y] by (auto simp: u64_try_from_def word_unat_eq_iff)
qed

lemma ceil_div_mono: "a \<le> c \<Longrightarrow> ceil_div a b \<le> ceil_div c b"
  by (simp add: ceil_div_def div_le_mono)

lemma ceil_div_multiple: "0 < b \<Longrightarrow> ceil_div (a * b) b = a"
  by (simp add: ceil_div_step)

lemma ceil_div_share: "p \<le> b \<Longrightarrow> 0 < b \<Longrightarrow> ceil_div (a * p) b \<le> a"
  using ceil_div_mono [of "a * p" "a * b" b] by (simp add: ceil_div_multiple)

text \<open>With a rate of at most 100%, the fee is the rounded-up share, capped at the maximum.\<close>

lemma calculate_spec:
  assumes "unat (fee_basis_points f) \<le> 10000"
  obtains c where "calculate f a = Some c"
    and "unat c = min (ceil_div (unat a * unat (fee_basis_points f)) 10000) (unat (maximum_fee f))"
proof (cases "fee_basis_points f = 0 \<or> a = 0")
  case True
  then have "calculate f a = Some 0"
    by (auto simp: calculate_def Let_def)
  then show ?thesis
    using that [of 0] True by (auto simp: ceil_div_def)
next
  case False
  let ?bp = "unat (fee_basis_points f)" and ?a = "unat a"
  let ?n = "ucast a * ucast (fee_basis_points f) :: u128"
  have bp: "unat (ucast (fee_basis_points f) :: u128) = ?bp" and a: "unat (ucast a :: u128) = ?a"
    by (simp_all add: unat_ucast_u128)
  have "?a * ?bp \<le> 2 ^ 64 * 10000"
    using assms unat_lt_width [of a] by (intro mult_le_mono) auto
  then have small: "?a * ?bp < 2 ^ 128" by simp
  then have mul: "checked_mul (ucast a) (ucast (fee_basis_points f) :: u128) = Some ?n"
    by (simp add: checked_mul_SomeD a bp)
  have n: "unat ?n = ?a * ?bp"
    using small a bp by (subst unat_mult_nowrap) auto
  have one: "unat ONE_IN_BASIS_POINTS = 10000" "ONE_IN_BASIS_POINTS \<noteq> 0"
    by (simp_all add: ONE_IN_BASIS_POINTS_def MAX_FEE_BASIS_POINTS_def)
  define q where "q = ?n div ONE_IN_BASIS_POINTS"
  define r where "r = ?n mod ONE_IN_BASIS_POINTS"
  have q: "unat q = ?a * ?bp div 10000" and r: "unat r = ?a * ?bp mod 10000"
    by (simp_all add: q_def r_def unat_div unat_mod n one)
  have steps: "checked_div ?n ONE_IN_BASIS_POINTS = Some q" "checked_rem ?n ONE_IN_BASIS_POINTS = Some r"
    using one by (simp_all add: checked_div_def checked_rem_def q_def r_def)
  let ?fee = "ceil_div (?a * ?bp) 10000"
  have fee: "?fee = unat q + (if 0 < r then 1 else 0)"
    by (simp add: ceil_div_step q word_less_nat_alt flip: r)
  have bound: "?fee < 2 ^ 64"
    using ceil_div_share [OF assms, of ?a] unat_lt_width [of a] by simp
  obtain raw where raw: "(if 0 < r then checked_add q 1 else Some q) = Some raw" "unat raw = ?fee"
  proof (cases "0 < r")
    case True
    have "checked_add q 1 = Some (q + 1)" "unat (q + 1) = unat q + 1"
      using bound fee True by (simp_all add: checked_add_SomeD unat_add_nowrap)
    then show ?thesis using that [of "q + 1"] True fee by simp
  next
    case False
    then show ?thesis using that [of q] fee by simp
  qed
  obtain c where c: "u64_try_from raw = Some c" "unat c = ?fee"
    using raw(2) bound u64_try_from_iff by (metis u64_try_from_def)
  have "calculate f a = Some (min c (maximum_fee f))"
    using False mul steps raw(1) c(1)
    by (simp add: calculate_def Let_def)
      (metis bp unat_eq_zero)
  then show ?thesis
    using that c(2) by (simp add: min_def word_le_nat_alt)
qed

section \<open>Properties\<close>

text \<open>
  C28. A transfer fee never exceeds the amount: with rates of at most 100%, which the program
  enforces when it sets them, the fee of every epoch exists for every amount, is the
  percentage rounded up, and is capped by the maximum and by the amount itself.
\<close>

theorem epoch_fee_within_amount:
  assumes "fee_basis_points (get_epoch_fee c epoch) \<le> MAX_FEE_BASIS_POINTS"
  shows "\<exists>fee. calculate_epoch_fee c epoch a = Some fee \<and> fee \<le> a
    \<and> fee \<le> maximum_fee (get_epoch_fee c epoch)
    \<and> unat fee = min (ceil_div (unat a * unat (fee_basis_points (get_epoch_fee c epoch))) 10000)
        (unat (maximum_fee (get_epoch_fee c epoch)))"
proof -
  let ?f = "get_epoch_fee c epoch"
  have rate: "unat (fee_basis_points ?f) \<le> 10000"
    using assms by (simp add: MAX_FEE_BASIS_POINTS_def word_le_nat_alt)
  obtain fee where fee: "calculate ?f a = Some fee"
      "unat fee = min (ceil_div (unat a * unat (fee_basis_points ?f)) 10000) (unat (maximum_fee ?f))"
    using calculate_spec [OF rate] .
  moreover have "unat fee \<le> unat a"
    using fee(2) ceil_div_share [OF rate, of "unat a"] by simp
  ultimately show ?thesis
    by (simp add: calculate_epoch_fee_def word_le_nat_alt)
qed

definition sample_fee_config :: transfer_fee_config where
  "sample_fee_config = \<lparr>transfer_fee_config_authority = 1, withdraw_withheld_authority = 1,
     mint_withheld_amount = 0,
     older_transfer_fee = \<lparr>fee_epoch = 0, maximum_fee = 50, fee_basis_points = 100\<rparr>,
     newer_transfer_fee = \<lparr>fee_epoch = 9, maximum_fee = 1000, fee_basis_points = 250\<rparr>\<rparr>"

theorem epoch_fee_within_amount_witness:
  "\<exists>fee. calculate_epoch_fee sample_fee_config 9 101 = Some fee \<and> fee \<le> 101 \<and> unat fee = min (ceil_div 25250 10000) 1000"
  using epoch_fee_within_amount [of sample_fee_config 9 101]
  by (auto simp: sample_fee_config_def get_epoch_fee_def MAX_FEE_BASIS_POINTS_def)

end
