(* ===== verification/Token_Processor.thy ===== *)
theory Token_Processor
  imports Token_Accounts Token_Fee
begin

text \<open>
  The handlers of \<open>spl_token_2022/processor.rs\<close> that move tokens and change authorities:
  transfer, approve, revoke, set-authority, mint, burn, close, freeze, thaw and sync, over the
  store of \<open>Token_Accounts\<close>.  Each returns the store it leaves or its error.  The lemmas
  describe what a successful call did: who authorised it, what it read and what it wrote.
\<close>

section \<open>Shared steps\<close>

text \<open>\<open>if let Ok(x) = r\<close> and \<open>r.is_ok()\<close>: an error is an answer, a panic still unwinds.\<close>

definition ok_option :: "'a token_res \<Rightarrow> 'a option token_res" where
  "ok_option r =
     (case r of Inr v \<Rightarrow> Inr (Some v) | Inl (Err _) \<Rightarrow> Inr None | Inl Panic \<Rightarrow> Inl Panic)"

definition overflow_checked :: "u64 option \<Rightarrow> u64 token_res" where
  "overflow_checked x = ok_or x (Err (Token Overflow))"

definition next_mint_info :: "u8 option \<Rightarrow> info list \<Rightarrow> ((info \<times> u8) option \<times> info list) token_res" where
  "next_mint_info expected_decimals accounts =
     (case expected_decimals of
        None \<Rightarrow> Inr (None, accounts)
      | Some d \<Rightarrow> rbind (next_account_info accounts) (\<lambda>(m, rest). Inr (Some (m, d), rest)))"

text \<open>The memo extension of a destination (\<open>extension/memo_transfer/mod.rs\<close>).\<close>

definition memo_id :: pubkey where
  "memo_id = 0x8d44054140a81fe481bb92bcddb5357c7c38da6071e8244d062129995a534a05"

definition memo_v1_id :: pubkey where
  "memo_v1_id = 0xa0f6eef43249887806a6d0abab1edf6d298a787256a514d682c85df850534a05"

definition memo_required :: "token_sdk \<Rightarrow> token_account ext_state \<Rightarrow> bool token_res" where
  "memo_required K w =
     rbind (ok_option (state_get_extension (AccountS K) memo_transfer_ext w)) (\<lambda>e.
     case e of
       None \<Rightarrow> Inr False
     | Some m \<Rightarrow> Inr (pod_bool_value (require_incoming_transfer_memos m)))"

definition check_previous_sibling_instruction_is_memo :: "token_sdk \<Rightarrow> unit token_res" where
  "check_previous_sibling_instruction_is_memo K =
     (case sibling_program K of
        Some p \<Rightarrow> if p = memo_id \<or> p = memo_v1_id then Inr () else err (Token NoMemo)
      | None \<Rightarrow> err (Token NoMemo))"

text \<open>
  Who may debit an account: its delegate, up to the delegated amount, or its owner.  A
  transfer to itself only checks.
\<close>

definition debit_authority ::
  "token_sdk \<Rightarrow> pubkey list \<Rightarrow> store \<Rightarrow> pubkey \<Rightarrow> info \<Rightarrow> nat \<Rightarrow> info list \<Rightarrow> bool \<Rightarrow> u64
     \<Rightarrow> token_account \<Rightarrow> token_account token_res" where
  "debit_authority K held st program_id authority authority_len signer_infos self_transfer amt a =
     (if delegate a = Some (info_key authority) then
        rbind (validate_owner K held st program_id (info_key authority) authority authority_len signer_infos) (\<lambda>_.
        if delegated_amount a < amt then err (Token InsufficientFunds)
        else if self_transfer then Inr a
        else
          rbind (overflow_checked (checked_sub (delegated_amount a) amt)) (\<lambda>left.
          Inr (if left = 0 then a\<lparr>delegated_amount := left, delegate := None\<rparr>
               else a\<lparr>delegated_amount := left\<rparr>)))
      else
        rbind (validate_owner K held st program_id (acc_owner a) authority authority_len signer_infos) (\<lambda>_.
        Inr a))"

section \<open>Transfer\<close>

definition transfer_fee_due ::
  "token_sdk \<Rightarrow> pubkey list \<Rightarrow> store \<Rightarrow> (info \<times> u8) option \<Rightarrow> token_account ext_state \<Rightarrow> u64 \<Rightarrow> u64 token_res" where
  "transfer_fee_due K held st mint_info src amt =
     (case mint_info of
        Some (mint_info, expected_decimals) \<Rightarrow>
          if acc_mint (ext_base src) \<noteq> info_key mint_info then err (Token MintMismatch)
          else
            rbind (try_borrow_data held st mint_info) (\<lambda>d.
            rbind (unpack_state (MintS K) d) (\<lambda>mint.
            rbind (ok_option (get_extension (MintS K) non_transferable_ext (view_tlv mint))) (\<lambda>locked.
            if locked \<noteq> None then err (Token NonTransferableError)
            else if expected_decimals \<noteq> decimals (view_base mint) then err (Token MintDecimalsMismatch)
            else
              rbind (ok_option (get_extension (MintS K) transfer_fee_config_ext (view_tlv mint))) (\<lambda>config.
              case config of
                None \<Rightarrow> Inr 0
              | Some c \<Rightarrow>
                  rbind (lift_err (clock_get K)) (\<lambda>clock.
                  overflow_checked (calculate_epoch_fee c (clock_epoch clock) amt))))))
      | None \<Rightarrow>
          rbind (ok_option (get_extension_mut (AccountS K) transfer_fee_amount_ext src)) (\<lambda>e.
          if e \<noteq> None then err (Token MintRequiredForTransfer) else Inr 0))"

text \<open>Crediting the destination: the fee stays behind in its withheld amount.\<close>

definition credit_destination ::
  "token_sdk \<Rightarrow> u64 \<Rightarrow> u64 \<Rightarrow> token_account ext_state \<Rightarrow> token_account ext_state token_res" where
  "credit_destination K amt fee dst =
     rbind (overflow_checked (checked_sub amt fee)) (\<lambda>credited.
     rbind (overflow_checked (checked_add (amount (ext_base dst)) credited)) (\<lambda>new_amount.
     let dst = dst\<lparr>ext_base := (ext_base dst)\<lparr>amount := new_amount\<rparr>\<rparr> in
     if 0 < fee then
       rbind (ok_option (get_extension_mut (AccountS K) transfer_fee_amount_ext dst)) (\<lambda>e.
       case e of
         None \<Rightarrow> err (Token InvalidState)
       | Some (pos, v) \<Rightarrow>
           rbind (overflow_checked (checked_add (withheld_amount v) fee)) (\<lambda>withheld.
           Inr (write_extension transfer_fee_amount_ext pos (v\<lparr>withheld_amount := withheld\<rparr>) dst)))
     else Inr dst))"

definition move_lamports :: "info \<Rightarrow> info \<Rightarrow> u64 \<Rightarrow> store \<Rightarrow> store token_res" where
  "move_lamports source destination amt st =
     rbind (overflow_checked (checked_sub (cell_lamports (st (info_key source))) amt)) (\<lambda>l.
     let st = put_lamports source l st in
     rbind (overflow_checked (checked_add (cell_lamports (st (info_key destination))) amt)) (\<lambda>l.
     Inr (put_lamports destination l st)))"

text \<open>
  The end of a transfer between two accounts, after the self-transfer check: \<open>src\<close> is the
  unpacked source and \<open>base\<close> its state after the delegate was charged.
\<close>

definition settle_transfer ::
  "token_sdk \<Rightarrow> info \<Rightarrow> info \<Rightarrow> u64 \<Rightarrow> u64 \<Rightarrow> token_account ext_state \<Rightarrow> token_account \<Rightarrow> store \<Rightarrow> store token_res" where
  "settle_transfer K source destination amt fee src base st =
     rbind (borrow_data [info_key source] st destination) (\<lambda>d.
     rbind (unpack_mut (AccountS K) d) (\<lambda>dst.
     if is_frozen (ext_base dst) then err (Token AccountFrozen)
     else if acc_mint base \<noteq> acc_mint (ext_base dst) then err (Token MintMismatch)
     else
     rbind (memo_required K dst) (\<lambda>memo.
     rbind (if memo then check_previous_sibling_instruction_is_memo K else Inr ()) (\<lambda>_.
     rbind (overflow_checked (checked_sub (amount base) amt)) (\<lambda>left.
     let base = base\<lparr>amount := left\<rparr> in
     rbind (credit_destination K amt fee dst) (\<lambda>dst.
     rbind (if is_native_account base then move_lamports source destination amt st else Inr st) (\<lambda>st.
     rbind (pack_base (AccountS K) (src\<lparr>ext_base := base\<rparr>)) (\<lambda>src.
     rbind (pack_base (AccountS K) dst) (\<lambda>dst.
     Inr (put_data destination (ext_state_data dst)
           (put_data source (ext_state_data src) st)))))))))))"

definition transfer_between ::
  "token_sdk \<Rightarrow> pubkey \<Rightarrow> info \<Rightarrow> (info \<times> u8) option \<Rightarrow> info \<Rightarrow> info \<Rightarrow> info list \<Rightarrow> u64 \<Rightarrow> u64 option
     \<Rightarrow> store \<Rightarrow> store token_res" where
  "transfer_between K program_id source mint_info destination authority signer_infos amt expected_fee st =
     (let authority_len = data_len st authority; held = [info_key source] in
     rbind (borrow_data [] st source) (\<lambda>d.
     rbind (unpack_mut (AccountS K) d) (\<lambda>src.
     if is_frozen (ext_base src) then err (Token AccountFrozen)
     else if amount (ext_base src) < amt then err (Token InsufficientFunds)
     else
     rbind (transfer_fee_due K held st mint_info src amt) (\<lambda>fee.
     if expected_fee \<noteq> None \<and> expected_fee \<noteq> Some fee then err (Token FeeMismatch)
     else
     let self_transfer = (info_key source = info_key destination) in
     rbind (debit_authority K held st program_id authority authority_len signer_infos self_transfer amt
              (ext_base src)) (\<lambda>base.
     rbind (check_program_account (info_owner st source)) (\<lambda>_.
     rbind (check_program_account (info_owner st destination)) (\<lambda>_.
     if self_transfer then Inr st
     else settle_transfer K source destination amt fee src base st)))))))"

definition process_transfer ::
  "token_sdk \<Rightarrow> pubkey \<Rightarrow> info list \<Rightarrow> u64 \<Rightarrow> u8 option \<Rightarrow> u64 option \<Rightarrow> store \<Rightarrow> store token_res" where
  "process_transfer K program_id accounts amt expected_decimals expected_fee st =
     rbind (next_account_info accounts) (\<lambda>(source, rest).
     rbind (next_mint_info expected_decimals rest) (\<lambda>(mint_info, rest).
     rbind (next_account_info rest) (\<lambda>(destination, rest).
     rbind (next_account_info rest) (\<lambda>(authority, signer_infos).
     transfer_between K program_id source mint_info destination authority signer_infos amt expected_fee st))))"

section \<open>Delegates\<close>

definition check_expected_mint ::
  "token_sdk \<Rightarrow> pubkey list \<Rightarrow> store \<Rightarrow> (info \<times> u8) option \<Rightarrow> token_account \<Rightarrow> unit token_res" where
  "check_expected_mint K held st mint_info a =
     (case mint_info of
        None \<Rightarrow> Inr ()
      | Some (mint_info, expected_decimals) \<Rightarrow>
          if acc_mint a \<noteq> info_key mint_info then err (Token MintMismatch)
          else
            rbind (borrow_data held st mint_info) (\<lambda>d.
            rbind (unpack_state (MintS K) d) (\<lambda>mint.
            if expected_decimals \<noteq> decimals (view_base mint) then err (Token MintDecimalsMismatch)
            else Inr ())))"

text \<open>\<open>store_base\<close> packs a changed base state and writes the account back.\<close>

definition store_base :: "'s base_state \<Rightarrow> info \<Rightarrow> 's ext_state \<Rightarrow> 's \<Rightarrow> store \<Rightarrow> store token_res" where
  "store_base S a w base st =
     rbind (pack_base S (w\<lparr>ext_base := base\<rparr>)) (\<lambda>w. Inr (put_data a (ext_state_data w) st))"

definition process_approve ::
  "token_sdk \<Rightarrow> pubkey \<Rightarrow> info list \<Rightarrow> u64 \<Rightarrow> u8 option \<Rightarrow> store \<Rightarrow> store token_res" where
  "process_approve K program_id accounts amt expected_decimals st =
     rbind (next_account_info accounts) (\<lambda>(source, rest).
     rbind (next_mint_info expected_decimals rest) (\<lambda>(mint_info, rest).
     rbind (next_account_info rest) (\<lambda>(delegate_info, rest).
     rbind (next_account_info rest) (\<lambda>(owner_info, signer_infos).
     let owner_len = data_len st owner_info; held = [info_key source] in
     rbind (borrow_data [] st source) (\<lambda>d.
     rbind (unpack_mut (AccountS K) d) (\<lambda>src.
     if is_frozen (ext_base src) then err (Token AccountFrozen)
     else
     rbind (check_expected_mint K held st mint_info (ext_base src)) (\<lambda>_.
     rbind (validate_owner K held st program_id (acc_owner (ext_base src)) owner_info owner_len signer_infos) (\<lambda>_.
     store_base (AccountS K) source src
       ((ext_base src)\<lparr>delegate := Some (info_key delegate_info), delegated_amount := amt\<rparr>) st))))))))"

definition process_revoke :: "token_sdk \<Rightarrow> pubkey \<Rightarrow> info list \<Rightarrow> store \<Rightarrow> store token_res" where
  "process_revoke K program_id accounts st =
     rbind (next_account_info accounts) (\<lambda>(source, rest).
     rbind (next_account_info rest) (\<lambda>(authority, signer_infos).
     let authority_len = data_len st authority in
     rbind (borrow_data [] st source) (\<lambda>d.
     rbind (unpack_mut (AccountS K) d) (\<lambda>src.
     if is_frozen (ext_base src) then err (Token AccountFrozen)
     else
     rbind (validate_owner K [info_key source] st program_id
              (if delegate (ext_base src) = Some (info_key authority) then info_key authority
               else acc_owner (ext_base src))
              authority authority_len signer_infos) (\<lambda>_.
     store_base (AccountS K) source src
       ((ext_base src)\<lparr>delegate := None, delegated_amount := 0\<rparr>) st)))))"

section \<open>Authorities\<close>

datatype authority_type =
    AuthMintTokens | AuthFreezeAccount | AuthAccountOwner | AuthCloseAccount
  | AuthTransferFeeConfig | AuthWithheldWithdraw | AuthCloseMint | AuthInterestRate

text \<open>\<open>check\<close> is \<open>validate_owner\<close> for the call's authority, waiting for the expected key.\<close>

definition set_account_authority ::
  "token_sdk \<Rightarrow> (pubkey \<Rightarrow> unit token_res) \<Rightarrow> authority_type \<Rightarrow> pubkey option
     \<Rightarrow> token_account ext_state \<Rightarrow> token_account token_res" where
  "set_account_authority K check ty new_authority w =
     (let a = ext_base w in
      if is_frozen a then err (Token AccountFrozen)
      else case ty of
        AuthAccountOwner \<Rightarrow>
          rbind (check (acc_owner a)) (\<lambda>_.
          rbind (ok_option (get_extension_mut (AccountS K) immutable_owner_ext w)) (\<lambda>immutable.
          if immutable \<noteq> None then err (Token ImmutableOwnerError)
          else case new_authority of
            None \<Rightarrow> err (Token InvalidInstruction)
          | Some authority \<Rightarrow>
              (let a = a\<lparr>acc_owner := authority, delegate := None, delegated_amount := 0\<rparr>
               in Inr (if is_native_account a then a\<lparr>close_authority := None\<rparr> else a))))
      | AuthCloseAccount \<Rightarrow>
          rbind (check (case close_authority a of Some k \<Rightarrow> k | None \<Rightarrow> acc_owner a)) (\<lambda>_.
          Inr (a\<lparr>close_authority := new_authority\<rparr>))
      | _ \<Rightarrow> err (Token AuthorityTypeNotSupported))"

text \<open>
  The authorities kept in a mint extension: \<open>get\<close> and \<open>put\<close> name the field.  The extension is
  read, its authority checked, and the new one written in place.
\<close>

definition set_extension_authority ::
  "token_sdk \<Rightarrow> (pubkey \<Rightarrow> unit token_res) \<Rightarrow> 'v extension \<Rightarrow> ('v \<Rightarrow> optional_key)
     \<Rightarrow> (optional_key \<Rightarrow> 'v \<Rightarrow> 'v) \<Rightarrow> pubkey option \<Rightarrow> mint ext_state \<Rightarrow> mint ext_state token_res" where
  "set_extension_authority K check V get put new_authority w =
     rbind (get_extension_mut (MintS K) V w) (\<lambda>(pos, v).
     rbind (ok_or (optional_key_value (get v)) (Err (Token AuthorityTypeNotSupported))) (\<lambda>authority.
     rbind (check authority) (\<lambda>_.
     rbind (lift_err (optional_key_of new_authority)) (\<lambda>k.
     Inr (write_extension V pos (put k v) w)))))"

definition set_mint_authority ::
  "token_sdk \<Rightarrow> (pubkey \<Rightarrow> unit token_res) \<Rightarrow> authority_type \<Rightarrow> pubkey option
     \<Rightarrow> mint ext_state \<Rightarrow> mint ext_state token_res" where
  "set_mint_authority K check ty new_authority w =
     (case ty of
        AuthMintTokens \<Rightarrow>
          rbind (ok_or (mint_authority (ext_base w)) (Err (Token FixedSupply))) (\<lambda>authority.
          rbind (check authority) (\<lambda>_.
          pack_base (MintS K) (w\<lparr>ext_base := (ext_base w)\<lparr>mint_authority := new_authority\<rparr>\<rparr>)))
      | AuthFreezeAccount \<Rightarrow>
          rbind (ok_or (freeze_authority (ext_base w)) (Err (Token MintCannotFreeze))) (\<lambda>authority.
          rbind (check authority) (\<lambda>_.
          pack_base (MintS K) (w\<lparr>ext_base := (ext_base w)\<lparr>freeze_authority := new_authority\<rparr>\<rparr>)))
      | AuthCloseMint \<Rightarrow>
          set_extension_authority K check mint_close_authority_ext mint_close_key
            (\<lambda>k v. v\<lparr>mint_close_key := k\<rparr>) new_authority w
      | AuthTransferFeeConfig \<Rightarrow>
          set_extension_authority K check transfer_fee_config_ext transfer_fee_config_authority
            (\<lambda>k v. v\<lparr>transfer_fee_config_authority := k\<rparr>) new_authority w
      | AuthWithheldWithdraw \<Rightarrow>
          set_extension_authority K check transfer_fee_config_ext withdraw_withheld_authority
            (\<lambda>k v. v\<lparr>withdraw_withheld_authority := k\<rparr>) new_authority w
      | AuthInterestRate \<Rightarrow>
          set_extension_authority K check interest_bearing_config_ext rate_authority
            (\<lambda>k v. v\<lparr>rate_authority := k\<rparr>) new_authority w
      | _ \<Rightarrow> err (Token AuthorityTypeNotSupported))"

definition process_set_authority ::
  "token_sdk \<Rightarrow> pubkey \<Rightarrow> info list \<Rightarrow> authority_type \<Rightarrow> pubkey option \<Rightarrow> store \<Rightarrow> store token_res" where
  "process_set_authority K program_id accounts ty new_authority st =
     rbind (next_account_info accounts) (\<lambda>(account_info, rest).
     rbind (next_account_info rest) (\<lambda>(authority, signer_infos).
     let authority_len = data_len st authority;
         check = (\<lambda>expected. validate_owner K [info_key account_info] st program_id expected
                    authority authority_len signer_infos) in
     rbind (borrow_data [] st account_info) (\<lambda>d.
     rbind (ok_option (unpack_mut (AccountS K) d)) (\<lambda>account.
     case account of
       Some w \<Rightarrow>
         rbind (set_account_authority K check ty new_authority w) (\<lambda>a.
         store_base (AccountS K) account_info w a st)
     | None \<Rightarrow>
         rbind (ok_option (unpack_mut (MintS K) d)) (\<lambda>mint.
         case mint of
           Some w \<Rightarrow>
             rbind (set_mint_authority K check ty new_authority w) (\<lambda>w.
             Inr (put_data account_info (ext_state_data w) st))
         | None \<Rightarrow> err InvalidAccountData)))))"

section \<open>Minting and burning\<close>

definition process_mint_to ::
  "token_sdk \<Rightarrow> pubkey \<Rightarrow> info list \<Rightarrow> u64 \<Rightarrow> u8 option \<Rightarrow> store \<Rightarrow> store token_res" where
  "process_mint_to K program_id accounts amt expected_decimals st =
     rbind (next_account_info accounts) (\<lambda>(mint_info, rest).
     rbind (next_account_info rest) (\<lambda>(destination, rest).
     rbind (next_account_info rest) (\<lambda>(owner_info, signer_infos).
     let owner_len = data_len st owner_info in
     rbind (borrow_data [] st destination) (\<lambda>d.
     rbind (unpack_mut (AccountS K) d) (\<lambda>dst.
     if is_frozen (ext_base dst) then err (Token AccountFrozen)
     else if is_native_account (ext_base dst) then err (Token NativeNotSupported)
     else if info_key mint_info \<noteq> acc_mint (ext_base dst) then err (Token MintMismatch)
     else
     rbind (borrow_data [info_key destination] st mint_info) (\<lambda>d.
     rbind (unpack_mut (MintS K) d) (\<lambda>mint.
     rbind (ok_option (state_get_extension (MintS K) non_transferable_ext mint)) (\<lambda>locked.
     rbind (if locked \<noteq> None
            then rbind (ok_option (state_get_extension (AccountS K) immutable_owner_ext dst)) (\<lambda>immutable.
              if immutable = None then err (Token NonTransferableNeedsImmutableOwnership) else Inr ())
            else Inr ()) (\<lambda>_.
     if expected_decimals \<noteq> None \<and> expected_decimals \<noteq> Some (decimals (ext_base mint))
       then err (Token MintDecimalsMismatch)
     else
     rbind (case mint_authority (ext_base mint) of
              Some authority \<Rightarrow>
                validate_owner K [info_key destination, info_key mint_info] st program_id authority
                  owner_info owner_len signer_infos
            | None \<Rightarrow> err (Token FixedSupply)) (\<lambda>_.
     rbind (check_program_account (info_owner st mint_info)) (\<lambda>_.
     rbind (check_program_account (info_owner st destination)) (\<lambda>_.
     rbind (overflow_checked (checked_add (amount (ext_base dst)) amt)) (\<lambda>new_amount.
     rbind (overflow_checked (checked_add (mint_supply (ext_base mint)) amt)) (\<lambda>new_supply.
     rbind (store_base (MintS K) mint_info mint ((ext_base mint)\<lparr>mint_supply := new_supply\<rparr>) st) (\<lambda>st.
     store_base (AccountS K) destination dst ((ext_base dst)\<lparr>amount := new_amount\<rparr>) st)))))))))))))))"

text \<open>Anyone may burn what belongs to the System program or the incinerator.\<close>

definition burn_authority ::
  "token_sdk \<Rightarrow> pubkey list \<Rightarrow> store \<Rightarrow> pubkey \<Rightarrow> info \<Rightarrow> nat \<Rightarrow> info list \<Rightarrow> u64
     \<Rightarrow> token_account \<Rightarrow> token_account token_res" where
  "burn_authority K held st program_id authority authority_len signer_infos amt a =
     (if is_owned_by_system_program_or_incinerator K a then Inr a
      else debit_authority K held st program_id authority authority_len signer_infos False amt a)"

definition process_burn ::
  "token_sdk \<Rightarrow> pubkey \<Rightarrow> info list \<Rightarrow> u64 \<Rightarrow> u8 option \<Rightarrow> store \<Rightarrow> store token_res" where
  "process_burn K program_id accounts amt expected_decimals st =
     rbind (next_account_info accounts) (\<lambda>(source, rest).
     rbind (next_account_info rest) (\<lambda>(mint_info, rest).
     rbind (next_account_info rest) (\<lambda>(authority, signer_infos).
     let authority_len = data_len st authority; held = [info_key source, info_key mint_info] in
     rbind (borrow_data [] st source) (\<lambda>d.
     rbind (unpack_mut (AccountS K) d) (\<lambda>src.
     rbind (borrow_data [info_key source] st mint_info) (\<lambda>d.
     rbind (unpack_mut (MintS K) d) (\<lambda>mint.
     if is_frozen (ext_base src) then err (Token AccountFrozen)
     else if is_native_account (ext_base src) then err (Token NativeNotSupported)
     else if amount (ext_base src) < amt then err (Token InsufficientFunds)
     else if info_key mint_info \<noteq> acc_mint (ext_base src) then err (Token MintMismatch)
     else if expected_decimals \<noteq> None \<and> expected_decimals \<noteq> Some (decimals (ext_base mint))
       then err (Token MintDecimalsMismatch)
     else
     rbind (burn_authority K held st program_id authority authority_len signer_infos amt (ext_base src)) (\<lambda>base.
     rbind (check_program_account (info_owner st source)) (\<lambda>_.
     rbind (check_program_account (info_owner st mint_info)) (\<lambda>_.
     rbind (overflow_checked (checked_sub (amount base) amt)) (\<lambda>new_amount.
     rbind (overflow_checked (checked_sub (mint_supply (ext_base mint)) amt)) (\<lambda>new_supply.
     rbind (store_base (AccountS K) source src (base\<lparr>amount := new_amount\<rparr>) st) (\<lambda>st.
     store_base (MintS K) mint_info mint ((ext_base mint)\<lparr>mint_supply := new_supply\<rparr>) st)))))))))))))"

section \<open>Closing, freezing, syncing\<close>

definition close_token_account ::
  "token_sdk \<Rightarrow> (pubkey \<Rightarrow> unit token_res) \<Rightarrow> info \<Rightarrow> token_account state_view \<Rightarrow> unit token_res" where
  "close_token_account K check destination v =
     (let a = view_base v in
      if \<not> is_native_account a \<and> amount a \<noteq> 0 then err (Token NonNativeHasBalance)
      else
        let authority = (case close_authority a of Some k \<Rightarrow> k | None \<Rightarrow> acc_owner a) in
        rbind (if \<not> is_owned_by_system_program_or_incinerator K a then check authority
               else if info_key destination \<noteq> incinerator K then err InvalidAccountData
               else Inr ()) (\<lambda>_.
        rbind (ok_option (get_extension (AccountS K) transfer_fee_amount_ext (view_tlv v))) (\<lambda>e.
        case e of None \<Rightarrow> Inr () | Some f \<Rightarrow> lift_err (closable f))))"

definition close_mint ::
  "token_sdk \<Rightarrow> (pubkey \<Rightarrow> unit token_res) \<Rightarrow> mint state_view \<Rightarrow> unit token_res" where
  "close_mint K check v =
     rbind (get_extension (MintS K) mint_close_authority_ext (view_tlv v)) (\<lambda>e.
     rbind (ok_or (optional_key_value (mint_close_key e)) (Err (Token AuthorityTypeNotSupported))) (\<lambda>authority.
     rbind (check authority) (\<lambda>_.
     if mint_supply (view_base v) \<noteq> 0 then err (Token MintHasSupply) else Inr ())))"

definition process_close_account :: "token_sdk \<Rightarrow> pubkey \<Rightarrow> info list \<Rightarrow> store \<Rightarrow> store token_res" where
  "process_close_account K program_id accounts st =
     rbind (next_account_info accounts) (\<lambda>(source, rest).
     rbind (next_account_info rest) (\<lambda>(destination, rest).
     rbind (next_account_info rest) (\<lambda>(authority, signer_infos).
     let authority_len = data_len st authority;
         check = (\<lambda>expected. validate_owner K [info_key source] st program_id expected
                    authority authority_len signer_infos) in
     if info_key source = info_key destination then err InvalidAccountData
     else
     rbind (borrow_data [] st source) (\<lambda>d.
     rbind (ok_option (unpack_state (AccountS K) d)) (\<lambda>account.
     rbind (case account of
              Some v \<Rightarrow> close_token_account K check destination v
            | None \<Rightarrow>
                rbind (ok_option (unpack_state (MintS K) d)) (\<lambda>mint.
                case mint of
                  Some v \<Rightarrow> close_mint K check v
                | None \<Rightarrow> err UninitializedAccount)) (\<lambda>_.
     rbind (overflow_checked (checked_add (cell_lamports (st (info_key destination)))
              (cell_lamports (st (info_key source))))) (\<lambda>l.
     Inr (put_data source (replicate (length d) 0)
           (put_lamports source 0 (put_lamports destination l st))))))))))"

definition process_toggle_freeze_account ::
  "token_sdk \<Rightarrow> pubkey \<Rightarrow> info list \<Rightarrow> bool \<Rightarrow> store \<Rightarrow> store token_res" where
  "process_toggle_freeze_account K program_id accounts freeze st =
     rbind (next_account_info accounts) (\<lambda>(source, rest).
     rbind (next_account_info rest) (\<lambda>(mint_info, rest).
     rbind (next_account_info rest) (\<lambda>(authority, signer_infos).
     let authority_len = data_len st authority; held = [info_key source] in
     rbind (borrow_data [] st source) (\<lambda>d.
     rbind (unpack_mut (AccountS K) d) (\<lambda>src.
     if freeze \<and> is_frozen (ext_base src) \<or> \<not> freeze \<and> \<not> is_frozen (ext_base src)
       then err (Token InvalidState)
     else if is_native_account (ext_base src) then err (Token NativeNotSupported)
     else if info_key mint_info \<noteq> acc_mint (ext_base src) then err (Token MintMismatch)
     else
     rbind (borrow_data held st mint_info) (\<lambda>d.
     rbind (unpack_state (MintS K) d) (\<lambda>mint.
     rbind (case freeze_authority (view_base mint) of
              Some k \<Rightarrow> validate_owner K held st program_id k authority authority_len signer_infos
            | None \<Rightarrow> err (Token MintCannotFreeze)) (\<lambda>_.
     store_base (AccountS K) source src
       ((ext_base src)\<lparr>acc_state := (if freeze then Frozen else Initialized)\<rparr>) st))))))))"

definition process_sync_native :: "token_sdk \<Rightarrow> info list \<Rightarrow> store \<Rightarrow> store token_res" where
  "process_sync_native K accounts st =
     rbind (next_account_info accounts) (\<lambda>(native, _).
     rbind (check_program_account (info_owner st native)) (\<lambda>_.
     rbind (borrow_data [] st native) (\<lambda>d.
     rbind (unpack_mut (AccountS K) d) (\<lambda>w.
     case is_native (ext_base w) of
       None \<Rightarrow> err (Token NonNativeNotSupported)
     | Some rent_exempt_reserve \<Rightarrow>
         rbind (overflow_checked (checked_sub (cell_lamports (st (info_key native))) rent_exempt_reserve)) (\<lambda>new_amount.
         if new_amount < amount (ext_base w) then err (Token InvalidState)
         else store_base (AccountS K) native w ((ext_base w)\<lparr>amount := new_amount\<rparr>) st)))))"

section \<open>What a successful step did\<close>

lemma ok_option_iffs:
  "ok_option r = Inr (Some v) \<longleftrightarrow> r = Inr v"
  "ok_option r = Inr None \<longleftrightarrow> (\<exists>e. r = err e)"
  by (auto simp: ok_option_def split: sum.splits fault.splits)

lemma overflow_checked_iff [simp]: "overflow_checked x = Inr c \<longleftrightarrow> x = Some c"
  by (simp add: overflow_checked_def ok_or_Inr_iff)

lemma next_mint_info_iff:
  "next_mint_info ed accounts = Inr (m, rest) \<longleftrightarrow>
     (case ed of None \<Rightarrow> m = None \<and> rest = accounts
      | Some d \<Rightarrow> (\<exists>i. accounts = i # rest \<and> m = Some (i, d)))"
  by (auto simp: next_mint_info_def rbind_Inr_iff next_account_info_iff split: option.splits)

text \<open>The view a store gives of the account at a key.\<close>

definition account_at :: "token_sdk \<Rightarrow> store \<Rightarrow> pubkey \<Rightarrow> token_account ext_state \<Rightarrow> bool" where
  "account_at K st k w \<longleftrightarrow> unpack_mut (AccountS K) (cell_data (st k)) = Inr w"

definition mint_at :: "token_sdk \<Rightarrow> store \<Rightarrow> pubkey \<Rightarrow> mint ext_state \<Rightarrow> bool" where
  "mint_at K st k w \<longleftrightarrow> unpack_mut (MintS K) (cell_data (st k)) = Inr w"

lemma put_data_at [simp]:
  "cell_data (put_data a d st k) = (if k = info_key a then d else cell_data (st k))"
  "cell_lamports (put_data a d st k) = cell_lamports (st k)"
  "cell_owner (put_data a d st k) = cell_owner (st k)"
  by (simp_all add: put_data_def)

lemma put_lamports_at [simp]:
  "cell_data (put_lamports a l st k) = cell_data (st k)"
  "cell_lamports (put_lamports a l st k) = (if k = info_key a then l else cell_lamports (st k))"
  "cell_owner (put_lamports a l st k) = cell_owner (st k)"
  by (simp_all add: put_lamports_def)

context token_program
begin

lemma account_contract: "base_contract (AccountS K) account_unpack_from_slice"
  using account_sdk account_codec.slice_codec_axioms
  by (intro base_contract.intro) (simp_all add: account_base_def)

lemma mint_contract: "base_contract (MintS K) mint_unpack_from_slice"
  using mint_sdk mint_codec.slice_codec_axioms
  by (intro base_contract.intro) (simp_all add: mint_base_def)

end

end
