(* ===== verification/Token_Ledger.thy ===== *)
theory Token_Ledger
  imports Token_Processor
begin

text \<open>
  What the token handlers do to the balances.  The lemmas first describe each step of a
  handler on the parts of an account, then the properties: tokens are conserved, only the
  right authority moves them, and frozen accounts do not move.
\<close>

section \<open>Reading and writing an extension in place\<close>

lemma extension_indices_read:
  assumes "start + 4 \<le> length tlv" and "extension_type_of (slice start 2 tlv) = Inr t"
  shows "extension_indices v tlv init start =
    (if t = ExtUninitialized then
       (if init then Inr (get_tlv_indices start) else extension_indices v tlv init (start + 2))
     else if t = v then Inr (get_tlv_indices start)
     else if get_account_type v \<noteq> get_account_type t then Inl (Token ExtensionTypeMismatch)
     else extension_indices v tlv init (start + 4 + tlv_length tlv (get_tlv_indices start)))"
  using assms by (subst extension_indices.simps) (simp add: Let_def)

lemma extension_indices_InrD:
  assumes "extension_indices v tlv init start = Inr ix"
  obtains t where "start + 4 \<le> length tlv" and "extension_type_of (slice start 2 tlv) = Inr t"
proof -
  have "start + 4 \<le> length tlv"
    using assms by (subst (asm) extension_indices.simps) (simp add: Let_def split: if_splits)
  moreover have "\<exists>t. extension_type_of (slice start 2 tlv) = Inr t"
    using assms by (subst (asm) extension_indices.simps) (auto simp: Let_def split: if_splits sum.splits)
  ultimately show ?thesis using that by blast
qed

lemma slice_take_eq: "take n xs = take n ys \<Longrightarrow> i + k \<le> n \<Longrightarrow> slice i k xs = slice i k ys"
  unfolding slice_def by (metis add.commute drop_take take_drop min.absorb1 take_take)

text \<open>The search only reads headers in front of the value it finds.\<close>

lemma extension_indices_prefix:
  assumes "extension_indices v tlv init start = Inr ix" and "length tlv' = length tlv"
    and "take (value_start ix) tlv' = take (value_start ix) tlv"
  shows "extension_indices v tlv' init start = Inr ix \<and> start \<le> type_start ix
    \<and> value_start ix = type_start ix + 4 \<and> length_start ix = type_start ix + 2 \<and> value_start ix \<le> length tlv"
  using assms
proof (induction v tlv init start rule: extension_indices.induct)
  case (1 v tlv init start)
  let ?ix = "get_tlv_indices start"
  obtain t where len: "start + 4 \<le> length tlv" and t: "extension_type_of (slice start 2 tlv) = Inr t"
    using extension_indices_InrD [OF "1.prems"(1)] .
  note read = "1.prems"(1) [unfolded extension_indices_read [OF len t]]
  have len': "start + 4 \<le> length tlv'"
    using len "1.prems"(2) by simp
  have same: "slice i k tlv' = slice i k tlv" if "i + k \<le> value_start ix" for i k
    using "1.prems"(3) that by (rule slice_take_eq)
  have t': "extension_type_of (slice start 2 tlv') = Inr t" if "start + 4 \<le> value_start ix"
    using t same [of start 2] that by simp
  consider (found) "ix = ?ix" "t = ExtUninitialized \<and> init \<or> t \<noteq> ExtUninitialized \<and> t = v"
    | (skip) "t = ExtUninitialized" "\<not> init" "extension_indices v tlv init (start + 2) = Inr ix"
    | (step) "t \<noteq> ExtUninitialized" "t \<noteq> v" "get_account_type v = get_account_type t"
        "extension_indices v tlv init (start + 4 + tlv_length tlv ?ix) = Inr ix"
    using read by (auto split: if_splits)
  then show ?case
  proof cases
    case found
    then show ?thesis
      using t' len extension_indices_read [OF len' t', of v init] by auto
  next
    case skip
    have IH: "extension_indices v tlv' init (start + 2) = Inr ix \<and> start + 2 \<le> type_start ix
        \<and> value_start ix = type_start ix + 4 \<and> length_start ix = type_start ix + 2 \<and> value_start ix \<le> length tlv"
      using "1.IH"(1) [OF _ refl, of t] skip len t "1.prems" by simp
    then have "start + 4 \<le> value_start ix"
      by linarith
    then show ?thesis
      using IH skip extension_indices_read [OF len' t', of v init] by simp
  next
    case step
    have IH: "extension_indices v tlv' init (start + 4 + tlv_length tlv ?ix) = Inr ix
        \<and> start + 4 + tlv_length tlv ?ix \<le> type_start ix
        \<and> value_start ix = type_start ix + 4 \<and> length_start ix = type_start ix + 2 \<and> value_start ix \<le> length tlv"
      using "1.IH"(2) [OF _ refl, of t] step len t "1.prems" by simp
    then have le: "start + 4 \<le> value_start ix"
      by linarith
    then have "tlv_length tlv' ?ix = tlv_length tlv ?ix"
      using same [of "start + 2" 2] by (simp add: tlv_length_def)
    then show ?thesis
      using IH step extension_indices_read [OF len' t' [OF le], of v init] by simp
  qed
qed

lemma get_extension_mut_tlv:
  "tlv_data w = tlv_data w' \<Longrightarrow> get_extension_mut S V w = get_extension_mut S V w'"
  by (simp add: get_extension_mut_def cong: if_cong)

lemma get_extension_mut_write:
  assumes "pod_extension V" and "get_extension_mut S V w = Inr (pos, v)"
  shows "get_extension_mut S V (write_extension V pos x w) = Inr (pos, x)"
    and "length (tlv_data (write_extension V pos x w)) = length (tlv_data w)"
proof -
  have V: "length (ext_bytes V x) = ext_len V" "ext_value V (ext_bytes V x) = x"
    using assms(1) by (simp_all add: pod_extension_def)
  obtain ix where ty: "get_account_type (ext_type V) = base_type S"
    and ix: "extension_indices (ext_type V) (tlv_data w) False 0 = Inr ix" "pos = value_start ix"
    and room: "\<not> length (drop (type_start ix) (tlv_data w)) < get_tlv_len (ext_type V)"
    and range: "value_start ix + tlv_length (tlv_data w) ix \<le> length (tlv_data w)"
    and fits: "tlv_length (tlv_data w) ix = ext_len V"
    using assms(2)
    by (auto simp: get_extension_mut_def get_extension_indices_def rbind_Inr_iff value_range_def
        pod_from_bytes_def split: if_splits)
  let ?tlv = "patch pos (ext_bytes V x) (tlv_data w)"
  have len: "length ?tlv = length (tlv_data w)"
    using V(1) range fits ix(2) by simp
  then show "length (tlv_data (write_extension V pos x w)) = length (tlv_data w)"
    by (simp add: write_extension_def)
  have "take (value_start ix) ?tlv = take (value_start ix) (tlv_data w)"
    using range ix(2) by (simp add: patch_def)
  then have found: "extension_indices (ext_type V) ?tlv False 0 = Inr ix"
      and starts: "value_start ix = type_start ix + 4" "length_start ix = type_start ix + 2"
    using extension_indices_prefix [OF ix(1) len] by auto
  have "tlv_length ?tlv ix = ext_len V"
    using slice_patch_before [of "length_start ix" 2 pos "tlv_data w" "ext_bytes V x"] starts range fits ix(2)
    by (simp add: tlv_length_def)
  moreover have "slice pos (ext_len V) ?tlv = ext_bytes V x"
    using range fits V(1) ix(2) by simp
  ultimately show "get_extension_mut S V (write_extension V pos x w) = Inr (pos, x)"
    using ty found len room range fits ix(2) V
    by (simp add: get_extension_mut_def get_extension_indices_def value_range_def write_extension_def
        pod_from_bytes_def)
qed

lemma write_extension_parts [simp]:
  "ext_base (write_extension V pos v w) = ext_base w"
  "base_data (write_extension V pos v w) = base_data w"
  "padding (write_extension V pos v w) = padding w"
  "account_type (write_extension V pos v w) = account_type w"
  by (simp_all add: write_extension_def)

section \<open>The steps of the handlers\<close>

text \<open>The fees an account withholds.\<close>

definition fee_withheld :: "token_sdk \<Rightarrow> token_account ext_state \<Rightarrow> nat" where
  "fee_withheld K w =
     (case get_extension_mut (AccountS K) transfer_fee_amount_ext w of
        Inr (_, v) \<Rightarrow> unat (withheld_amount v) | Inl _ \<Rightarrow> 0)"

lemma fee_withheld_tlv: "tlv_data w = tlv_data w' \<Longrightarrow> fee_withheld K w = fee_withheld K w'"
  by (simp add: fee_withheld_def get_extension_mut_tlv [of w w'])

text \<open>What a debit leaves of the base state, whoever authorised it.\<close>

definition same_holding :: "token_account \<Rightarrow> token_account \<Rightarrow> bool" where
  "same_holding a b \<longleftrightarrow> acc_mint b = acc_mint a \<and> acc_owner b = acc_owner a \<and> amount b = amount a
     \<and> acc_state b = acc_state a \<and> is_native b = is_native a \<and> close_authority b = close_authority a
     \<and> (delegate b = delegate a \<or> delegate b = None)"

definition debit_key :: "token_account \<Rightarrow> info \<Rightarrow> pubkey" where
  "debit_key a authority =
     (if delegate a = Some (info_key authority) then info_key authority else acc_owner a)"

lemma credit_destination_effect:
  assumes "credit_destination K amt fee dst = Inr dst'"
  shows "fee \<le> amt"
    and "unat (amount (ext_base dst')) + unat fee = unat (amount (ext_base dst)) + unat amt"
    and "fee_withheld K dst' = fee_withheld K dst + unat fee"
    and "ext_base dst' = (ext_base dst)\<lparr>amount := amount (ext_base dst')\<rparr>"
    and "length (tlv_data dst') = length (tlv_data dst)"
    and "base_data dst' = base_data dst" and "padding dst' = padding dst"
    and "account_type dst' = account_type dst"
proof -
  let ?new = "amount (ext_base dst) + (amt - fee)"
  let ?mid = "dst\<lparr>ext_base := (ext_base dst)\<lparr>amount := ?new\<rparr>\<rparr>"
  have le: "fee \<le> amt" and fits: "unat (amount (ext_base dst)) + unat (amt - fee) < 2 ^ 64"
    using assms by (auto simp: credit_destination_def rbind_Inr_iff checked_simps)
  have new: "unat ?new + unat fee = unat (amount (ext_base dst)) + unat amt"
    using fits le by (simp add: unat_add_nowrap unat_sub_nowrap word_le_nat_alt)
  have "ext_base dst' = (ext_base dst)\<lparr>amount := ?new\<rparr> \<and> length (tlv_data dst') = length (tlv_data dst)
      \<and> base_data dst' = base_data dst \<and> padding dst' = padding dst \<and> account_type dst' = account_type dst
      \<and> fee_withheld K dst' = fee_withheld K dst + unat fee"
  proof (cases "0 < fee")
    case False
    then have "dst' = ?mid"
      using assms by (auto simp: credit_destination_def rbind_Inr_iff checked_simps Let_def)
    moreover have "fee = 0"
      using False by (simp add: word_gt_0)
    ultimately show ?thesis
      using fee_withheld_tlv [of ?mid dst K] by simp
  next
    case True
    then obtain pos v where ext: "get_extension_mut (AccountS K) transfer_fee_amount_ext ?mid = Inr (pos, v)"
      and fits: "unat (withheld_amount v) + unat fee < 2 ^ 64"
      and dst': "dst' = write_extension transfer_fee_amount_ext pos
          (v\<lparr>withheld_amount := withheld_amount v + fee\<rparr>) ?mid"
      using assms
      by (auto simp: credit_destination_def rbind_Inr_iff checked_simps Let_def ok_option_iffs split: option.splits)
    have "get_extension_mut (AccountS K) transfer_fee_amount_ext dst = Inr (pos, v)"
      using ext get_extension_mut_tlv [of ?mid dst "AccountS K" transfer_fee_amount_ext] by simp
    then have "fee_withheld K dst' = fee_withheld K dst + unat fee"
      using get_extension_mut_write(1) [OF fee_amount_ext.pod_extension_axioms ext,
          of "v\<lparr>withheld_amount := withheld_amount v + fee\<rparr>"] fits
      by (simp add: fee_withheld_def dst' unat_add_nowrap)
    then show ?thesis
      using get_extension_mut_write(2) [OF fee_amount_ext.pod_extension_axioms ext] by (simp add: dst')
  qed
  then show "fee \<le> amt"
    and "unat (amount (ext_base dst')) + unat fee = unat (amount (ext_base dst)) + unat amt"
    and "fee_withheld K dst' = fee_withheld K dst + unat fee"
    and "ext_base dst' = (ext_base dst)\<lparr>amount := amount (ext_base dst')\<rparr>"
    and "length (tlv_data dst') = length (tlv_data dst)"
    and "base_data dst' = base_data dst" and "padding dst' = padding dst"
    and "account_type dst' = account_type dst"
    using le new by simp_all
qed

context token_program
begin

lemma debit_authority_effect:
  assumes "debit_authority K held st program_id authority (data_len st authority) infos self amt a = Inr b"
  shows "same_holding a b \<and> authorised st program_id (debit_key a authority) authority infos
    \<and> (delegate a = Some (info_key authority) \<longrightarrow> amt \<le> delegated_amount a)"
  using assms validate_owner_authorised
  by (auto simp: debit_authority_def same_holding_def debit_key_def rbind_Inr_iff Let_def not_less
      split: if_splits) 

lemma repack_account:
  assumes "account_at K st k w" and "account_is_initialized b" and "length tlv = length (tlv_data w)"
    and "pack_base (AccountS K) (w\<lparr>ext_base := b, tlv_data := tlv\<rparr>) = Inr w'"
  shows "unpack_mut (AccountS K) (ext_state_data w') = Inr w'" and "ext_base w' = b" and "tlv_data w' = tlv"
  using base_contract.repack [OF account_contract assms(1) [unfolded account_at_def] _ assms(3), of b] assms(2,4)
  by (auto simp: account_base_def)

lemma repack_mint:
  assumes "mint_at K st k w" and "mint_is_initialized b" and "length tlv = length (tlv_data w)"
    and "pack_base (MintS K) (w\<lparr>ext_base := b, tlv_data := tlv\<rparr>) = Inr w'"
  shows "unpack_mut (MintS K) (ext_state_data w') = Inr w'" and "ext_base w' = b" and "tlv_data w' = tlv"
  using base_contract.repack [OF mint_contract assms(1) [unfolded mint_at_def] _ assms(3), of b] assms(2,4)
  by (auto simp: mint_base_def)

lemma store_base_account:
  assumes "store_base (AccountS K) a w base st = Inr st'" and "account_at K st (info_key a) w"
    and "account_is_initialized base"
  obtains w' where "account_at K st' (info_key a) w'" and "ext_base w' = base" and "tlv_data w' = tlv_data w"
    and "st' = put_data a (ext_state_data w') st"
  using assms repack_account [OF assms(2,3) refl]
  by (auto simp: store_base_def account_at_def rbind_Inr_iff)

lemma store_base_mint:
  assumes "store_base (MintS K) a w base st = Inr st'" and "mint_at K st (info_key a) w"
    and "mint_is_initialized base"
  obtains w' where "mint_at K st' (info_key a) w'" and "ext_base w' = base" and "tlv_data w' = tlv_data w"
    and "st' = put_data a (ext_state_data w') st"
  using assms repack_mint [OF assms(2,3) refl]
  by (auto simp: store_base_def mint_at_def rbind_Inr_iff)

lemma account_at_initialized: "account_at K st k w \<Longrightarrow> account_is_initialized (ext_base w)"
  using base_contract.unpack_initialized [OF account_contract]
  by (auto simp: account_at_def account_base_def)

lemma mint_at_initialized: "mint_at K st k w \<Longrightarrow> mint_is_initialized (ext_base w)"
  using base_contract.unpack_initialized [OF mint_contract]
  by (auto simp: mint_at_def mint_base_def)

lemma not_both_kinds: "account_at K st k w \<Longrightarrow> \<not> mint_at K st k v"
  using mint_tail(2) [OF mint_sdk] account_tail(2) [OF account_sdk]
  by (fastforce simp: account_at_def mint_at_def)

end

section \<open>Transfers\<close>

text \<open>\<open>amt\<close> tokens left \<open>s\<close> and arrived at \<open>d\<close>, \<open>fee\<close> of them as a withheld fee.\<close>

definition moved :: "token_sdk \<Rightarrow> pubkey \<Rightarrow> pubkey \<Rightarrow> nat \<Rightarrow> nat \<Rightarrow> store \<Rightarrow> store \<Rightarrow> bool" where
  "moved K s d amt fee st st' \<longleftrightarrow>
     (\<exists>src dst src' dst'.
        account_at K st s src \<and> account_at K st d dst \<and> account_at K st' s src' \<and> account_at K st' d dst'
      \<and> \<not> is_frozen (ext_base src) \<and> \<not> is_frozen (ext_base dst)
      \<and> acc_mint (ext_base dst) = acc_mint (ext_base src)
      \<and> same_holding (ext_base src) ((ext_base src')\<lparr>amount := amount (ext_base src)\<rparr>)
      \<and> ext_base dst' = (ext_base dst)\<lparr>amount := amount (ext_base dst')\<rparr>
      \<and> unat (amount (ext_base src)) = unat (amount (ext_base src')) + amt
      \<and> unat (amount (ext_base dst')) + fee = unat (amount (ext_base dst)) + amt \<and> fee \<le> amt
      \<and> fee_withheld K src' = fee_withheld K src \<and> fee_withheld K dst' = fee_withheld K dst + fee)
   \<and> cell_owner (st s) = token_2022_id \<and> cell_owner (st d) = token_2022_id
   \<and> unat (cell_lamports (st' s)) + unat (cell_lamports (st' d))
       = unat (cell_lamports (st s)) + unat (cell_lamports (st d))
   \<and> (\<forall>k. cell_owner (st' k) = cell_owner (st k)) \<and> (\<forall>k. k \<noteq> s \<longrightarrow> k \<noteq> d \<longrightarrow> st' k = st k)"

lemma move_lamports_effect:
  assumes "move_lamports s d amt st = Inr st'" and "info_key s \<noteq> info_key d"
  shows "unat (cell_lamports (st' (info_key s))) + unat (cell_lamports (st' (info_key d)))
       = unat (cell_lamports (st (info_key s))) + unat (cell_lamports (st (info_key d)))"
    and "cell_data (st' k) = cell_data (st k)" and "cell_owner (st' k) = cell_owner (st k)"
    and "k \<noteq> info_key s \<Longrightarrow> k \<noteq> info_key d \<Longrightarrow> st' k = st k"
  using assms
  by (auto simp: move_lamports_def rbind_Inr_iff checked_simps Let_def unat_add_nowrap unat_sub_nowrap
      word_le_nat_alt)

context token_program
begin

lemma settle_transfer_effect:
  assumes "settle_transfer K source destination amt fee src base st = Inr st'"
    and src: "account_at K st (info_key source) src" "\<not> is_frozen (ext_base src)"
    and base: "same_holding (ext_base src) base"
    and keys: "info_key source \<noteq> info_key destination"
    and owners: "cell_owner (st (info_key source)) = token_2022_id"
      "cell_owner (st (info_key destination)) = token_2022_id"
  shows "moved K (info_key source) (info_key destination) (unat amt) (unat fee) st st'"
proof -
  let ?s = "info_key source" and ?d = "info_key destination"
  obtain dst dst1 st1 src2 dst2 where dst: "account_at K st ?d dst" "\<not> is_frozen (ext_base dst)"
      "acc_mint base = acc_mint (ext_base dst)"
    and left: "amt \<le> amount base"
    and credit: "credit_destination K amt fee dst = Inr dst1"
    and lamports: "(if is_native_account (base\<lparr>amount := amount base - amt\<rparr>)
        then move_lamports source destination amt st else Inr st) = Inr st1"
    and packs: "pack_base (AccountS K) (src\<lparr>ext_base := base\<lparr>amount := amount base - amt\<rparr>\<rparr>) = Inr src2"
      "pack_base (AccountS K) dst1 = Inr dst2"
    and st': "st' = put_data destination (ext_state_data dst2) (put_data source (ext_state_data src2) st1)"
    using assms(1)
    by (auto simp: settle_transfer_def rbind_Inr_iff borrow_iffs account_at_def Let_def checked_simps
        split: if_splits)
  note c = credit_destination_effect [OF credit]
  have b: "acc_mint base = acc_mint (ext_base src)" "amount base = amount (ext_base src)"
      "acc_state base = acc_state (ext_base src)"
    using base by (auto simp: same_holding_def)
  have init: "account_is_initialized (base\<lparr>amount := amount base - amt\<rparr>)"
    using account_at_initialized [OF src(1)] b(3) by (simp add: account_is_initialized_def)
  have src2: "unpack_mut (AccountS K) (ext_state_data src2) = Inr src2"
      "ext_base src2 = base\<lparr>amount := amount base - amt\<rparr>" "tlv_data src2 = tlv_data src"
    using repack_account [OF src(1) init refl, of src2] packs(1) by simp_all
  have "account_is_initialized (ext_base dst1)"
    using account_at_initialized [OF dst(1)] by (subst c(4)) (simp add: account_is_initialized_def)
  moreover have "dst\<lparr>ext_base := ext_base dst1, tlv_data := tlv_data dst1\<rparr> = dst1"
    using c(6-8) by simp
  ultimately have dst2: "unpack_mut (AccountS K) (ext_state_data dst2) = Inr dst2"
      "ext_base dst2 = ext_base dst1" "tlv_data dst2 = tlv_data dst1"
    using repack_account [OF dst(1) _ c(5), of "ext_base dst1" dst2] packs(2) by simp_all
  have at: "account_at K st' ?s src2" "account_at K st' ?d dst2"
    using src2(1) dst2(1) keys by (simp_all add: account_at_def st')
  have withheld: "fee_withheld K src2 = fee_withheld K src" "fee_withheld K dst2 = fee_withheld K dst + unat fee"
    using fee_withheld_tlv [OF src2(3), of K] fee_withheld_tlv [OF dst2(3), of K] c(3) by simp_all
  have st1: "unat (cell_lamports (st1 ?s)) + unat (cell_lamports (st1 ?d))
      = unat (cell_lamports (st ?s)) + unat (cell_lamports (st ?d))"
      "cell_owner (st1 k) = cell_owner (st k)" "k \<noteq> ?s \<Longrightarrow> k \<noteq> ?d \<Longrightarrow> st1 k = st k" for k
    using lamports move_lamports_effect [OF _ keys, of amt st st1] by (auto split: if_splits)
  have mints: "acc_mint (ext_base dst) = acc_mint (ext_base src)"
      "same_holding (ext_base src) ((ext_base src2)\<lparr>amount := amount (ext_base src)\<rparr>)"
    using dst(3) base by (simp_all add: src2(2) same_holding_def)
  have credited: "ext_base dst2 = (ext_base dst)\<lparr>amount := amount (ext_base dst2)\<rparr>"
    using c(4) dst2(2) by simp
  have amounts: "unat (amount (ext_base src)) = unat (amount (ext_base src2)) + unat amt"
      "unat (amount (ext_base dst2)) + unat fee = unat (amount (ext_base dst)) + unat amt"
      "unat fee \<le> unat amt"
    using left c(1,2) b(2) by (simp_all add: src2(2) dst2(2) unat_sub_nowrap word_le_nat_alt)
  have accounts: "\<exists>src dst src' dst'.
        account_at K st ?s src \<and> account_at K st ?d dst \<and> account_at K st' ?s src' \<and> account_at K st' ?d dst'
      \<and> \<not> is_frozen (ext_base src) \<and> \<not> is_frozen (ext_base dst)
      \<and> acc_mint (ext_base dst) = acc_mint (ext_base src)
      \<and> same_holding (ext_base src) ((ext_base src')\<lparr>amount := amount (ext_base src)\<rparr>)
      \<and> ext_base dst' = (ext_base dst)\<lparr>amount := amount (ext_base dst')\<rparr>
      \<and> unat (amount (ext_base src)) = unat (amount (ext_base src')) + unat amt
      \<and> unat (amount (ext_base dst')) + unat fee = unat (amount (ext_base dst)) + unat amt \<and> unat fee \<le> unat amt
      \<and> fee_withheld K src' = fee_withheld K src \<and> fee_withheld K dst' = fee_withheld K dst + unat fee"
    using src dst at mints credited amounts withheld by blast
  have "st' k = st k" if "k \<noteq> ?s" "k \<noteq> ?d" for k
    using st1(3) [OF that] that by (simp add: st' put_data_def)
  then show ?thesis
    unfolding moved_def using accounts owners st1(1,2) by (simp add: st')
qed

text \<open>A whole transfer: who signed, which fee was due, and what moved.\<close>

lemma transfer_between_effect:
  assumes "transfer_between K program_id source m destination authority infos amt expected_fee st = Inr st'"
  obtains src fee where "account_at K st (info_key source) src" and "\<not> is_frozen (ext_base src)"
    and "transfer_fee_due K [info_key source] st m src amt = Inr fee"
    and "expected_fee \<in> {None, Some fee}"
    and "authorised st program_id (debit_key (ext_base src) authority) authority infos"
    and "delegate (ext_base src) = Some (info_key authority) \<longrightarrow> amt \<le> delegated_amount (ext_base src)"
    and "info_key source = info_key destination \<longrightarrow> st' = st"
    and "info_key source \<noteq> info_key destination \<longrightarrow>
      moved K (info_key source) (info_key destination) (unat amt) (unat fee) st st'"
proof -
  let ?self = "info_key source = info_key destination"
  obtain src fee base where src: "account_at K st (info_key source) src" "\<not> is_frozen (ext_base src)"
    and fee: "transfer_fee_due K [info_key source] st m src amt = Inr fee" "expected_fee \<in> {None, Some fee}"
    and debit: "debit_authority K [info_key source] st program_id authority (data_len st authority) infos
        ?self amt (ext_base src) = Inr base"
    and owners: "cell_owner (st (info_key source)) = token_2022_id"
        "cell_owner (st (info_key destination)) = token_2022_id"
    and self: "?self \<Longrightarrow> st' = st"
    and settle: "\<not> ?self \<Longrightarrow> settle_transfer K source destination amt fee src base st = Inr st'"
  proof (cases ?self)
    case True
    then show ?thesis
      using assms that
      by (auto simp: transfer_between_def rbind_Inr_iff borrow_iffs Let_def account_at_def info_owner_def
          split: if_splits)
  next
    case False
    then show ?thesis
      using assms that
      by (auto simp: transfer_between_def rbind_Inr_iff borrow_iffs Let_def account_at_def info_owner_def
          split: if_splits)
  qed
  have base: "same_holding (ext_base src) base"
      "authorised st program_id (debit_key (ext_base src) authority) authority infos"
      "delegate (ext_base src) = Some (info_key authority) \<longrightarrow> amt \<le> delegated_amount (ext_base src)"
    using debit_authority_effect [OF debit] by simp_all
  have "moved K (info_key source) (info_key destination) (unat amt) (unat fee) st st'" if "\<not> ?self"
    by (rule settle_transfer_effect [OF settle [OF that] src base(1) that owners])
  then show ?thesis
    using that src fee base(2,3) self by blast
qed

end

end
