(* ===== verification/Token_Frame.thy ===== *)
theory Token_Frame
  imports Token_Ledger
begin

text \<open>
  What a write leaves alone.  Writing one extension in place keeps every other extension as it
  reads, and keeps the account an account and the mint a mint.
\<close>

section \<open>Other extensions\<close>

lemma slice_drop_eq: "drop s xs = drop s ys \<Longrightarrow> s \<le> i \<Longrightarrow> slice i n xs = slice i n ys"
  unfolding slice_def by (metis drop_drop le_add_diff_inverse2)

text \<open>The search from \<open>start\<close> on does not read what is in front of it.\<close>

lemma extension_indices_suffix:
  assumes "drop s tlv' = drop s tlv" and "length tlv' = length tlv" and "s \<le> start"
  shows "extension_indices v tlv' init start = extension_indices v tlv init start"
  using assms
proof (induction v tlv init start rule: extension_indices.induct)
  case (1 v tlv init start)
  have same: "slice i n tlv' = slice i n tlv" if "start \<le> i" for i n
    using slice_drop_eq [OF "1.prems"(1)] "1.prems"(3) that by simp
  then have len: "tlv_length tlv' (get_tlv_indices start) = tlv_length tlv (get_tlv_indices start)"
    by (simp add: tlv_length_def)
  show ?case
  proof (cases "start + 4 \<le> length tlv")
    case False
    then show ?thesis
      using "1.prems"(2) by (subst (1 2) extension_indices.simps) (simp add: Let_def)
  next
    case True
    note IH = "1.IH" [OF _ refl]
    show ?thesis
    proof (cases "extension_type_of (slice start 2 tlv)")
      case (Inl e)
      then show ?thesis
        using True "1.prems"(2) same by (subst (1 2) extension_indices.simps) (simp add: Let_def)
    next
      case (Inr t)
      then have "extension_type_of (slice start 2 tlv') = Inr t"
        using same by simp
      moreover have "extension_indices v tlv' init (start + 2) = extension_indices v tlv init (start + 2)"
        if "t = ExtUninitialized" "\<not> init"
        using IH(1) [of t] that Inr True "1.prems" by simp
      moreover have "extension_indices v tlv' init (start + 4 + tlv_length tlv (get_tlv_indices start))
          = extension_indices v tlv init (start + 4 + tlv_length tlv (get_tlv_indices start))"
        if "t \<noteq> ExtUninitialized" "t \<noteq> v" "get_account_type v = get_account_type t"
        using IH(2) [of t] that Inr True "1.prems" by simp
      ultimately show ?thesis
        using True Inr "1.prems"(2) len
        by (simp add: extension_indices_read cong: if_cong)
    qed
  qed
qed

text \<open>
  The search for \<open>v\<close> is not disturbed by overwriting the value of another entry \<open>u\<close>, and the
  entry it finds does not overlap that value.
\<close>

lemma extension_indices_frame:
  assumes "extension_indices u tlv False start = Inr ix" and "u \<noteq> v" and "u \<noteq> ExtUninitialized"
    and "length b = tlv_length tlv ix" and "value_start ix + length b \<le> length tlv"
  shows "extension_indices v (patch (value_start ix) b tlv) False start = extension_indices v tlv False start
    \<and> (\<forall>ix'. extension_indices v tlv False start = Inr ix' \<longrightarrow>
         value_start ix' + tlv_length tlv ix' \<le> type_start ix \<or> value_start ix + length b \<le> type_start ix')"
  using assms
proof (induction u tlv "False" start rule: extension_indices.induct)
  case (1 u tlv start)
  let ?ix = "get_tlv_indices start" and ?tlv = "patch (value_start ix) b tlv"
  have len': "length ?tlv = length tlv"
    using "1.prems"(5) by simp
  obtain t where len: "start + 4 \<le> length tlv" and t: "extension_type_of (slice start 2 tlv) = Inr t"
    using extension_indices_InrD [OF "1.prems"(1)] .
  have read: "extension_indices x tlv False start =
      (if t = ExtUninitialized then extension_indices x tlv False (start + 2)
       else if t = x then Inr ?ix
       else if get_account_type x \<noteq> get_account_type t then Inl (Token ExtensionTypeMismatch)
       else extension_indices x tlv False (start + 4 + tlv_length tlv ?ix))" for x
    using extension_indices_read [OF len t, of x False] by simp
  have self: "start \<le> type_start ix" "value_start ix = type_start ix + 4"
    using extension_indices_prefix [OF "1.prems"(1) refl refl] by auto
  have before: "slice i n ?tlv = slice i n tlv" if "i + n \<le> value_start ix" for i n
    using that "1.prems"(5) by (intro slice_patch_before) auto
  have t': "extension_type_of (slice start 2 ?tlv) = Inr t"
    using t before [of start 2] self by simp
  have ixlen: "tlv_length ?tlv ?ix = tlv_length tlv ?ix"
    using before [of "start + 2" 2] self by (simp add: tlv_length_def)
  have start4: "start + 4 \<le> length ?tlv"
    using len len' by simp
  have read': "extension_indices x ?tlv False start =
      (if t = ExtUninitialized then extension_indices x ?tlv False (start + 2)
       else if t = x then Inr ?ix
       else if get_account_type x \<noteq> get_account_type t then Inl (Token ExtensionTypeMismatch)
       else extension_indices x ?tlv False (start + 4 + tlv_length tlv ?ix))" for x
    using extension_indices_read [OF start4 t', of x False] ixlen by simp
  consider (found) "t = u" | (skip) "t = ExtUninitialized"
    | (step) "t \<noteq> u" "t \<noteq> ExtUninitialized" "get_account_type u = get_account_type t"
    using "1.prems"(1) unfolding read [of u] by (auto split: if_splits)
  then show ?case
  proof cases
    case found
    then have ix: "ix = ?ix"
      using "1.prems"(1,3) unfolding read [of u] by simp
    let ?next = "start + 4 + tlv_length tlv ?ix"
    have "drop ?next ?tlv = drop ?next tlv"
      using "1.prems"(4,5) by (simp add: ix patch_def)
    then have same: "extension_indices v ?tlv False ?next = extension_indices v tlv False ?next"
      using len' by (intro extension_indices_suffix) auto
    have "?next \<le> type_start ix'" if "extension_indices v tlv False ?next = Inr ix'" for ix'
      using extension_indices_prefix [OF that refl refl] by simp
    then show ?thesis
      using found "1.prems"(2-4) same unfolding read [of v] read' [of v] by (auto simp: ix)
  next
    case skip
    then have "extension_indices u tlv False (start + 2) = Inr ix"
      using "1.prems"(1,3) unfolding read [of u] by simp
    then show ?thesis
      using "1.hyps"(1) [OF _ refl, of t] skip len t "1.prems"(2-) unfolding read [of v] read' [of v]
      by simp
  next
    case step
    let ?next = "start + 4 + tlv_length tlv ?ix"
    have scan: "extension_indices u tlv False ?next = Inr ix"
      using "1.prems"(1) step unfolding read [of u] by simp
    then have "?next \<le> type_start ix"
      using extension_indices_prefix [OF scan refl refl] by simp
    moreover have "extension_indices v ?tlv False ?next = extension_indices v tlv False ?next
      \<and> (\<forall>ix'. extension_indices v tlv False ?next = Inr ix' \<longrightarrow>
           value_start ix' + tlv_length tlv ix' \<le> type_start ix \<or> value_start ix + length b \<le> type_start ix')"
      using "1.hyps"(2) [OF _ refl, of t] step len t scan "1.prems"(2-) by simp
    ultimately show ?thesis
      using step unfolding read [of v] read' [of v] by auto
  qed
qed

lemma get_extension_mut_found:
  assumes "pod_extension V" and "get_extension_mut S V w = Inr (pos, v)"
  obtains ix where "extension_indices (ext_type V) (tlv_data w) False 0 = Inr ix" and "pos = value_start ix"
    and "value_start ix = type_start ix + 4" and "tlv_length (tlv_data w) ix = ext_len V"
    and "value_start ix + ext_len V \<le> length (tlv_data w)" and "get_account_type (ext_type V) = base_type S"
proof -
  obtain ix where ix: "extension_indices (ext_type V) (tlv_data w) False 0 = Inr ix" "pos = value_start ix"
      "value_start ix + tlv_length (tlv_data w) ix \<le> length (tlv_data w)"
      "tlv_length (tlv_data w) ix = ext_len V" "get_account_type (ext_type V) = base_type S"
    using assms(2)
    by (auto simp: get_extension_mut_def get_extension_indices_def rbind_Inr_iff value_range_def
        pod_from_bytes_def split: if_splits)
  then show ?thesis
    using that extension_indices_prefix [OF ix(1) refl refl] by auto
qed

lemma get_extension_mut_frame:
  assumes U: "pod_extension U" "get_extension_mut S U w = Inr (pos, x)"
    and other: "ext_type V \<noteq> ext_type U"
  shows "get_extension_mut S V (write_extension U pos y w) = get_extension_mut S V w"
proof -
  obtain ix where ix: "extension_indices (ext_type U) (tlv_data w) False 0 = Inr ix" "pos = value_start ix"
    and start: "value_start ix = type_start ix + 4" and ulen: "tlv_length (tlv_data w) ix = ext_len U"
    and room: "value_start ix + ext_len U \<le> length (tlv_data w)"
    using get_extension_mut_found [OF U] by blast
  have bytes: "length (ext_bytes U y) = ext_len U" and "ext_type U \<noteq> ExtUninitialized"
    using U(1) by (simp_all add: pod_extension_def)
  let ?tlv = "patch pos (ext_bytes U y) (tlv_data w)"
  have len: "length ?tlv = length (tlv_data w)"
    using bytes room ix(2) by simp
  note frame = extension_indices_frame [OF ix(1) other [symmetric] \<open>ext_type U \<noteq> ExtUninitialized\<close>,
      of "ext_bytes U y", folded ix(2)]
  have found: "extension_indices (ext_type V) ?tlv False 0 = extension_indices (ext_type V) (tlv_data w) False 0"
    using frame bytes ulen room ix(2) by simp
  have range: "value_range ?tlv ix' = value_range (tlv_data w) ix'"
    if v: "extension_indices (ext_type V) (tlv_data w) False 0 = Inr ix'" for ix'
  proof -
    have apart: "value_start ix' + tlv_length (tlv_data w) ix' \<le> type_start ix \<or> pos + ext_len U \<le> type_start ix'"
      using frame v bytes ulen room ix(2) by auto
    have v': "value_start ix' = type_start ix' + 4" "length_start ix' = type_start ix' + 2"
      using extension_indices_prefix [OF v refl refl] by auto
    have same: "slice i n ?tlv = slice i n (tlv_data w)"
      if "i + n \<le> pos \<or> pos + ext_len U \<le> i" for i n
      using that slice_patch_before [of i n pos "tlv_data w"] slice_patch_after [of pos "ext_bytes U y" i]
        bytes room ix(2)
      by auto
    have "tlv_length ?tlv ix' = tlv_length (tlv_data w) ix'"
      using same [of "length_start ix'" 2] apart v' start ix(2) by (auto simp: tlv_length_def)
    moreover have "slice (value_start ix') (tlv_length (tlv_data w) ix') ?tlv
        = slice (value_start ix') (tlv_length (tlv_data w) ix') (tlv_data w)"
      using same apart v' start ix(2) by auto
    ultimately show ?thesis
      using len by (simp add: value_range_def)
  qed
  then show ?thesis
    using found len
    by (cases "extension_indices (ext_type V) (tlv_data w) False 0")
      (simp_all add: get_extension_mut_def get_extension_indices_def write_extension_def lift_err_def
        cong: if_cong)
qed

section \<open>The kind of an account\<close>

context base_contract
begin

lemma unpack_tlv:
  assumes "unpack_mut S d = Inr w" and "length tlv = length (tlv_data w)"
  shows "unpack_mut S (ext_state_data (w\<lparr>tlv_data := tlv\<rparr>)) = Inr (w\<lparr>tlv_data := tlv\<rparr>)"
proof -
  note p = parts [OF assms(1)]
  have "tail_ok S (padding w) (account_type w) tlv"
    using p(6) assms(2) by (auto simp: tail_ok_def)
  moreover have "length (base_data w @ padding w @ account_type w @ tlv) = length d"
    using p(2) assms(2) by (auto simp: ext_state_data_def)
  ultimately show ?thesis
    using unpack_mut_join [OF sdk p(3-5), of "padding w" "account_type w" tlv] p(1)
    by (simp add: ext_state_data_def)
qed

lemma unpack_written:
  assumes "unpack_mut S d = Inr w" and "pod_extension V" and "get_extension_mut S V w = Inr (pos, v)"
  shows "unpack_mut S (ext_state_data (write_extension V pos x w)) = Inr (write_extension V pos x w)"
  using unpack_tlv [OF assms(1)] get_extension_mut_write(2) [OF assms(2,3), of x]
  by (simp add: write_extension_def)

end

end
