(* ===== verification/Token_Initialize.thy ===== *)
theory Token_Initialize
  imports Token_Processor
begin

text \<open>
  The handlers of \<open>spl_token_2022/processor.rs\<close> that create state: mints, token accounts,
  multisignatures and the extensions initialised on their own, with \<open>GetAccountDataSize\<close>,
  \<open>CreateNativeMint\<close> and \<open>Reallocate\<close> (\<open>extension/reallocate.rs\<close>).
\<close>

section \<open>Rent\<close>

definition get_rent :: "token_sdk \<Rightarrow> bool \<Rightarrow> info list \<Rightarrow> (rent \<times> info list) token_res" where
  "get_rent K rent_sysvar_account accounts =
     (if rent_sysvar_account then
        rbind (next_account_info accounts) (\<lambda>(r, rest).
        rbind (lift_err (rent_from_account K (info_key r))) (\<lambda>rent. Inr (rent, rest)))
      else rbind (lift_err (rent_get K)) (\<lambda>rent. Inr (rent, accounts)))"

section \<open>Mints\<close>

definition check_default_state ::
  "token_sdk \<Rightarrow> pubkey option \<Rightarrow> mint ext_state \<Rightarrow> unit token_res" where
  "check_default_state K freeze w =
     rbind (ok_option (get_extension_mut (MintS K) default_account_state_ext w)) (\<lambda>e.
     case e of
       None \<Rightarrow> Inr ()
     | Some (_, v) \<Rightarrow>
         rbind (lift_err (account_state_of (default_state v))) (\<lambda>s.
         if s = Frozen \<and> freeze = None then err (Token MintCannotFreeze) else Inr ()))"

definition process_initialize_mint ::
  "token_sdk \<Rightarrow> info list \<Rightarrow> u8 \<Rightarrow> pubkey \<Rightarrow> pubkey option \<Rightarrow> bool \<Rightarrow> store \<Rightarrow> store token_res" where
  "process_initialize_mint K accounts dec authority freeze rent_sysvar_account st =
     rbind (next_account_info accounts) (\<lambda>(mint_info, rest).
     let mint_data_len = data_len st mint_info in
     rbind (borrow_data [] st mint_info) (\<lambda>d.
     rbind (get_rent K rent_sysvar_account rest) (\<lambda>(rent, _).
     if \<not> is_exempt rent (cell_lamports (st (info_key mint_info))) mint_data_len
       then err (Token NotRentExempt)
     else
     rbind (unpack_uninitialized (MintS K) d) (\<lambda>w.
     if mint_is_initialized (ext_base w) then err (Token AlreadyInUse)
     else
     rbind (lift_err (get_extension_types (tlv_data w))) (\<lambda>types.
     if get_account_len 82 types \<noteq> mint_data_len then err InvalidAccountData
     else
     rbind (check_default_state K freeze w) (\<lambda>_.
     rbind (pack_base (MintS K)
              (w\<lparr>ext_base := (ext_base w)\<lparr>mint_authority := Some authority, decimals := dec,
                   mint_is_initialized := True, freeze_authority := freeze\<rparr>\<rparr>)) (\<lambda>w.
     rbind (init_account_type (MintS K) w) (\<lambda>w.
     Inr (put_data mint_info (ext_state_data w) st)))))))))"

section \<open>Token accounts\<close>

definition required_account_extensions ::
  "pubkey \<Rightarrow> mint state_view \<Rightarrow> extension_type list token_res" where
  "required_account_extensions token_program_id v =
     rbind (check_program_account token_program_id) (\<lambda>_.
     rbind (lift_err (get_extension_types (view_tlv v))) (\<lambda>types.
     Inr (get_required_init_account_extensions types)))"

definition unpack_valid_mint :: "token_sdk \<Rightarrow> bytes \<Rightarrow> mint state_view token_res" where
  "unpack_valid_mint K d =
     (case unpack_state (MintS K) d of
        Inl (Err _) \<Rightarrow> err (Token InvalidMint) | Inl Panic \<Rightarrow> Inl Panic | Inr v \<Rightarrow> Inr v)"

fun init_account_extensions ::
  "token_sdk \<Rightarrow> extension_type list \<Rightarrow> token_account ext_state \<Rightarrow> token_account ext_state token_res" where
  "init_account_extensions K [] w = Inr w"
| "init_account_extensions K (t # ts) w =
     rbind (init_account_extension_from_type (AccountS K) t w) (\<lambda>w. init_account_extensions K ts w)"

definition starting_state :: "token_sdk \<Rightarrow> mint state_view \<Rightarrow> account_state token_res" where
  "starting_state K v =
     rbind (ok_option (get_extension (MintS K) default_account_state_ext (view_tlv v))) (\<lambda>e.
     case e of
       Some s \<Rightarrow> lift_err (account_state_of (default_state s))
     | None \<Rightarrow> Inr Initialized)"

text \<open>The native part of a fresh account: its reserve and the lamports above it.\<close>

definition starting_amount ::
  "pubkey \<Rightarrow> rent \<Rightarrow> u64 \<Rightarrow> nat \<Rightarrow> (u64 option \<times> u64) token_res" where
  "starting_amount mint_key rent lamports data_length =
     (if mint_key = native_mint_id then
        (let reserve = minimum_balance rent data_length in
         rbind (overflow_checked (checked_sub lamports reserve)) (\<lambda>amt. Inr (Some reserve, amt)))
      else Inr (None, 0))"

definition process_initialize_account ::
  "token_sdk \<Rightarrow> info list \<Rightarrow> pubkey option \<Rightarrow> bool \<Rightarrow> store \<Rightarrow> store token_res" where
  "process_initialize_account K accounts owner rent_sysvar_account st =
     rbind (next_account_info accounts) (\<lambda>(new_account, rest).
     rbind (next_account_info rest) (\<lambda>(mint_info, rest).
     rbind (case owner of
              Some k \<Rightarrow> Inr (k, rest)
            | None \<Rightarrow> rbind (next_account_info rest) (\<lambda>(owner_info, rest). Inr (info_key owner_info, rest))) (\<lambda>(owner, rest).
     let new_data_len = data_len st new_account in
     rbind (get_rent K rent_sysvar_account rest) (\<lambda>(rent, _).
     rbind (borrow_data [] st new_account) (\<lambda>d.
     rbind (unpack_uninitialized (AccountS K) d) (\<lambda>w.
     if \<not> is_exempt rent (cell_lamports (st (info_key new_account))) new_data_len
       then err (Token NotRentExempt)
     else
     rbind (borrow_data [info_key new_account] st mint_info) (\<lambda>mint_data.
     rbind (unpack_valid_mint K mint_data) (\<lambda>mint.
     rbind (required_account_extensions (info_owner st mint_info) mint) (\<lambda>required.
     if new_data_len < get_account_len 165 required then err InvalidAccountData
     else
     rbind (init_account_extensions K required w) (\<lambda>w.
     rbind (starting_state K mint) (\<lambda>state.
     rbind (starting_amount (info_key mint_info) rent (cell_lamports (st (info_key new_account))) new_data_len)
       (\<lambda>(native, amt).
     rbind (pack_base (AccountS K)
              (w\<lparr>ext_base := (ext_base w)\<lparr>acc_mint := info_key mint_info, acc_owner := owner,
                   close_authority := None, delegate := None, delegated_amount := 0,
                   acc_state := state, is_native := native, amount := amt\<rparr>\<rparr>)) (\<lambda>w.
     rbind (init_account_type (AccountS K) w) (\<lambda>w.
     Inr (put_data new_account (ext_state_data w) st)))))))))))))))"

section \<open>Multisignatures\<close>

definition process_initialize_multisig ::
  "token_sdk \<Rightarrow> info list \<Rightarrow> u8 \<Rightarrow> bool \<Rightarrow> store \<Rightarrow> store token_res" where
  "process_initialize_multisig K accounts m rent_sysvar_account st =
     rbind (next_account_info accounts) (\<lambda>(multisig_info, rest).
     let multisig_data_len = data_len st multisig_info in
     rbind (get_rent K rent_sysvar_account rest) (\<lambda>(rent, signer_infos).
     rbind (borrow_data [] st multisig_info) (\<lambda>d.
     rbind (unpack_unchecked (multisig_fns K) d) (\<lambda>ms.
     if multisig_is_initialized ms then err (Token AlreadyInUse)
     else if \<not> is_exempt rent (cell_lamports (st (info_key multisig_info))) multisig_data_len
       then err (Token NotRentExempt)
     else
     let n = of_nat (length signer_infos) in
     if \<not> is_valid_signer_index (unat n) then err (Token InvalidNumberOfProvidedSigners)
     else if \<not> is_valid_signer_index (unat m) then err (Token InvalidNumberOfRequiredSigners)
     else if length (signers ms) < length signer_infos then Inl Panic
     else
     rbind (pack_checked (multisig_fns K)
              (ms\<lparr>required_signers := m, valid_signers := n,
                 signers := map info_key signer_infos @ drop (length signer_infos) (signers ms),
                 multisig_is_initialized := True\<rparr>) d) (\<lambda>d.
     Inr (put_data multisig_info d st))))))"

section \<open>Extensions initialised before their account\<close>

text \<open>
  The common shape of these handlers: unpack the uninitialised account, initialise the
  extension and fill it in.  \<open>fill\<close> is the code after \<open>init_extension\<close>.
\<close>

definition initialize_extension ::
  "'s base_state \<Rightarrow> 'v extension \<Rightarrow> ('v \<Rightarrow> 'v token_res) \<Rightarrow> info list \<Rightarrow> store \<Rightarrow> store token_res" where
  "initialize_extension S V fill accounts st =
     rbind (next_account_info accounts) (\<lambda>(account_info, _).
     rbind (borrow_data [] st account_info) (\<lambda>d.
     rbind (unpack_uninitialized S d) (\<lambda>w.
     rbind (init_extension S V True w) (\<lambda>(w, pos).
     rbind (fill (ext_default V)) (\<lambda>v.
     Inr (put_data account_info (ext_state_data (write_extension V pos v w)) st))))))"

definition process_initialize_mint_close_authority ::
  "token_sdk \<Rightarrow> info list \<Rightarrow> pubkey option \<Rightarrow> store \<Rightarrow> store token_res" where
  "process_initialize_mint_close_authority K accounts close st =
     initialize_extension (MintS K) mint_close_authority_ext
       (\<lambda>v. rbind (lift_err (optional_key_of close)) (\<lambda>k. Inr (v\<lparr>mint_close_key := k\<rparr>))) accounts st"

definition process_initialize_immutable_owner :: "token_sdk \<Rightarrow> info list \<Rightarrow> store \<Rightarrow> store token_res" where
  "process_initialize_immutable_owner K accounts st =
     initialize_extension (AccountS K) immutable_owner_ext Inr accounts st"

definition process_initialize_non_transferable_mint :: "token_sdk \<Rightarrow> info list \<Rightarrow> store \<Rightarrow> store token_res" where
  "process_initialize_non_transferable_mint K accounts st =
     initialize_extension (MintS K) non_transferable_ext Inr accounts st"

definition process_get_account_data_size ::
  "token_sdk \<Rightarrow> info list \<Rightarrow> extension_type list \<Rightarrow> store \<Rightarrow> bytes token_res" where
  "process_get_account_data_size K accounts new_types st =
     rbind (next_account_info accounts) (\<lambda>(mint_info, _).
     rbind (borrow_data [] st mint_info) (\<lambda>d.
     rbind (unpack_valid_mint K d) (\<lambda>mint.
     rbind (required_account_extensions (info_owner st mint_info) mint) (\<lambda>types.
     Inr (u64_bytes (of_nat (get_account_len 165 (types @ new_types))))))))"

section \<open>Calls into the System program\<close>

definition native_mint_state :: mint where
  "native_mint_state = \<lparr>mint_authority = None, mint_supply = 0, decimals = 9,
     mint_is_initialized = True, freeze_authority = None\<rparr>"

definition process_create_native_mint :: "token_sdk \<Rightarrow> info list \<Rightarrow> store \<Rightarrow> store token_res" where
  "process_create_native_mint K accounts st =
     rbind (next_account_info accounts) (\<lambda>(payer, rest).
     rbind (next_account_info rest) (\<lambda>(native_mint, rest).
     rbind (next_account_info rest) (\<lambda>_.
     if info_key native_mint \<noteq> native_mint_id then err (Token InvalidMint)
     else
     rbind (lift_err (rent_get K)) (\<lambda>rent.
     let lamports_diff = saturating_sub (minimum_balance rent 82) (cell_lamports (st (info_key native_mint))) in
     rbind (lift_err (invoke_transfer K payer native_mint lamports_diff st)) (\<lambda>st.
     rbind (lift_err (invoke_allocate K native_mint 82 st)) (\<lambda>st.
     rbind (lift_err (invoke_assign K native_mint token_2022_id st)) (\<lambda>st.
     rbind (borrow_data [] st native_mint) (\<lambda>d.
     rbind (pack_checked (mint_fns K) native_mint_state d) (\<lambda>d.
     Inr (put_data native_mint d st))))))))))"

definition process_reallocate ::
  "token_sdk \<Rightarrow> pubkey \<Rightarrow> info list \<Rightarrow> extension_type list \<Rightarrow> store \<Rightarrow> store token_res" where
  "process_reallocate K program_id accounts new_types st =
     rbind (next_account_info accounts) (\<lambda>(token_account, rest).
     rbind (next_account_info rest) (\<lambda>(payer, rest).
     rbind (next_account_info rest) (\<lambda>(_, rest).
     rbind (next_account_info rest) (\<lambda>(authority, signer_infos).
     let authority_len = data_len st authority in
     rbind (borrow_data [] st token_account) (\<lambda>d.
     rbind (unpack_state (AccountS K) d) (\<lambda>v.
     rbind (validate_owner K [] st program_id (acc_owner (view_base v)) authority authority_len signer_infos) (\<lambda>_.
     rbind (lift_err (get_extension_types (view_tlv v))) (\<lambda>current.
     if list_ex (\<lambda>t. get_account_type t \<noteq> AccountType) new_types then err (Token InvalidState)
     else
     let needed = get_account_len 165 (current @ new_types) in
     if needed \<le> length d then Inr st
     else
     rbind (lift_err (realloc_data K d needed)) (\<lambda>d.
     let st = put_data token_account d st in
     rbind (lift_err (rent_get K)) (\<lambda>rent.
     let lamports_diff = saturating_sub (minimum_balance rent needed) (cell_lamports (st (info_key token_account))) in
     rbind (lift_err (invoke_transfer K payer token_account lamports_diff st)) (\<lambda>st.
     rbind (borrow_data [] st token_account) (\<lambda>d.
     rbind (lift_err (set_account_type (AccountS K) d)) (\<lambda>d.
     Inr (put_data token_account d st))))))))))))))"

end
