(* ===== verification/Token_Withheld.thy ===== *)
theory Token_Withheld
  imports Token_Initialize
begin

text \<open>
  The handlers of the fee extension (\<open>spl_token_2022/extension/transfer_fee/processor.rs\<close>):
  configuring a fee, changing it with two epochs' notice, and bringing withheld fees home,
  from accounts to the mint (harvest) and from the mint or accounts to a destination
  (withdraw).  \<open>harvest_from_account\<close> reports its errors to its caller, which skips the account.
\<close>

section \<open>Configuring the fee\<close>

definition process_initialize_transfer_fee_config ::
  "token_sdk \<Rightarrow> info list \<Rightarrow> pubkey option \<Rightarrow> pubkey option \<Rightarrow> u16 \<Rightarrow> u64 \<Rightarrow> store \<Rightarrow> store token_res" where
  "process_initialize_transfer_fee_config K accounts config_authority withdraw_authority points max_fee st =
     initialize_extension (MintS K) transfer_fee_config_ext
       (\<lambda>c. rbind (lift_err (optional_key_of config_authority)) (\<lambda>ck.
            rbind (lift_err (optional_key_of withdraw_authority)) (\<lambda>wk.
            if MAX_FEE_BASIS_POINTS < points then err (Token TransferFeeExceedsMaximum)
            else
            rbind (lift_err (clock_get K)) (\<lambda>clock.
            let fee = \<lparr>fee_epoch = clock_epoch clock, maximum_fee = max_fee, fee_basis_points = points\<rparr> in
            Inr (c\<lparr>transfer_fee_config_authority := ck, withdraw_withheld_authority := wk,
                   mint_withheld_amount := 0, older_transfer_fee := fee, newer_transfer_fee := fee\<rparr>)))))
       accounts st"

text \<open>The new fee starts two epochs later; an older fee that never took effect is dropped.\<close>

definition schedule_transfer_fee :: "u64 \<Rightarrow> u16 \<Rightarrow> u64 \<Rightarrow> transfer_fee_config \<Rightarrow> transfer_fee_config" where
  "schedule_transfer_fee epoch points max_fee c =
     (let c = (if fee_epoch (newer_transfer_fee c) \<le> epoch
               then c\<lparr>older_transfer_fee := newer_transfer_fee c\<rparr> else c)
      in c\<lparr>newer_transfer_fee := \<lparr>fee_epoch = saturating_add epoch 2, maximum_fee = max_fee,
             fee_basis_points = points\<rparr>\<rparr>)"

definition process_set_transfer_fee ::
  "token_sdk \<Rightarrow> pubkey \<Rightarrow> info list \<Rightarrow> u16 \<Rightarrow> u64 \<Rightarrow> store \<Rightarrow> store token_res" where
  "process_set_transfer_fee K program_id accounts points max_fee st =
     rbind (next_account_info accounts) (\<lambda>(mint_info, rest).
     rbind (next_account_info rest) (\<lambda>(authority, signer_infos).
     let authority_len = data_len st authority in
     rbind (borrow_data [] st mint_info) (\<lambda>d.
     rbind (unpack_mut (MintS K) d) (\<lambda>w.
     rbind (get_extension_mut (MintS K) transfer_fee_config_ext w) (\<lambda>(pos, c).
     rbind (ok_or (optional_key_value (transfer_fee_config_authority c)) (Err (Token NoAuthorityExists))) (\<lambda>k.
     rbind (validate_owner K [info_key mint_info] st program_id k authority authority_len signer_infos) (\<lambda>_.
     if MAX_FEE_BASIS_POINTS < points then err (Token TransferFeeExceedsMaximum)
     else
     rbind (lift_err (clock_get K)) (\<lambda>clock.
     Inr (put_data mint_info
           (ext_state_data (write_extension transfer_fee_config_ext pos
              (schedule_transfer_fee (clock_epoch clock) points max_fee c) w)) st)))))))))"

section \<open>Bringing withheld fees home\<close>

text \<open>The destination of a withdrawal: an account of this mint that is not frozen.\<close>

definition withdraw_destination ::
  "token_sdk \<Rightarrow> pubkey list \<Rightarrow> info \<Rightarrow> info \<Rightarrow> store \<Rightarrow> token_account ext_state token_res" where
  "withdraw_destination K held mint_info destination st =
     rbind (borrow_data held st destination) (\<lambda>d.
     rbind (unpack_mut (AccountS K) d) (\<lambda>dst.
     if acc_mint (ext_base dst) \<noteq> info_key mint_info then err (Token MintMismatch)
     else if is_frozen (ext_base dst) then err (Token AccountFrozen)
     else Inr dst))"

definition process_withdraw_withheld_tokens_from_mint ::
  "token_sdk \<Rightarrow> pubkey \<Rightarrow> info list \<Rightarrow> store \<Rightarrow> store token_res" where
  "process_withdraw_withheld_tokens_from_mint K program_id accounts st =
     rbind (next_account_info accounts) (\<lambda>(mint_info, rest).
     rbind (next_account_info rest) (\<lambda>(destination, rest).
     rbind (next_account_info rest) (\<lambda>(authority, signer_infos).
     let authority_len = data_len st authority; held = [info_key mint_info] in
     rbind (borrow_data [] st mint_info) (\<lambda>d.
     rbind (unpack_mut (MintS K) d) (\<lambda>w.
     rbind (get_extension_mut (MintS K) transfer_fee_config_ext w) (\<lambda>(pos, c).
     rbind (ok_or (optional_key_value (withdraw_withheld_authority c)) (Err (Token NoAuthorityExists))) (\<lambda>k.
     rbind (validate_owner K held st program_id k authority authority_len signer_infos) (\<lambda>_.
     rbind (withdraw_destination K held mint_info destination st) (\<lambda>dst.
     let withheld = mint_withheld_amount c;
         st = put_data mint_info (ext_state_data (write_extension transfer_fee_config_ext pos
                (c\<lparr>mint_withheld_amount := 0\<rparr>) w)) st in
     rbind (overflow_checked (checked_add (amount (ext_base dst)) withheld)) (\<lambda>new_amount.
     store_base (AccountS K) destination dst ((ext_base dst)\<lparr>amount := new_amount\<rparr>) st))))))))))"

text \<open>
  \<open>harvest_from_account\<close>: the left summand is the unwinding of a double borrow, the inner one
  the \<open>TokenError\<close> the caller logs.  On success the withheld amount and the changed store.
\<close>

definition harvest_from_account ::
  "token_sdk \<Rightarrow> pubkey list \<Rightarrow> pubkey \<Rightarrow> info \<Rightarrow> store \<Rightarrow> unit + (token_error + u64 \<times> store)" where
  "harvest_from_account K held mint_key a st =
     (case borrow_data held st a of
        Inl _ \<Rightarrow> Inl ()
      | Inr d \<Rightarrow>
         (case unpack_mut (AccountS K) d of
            Inl Panic \<Rightarrow> Inl ()
          | Inl (Err _) \<Rightarrow> Inr (Inl InvalidState)
          | Inr w \<Rightarrow>
              if acc_mint (ext_base w) \<noteq> mint_key then Inr (Inl MintMismatch)
              else if \<not> is_ok (check_program_account (info_owner st a)) then Inr (Inl InvalidState)
              else
                (case get_extension_mut (AccountS K) transfer_fee_amount_ext w of
                   Inl Panic \<Rightarrow> Inl ()
                 | Inl (Err _) \<Rightarrow> Inr (Inl InvalidState)
                 | Inr (pos, v) \<Rightarrow>
                     Inr (Inr (withheld_amount v,
                       put_data a (ext_state_data (write_extension transfer_fee_amount_ext pos
                         (v\<lparr>withheld_amount := 0\<rparr>) w)) st)))))"

fun harvest_accounts ::
  "token_sdk \<Rightarrow> pubkey \<Rightarrow> info list \<Rightarrow> u64 \<Rightarrow> store \<Rightarrow> (u64 \<times> store) token_res" where
  "harvest_accounts K mint_key [] withheld st = Inr (withheld, st)"
| "harvest_accounts K mint_key (a # as) withheld st =
     (case harvest_from_account K [mint_key] mint_key a st of
        Inl _ \<Rightarrow> Inl Panic
      | Inr (Inl e) \<Rightarrow> harvest_accounts K mint_key as withheld st
      | Inr (Inr (amt, st)) \<Rightarrow>
          rbind (overflow_checked (checked_add withheld amt)) (\<lambda>withheld.
          harvest_accounts K mint_key as withheld st))"

definition process_harvest_withheld_tokens_to_mint :: "token_sdk \<Rightarrow> info list \<Rightarrow> store \<Rightarrow> store token_res" where
  "process_harvest_withheld_tokens_to_mint K accounts st =
     rbind (next_account_info accounts) (\<lambda>(mint_info, token_accounts).
     rbind (borrow_data [] st mint_info) (\<lambda>d.
     rbind (unpack_mut (MintS K) d) (\<lambda>w.
     rbind (get_extension_mut (MintS K) transfer_fee_config_ext w) (\<lambda>(pos, c).
     rbind (harvest_accounts K (info_key mint_info) token_accounts (mint_withheld_amount c) st) (\<lambda>(withheld, st).
     Inr (put_data mint_info (ext_state_data (write_extension transfer_fee_config_ext pos
            (c\<lparr>mint_withheld_amount := withheld\<rparr>) w)) st))))))"

text \<open>
  The loop of a withdrawal from accounts; \<open>dst\<close> is the borrowed destination, which may be
  listed itself.
\<close>

fun withdraw_accounts ::
  "token_sdk \<Rightarrow> pubkey \<Rightarrow> pubkey \<Rightarrow> info list \<Rightarrow> token_account ext_state \<Rightarrow> store
     \<Rightarrow> (token_account ext_state \<times> store) token_res" where
  "withdraw_accounts K mint_key dest_key [] dst st = Inr (dst, st)"
| "withdraw_accounts K mint_key dest_key (a # as) dst st =
     (if info_key a = dest_key then
        (case get_extension_mut (AccountS K) transfer_fee_amount_ext dst of
           Inl Panic \<Rightarrow> Inl Panic
         | Inl (Err _) \<Rightarrow> err (Token InvalidState)
         | Inr (pos, v) \<Rightarrow>
             let dst = write_extension transfer_fee_amount_ext pos (v\<lparr>withheld_amount := 0\<rparr>) dst in
             rbind (overflow_checked (checked_add (amount (ext_base dst)) (withheld_amount v))) (\<lambda>new_amount.
             withdraw_accounts K mint_key dest_key as
               (dst\<lparr>ext_base := (ext_base dst)\<lparr>amount := new_amount\<rparr>\<rparr>) st))
      else
        (case harvest_from_account K [mint_key, dest_key] mint_key a st of
           Inl _ \<Rightarrow> Inl Panic
         | Inr (Inl e) \<Rightarrow> withdraw_accounts K mint_key dest_key as dst st
         | Inr (Inr (amt, st)) \<Rightarrow>
             rbind (overflow_checked (checked_add (amount (ext_base dst)) amt)) (\<lambda>new_amount.
             withdraw_accounts K mint_key dest_key as
               (dst\<lparr>ext_base := (ext_base dst)\<lparr>amount := new_amount\<rparr>\<rparr>) st)))"

definition process_withdraw_withheld_tokens_from_accounts ::
  "token_sdk \<Rightarrow> pubkey \<Rightarrow> info list \<Rightarrow> u8 \<Rightarrow> store \<Rightarrow> store token_res" where
  "process_withdraw_withheld_tokens_from_accounts K program_id accounts num_token_accounts st =
     rbind (next_account_info accounts) (\<lambda>(mint_info, rest).
     rbind (next_account_info rest) (\<lambda>(destination, rest).
     rbind (next_account_info rest) (\<lambda>(authority, account_infos).
     let authority_len = data_len st authority;
         num_signers = length account_infos - unat num_token_accounts in
     rbind (borrow_data [] st mint_info) (\<lambda>d.
     rbind (unpack_state (MintS K) d) (\<lambda>mint.
     rbind (get_extension (MintS K) transfer_fee_config_ext (view_tlv mint)) (\<lambda>c.
     rbind (ok_or (optional_key_value (withdraw_withheld_authority c)) (Err (Token NoAuthorityExists))) (\<lambda>k.
     rbind (validate_owner K [] st program_id k authority authority_len (take num_signers account_infos)) (\<lambda>_.
     rbind (withdraw_destination K [info_key mint_info] mint_info destination st) (\<lambda>dst.
     rbind (withdraw_accounts K (info_key mint_info) (info_key destination) (drop num_signers account_infos) dst st)
       (\<lambda>(dst, st).
     rbind (pack_base (AccountS K) dst) (\<lambda>dst.
     Inr (put_data destination (ext_state_data dst) st))))))))))))"

section \<open>Properties\<close>

text \<open>
  A new fee gives two epochs' notice: after the fee is set in an epoch, that epoch and the
  next keep the fee that was in force, and from the second on the new one applies, whatever
  was scheduled before.
\<close>

theorem fee_change_takes_two_epochs:
  assumes "unat epoch + 2 < 2 ^ 64" and "epoch \<le> e"
  shows "get_epoch_fee (schedule_transfer_fee epoch points max_fee c) e =
    (if e < epoch + 2 then get_epoch_fee c epoch
     else \<lparr>fee_epoch = epoch + 2, maximum_fee = max_fee, fee_basis_points = points\<rparr>)"
proof -
  have sum: "unat (epoch + 2) = unat epoch + 2"
    using assms(1) by (subst unat_add_nowrap) simp_all
  then have sat: "saturating_add epoch 2 = epoch + 2" and later: "\<not> epoch + 2 \<le> epoch"
    using assms(1) by (simp_all add: saturating_add_def word_le_nat_alt)
  show ?thesis
    using later by (auto simp: get_epoch_fee_def schedule_transfer_fee_def Let_def sat not_less)
qed

theorem fee_change_takes_two_epochs_witness:
  "get_epoch_fee (schedule_transfer_fee 7 400 60 sample_fee_config) 8 = older_transfer_fee sample_fee_config
 \<and> get_epoch_fee (schedule_transfer_fee 7 400 60 sample_fee_config) 9
     = \<lparr>fee_epoch = 9, maximum_fee = 60, fee_basis_points = 400\<rparr>"
  using fee_change_takes_two_epochs [of 7 8 400 60 sample_fee_config]
    fee_change_takes_two_epochs [of 7 9 400 60 sample_fee_config]
  by (simp add: sample_fee_config_def get_epoch_fee_def)

end
