(* ===== verification/Token_Options.thy ===== *)
theory Token_Options
  imports Token_Withheld "HOL-Library.Signed_Division"
begin

text \<open>
  The smaller extension processors of Token-2022: the default account state
  (\<open>extension/default_account_state/processor.rs\<close>), required memos
  (\<open>extension/memo_transfer/processor.rs\<close>) and the interest rate
  (\<open>extension/interest_bearing_mint\<close>).  The \<open>i128\<close> arithmetic of the average rate is kept
  on integers with its range checked.
\<close>

section \<open>Default account state\<close>

definition check_valid_default_state :: "account_state \<Rightarrow> unit token_res" where
  "check_valid_default_state s =
     (if s = StateUninitialized then err (Token InvalidState) else Inr ())"

definition process_initialize_default_account_state ::
  "token_sdk \<Rightarrow> info list \<Rightarrow> account_state \<Rightarrow> store \<Rightarrow> store token_res" where
  "process_initialize_default_account_state K accounts s st =
     rbind (check_valid_default_state s) (\<lambda>_.
     initialize_extension (MintS K) default_account_state_ext
       (\<lambda>v. Inr (v\<lparr>default_state := account_state_byte s\<rparr>)) accounts st)"

definition process_update_default_account_state ::
  "token_sdk \<Rightarrow> pubkey \<Rightarrow> info list \<Rightarrow> account_state \<Rightarrow> store \<Rightarrow> store token_res" where
  "process_update_default_account_state K program_id accounts s st =
     rbind (check_valid_default_state s) (\<lambda>_.
     rbind (next_account_info accounts) (\<lambda>(mint_info, rest).
     rbind (next_account_info rest) (\<lambda>(authority, signer_infos).
     let authority_len = data_len st authority in
     rbind (borrow_data [] st mint_info) (\<lambda>d.
     rbind (unpack_mut (MintS K) d) (\<lambda>w.
     rbind (ok_or (freeze_authority (ext_base w)) (Err (Token NoAuthorityExists))) (\<lambda>k.
     rbind (validate_owner K [info_key mint_info] st program_id k authority authority_len signer_infos) (\<lambda>_.
     rbind (get_extension_mut (MintS K) default_account_state_ext w) (\<lambda>(pos, v).
     Inr (put_data mint_info (ext_state_data (write_extension default_account_state_ext pos
            (v\<lparr>default_state := account_state_byte s\<rparr>) w)) st)))))))))"

section \<open>Required memos\<close>

text \<open>\<open>require\<close> is true for Enable and false for Disable; the two handlers differ in nothing else.\<close>

definition process_required_memo_transfers ::
  "token_sdk \<Rightarrow> pubkey \<Rightarrow> info list \<Rightarrow> bool \<Rightarrow> store \<Rightarrow> store token_res" where
  "process_required_memo_transfers K program_id accounts require st =
     rbind (next_account_info accounts) (\<lambda>(token_account, rest).
     rbind (next_account_info rest) (\<lambda>(authority, signer_infos).
     let authority_len = data_len st authority in
     rbind (borrow_data [] st token_account) (\<lambda>d.
     rbind (unpack_mut (AccountS K) d) (\<lambda>w.
     rbind (validate_owner K [info_key token_account] st program_id (acc_owner (ext_base w)) authority
              authority_len signer_infos) (\<lambda>_.
     rbind (ok_option (get_extension_mut (AccountS K) memo_transfer_ext w)) (\<lambda>e.
     rbind (case e of
              Some (pos, v) \<Rightarrow> Inr (w, pos)
            | None \<Rightarrow> init_extension (AccountS K) memo_transfer_ext True w) (\<lambda>(w, pos).
     Inr (put_data token_account (ext_state_data (write_extension memo_transfer_ext pos
            \<lparr>require_incoming_transfer_memos = pod_bool_of require\<rparr> w)) st))))))))"

section \<open>Interest rate\<close>

definition i128_checked :: "int \<Rightarrow> int option" where
  "i128_checked x = (if - (2 ^ 127) \<le> x \<and> x < 2 ^ 127 then Some x else None)"

definition i128_div :: "int \<Rightarrow> int \<Rightarrow> int option" where
  "i128_div x y = (if y = 0 then None else i128_checked (x sdiv y))"

definition i16_try_from :: "int \<Rightarrow> u16 option" where
  "i16_try_from x = (if - 32768 \<le> x \<and> x < 32768 then Some (of_int x) else None)"

definition time_weighted_average_rate :: "interest_bearing_config \<Rightarrow> i64 \<Rightarrow> u16 option" where
  "time_weighted_average_rate c current_timestamp =
     (let initialization = sint (initialization_timestamp c);
          last_update = sint (last_update_timestamp c);
          r_1 = sint (pre_update_average_rate c);
          r_2 = sint (current_rate c) in
      Option.bind (i128_checked (last_update - initialization)) (\<lambda>t_1.
      Option.bind (i128_checked (sint current_timestamp - last_update)) (\<lambda>t_2.
      Option.bind (i128_checked (t_1 + t_2)) (\<lambda>total_timespan.
      Option.bind
        (if total_timespan = 0 then Some r_2
         else
           Option.bind (i128_checked (r_1 * t_1)) (\<lambda>a.
           Option.bind (i128_checked (r_2 * t_2)) (\<lambda>b.
           Option.bind (i128_checked (a + b)) (\<lambda>s.
           i128_div s total_timespan)))) i16_try_from))))"

definition process_initialize_interest ::
  "token_sdk \<Rightarrow> info list \<Rightarrow> optional_key \<Rightarrow> u16 \<Rightarrow> store \<Rightarrow> store token_res" where
  "process_initialize_interest K accounts authority rate st =
     rbind (next_account_info accounts) (\<lambda>(mint_info, _).
     rbind (borrow_data [] st mint_info) (\<lambda>d.
     rbind (unpack_uninitialized (MintS K) d) (\<lambda>w.
     rbind (lift_err (clock_get K)) (\<lambda>clock.
     rbind (init_extension (MintS K) interest_bearing_config_ext True w) (\<lambda>(w, pos).
     Inr (put_data mint_info (ext_state_data (write_extension interest_bearing_config_ext pos
            \<lparr>rate_authority = authority, initialization_timestamp = clock_unix_timestamp clock,
             pre_update_average_rate = rate, last_update_timestamp = clock_unix_timestamp clock,
             current_rate = rate\<rparr> w)) st))))))"

definition process_update_rate ::
  "token_sdk \<Rightarrow> pubkey \<Rightarrow> info list \<Rightarrow> u16 \<Rightarrow> store \<Rightarrow> store token_res" where
  "process_update_rate K program_id accounts new_rate st =
     rbind (next_account_info accounts) (\<lambda>(mint_info, rest).
     rbind (next_account_info rest) (\<lambda>(owner_info, signer_infos).
     let owner_len = data_len st owner_info in
     rbind (borrow_data [] st mint_info) (\<lambda>d.
     rbind (unpack_mut (MintS K) d) (\<lambda>w.
     rbind (get_extension_mut (MintS K) interest_bearing_config_ext w) (\<lambda>(pos, c).
     rbind (ok_or (optional_key_value (rate_authority c)) (Err (Token NoAuthorityExists))) (\<lambda>k.
     rbind (validate_owner K [info_key mint_info] st program_id k owner_info owner_len signer_infos) (\<lambda>_.
     rbind (lift_err (clock_get K)) (\<lambda>clock.
     rbind (ok_or (time_weighted_average_rate c (clock_unix_timestamp clock)) (Err (Token Overflow))) (\<lambda>average.
     Inr (put_data mint_info (ext_state_data (write_extension interest_bearing_config_ext pos
            (c\<lparr>pre_update_average_rate := average, last_update_timestamp := clock_unix_timestamp clock,
               current_rate := new_rate\<rparr>) w)) st))))))))))"

section \<open>The average rate\<close>

lemma sdiv_between:
  fixes n t lo hi :: int
  assumes "0 < t" and "lo * t \<le> n" and "n \<le> hi * t"
  shows "lo \<le> n sdiv t" and "n sdiv t \<le> hi"
proof -
  have up: "x div t \<le> y" if "x \<le> y * t" for x y
    using zdiv_mono1 [OF that assms(1)] assms(1) by simp
  have down: "y \<le> x div t" if "y * t \<le> x" for x y
    using zdiv_mono1 [OF that assms(1)] assms(1) by simp
  have "n sdiv t = (if 0 \<le> n then n div t else - ((- n) div t))"
    using assms(1) by (auto simp: signed_divide_int_def sgn_if)
  then show "lo \<le> n sdiv t" and "n sdiv t \<le> hi"
    using up [of n hi] down [of lo n] up [of "- n" "- lo"] down [of "- hi" "- n"] assms(2,3) by auto
qed

lemma weighted_between:
  fixes a b s t :: int
  assumes "0 \<le> s" and "0 \<le> t"
  shows "min a b * (s + t) \<le> a * s + b * t" and "a * s + b * t \<le> max a b * (s + t)"
  using assms
  by (simp_all add: distrib_left add_mono mult_right_mono)

lemma i128_checked_small: "\<bar>x\<bar> < 2 ^ 127 \<Longrightarrow> i128_checked x = Some x"
  by (simp add: i128_checked_def abs_less_iff)

lemma sint_i16: "- 32768 \<le> sint (r :: u16)" "sint r < 32768"
  using sint_ge [of r] sint_lt [of r] by simp_all

lemma sint_i64: "- (2 ^ 63) \<le> sint (t :: i64)" "sint t < 2 ^ 63"
  using sint_ge [of t] sint_lt [of t] by simp_all

lemma sint_of_int_i16: "- 32768 \<le> x \<Longrightarrow> x < 32768 \<Longrightarrow> sint (of_int x :: u16) = x"
  by (simp add: signed_of_int signed_take_bit_int_eq_self)

lemma rate_times_span:
  assumes "\<bar>r :: int\<bar> \<le> 2 ^ 15" and "\<bar>t\<bar> \<le> 2 ^ 64"
  shows "\<bar>r * t\<bar> \<le> 2 ^ 79"
  using mult_mono [OF assms] by (simp add: abs_mult)

text \<open>
  A change of the interest rate keeps history within its rates: when the clock has not run
  backwards, the average rate recorded for the past exists and lies between the former
  average and the rate in force since the last update.
\<close>

theorem average_rate_between:
  assumes "sint (initialization_timestamp c) \<le> sint (last_update_timestamp c)"
    and "sint (last_update_timestamp c) \<le> sint now"
  shows "\<exists>r. time_weighted_average_rate c now = Some r
    \<and> min (sint (pre_update_average_rate c)) (sint (current_rate c)) \<le> sint r
    \<and> sint r \<le> max (sint (pre_update_average_rate c)) (sint (current_rate c))"
proof -
  define r1 r2 where r: "r1 = sint (pre_update_average_rate c)" "r2 = sint (current_rate c)"
  define t1 t2 where t: "t1 = sint (last_update_timestamp c) - sint (initialization_timestamp c)"
    "t2 = sint now - sint (last_update_timestamp c)"
  have rates: "- 32768 \<le> r1" "r1 < 32768" "- 32768 \<le> r2" "r2 < 32768"
    by (simp_all add: r sint_i16)
  have spans: "0 \<le> t1" "0 \<le> t2" "t1 + t2 < 2 ^ 64"
    using assms sint_i64 [of now] sint_i64 [of "initialization_timestamp c"] by (simp_all add: t)
  then have "\<bar>r1 * t1\<bar> \<le> 2 ^ 79" "\<bar>r2 * t2\<bar> \<le> 2 ^ 79"
    using rates by (intro rate_times_span; simp)+
  then have checked: "i128_checked t1 = Some t1" "i128_checked t2 = Some t2"
      "i128_checked (t1 + t2) = Some (t1 + t2)" "i128_checked (r1 * t1) = Some (r1 * t1)"
      "i128_checked (r2 * t2) = Some (r2 * t2)" "i128_checked (r1 * t1 + r2 * t2) = Some (r1 * t1 + r2 * t2)"
    using spans by (auto intro!: i128_checked_small)
  define avg where "avg = (if t1 + t2 = 0 then r2 else (r1 * t1 + r2 * t2) sdiv (t1 + t2))"
  have between: "min r1 r2 \<le> avg" "avg \<le> max r1 r2"
    using sdiv_between [of "t1 + t2" "min r1 r2" "r1 * t1 + r2 * t2" "max r1 r2"]
      weighted_between [OF spans(1,2), of r1 r2] spans
    by (auto simp: avg_def)
  then have range: "- 32768 \<le> avg" "avg < 32768"
    using rates by (auto simp: min_def max_def split: if_splits)
  have "time_weighted_average_rate c now = i16_try_from avg"
    using checked i128_checked_small [of avg] range
    by (auto simp: time_weighted_average_rate_def Let_def r [symmetric] t [symmetric] avg_def i128_div_def)
  then show ?thesis
    using between range by (auto simp: r [symmetric] i16_try_from_def sint_of_int_i16)
qed

theorem average_rate_between_witness:
  "\<exists>r. time_weighted_average_rate
       \<lparr>rate_authority = 0, initialization_timestamp = 100, pre_update_average_rate = 10,
        last_update_timestamp = 200, current_rate = 40\<rparr> 500 = Some r \<and> 10 \<le> sint r \<and> sint r \<le> 40"
  using average_rate_between [of "\<lparr>rate_authority = 0, initialization_timestamp = 100,
      pre_update_average_rate = 10, last_update_timestamp = 200, current_rate = 40\<rparr>" 500]
  by simp

end
