(* ===== verification/Token_Amount.thy ===== *)
theory Token_Amount
  imports Token_State
begin

text \<open>
  Token amounts as text (\<open>spl_token_2022/mod.rs\<close>): a raw amount and a number of decimals to a
  decimal string, with and without trailing zeros, and back.  \<open>digits\<close> is the decimal
  formatting of an integer, \<open>parse_u64\<close> is \<open>str::parse::<u64>\<close>, which accepts a leading plus
  sign.  The \<open>f64\<close> conversions of the file are not modelled.
\<close>

section \<open>Decimal text\<close>

definition digit_char :: "nat \<Rightarrow> char" where
  "digit_char n = char_of (48 + n)"

definition is_digit_char :: "char \<Rightarrow> bool" where
  "is_digit_char c \<longleftrightarrow> 48 \<le> (of_char c :: nat) \<and> (of_char c :: nat) \<le> 57"

fun digits :: "nat \<Rightarrow> string" where
  "digits n = (if n < 10 then [digit_char n] else digits (n div 10) @ [digit_char (n mod 10)])"

declare digits.simps [simp del]

definition digits_value :: "string \<Rightarrow> nat" where
  "digits_value s = foldl (\<lambda>v c. 10 * v + (of_char c - 48)) 0 s"

definition parse_u64 :: "string \<Rightarrow> u64 option" where
  "parse_u64 s =
     (let ds = (case s of [] \<Rightarrow> [] | c # r \<Rightarrow> if c = CHR ''+'' then r else s) in
      if ds = [] \<or> \<not> list_all is_digit_char ds \<or> 2 ^ 64 \<le> digits_value ds then None
      else Some (of_nat (digits_value ds)))"

definition trim_end_char :: "char \<Rightarrow> string \<Rightarrow> string" where
  "trim_end_char c s = rev (dropWhile (\<lambda>x. x = c) (rev s))"

text \<open>\<open>format!("{:01$}", amount, width)\<close>: padded with zeros on the left.\<close>

definition zero_padded :: "nat \<Rightarrow> u64 \<Rightarrow> string" where
  "zero_padded width a = replicate (width - length (digits (unat a))) CHR ''0'' @ digits (unat a)"

section \<open>The conversions\<close>

definition amount_to_ui_amount_string :: "u64 \<Rightarrow> u8 \<Rightarrow> string" where
  "amount_to_ui_amount_string a dec =
     (let n = unat dec in
      if 0 < n then
        (let s = zero_padded (n + 1) a; at = length s - n
         in take at s @ ''.'' @ drop at s)
      else digits (unat a))"

definition amount_to_ui_amount_string_trimmed :: "u64 \<Rightarrow> u8 \<Rightarrow> string" where
  "amount_to_ui_amount_string_trimmed a dec =
     (let s = amount_to_ui_amount_string a dec in
      if 0 < dec then trim_end_char CHR ''.'' (trim_end_char CHR ''0'' s) else s)"

definition try_ui_amount_into_amount :: "string \<Rightarrow> u8 \<Rightarrow> program_error + u64" where
  "try_ui_amount_into_amount ui_amount dec =
     (let n = unat dec;
          parts = split_on CHR ''.'' ui_amount;
          amount_str = hd parts;
          after_decimal = trim_end_char CHR ''0'' (if length parts < 2 then [] else parts ! 1) in
      if amount_str = [] \<and> after_decimal = [] \<or> 3 \<le> length parts \<or> n < length after_decimal
      then Inl InvalidArgument
      else ok_or (parse_u64 (amount_str @ after_decimal
                    @ replicate (n - length after_decimal) CHR ''0'')) InvalidArgument)"

section \<open>Round trip\<close>

lemma of_char_digit: "n < 10 \<Longrightarrow> of_char (digit_char n) = 48 + n"
  by (simp add: digit_char_def)

lemma is_digit_digit_char: "n < 10 \<Longrightarrow> is_digit_char (digit_char n)"
  by (simp add: is_digit_char_def of_char_digit)

lemma zero_is_digit: "is_digit_char CHR ''0''"
  by (simp add: is_digit_char_def)

lemma digits_digits: "list_all is_digit_char (digits n)"
  by (induction n rule: digits.induct) (subst digits.simps, simp add: is_digit_digit_char)

lemma digits_nonempty: "digits n \<noteq> []"
  by (subst digits.simps) simp

lemma digits_value_append:
  "digits_value (s @ [c]) = 10 * digits_value s + (of_char c - 48)"
  by (simp add: digits_value_def)

lemma digits_value_digits: "digits_value (digits n) = n"
proof (induction n rule: digits.induct)
  case (1 n)
  then show ?case
    by (subst digits.simps) (auto simp: digits_value_append of_char_digit digits_value_def [of "[_]"])
qed

lemma digits_value_zeros: "digits_value (replicate k CHR ''0'' @ s) = digits_value s"
  by (induction k) (auto simp: digits_value_def)

lemma zero_padded_digits: "list_all is_digit_char (zero_padded w a)"
  by (simp add: zero_padded_def digits_digits list_all_iff [of _ "replicate _ _"] zero_is_digit)

lemma length_zero_padded: "w \<le> length (zero_padded w a)"
  by (simp add: zero_padded_def)

lemma parse_zero_padded: "parse_u64 (zero_padded w a) = Some a"
proof -
  have plus: "\<not> is_digit_char CHR ''+''"
    by (simp add: is_digit_char_def)
  have "zero_padded w a \<noteq> []"
    by (simp add: zero_padded_def digits_nonempty)
  then obtain c r where s: "zero_padded w a = c # r"
    by (cases "zero_padded w a") auto
  moreover have "c \<noteq> CHR ''+''"
    using zero_padded_digits [of w a] plus by (auto simp: s)
  moreover have "digits_value (zero_padded w a) = unat a"
    by (simp add: zero_padded_def digits_value_zeros digits_value_digits)
  ultimately show ?thesis
    using zero_padded_digits [of w a] unat_lt_width [of a] by (simp add: parse_u64_def)
qed

lemma split_on_digits: "list_all is_digit_char s \<Longrightarrow> split_on CHR ''.'' s = [s]"
  by (induction s) (auto simp: is_digit_char_def)

lemma split_on_decimal:
  "list_all is_digit_char s \<Longrightarrow> list_all is_digit_char t \<Longrightarrow> split_on CHR ''.'' (s @ CHR ''.'' # t) = [s, t]"
  by (induction s) (auto simp: split_on_digits is_digit_char_def)

lemma leading_run: "\<exists>k. xs = replicate k c @ dropWhile (\<lambda>x. x = c) xs"
proof (induction xs)
  case (Cons x xs)
  then obtain k where "xs = replicate k c @ dropWhile (\<lambda>x. x = c) xs" by blast
  then show ?case
    by (cases "x = c") (auto intro: exI [of _ "Suc k"] exI [of _ 0])
qed simp

lemma trim_decompose: obtains k where "s = trim_end_char c s @ replicate k c"
proof -
  obtain k where "rev s = replicate k c @ dropWhile (\<lambda>x. x = c) (rev s)"
    by (rule exE [OF leading_run [of "rev s" c]])
  then have "rev (rev s) = rev (replicate k c @ dropWhile (\<lambda>x. x = c) (rev s))" by simp
  then show ?thesis
    using that [of k] by (simp add: trim_end_char_def)
qed

lemma trim_replicate: "trim_end_char c (s @ replicate k c) = trim_end_char c s"
proof -
  have "dropWhile (\<lambda>x. x = c) (replicate k c @ xs) = dropWhile (\<lambda>x. x = c) xs" for xs
    by (induction k) simp_all
  then show ?thesis by (simp add: trim_end_char_def)
qed

lemma trim_keeps: "t \<noteq> [] \<Longrightarrow> last t \<noteq> c \<Longrightarrow> trim_end_char c (s @ t) = s @ t"
  by (cases t rule: rev_cases) (simp_all add: trim_end_char_def)

lemma trim_nonempty: "trim_end_char c s \<noteq> [] \<Longrightarrow> last (trim_end_char c s) \<noteq> c"
  using hd_dropWhile [of "\<lambda>x. x = c" "rev s"] by (auto simp: trim_end_char_def last_rev)

lemma digit_text:
  "list_all is_digit_char s \<Longrightarrow> s \<noteq> [] \<Longrightarrow> last s \<noteq> CHR ''.''"
  by (auto simp: list_all_iff is_digit_char_def dest!: last_in_set)

text \<open>Reading an integer part and at most \<open>n\<close> fractional digits.\<close>

lemma read_decimal:
  assumes "list_all is_digit_char ints" and "ints \<noteq> []" and "list_all is_digit_char frac"
    and "length frac \<le> unat dec"
  shows "try_ui_amount_into_amount (ints @ ''.'' @ frac) dec
      = ok_or (parse_u64 (ints @ frac @ replicate (unat dec - length frac) CHR ''0'')) InvalidArgument"
proof -
  obtain k where k: "frac = trim_end_char CHR ''0'' frac @ replicate k CHR ''0''"
    by (rule trim_decompose)
  let ?f = "trim_end_char CHR ''0'' frac"
  have len: "length frac = length ?f + k"
    by (metis k length_append length_replicate)
  have "replicate (unat dec - length ?f) CHR ''0''
      = replicate k CHR ''0'' @ replicate (unat dec - length frac) CHR ''0''"
    using len assms(4) by (simp flip: replicate_add)
  then have "?f @ replicate (unat dec - length ?f) CHR ''0'' = frac @ replicate (unat dec - length frac) CHR ''0''"
    by (metis append.assoc k)
  then show ?thesis
    using assms len by (simp add: try_ui_amount_into_amount_def split_on_decimal Let_def)
qed

lemma read_integer:
  assumes "list_all is_digit_char ints" and "ints \<noteq> []"
  shows "try_ui_amount_into_amount ints dec
      = ok_or (parse_u64 (ints @ replicate (unat dec) CHR ''0'')) InvalidArgument"
  using assms by (simp add: try_ui_amount_into_amount_def split_on_digits trim_end_char_def Let_def)

text \<open>The two parts a positive number of decimals splits the padded digits into.\<close>

lemma ui_string_parts:
  assumes "0 < dec"
  obtains ints frac where "amount_to_ui_amount_string a dec = ints @ ''.'' @ frac"
    and "ints @ frac = zero_padded (unat dec + 1) a" and "ints \<noteq> []" and "length frac = unat dec"
    and "list_all is_digit_char ints" and "list_all is_digit_char frac"
proof -
  let ?p = "zero_padded (unat dec + 1) a"
  let ?at = "length ?p - unat dec"
  have "unat dec + 1 \<le> length ?p"
    by (rule length_zero_padded)
  moreover have "list_all is_digit_char (take ?at ?p @ drop ?at ?p)"
    by (simp add: zero_padded_digits)
  moreover have "0 < unat dec"
    using assms by (simp add: word_less_nat_alt)
  moreover from calculation have "?p \<noteq> []"
    by auto
  ultimately show ?thesis
    using that [of "take ?at ?p" "drop ?at ?p"]
    by (simp add: amount_to_ui_amount_string_def Let_def del: append_take_drop_id)
      (simp add: append_take_drop_id)
qed

lemma trimmed_cases:
  assumes "s = ints @ ''.'' @ frac" and "list_all is_digit_char ints" and "ints \<noteq> []"
    and "list_all is_digit_char frac"
  shows "trim_end_char CHR ''.'' (trim_end_char CHR ''0'' s)
    = (if trim_end_char CHR ''0'' frac = [] then ints
       else ints @ ''.'' @ trim_end_char CHR ''0'' frac)"
proof -
  let ?f = "trim_end_char CHR ''0'' frac"
  obtain k where k: "frac = ?f @ replicate k CHR ''0''"
    by (rule trim_decompose)
  have s: "trim_end_char CHR ''0'' s = trim_end_char CHR ''0'' (ints @ ''.'' @ ?f)"
    using trim_replicate [of "CHR ''0''" "ints @ ''.'' @ ?f" k] k assms(1) by (metis append.assoc)
  show ?thesis
  proof (cases "?f = []")
    case True
    have "trim_end_char CHR ''0'' (ints @ ''.'') = ints @ ''.''"
      by (rule trim_keeps) simp_all
    moreover have "trim_end_char CHR ''.'' (ints @ ''.'') = ints"
      using trim_replicate [of "CHR ''.''" ints 1] trim_keeps [of ints "CHR ''.''" "[]"]
        digit_text [OF assms(2,3)] assms(3) by simp
    ultimately show ?thesis using True s by simp
  next
    case False
    have zero: "trim_end_char CHR ''0'' ((ints @ ''.'') @ ?f) = (ints @ ''.'') @ ?f"
      by (rule trim_keeps [OF False trim_nonempty [OF False]])
    have "list_all is_digit_char ?f"
      using assms(4) k by (metis list_all_append)
    then have dot: "trim_end_char CHR ''.'' ((ints @ ''.'') @ ?f) = (ints @ ''.'') @ ?f"
      by (intro trim_keeps False digit_text)
    show ?thesis
      using False s zero dot by simp
  qed
qed

text \<open>
  C29. The text of a token amount reads back as the amount: for every raw amount and every
  number of decimals, both the full and the trimmed string are accepted and give it back.
\<close>

theorem ui_amount_roundtrip:
  "try_ui_amount_into_amount (amount_to_ui_amount_string a dec) dec = Inr a
 \<and> try_ui_amount_into_amount (amount_to_ui_amount_string_trimmed a dec) dec = Inr a"
proof (cases "0 < dec")
  case False
  then have dec: "dec = 0"
    by (simp add: word_gt_0)
  have digits: "zero_padded 0 a = digits (unat a)"
    by (simp add: zero_padded_def)
  show ?thesis
    using read_integer [of "digits (unat a)" dec] parse_zero_padded [of 0 a]
    by (simp add: dec amount_to_ui_amount_string_def amount_to_ui_amount_string_trimmed_def digits
        digits_digits digits_nonempty)
next
  case True
  then obtain ints frac where s: "amount_to_ui_amount_string a dec = ints @ ''.'' @ frac"
    and p: "ints @ frac = zero_padded (unat dec + 1) a" and ints: "ints \<noteq> []"
    and len: "length frac = unat dec"
    and chars: "list_all is_digit_char ints" "list_all is_digit_char frac"
    by (rule ui_string_parts)
  let ?f = "trim_end_char CHR ''0'' frac"
  obtain k where k: "frac = ?f @ replicate k CHR ''0''"
    by (rule trim_decompose)
  have f: "unat dec - length ?f = k" "length ?f \<le> unat dec" "list_all is_digit_char ?f"
    using len k chars(2) by (metis add_diff_cancel_left' length_append length_replicate,
        metis le_add1 length_append, metis list_all_append)
  have "try_ui_amount_into_amount (ints @ ''.'' @ frac) dec = Inr a"
    using read_decimal [OF chars(1) ints chars(2)] len p parse_zero_padded [of "unat dec + 1" a] by simp
  moreover have "try_ui_amount_into_amount (amount_to_ui_amount_string_trimmed a dec) dec = Inr a"
  proof (cases "?f = []")
    case True
    then have "frac = replicate (unat dec) CHR ''0''"
      using k f(1) by simp
    then show ?thesis
      using True \<open>0 < dec\<close> trimmed_cases [OF s chars(1) ints chars(2)] read_integer [OF chars(1) ints, of dec]
        p parse_zero_padded [of "unat dec + 1" a]
      by (simp add: amount_to_ui_amount_string_trimmed_def Let_def)
  next
    case False
    then show ?thesis
      using \<open>0 < dec\<close> trimmed_cases [OF s chars(1) ints chars(2)] read_decimal [OF chars(1) ints f(3,2)]
        p parse_zero_padded [of "unat dec + 1" a] k f(1)
      by (simp add: amount_to_ui_amount_string_trimmed_def Let_def)
  qed
  ultimately show ?thesis
    by (simp add: s)
qed

text \<open>A sign with no integer digits slips through \<open>parse\<close>.\<close>

lemma stray_plus_accepted: "try_ui_amount_into_amount ''+'' 2 = Inr 0"
proof -
  have "replicate 2 (CHR ''0'') = ''00''"
    by (simp add: numeral_2_eq_2)
  then show ?thesis
    by (simp add: try_ui_amount_into_amount_def trim_end_char_def parse_u64_def is_digit_char_def
        digits_value_def)
qed

end
