(* ===== verification/Token_Instruction.thy ===== *)
theory Token_Instruction
  imports Token_Processor
begin

text \<open>
  The instructions of Token-2022 and their encoding (\<open>spl_token_2022/instruction.rs\<close>,
  \<open>extension/transfer_fee/instruction.rs\<close> and the decoders of the other extension
  instructions).  \<open>COption<Pubkey>\<close> is written as a tag byte and 32 bytes, numbers are little
  endian, a list of extension types runs to the end of the input and so does the text of
  \<open>UiAmountToAmount\<close>.
\<close>

section \<open>Instructions\<close>

datatype transfer_fee_instruction =
    InitializeTransferFeeConfig "pubkey option" "pubkey option" u16 u64
  | TransferCheckedWithFee u64 u8 u64
  | WithdrawWithheldTokensFromMint
  | WithdrawWithheldTokensFromAccounts u8
  | HarvestWithheldTokensToMint
  | SetTransferFee u16 u64

datatype token_instruction =
    InitializeMint u8 pubkey "pubkey option"
  | InitializeAccount
  | InitializeMultisig u8
  | Transfer u64
  | Approve u64
  | Revoke
  | SetAuthority authority_type "pubkey option"
  | MintTo u64
  | Burn u64
  | CloseAccount
  | FreezeAccount
  | ThawAccount
  | TransferChecked u64 u8
  | ApproveChecked u64 u8
  | MintToChecked u64 u8
  | BurnChecked u64 u8
  | InitializeAccount2 pubkey
  | SyncNative
  | InitializeAccount3 pubkey
  | InitializeMultisig2 u8
  | InitializeMint2 u8 pubkey "pubkey option"
  | GetAccountDataSize "extension_type list"
  | InitializeImmutableOwner
  | AmountToUiAmount u64
  | UiAmountToAmount string
  | InitializeMintCloseAuthority "pubkey option"
  | TransferFeeExtension transfer_fee_instruction
  | ConfidentialTransferExtension
  | DefaultAccountStateExtension
  | Reallocate "extension_type list"
  | MemoTransferExtension
  | CreateNativeMint
  | InitializeNonTransferableMint
  | InterestBearingMintExtension

fun authority_byte :: "authority_type \<Rightarrow> u8" where
  "authority_byte AuthMintTokens = 0"
| "authority_byte AuthFreezeAccount = 1"
| "authority_byte AuthAccountOwner = 2"
| "authority_byte AuthCloseAccount = 3"
| "authority_byte AuthTransferFeeConfig = 4"
| "authority_byte AuthWithheldWithdraw = 5"
| "authority_byte AuthCloseMint = 6"
| "authority_byte AuthInterestRate = 7"

definition authority_of :: "u8 \<Rightarrow> program_error + authority_type" where
  "authority_of b =
     (if b = 0 then Inr AuthMintTokens else if b = 1 then Inr AuthFreezeAccount
      else if b = 2 then Inr AuthAccountOwner else if b = 3 then Inr AuthCloseAccount
      else if b = 4 then Inr AuthTransferFeeConfig else if b = 5 then Inr AuthWithheldWithdraw
      else if b = 6 then Inr AuthCloseMint else if b = 7 then Inr AuthInterestRate
      else Inl (Token InvalidInstruction))"

section \<open>Reading fields\<close>

abbreviation invalid :: "program_error + 'a" where
  "invalid \<equiv> Inl (Token InvalidInstruction)"

definition split_first :: "bytes \<Rightarrow> program_error + u8 \<times> bytes" where
  "split_first input = (case input of [] \<Rightarrow> invalid | b # rest \<Rightarrow> Inr (b, rest))"

definition unpack_pubkey :: "bytes \<Rightarrow> program_error + pubkey \<times> bytes" where
  "unpack_pubkey input =
     (if length input < 32 then invalid else Inr (bytes_key (take 32 input), drop 32 input))"

definition unpack_pubkey_option :: "bytes \<Rightarrow> program_error + pubkey option \<times> bytes" where
  "unpack_pubkey_option input =
     (case input of
        [] \<Rightarrow> invalid
      | b # rest \<Rightarrow>
          if b = 0 then Inr (None, rest)
          else if b = 1 then rbind (unpack_pubkey rest) (\<lambda>(k, rest). Inr (Some k, rest))
          else invalid)"

definition pack_pubkey_option :: "pubkey option \<Rightarrow> bytes" where
  "pack_pubkey_option v = (case v of Some k \<Rightarrow> 1 # key_bytes k | None \<Rightarrow> [0])"

definition unpack_u16 :: "bytes \<Rightarrow> program_error + u16 \<times> bytes" where
  "unpack_u16 input =
     (if length input < 2 then invalid else Inr (bytes_u16 (take 2 input), drop 2 input))"

definition unpack_u64 :: "bytes \<Rightarrow> program_error + u64 \<times> bytes" where
  "unpack_u64 input =
     (if length input < 8 then invalid else Inr (bytes_u64 (take 8 input), drop 8 input))"

definition unpack_amount_decimals :: "bytes \<Rightarrow> program_error + u64 \<times> u8 \<times> bytes" where
  "unpack_amount_decimals input =
     rbind (unpack_u64 input) (\<lambda>(a, rest).
     rbind (split_first rest) (\<lambda>(d, rest). Inr (a, d, rest)))"

text \<open>\<open>rest.chunks(2)\<close>: the last chunk may be one byte, which is no extension type.\<close>

fun unpack_extension_types :: "bytes \<Rightarrow> program_error + extension_type list" where
  "unpack_extension_types [] = Inr []"
| "unpack_extension_types [b] = rbind (extension_type_of [b]) (\<lambda>t. Inr [t])"
| "unpack_extension_types (a # b # rest) =
     rbind (extension_type_of [a, b]) (\<lambda>t.
     rbind (unpack_extension_types rest) (\<lambda>ts. Inr (t # ts)))"

text \<open>\<open>str::from_utf8\<close>: the well-formed byte sequences of the Unicode standard.\<close>

fun valid_utf8 :: "nat list \<Rightarrow> bool" where
  "valid_utf8 [] = True"
| "valid_utf8 (a # r) =
     (if a < 128 then valid_utf8 r
      else case r of
        [] \<Rightarrow> False
      | b # r1 \<Rightarrow>
          if 194 \<le> a \<and> a \<le> 223 then 128 \<le> b \<and> b \<le> 191 \<and> valid_utf8 r1
          else case r1 of
            [] \<Rightarrow> False
          | c # r2 \<Rightarrow>
              if 224 \<le> a \<and> a \<le> 239 then
                (if a = 224 then 160 else 128) \<le> b \<and> b \<le> (if a = 237 then 159 else 191)
                \<and> 128 \<le> c \<and> c \<le> 191 \<and> valid_utf8 r2
              else case r2 of
                [] \<Rightarrow> False
              | d # r3 \<Rightarrow>
                  240 \<le> a \<and> a \<le> 244 \<and> (if a = 240 then 144 else 128) \<le> b
                  \<and> b \<le> (if a = 244 then 143 else 191) \<and> 128 \<le> c \<and> c \<le> 191
                  \<and> 128 \<le> d \<and> d \<le> 191 \<and> valid_utf8 r3)"

definition char_byte :: "char \<Rightarrow> u8" where
  "char_byte c = of_nat (of_char c)"

definition byte_char :: "u8 \<Rightarrow> char" where
  "byte_char b = char_of (unat b)"

definition from_utf8 :: "bytes \<Rightarrow> program_error + string" where
  "from_utf8 b = (if valid_utf8 (map unat b) then Inr (map byte_char b) else invalid)"

section \<open>The fee instructions\<close>

definition unpack_fee_instruction :: "bytes \<Rightarrow> program_error + transfer_fee_instruction \<times> bytes" where
  "unpack_fee_instruction input =
     rbind (split_first input) (\<lambda>(tag, rest).
     if tag = 0 then
       rbind (unpack_pubkey_option rest) (\<lambda>(c, rest).
       rbind (unpack_pubkey_option rest) (\<lambda>(w, rest).
       rbind (unpack_u16 rest) (\<lambda>(points, rest).
       rbind (unpack_u64 rest) (\<lambda>(max_fee, rest).
       Inr (InitializeTransferFeeConfig c w points max_fee, rest)))))
     else if tag = 1 then
       rbind (unpack_amount_decimals rest) (\<lambda>(a, d, rest).
       rbind (unpack_u64 rest) (\<lambda>(fee, rest). Inr (TransferCheckedWithFee a d fee, rest)))
     else if tag = 2 then Inr (WithdrawWithheldTokensFromMint, rest)
     else if tag = 3 then
       rbind (split_first rest) (\<lambda>(n, rest). Inr (WithdrawWithheldTokensFromAccounts n, rest))
     else if tag = 4 then Inr (HarvestWithheldTokensToMint, rest)
     else if tag = 5 then
       rbind (unpack_u16 rest) (\<lambda>(points, rest).
       rbind (unpack_u64 rest) (\<lambda>(max_fee, rest). Inr (SetTransferFee points max_fee, rest)))
     else invalid)"

fun pack_fee_instruction :: "transfer_fee_instruction \<Rightarrow> bytes" where
  "pack_fee_instruction (InitializeTransferFeeConfig c w points max_fee) =
     0 # pack_pubkey_option c @ pack_pubkey_option w @ u16_bytes points @ u64_bytes max_fee"
| "pack_fee_instruction (TransferCheckedWithFee a d fee) = 1 # u64_bytes a @ [d] @ u64_bytes fee"
| "pack_fee_instruction WithdrawWithheldTokensFromMint = [2]"
| "pack_fee_instruction (WithdrawWithheldTokensFromAccounts n) = [3, n]"
| "pack_fee_instruction HarvestWithheldTokensToMint = [4]"
| "pack_fee_instruction (SetTransferFee points max_fee) = 5 # u16_bytes points @ u64_bytes max_fee"

section \<open>The token instructions\<close>

text \<open>The four instructions with a bare amount only look at its eight bytes.\<close>

definition unpack_amount :: "bytes \<Rightarrow> program_error + u64" where
  "unpack_amount rest = rbind (unpack_u64 rest) (\<lambda>(a, _). Inr a)"

definition unpack_mint_fields :: "bytes \<Rightarrow> program_error + u8 \<times> pubkey \<times> pubkey option" where
  "unpack_mint_fields rest =
     rbind (split_first rest) (\<lambda>(d, rest).
     rbind (unpack_pubkey rest) (\<lambda>(authority, rest).
     rbind (unpack_pubkey_option rest) (\<lambda>(freeze, _). Inr (d, authority, freeze))))"

definition unpack_instruction :: "bytes \<Rightarrow> program_error + token_instruction" where
  "unpack_instruction input =
     rbind (split_first input) (\<lambda>(tag, rest).
     if tag = 0 then rbind (unpack_mint_fields rest) (\<lambda>(d, authority, freeze). Inr (InitializeMint d authority freeze))
     else if tag = 1 then Inr InitializeAccount
     else if tag = 2 then rbind (split_first rest) (\<lambda>(m, _). Inr (InitializeMultisig m))
     else if tag = 3 then rbind (unpack_amount rest) (\<lambda>a. Inr (Transfer a))
     else if tag = 4 then rbind (unpack_amount rest) (\<lambda>a. Inr (Approve a))
     else if tag = 5 then Inr Revoke
     else if tag = 6 then rbind (split_first rest) (\<lambda>(b, rest).
       rbind (authority_of b) (\<lambda>ty.
       rbind (unpack_pubkey_option rest) (\<lambda>(k, _). Inr (SetAuthority ty k))))
     else if tag = 7 then rbind (unpack_amount rest) (\<lambda>a. Inr (MintTo a))
     else if tag = 8 then rbind (unpack_amount rest) (\<lambda>a. Inr (Burn a))
     else if tag = 9 then Inr CloseAccount
     else if tag = 10 then Inr FreezeAccount
     else if tag = 11 then Inr ThawAccount
     else if tag = 12 then rbind (unpack_amount_decimals rest) (\<lambda>(a, d, _). Inr (TransferChecked a d))
     else if tag = 13 then rbind (unpack_amount_decimals rest) (\<lambda>(a, d, _). Inr (ApproveChecked a d))
     else if tag = 14 then rbind (unpack_amount_decimals rest) (\<lambda>(a, d, _). Inr (MintToChecked a d))
     else if tag = 15 then rbind (unpack_amount_decimals rest) (\<lambda>(a, d, _). Inr (BurnChecked a d))
     else if tag = 16 then rbind (unpack_pubkey rest) (\<lambda>(k, _). Inr (InitializeAccount2 k))
     else if tag = 17 then Inr SyncNative
     else if tag = 18 then rbind (unpack_pubkey rest) (\<lambda>(k, _). Inr (InitializeAccount3 k))
     else if tag = 19 then rbind (split_first rest) (\<lambda>(m, _). Inr (InitializeMultisig2 m))
     else if tag = 20 then rbind (unpack_mint_fields rest) (\<lambda>(d, authority, freeze). Inr (InitializeMint2 d authority freeze))
     else if tag = 21 then rbind (unpack_extension_types rest) (\<lambda>ts. Inr (GetAccountDataSize ts))
     else if tag = 22 then Inr InitializeImmutableOwner
     else if tag = 23 then rbind (unpack_amount rest) (\<lambda>a. Inr (AmountToUiAmount a))
     else if tag = 24 then rbind (from_utf8 rest) (\<lambda>s. Inr (UiAmountToAmount s))
     else if tag = 25 then rbind (unpack_pubkey_option rest) (\<lambda>(k, _). Inr (InitializeMintCloseAuthority k))
     else if tag = 26 then rbind (unpack_fee_instruction rest) (\<lambda>(i, _). Inr (TransferFeeExtension i))
     else if tag = 27 then Inr ConfidentialTransferExtension
     else if tag = 28 then Inr DefaultAccountStateExtension
     else if tag = 29 then rbind (unpack_extension_types rest) (\<lambda>ts. Inr (Reallocate ts))
     else if tag = 30 then Inr MemoTransferExtension
     else if tag = 31 then Inr CreateNativeMint
     else if tag = 32 then Inr InitializeNonTransferableMint
     else if tag = 33 then Inr InterestBearingMintExtension
     else invalid)"

fun pack_instruction :: "token_instruction \<Rightarrow> bytes" where
  "pack_instruction (InitializeMint d authority freeze) = 0 # d # key_bytes authority @ pack_pubkey_option freeze"
| "pack_instruction InitializeAccount = [1]"
| "pack_instruction (InitializeMultisig m) = [2, m]"
| "pack_instruction (Transfer a) = 3 # u64_bytes a"
| "pack_instruction (Approve a) = 4 # u64_bytes a"
| "pack_instruction (MintTo a) = 7 # u64_bytes a"
| "pack_instruction (Burn a) = 8 # u64_bytes a"
| "pack_instruction Revoke = [5]"
| "pack_instruction (SetAuthority ty k) = 6 # authority_byte ty # pack_pubkey_option k"
| "pack_instruction CloseAccount = [9]"
| "pack_instruction FreezeAccount = [10]"
| "pack_instruction ThawAccount = [11]"
| "pack_instruction (TransferChecked a d) = 12 # u64_bytes a @ [d]"
| "pack_instruction (ApproveChecked a d) = 13 # u64_bytes a @ [d]"
| "pack_instruction (MintToChecked a d) = 14 # u64_bytes a @ [d]"
| "pack_instruction (BurnChecked a d) = 15 # u64_bytes a @ [d]"
| "pack_instruction (InitializeAccount2 k) = 16 # key_bytes k"
| "pack_instruction SyncNative = [17]"
| "pack_instruction (InitializeAccount3 k) = 18 # key_bytes k"
| "pack_instruction (InitializeMultisig2 m) = [19, m]"
| "pack_instruction (InitializeMint2 d authority freeze) = 20 # d # key_bytes authority @ pack_pubkey_option freeze"
| "pack_instruction (GetAccountDataSize ts) = 21 # concat (map (\<lambda>t. u16_bytes (extension_code t)) ts)"
| "pack_instruction InitializeImmutableOwner = [22]"
| "pack_instruction (AmountToUiAmount a) = 23 # u64_bytes a"
| "pack_instruction (UiAmountToAmount s) = 24 # map char_byte s"
| "pack_instruction (InitializeMintCloseAuthority k) = 25 # pack_pubkey_option k"
| "pack_instruction (TransferFeeExtension i) = 26 # pack_fee_instruction i"
| "pack_instruction ConfidentialTransferExtension = [27]"
| "pack_instruction DefaultAccountStateExtension = [28]"
| "pack_instruction (Reallocate ts) = 29 # concat (map (\<lambda>t. u16_bytes (extension_code t)) ts)"
| "pack_instruction MemoTransferExtension = [30]"
| "pack_instruction CreateNativeMint = [31]"
| "pack_instruction InitializeNonTransferableMint = [32]"
| "pack_instruction InterestBearingMintExtension = [33]"

section \<open>Round trip\<close>

text \<open>The text of an instruction is a Rust \<open>str\<close>, so it is well-formed UTF-8.\<close>

fun str_invariant :: "token_instruction \<Rightarrow> bool" where
  "str_invariant (UiAmountToAmount s) = valid_utf8 (map of_char s)"
| "str_invariant _ = True"

lemma split_first_Cons [simp]: "split_first (b # rest) = Inr (b, rest)"
  by (simp add: split_first_def)

lemma unpack_field_append [simp]:
  "unpack_pubkey (key_bytes k @ rest) = Inr (k, rest)"
  "unpack_u16 (u16_bytes h @ rest) = Inr (h, rest)"
  "unpack_u64 (u64_bytes a @ rest) = Inr (a, rest)"
  by (simp_all add: unpack_pubkey_def unpack_u16_def unpack_u64_def)

lemma unpack_field [simp]:
  "unpack_pubkey (key_bytes k) = Inr (k, [])"
  "unpack_u64 (u64_bytes a) = Inr (a, [])"
  using unpack_field_append(1) [of k "[]"] unpack_field_append(3) [of a "[]"] by simp_all

lemma unpack_pubkey_option_append [simp]:
  "unpack_pubkey_option (pack_pubkey_option k @ rest) = Inr (k, rest)"
  by (cases k) (simp_all add: unpack_pubkey_option_def pack_pubkey_option_def)

lemma unpack_pubkey_option_pack [simp]: "unpack_pubkey_option (pack_pubkey_option k) = Inr (k, [])"
  using unpack_pubkey_option_append [of k "[]"] by simp

lemma authority_of_byte [simp]: "authority_of (authority_byte ty) = Inr ty"
  by (cases ty) (simp_all add: authority_of_def)

lemma u16_bytes_two: obtains a b where "u16_bytes h = [a, b]"
  by (simp add: u16_bytes_def numeral_2_eq_2)

lemma unpack_extension_types_pack [simp]:
  "unpack_extension_types (concat (map (\<lambda>t. u16_bytes (extension_code t)) ts)) = Inr ts"
proof (induction ts)
  case (Cons t ts)
  obtain a b where ab: "u16_bytes (extension_code t) = [a, b]"
    by (rule u16_bytes_two)
  then have "extension_type_of [a, b] = Inr t"
    using extension_type_of_code [of t] by simp
  then show ?case using Cons ab by simp
qed simp

lemma from_utf8_bytes: "valid_utf8 (map of_char s) \<Longrightarrow> from_utf8 (map char_byte s) = Inr s"
proof -
  have byte: "unat (char_byte c) = of_char c" for c
    by (simp add: char_byte_def unat_of_nat)
  then have "byte_char (char_byte c) = c" for c
    by (simp add: byte_char_def)
  then show "valid_utf8 (map of_char s) \<Longrightarrow> from_utf8 (map char_byte s) = Inr s"
    using byte by (simp add: from_utf8_def comp_def)
qed

lemma unpack_pack_fee: "unpack_fee_instruction (pack_fee_instruction i) = Inr (i, [])"
  by (cases i) (simp_all add: unpack_fee_instruction_def unpack_amount_decimals_def)

lemma unpack_pack_instruction: "str_invariant i \<Longrightarrow> unpack_instruction (pack_instruction i) = Inr i"
  by (cases i) (simp_all add: unpack_instruction_def unpack_amount_def unpack_amount_decimals_def
      unpack_mint_fields_def unpack_pack_fee from_utf8_bytes)

text \<open>
  C26. Every instruction the client packs is the instruction the program unpacks, for all
  thirty-four instructions, the fee instructions inside them included.
\<close>

theorem instruction_roundtrip:
  assumes "str_invariant i"
  shows "unpack_instruction (pack_instruction i) = Inr i"
  using assms by (rule unpack_pack_instruction)

theorem instruction_roundtrip_witness:
  "unpack_instruction (pack_instruction (UiAmountToAmount ''1.5'')) = Inr (UiAmountToAmount ''1.5'')"
  by (rule instruction_roundtrip) simp

section \<open>Decoding the extension instructions\<close>

definition decode_instruction_type :: "(u8 \<Rightarrow> 'a option) \<Rightarrow> bytes \<Rightarrow> program_error + 'a" where
  "decode_instruction_type try_from input =
     (case input of
        [] \<Rightarrow> Inl InvalidInstructionData
      | b # _ \<Rightarrow> ok_or (try_from b) (Token InvalidInstruction))"

text \<open>\<open>decode_instruction_data::<T>\<close> for a plain-old-data \<open>T\<close> of \<open>len\<close> bytes.\<close>

definition decode_instruction_data :: "nat \<Rightarrow> (bytes \<Rightarrow> 'a) \<Rightarrow> bytes \<Rightarrow> program_error + 'a" where
  "decode_instruction_data len value input =
     (if length input \<noteq> len + 1 then Inl InvalidInstructionData else Inr (value (drop 1 input)))"

definition two_instructions :: "u8 \<Rightarrow> bool option" where
  "two_instructions b = (if b = 0 then Some True else if b = 1 then Some False else None)"

text \<open>\<open>True\<close> is \<open>Initialize\<close>, \<open>False\<close> is \<open>Update\<close>.\<close>

definition decode_default_state :: "bytes \<Rightarrow> program_error + bool \<times> account_state" where
  "decode_default_state input =
     (if length input \<noteq> 2 then invalid
      else
        rbind (ok_or (two_instructions (input ! 0)) (Token InvalidInstruction)) (\<lambda>i.
        case account_state_of (input ! 1) of Inl _ \<Rightarrow> invalid | Inr s \<Rightarrow> Inr (i, s)))"

end
