(* ===== verification/Token_Dispatch.thy ===== *)
theory Token_Dispatch
  imports Token_Options Token_Amount Token_Instruction
begin

text \<open>
  \<open>Processor::process\<close> of \<open>spl_token_2022/processor.rs\<close>: decoding an instruction and running its
  handler, through the \<open>process_instruction\<close> of the extension it belongs to where there is
  one, and the two handlers that convert amounts.  A call leaves a store and, for the three
  queries, the return data.
\<close>

section \<open>Converting amounts\<close>

definition ui_mint :: "token_sdk \<Rightarrow> info list \<Rightarrow> store \<Rightarrow> mint state_view token_res" where
  "ui_mint K accounts st =
     rbind (next_account_info accounts) (\<lambda>(mint_info, _).
     rbind (check_program_account (info_owner st mint_info)) (\<lambda>_.
     rbind (borrow_data [] st mint_info) (\<lambda>d.
     unpack_valid_mint K d)))"

definition process_amount_to_ui_amount :: "token_sdk \<Rightarrow> info list \<Rightarrow> u64 \<Rightarrow> store \<Rightarrow> bytes token_res" where
  "process_amount_to_ui_amount K accounts amt st =
     rbind (ui_mint K accounts st) (\<lambda>mint.
     rbind (ok_option (get_extension (MintS K) interest_bearing_config_ext (view_tlv mint))) (\<lambda>e.
     rbind (case e of
              Some c \<Rightarrow>
                rbind (lift_err (clock_get K)) (\<lambda>clock.
                ok_or (interest_ui_amount K c amt (decimals (view_base mint)) (clock_unix_timestamp clock))
                  (Err InvalidArgument))
            | None \<Rightarrow> Inr (amount_to_ui_amount_string_trimmed amt (decimals (view_base mint)))) (\<lambda>s.
     Inr (map char_byte s))))"

definition process_ui_amount_to_amount :: "token_sdk \<Rightarrow> info list \<Rightarrow> string \<Rightarrow> store \<Rightarrow> bytes token_res" where
  "process_ui_amount_to_amount K accounts ui_amount st =
     rbind (ui_mint K accounts st) (\<lambda>mint.
     rbind (ok_option (get_extension (MintS K) interest_bearing_config_ext (view_tlv mint))) (\<lambda>e.
     rbind (case e of
              Some c \<Rightarrow>
                rbind (lift_err (clock_get K)) (\<lambda>clock.
                lift_err (interest_raw_amount K c ui_amount (decimals (view_base mint)) (clock_unix_timestamp clock)))
            | None \<Rightarrow> lift_err (try_ui_amount_into_amount ui_amount (decimals (view_base mint)))) (\<lambda>amt.
     Inr (u64_bytes amt))))"

section \<open>The extension processors\<close>

definition process_transfer_fee_instruction ::
  "token_sdk \<Rightarrow> pubkey \<Rightarrow> info list \<Rightarrow> transfer_fee_instruction \<Rightarrow> store \<Rightarrow> store token_res" where
  "process_transfer_fee_instruction K program_id accounts instruction st =
     rbind (check_program_account program_id) (\<lambda>_.
     case instruction of
       InitializeTransferFeeConfig c w points max_fee \<Rightarrow>
         process_initialize_transfer_fee_config K accounts c w points max_fee st
     | TransferCheckedWithFee a d fee \<Rightarrow> process_transfer K program_id accounts a (Some d) (Some fee) st
     | WithdrawWithheldTokensFromMint \<Rightarrow> process_withdraw_withheld_tokens_from_mint K program_id accounts st
     | WithdrawWithheldTokensFromAccounts n \<Rightarrow>
         process_withdraw_withheld_tokens_from_accounts K program_id accounts n st
     | HarvestWithheldTokensToMint \<Rightarrow> process_harvest_withheld_tokens_to_mint K accounts st
     | SetTransferFee points max_fee \<Rightarrow> process_set_transfer_fee K program_id accounts points max_fee st)"

definition process_default_account_state_instruction ::
  "token_sdk \<Rightarrow> pubkey \<Rightarrow> info list \<Rightarrow> bytes \<Rightarrow> store \<Rightarrow> store token_res" where
  "process_default_account_state_instruction K program_id accounts input st =
     rbind (check_program_account program_id) (\<lambda>_.
     rbind (lift_err (decode_default_state input)) (\<lambda>(initialize, state).
     if initialize then process_initialize_default_account_state K accounts state st
     else process_update_default_account_state K program_id accounts state st))"

definition process_memo_transfer_instruction ::
  "token_sdk \<Rightarrow> pubkey \<Rightarrow> info list \<Rightarrow> bytes \<Rightarrow> store \<Rightarrow> store token_res" where
  "process_memo_transfer_instruction K program_id accounts input st =
     rbind (check_program_account program_id) (\<lambda>_.
     rbind (lift_err (decode_instruction_type two_instructions input)) (\<lambda>enable.
     process_required_memo_transfers K program_id accounts enable st))"

definition process_interest_bearing_mint_instruction ::
  "token_sdk \<Rightarrow> pubkey \<Rightarrow> info list \<Rightarrow> bytes \<Rightarrow> store \<Rightarrow> store token_res" where
  "process_interest_bearing_mint_instruction K program_id accounts input st =
     rbind (check_program_account program_id) (\<lambda>_.
     rbind (lift_err (decode_instruction_type two_instructions input)) (\<lambda>initialize.
     if initialize then
       rbind (lift_err (decode_instruction_data 34
                (\<lambda>b. (bytes_key (slice 0 32 b), bytes_u16 (slice 32 2 b))) input)) (\<lambda>(rate_authority, rate).
       process_initialize_interest K accounts rate_authority rate st)
     else
       rbind (lift_err (decode_instruction_data 2 bytes_u16 input)) (\<lambda>new_rate.
       process_update_rate K program_id accounts new_rate st)))"

section \<open>Dispatch\<close>

definition silent :: "store token_res \<Rightarrow> (store \<times> bytes option) token_res" where
  "silent r = rbind r (\<lambda>st. Inr (st, None))"

definition answer :: "store \<Rightarrow> bytes token_res \<Rightarrow> (store \<times> bytes option) token_res" where
  "answer st r = rbind r (\<lambda>d. Inr (st, Some d))"

definition process_instruction ::
  "token_sdk \<Rightarrow> pubkey \<Rightarrow> info list \<Rightarrow> bytes \<Rightarrow> token_instruction \<Rightarrow> store
     \<Rightarrow> (store \<times> bytes option) token_res" where
  "process_instruction K program_id accounts rest instruction st =
     (case instruction of
        InitializeMint d authority freeze \<Rightarrow>
          silent (process_initialize_mint K accounts d authority freeze True st)
      | InitializeMint2 d authority freeze \<Rightarrow>
          silent (process_initialize_mint K accounts d authority freeze False st)
      | InitializeAccount \<Rightarrow> silent (process_initialize_account K accounts None True st)
      | InitializeAccount2 k \<Rightarrow> silent (process_initialize_account K accounts (Some k) True st)
      | InitializeAccount3 k \<Rightarrow> silent (process_initialize_account K accounts (Some k) False st)
      | InitializeMultisig m \<Rightarrow> silent (process_initialize_multisig K accounts m True st)
      | InitializeMultisig2 m \<Rightarrow> silent (process_initialize_multisig K accounts m False st)
      | Transfer a \<Rightarrow> silent (process_transfer K program_id accounts a None None st)
      | Approve a \<Rightarrow> silent (process_approve K program_id accounts a None st)
      | Revoke \<Rightarrow> silent (process_revoke K program_id accounts st)
      | SetAuthority ty k \<Rightarrow> silent (process_set_authority K program_id accounts ty k st)
      | MintTo a \<Rightarrow> silent (process_mint_to K program_id accounts a None st)
      | Burn a \<Rightarrow> silent (process_burn K program_id accounts a None st)
      | CloseAccount \<Rightarrow> silent (process_close_account K program_id accounts st)
      | FreezeAccount \<Rightarrow> silent (process_toggle_freeze_account K program_id accounts True st)
      | ThawAccount \<Rightarrow> silent (process_toggle_freeze_account K program_id accounts False st)
      | TransferChecked a d \<Rightarrow> silent (process_transfer K program_id accounts a (Some d) None st)
      | ApproveChecked a d \<Rightarrow> silent (process_approve K program_id accounts a (Some d) st)
      | MintToChecked a d \<Rightarrow> silent (process_mint_to K program_id accounts a (Some d) st)
      | BurnChecked a d \<Rightarrow> silent (process_burn K program_id accounts a (Some d) st)
      | SyncNative \<Rightarrow> silent (process_sync_native K accounts st)
      | GetAccountDataSize types \<Rightarrow> answer st (process_get_account_data_size K accounts types st)
      | InitializeMintCloseAuthority k \<Rightarrow> silent (process_initialize_mint_close_authority K accounts k st)
      | TransferFeeExtension i \<Rightarrow> silent (process_transfer_fee_instruction K program_id accounts i st)
      | ConfidentialTransferExtension \<Rightarrow> err InvalidArgument
      | DefaultAccountStateExtension \<Rightarrow>
          silent (process_default_account_state_instruction K program_id accounts rest st)
      | InitializeImmutableOwner \<Rightarrow> silent (process_initialize_immutable_owner K accounts st)
      | AmountToUiAmount a \<Rightarrow> answer st (process_amount_to_ui_amount K accounts a st)
      | UiAmountToAmount s \<Rightarrow> answer st (process_ui_amount_to_amount K accounts s st)
      | Reallocate types \<Rightarrow> silent (process_reallocate K program_id accounts types st)
      | MemoTransferExtension \<Rightarrow> silent (process_memo_transfer_instruction K program_id accounts rest st)
      | CreateNativeMint \<Rightarrow> silent (process_create_native_mint K accounts st)
      | InitializeNonTransferableMint \<Rightarrow> silent (process_initialize_non_transferable_mint K accounts st)
      | InterestBearingMintExtension \<Rightarrow>
          silent (process_interest_bearing_mint_instruction K program_id accounts rest st))"

definition process ::
  "token_sdk \<Rightarrow> pubkey \<Rightarrow> info list \<Rightarrow> bytes \<Rightarrow> store \<Rightarrow> (store \<times> bytes option) token_res" where
  "process K program_id accounts input st =
     rbind (lift_err (unpack_instruction input)) (\<lambda>instruction.
     process_instruction K program_id accounts (drop 1 input) instruction st)"

end
