(* ===== verification/Token_Conservation.thy ===== *)
theory Token_Conservation
  imports Token_Frame Token_Dispatch
begin

text \<open>
  The ledger as a whole: which tokens of a mint exist and where, and what every instruction
  on existing accounts does to them.  \<open>allowed\<close> lists what such an instruction may do to one
  account and \<open>ledger_step\<close> adds that no token appears or disappears; the handlers are proved
  to be such steps one by one, from what they write.
\<close>

section \<open>Where the tokens are\<close>

definition mint_withheld :: "token_sdk \<Rightarrow> mint ext_state \<Rightarrow> nat" where
  "mint_withheld K w =
     (case get_extension_mut (MintS K) transfer_fee_config_ext w of
        Inr (_, c) \<Rightarrow> unat (mint_withheld_amount c) | Inl _ \<Rightarrow> 0)"

definition holding :: "token_sdk \<Rightarrow> pubkey \<Rightarrow> token_account ext_state \<Rightarrow> nat" where
  "holding K m w =
     (if acc_mint (ext_base w) = m then unat (amount (ext_base w)) + fee_withheld K w else 0)"

text \<open>The tokens of mint \<open>m\<close> kept at key \<open>k\<close>: an account's balance and withheld fees, or the
  fees harvested to the mint itself.\<close>

definition tokens_at :: "token_sdk \<Rightarrow> pubkey \<Rightarrow> store \<Rightarrow> pubkey \<Rightarrow> nat" where
  "tokens_at K m st k =
     (case unpack_mut (AccountS K) (cell_data (st k)) of
        Inr w \<Rightarrow> holding K m w
      | Inl _ \<Rightarrow>
          (case unpack_mut (MintS K) (cell_data (st k)) of
             Inr w \<Rightarrow> if k = m then mint_withheld K w else 0
           | Inl _ \<Rightarrow> 0))"

definition circulating :: "token_sdk \<Rightarrow> pubkey set \<Rightarrow> pubkey \<Rightarrow> store \<Rightarrow> nat" where
  "circulating K A m st = (\<Sum>k\<in>A. tokens_at K m st k)"

definition supply_of :: "token_sdk \<Rightarrow> pubkey \<Rightarrow> store \<Rightarrow> nat" where
  "supply_of K m st =
     (case unpack_mut (MintS K) (cell_data (st m)) of
        Inr w \<Rightarrow> unat (mint_supply (ext_base w)) | Inl _ \<Rightarrow> 0)"

section \<open>What an instruction may do\<close>

definition signed_for :: "store \<Rightarrow> pubkey \<Rightarrow> info list \<Rightarrow> (info \<Rightarrow> pubkey) \<Rightarrow> bool" where
  "signed_for st program_id accounts key \<longleftrightarrow>
     (\<exists>authority infos. insert authority (set infos) \<subseteq> set accounts
        \<and> authorised st program_id (key authority) authority infos)"

text \<open>
  One account: its mint stays, a frozen account does not change unless this is a thaw, its
  balance drops only with the owner's or the delegate's signature (anyone may burn what
  belongs to the System program or the incinerator), and only the owner names a new owner or
  a delegate.
\<close>

definition allowed ::
  "token_sdk \<Rightarrow> pubkey \<Rightarrow> info list \<Rightarrow> bool \<Rightarrow> store \<Rightarrow> token_account \<Rightarrow> token_account \<Rightarrow> bool" where
  "allowed K program_id accounts thaw st a b \<longleftrightarrow>
     acc_mint b = acc_mint a
   \<and> (is_frozen a \<longrightarrow> \<not> thaw \<longrightarrow> b = a)
   \<and> (amount b < amount a \<longrightarrow> signed_for st program_id accounts (debit_key a)
        \<or> is_owned_by_system_program_or_incinerator K a)
   \<and> (acc_owner b \<noteq> acc_owner a \<or> delegate b \<noteq> delegate a \<and> delegate b \<noteq> None \<longrightarrow>
        signed_for st program_id accounts (\<lambda>_. acc_owner a))"

definition keeps :: "token_sdk \<Rightarrow> (token_account \<Rightarrow> token_account \<Rightarrow> bool) \<Rightarrow> store \<Rightarrow> store \<Rightarrow> bool" where
  "keeps K P st st' \<longleftrightarrow>
     (\<forall>k w. account_at K st k w \<longrightarrow> (\<exists>w'. account_at K st' k w' \<and> P (ext_base w) (ext_base w')))
   \<and> (\<forall>k w. mint_at K st k w \<longrightarrow> (\<exists>w'. mint_at K st' k w' \<and> decimals (ext_base w') = decimals (ext_base w)))"

definition ledger_step ::
  "token_sdk \<Rightarrow> pubkey \<Rightarrow> info list \<Rightarrow> bool \<Rightarrow> pubkey set \<Rightarrow> store \<Rightarrow> store \<Rightarrow> bool" where
  "ledger_step K program_id accounts thaw A st st' \<longleftrightarrow>
     keeps K (allowed K program_id accounts thaw st) st st'
   \<and> (\<forall>m. circulating K A m st' + supply_of K m st = circulating K A m st + supply_of K m st')"

lemma allowed_same [simp]: "allowed K program_id accounts thaw st a a"
  by (simp add: allowed_def)

lemma keeps_same: "(\<And>a. P a a) \<Longrightarrow> (\<And>k. cell_data (st' k) = cell_data (st k)) \<Longrightarrow> keeps K P st st'"
  unfolding keeps_def account_at_def mint_at_def by auto

lemma keeps_then: "keeps K (=) st st1 \<Longrightarrow> keeps K P st1 st2 \<Longrightarrow> keeps K P st st2"
  unfolding keeps_def by metis

lemma then_keeps: "keeps K P st st1 \<Longrightarrow> keeps K (=) st1 st2 \<Longrightarrow> keeps K P st st2"
  unfolding keeps_def by metis

lemma signed_forI:
  "authorised st program_id (key authority) authority infos \<Longrightarrow> authority \<in> set accounts
   \<Longrightarrow> set infos \<subseteq> set accounts \<Longrightarrow> signed_for st program_id accounts key"
  unfolding signed_for_def by blast

section \<open>Single writes\<close>

text \<open>Only the data at \<open>B\<close> changed.\<close>

definition only_at :: "pubkey set \<Rightarrow> store \<Rightarrow> store \<Rightarrow> bool" where
  "only_at B st st' \<longleftrightarrow> (\<forall>k. k \<notin> B \<longrightarrow> cell_data (st' k) = cell_data (st k))"

lemma only_at_put: "only_at {info_key a} st (put_data a d st)"
  by (simp add: only_at_def)

lemma tokens_at_data: "cell_data (st' k) = cell_data (st k) \<Longrightarrow> tokens_at K m st' k = tokens_at K m st k"
  by (simp add: tokens_at_def split: sum.split)

lemma circulating_frame:
  assumes "finite A" and "B \<subseteq> A" and "only_at B st st'"
  shows "circulating K A m st' + circulating K B m st = circulating K A m st + circulating K B m st'"
proof -
  have "(\<Sum>k\<in>A - B. tokens_at K m st' k) = (\<Sum>k\<in>A - B. tokens_at K m st k)"
    using assms(3) by (intro sum.cong) (auto simp: only_at_def intro: tokens_at_data)
  moreover have "circulating K A m s = (\<Sum>k\<in>A - B. tokens_at K m s k) + circulating K B m s" for s
    unfolding circulating_def by (rule sum.subset_diff [OF assms(2,1)])
  ultimately show ?thesis
    by simp
qed

lemma circulating_small [simp]:
  "circulating K {k} m st = tokens_at K m st k"
  "k \<noteq> j \<Longrightarrow> circulating K {k, j} m st = tokens_at K m st k + tokens_at K m st j"
  by (simp_all add: circulating_def)

lemma tokens_at_account: "account_at K st k w \<Longrightarrow> tokens_at K m st k = holding K m w"
  by (simp add: tokens_at_def account_at_def)

context token_program
begin

lemma tokens_at_mint: "mint_at K st k w \<Longrightarrow> tokens_at K m st k = (if k = m then mint_withheld K w else 0)"
  using not_both_kinds [of st k _ w] by (cases "unpack_mut (AccountS K) (cell_data (st k))")
    (auto simp: tokens_at_def mint_at_def account_at_def)

lemma supply_at_mint: "mint_at K st m w \<Longrightarrow> supply_of K m st = unat (mint_supply (ext_base w))"
  by (simp add: supply_of_def mint_at_def)

lemma supply_at_account: "account_at K st m w \<Longrightarrow> supply_of K m st = 0"
  using not_both_kinds [of st m w] by (auto simp: supply_of_def mint_at_def split: sum.split)

lemma supply_elsewhere: "only_at B st st' \<Longrightarrow> m \<notin> B \<Longrightarrow> supply_of K m st' = supply_of K m st"
  by (simp add: supply_of_def only_at_def)

lemma account_written:
  assumes "account_at K st k w" and "account_at K st' k w'" and "only_at {k} st st'"
  shows "(\<And>a. P a a) \<Longrightarrow> P (ext_base w) (ext_base w') \<Longrightarrow> keeps K P st st'"
    and "supply_of K m st' = supply_of K m st"
    and "finite A \<Longrightarrow> k \<in> A \<Longrightarrow>
      circulating K A m st' + holding K m w = circulating K A m st + holding K m w'"
proof -
  have other: "account_at K st' j = account_at K st j" "mint_at K st' j = mint_at K st j" if "j \<noteq> k" for j
    using assms(3) that by (simp_all add: only_at_def account_at_def mint_at_def fun_eq_iff)
  show "keeps K P st st'" if "\<And>a. P a a" "P (ext_base w) (ext_base w')"
    unfolding keeps_def
  proof (intro conjI allI impI)
    show "\<exists>v'. account_at K st' j v' \<and> P (ext_base v) (ext_base v')" if "account_at K st j v" for j v
      using that other(1) assms(1,2) \<open>\<And>a. P a a\<close> \<open>P (ext_base w) (ext_base w')\<close>
      by (cases "j = k") (auto simp: account_at_def)
    show "\<exists>v'. mint_at K st' j v' \<and> decimals (ext_base v') = decimals (ext_base v)" if "mint_at K st j v" for j v
      using that other(2) not_both_kinds [OF assms(1)] by (cases "j = k") auto
  qed
  show "supply_of K m st' = supply_of K m st"
    using supply_elsewhere [OF assms(3)] supply_at_account [OF assms(1)] supply_at_account [OF assms(2)]
    by (cases "m = k") auto
  show "circulating K A m st' + holding K m w = circulating K A m st + holding K m w'"
    if "finite A" "k \<in> A"
    using circulating_frame [OF that(1) _ assms(3), of K m] that(2)
      tokens_at_account [OF assms(1), of m] tokens_at_account [OF assms(2), of m] by simp
qed

lemma mint_written:
  assumes "mint_at K st k w" and "mint_at K st' k w'" and "only_at {k} st st'"
    and "decimals (ext_base w') = decimals (ext_base w)"
  shows "(\<And>a. P a a) \<Longrightarrow> keeps K P st st'"
    and "supply_of K m st' = (if m = k then unat (mint_supply (ext_base w')) else supply_of K m st)"
    and "finite A \<Longrightarrow> k \<in> A \<Longrightarrow>
      circulating K A m st' + (if k = m then mint_withheld K w else 0)
        = circulating K A m st + (if k = m then mint_withheld K w' else 0)"
proof -
  have other: "account_at K st' j = account_at K st j" "mint_at K st' j = mint_at K st j" if "j \<noteq> k" for j
    using assms(3) that by (simp_all add: only_at_def account_at_def mint_at_def fun_eq_iff)
  show "keeps K P st st'" if "\<And>a. P a a"
    unfolding keeps_def
  proof (intro conjI allI impI)
    show "\<exists>v'. account_at K st' j v' \<and> P (ext_base v) (ext_base v')" if "account_at K st j v" for j v
      using that other(1) not_both_kinds [of st k v w] assms(1) \<open>\<And>a. P a a\<close> by (cases "j = k") auto
    show "\<exists>v'. mint_at K st' j v' \<and> decimals (ext_base v') = decimals (ext_base v)" if "mint_at K st j v" for j v
      using that other(2) assms(1,2,4) by (cases "j = k") (auto simp: mint_at_def)
  qed
  show "supply_of K m st' = (if m = k then unat (mint_supply (ext_base w')) else supply_of K m st)"
    using supply_elsewhere [OF assms(3)] supply_at_mint [OF assms(2)] by auto
  show "circulating K A m st' + (if k = m then mint_withheld K w else 0)
        = circulating K A m st + (if k = m then mint_withheld K w' else 0)"
    if "finite A" "k \<in> A"
    using circulating_frame [OF that(1) _ assms(3), of K m] that(2)
      tokens_at_mint [OF assms(1), of m] tokens_at_mint [OF assms(2), of m] by simp
qed

end

end
