(* ===== verification/Token_Steps.thy ===== *)
theory Token_Steps
  imports Token_Conservation
begin

text \<open>
  Each handler on existing accounts is a \<open>ledger_step\<close>.
\<close>

section \<open>Handlers that only change rights\<close>

lemma account_is_initialized_state:
  "acc_state b = acc_state a \<Longrightarrow> account_is_initialized b = account_is_initialized a"
  by (simp add: account_is_initialized_def)

lemma next_mint_info_rest: "next_mint_info ed accounts = Inr (m, rest) \<Longrightarrow> set rest \<subseteq> set accounts"
  by (auto simp: next_mint_info_iff split: option.splits)

lemma is_frozen_state: "is_frozen a \<longleftrightarrow> acc_state a = Frozen"
  by (simp add: is_frozen_def)

text \<open>What writing a mint may change without a supply effect.\<close>

definition mint_rewritten :: "token_sdk \<Rightarrow> mint ext_state \<Rightarrow> mint ext_state \<Rightarrow> bool" where
  "mint_rewritten K w w' \<longleftrightarrow>
     unpack_mut (MintS K) (ext_state_data w') = Inr w' \<and> mint_withheld K w' = mint_withheld K w
   \<and> mint_supply (ext_base w') = mint_supply (ext_base w) \<and> decimals (ext_base w') = decimals (ext_base w)"

context token_program
begin

lemma ledger_step_same: "ledger_step K program_id accounts thaw A st st"
  by (simp add: ledger_step_def keeps_same)

lemma account_step:
  assumes "account_at K st k w" and "account_at K st' k w'" and "only_at {k} st st'"
    and "\<And>m. holding K m w' = holding K m w"
    and "allowed K program_id accounts thaw st (ext_base w) (ext_base w')"
    and "finite A" and "k \<in> A"
  shows "ledger_step K program_id accounts thaw A st st'"
  unfolding ledger_step_def
proof (intro conjI allI)
  show "keeps K (allowed K program_id accounts thaw st) st st'"
    by (rule account_written(1) [OF assms(1-3)]) (simp_all add: assms(5))
  show "circulating K A m st' + supply_of K m st = circulating K A m st + supply_of K m st'" for m
    using account_written(2) [OF assms(1-3), of m] account_written(3) [OF assms(1-3,6,7), of m] assms(4)
    by simp
qed

lemma mint_step:
  assumes "mint_at K st k w" and "mint_at K st' k w'" and "only_at {k} st st'"
    and "mint_withheld K w' = mint_withheld K w" and "mint_supply (ext_base w') = mint_supply (ext_base w)"
    and "decimals (ext_base w') = decimals (ext_base w)"
    and "finite A" and "k \<in> A"
  shows "ledger_step K program_id accounts thaw A st st'"
  unfolding ledger_step_def
proof (intro conjI allI)
  show "keeps K (allowed K program_id accounts thaw st) st st'"
    by (rule mint_written(1) [OF assms(1-3,6)]) simp
  show "circulating K A m st' + supply_of K m st = circulating K A m st + supply_of K m st'" for m
    using mint_written(2) [OF assms(1-3,6), of m] mint_written(3) [OF assms(1-3,6-8), of m] assms(4,5)
      supply_at_mint [OF assms(1)]
    by (auto split: if_splits)
qed

lemma base_write_step:
  assumes "store_base (AccountS K) a w b st = Inr st'" and "account_at K st (info_key a) w"
    and "account_is_initialized b" and "amount b = amount (ext_base w)"
    and "allowed K program_id accounts thaw st (ext_base w) b"
    and "finite A" and "info_key a \<in> A"
  shows "ledger_step K program_id accounts thaw A st st'"
proof -
  obtain w' where w': "account_at K st' (info_key a) w'" "ext_base w' = b" "tlv_data w' = tlv_data w"
      "st' = put_data a (ext_state_data w') st"
    using store_base_account [OF assms(1-3)] .
  have "holding K m w' = holding K m w" for m
    using w'(2) assms(4,5) fee_withheld_tlv [OF w'(3)] by (simp add: holding_def allowed_def)
  moreover have "only_at {info_key a} st st'"
    unfolding w'(4) by (rule only_at_put)
  ultimately show ?thesis
    using account_step [OF assms(2) w'(1)] assms(5-7) w'(2) by simp
qed

lemma approve_step:
  assumes "process_approve K program_id accounts amt ed st = Inr st'"
    and "finite A" and "info_key ` set accounts \<subseteq> A"
  shows "ledger_step K program_id accounts thaw A st st'"
proof -
  obtain source rest m rest2 del owner_info infos w where
    accounts: "accounts = source # rest" "next_mint_info ed rest = Inr (m, rest2)" "rest2 = del # owner_info # infos"
    and w: "account_at K st (info_key source) w" "\<not> is_frozen (ext_base w)"
    and owner: "validate_owner K [info_key source] st program_id (acc_owner (ext_base w)) owner_info
        (data_len st owner_info) infos = Inr ()"
    and run: "store_base (AccountS K) source w ((ext_base w)\<lparr>delegate := Some (info_key del),
        delegated_amount := amt\<rparr>) st = Inr st'"
    using assms(1)
    by (auto simp: process_approve_def rbind_Inr_iff next_account_info_iff borrow_iffs Let_def account_at_def
        split: if_splits)
  have sub: "insert owner_info (set infos) \<subseteq> set accounts"
    using next_mint_info_rest [OF accounts(2)] accounts(1,3) by auto
  have "signed_for st program_id accounts (\<lambda>_. acc_owner (ext_base w))"
    using validate_owner_authorised [OF owner] sub by (intro signed_forI) auto
  then have "allowed K program_id accounts thaw st (ext_base w)
      ((ext_base w)\<lparr>delegate := Some (info_key del), delegated_amount := amt\<rparr>)"
    using w(2) by (simp add: allowed_def)
  then show ?thesis
    using base_write_step [OF run w(1)] account_at_initialized [OF w(1)] assms(2,3) accounts(1)
    by (simp add: account_is_initialized_def)
qed

lemma revoke_step:
  assumes "process_revoke K program_id accounts st = Inr st'"
    and "finite A" and "info_key ` set accounts \<subseteq> A"
  shows "ledger_step K program_id accounts thaw A st st'"
proof -
  obtain source rest w where accounts: "accounts = source # rest"
    and w: "account_at K st (info_key source) w" "\<not> is_frozen (ext_base w)"
    and run: "store_base (AccountS K) source w ((ext_base w)\<lparr>delegate := None, delegated_amount := 0\<rparr>) st = Inr st'"
    using assms(1)
    by (auto simp: process_revoke_def rbind_Inr_iff next_account_info_iff borrow_iffs Let_def account_at_def
        split: if_splits)
  have "allowed K program_id accounts thaw st (ext_base w)
      ((ext_base w)\<lparr>delegate := None, delegated_amount := 0\<rparr>)"
    using w(2) by (simp add: allowed_def)
  then show ?thesis
    using base_write_step [OF run w(1)] account_at_initialized [OF w(1)] assms(2,3) accounts
    by (simp add: account_is_initialized_def)
qed

lemma toggle_freeze_step:
  assumes "process_toggle_freeze_account K program_id accounts freeze st = Inr st'"
    and "finite A" and "info_key ` set accounts \<subseteq> A"
  shows "ledger_step K program_id accounts (\<not> freeze) A st st'"
proof -
  obtain source rest w where accounts: "accounts = source # rest"
    and w: "account_at K st (info_key source) w" "freeze \<longrightarrow> \<not> is_frozen (ext_base w)"
    and run: "store_base (AccountS K) source w
        ((ext_base w)\<lparr>acc_state := (if freeze then Frozen else Initialized)\<rparr>) st = Inr st'"
    using assms(1)
    by (auto simp: process_toggle_freeze_account_def rbind_Inr_iff next_account_info_iff borrow_iffs Let_def
        account_at_def split: if_splits)
  have "allowed K program_id accounts (\<not> freeze) st (ext_base w)
      ((ext_base w)\<lparr>acc_state := (if freeze then Frozen else Initialized)\<rparr>)"
    using w(2) by (auto simp: allowed_def)
  then show ?thesis
    using base_write_step [OF run w(1)] account_at_initialized [OF w(1)] assms(2,3) accounts
    by (simp add: account_is_initialized_def)
qed

lemma set_account_authority_allowed:
  assumes "set_account_authority K check ty new_authority w = Inr b"
    and check: "\<And>k. check k = Inr () \<Longrightarrow> signed_for st program_id accounts (\<lambda>_. k)"
  shows "allowed K program_id accounts thaw st (ext_base w) b" and "amount b = amount (ext_base w)"
    and "acc_state b = acc_state (ext_base w)"
proof -
  have "\<not> is_frozen (ext_base w) \<and> acc_mint b = acc_mint (ext_base w) \<and> amount b = amount (ext_base w)
      \<and> acc_state b = acc_state (ext_base w)
      \<and> (acc_owner b \<noteq> acc_owner (ext_base w) \<longrightarrow> check (acc_owner (ext_base w)) = Inr ())
      \<and> (delegate b = delegate (ext_base w) \<or> delegate b = None)"
    using assms(1)
    by (auto simp: set_account_authority_def Let_def rbind_Inr_iff split: if_splits authority_type.splits option.splits)
  then show "allowed K program_id accounts thaw st (ext_base w) b" "amount b = amount (ext_base w)"
    "acc_state b = acc_state (ext_base w)"
    using check by (auto simp: allowed_def)
qed

lemma mint_extension_write:
  assumes "mint_at K st (info_key a) w" and "pod_extension V" and "get_extension_mut (MintS K) V w = Inr (pos, v)"
    and "st' = put_data a (ext_state_data (write_extension V pos x w)) st"
  shows "mint_at K st' (info_key a) (write_extension V pos x w)" and "only_at {info_key a} st st'"
  using base_contract.unpack_written [OF mint_contract assms(1) [unfolded mint_at_def] assms(2,3), of x]
    only_at_put assms(4)
  by (simp_all add: mint_at_def)

lemma mint_withheld_frame:
  assumes "pod_extension V" and "get_extension_mut (MintS K) V w = Inr (pos, v)"
    and "ext_type V \<noteq> ext_type transfer_fee_config_ext"
  shows "mint_withheld K (write_extension V pos x w) = mint_withheld K w"
  using get_extension_mut_frame [OF assms(1,2) assms(3) [symmetric], of x] by (simp add: mint_withheld_def)

lemma mint_withheld_config:
  assumes "get_extension_mut (MintS K) transfer_fee_config_ext w = Inr (pos, c)"
  shows "mint_withheld K (write_extension transfer_fee_config_ext pos x w) = unat (mint_withheld_amount x)"
    and "mint_withheld K w = unat (mint_withheld_amount c)"
  using get_extension_mut_write(1) [OF fee_config_ext.pod_extension_axioms assms, of x] assms
  by (simp_all add: mint_withheld_def)

lemma mint_withheld_tlv: "tlv_data w = tlv_data w' \<Longrightarrow> mint_withheld K w = mint_withheld K w'"
  using get_extension_mut_tlv [of w w' "MintS K" transfer_fee_config_ext] by (simp add: mint_withheld_def)

lemma set_extension_authority_rewrites:
  assumes "set_extension_authority K check V get put k w = Inr w'" and "mint_at K st a w" and "pod_extension V"
    and "ext_type V = ext_type transfer_fee_config_ext \<Longrightarrow> mint_withheld K w' = mint_withheld K w"
  shows "mint_rewritten K w w'"
proof -
  obtain pos v y where ext: "get_extension_mut (MintS K) V w = Inr (pos, v)"
      and w': "w' = write_extension V pos y w"
    using assms(1) by (auto simp: set_extension_authority_def rbind_Inr_iff)
  have "mint_withheld K w' = mint_withheld K w"
    using assms(4) mint_withheld_frame [OF assms(3) ext] by (cases "ext_type V = ext_type transfer_fee_config_ext")
      (auto simp: w')
  moreover have "unpack_mut (MintS K) (ext_state_data w') = Inr w'"
    unfolding w' using base_contract.unpack_written [OF mint_contract _ assms(3) ext] assms(2)
    by (auto simp: mint_at_def)
  ultimately show ?thesis
    by (simp add: mint_rewritten_def w')
qed

lemma set_mint_authority_rewrites:
  assumes "set_mint_authority K check ty k w = Inr w'" and "mint_at K st a w"
  shows "mint_rewritten K w w'"
proof -
  have base: "mint_rewritten K w w'"
    if "pack_base (MintS K) (w\<lparr>ext_base := b\<rparr>) = Inr w'" "mint_is_initialized b"
      "mint_supply b = mint_supply (ext_base w)" "decimals b = decimals (ext_base w)" for b
    using repack_mint [OF assms(2) that(2) refl, of w'] that mint_withheld_tlv [of w' w]
    by (simp add: mint_rewritten_def)
  have config: "mint_withheld K w' = mint_withheld K w"
    if "set_extension_authority K check transfer_fee_config_ext get put k w = Inr w'"
      "\<And>c x. mint_withheld_amount (put x c) = mint_withheld_amount c" for get put
    using that mint_withheld_config
    by (fastforce simp: set_extension_authority_def rbind_Inr_iff)
  note rewritten = set_extension_authority_rewrites [OF _ assms(2)]
  have init: "mint_is_initialized (ext_base w)"
    using mint_at_initialized [OF assms(2)] .
  show ?thesis
  proof (cases ty)
    case AuthMintTokens
    then show ?thesis
      using assms(1) base init by (auto simp: set_mint_authority_def rbind_Inr_iff)
  next
    case AuthFreezeAccount
    then show ?thesis
      using assms(1) base init by (auto simp: set_mint_authority_def rbind_Inr_iff)
  next
    case AuthTransferFeeConfig
    then have run: "set_extension_authority K check transfer_fee_config_ext transfer_fee_config_authority
        (\<lambda>k v. v\<lparr>transfer_fee_config_authority := k\<rparr>) k w = Inr w'"
      using assms(1) by (simp add: set_mint_authority_def)
    then show ?thesis
      using rewritten [OF run fee_config_ext.pod_extension_axioms] config [OF run]
      by (auto simp: set_extension_authority_def rbind_Inr_iff)
  next
    case AuthWithheldWithdraw
    then have run: "set_extension_authority K check transfer_fee_config_ext withdraw_withheld_authority
        (\<lambda>k v. v\<lparr>withdraw_withheld_authority := k\<rparr>) k w = Inr w'"
      using assms(1) by (simp add: set_mint_authority_def)
    then show ?thesis
      using rewritten [OF run fee_config_ext.pod_extension_axioms] config [OF run]
      by (auto simp: set_extension_authority_def rbind_Inr_iff)
  next
    case AuthCloseMint
    then show ?thesis
      using assms(1) rewritten [OF _ close_authority_ext.pod_extension_axioms]
      by (simp add: set_mint_authority_def mint_close_authority_ext_def transfer_fee_config_ext_def)
  next
    case AuthInterestRate
    then show ?thesis
      using assms(1) rewritten [OF _ interest_ext.pod_extension_axioms]
      by (simp add: set_mint_authority_def interest_bearing_config_ext_def transfer_fee_config_ext_def)
  qed (use assms(1) in \<open>simp_all add: set_mint_authority_def\<close>)
qed

lemma mint_rewritten_step:
  assumes "mint_at K st (info_key a) w" and "mint_rewritten K w w'"
    and "st' = put_data a (ext_state_data w') st"
    and "finite A" and "info_key a \<in> A"
  shows "ledger_step K program_id accounts thaw A st st'"
proof -
  have "mint_at K st' (info_key a) w'" "only_at {info_key a} st st'"
    using assms(2,3) only_at_put by (simp_all add: mint_rewritten_def mint_at_def)
  then show ?thesis
    using mint_step [OF assms(1)] assms(2,4,5) by (simp add: mint_rewritten_def)
qed

lemma set_authority_step:
  assumes "process_set_authority K program_id accounts ty k st = Inr st'"
    and "finite A" and "info_key ` set accounts \<subseteq> A"
  shows "ledger_step K program_id accounts thaw A st st'"
proof -
  obtain a authority infos where accounts: "accounts = a # authority # infos"
    using assms(1) by (auto simp: process_set_authority_def rbind_Inr_iff next_account_info_iff)
  have a: "info_key a \<in> A"
    using assms(3) accounts by simp
  define check where "check = (\<lambda>expected. validate_owner K [info_key a] st program_id expected authority
      (data_len st authority) infos)"
  have signed: "signed_for st program_id accounts (\<lambda>_. key)" if "check key = Inr ()" for key
    using validate_owner_authorised [OF that [unfolded check_def]] accounts
    by (intro signed_forI) auto
  consider w b where "account_at K st (info_key a) w" "set_account_authority K check ty k w = Inr b"
      "store_base (AccountS K) a w b st = Inr st'"
    | w w' where "mint_at K st (info_key a) w" "set_mint_authority K check ty k w = Inr w'"
      "st' = put_data a (ext_state_data w') st"
    using assms(1)
    by (auto simp: process_set_authority_def accounts next_account_info_def rbind_Inr_iff borrow_iffs Let_def
        check_def account_at_def mint_at_def ok_option_iffs split: option.splits)
  then show ?thesis
  proof cases
    case 1
    note b = set_account_authority_allowed [OF 1(2) signed]
    have "account_is_initialized b"
      using account_at_initialized [OF 1(1)] account_is_initialized_state [OF b(3)] by simp
    then show ?thesis
      using base_write_step [OF 1(3,1) _ b(2) b(1) assms(2) a] by blast
  next
    case 2
    then show ?thesis
      using mint_rewritten_step [OF 2(1) set_mint_authority_rewrites [OF 2(2,1)] 2(3) assms(2) a] by blast
  qed
qed

end

section \<open>Handlers that move, mint and burn\<close>

lemma account_at_unique: "account_at K st k w \<Longrightarrow> account_at K st k w' \<Longrightarrow> w' = w"
  by (simp add: account_at_def)

lemma mint_at_unique: "mint_at K st k w \<Longrightarrow> mint_at K st k w' \<Longrightarrow> w' = w"
  by (simp add: mint_at_def)

lemma at_elsewhere:
  assumes "only_at B st st'" and "k \<notin> B"
  shows "account_at K st' k = account_at K st k" and "mint_at K st' k = mint_at K st k"
  using assms by (simp_all add: only_at_def account_at_def mint_at_def fun_eq_iff)

context token_program
begin

lemma accounts_step:
  assumes "s \<noteq> d" and s: "account_at K st s w" "account_at K st' s w'"
    and d: "account_at K st d v" "account_at K st' d v'"
    and only: "only_at {s, d} st st'"
    and allowed: "allowed K program_id accounts thaw st (ext_base w) (ext_base w')"
      "allowed K program_id accounts thaw st (ext_base v) (ext_base v')"
    and sum: "\<And>m. holding K m w' + holding K m v' = holding K m w + holding K m v"
    and A: "finite A" "s \<in> A" "d \<in> A"
  shows "ledger_step K program_id accounts thaw A st st'"
  unfolding ledger_step_def
proof (intro conjI allI)
  show "keeps K (allowed K program_id accounts thaw st) st st'"
    unfolding keeps_def
  proof (intro conjI allI impI)
    show "\<exists>x'. account_at K st' j x' \<and> allowed K program_id accounts thaw st (ext_base x) (ext_base x')"
      if x: "account_at K st j x" for j x
    proof -
      consider "j = s" "x = w" | "j = d" "x = v" | "account_at K st' j x"
        using x at_elsewhere(1) [OF only, of j K] account_at_unique [OF s(1)] account_at_unique [OF d(1)]
        by (metis insertE singletonD)
      then show ?thesis
        using s(2) d(2) allowed by cases auto
    qed
    show "\<exists>x'. mint_at K st' j x' \<and> decimals (ext_base x') = decimals (ext_base x)" if "mint_at K st j x" for j x
      using that at_elsewhere(2) [OF only, of j K] not_both_kinds [OF s(1)] not_both_kinds [OF d(1)]
      by (cases "j \<in> {s, d}") auto
  qed
  show "circulating K A m st' + supply_of K m st = circulating K A m st + supply_of K m st'" for m
  proof -
    have "supply_of K m st' = supply_of K m st"
      using supply_elsewhere [OF only, of m] supply_at_account [OF s(1)] supply_at_account [OF s(2)]
        supply_at_account [OF d(1)] supply_at_account [OF d(2)]
      by (cases "m \<in> {s, d}") auto
    moreover have "circulating K A m st' + (holding K m w + holding K m v)
        = circulating K A m st + (holding K m w' + holding K m v')"
      using circulating_frame [OF A(1) _ only, of K m] A(2,3) assms(1) s d
      by (simp add: tokens_at_account)
    ultimately show ?thesis
      using sum [of m] by simp
  qed
qed

text \<open>A write to a mint and to one of its accounts.\<close>

lemma mint_account_step:
  assumes a: "mint_at K st a w" "mint_at K st' a w'" "decimals (ext_base w') = decimals (ext_base w)"
    and d: "account_at K st d v" "account_at K st' d v'"
    and only: "only_at {a, d} st st'"
    and mints: "acc_mint (ext_base v) = a" "acc_mint (ext_base v') = a"
    and allowed: "allowed K program_id accounts thaw st (ext_base v) (ext_base v')"
    and sum: "unat (amount (ext_base v')) + fee_withheld K v' + mint_withheld K w' + unat (mint_supply (ext_base w))
      = unat (amount (ext_base v)) + fee_withheld K v + mint_withheld K w + unat (mint_supply (ext_base w'))"
    and A: "finite A" "a \<in> A" "d \<in> A"
  shows "ledger_step K program_id accounts thaw A st st'"
  unfolding ledger_step_def
proof (intro conjI allI)
  have neq: "a \<noteq> d"
    using not_both_kinds [OF d(1)] a(1) by blast
  show "keeps K (allowed K program_id accounts thaw st) st st'"
    unfolding keeps_def
  proof (intro conjI allI impI)
    show "\<exists>x'. account_at K st' j x' \<and> allowed K program_id accounts thaw st (ext_base x) (ext_base x')"
      if x: "account_at K st j x" for j x
    proof -
      consider "j = d" "x = v" | "account_at K st' j x"
        using x at_elsewhere(1) [OF only, of j K] account_at_unique [OF d(1)] not_both_kinds [OF x] a(1)
        by (metis insertE singletonD)
      then show ?thesis
        using d(2) allowed by cases auto
    qed
    show "\<exists>x'. mint_at K st' j x' \<and> decimals (ext_base x') = decimals (ext_base x)" if x: "mint_at K st j x" for j x
    proof -
      consider "j = a" "x = w" | "mint_at K st' j x"
        using x at_elsewhere(2) [OF only, of j K] mint_at_unique [OF a(1)] not_both_kinds [OF d(1)]
        by (metis insertE singletonD)
      then show ?thesis
        using a(2,3) by cases auto
    qed
  qed
  show "circulating K A m st' + supply_of K m st = circulating K A m st + supply_of K m st'" for m
  proof -
    have frame: "circulating K A m st' + ((if a = m then mint_withheld K w else 0) + holding K m v)
        = circulating K A m st + ((if a = m then mint_withheld K w' else 0) + holding K m v')"
      using circulating_frame [OF A(1) _ only, of K m] A(2,3) neq a d
      by (simp add: tokens_at_account tokens_at_mint)
    show ?thesis
    proof (cases "m = a")
      case True
      then show ?thesis
        using frame sum mints supply_at_mint a(1,2) by (simp add: holding_def)
    next
      case False
      then have "supply_of K m st' = supply_of K m st"
        using supply_elsewhere [OF only, of m] supply_at_account [OF d(1)] supply_at_account [OF d(2)]
        by (cases "m = d") auto
      then show ?thesis
        using frame False mints by (simp add: holding_def)
    qed
  qed
qed

lemma transfer_step:
  assumes "process_transfer K program_id accounts amt ed fee st = Inr st'"
    and "finite A" and "info_key ` set accounts \<subseteq> A"
  shows "ledger_step K program_id accounts thaw A st st'"
proof -
  obtain source rest m rest2 destination authority infos where
    accounts: "accounts = source # rest" "next_mint_info ed rest = Inr (m, rest2)"
      "rest2 = destination # authority # infos"
    and run: "transfer_between K program_id source m destination authority infos amt fee st = Inr st'"
    using assms(1) by (auto simp: process_transfer_def rbind_Inr_iff next_account_info_iff)
  have sub: "destination \<in> set accounts" "authority \<in> set accounts" "set infos \<subseteq> set accounts"
    using next_mint_info_rest [OF accounts(2)] accounts(1,3) by auto
  obtain src due where src: "account_at K st (info_key source) src" "\<not> is_frozen (ext_base src)"
    and "transfer_fee_due K [info_key source] st m src amt = Inr due" and "fee \<in> {None, Some due}"
    and by_owner: "authorised st program_id (debit_key (ext_base src) authority) authority infos"
    and "delegate (ext_base src) = Some (info_key authority) \<longrightarrow> amt \<le> delegated_amount (ext_base src)"
    and self: "info_key source = info_key destination \<longrightarrow> st' = st"
    and moves: "info_key source \<noteq> info_key destination \<longrightarrow>
      moved K (info_key source) (info_key destination) (unat amt) (unat due) st st'"
    using transfer_between_effect [OF run] .
  have signed: "signed_for st program_id accounts (debit_key (ext_base src))"
    using by_owner sub by (intro signed_forI)
  show ?thesis
  proof (cases "info_key source = info_key destination")
    case True
    then show ?thesis
      using self ledger_step_same by simp
  next
    case False
    obtain dst src' dst' where at: "account_at K st (info_key destination) dst"
        "account_at K st' (info_key source) src'" "account_at K st' (info_key destination) dst'"
      and frozen: "\<not> is_frozen (ext_base dst)"
      and mint: "acc_mint (ext_base dst) = acc_mint (ext_base src)"
      and src': "same_holding (ext_base src) ((ext_base src')\<lparr>amount := amount (ext_base src)\<rparr>)"
      and dst': "ext_base dst' = (ext_base dst)\<lparr>amount := amount (ext_base dst')\<rparr>"
      and amounts: "unat (amount (ext_base src)) = unat (amount (ext_base src')) + unat amt"
        "unat (amount (ext_base dst')) + unat due = unat (amount (ext_base dst)) + unat amt" "unat due \<le> unat amt"
        "fee_withheld K src' = fee_withheld K src" "fee_withheld K dst' = fee_withheld K dst + unat due"
      and others: "\<forall>k. k \<noteq> info_key source \<longrightarrow> k \<noteq> info_key destination \<longrightarrow> st' k = st k"
      using moves [rule_format, OF False] account_at_unique [OF src(1)] unfolding moved_def by blast
    have dst_mint: "acc_mint (ext_base dst') = acc_mint (ext_base src)"
      using mint by (subst dst') simp
    show ?thesis
    proof (rule accounts_step [OF False src(1) at(2,1,3)])
      show "only_at {info_key source, info_key destination} st st'"
        using others by (simp add: only_at_def)
      show "allowed K program_id accounts thaw st (ext_base src) (ext_base src')"
        using src' signed src(2) by (auto simp: allowed_def same_holding_def)
      have "\<not> amount (ext_base dst') < amount (ext_base dst)"
        using amounts(2,3) by (simp add: word_less_nat_alt)
      then show "allowed K program_id accounts thaw st (ext_base dst) (ext_base dst')"
        using frozen by (subst dst') (simp add: allowed_def)
      show "holding K m src' + holding K m dst' = holding K m src + holding K m dst" for m
        using amounts mint dst_mint src' by (simp add: holding_def same_holding_def)
    qed (use assms(2,3) accounts(1) sub in auto)
  qed
qed

lemma mint_to_step:
  assumes "process_mint_to K program_id accounts amt ed st = Inr st'"
    and "finite A" and "info_key ` set accounts \<subseteq> A"
  shows "ledger_step K program_id accounts thaw A st st'"
proof -
  obtain mi di rest dst mint na ns st1 where accounts: "accounts = mi # di # rest"
    and dst: "account_at K st (info_key di) dst" "\<not> is_frozen (ext_base dst)"
      "info_key mi = acc_mint (ext_base dst)"
    and mint: "mint_at K st (info_key mi) mint"
    and sums: "checked_add (amount (ext_base dst)) amt = Some na"
      "checked_add (mint_supply (ext_base mint)) amt = Some ns"
    and writes: "store_base (MintS K) mi mint ((ext_base mint)\<lparr>mint_supply := ns\<rparr>) st = Inr st1"
      "store_base (AccountS K) di dst ((ext_base dst)\<lparr>amount := na\<rparr>) st1 = Inr st'"
    using assms(1)
    by (auto simp: process_mint_to_def rbind_Inr_iff next_account_info_iff borrow_iffs Let_def account_at_def
        mint_at_def split: if_splits)
  have neq: "info_key mi \<noteq> info_key di"
    using not_both_kinds [OF dst(1)] mint by auto
  obtain mint' where mint': "mint_at K st1 (info_key mi) mint'"
      "ext_base mint' = (ext_base mint)\<lparr>mint_supply := ns\<rparr>" "tlv_data mint' = tlv_data mint"
      "st1 = put_data mi (ext_state_data mint') st"
    using store_base_mint [OF writes(1) mint] mint_at_initialized [OF mint] by auto
  have only1: "only_at {info_key mi} st st1"
    unfolding mint'(4) by (rule only_at_put)
  have dst1: "account_at K st1 (info_key di) dst"
    using at_elsewhere(1) [OF only1, of "info_key di" K] neq dst(1) by simp
  obtain dst' where dst': "account_at K st' (info_key di) dst'"
      "ext_base dst' = (ext_base dst)\<lparr>amount := na\<rparr>" "tlv_data dst' = tlv_data dst"
      "st' = put_data di (ext_state_data dst') st1"
    using store_base_account [OF writes(2) dst1] account_at_initialized [OF dst(1)]
    by (auto simp: account_is_initialized_def)
  have only2: "only_at {info_key di} st1 st'"
    unfolding dst'(4) by (rule only_at_put)
  have "mint_at K st' (info_key mi) mint'"
    using at_elsewhere(2) [OF only2, of "info_key mi" K] neq mint'(1) by simp
  moreover have "only_at {info_key mi, info_key di} st st'"
    using only1 only2 by (simp add: only_at_def)
  moreover have na: "unat na = unat (amount (ext_base dst)) + unat amt"
      and ns: "unat ns = unat (mint_supply (ext_base mint)) + unat amt"
    using sums by (auto simp: checked_simps unat_add_nowrap)
  moreover have "allowed K program_id accounts thaw st (ext_base dst) (ext_base dst')"
    using dst(2) na by (simp add: allowed_def dst'(2) word_less_nat_alt)
  ultimately show ?thesis
    using dst(3) mint'(2) dst'(2) mint_withheld_tlv [OF mint'(3)] fee_withheld_tlv [OF dst'(3), of K]
      assms(2,3) accounts
    by (intro mint_account_step [OF mint, where w' = mint' and v = dst and v' = dst' and d = "info_key di"])
      (simp_all add: dst(1) dst'(1))
qed

lemma burn_step:
  assumes "process_burn K program_id accounts amt ed st = Inr st'"
    and "finite A" and "info_key ` set accounts \<subseteq> A"
  shows "ledger_step K program_id accounts thaw A st st'"
proof -
  obtain si mi authority infos src mint base na ns st1 where accounts: "accounts = si # mi # authority # infos"
    and src: "account_at K st (info_key si) src" "\<not> is_frozen (ext_base src)"
      "info_key mi = acc_mint (ext_base src)"
    and mint: "mint_at K st (info_key mi) mint"
    and base: "burn_authority K [info_key si, info_key mi] st program_id authority (data_len st authority) infos
        amt (ext_base src) = Inr base"
    and diffs: "checked_sub (amount base) amt = Some na" "checked_sub (mint_supply (ext_base mint)) amt = Some ns"
    and writes: "store_base (AccountS K) si src (base\<lparr>amount := na\<rparr>) st = Inr st1"
      "store_base (MintS K) mi mint ((ext_base mint)\<lparr>mint_supply := ns\<rparr>) st1 = Inr st'"
    using assms(1)
    by (auto simp: process_burn_def rbind_Inr_iff next_account_info_iff borrow_iffs Let_def account_at_def
        mint_at_def split: if_splits)
  have neq: "info_key mi \<noteq> info_key si"
    using not_both_kinds [OF src(1)] mint by auto
  have held: "same_holding (ext_base src) base"
    and signed: "signed_for st program_id accounts (debit_key (ext_base src))
      \<or> is_owned_by_system_program_or_incinerator K (ext_base src)"
    using base debit_authority_effect [of _ st program_id authority infos False amt "ext_base src" base] accounts
      signed_forI [of st program_id "debit_key (ext_base src)" authority infos accounts]
    by (cases "is_owned_by_system_program_or_incinerator K (ext_base src)";
        force simp: burn_authority_def same_holding_def)+
  have "account_is_initialized (base\<lparr>amount := na\<rparr>)"
    using account_at_initialized [OF src(1)] held by (simp add: same_holding_def account_is_initialized_def)
  then obtain src' where src': "account_at K st1 (info_key si) src'" "ext_base src' = base\<lparr>amount := na\<rparr>"
      "tlv_data src' = tlv_data src" "st1 = put_data si (ext_state_data src') st"
    using store_base_account [OF writes(1) src(1)] by blast
  have only1: "only_at {info_key si} st st1"
    unfolding src'(4) by (rule only_at_put)
  have mint1: "mint_at K st1 (info_key mi) mint"
    using at_elsewhere(2) [OF only1, of "info_key mi" K] neq mint by simp
  obtain mint' where mint': "mint_at K st' (info_key mi) mint'"
      "ext_base mint' = (ext_base mint)\<lparr>mint_supply := ns\<rparr>" "tlv_data mint' = tlv_data mint"
      "st' = put_data mi (ext_state_data mint') st1"
    using store_base_mint [OF writes(2) mint1] mint_at_initialized [OF mint] by auto
  have only2: "only_at {info_key mi} st1 st'"
    unfolding mint'(4) by (rule only_at_put)
  have "account_at K st' (info_key si) src'"
    using at_elsewhere(1) [OF only2, of "info_key si" K] neq src'(1) by simp
  moreover have "only_at {info_key mi, info_key si} st st'"
    using only1 only2 by (simp add: only_at_def)
  moreover have "unat na + unat amt = unat (amount (ext_base src))"
      "unat ns + unat amt = unat (mint_supply (ext_base mint))"
    using diffs held by (auto simp: checked_simps unat_sub_nowrap word_le_nat_alt same_holding_def)
  moreover have "allowed K program_id accounts thaw st (ext_base src) (ext_base src')"
    using src(2) held signed by (auto simp: allowed_def src'(2) same_holding_def)
  moreover have "acc_mint base = acc_mint (ext_base src)"
    using held by (simp add: same_holding_def)
  ultimately show ?thesis
    using src(3) mint'(1,2) src'(2) mint_withheld_tlv [OF mint'(3)] fee_withheld_tlv [OF src'(3), of K]
      assms(2,3) accounts
    by (intro mint_account_step [OF mint, where w' = mint' and v = src and v' = src' and d = "info_key si"])
      (simp_all add: src(1))
qed

end

end
