(* ===== verification/Token_Harvest.thy ===== *)
theory Token_Harvest
  imports Token_Steps
begin

text \<open>
  The handlers of the fee extension are ledger steps as well: changing the fee touches no
  token, harvesting carries withheld fees from accounts to the mint, and the two withdrawals
  carry them to the destination's balance.
\<close>

text \<open>The loop over accounts: the destination gains what the accounts lose.\<close>

definition credited :: "token_account ext_state \<Rightarrow> token_account ext_state \<Rightarrow> bool" where
  "credited w w' \<longleftrightarrow> ext_base w' = (ext_base w)\<lparr>amount := amount (ext_base w')\<rparr>
     \<and> amount (ext_base w) \<le> amount (ext_base w')
     \<and> base_data w' = base_data w \<and> padding w' = padding w \<and> account_type w' = account_type w
     \<and> length (tlv_data w') = length (tlv_data w)"

context token_program
begin

lemma config_rewritten:
  assumes "mint_at K st k w" and "get_extension_mut (MintS K) transfer_fee_config_ext w = Inr (pos, c)"
    and "mint_withheld_amount x = mint_withheld_amount c"
  shows "mint_rewritten K w (write_extension transfer_fee_config_ext pos x w)"
  using mint_withheld_config(1) [OF assms(2), of x] mint_withheld_config(2) [OF assms(2)] assms(3)
    base_contract.unpack_written [OF mint_contract assms(1) [unfolded mint_at_def]
      fee_config_ext.pod_extension_axioms assms(2), of x]
  by (simp add: mint_rewritten_def)

lemma schedule_keeps_withheld [simp]:
  "mint_withheld_amount (schedule_transfer_fee e p f c) = mint_withheld_amount c"
  by (simp add: schedule_transfer_fee_def Let_def)

lemma set_transfer_fee_step:
  assumes "process_set_transfer_fee K program_id accounts points max_fee st = Inr st'"
    and "finite A" and "info_key ` set accounts \<subseteq> A"
  shows "ledger_step K program_id accounts thaw A st st'"
proof -
  obtain mi rest w pos c epoch where "accounts = mi # rest" and mint: "mint_at K st (info_key mi) w"
    and ext: "get_extension_mut (MintS K) transfer_fee_config_ext w = Inr (pos, c)"
    and st': "st' = put_data mi (ext_state_data (write_extension transfer_fee_config_ext pos
        (schedule_transfer_fee epoch points max_fee c) w)) st"
    using assms(1)
    by (auto simp: process_set_transfer_fee_def rbind_Inr_iff next_account_info_iff borrow_iffs Let_def
        mint_at_def split: if_splits)
  then show ?thesis
    using mint_rewritten_step [OF mint config_rewritten [OF mint ext] st' assms(2)] assms(3) by simp
qed

section \<open>Harvesting\<close>

lemma harvest_from_account_effect:
  assumes "harvest_from_account K held mk a st = Inr (Inr (amt, st'))"
  obtains w w' where "info_key a \<notin> set held" and "account_at K st (info_key a) w"
    and "account_at K st' (info_key a) w'" and "acc_mint (ext_base w) = mk" and "ext_base w' = ext_base w"
    and "fee_withheld K w = unat amt" and "fee_withheld K w' = 0" and "only_at {info_key a} st st'"
proof -
  obtain w pos v where w: "info_key a \<notin> set held" "account_at K st (info_key a) w" "acc_mint (ext_base w) = mk"
    and ext: "get_extension_mut (AccountS K) transfer_fee_amount_ext w = Inr (pos, v)"
    and amt: "amt = withheld_amount v"
    and st': "st' = put_data a (ext_state_data
        (write_extension transfer_fee_amount_ext pos (v\<lparr>withheld_amount := 0\<rparr>) w)) st"
    using assms
    by (auto simp: harvest_from_account_def borrow_data_def account_at_def split: if_splits sum.splits fault.splits)
  let ?w = "write_extension transfer_fee_amount_ext pos (v\<lparr>withheld_amount := 0\<rparr>) w"
  have at: "account_at K st' (info_key a) ?w"
    using base_contract.unpack_written [OF account_contract w(2) [unfolded account_at_def]
        fee_amount_ext.pod_extension_axioms ext]
    by (simp add: account_at_def st')
  have "fee_withheld K ?w = 0"
    using get_extension_mut_write(1) [OF fee_amount_ext.pod_extension_axioms ext, of "v\<lparr>withheld_amount := 0\<rparr>"]
    by (simp add: fee_withheld_def)
  moreover have "fee_withheld K w = unat amt"
    using ext by (simp add: fee_withheld_def amt)
  ultimately show ?thesis
    using that [OF w(1,2) at w(3)] st' only_at_put by simp
qed

text \<open>What carrying withheld fees out of one account does to the ledger.\<close>

lemma harvest_from_account_ledger:
  assumes "harvest_from_account K held mk a st = Inr (Inr (amt, st'))" and "finite A" and "info_key a \<in> A"
  shows "keeps K (=) st st'" and "supply_of K m st' = supply_of K m st"
    and "circulating K A m st' + (if mk = m then unat amt else 0) = circulating K A m st"
    and "k \<in> set held \<Longrightarrow> cell_data (st' k) = cell_data (st k)"
proof -
  obtain w w' where free: "info_key a \<notin> set held" and w: "account_at K st (info_key a) w"
    and w': "account_at K st' (info_key a) w'" and mint: "acc_mint (ext_base w) = mk"
    and base: "ext_base w' = ext_base w" and fees: "fee_withheld K w = unat amt" "fee_withheld K w' = 0"
    and only: "only_at {info_key a} st st'"
    using harvest_from_account_effect [OF assms(1)] .
  show "keeps K (=) st st'"
    using account_written(1) [OF w w' only, of "(=)"] base by simp
  show "supply_of K m st' = supply_of K m st"
    by (rule account_written(2) [OF w w' only])
  show "circulating K A m st' + (if mk = m then unat amt else 0) = circulating K A m st"
    using account_written(3) [OF w w' only assms(2,3), of m] mint base fees by (simp add: holding_def split: if_splits)
  show "cell_data (st' k) = cell_data (st k)" if "k \<in> set held"
    using only free that unfolding only_at_def by (metis singletonD)
qed

lemma harvest_accounts_ledger:
  assumes "harvest_accounts K mk as x st = Inr (y, st')" and "finite A" and "info_key ` set as \<subseteq> A"
  shows "keeps K (=) st st' \<and> cell_data (st' mk) = cell_data (st mk)
    \<and> (\<forall>m. supply_of K m st' = supply_of K m st
       \<and> circulating K A m st' + (if mk = m then unat y else 0)
         = circulating K A m st + (if mk = m then unat x else 0))"
  using assms
proof (induction as arbitrary: x st)
  case Nil
  then show ?case by (simp add: keeps_same)
next
  case (Cons a as)
  consider (error) "harvest_accounts K mk as x st = Inr (y, st')"
    | (found) amt st1 x1 where "harvest_from_account K [mk] mk a st = Inr (Inr (amt, st1))"
      "checked_add x amt = Some x1" "harvest_accounts K mk as x1 st1 = Inr (y, st')"
    using Cons.prems(1) by (auto simp: rbind_Inr_iff split: sum.splits prod.splits)
  then show ?case
  proof cases
    case error
    then show ?thesis
      using Cons.IH [of x st] Cons.prems(2,3) by simp
  next
    case found
    have "info_key a \<in> A" "info_key ` set as \<subseteq> A"
      using Cons.prems(3) by auto
    note step = harvest_from_account_ledger [OF found(1) Cons.prems(2) this(1)]
      and rest = Cons.IH [OF found(3) Cons.prems(2) this(2)]
    have sum: "unat x1 = unat x + unat amt"
      using found(2) by (auto simp: checked_simps unat_add_nowrap)
    have "supply_of K m st' = supply_of K m st
        \<and> circulating K A m st' + (if mk = m then unat y else 0)
          = circulating K A m st + (if mk = m then unat x else 0)" for m
      using rest step(2) [of m] step(3) [of m] sum by (cases "mk = m") (auto dest: spec [of _ m])
    then show ?thesis
      using rest keeps_then [OF step(1)] step(4) [of mk] by simp
  qed
qed

lemma harvest_step:
  assumes "process_harvest_withheld_tokens_to_mint K accounts st = Inr st'"
    and "finite A" and "info_key ` set accounts \<subseteq> A"
  shows "ledger_step K program_id accounts thaw A st st'"
proof -
  obtain mi as w pos c y st1 where accounts: "accounts = mi # as" and mint: "mint_at K st (info_key mi) w"
    and ext: "get_extension_mut (MintS K) transfer_fee_config_ext w = Inr (pos, c)"
    and run: "harvest_accounts K (info_key mi) as (mint_withheld_amount c) st = Inr (y, st1)"
    and st': "st' = put_data mi (ext_state_data
        (write_extension transfer_fee_config_ext pos (c\<lparr>mint_withheld_amount := y\<rparr>) w)) st1"
    using assms(1)
    by (auto simp: process_harvest_withheld_tokens_to_mint_def rbind_Inr_iff next_account_info_iff borrow_iffs
        mint_at_def)
  let ?w = "write_extension transfer_fee_config_ext pos (c\<lparr>mint_withheld_amount := y\<rparr>) w"
  have A: "info_key mi \<in> A" "info_key ` set as \<subseteq> A"
    using assms(3) accounts by auto
  note fees = harvest_accounts_ledger [OF run assms(2) A(2)]
  have mint1: "mint_at K st1 (info_key mi) w"
    using fees mint by (simp add: mint_at_def)
  note w' = mint_extension_write [OF mint1 fee_config_ext.pod_extension_axioms ext st']
  have withheld: "mint_withheld K w = unat (mint_withheld_amount c)" "mint_withheld K ?w = unat y"
    using mint_withheld_config [OF ext] by simp_all
  have same: "decimals (ext_base ?w) = decimals (ext_base w)"
    by simp
  show ?thesis
    unfolding ledger_step_def
  proof (intro conjI allI)
    show "keeps K (allowed K program_id accounts thaw st) st st'"
      using keeps_then [OF conjunct1 [OF fees]] mint_written(1) [OF mint1 w' same] by simp
    show "circulating K A m st' + supply_of K m st = circulating K A m st + supply_of K m st'" for m
      using fees mint_written(2) [OF mint1 w' same, of m] mint_written(3) [OF mint1 w' same assms(2) A(1), of m]
        withheld supply_at_mint [OF mint]
      by (cases "m = info_key mi") (auto dest: spec [of _ m])
  qed
qed

section \<open>Withdrawing\<close>

lemma withdraw_from_mint_step:
  assumes "process_withdraw_withheld_tokens_from_mint K program_id accounts st = Inr st'"
    and "finite A" and "info_key ` set accounts \<subseteq> A"
  shows "ledger_step K program_id accounts thaw A st st'"
proof -
  obtain mi di rest w pos c dst na st1 where accounts: "accounts = mi # di # rest"
    and mint: "mint_at K st (info_key mi) w"
    and ext: "get_extension_mut (MintS K) transfer_fee_config_ext w = Inr (pos, c)"
    and dst: "account_at K st (info_key di) dst" "acc_mint (ext_base dst) = info_key mi" "\<not> is_frozen (ext_base dst)"
    and st1: "st1 = put_data mi (ext_state_data
        (write_extension transfer_fee_config_ext pos (c\<lparr>mint_withheld_amount := 0\<rparr>) w)) st"
    and sum: "checked_add (amount (ext_base dst)) (mint_withheld_amount c) = Some na"
    and run: "store_base (AccountS K) di dst ((ext_base dst)\<lparr>amount := na\<rparr>) st1 = Inr st'"
    using assms(1)
    by (auto simp: process_withdraw_withheld_tokens_from_mint_def withdraw_destination_def rbind_Inr_iff
        next_account_info_iff borrow_iffs Let_def account_at_def mint_at_def split: if_splits)
  let ?w = "write_extension transfer_fee_config_ext pos (c\<lparr>mint_withheld_amount := 0\<rparr>) w"
  have neq: "info_key mi \<noteq> info_key di"
    using not_both_kinds [OF dst(1)] mint by auto
  note w1 = mint_extension_write [OF mint fee_config_ext.pod_extension_axioms ext st1]
  have dst1: "account_at K st1 (info_key di) dst"
    using at_elsewhere(1) [OF w1(2), of "info_key di" K] neq dst(1) by simp
  obtain dst' where dst': "account_at K st' (info_key di) dst'"
      "ext_base dst' = (ext_base dst)\<lparr>amount := na\<rparr>" "tlv_data dst' = tlv_data dst"
      "st' = put_data di (ext_state_data dst') st1"
    using store_base_account [OF run dst1] account_at_initialized [OF dst(1)]
    by (auto simp: account_is_initialized_def)
  have only2: "only_at {info_key di} st1 st'"
    unfolding dst'(4) by (rule only_at_put)
  have "mint_at K st' (info_key mi) ?w"
    using at_elsewhere(2) [OF only2, of "info_key mi" K] neq w1(1) by simp
  moreover have "only_at {info_key mi, info_key di} st st'"
    using w1(2) only2 by (simp add: only_at_def)
  moreover have na: "unat na = unat (amount (ext_base dst)) + unat (mint_withheld_amount c)"
    using sum by (auto simp: checked_simps unat_add_nowrap)
  moreover have "allowed K program_id accounts thaw st (ext_base dst) (ext_base dst')"
    using dst(3) na by (simp add: allowed_def dst'(2) word_less_nat_alt)
  ultimately show ?thesis
    using dst(2) dst'(2) mint_withheld_config(1) [OF ext, of "c\<lparr>mint_withheld_amount := 0\<rparr>"]
      mint_withheld_config(2) [OF ext]
      fee_withheld_tlv [OF dst'(3), of K] assms(2,3) accounts
    by (intro mint_account_step [OF mint, where w' = ?w and v = dst and v' = dst' and d = "info_key di"])
      (simp_all add: dst(1) dst'(1))
qed

lemma credited_refl: "credited w w"
  by (simp add: credited_def)

lemma credited_trans: "credited u v \<Longrightarrow> credited v w \<Longrightarrow> credited u w"
  unfolding credited_def by (metis (mono_tags, lifting) token_account.surjective token_account.update_convs(3) order_trans)

lemma credited_mint: "credited w w' \<Longrightarrow> acc_mint (ext_base w') = acc_mint (ext_base w)"
  unfolding credited_def by (metis token_account.select_convs(1) token_account.surjective token_account.update_convs(3))

text \<open>One credit of the loop, from the destination's own withheld amount or from elsewhere.\<close>

lemma credit_amount:
  assumes "checked_add (amount (ext_base w)) x = Some n"
  shows "credited w (w\<lparr>ext_base := (ext_base w)\<lparr>amount := n\<rparr>\<rparr>)"
    and "holding K m (w\<lparr>ext_base := (ext_base w)\<lparr>amount := n\<rparr>\<rparr>)
      = holding K m w + (if acc_mint (ext_base w) = m then unat x else 0)"
proof -
  have n: "unat n = unat (amount (ext_base w)) + unat x"
    using assms by (auto simp: checked_simps unat_add_nowrap)
  then show "credited w (w\<lparr>ext_base := (ext_base w)\<lparr>amount := n\<rparr>\<rparr>)"
    by (simp add: credited_def word_le_nat_alt)
  show "holding K m (w\<lparr>ext_base := (ext_base w)\<lparr>amount := n\<rparr>\<rparr>)
      = holding K m w + (if acc_mint (ext_base w) = m then unat x else 0)"
    using n fee_withheld_tlv [of "w\<lparr>ext_base := (ext_base w)\<lparr>amount := n\<rparr>\<rparr>" w K] by (simp add: holding_def)
qed

lemma drain_withheld:
  assumes "get_extension_mut (AccountS K) transfer_fee_amount_ext w = Inr (pos, v)"
    and "w' = write_extension transfer_fee_amount_ext pos (v\<lparr>withheld_amount := 0\<rparr>) w"
  shows "credited w w'" and "acc_mint (ext_base w') = acc_mint (ext_base w)"
    and "holding K m w' + (if acc_mint (ext_base w) = m then unat (withheld_amount v) else 0) = holding K m w"
  using get_extension_mut_write [OF fee_amount_ext.pod_extension_axioms assms(1), of "v\<lparr>withheld_amount := 0\<rparr>"]
    assms
  by (simp_all add: credited_def holding_def fee_withheld_def)

lemma withdraw_accounts_ledger:
  assumes "withdraw_accounts K mk dk as dst st = Inr (dst', st')" and "acc_mint (ext_base dst) = mk"
    and "finite A" and "info_key ` set as \<subseteq> A"
  shows "keeps K (=) st st' \<and> cell_data (st' dk) = cell_data (st dk) \<and> credited dst dst'
    \<and> (\<forall>m. supply_of K m st' = supply_of K m st
       \<and> circulating K A m st' + holding K m dst' = circulating K A m st + holding K m dst)"
  using assms
proof (induction as arbitrary: dst st)
  case Nil
  then show ?case by (simp add: keeps_same credited_refl)
next
  case (Cons a as)
  have a: "info_key a \<in> A" "info_key ` set as \<subseteq> A"
    using Cons.prems(4) by auto
  consider (own) pos v n dst1 dst2 where "get_extension_mut (AccountS K) transfer_fee_amount_ext dst = Inr (pos, v)"
      "dst1 = write_extension transfer_fee_amount_ext pos (v\<lparr>withheld_amount := 0\<rparr>) dst"
      "checked_add (amount (ext_base dst1)) (withheld_amount v) = Some n"
      "dst2 = dst1\<lparr>ext_base := (ext_base dst1)\<lparr>amount := n\<rparr>\<rparr>"
      "withdraw_accounts K mk dk as dst2 st = Inr (dst', st')"
    | (skipped) "withdraw_accounts K mk dk as dst st = Inr (dst', st')"
    | (other) amt st1 n dst1 where "harvest_from_account K [mk, dk] mk a st = Inr (Inr (amt, st1))"
      "checked_add (amount (ext_base dst)) amt = Some n"
      "dst1 = dst\<lparr>ext_base := (ext_base dst)\<lparr>amount := n\<rparr>\<rparr>"
      "withdraw_accounts K mk dk as dst1 st1 = Inr (dst', st')"
    using Cons.prems(1)
    by (auto simp: rbind_Inr_iff Let_def split: if_splits sum.splits prod.splits fault.splits)
  then show ?case
  proof cases
    case own
    note drained = drain_withheld [OF own(1,2)] and filled = credit_amount [OF own(3), folded own(4)]
    have mint: "acc_mint (ext_base dst2) = mk"
      using drained(2) Cons.prems(2) by (simp add: own(4))
    note rest = Cons.IH [OF own(5) mint Cons.prems(3) a(2)]
    have "holding K m dst2 = holding K m dst" for m
      using drained(3) [of m] filled(2) [of m] drained(2) by simp
    then show ?thesis
      using rest credited_trans [OF drained(1) credited_trans [OF filled(1)]] by simp
  next
    case skipped
    then show ?thesis
      using Cons.IH [OF skipped Cons.prems(2,3) a(2)] by simp
  next
    case other
    note filled = credit_amount [OF other(2), folded other(3)]
    note step = harvest_from_account_ledger [OF other(1) Cons.prems(3) a(1)]
    have mint: "acc_mint (ext_base dst1) = mk"
      using Cons.prems(2) by (simp add: other(3))
    note rest = Cons.IH [OF other(4) mint Cons.prems(3) a(2)]
    have "supply_of K m st' = supply_of K m st
       \<and> circulating K A m st' + holding K m dst' = circulating K A m st + holding K m dst" for m
      using rest step(2) [of m] step(3) [of m] filled(2) [of m] Cons.prems(2)
      by (cases "mk = m") (auto dest!: spec [of _ m])
    then show ?thesis
      using rest keeps_then [OF step(1)] step(4) [of dk] credited_trans [OF filled(1)] by simp
  qed
qed

lemma withdraw_from_accounts_step:
  assumes "process_withdraw_withheld_tokens_from_accounts K program_id accounts n st = Inr st'"
    and "finite A" and "info_key ` set accounts \<subseteq> A"
  shows "ledger_step K program_id accounts thaw A st st'"
proof -
  obtain mi di authority infos k dst dst1 st1 dst2 where accounts: "accounts = mi # di # authority # infos"
    and dst: "account_at K st (info_key di) dst" "acc_mint (ext_base dst) = info_key mi" "\<not> is_frozen (ext_base dst)"
    and run: "withdraw_accounts K (info_key mi) (info_key di) (drop k infos) dst st = Inr (dst1, st1)"
    and pack: "pack_base (AccountS K) dst1 = Inr dst2"
    and st': "st' = put_data di (ext_state_data dst2) st1"
    using assms(1)
    by (auto simp: process_withdraw_withheld_tokens_from_accounts_def withdraw_destination_def rbind_Inr_iff
        next_account_info_iff borrow_iffs Let_def account_at_def split: if_splits)
  have A: "info_key di \<in> A" "info_key ` set (drop k infos) \<subseteq> A"
    using assms(3) accounts set_drop_subset [of k infos] by auto
  note fees = withdraw_accounts_ledger [OF run dst(2) assms(2) A(2)]
  have cr: "credited dst dst1"
    using fees by simp
  have dst1: "account_at K st1 (info_key di) dst"
    using fees dst(1) by (simp add: account_at_def)
  have base: "ext_base dst1 = (ext_base dst)\<lparr>amount := amount (ext_base dst1)\<rparr>"
      and more: "\<not> amount (ext_base dst1) < amount (ext_base dst)"
    using cr by (simp_all add: credited_def leD)
  have "account_is_initialized (ext_base dst1)"
    using account_at_initialized [OF dst(1)] by (subst base) (simp add: account_is_initialized_def)
  moreover have "dst\<lparr>ext_base := ext_base dst1, tlv_data := tlv_data dst1\<rparr> = dst1"
    using cr by (simp add: credited_def)
  ultimately have dst2: "unpack_mut (AccountS K) (ext_state_data dst2) = Inr dst2"
      "ext_base dst2 = ext_base dst1" "tlv_data dst2 = tlv_data dst1"
    using repack_account [OF dst1 _, of "ext_base dst1" "tlv_data dst1" dst2] pack cr
    by (simp_all add: credited_def)
  have at: "account_at K st' (info_key di) dst2"
    by (simp add: account_at_def st' dst2(1))
  have only: "only_at {info_key di} st1 st'"
    unfolding st' by (rule only_at_put)
  have held: "holding K m dst2 = holding K m dst1" for m
    using dst2(2) fee_withheld_tlv [OF dst2(3), of K] by (simp add: holding_def)
  show ?thesis
    unfolding ledger_step_def
  proof (intro conjI allI)
    have "allowed K program_id accounts thaw st (ext_base dst) (ext_base dst2)"
      using dst(3) more unfolding dst2(2) by (subst base) (simp add: allowed_def)
    then show "keeps K (allowed K program_id accounts thaw st) st st'"
      using keeps_then [OF conjunct1 [OF fees]]
        account_written(1) [OF dst1 at only, of "allowed K program_id accounts thaw st"] by simp
    show "circulating K A m st' + supply_of K m st = circulating K A m st + supply_of K m st'" for m
      using fees account_written(2) [OF dst1 at only, of m]
        account_written(3) [OF dst1 at only assms(2) A(1), of m] held [of m]
      by (auto dest!: spec [of _ m])
  qed
qed

end

end
