(* ===== verification/Token_Example.thy ===== *)
theory Token_Example
  imports Token_Dispatch
begin

text \<open>
  A concrete ledger for the witnesses: a mint at key 5 with two decimals, accounts of it at
  keys 1, 2 and 3, the last one frozen, and a checked transfer of 30 tokens from 1 to 2
  signed by the owner, key 7.
\<close>

definition plain_account :: "pubkey \<Rightarrow> u64 \<Rightarrow> account_state \<Rightarrow> token_account" where
  "plain_account k a s = \<lparr>acc_mint = 5, acc_owner = k, amount = a, delegate = None, acc_state = s,
     is_native = None, delegated_amount = 0, close_authority = None\<rparr>"

definition plain_mint :: mint where
  "plain_mint = \<lparr>mint_authority = Some 7, mint_supply = 120, decimals = 2, mint_is_initialized = True,
     freeze_authority = Some 9\<rparr>"

definition account_bytes :: "token_account \<Rightarrow> bytes" where
  "account_bytes a = (case account_pack_into_slice a (replicate 165 0) of Inr d \<Rightarrow> d | Inl _ \<Rightarrow> [])"

definition mint_bytes :: "mint \<Rightarrow> bytes" where
  "mint_bytes m = (case mint_pack_into_slice m (replicate 82 0) of Inr d \<Rightarrow> d | Inl _ \<Rightarrow> [])"

definition plain_ext :: "'s \<Rightarrow> bytes \<Rightarrow> 's ext_state" where
  "plain_ext s d = \<lparr>ext_base = s, base_data = d, padding = [], account_type = [], tlv_data = []\<rparr>"

definition example_store :: store where
  "example_store k =
     (if k = 1 then \<lparr>cell_lamports = 10, cell_data = account_bytes (plain_account 7 100 Initialized),
                     cell_owner = token_2022_id\<rparr>
      else if k = 2 then \<lparr>cell_lamports = 10, cell_data = account_bytes (plain_account 8 20 Initialized),
                     cell_owner = token_2022_id\<rparr>
      else if k = 3 then \<lparr>cell_lamports = 10, cell_data = account_bytes (plain_account 8 0 Frozen),
                     cell_owner = token_2022_id\<rparr>
      else if k = 5 then \<lparr>cell_lamports = 10, cell_data = mint_bytes plain_mint, cell_owner = token_2022_id\<rparr>
      else \<lparr>cell_lamports = 0, cell_data = [], cell_owner = 0\<rparr>)"

definition example_accounts :: "info list" where
  "example_accounts = [\<lparr>info_key = 1, info_is_signer = False\<rparr>, \<lparr>info_key = 5, info_is_signer = False\<rparr>,
     \<lparr>info_key = 2, info_is_signer = False\<rparr>, \<lparr>info_key = 7, info_is_signer = True\<rparr>]"

lemma account_bytes: "length (account_bytes a) = 165" "account_unpack_from_slice (account_bytes a) = Inr a"
  using account_codec.pack_ok [OF TrueI, of "replicate 165 0" a] by (auto simp: account_bytes_def)

lemma mint_bytes: "length (mint_bytes m) = 82" "mint_unpack_from_slice (mint_bytes m) = Inr m"
  using mint_codec.pack_ok [OF TrueI, of "replicate 82 0" m] by (auto simp: mint_bytes_def)

lemma plain_account_unpacks:
  "account_is_initialized a \<Longrightarrow> unpack_mut (AccountS sample_sdk) (account_bytes a) = Inr (plain_ext a (account_bytes a))"
  using unpack_mut_join [of "AccountS sample_sdk" account_unpack_from_slice account_pack_into_slice
      "account_bytes a" a "[]" "[]" "[]"] sample.account_sdk
  by (simp add: account_bytes account_base_def tail_ok_def plain_ext_def)

lemma plain_mint_unpacks:
  "mint_is_initialized m \<Longrightarrow> unpack_mut (MintS sample_sdk) (mint_bytes m) = Inr (plain_ext m (mint_bytes m))"
  using unpack_mut_join [of "MintS sample_sdk" mint_unpack_from_slice mint_pack_into_slice
      "mint_bytes m" m "[]" "[]" "[]"] sample.mint_sdk
  by (simp add: mint_bytes mint_base_def tail_ok_def plain_ext_def)

lemma no_extension: "get_extension_indices t [] b = Inl InvalidAccountData"
  by (simp add: get_extension_indices_def extension_indices.simps)

lemma plain_no_extension:
  "get_extension_mut S V (plain_ext s d) = err InvalidAccountData"
  "get_extension S V [] = err InvalidAccountData"
  by (simp_all add: get_extension_mut_def get_extension_def plain_ext_def no_extension lift_err_def)

lemma plain_ext_parts [simp]: "ext_base (plain_ext s d) = s" "base_data (plain_ext s d) = d"
  "tlv_data (plain_ext s d) = []"
  by (simp_all add: plain_ext_def)

lemma example_cells:
  "unpack_mut (AccountS sample_sdk) (cell_data (example_store 1))
     = Inr (plain_ext (plain_account 7 100 Initialized) (account_bytes (plain_account 7 100 Initialized)))"
  "unpack_mut (AccountS sample_sdk) (cell_data (example_store 2))
     = Inr (plain_ext (plain_account 8 20 Initialized) (account_bytes (plain_account 8 20 Initialized)))"
  "unpack_mut (AccountS sample_sdk) (cell_data (example_store 3))
     = Inr (plain_ext (plain_account 8 0 Frozen) (account_bytes (plain_account 8 0 Frozen)))"
  "unpack_mut (MintS sample_sdk) (cell_data (example_store 5)) = Inr (plain_ext plain_mint (mint_bytes plain_mint))"
  by (simp_all add: example_store_def plain_account_unpacks plain_mint_unpacks plain_account_def plain_mint_def
      account_is_initialized_def)

lemma plain_account_fields [simp]:
  "acc_mint (plain_account k a s) = 5" "acc_owner (plain_account k a s) = k" "amount (plain_account k a s) = a"
  "delegate (plain_account k a s) = None" "acc_state (plain_account k a s) = s"
  by (simp_all add: plain_account_def)

lemma example_owners:
  "cell_owner (example_store 1) = token_2022_id" "cell_owner (example_store 2) = token_2022_id"
  "cell_data (example_store 7) = []"
  by (simp_all add: example_store_def)

lemma token_program_key: "token_2022_id \<noteq> 0"
  by (simp add: token_2022_id_def)

lemma pack_plain_account:
  obtains d where "pack_base (AccountS sample_sdk) ((plain_ext a (account_bytes c))\<lparr>ext_base := b\<rparr>) = Inr (plain_ext b d)"
    and "length d = 165" and "account_unpack_from_slice d = Inr b"
  using account_codec.pack_ok [OF TrueI, of "account_bytes c" b]
  by (auto simp: pack_base_def account_base_def plain_ext_def account_bytes)

lemma example_transfer:
  assumes "expected_fee \<in> {None, Some 0}"
  shows "\<exists>st'. process_transfer sample_sdk token_2022_id example_accounts 30 (Some 2) expected_fee example_store
    = Inr st'"
proof -
  let ?src = "plain_account 7 100 Initialized" and ?dst = "plain_account 8 20 Initialized"
  obtain d where d: "pack_base (AccountS sample_sdk) ((plain_ext ?src (account_bytes ?src))\<lparr>ext_base := ?src\<lparr>amount := 70\<rparr>\<rparr>)
      = Inr (plain_ext (?src\<lparr>amount := 70\<rparr>) d)"
    by (rule pack_plain_account)
  obtain e where e: "pack_base (AccountS sample_sdk) ((plain_ext ?dst (account_bytes ?dst))\<lparr>ext_base := ?dst\<lparr>amount := 50\<rparr>\<rparr>)
      = Inr (plain_ext (?dst\<lparr>amount := 50\<rparr>) e)"
    by (rule pack_plain_account)
  have owner: "validate_owner sample_sdk [1] example_store token_2022_id 7 \<lparr>info_key = 7, info_is_signer = True\<rparr> 0 [] = Inr ()"
    by (simp add: validate_owner_def info_owner_def)
  have fee: "transfer_fee_due sample_sdk [1] example_store (Some (\<lparr>info_key = 5, info_is_signer = False\<rparr>, 2))
      (plain_ext ?src (account_bytes ?src)) 30 = Inr 0"
    by (simp add: transfer_fee_due_def try_borrow_data_def unpack_state_mut example_cells plain_no_extension
        ok_option_def plain_account_def plain_mint_def)
  have settle: "settle_transfer sample_sdk \<lparr>info_key = 1, info_is_signer = False\<rparr> \<lparr>info_key = 2, info_is_signer = False\<rparr>
      30 0 (plain_ext ?src (account_bytes ?src)) ?src example_store
      = Inr (put_data \<lparr>info_key = 2, info_is_signer = False\<rparr> (ext_state_data (plain_ext (?dst\<lparr>amount := 50\<rparr>) e))
          (put_data \<lparr>info_key = 1, info_is_signer = False\<rparr> (ext_state_data (plain_ext (?src\<lparr>amount := 70\<rparr>) d)) example_store))"
    using d e
    by (simp add: settle_transfer_def borrow_data_def example_cells is_frozen_def memo_required_def
        state_get_extension_def plain_no_extension ok_option_def overflow_checked_def checked_sub_def checked_add_def ok_or_def
        credit_destination_def is_native_account_def plain_account_def)
  show ?thesis
    using owner fee settle assms
    by (auto simp add: process_transfer_def example_accounts_def next_account_info_def next_mint_info_def
        transfer_between_def borrow_data_def example_cells is_frozen_def debit_authority_def
        check_program_account_def info_owner_def data_len_def example_owners Let_def)
qed

end
