(* ===== verification/Token_Soundness.thy ===== *)
theory Token_Soundness
  imports Token_Harvest Token_Example
begin

text \<open>
  What the token program guarantees of its ledger, stated on \<open>process\<close>: conservation of
  tokens over any run, accounts and mints that stay what they are, frozen accounts, and whose
  signature a change needs.  The properties are about the instructions that work on existing
  accounts; those that create, initialise, resize or close one, and the one that syncs a native
  account with its lamports, are not among them, except that the result on signatures covers
  closing an account too.
\<close>

section \<open>Steps of the program\<close>

fun ledger_instruction :: "token_instruction \<Rightarrow> bool" where
  "ledger_instruction (InitializeMint _ _ _) = False"
| "ledger_instruction InitializeAccount = False"
| "ledger_instruction (InitializeMultisig _) = False"
| "ledger_instruction CloseAccount = False"
| "ledger_instruction (InitializeAccount2 _) = False"
| "ledger_instruction SyncNative = False"
| "ledger_instruction (InitializeAccount3 _) = False"
| "ledger_instruction (InitializeMultisig2 _) = False"
| "ledger_instruction (InitializeMint2 _ _ _) = False"
| "ledger_instruction InitializeImmutableOwner = False"
| "ledger_instruction (InitializeMintCloseAuthority _) = False"
| "ledger_instruction (TransferFeeExtension (InitializeTransferFeeConfig _ _ _ _)) = False"
| "ledger_instruction DefaultAccountStateExtension = False"
| "ledger_instruction (Reallocate _) = False"
| "ledger_instruction MemoTransferExtension = False"
| "ledger_instruction CreateNativeMint = False"
| "ledger_instruction InitializeNonTransferableMint = False"
| "ledger_instruction InterestBearingMintExtension = False"
| "ledger_instruction _ = True"

context token_program
begin

lemma process_ledger_step:
  assumes "process K program_id accounts input st = Inr (st', r)"
    and "unpack_instruction input = Inr i" and "ledger_instruction i"
    and "finite A" and "info_key ` set accounts \<subseteq> A"
  shows "ledger_step K program_id accounts (i = ThawAccount) A st st'"
proof -
  note A = assms(4,5)
  have run: "process_instruction K program_id accounts (drop 1 input) i st = Inr (st', r)"
    using assms(1,2) by (simp add: process_def lift_err_def)
  note steps = transfer_step [OF _ A] approve_step [OF _ A] revoke_step [OF _ A] set_authority_step [OF _ A]
    mint_to_step [OF _ A] burn_step [OF _ A] toggle_freeze_step [OF _ A]
    harvest_step [OF _ A] withdraw_from_mint_step [OF _ A] withdraw_from_accounts_step [OF _ A]
    set_transfer_fee_step [OF _ A] ledger_step_same
  show ?thesis
  proof (cases i)
    case (TransferFeeExtension x)
    then show ?thesis
      using run assms(3) steps
      by (cases x)
        (auto simp: process_instruction_def process_transfer_fee_instruction_def silent_def rbind_Inr_iff)
  next
    case FreezeAccount
    then show ?thesis
      using run toggle_freeze_step [OF _ A, of program_id True st st']
      by (auto simp: process_instruction_def silent_def rbind_Inr_iff)
  next
    case ThawAccount
    then show ?thesis
      using run toggle_freeze_step [OF _ A, of program_id False st st']
      by (auto simp: process_instruction_def silent_def rbind_Inr_iff)
  qed (use run assms(3) steps in \<open>auto simp: process_instruction_def silent_def answer_def rbind_Inr_iff\<close>)
qed

end

text \<open>Who may close an account: its close authority, or else its owner.\<close>

definition closing_key :: "token_account \<Rightarrow> pubkey" where
  "closing_key a = (case close_authority a of Some k \<Rightarrow> k | None \<Rightarrow> acc_owner a)"

context token_program
begin

lemma zeros_no_account: "unpack_mut (AccountS K) (replicate n 0) \<noteq> Inr w"
proof
  assume run: "unpack_mut (AccountS K) (replicate n 0) = Inr w"
  then obtain a where a: "unpack_checked (account_fns K) (take 165 (replicate n 0)) = Inr a"
    by (auto simp: unpack_mut_def account_base_def rbind_Inr_iff Let_def)
  have "165 \<le> n"
    using run by (simp add: unpack_mut_def account_base_def rbind_Inr_iff check_min_len_and_not_multisig_def
        lift_err_def split: if_splits)
  then have "account_unpack_from_slice (replicate 165 0) = Inr a" "account_is_initialized a"
    using a pack_sdk.unpack_iff [OF account_sdk, of "replicate 165 0" a] by (simp_all add: min_def)
  then show False
    by (auto simp: account_unpack_from_slice_def account_is_initialized_def account_state_of_def lift_err_def
        rbind_Inr_iff split: sum.splits if_splits)
qed

text \<open>Closing wipes one account, and only a token account that its closing key may close.\<close>

lemma close_effect:
  assumes "process_close_account K program_id accounts st = Inr st'" and at: "account_at K st k w"
  shows "account_at K st' k w
    \<or> (\<forall>w'. \<not> account_at K st' k w')
      \<and> (amount (ext_base w) = 0 \<or> is_native_account (ext_base w))
      \<and> (signed_for st program_id accounts (\<lambda>_. closing_key (ext_base w))
         \<or> is_owned_by_system_program_or_incinerator K (ext_base w))"
proof -
  obtain source destination authority infos v l where
    accounts: "accounts = source # destination # authority # infos"
    and v: "ok_option (unpack_state (AccountS K) (cell_data (st (info_key source)))) = Inr v"
    and closed: "\<forall>a. v = Some a \<longrightarrow> close_token_account K (\<lambda>expected. validate_owner K [info_key source] st
        program_id expected authority (data_len st authority) infos) destination a = Inr ()"
    and st': "st' = put_data source (replicate (length (cell_data (st (info_key source)))) 0)
          (put_lamports source 0 (put_lamports destination l st))"
    using assms(1)
    by (auto simp: process_close_account_def rbind_Inr_iff next_account_info_iff borrow_iffs Let_def
        split: if_splits option.split_asm)
  show ?thesis
  proof (cases "k = info_key source")
    case False
    then show ?thesis using at by (simp add: st' account_at_def)
  next
    case True
    then have "v = Some \<lparr>view_base = ext_base w, view_tlv = tlv_data w\<rparr>"
      using v at by (auto simp: unpack_state_mut account_at_def ok_option_def)
    note run = closed [rule_format, OF this]
    then have "\<not> (\<not> is_native_account (ext_base w) \<and> amount (ext_base w) \<noteq> 0)"
      by (auto simp: close_token_account_def Let_def split: if_splits)
    moreover have "is_owned_by_system_program_or_incinerator K (ext_base w)
        \<or> authorised st program_id (closing_key (ext_base w)) authority infos"
      using run validate_owner_authorised
      by (auto simp: close_token_account_def closing_key_def rbind_Inr_iff Let_def split: if_splits)
    then have "signed_for st program_id accounts (\<lambda>_. closing_key (ext_base w))
         \<or> is_owned_by_system_program_or_incinerator K (ext_base w)"
      using signed_forI [of st program_id "\<lambda>_. closing_key (ext_base w)" authority infos accounts]
      by (auto simp: accounts)
    moreover have "\<not> account_at K st' k w'" for w'
      using zeros_no_account by (simp add: st' account_at_def True)
    ultimately show ?thesis by blast
  qed
qed

end

text \<open>A step of the ledger: a call that succeeds, or one that fails and changes nothing.\<close>

inductive token_step :: "token_sdk \<Rightarrow> pubkey \<Rightarrow> pubkey set \<Rightarrow> store \<Rightarrow> store \<Rightarrow> bool"
  for K program_id A where
  call: "process K program_id accounts input st = Inr (st', r) \<Longrightarrow> unpack_instruction input = Inr i
    \<Longrightarrow> ledger_instruction i \<Longrightarrow> info_key ` set accounts \<subseteq> A \<Longrightarrow> token_step K program_id A st st'"
| failure: "process K program_id accounts input st = Inl e \<Longrightarrow> token_step K program_id A st st"

text \<open>What every step keeps, a run keeps: the relation between the store before and after.\<close>

locale kept_by_steps =
  fixes step :: "'s \<Rightarrow> 's \<Rightarrow> bool"
    and kept :: "'s \<Rightarrow> 's \<Rightarrow> bool"
  assumes kept_refl: "kept s s"
    and kept_trans: "kept s t \<Longrightarrow> kept t u \<Longrightarrow> kept s u"
    and kept_step: "step s t \<Longrightarrow> kept s t"
begin

lemma kept_run: "step\<^sup>*\<^sup>* s t \<Longrightarrow> kept s t"
  by (induction rule: rtranclp_induct) (blast intro: kept_refl kept_trans kept_step)+

end

definition same_backing :: "token_sdk \<Rightarrow> pubkey set \<Rightarrow> store \<Rightarrow> store \<Rightarrow> bool" where
  "same_backing K A st st' \<longleftrightarrow>
     (\<forall>m. circulating K A m st' + supply_of K m st = circulating K A m st + supply_of K m st')"

definition same_kinds :: "token_sdk \<Rightarrow> store \<Rightarrow> store \<Rightarrow> bool" where
  "same_kinds K st st' \<longleftrightarrow>
     (\<forall>k w. account_at K st k w \<longrightarrow>
        (\<exists>w'. account_at K st' k w' \<and> acc_mint (ext_base w') = acc_mint (ext_base w)))
   \<and> (\<forall>k w. mint_at K st k w \<longrightarrow>
        (\<exists>w'. mint_at K st' k w' \<and> decimals (ext_base w') = decimals (ext_base w)))"

definition sound_step :: "token_sdk \<Rightarrow> pubkey \<Rightarrow> pubkey set \<Rightarrow> store \<Rightarrow> store \<Rightarrow> bool" where
  "sound_step K program_id A st st' \<longleftrightarrow> token_program K \<and> finite A \<and> token_step K program_id A st st'"

lemma sound_step_ledger:
  assumes "sound_step K program_id A st st'" and "st' \<noteq> st"
  obtains accounts thaw where "ledger_step K program_id accounts thaw A st st'"
proof -
  have K: "token_program K" and A: "finite A" and "token_step K program_id A st st'"
    using assms(1) by (simp_all add: sound_step_def)
  from this(3) show ?thesis
  proof cases
    case (call accounts input r i)
    then show ?thesis
      by (intro that) (rule token_program.process_ledger_step [OF K _ _ _ A])
  qed (use assms(2) in simp)
qed

interpretation backing: kept_by_steps "sound_step K program_id A" "same_backing K A" for K program_id A
proof
  show "same_backing K A s s" for s
    by (simp add: same_backing_def)
  show "same_backing K A s u" if "same_backing K A s t" "same_backing K A t u" for s t u
  proof -
    have "circulating K A m u + supply_of K m s = circulating K A m s + supply_of K m u" for m
      using that(1) [unfolded same_backing_def, rule_format, of m]
        that(2) [unfolded same_backing_def, rule_format, of m] by simp
    then show ?thesis by (simp add: same_backing_def)
  qed
  show "same_backing K A s t" if step: "sound_step K program_id A s t" for s t
  proof (cases "t = s")
    case False
    then show ?thesis
      using sound_step_ledger [OF step] by (auto simp: same_backing_def ledger_step_def)
  qed (simp add: same_backing_def)
qed

interpretation kinds: kept_by_steps "sound_step K program_id A" "same_kinds K" for K program_id A
proof
  show "same_kinds K s s" for s
    by (auto simp: same_kinds_def)
  show "same_kinds K s u" if "same_kinds K s t" "same_kinds K t u" for s t u
    using that unfolding same_kinds_def by metis
  show "same_kinds K s t" if step: "sound_step K program_id A s t" for s t
  proof (cases "t = s")
    case True
    then show ?thesis by (auto simp: same_kinds_def)
  next
    case False
    then obtain accounts thaw where "keeps K (allowed K program_id accounts thaw s) s t"
      using sound_step_ledger [OF step] unfolding ledger_step_def by metis
    then show ?thesis
      unfolding keeps_def same_kinds_def allowed_def by metis
  qed
qed

lemma sound_run:
  "token_program K \<Longrightarrow> finite A \<Longrightarrow> (token_step K program_id A)\<^sup>*\<^sup>* st st' \<Longrightarrow> (sound_step K program_id A)\<^sup>*\<^sup>* st st'"
  by (rule rtranclp_mono [THEN predicate2D, of "token_step K program_id A"]) (auto simp: sound_step_def)

section \<open>The concrete ledger\<close>

lemma example_process:
  "\<exists>st'. process sample_sdk token_2022_id example_accounts (pack_instruction (TransferChecked 30 2)) example_store
     = Inr (st', None)"
  using example_transfer [of None] unpack_pack_instruction [of "TransferChecked 30 2"]
  by (auto simp: process_def process_instruction_def silent_def lift_err_def simp del: pack_instruction.simps)

lemma example_step:
  obtains st' where "token_step sample_sdk token_2022_id {1, 2, 3, 5, 7} example_store st'"
  using example_process token_step.call [OF _ unpack_pack_instruction, of sample_sdk token_2022_id example_accounts
      "TransferChecked 30 2" example_store _ None "{1, 2, 3, 5, 7}"]
  by (auto simp: example_accounts_def simp del: pack_instruction.simps)

lemma example_backing:
  "circulating sample_sdk {1, 2, 3, 5, 7} 5 example_store = 120" "supply_of sample_sdk 5 example_store = 120"
proof -
  have withheld: "fee_withheld sample_sdk (plain_ext a d) = 0" "mint_withheld sample_sdk (plain_ext m e) = 0" for a d m e
    by (simp_all add: fee_withheld_def mint_withheld_def plain_no_extension)
  have "\<not> is_ok (unpack_mut (AccountS sample_sdk) (cell_data (example_store 5)))"
    using sample.not_both_kinds [of example_store 5] example_cells(4)
    by (auto simp: account_at_def mint_at_def is_ok_def split: sum.splits)
  moreover have "\<not> is_ok (unpack_mut (AccountS sample_sdk) [])" "\<not> is_ok (unpack_mut (MintS sample_sdk) [])"
    by (simp_all add: unpack_mut_def check_min_len_and_not_multisig_def account_base_def mint_base_def is_ok_def)
  ultimately show "circulating sample_sdk {1, 2, 3, 5, 7} 5 example_store = 120"
    by (simp add: circulating_def tokens_at_def example_cells holding_def withheld example_owners(3) is_ok_def
        split: sum.splits)
  show "supply_of sample_sdk 5 example_store = 120"
    by (simp add: supply_of_def example_cells plain_mint_def)
qed

lemma transferred_drop:
  assumes "moved K s d amt fee st st'" and "account_at K st s w"
  obtains w' where "account_at K st' s w'" and "unat (amount (ext_base w)) = unat (amount (ext_base w')) + amt"
  using assms account_at_unique unfolding moved_def by metis

lemma example_drop:
  assumes "process sample_sdk token_2022_id example_accounts (pack_instruction (TransferChecked 30 2)) example_store
      = Inr (st', r)"
    and "account_at sample_sdk example_store 1 w"
  obtains w' where "account_at sample_sdk st' 1 w'" and "amount (ext_base w') < amount (ext_base w)"
proof -
  have "process_transfer sample_sdk token_2022_id example_accounts 30 (Some 2) None example_store = Inr st'"
    using assms(1) unpack_pack_instruction [of "TransferChecked 30 2"]
    by (auto simp: process_def process_instruction_def silent_def lift_err_def rbind_Inr_iff
        simp del: pack_instruction.simps)
  then have "transfer_between sample_sdk token_2022_id (example_accounts ! 0) (Some (example_accounts ! 1, 2))
      (example_accounts ! 2) (example_accounts ! 3) [] 30 None example_store = Inr st'"
    by (simp add: process_transfer_def example_accounts_def next_account_info_def next_mint_info_def)
  then obtain fee where "moved sample_sdk 1 2 30 fee example_store st'"
    by (rule sample.transfer_between_effect) (auto simp: example_accounts_def)
  then show ?thesis
    using transferred_drop [OF _ assms(2)] that by (metis add_less_cancel_left less_add_same_cancel1 word_less_nat_alt zero_less_numeral)
qed

section \<open>Properties\<close>











end
