(* ===== verification/Client_Instruction.thy ===== *)
theory Client_Instruction
  imports Prelude
begin

text \<open>
  The instructions a client sends: the SDK's \<open>Instruction\<close> and \<open>AccountMeta\<close>, which the builders
  of the token program and of the vote program fill in.
\<close>

record account_meta =
  meta_key :: pubkey
  meta_is_signer :: bool
  meta_is_writable :: bool

record client_instruction =
  ix_program_id :: pubkey
  ix_accounts :: "account_meta list"
  ix_data :: bytes

text \<open>\<open>AccountMeta::new\<close> and \<open>AccountMeta::new_readonly\<close>.\<close>

definition writable :: "pubkey \<Rightarrow> bool \<Rightarrow> account_meta" where
  "writable k signer = \<lparr>meta_key = k, meta_is_signer = signer, meta_is_writable = True\<rparr>"

definition readonly :: "pubkey \<Rightarrow> bool \<Rightarrow> account_meta" where
  "readonly k signer = \<lparr>meta_key = k, meta_is_signer = signer, meta_is_writable = False\<rparr>"

text \<open>The keys that have to sign an instruction.\<close>

definition required_signers :: "client_instruction \<Rightarrow> pubkey set" where
  "required_signers ix = {meta_key m | m. m \<in> set (ix_accounts ix) \<and> meta_is_signer m}"

lemma meta_simps [simp]:
  "meta_key (writable k b) = k" "meta_is_signer (writable k b) = b"
  "meta_key (readonly k b) = k" "meta_is_signer (readonly k b) = b"
  by (simp_all add: writable_def readonly_def)

lemma required_signers_code [simp]:
  "required_signers ix = meta_key ` set (filter meta_is_signer (ix_accounts ix))"
  by (auto simp: required_signers_def)

text \<open>
  \<open>utils/memo.rs\<close> of the command line tools: \<open>with_memo\<close> appends a memo instruction whose program
  id is \<open>Pubkey::try_from\<close> of the base-58 \<^emph>\<open>text\<close> of the memo program's address, unwrapped;
  \<open>try_from\<close> is the SDK's.
\<close>

definition memo_program_text :: string where
  "memo_program_text = ''MemoSq4gqABAXKb96qnH8TysNcWxMyWCqXgDLGmfcHr''"

definition text_bytes :: "string \<Rightarrow> bytes" where "text_bytes s = map of_char s"

definition with_memo ::
  "(bytes \<Rightarrow> pubkey option) \<Rightarrow> string option \<Rightarrow> client_instruction list
     \<Rightarrow> (client_instruction list, 'e) res" where
  "with_memo try_from memo ixs =
     (case memo of
        None \<Rightarrow> Inr ixs
      | Some m \<Rightarrow>
         (case try_from (text_bytes memo_program_text) of
            None \<Rightarrow> Inl Panic
          | Some k \<Rightarrow> Inr (ixs @ [\<lparr>ix_program_id = k, ix_accounts = [], ix_data = text_bytes m\<rparr>])))"

text \<open>A key is 32 bytes, the text has 43: every memo panics.\<close>

lemma with_memo_panics:
  assumes "\<And>bs. length bs \<noteq> 32 \<Longrightarrow> try_from bs = None"
  shows "with_memo try_from (Some m) ixs = Inl Panic"
proof -
  have "length (text_bytes memo_program_text) = 43" by (simp add: text_bytes_def memo_program_text_def)
  then show ?thesis by (simp add: with_memo_def assms)
qed

lemma with_memo_None [simp]: "with_memo try_from None ixs = Inr ixs"
  by (simp add: with_memo_def)

end
