(* ===== verification/Token_Client.thy ===== *)
theory Token_Client
  imports Token_Soundness Client_Instruction
begin

text \<open>
  The instruction builders of \<open>spl_token_2022/instruction.rs\<close> and of the extensions'
  \<open>instruction.rs\<close>, which the playground's clients call: each checks the program it builds for
  and lists the accounts with the roles the handler gives them by position.  The rent sysvar
  and the System program are keys of the SDK and arguments here.  The properties join client,
  encoding, dispatch and handler.
\<close>

section \<open>Instructions\<close>

text \<open>The authority signs itself unless it is a multisignature, whose members then sign.\<close>

definition authority_metas :: "pubkey \<Rightarrow> pubkey list \<Rightarrow> account_meta list" where
  "authority_metas authority signer_keys =
     readonly authority (signer_keys = []) # map (\<lambda>k. readonly k True) signer_keys"

definition instruction_for :: "pubkey \<Rightarrow> account_meta list \<Rightarrow> token_instruction \<Rightarrow> client_instruction" where
  "instruction_for p metas i = \<lparr>ix_program_id = p, ix_accounts = metas, ix_data = pack_instruction i\<rparr>"

definition spl_token_id :: pubkey where
  "spl_token_id = 0xa900ff7e85f58c3a91375b5fed85b41cac79ebce46e1cbd993a165d7e1f6dd06"

definition check_spl_token_program_account :: "pubkey \<Rightarrow> unit token_res" where
  "check_spl_token_program_account p =
     (if p \<noteq> token_2022_id \<and> p \<noteq> spl_token_id then err IncorrectProgramId else Inr ())"

section \<open>The builders of the program\<close>

definition initialize_mint_ix ::
  "pubkey \<Rightarrow> pubkey \<Rightarrow> pubkey \<Rightarrow> pubkey \<Rightarrow> pubkey
      option \<Rightarrow> u8 \<Rightarrow> client_instruction token_res" where
  "initialize_mint_ix p rent mint_key authority freeze dec =
     rbind (check_spl_token_program_account p) (\<lambda>_.
     Inr (instruction_for p
       ([writable mint_key False, readonly rent False]) (InitializeMint dec authority freeze)))"

definition initialize_mint2_ix ::
  "pubkey \<Rightarrow> pubkey \<Rightarrow> pubkey \<Rightarrow> pubkey option \<Rightarrow> u8
      \<Rightarrow> client_instruction token_res" where
  "initialize_mint2_ix p mint_key authority freeze dec =
     rbind (check_spl_token_program_account p) (\<lambda>_.
     Inr (instruction_for p
       ([writable mint_key False]) (InitializeMint2 dec authority freeze)))"

definition initialize_account_ix ::
  "pubkey \<Rightarrow> pubkey \<Rightarrow> pubkey \<Rightarrow> pubkey \<Rightarrow> pubkey
      \<Rightarrow> client_instruction token_res" where
  "initialize_account_ix p rent account mint_key owner =
     rbind (check_spl_token_program_account p) (\<lambda>_.
     Inr (instruction_for p
       ([writable account False, readonly mint_key False, readonly owner False, readonly rent
         False]) InitializeAccount))"

definition initialize_account2_ix ::
  "pubkey \<Rightarrow> pubkey \<Rightarrow> pubkey \<Rightarrow> pubkey \<Rightarrow> pubkey
      \<Rightarrow> client_instruction token_res" where
  "initialize_account2_ix p rent account mint_key owner =
     rbind (check_spl_token_program_account p) (\<lambda>_.
     Inr (instruction_for p
       ([writable account False, readonly mint_key False, readonly rent False]) (InitializeAccount2
         owner)))"

definition initialize_account3_ix ::
  "pubkey \<Rightarrow> pubkey \<Rightarrow> pubkey \<Rightarrow> pubkey \<Rightarrow>
      client_instruction token_res" where
  "initialize_account3_ix p account mint_key owner =
     rbind (check_spl_token_program_account p) (\<lambda>_.
     Inr (instruction_for p
       ([writable account False, readonly mint_key False]) (InitializeAccount3 owner)))"

definition initialize_multisig_ix ::
  "pubkey \<Rightarrow> pubkey \<Rightarrow> pubkey \<Rightarrow> pubkey list \<Rightarrow> u8
      \<Rightarrow> client_instruction token_res" where
  "initialize_multisig_ix p rent multisig_key signer_keys m =
     rbind (check_spl_token_program_account p) (\<lambda>_.
     if \<not> is_valid_signer_index (unat m) \<or> \<not> is_valid_signer_index (length signer_keys)
        \<or> length signer_keys < unat m then err MissingRequiredSignature
     else Inr (instruction_for p
       ([writable multisig_key False, readonly rent False] @ map (\<lambda>k. readonly k False)
         signer_keys) (InitializeMultisig m)))"

definition initialize_multisig2_ix ::
  "pubkey \<Rightarrow> pubkey \<Rightarrow> pubkey list \<Rightarrow> u8 \<Rightarrow>
      client_instruction token_res" where
  "initialize_multisig2_ix p multisig_key signer_keys m =
     rbind (check_spl_token_program_account p) (\<lambda>_.
     if \<not> is_valid_signer_index (unat m) \<or> \<not> is_valid_signer_index (length signer_keys)
        \<or> length signer_keys < unat m then err MissingRequiredSignature
     else Inr (instruction_for p
       ([writable multisig_key False] @ map (\<lambda>k. readonly k False) signer_keys)
         (InitializeMultisig2 m)))"

definition transfer_ix ::
  "pubkey \<Rightarrow> pubkey \<Rightarrow> pubkey \<Rightarrow> pubkey \<Rightarrow> pubkey list
      \<Rightarrow> u64 \<Rightarrow> client_instruction token_res" where
  "transfer_ix p source destination authority signer_keys amt =
     rbind (check_spl_token_program_account p) (\<lambda>_.
     Inr (instruction_for p
       ([writable source False, writable destination False] @ authority_metas authority signer_keys)
         (Transfer amt)))"

definition approve_ix ::
  "pubkey \<Rightarrow> pubkey \<Rightarrow> pubkey \<Rightarrow> pubkey \<Rightarrow> pubkey list
      \<Rightarrow> u64 \<Rightarrow> client_instruction token_res" where
  "approve_ix p source delegate_key owner signer_keys amt =
     rbind (check_spl_token_program_account p) (\<lambda>_.
     Inr (instruction_for p
       ([writable source False, readonly delegate_key False] @ authority_metas owner signer_keys)
         (Approve amt)))"

definition revoke_ix ::
  "pubkey \<Rightarrow> pubkey \<Rightarrow> pubkey \<Rightarrow> pubkey list \<Rightarrow>
      client_instruction token_res" where
  "revoke_ix p source owner signer_keys =
     rbind (check_spl_token_program_account p) (\<lambda>_.
     Inr (instruction_for p
       ([writable source False] @ authority_metas owner signer_keys) Revoke))"

definition set_authority_ix ::
  "pubkey \<Rightarrow> pubkey \<Rightarrow> pubkey option \<Rightarrow> authority_type
      \<Rightarrow> pubkey \<Rightarrow> pubkey list \<Rightarrow> client_instruction token_res" where
  "set_authority_ix p owned new_authority ty owner signer_keys =
     rbind (check_spl_token_program_account p) (\<lambda>_.
     Inr (instruction_for p
       ([writable owned False] @ authority_metas owner signer_keys) (SetAuthority ty new_authority)))"

definition mint_to_ix ::
  "pubkey \<Rightarrow> pubkey \<Rightarrow> pubkey \<Rightarrow> pubkey \<Rightarrow> pubkey list
      \<Rightarrow> u64 \<Rightarrow> client_instruction token_res" where
  "mint_to_ix p mint_key account owner signer_keys amt =
     rbind (check_spl_token_program_account p) (\<lambda>_.
     Inr (instruction_for p
       ([writable mint_key False, writable account False] @ authority_metas owner signer_keys)
         (MintTo amt)))"

definition burn_ix ::
  "pubkey \<Rightarrow> pubkey \<Rightarrow> pubkey \<Rightarrow> pubkey \<Rightarrow> pubkey list
      \<Rightarrow> u64 \<Rightarrow> client_instruction token_res" where
  "burn_ix p account mint_key authority signer_keys amt =
     rbind (check_spl_token_program_account p) (\<lambda>_.
     Inr (instruction_for p
       ([writable account False, writable mint_key False] @ authority_metas authority signer_keys)
         (Burn amt)))"

definition close_account_ix ::
  "pubkey \<Rightarrow> pubkey \<Rightarrow> pubkey \<Rightarrow> pubkey \<Rightarrow> pubkey list
      \<Rightarrow> client_instruction token_res" where
  "close_account_ix p account destination owner signer_keys =
     rbind (check_spl_token_program_account p) (\<lambda>_.
     Inr (instruction_for p
       ([writable account False, writable destination False] @ authority_metas owner signer_keys)
         CloseAccount))"

definition freeze_account_ix ::
  "pubkey \<Rightarrow> pubkey \<Rightarrow> pubkey \<Rightarrow> pubkey \<Rightarrow> pubkey list
      \<Rightarrow> client_instruction token_res" where
  "freeze_account_ix p account mint_key owner signer_keys =
     rbind (check_spl_token_program_account p) (\<lambda>_.
     Inr (instruction_for p
       ([writable account False, readonly mint_key False] @ authority_metas owner signer_keys)
         FreezeAccount))"

definition thaw_account_ix ::
  "pubkey \<Rightarrow> pubkey \<Rightarrow> pubkey \<Rightarrow> pubkey \<Rightarrow> pubkey list
      \<Rightarrow> client_instruction token_res" where
  "thaw_account_ix p account mint_key owner signer_keys =
     rbind (check_spl_token_program_account p) (\<lambda>_.
     Inr (instruction_for p
       ([writable account False, readonly mint_key False] @ authority_metas owner signer_keys)
         ThawAccount))"

definition transfer_checked_ix ::
  "pubkey \<Rightarrow> pubkey \<Rightarrow> pubkey \<Rightarrow> pubkey \<Rightarrow> pubkey
      \<Rightarrow> pubkey list \<Rightarrow> u64 \<Rightarrow> u8 \<Rightarrow> client_instruction
      token_res" where
  "transfer_checked_ix p source mint_key destination authority signer_keys amt dec =
     rbind (check_spl_token_program_account p) (\<lambda>_.
     Inr (instruction_for p
       ([writable source False, readonly mint_key False, writable destination False] @
         authority_metas authority signer_keys) (TransferChecked amt dec)))"

definition approve_checked_ix ::
  "pubkey \<Rightarrow> pubkey \<Rightarrow> pubkey \<Rightarrow> pubkey \<Rightarrow> pubkey
      \<Rightarrow> pubkey list \<Rightarrow> u64 \<Rightarrow> u8 \<Rightarrow> client_instruction
      token_res" where
  "approve_checked_ix p source mint_key delegate_key owner signer_keys amt dec =
     rbind (check_spl_token_program_account p) (\<lambda>_.
     Inr (instruction_for p
       ([writable source False, readonly mint_key False, readonly delegate_key False] @
         authority_metas owner signer_keys) (ApproveChecked amt dec)))"

definition mint_to_checked_ix ::
  "pubkey \<Rightarrow> pubkey \<Rightarrow> pubkey \<Rightarrow> pubkey \<Rightarrow> pubkey list
      \<Rightarrow> u64 \<Rightarrow> u8 \<Rightarrow> client_instruction token_res" where
  "mint_to_checked_ix p mint_key account owner signer_keys amt dec =
     rbind (check_spl_token_program_account p) (\<lambda>_.
     Inr (instruction_for p
       ([writable mint_key False, writable account False] @ authority_metas owner signer_keys)
         (MintToChecked amt dec)))"

definition burn_checked_ix ::
  "pubkey \<Rightarrow> pubkey \<Rightarrow> pubkey \<Rightarrow> pubkey \<Rightarrow> pubkey list
      \<Rightarrow> u64 \<Rightarrow> u8 \<Rightarrow> client_instruction token_res" where
  "burn_checked_ix p account mint_key authority signer_keys amt dec =
     rbind (check_spl_token_program_account p) (\<lambda>_.
     Inr (instruction_for p
       ([writable account False, writable mint_key False] @ authority_metas authority signer_keys)
         (BurnChecked amt dec)))"

definition sync_native_ix ::
  "pubkey \<Rightarrow> pubkey \<Rightarrow> client_instruction token_res" where
  "sync_native_ix p account =
     rbind (check_spl_token_program_account p) (\<lambda>_.
     Inr (instruction_for p
       ([writable account False]) SyncNative))"

definition get_account_data_size_ix ::
  "pubkey \<Rightarrow> pubkey \<Rightarrow> extension_type list \<Rightarrow> client_instruction
      token_res" where
  "get_account_data_size_ix p mint_key types =
     rbind (check_spl_token_program_account p) (\<lambda>_.
     Inr (instruction_for p
       ([readonly mint_key False]) (GetAccountDataSize types)))"

definition initialize_mint_close_authority_ix ::
  "pubkey \<Rightarrow> pubkey \<Rightarrow> pubkey option \<Rightarrow> client_instruction
      token_res" where
  "initialize_mint_close_authority_ix p mint_key close_key =
     rbind (check_program_account p) (\<lambda>_.
     Inr (instruction_for p
       ([writable mint_key False]) (InitializeMintCloseAuthority close_key)))"

definition initialize_immutable_owner_ix ::
  "pubkey \<Rightarrow> pubkey \<Rightarrow> client_instruction token_res" where
  "initialize_immutable_owner_ix p account =
     rbind (check_spl_token_program_account p) (\<lambda>_.
     Inr (instruction_for p
       ([writable account False]) InitializeImmutableOwner))"

definition amount_to_ui_amount_ix ::
  "pubkey \<Rightarrow> pubkey \<Rightarrow> u64 \<Rightarrow> client_instruction token_res" where
  "amount_to_ui_amount_ix p mint_key amt =
     rbind (check_spl_token_program_account p) (\<lambda>_.
     Inr (instruction_for p
       ([readonly mint_key False]) (AmountToUiAmount amt)))"

definition ui_amount_to_amount_ix ::
  "pubkey \<Rightarrow> pubkey \<Rightarrow> string \<Rightarrow> client_instruction token_res" where
  "ui_amount_to_amount_ix p mint_key ui_amount =
     rbind (check_spl_token_program_account p) (\<lambda>_.
     Inr (instruction_for p
       ([readonly mint_key False]) (UiAmountToAmount ui_amount)))"

definition reallocate_ix ::
  "pubkey \<Rightarrow> pubkey \<Rightarrow> pubkey \<Rightarrow> pubkey \<Rightarrow> pubkey
      \<Rightarrow> pubkey list \<Rightarrow> extension_type list \<Rightarrow> client_instruction
      token_res" where
  "reallocate_ix p system account payer owner signer_keys types =
     rbind (check_program_account p) (\<lambda>_.
     Inr (instruction_for p
       ([writable account False, writable payer True, readonly system False] @ authority_metas owner
         signer_keys) (Reallocate types)))"

definition create_native_mint_ix ::
  "pubkey \<Rightarrow> pubkey \<Rightarrow> pubkey \<Rightarrow> client_instruction token_res" where
  "create_native_mint_ix p system payer =
     rbind (check_program_account p) (\<lambda>_.
     Inr (instruction_for p
       ([writable payer True, writable native_mint_id False, readonly system False])
         CreateNativeMint))"

definition initialize_non_transferable_mint_ix ::
  "pubkey \<Rightarrow> pubkey \<Rightarrow> client_instruction token_res" where
  "initialize_non_transferable_mint_ix p mint_key =
     rbind (check_program_account p) (\<lambda>_.
     Inr (instruction_for p
       ([writable mint_key False]) InitializeNonTransferableMint))"

section \<open>The builders of the extensions\<close>

definition initialize_transfer_fee_config_ix ::
  "pubkey \<Rightarrow> pubkey \<Rightarrow> pubkey option \<Rightarrow> pubkey option
      \<Rightarrow> u16 \<Rightarrow> u64 \<Rightarrow> client_instruction token_res" where
  "initialize_transfer_fee_config_ix p mint_key config_authority withdraw_authority points max_fee =
     rbind (check_program_account p) (\<lambda>_.
     Inr (instruction_for p
       ([writable mint_key False]) (TransferFeeExtension (InitializeTransferFeeConfig
         config_authority withdraw_authority points max_fee))))"

definition transfer_checked_with_fee_ix ::
  "pubkey \<Rightarrow> pubkey \<Rightarrow> pubkey \<Rightarrow> pubkey \<Rightarrow> pubkey
      \<Rightarrow> pubkey list \<Rightarrow> u64 \<Rightarrow> u8 \<Rightarrow> u64 \<Rightarrow>
      client_instruction token_res" where
  "transfer_checked_with_fee_ix p source mint_key destination authority signer_keys amt dec fee =
     rbind (check_program_account p) (\<lambda>_.
     Inr (instruction_for p
       ([writable source False, readonly mint_key False, writable destination False] @
         authority_metas authority signer_keys) (TransferFeeExtension (TransferCheckedWithFee amt
         dec fee))))"

definition withdraw_withheld_tokens_from_mint_ix ::
  "pubkey \<Rightarrow> pubkey \<Rightarrow> pubkey \<Rightarrow> pubkey \<Rightarrow> pubkey list
      \<Rightarrow> client_instruction token_res" where
  "withdraw_withheld_tokens_from_mint_ix p mint_key destination authority signer_keys =
     rbind (check_program_account p) (\<lambda>_.
     Inr (instruction_for p
       ([writable mint_key False, writable destination False] @ authority_metas authority
         signer_keys) (TransferFeeExtension WithdrawWithheldTokensFromMint)))"

definition harvest_withheld_tokens_to_mint_ix ::
  "pubkey \<Rightarrow> pubkey \<Rightarrow> pubkey list \<Rightarrow> client_instruction token_res" where
  "harvest_withheld_tokens_to_mint_ix p mint_key sources =
     rbind (check_program_account p) (\<lambda>_.
     Inr (instruction_for p
       ([writable mint_key False] @ map (\<lambda>k. writable k False) sources)
         (TransferFeeExtension HarvestWithheldTokensToMint)))"

definition set_transfer_fee_ix ::
  "pubkey \<Rightarrow> pubkey \<Rightarrow> pubkey \<Rightarrow> pubkey list \<Rightarrow> u16
      \<Rightarrow> u64 \<Rightarrow> client_instruction token_res" where
  "set_transfer_fee_ix p mint_key authority signer_keys points max_fee =
     rbind (check_program_account p) (\<lambda>_.
     Inr (instruction_for p
       ([writable mint_key False] @ authority_metas authority signer_keys) (TransferFeeExtension
         (SetTransferFee points max_fee))))"

definition withdraw_withheld_tokens_from_accounts_ix ::
  "pubkey \<Rightarrow> pubkey \<Rightarrow> pubkey \<Rightarrow> pubkey \<Rightarrow> pubkey list \<Rightarrow> pubkey list \<Rightarrow> client_instruction token_res" where
  "withdraw_withheld_tokens_from_accounts_ix p mint_key destination authority signer_keys sources =
     rbind (check_program_account p) (\<lambda>_.
     if 256 \<le> length sources then err InvalidInstructionData
     else Inr (instruction_for p
       ([readonly mint_key False, writable destination False] @ authority_metas authority signer_keys
          @ map (\<lambda>k. writable k False) sources)
       (TransferFeeExtension (WithdrawWithheldTokensFromAccounts (of_nat (length sources))))))"

text \<open>\<open>encode_instruction\<close>: the token instruction, the byte of the extension's instruction, its data.\<close>

definition encode_instruction ::
  "pubkey \<Rightarrow> account_meta list \<Rightarrow> token_instruction \<Rightarrow> u8 \<Rightarrow> bytes \<Rightarrow> client_instruction" where
  "encode_instruction p metas i instruction_type d =
     \<lparr>ix_program_id = p, ix_accounts = metas, ix_data = pack_instruction i @ [instruction_type] @ d\<rparr>"

definition initialize_default_account_state_ix ::
  "pubkey \<Rightarrow> pubkey \<Rightarrow> account_state \<Rightarrow> client_instruction token_res" where
  "initialize_default_account_state_ix p mint_key s =
     rbind (check_program_account p) (\<lambda>_.
     Inr (encode_instruction p [writable mint_key False] DefaultAccountStateExtension 0 [account_state_byte s]))"

definition update_default_account_state_ix ::
  "pubkey \<Rightarrow> pubkey \<Rightarrow> pubkey \<Rightarrow> pubkey list \<Rightarrow> account_state \<Rightarrow> client_instruction token_res" where
  "update_default_account_state_ix p mint_key freeze signer_keys s =
     rbind (check_program_account p) (\<lambda>_.
     Inr (encode_instruction p (writable mint_key False # authority_metas freeze signer_keys)
       DefaultAccountStateExtension 1 [account_state_byte s]))"

definition enable_required_transfer_memos_ix ::
  "pubkey \<Rightarrow> pubkey \<Rightarrow> pubkey \<Rightarrow> pubkey list \<Rightarrow> client_instruction token_res" where
  "enable_required_transfer_memos_ix p account owner signer_keys =
     rbind (check_program_account p) (\<lambda>_.
     Inr (encode_instruction p (writable account False # authority_metas owner signer_keys)
       MemoTransferExtension 0 []))"

definition disable_required_transfer_memos_ix ::
  "pubkey \<Rightarrow> pubkey \<Rightarrow> pubkey \<Rightarrow> pubkey list \<Rightarrow> client_instruction token_res" where
  "disable_required_transfer_memos_ix p account owner signer_keys =
     rbind (check_program_account p) (\<lambda>_.
     Inr (encode_instruction p (writable account False # authority_metas owner signer_keys)
       MemoTransferExtension 1 []))"

definition initialize_interest_ix ::
  "pubkey \<Rightarrow> pubkey \<Rightarrow> pubkey option \<Rightarrow> u16 \<Rightarrow> client_instruction token_res" where
  "initialize_interest_ix p mint_key authority rate =
     rbind (check_program_account p) (\<lambda>_.
     rbind (lift_err (optional_key_of authority)) (\<lambda>k.
     Inr (encode_instruction p [writable mint_key False] InterestBearingMintExtension 0
       (key_bytes k @ u16_bytes rate))))"

definition update_rate_ix ::
  "pubkey \<Rightarrow> pubkey \<Rightarrow> pubkey \<Rightarrow> pubkey list \<Rightarrow> u16 \<Rightarrow> client_instruction token_res" where
  "update_rate_ix p mint_key authority signer_keys rate =
     rbind (check_program_account p) (\<lambda>_.
     Inr (encode_instruction p (writable mint_key False # authority_metas authority signer_keys)
       InterestBearingMintExtension 1 (u16_bytes rate)))"

section \<open>From the client to the ledger\<close>

text \<open>The accounts a call gets from the listed ones; \<open>has_signed\<close> says which keys signed the transaction.\<close>

definition infos_of :: "(pubkey \<Rightarrow> bool) \<Rightarrow> account_meta list \<Rightarrow> info list" where
  "infos_of has_signed metas = map (\<lambda>m. \<lparr>info_key = meta_key m, info_is_signer = has_signed (meta_key m)\<rparr>) metas"

definition submit ::
  "token_sdk \<Rightarrow> (pubkey \<Rightarrow> bool) \<Rightarrow> client_instruction \<Rightarrow> store \<Rightarrow> (store \<times> bytes option) token_res" where
  "submit K has_signed ix st = process K (ix_program_id ix) (infos_of has_signed (ix_accounts ix)) (ix_data ix) st"

lemma infos_of_roles [simp]:
  "infos_of has_signed [] = []"
  "infos_of has_signed (writable k s # ms) = \<lparr>info_key = k, info_is_signer = has_signed k\<rparr> # infos_of has_signed ms"
  "infos_of has_signed (readonly k s # ms) = \<lparr>info_key = k, info_is_signer = has_signed k\<rparr> # infos_of has_signed ms"
  by (simp_all add: infos_of_def writable_def readonly_def)

lemma infos_of_signers:
  "infos_of has_signed (map (\<lambda>k. readonly k s) ks) = map (\<lambda>k. \<lparr>info_key = k, info_is_signer = has_signed k\<rparr>) ks"
  by (simp add: infos_of_def readonly_def)

lemma submit_instruction_for:
  assumes "str_invariant i"
  shows "submit K has_signed (instruction_for p metas i) st
    = process_instruction K p (infos_of has_signed metas) (drop 1 (pack_instruction i)) i st"
  using assms by (simp add: submit_def instruction_for_def process_def lift_err_def unpack_pack_instruction)

section \<open>Properties\<close>

text \<open>
  C27. A transfer built by the client does what its arguments say: when the instruction of
  \<open>transfer_checked_with_fee\<close> succeeds, exactly the amount has left the named source, the
  named destination holds it less exactly the agreed fee, which is withheld, and the named
  authority, or the named signers for it, signed.
\<close>

theorem client_transfer_end_to_end:
  assumes "token_program K"
    and "transfer_checked_with_fee_ix p source mint_key destination authority signer_keys amt dec fee = Inr ix"
    and "submit K has_signed ix st = Inr (st', r)"
    and "source \<noteq> destination"
  shows "moved K source destination (unat amt) (unat fee) st st'
    \<and> (\<exists>src. account_at K st source src
         \<and> authorised st token_2022_id
             (debit_key (ext_base src) \<lparr>info_key = authority, info_is_signer = has_signed authority\<rparr>)
             \<lparr>info_key = authority, info_is_signer = has_signed authority\<rparr>
             (map (\<lambda>k. \<lparr>info_key = k, info_is_signer = has_signed k\<rparr>) signer_keys))"
proof -
  let ?i = "TransferFeeExtension (TransferCheckedWithFee amt dec fee)"
  let ?info = "\<lambda>k. \<lparr>info_key = k, info_is_signer = has_signed k\<rparr>"
  have p: "p = token_2022_id" and ix: "ix = instruction_for p
      ([writable source False, readonly mint_key False, writable destination False]
         @ authority_metas authority signer_keys) ?i"
    using assms(2) by (auto simp: transfer_checked_with_fee_ix_def rbind_Inr_iff)
  have "process_transfer K token_2022_id (?info source # ?info mint_key # ?info destination # ?info authority
      # map ?info signer_keys) amt (Some dec) (Some fee) st = Inr st'"
    using assms(3) submit_instruction_for [of ?i K has_signed p _ st]
    by (simp add: ix p authority_metas_def infos_of_signers process_instruction_def silent_def
        process_transfer_fee_instruction_def rbind_Inr_iff)
  then have run: "transfer_between K token_2022_id (?info source) (Some (?info mint_key, dec)) (?info destination)
      (?info authority) (map ?info signer_keys) amt (Some fee) st = Inr st'"
    by (simp add: process_transfer_def next_account_info_def next_mint_info_def)
  show ?thesis
    by (rule token_program.transfer_between_effect [OF assms(1) run]) (use assms(4) in auto)
qed

theorem client_transfer_end_to_end_witness:
  "\<exists>ix st'. transfer_checked_with_fee_ix token_2022_id 1 5 2 7 [] 30 2 0 = Inr ix
     \<and> submit sample_sdk (\<lambda>k. k = 7) ix example_store = Inr (st', None)
     \<and> moved sample_sdk 1 2 30 0 example_store st'"
proof -
  let ?i = "TransferFeeExtension (TransferCheckedWithFee 30 2 0)"
  let ?ix = "instruction_for token_2022_id
      ([writable 1 False, readonly 5 False, writable 2 False] @ authority_metas 7 []) ?i"
  have ix: "transfer_checked_with_fee_ix token_2022_id 1 5 2 7 [] 30 2 0 = Inr ?ix"
    by (simp add: transfer_checked_with_fee_ix_def check_program_account_def)
  obtain st' where "process_transfer sample_sdk token_2022_id example_accounts 30 (Some 2) (Some 0) example_store
      = Inr st'"
    using example_transfer [of "Some 0"] by auto
  then have run: "submit sample_sdk (\<lambda>k. k = 7) ?ix example_store = Inr (st', None)"
    using submit_instruction_for [of ?i sample_sdk "\<lambda>k. k = 7" token_2022_id _ example_store]
    by (simp add: authority_metas_def infos_of_signers process_instruction_def silent_def
        process_transfer_fee_instruction_def check_program_account_def example_accounts_def)
  show ?thesis
    using client_transfer_end_to_end [OF sample.token_program_axioms ix run] ix run by auto
qed

end
