(* ===== verification/Playnet_System.thy ===== *)
theory Playnet_System
  imports Prelude
begin

text \<open>
  The System program of the in-browser runtime:
  \<open>wasm/playnet/src/runtime/system_instruction_processor.rs\<close> and
  \<open>nonce_keyed_account.rs\<close>.  The Solana SDK's transaction context, its borrowed accounts,
  the nonce encodings, the feature set and the address derivation are the fields of the record
  \<open>sdk\<close>, over an abstract context state \<open>'t\<close> and nonce encoding \<open>'v\<close>; accounts are named by
  their position in the instruction.  A failed instruction's context is dropped by the caller,
  so an operation returns either an error or the new context.
\<close>

section \<open>Errors and the SDK\<close>

datatype system_error =
    AccountAlreadyInUse
  | ResultWithNegativeLamports
  | InvalidAccountDataLength
  | AddressWithSeedMismatch

datatype nonce_error = NoRecentBlockhashes | NotExpired | BadAccountState

datatype instruction_error =
    MissingRequiredSignature
  | InvalidArgument
  | InsufficientFunds
  | InvalidAccountOwner
  | System system_error
  | NonceCustom nonce_error
  | NonceMerged nonce_error bool \<comment> \<open>\<open>nonce_to_instruction_error(e, merge)\<close>\<close>
  | SdkError nat

type_synonym hash = "256 word"

record nonce_data =
  authority :: pubkey
  durable_nonce :: hash
  fee_per_signature :: u64

datatype nonce_state = Uninitialized | Initialized nonce_data

datatype authorize_error = AuthUninitialized | AuthMissingSignature pubkey

datatype feature = System_transfer_zero_check | Merge_nonce_error_into_system_error

datatype system_instruction =
    CreateAccount u64 u64 pubkey \<comment> \<open>lamports, space, owner\<close>
  | CreateAccountWithSeed pubkey string u64 u64 pubkey \<comment> \<open>base, seed, lamports, space, owner\<close>
  | Assign pubkey
  | Transfer u64
  | TransferWithSeed u64 string pubkey \<comment> \<open>lamports, seed and owner of \<open>from\<close>\<close>
  | AdvanceNonceAccount
  | WithdrawNonceAccount u64
  | InitializeNonceAccount pubkey
  | AuthorizeNonceAccount pubkey
  | UpgradeNonceAccount
  | Allocate u64
  | AllocateWithSeed pubkey string u64 pubkey
  | AssignWithSeed pubkey string pubkey

record ('t, 'v) sdk =
  instruction_of :: "'t \<Rightarrow> instruction_error + system_instruction" \<comment> \<open>\<open>limited_deserialize\<close> of the data\<close>
  check_accounts :: "'t \<Rightarrow> nat \<Rightarrow> instruction_error + unit"
  tx_index :: "'t \<Rightarrow> nat \<Rightarrow> instruction_error + nat"
  key_at :: "'t \<Rightarrow> nat \<Rightarrow> instruction_error + pubkey"
  signer_at :: "'t \<Rightarrow> nat \<Rightarrow> instruction_error + bool"
  get_signers :: "'t \<Rightarrow> instruction_error + pubkey set"
  borrow :: "'t \<Rightarrow> nat \<Rightarrow> instruction_error + unit" \<comment> \<open>\<open>try_borrow_instruction_account\<close>\<close>
  get_key :: "'t \<Rightarrow> nat \<Rightarrow> pubkey"
  get_lamports :: "'t \<Rightarrow> nat \<Rightarrow> u64"
  get_data :: "'t \<Rightarrow> nat \<Rightarrow> bytes"
  get_owner :: "'t \<Rightarrow> nat \<Rightarrow> pubkey"
  is_writable_at :: "'t \<Rightarrow> nat \<Rightarrow> bool"
  checked_sub_lamports :: "nat \<Rightarrow> u64 \<Rightarrow> 't \<Rightarrow> instruction_error + 't"
  checked_add_lamports :: "nat \<Rightarrow> u64 \<Rightarrow> 't \<Rightarrow> instruction_error + 't"
  set_data_length :: "nat \<Rightarrow> u64 \<Rightarrow> 't \<Rightarrow> instruction_error + 't"
  set_owner :: "nat \<Rightarrow> pubkey \<Rightarrow> 't \<Rightarrow> instruction_error + 't"
  get_versions :: "'t \<Rightarrow> nat \<Rightarrow> instruction_error + 'v"
  set_versions :: "nat \<Rightarrow> 'v \<Rightarrow> 't \<Rightarrow> instruction_error + 't"
  state_of :: "'v \<Rightarrow> nonce_state"
  new_versions :: "nonce_state \<Rightarrow> 'v"
  upgrade_versions :: "'v \<Rightarrow> 'v option"
  authorize_versions :: "'v \<Rightarrow> pubkey set \<Rightarrow> pubkey \<Rightarrow> authorize_error + 'v"
  create_with_seed :: "pubkey \<Rightarrow> string \<Rightarrow> pubkey \<Rightarrow> instruction_error + pubkey"
  feature_active :: "feature \<Rightarrow> bool"
  blockhash_nonce :: hash \<comment> \<open>\<open>DurableNonce::from_blockhash\<close> of the context's blockhash\<close>
  lamports_per_signature :: u64
  recent_blockhashes :: "'t \<Rightarrow> nat \<Rightarrow> instruction_error + hash list"
  rent_sysvar :: "'t \<Rightarrow> nat \<Rightarrow> instruction_error + (nat \<Rightarrow> u64)" \<comment> \<open>\<open>minimum_balance\<close> of the rent\<close>

definition system_program_id :: pubkey where "system_program_id = 0"

definition MAX_PERMITTED_DATA_LENGTH :: u64 where
  "MAX_PERMITTED_DATA_LENGTH = 10 * 1024 * 1024"

text \<open>A guard of the code: \<open>if bad { return Err(e) }\<close>.\<close>

definition guard :: "bool \<Rightarrow> 'e \<Rightarrow> 'e + unit" where
  "guard bad e = (if bad then Inl e else Inr ())"

lemma guard_Inr_iff [simp]: "guard b e = Inr u \<longleftrightarrow> \<not> b"
  by (simp add: guard_def)

lemma guard_simps [simp]: "guard True e = Inl e" "guard False e = Inr ()"
  by (simp_all add: guard_def)

section \<open>Addresses\<close>

record address =
  addr :: pubkey
  addr_base :: "pubkey option"

definition address_is_signer :: "address \<Rightarrow> pubkey set \<Rightarrow> bool" where
  "address_is_signer a signers =
     (case addr_base a of Some base \<Rightarrow> base \<in> signers | None \<Rightarrow> addr a \<in> signers)"

definition address_create ::
  "('t, 'v) sdk \<Rightarrow> pubkey \<Rightarrow> (pubkey \<times> string \<times> pubkey) option \<Rightarrow> instruction_error + address" where
  "address_create S address with_seed =
     rbind (case with_seed of
         Some (base, seed, owner) \<Rightarrow>
           rbind (create_with_seed S base seed owner) (\<lambda>derived.
             if address \<noteq> derived then Inl (System AddressWithSeedMismatch) else Inr (Some base))
       | None \<Rightarrow> Inr None)
       (\<lambda>base. Inr \<lparr>addr = address, addr_base = base\<rparr>)"

text \<open>The key of instruction account \<open>i\<close>, by its index in the transaction.\<close>

definition instruction_key :: "('t, 'v) sdk \<Rightarrow> 't \<Rightarrow> nat \<Rightarrow> instruction_error + pubkey" where
  "instruction_key S t i = rbind (tx_index S t i) (key_at S t)"

section \<open>Accounts\<close>

definition allocate ::
  "('t, 'v) sdk \<Rightarrow> nat \<Rightarrow> address \<Rightarrow> u64 \<Rightarrow> pubkey set \<Rightarrow> 't \<Rightarrow> instruction_error + 't" where
  "allocate S i a space signers t =
     (if \<not> address_is_signer a signers then Inl MissingRequiredSignature
      else if get_data S t i \<noteq> [] \<or> get_owner S t i \<noteq> system_program_id then Inl (System AccountAlreadyInUse)
      else if space > MAX_PERMITTED_DATA_LENGTH then Inl (System InvalidAccountDataLength)
      else set_data_length S i space t)"

definition assign ::
  "('t, 'v) sdk \<Rightarrow> nat \<Rightarrow> address \<Rightarrow> pubkey \<Rightarrow> pubkey set \<Rightarrow> 't \<Rightarrow> instruction_error + 't" where
  "assign S i a owner signers t =
     (if get_owner S t i = owner then Inr t
      else if \<not> address_is_signer a signers then Inl MissingRequiredSignature
      else set_owner S i owner t)"

definition allocate_and_assign ::
  "('t, 'v) sdk \<Rightarrow> nat \<Rightarrow> address \<Rightarrow> u64 \<Rightarrow> pubkey \<Rightarrow> pubkey set \<Rightarrow> 't \<Rightarrow> instruction_error + 't" where
  "allocate_and_assign S i a space owner signers t =
     rbind (allocate S i a space signers t) (assign S i a owner signers)"

definition transfer_verified ::
  "('t, 'v) sdk \<Rightarrow> nat \<Rightarrow> nat \<Rightarrow> u64 \<Rightarrow> 't \<Rightarrow> instruction_error + 't" where
  "transfer_verified S from_i to_i lamports t =
     rbind (borrow S t from_i) (\<lambda>_.
     if get_data S t from_i \<noteq> [] then Inl InvalidArgument
     else if lamports > get_lamports S t from_i then Inl (System ResultWithNegativeLamports)
     else rbind (checked_sub_lamports S from_i lamports t) (\<lambda>t.
          rbind (borrow S t to_i) (\<lambda>_.
          checked_add_lamports S to_i lamports t)))"

definition transfer ::
  "('t, 'v) sdk \<Rightarrow> nat \<Rightarrow> nat \<Rightarrow> u64 \<Rightarrow> 't \<Rightarrow> instruction_error + 't" where
  "transfer S from_i to_i lamports t =
     (if \<not> feature_active S System_transfer_zero_check \<and> lamports = 0 then Inr t
      else rbind (signer_at S t from_i) (\<lambda>signed.
           if \<not> signed then rbind (instruction_key S t from_i) (\<lambda>_. Inl MissingRequiredSignature)
           else transfer_verified S from_i to_i lamports t))"

definition transfer_with_seed ::
  "('t, 'v) sdk \<Rightarrow> nat \<Rightarrow> nat \<Rightarrow> string \<Rightarrow> pubkey \<Rightarrow> nat \<Rightarrow> u64 \<Rightarrow> 't \<Rightarrow> instruction_error + 't" where
  "transfer_with_seed S from_i base_i from_seed from_owner to_i lamports t =
     (if \<not> feature_active S System_transfer_zero_check \<and> lamports = 0 then Inr t
      else rbind (signer_at S t base_i) (\<lambda>signed.
           if \<not> signed then rbind (instruction_key S t base_i) (\<lambda>_. Inl MissingRequiredSignature)
           else rbind (instruction_key S t base_i) (\<lambda>base.
                rbind (create_with_seed S base from_seed from_owner) (\<lambda>derived.
                rbind (instruction_key S t from_i) (\<lambda>from_key.
                if from_key \<noteq> derived then Inl (System AddressWithSeedMismatch)
                else transfer_verified S from_i to_i lamports t)))))"

definition create_account ::
  "('t, 'v) sdk \<Rightarrow> nat \<Rightarrow> nat \<Rightarrow> address \<Rightarrow> u64 \<Rightarrow> u64 \<Rightarrow> pubkey \<Rightarrow> pubkey set \<Rightarrow> 't
     \<Rightarrow> instruction_error + 't" where
  "create_account S from_i to_i to_address lamports space owner signers t =
     rbind (borrow S t to_i) (\<lambda>_.
     if get_lamports S t to_i > 0 then Inl (System AccountAlreadyInUse)
     else rbind (allocate_and_assign S to_i to_address space owner signers t)
            (transfer S from_i to_i lamports))"

section \<open>Nonce accounts\<close>

definition nonce_failure :: "('t, 'v) sdk \<Rightarrow> nonce_error \<Rightarrow> instruction_error" where
  "nonce_failure S e = NonceMerged e (feature_active S Merge_nonce_error_into_system_error)"

definition advance_nonce_account ::
  "('t, 'v) sdk \<Rightarrow> nat \<Rightarrow> pubkey set \<Rightarrow> 't \<Rightarrow> instruction_error + 't" where
  "advance_nonce_account S i signers t =
     (if \<not> is_writable_at S t i then Inl InvalidArgument
      else rbind (get_versions S t i) (\<lambda>versions.
        case state_of S versions of
          Initialized d \<Rightarrow>
            if authority d \<notin> signers then Inl MissingRequiredSignature
            else if durable_nonce d = blockhash_nonce S then Inl (nonce_failure S NotExpired)
            else set_versions S i (new_versions S (Initialized
                   \<lparr>authority = authority d, durable_nonce = blockhash_nonce S,
                    fee_per_signature = lamports_per_signature S\<rparr>)) t
        | Uninitialized \<Rightarrow> Inl (nonce_failure S BadAccountState)))"

definition withdraw_nonce_account ::
  "('t, 'v) sdk \<Rightarrow> nat \<Rightarrow> u64 \<Rightarrow> nat \<Rightarrow> (nat \<Rightarrow> u64) \<Rightarrow> pubkey set \<Rightarrow> 't \<Rightarrow> instruction_error + 't" where
  "withdraw_nonce_account S from_i lamports to_i minimum_balance signers t =
     rbind (borrow S t from_i) (\<lambda>_.
     if \<not> is_writable_at S t from_i then Inl InvalidArgument
     else rbind (get_versions S t from_i) (\<lambda>versions.
     rbind (case state_of S versions of
         Uninitialized \<Rightarrow>
           if lamports > get_lamports S t from_i then Inl InsufficientFunds
           else Inr (get_key S t from_i, t)
       | Initialized d \<Rightarrow>
           rbind (if lamports = get_lamports S t from_i then
                    (if durable_nonce d = blockhash_nonce S then Inl (nonce_failure S NotExpired)
                     else set_versions S from_i (new_versions S Uninitialized) t)
                  else
                    rbind (ok_or (checked_add lamports (minimum_balance (length (get_data S t from_i))))
                             InsufficientFunds) (\<lambda>amount.
                    if amount > get_lamports S t from_i then Inl InsufficientFunds else Inr t))
             (\<lambda>t. Inr (authority d, t)))
       (\<lambda>(signer, t).
     if signer \<notin> signers then Inl MissingRequiredSignature
     else rbind (checked_sub_lamports S from_i lamports t) (\<lambda>t.
          rbind (borrow S t to_i) (\<lambda>_.
          checked_add_lamports S to_i lamports t)))))"

definition initialize_nonce_account ::
  "('t, 'v) sdk \<Rightarrow> nat \<Rightarrow> pubkey \<Rightarrow> (nat \<Rightarrow> u64) \<Rightarrow> 't \<Rightarrow> instruction_error + 't" where
  "initialize_nonce_account S i nonce_authority minimum_balance t =
     (if \<not> is_writable_at S t i then Inl InvalidArgument
      else rbind (get_versions S t i) (\<lambda>versions.
        case state_of S versions of
          Uninitialized \<Rightarrow>
            if get_lamports S t i < minimum_balance (length (get_data S t i)) then Inl InsufficientFunds
            else set_versions S i (new_versions S (Initialized
                   \<lparr>authority = nonce_authority, durable_nonce = blockhash_nonce S,
                    fee_per_signature = lamports_per_signature S\<rparr>)) t
        | Initialized _ \<Rightarrow> Inl (nonce_failure S BadAccountState)))"

definition authorize_nonce_account ::
  "('t, 'v) sdk \<Rightarrow> nat \<Rightarrow> pubkey \<Rightarrow> pubkey set \<Rightarrow> 't \<Rightarrow> instruction_error + 't" where
  "authorize_nonce_account S i nonce_authority signers t =
     (if \<not> is_writable_at S t i then Inl InvalidArgument
      else rbind (get_versions S t i) (\<lambda>versions.
        case authorize_versions S versions signers nonce_authority of
          Inr versions' \<Rightarrow> set_versions S i versions' t
        | Inl AuthUninitialized \<Rightarrow> Inl (nonce_failure S BadAccountState)
        | Inl (AuthMissingSignature _) \<Rightarrow> Inl MissingRequiredSignature))"

definition upgrade_nonce_account :: "('t, 'v) sdk \<Rightarrow> nat \<Rightarrow> 't \<Rightarrow> instruction_error + 't" where
  "upgrade_nonce_account S i t =
     (if get_owner S t i \<noteq> system_program_id then Inl InvalidAccountOwner
      else if \<not> is_writable_at S t i then Inl InvalidArgument
      else rbind (get_versions S t i) (\<lambda>versions.
        case upgrade_versions S versions of
          None \<Rightarrow> Inl InvalidArgument
        | Some versions' \<Rightarrow> set_versions S i versions' t))"

section \<open>The instruction processor\<close>

definition nonempty_blockhashes :: "('t, 'v) sdk \<Rightarrow> 't \<Rightarrow> nat \<Rightarrow> instruction_error + unit" where
  "nonempty_blockhashes S t i =
     rbind (recent_blockhashes S t i) (\<lambda>hs. guard (hs = []) (NonceCustom NoRecentBlockhashes))"

definition process_system_instruction :: "('t, 'v) sdk \<Rightarrow> 't \<Rightarrow> instruction_error + 't" where
  "process_system_instruction S t =
     rbind (instruction_of S t) (\<lambda>instruction.
     rbind (get_signers S t) (\<lambda>signers.
     case instruction of
       CreateAccount lamports space owner \<Rightarrow>
         rbind (check_accounts S t 2) (\<lambda>_.
         rbind (instruction_key S t 1) (\<lambda>key.
         rbind (address_create S key None) (\<lambda>to_address.
         create_account S 0 1 to_address lamports space owner signers t)))
     | CreateAccountWithSeed base seed lamports space owner \<Rightarrow>
         rbind (check_accounts S t 2) (\<lambda>_.
         rbind (instruction_key S t 1) (\<lambda>key.
         rbind (address_create S key (Some (base, seed, owner))) (\<lambda>to_address.
         create_account S 0 1 to_address lamports space owner signers t)))
     | Assign owner \<Rightarrow>
         rbind (check_accounts S t 1) (\<lambda>_.
         rbind (borrow S t 0) (\<lambda>_.
         rbind (instruction_key S t 0) (\<lambda>key.
         rbind (address_create S key None) (\<lambda>a.
         assign S 0 a owner signers t))))
     | Transfer lamports \<Rightarrow>
         rbind (check_accounts S t 2) (\<lambda>_. transfer S 0 1 lamports t)
     | TransferWithSeed lamports from_seed from_owner \<Rightarrow>
         rbind (check_accounts S t 3) (\<lambda>_. transfer_with_seed S 0 1 from_seed from_owner 2 lamports t)
     | AdvanceNonceAccount \<Rightarrow>
         rbind (check_accounts S t 1) (\<lambda>_.
         rbind (borrow S t 0) (\<lambda>_.
         rbind (nonempty_blockhashes S t 1) (\<lambda>_.
         advance_nonce_account S 0 signers t)))
     | WithdrawNonceAccount lamports \<Rightarrow>
         rbind (check_accounts S t 2) (\<lambda>_.
         rbind (recent_blockhashes S t 2) (\<lambda>_.
         rbind (rent_sysvar S t 3) (\<lambda>rent.
         withdraw_nonce_account S 0 lamports 1 rent signers t)))
     | InitializeNonceAccount authorized \<Rightarrow>
         rbind (check_accounts S t 1) (\<lambda>_.
         rbind (borrow S t 0) (\<lambda>_.
         rbind (nonempty_blockhashes S t 1) (\<lambda>_.
         rbind (rent_sysvar S t 2) (\<lambda>rent.
         initialize_nonce_account S 0 authorized rent t))))
     | AuthorizeNonceAccount nonce_authority \<Rightarrow>
         rbind (check_accounts S t 1) (\<lambda>_.
         rbind (borrow S t 0) (\<lambda>_.
         authorize_nonce_account S 0 nonce_authority signers t))
     | UpgradeNonceAccount \<Rightarrow>
         rbind (check_accounts S t 1) (\<lambda>_.
         rbind (borrow S t 0) (\<lambda>_. upgrade_nonce_account S 0 t))
     | Allocate space \<Rightarrow>
         rbind (check_accounts S t 1) (\<lambda>_.
         rbind (borrow S t 0) (\<lambda>_.
         rbind (instruction_key S t 0) (\<lambda>key.
         rbind (address_create S key None) (\<lambda>a.
         allocate S 0 a space signers t))))
     | AllocateWithSeed base seed space owner \<Rightarrow>
         rbind (check_accounts S t 1) (\<lambda>_.
         rbind (borrow S t 0) (\<lambda>_.
         rbind (instruction_key S t 0) (\<lambda>key.
         rbind (address_create S key (Some (base, seed, owner))) (\<lambda>a.
         allocate_and_assign S 0 a space owner signers t))))
     | AssignWithSeed base seed owner \<Rightarrow>
         rbind (check_accounts S t 1) (\<lambda>_.
         rbind (borrow S t 0) (\<lambda>_.
         rbind (instruction_key S t 0) (\<lambda>key.
         rbind (address_create S key (Some (base, seed, owner))) (\<lambda>a.
         assign S 0 a owner signers t))))))"

datatype system_account_kind = SystemKind | NonceKind

text \<open>
  \<open>get_system_account_kind\<close>; \<open>nonce_of\<close> decodes the account's data, \<open>nonce_size\<close> is
  \<open>nonce::State::size()\<close>.
\<close>

definition get_system_account_kind ::
  "(bytes \<Rightarrow> nonce_state option) \<Rightarrow> nat \<Rightarrow> pubkey \<Rightarrow> bytes \<Rightarrow> system_account_kind option" where
  "get_system_account_kind nonce_of nonce_size owner data =
     (if owner \<noteq> system_program_id then None
      else if data = [] then Some SystemKind
      else if length data = nonce_size then
        (case nonce_of data of
           None \<Rightarrow> None
         | Some Uninitialized \<Rightarrow> None
         | Some (Initialized _) \<Rightarrow> Some NonceKind)
      else None)"

text \<open>The nonce operations write the state of their account and do nothing else.\<close>

lemma nonce_sets:
  "advance_nonce_account S i sg t = Inr t' \<Longrightarrow> \<exists>v. set_versions S i v t = Inr t'"
  "initialize_nonce_account S i p m t = Inr t' \<Longrightarrow> \<exists>v. set_versions S i v t = Inr t'"
  "authorize_nonce_account S i p sg t = Inr t' \<Longrightarrow> \<exists>v. set_versions S i v t = Inr t'"
  "upgrade_nonce_account S i t = Inr t' \<Longrightarrow> \<exists>v. set_versions S i v t = Inr t'"
  by (auto simp: advance_nonce_account_def initialize_nonce_account_def authorize_nonce_account_def
      upgrade_nonce_account_def rbind_def
      split: if_splits nonce_state.split_asm sum.split_asm option.split_asm authorize_error.split_asm)

section \<open>The contract of the transaction context\<close>

text \<open>
  What the program relies on.  The accounts of the transaction are \<open>acct t 0\<close>, ...,
  \<open>acct t (n - 1)\<close>; an instruction account is one of them, possibly the same one twice.  A
  balance operation moves the stated amount without wrapping or fails, and every operation
  changes one aspect of one account.
\<close>

record account_view =
  v_lamports :: u64
  v_owner :: pubkey
  v_data :: bytes

locale transaction_sdk =
  fixes S :: "('t, 'v) sdk" and acct :: "'t \<Rightarrow> nat \<Rightarrow> account_view" and n :: nat
  assumes index_facts: "tx_index S t i = Inr k \<Longrightarrow>
        k < n \<and> get_lamports S t i = v_lamports (acct t k) \<and> get_owner S t i = v_owner (acct t k)
        \<and> get_data S t i = v_data (acct t k) \<and> key_at S t k = Inr (get_key S t i)"
    and borrow_index: "borrow S t i = Inr u \<Longrightarrow> \<exists>k. tx_index S t i = Inr k"
    and sub_facts: "checked_sub_lamports S i l t = Inr t' \<Longrightarrow> tx_index S t i = Inr k \<Longrightarrow>
        l \<le> v_lamports (acct t k)
        \<and> acct t' = (acct t)(k := (acct t k)\<lparr>v_lamports := v_lamports (acct t k) - l\<rparr>)
        \<and> tx_index S t' = tx_index S t"
    and add_facts: "checked_add_lamports S i l t = Inr t' \<Longrightarrow> tx_index S t i = Inr k \<Longrightarrow>
        unat (v_lamports (acct t k)) + unat l < 2 ^ 64
        \<and> acct t' = (acct t)(k := (acct t k)\<lparr>v_lamports := v_lamports (acct t k) + l\<rparr>)
        \<and> tx_index S t' = tx_index S t"
    and length_facts: "set_data_length S i m t = Inr t' \<Longrightarrow> tx_index S t i = Inr k \<Longrightarrow>
        (\<exists>d. length d = unat m \<and> acct t' = (acct t)(k := (acct t k)\<lparr>v_data := d\<rparr>))
        \<and> tx_index S t' = tx_index S t \<and> key_at S t' = key_at S t \<and> signer_at S t' = signer_at S t"
    and owner_facts: "set_owner S i p t = Inr t' \<Longrightarrow> tx_index S t i = Inr k \<Longrightarrow>
        acct t' = (acct t)(k := (acct t k)\<lparr>v_owner := p\<rparr>)
        \<and> tx_index S t' = tx_index S t \<and> key_at S t' = key_at S t \<and> signer_at S t' = signer_at S t"
    and versions_facts: "set_versions S i v t = Inr t' \<Longrightarrow> tx_index S t i = Inr k \<Longrightarrow>
        get_versions S t' i = Inr v
        \<and> (\<exists>d. length d = length (v_data (acct t k)) \<and> acct t' = (acct t)(k := (acct t k)\<lparr>v_data := d\<rparr>))
        \<and> tx_index S t' = tx_index S t \<and> is_writable_at S t' = is_writable_at S t \<and> borrow S t' = borrow S t"
    and new_state: "state_of S (new_versions S s) = s"
begin

lemma index_lt: "tx_index S t i = Inr k \<Longrightarrow> k < n"
  using index_facts by blast

text \<open>An operation that leaves every balance and the account numbering alone.\<close>

definition keeps_balances :: "'t \<Rightarrow> 't \<Rightarrow> bool" where
  "keeps_balances t t' \<longleftrightarrow>
     (\<forall>k. v_lamports (acct t' k) = v_lamports (acct t k)) \<and> tx_index S t' = tx_index S t"

lemma keeps_refl: "keeps_balances t t"
  by (simp add: keeps_balances_def)

lemma keeps_trans: "keeps_balances t u \<Longrightarrow> keeps_balances u v \<Longrightarrow> keeps_balances t v"
  by (simp add: keeps_balances_def)

lemma set_keeps:
  "tx_index S t i = Inr k \<Longrightarrow> set_data_length S i m t = Inr t' \<Longrightarrow> keeps_balances t t'"
  "tx_index S t i = Inr k \<Longrightarrow> set_owner S i p t = Inr t' \<Longrightarrow> keeps_balances t t'"
  "tx_index S t i = Inr k \<Longrightarrow> set_versions S i v t = Inr t' \<Longrightarrow> keeps_balances t t'"
  by (auto simp: keeps_balances_def dest!: length_facts owner_facts versions_facts)

lemma assign_keeps: "tx_index S t i = Inr k \<Longrightarrow> assign S i a p sg t = Inr t' \<Longrightarrow>
    keeps_balances t t' \<and> signer_at S t' = signer_at S t"
  using owner_facts set_keeps(2) by (auto simp: assign_def keeps_refl split: if_splits)

lemma allocate_keeps: "tx_index S t i = Inr k \<Longrightarrow> allocate S i a m sg t = Inr t' \<Longrightarrow>
    keeps_balances t t' \<and> signer_at S t' = signer_at S t"
  using length_facts set_keeps(1) by (auto simp: allocate_def split: if_splits)

lemma allocate_and_assign_keeps:
  assumes "tx_index S t i = Inr k" and "allocate_and_assign S i a m p sg t = Inr t'"
  shows "keeps_balances t t' \<and> signer_at S t' = signer_at S t"
proof -
  obtain u where u: "allocate S i a m sg t = Inr u" and v: "assign S i a p sg u = Inr t'"
    using assms(2) by (auto simp: allocate_and_assign_def rbind_Inr_iff)
  then have "tx_index S u i = Inr k"
    using allocate_keeps [OF assms(1) u] assms(1) by (simp add: keeps_balances_def)
  then show ?thesis
    using allocate_keeps [OF assms(1) u] assign_keeps [OF _ v] keeps_trans by force
qed

text \<open>\<open>moved t t' f g l\<close>: \<open>l\<close> lamports went from account \<open>f\<close> to account \<open>g\<close>, nothing else moved.\<close>

definition moved :: "'t \<Rightarrow> 't \<Rightarrow> nat \<Rightarrow> nat \<Rightarrow> u64 \<Rightarrow> bool" where
  "moved t t' f g l \<longleftrightarrow>
     f < n \<and> g < n \<and> l \<le> v_lamports (acct t f)
   \<and> (\<forall>k. unat (v_lamports (acct t' k)) + (if k = f then unat l else 0)
         = unat (v_lamports (acct t k)) + (if k = g then unat l else 0))"

lemma sub_add_moved:
  assumes "checked_sub_lamports S i l t = Inr u" and "checked_add_lamports S j l u = Inr t'"
    and "tx_index S t i = Inr f" and "tx_index S t j = Inr g"
  shows "moved t t' f g l"
proof -
  have sub: "l \<le> v_lamports (acct t f)" "acct u = (acct t)(f := (acct t f)\<lparr>v_lamports := v_lamports (acct t f) - l\<rparr>)"
    and ix: "tx_index S u j = Inr g"
    using sub_facts [OF assms(1,3)] assms(4) by auto
  have add: "unat (v_lamports (acct u g)) + unat l < 2 ^ 64"
    "acct t' = (acct u)(g := (acct u g)\<lparr>v_lamports := v_lamports (acct u g) + l\<rparr>)"
    using add_facts [OF assms(2) ix] by auto
  have "unat (v_lamports (acct u g) + l) = unat (v_lamports (acct u g)) + unat l"
    using add(1) by (intro unat_add_nowrap) simp
  moreover have "unat (v_lamports (acct t f) - l) + unat l = unat (v_lamports (acct t f))"
    using sub(1) by (simp add: unat_sub_nowrap word_le_nat_alt)
  ultimately show ?thesis
    using index_lt [OF assms(3)] index_lt [OF assms(4)] sub add(2) by (auto simp: moved_def)
qed

lemma transfer_verified_moved:
  assumes "transfer_verified S i j l t = Inr t'"
  shows "\<exists>f g. tx_index S t i = Inr f \<and> tx_index S t j = Inr g \<and> v_data (acct t f) = [] \<and> moved t t' f g l"
proof -
  obtain u where b: "borrow S t i = Inr ()" and d: "get_data S t i = []"
    and u: "checked_sub_lamports S i l t = Inr u" and b': "borrow S u j = Inr ()"
    and v: "checked_add_lamports S j l u = Inr t'"
    using assms by (auto simp: transfer_verified_def rbind_Inr_iff split: if_splits)
  obtain f where f: "tx_index S t i = Inr f" using borrow_index [OF b] by blast
  obtain g where "tx_index S u j = Inr g" using borrow_index [OF b'] by blast
  then have g: "tx_index S t j = Inr g" using sub_facts [OF u f] by simp
  then show ?thesis
    using f sub_add_moved [OF u v f g] d index_facts [OF f] by auto
qed

definition authorised :: "'t \<Rightarrow> nat \<Rightarrow> bool" where
  "authorised t f \<longleftrightarrow>
     tx_index S t 0 = Inr f
   \<and> (signer_at S t 0 = Inr True
    \<or> (signer_at S t 1 = Inr True
        \<and> (\<exists>base seed owner key. instruction_key S t 1 = Inr base \<and> create_with_seed S base seed owner = Inr key
             \<and> instruction_key S t 0 = Inr key))
    \<or> (\<exists>signers v. get_signers S t = Inr signers \<and> get_versions S t 0 = Inr v
        \<and> (case state_of S v of Initialized d \<Rightarrow> authority d \<in> signers | Uninitialized \<Rightarrow> get_key S t 0 \<in> signers)))"

definition effect :: "'t \<Rightarrow> 't \<Rightarrow> bool" where
  "effect t t' \<longleftrightarrow> keeps_balances t t' \<or> (\<exists>f g l. authorised t f \<and> moved t t' f g l)"

lemma keeps_effect: "keeps_balances t t' \<Longrightarrow> effect t t'"
  by (simp add: effect_def)

lemma transfer_effect:
  assumes "transfer S 0 j l t = Inr t'" shows "effect t t'"
proof (cases "\<not> feature_active S System_transfer_zero_check \<and> l = 0")
  case True
  then show ?thesis using assms by (simp add: transfer_def keeps_refl effect_def)
next
  case False
  then have s: "signer_at S t 0 = Inr True" and v: "transfer_verified S 0 j l t = Inr t'"
    using assms by (auto simp: transfer_def rbind_Inr_iff split: if_splits)
  then show ?thesis
    using transfer_verified_moved [OF v] by (auto simp: effect_def authorised_def)
qed

lemma transfer_with_seed_effect:
  assumes "transfer_with_seed S 0 1 seed owner j l t = Inr t'" shows "effect t t'"
proof (cases "\<not> feature_active S System_transfer_zero_check \<and> l = 0")
  case True
  then show ?thesis using assms by (simp add: transfer_with_seed_def keeps_refl effect_def)
next
  case False
  then obtain base key where s: "signer_at S t 1 = Inr True" "instruction_key S t 1 = Inr base"
    "create_with_seed S base seed owner = Inr key" "instruction_key S t 0 = Inr key"
    and v: "transfer_verified S 0 j l t = Inr t'"
    using assms by (auto simp: transfer_with_seed_def rbind_Inr_iff split: if_splits)
  then show ?thesis
    using transfer_verified_moved [OF v] unfolding effect_def authorised_def by blast
qed

lemma create_account_effect:
  assumes "create_account S 0 1 a l m p sg t = Inr t'" shows "effect t t'"
proof -
  obtain u where b: "borrow S t 1 = Inr ()" and u: "allocate_and_assign S 1 a m p sg t = Inr u"
    and v: "transfer S 0 1 l u = Inr t'"
    using assms by (auto simp: create_account_def rbind_Inr_iff split: if_splits)
  obtain k where k: "tx_index S t 1 = Inr k" using borrow_index [OF b] by blast
  have ku: "keeps_balances t u" and sig: "signer_at S u = signer_at S t"
    using allocate_and_assign_keeps [OF k u] by auto
  show ?thesis
  proof (cases "\<not> feature_active S System_transfer_zero_check \<and> l = 0")
    case True
    then show ?thesis using v ku by (simp add: transfer_def effect_def)
  next
    case False
    then have s: "signer_at S u 0 = Inr True" and w: "transfer_verified S 0 1 l u = Inr t'"
      using v by (auto simp: transfer_def rbind_Inr_iff split: if_splits)
    obtain f g where "tx_index S u 0 = Inr f" "moved u t' f g l"
      using transfer_verified_moved [OF w] by blast
    then have "authorised t f" "moved t t' f g l"
      using s sig ku by (simp_all add: authorised_def moved_def keeps_balances_def)
    then show ?thesis by (auto simp: effect_def)
  qed
qed

lemma nonce_keeps:
  assumes "borrow S t i = Inr u"
  shows "advance_nonce_account S i sg t = Inr t' \<Longrightarrow> keeps_balances t t'"
    and "initialize_nonce_account S i p m t = Inr t' \<Longrightarrow> keeps_balances t t'"
    and "authorize_nonce_account S i p sg t = Inr t' \<Longrightarrow> keeps_balances t t'"
    and "upgrade_nonce_account S i t = Inr t' \<Longrightarrow> keeps_balances t t'"
  using borrow_index [OF assms] set_keeps(3) nonce_sets by metis+

text \<open>A withdrawal, split where the state has been updated and the signer is known.\<close>

lemma withdraw_split:
  assumes "withdraw_nonce_account S i l j m sg t = Inr t'"
  obtains v u w where "borrow S t i = Inr ()" and "get_versions S t i = Inr v"
    and "u = t \<and> (case state_of S v of
            Uninitialized \<Rightarrow> l \<le> get_lamports S t i
          | Initialized d \<Rightarrow> l \<noteq> get_lamports S t i
              \<and> unat l + unat (m (length (get_data S t i))) \<le> unat (get_lamports S t i))
      \<or> (\<exists>d. state_of S v = Initialized d) \<and> l = get_lamports S t i
          \<and> set_versions S i (new_versions S Uninitialized) t = Inr u"
    and "case state_of S v of Initialized d \<Rightarrow> authority d \<in> sg | Uninitialized \<Rightarrow> get_key S t i \<in> sg"
    and "checked_sub_lamports S i l u = Inr w" and "borrow S w j = Inr ()"
    and "checked_add_lamports S j l w = Inr t'"
proof -
  obtain v where b: "borrow S t i = Inr ()" and v: "get_versions S t i = Inr v"
    using assms by (auto simp: withdraw_nonce_account_def rbind_Inr_iff split: if_splits)
  let ?amount = "checked_add l (m (length (get_data S t i)))"
  let ?first = "case state_of S v of
         Uninitialized \<Rightarrow> if l > get_lamports S t i then Inl InsufficientFunds else Inr (get_key S t i, t)
       | Initialized d \<Rightarrow>
           rbind (if l = get_lamports S t i then
                    (if durable_nonce d = blockhash_nonce S then Inl (nonce_failure S NotExpired)
                     else set_versions S i (new_versions S Uninitialized) t)
                  else rbind (ok_or ?amount InsufficientFunds) (\<lambda>amount.
                    if amount > get_lamports S t i then Inl InsufficientFunds else Inr t))
             (\<lambda>t. Inr (authority d, t))"
  obtain signer u w where first: "?first = Inr (signer, u)" and s: "signer \<in> sg"
    and tail: "checked_sub_lamports S i l u = Inr w" "borrow S w j = Inr ()" "checked_add_lamports S j l w = Inr t'"
    using assms b v by (auto simp: withdraw_nonce_account_def rbind_Inr_iff split: if_splits)
  show thesis
  proof (cases "state_of S v")
    case Uninitialized
    then have "l \<le> get_lamports S t i" "signer = get_key S t i" "u = t"
      using first by (auto split: if_splits)
    then show thesis using that [OF b v _ _ tail] s Uninitialized by simp
  next
    case (Initialized d)
    show thesis
    proof (cases "l = get_lamports S t i")
      case True
      then have "signer = authority d" "set_versions S i (new_versions S Uninitialized) t = Inr u"
        using first Initialized by (auto simp: rbind_Inr_iff split: if_splits)
      then show thesis using that [OF b v _ _ tail] s Initialized True by simp
    next
      case False
      then obtain amount where am: "?amount = Some amount" "amount \<le> get_lamports S t i"
        "signer = authority d" "u = t"
        using first Initialized by (auto simp: rbind_Inr_iff ok_or_Inr_iff split: if_splits)
      then have "unat l + unat (m (length (get_data S t i))) \<le> unat (get_lamports S t i)"
        using checked_add_unat [OF am(1)] by (simp add: word_le_nat_alt)
      then show thesis using that [OF b v _ _ tail] s Initialized False am by simp
    qed
  qed
qed

lemma withdraw_effect:
  assumes "withdraw_nonce_account S 0 l j m sg t = Inr t'" and "get_signers S t = Inr sg"
  shows "effect t t'"
proof -
  obtain v u w where b: "borrow S t 0 = Inr ()" and v: "get_versions S t 0 = Inr v"
    and u: "u = t \<or> (\<exists>s. set_versions S 0 s t = Inr u)"
    and sg: "case state_of S v of Initialized d \<Rightarrow> authority d \<in> sg | Uninitialized \<Rightarrow> get_key S t 0 \<in> sg"
    and sub: "checked_sub_lamports S 0 l u = Inr w" and b': "borrow S w j = Inr ()"
    and add: "checked_add_lamports S j l w = Inr t'"
    using assms(1) by (rule withdraw_split) blast+
  obtain f where f: "tx_index S t 0 = Inr f" using borrow_index [OF b] by blast
  have keep: "keeps_balances t u"
    using u set_keeps(3) [OF f] keeps_refl by blast
  then have fu: "tx_index S u 0 = Inr f" using f by (simp add: keeps_balances_def)
  obtain g where "tx_index S w j = Inr g" using borrow_index [OF b'] by blast
  then have "tx_index S u j = Inr g" using sub_facts [OF sub fu] by simp
  then have "moved t t' f g l"
    using sub_add_moved [OF sub add fu] keep by (simp add: moved_def keeps_balances_def)
  moreover have "authorised t f"
    using f v sg assms(2) unfolding authorised_def by blast
  ultimately show ?thesis unfolding effect_def by blast
qed

lemma process_effect:
  assumes "process_system_instruction S t = Inr t'" shows "effect t t'"
proof -
  obtain ins sg where ins: "instruction_of S t = Inr ins" and sg: "get_signers S t = Inr sg"
    using assms by (auto simp: process_system_instruction_def rbind_Inr_iff)
  note step = assms [unfolded process_system_instruction_def ins sg rbind_simps]
  have b: "\<exists>k. tx_index S t 0 = Inr k" if "borrow S t 0 = Inr ()"
    using borrow_index that by blast
  show ?thesis
  proof (cases ins)
    case (CreateAccount l m p)
    then show ?thesis using step by (auto simp: rbind_Inr_iff intro: create_account_effect)
  next
    case (CreateAccountWithSeed base seed l m p)
    then show ?thesis using step by (auto simp: rbind_Inr_iff intro: create_account_effect)
  next
    case (Assign p)
    then show ?thesis using step b assign_keeps by (fastforce simp: rbind_Inr_iff intro: keeps_effect)
  next
    case (Transfer l)
    then show ?thesis using step by (auto simp: rbind_Inr_iff intro: transfer_effect)
  next
    case (TransferWithSeed l seed owner)
    then show ?thesis using step by (auto simp: rbind_Inr_iff intro: transfer_with_seed_effect)
  next
    case AdvanceNonceAccount
    then show ?thesis using step by (auto simp: rbind_Inr_iff intro: keeps_effect nonce_keeps)
  next
    case (WithdrawNonceAccount l)
    then show ?thesis using step sg by (auto simp: rbind_Inr_iff intro: withdraw_effect)
  next
    case (InitializeNonceAccount p)
    then show ?thesis using step by (auto simp: rbind_Inr_iff intro: keeps_effect nonce_keeps)
  next
    case (AuthorizeNonceAccount p)
    then show ?thesis using step by (auto simp: rbind_Inr_iff intro: keeps_effect nonce_keeps)
  next
    case UpgradeNonceAccount
    then show ?thesis using step by (auto simp: rbind_Inr_iff intro: keeps_effect nonce_keeps)
  next
    case (Allocate m)
    then show ?thesis using step b allocate_keeps by (fastforce simp: rbind_Inr_iff intro: keeps_effect)
  next
    case (AllocateWithSeed base seed m p)
    then show ?thesis using step b allocate_and_assign_keeps by (fastforce simp: rbind_Inr_iff intro: keeps_effect)
  next
    case (AssignWithSeed base seed p)
    then show ?thesis using step b assign_keeps by (fastforce simp: rbind_Inr_iff intro: keeps_effect)
  qed
qed

lemma moved_total:
  assumes "moved t t' f g l"
  shows "(\<Sum>k < n. unat (v_lamports (acct t' k))) = (\<Sum>k < n. unat (v_lamports (acct t k)))"
proof -
  let ?b = "\<lambda>t k. unat (v_lamports (acct t k))"
  have "(\<Sum>k < n. ?b t' k + (if k = f then unat l else 0)) = (\<Sum>k < n. ?b t k + (if k = g then unat l else 0))"
    using assms by (intro sum.cong) (simp_all add: moved_def)
  moreover have "f < n" "g < n" using assms by (simp_all add: moved_def)
  ultimately show ?thesis by (simp add: sum.distrib)
qed

end

text \<open>
  C8. The System program neither creates nor destroys lamports: whichever instruction
  succeeds, over whatever accounts, the sum of the balances of the transaction is unchanged.
\<close>

theorem system_conserves_lamports:
  assumes "transaction_sdk S acct n" and "process_system_instruction S t = Inr t'"
  shows "(\<Sum>k < n. unat (v_lamports (acct t' k))) = (\<Sum>k < n. unat (v_lamports (acct t k)))"
  using transaction_sdk.process_effect [OF assms] transaction_sdk.moved_total [OF assms(1)]
  by (auto simp: transaction_sdk.effect_def [OF assms(1)] transaction_sdk.keeps_balances_def [OF assms(1)])

text \<open>
  C9. An account only loses lamports when it may: it is the first account of the
  instruction, and it signed, or the base account signed and its address derives from that
  key, or it holds a nonce whose authority signed.
\<close>

theorem system_debit_authorised:
  assumes "transaction_sdk S acct n" and "process_system_instruction S t = Inr t'"
    and "v_lamports (acct t' f) < v_lamports (acct t f)"
  shows "tx_index S t 0 = Inr f
    \<and> (signer_at S t 0 = Inr True
     \<or> (signer_at S t 1 = Inr True
         \<and> (\<exists>base seed owner key. instruction_key S t 1 = Inr base \<and> create_with_seed S base seed owner = Inr key
              \<and> instruction_key S t 0 = Inr key))
     \<or> (\<exists>signers v. get_signers S t = Inr signers \<and> get_versions S t 0 = Inr v
         \<and> (case state_of S v of Initialized d \<Rightarrow> authority d \<in> signers | Uninitialized \<Rightarrow> get_key S t 0 \<in> signers)))"
proof -
  have "\<not> transaction_sdk.keeps_balances S acct t t'"
    using assms(3) by (auto simp: transaction_sdk.keeps_balances_def [OF assms(1)])
  then obtain h g l where a: "transaction_sdk.authorised S t h" and m: "transaction_sdk.moved acct n t t' h g l"
    using transaction_sdk.process_effect [OF assms(1,2)] by (auto simp: transaction_sdk.effect_def [OF assms(1)])
  have "unat (v_lamports (acct t' f)) < unat (v_lamports (acct t f))"
    using assms(3) by (simp add: word_less_nat_alt)
  then have "h = f"
    using m by (auto simp: transaction_sdk.moved_def [OF assms(1)] split: if_splits dest!: spec [of _ f])
  then show ?thesis
    using a unfolding transaction_sdk.authorised_def [OF assms(1)] by blast
qed

section \<open>Who may reassign an account\<close>

context transaction_sdk
begin

definition holder_signed :: "'t \<Rightarrow> nat \<Rightarrow> bool" where
  "holder_signed t k \<longleftrightarrow>
     (\<exists>key signers. key_at S t k = Inr key \<and> get_signers S t = Inr signers
        \<and> (key \<in> signers \<or> (\<exists>base seed owner. base \<in> signers \<and> create_with_seed S base seed owner = Inr key)))"

definition reassigns :: "'t \<Rightarrow> 't \<Rightarrow> bool" where
  "reassigns t t' \<longleftrightarrow> (\<forall>k. v_owner (acct t' k) = v_owner (acct t k) \<or> holder_signed t k)"

definition keeps_owners :: "'t \<Rightarrow> 't \<Rightarrow> bool" where
  "keeps_owners t t' \<longleftrightarrow> (\<forall>k. v_owner (acct t' k) = v_owner (acct t k))"

lemma keeps_reassigns: "keeps_owners t t' \<Longrightarrow> reassigns t t'"
  by (simp add: keeps_owners_def reassigns_def)

lemma versions_keep_owners: "borrow S t i = Inr u \<Longrightarrow> set_versions S i v t = Inr t' \<Longrightarrow> keeps_owners t t'"
  using borrow_index by (auto simp: keeps_owners_def dest!: versions_facts borrow_index)

lemma sub_add_keep_owners:
  assumes "checked_sub_lamports S i l t = Inr u" and "checked_add_lamports S j l u = Inr t'"
    and "tx_index S t i = Inr f" and "tx_index S u j = Inr g"
  shows "keeps_owners t t'"
  using sub_facts [OF assms(1,3)] add_facts [OF assms(2,4)] by (auto simp: keeps_owners_def)

lemma transfer_verified_keeps_owners:
  assumes "transfer_verified S i j l t = Inr t'" shows "keeps_owners t t'"
proof -
  obtain u where b: "borrow S t i = Inr ()" and u: "checked_sub_lamports S i l t = Inr u"
    and b': "borrow S u j = Inr ()" and v: "checked_add_lamports S j l u = Inr t'"
    using assms by (auto simp: transfer_verified_def rbind_Inr_iff split: if_splits)
  then show ?thesis using borrow_index [OF b] borrow_index [OF b'] sub_add_keep_owners by blast
qed

lemma transfer_keeps_owners: "transfer S i j l t = Inr t' \<Longrightarrow> keeps_owners t t'"
  by (auto simp: transfer_def rbind_Inr_iff transfer_verified_keeps_owners split: if_splits)
     (simp add: keeps_owners_def)

lemma transfer_with_seed_keeps_owners: "transfer_with_seed S i b seed owner j l t = Inr t' \<Longrightarrow> keeps_owners t t'"
  by (auto simp: transfer_with_seed_def rbind_Inr_iff transfer_verified_keeps_owners split: if_splits)
     (simp add: keeps_owners_def)

lemma withdraw_keeps_owners:
  assumes "withdraw_nonce_account S i l j m sg t = Inr t'" shows "keeps_owners t t'"
proof -
  obtain u w where b: "borrow S t i = Inr ()" and u: "u = t \<or> (\<exists>s. set_versions S i s t = Inr u)"
    and sub: "checked_sub_lamports S i l u = Inr w" and b': "borrow S w j = Inr ()"
    and add: "checked_add_lamports S j l w = Inr t'"
    using assms by (rule withdraw_split) blast+
  obtain f g where f: "tx_index S t i = Inr f" and g: "tx_index S w j = Inr g"
    using borrow_index b b' by blast
  have "keeps_owners t u" "tx_index S u i = Inr f"
    using u f versions_facts [OF _ f] versions_keep_owners [OF b] by (auto simp: keeps_owners_def)
  then show ?thesis
    using sub_add_keep_owners [OF sub add _ g] by (auto simp: keeps_owners_def)
qed

lemma assign_reassigns:
  assumes "assign S i a p sg t = Inr t'" and "tx_index S t i = Inr k"
  shows "(\<forall>j. j \<noteq> k \<longrightarrow> v_owner (acct t' j) = v_owner (acct t j))
    \<and> (v_owner (acct t' k) = v_owner (acct t k) \<or> address_is_signer a sg)"
  using assms owner_facts [OF _ assms(2)] by (auto simp: assign_def split: if_splits)

lemma allocate_keeps_owners:
  "allocate S i a m sg t = Inr t' \<Longrightarrow> tx_index S t i = Inr k \<Longrightarrow> keeps_owners t t'"
  using length_facts by (fastforce simp: allocate_def keeps_owners_def split: if_splits)

lemma allocate_and_assign_reassigns:
  assumes "allocate_and_assign S i a m p sg t = Inr t'" and "tx_index S t i = Inr k"
  shows "(\<forall>j. j \<noteq> k \<longrightarrow> v_owner (acct t' j) = v_owner (acct t j))
    \<and> (v_owner (acct t' k) = v_owner (acct t k) \<or> address_is_signer a sg)"
proof -
  obtain u where u: "allocate S i a m sg t = Inr u" and v: "assign S i a p sg u = Inr t'"
    using assms(1) by (auto simp: allocate_and_assign_def rbind_Inr_iff)
  have "tx_index S u i = Inr k"
    using allocate_keeps [OF assms(2) u] assms(2) by (simp add: keeps_balances_def)
  then show ?thesis
    using assign_reassigns [OF v] allocate_keeps_owners [OF u assms(2)] by (simp add: keeps_owners_def)
qed

lemma address_holder:
  assumes "instruction_key S t i = Inr key" and "address_create S key seed = Inr a"
    and "tx_index S t i = Inr k" and "get_signers S t = Inr sg" and "address_is_signer a sg"
  shows "holder_signed t k"
proof -
  have "key_at S t k = Inr key" using assms(1,3) by (simp add: instruction_key_def)
  then show ?thesis
    using assms(2,4,5)
    by (fastforce simp: holder_signed_def address_create_def address_is_signer_def rbind_Inr_iff
        split: option.splits if_splits)
qed

lemma create_account_reassigns:
  assumes "create_account S f i a l m p sg t = Inr t'"
  shows "\<exists>k. tx_index S t i = Inr k \<and> (\<forall>j. j \<noteq> k \<longrightarrow> v_owner (acct t' j) = v_owner (acct t j))
    \<and> (v_owner (acct t' k) = v_owner (acct t k) \<or> address_is_signer a sg)"
proof -
  obtain u where b: "borrow S t i = Inr ()" and u: "allocate_and_assign S i a m p sg t = Inr u"
    and v: "transfer S f i l u = Inr t'"
    using assms by (auto simp: create_account_def rbind_Inr_iff split: if_splits)
  obtain k where k: "tx_index S t i = Inr k" using borrow_index [OF b] by blast
  then show ?thesis
    using allocate_and_assign_reassigns [OF u k] transfer_keeps_owners [OF v] by (auto simp: keeps_owners_def)
qed

lemma holder_reassigns:
  assumes "(\<forall>j. j \<noteq> k \<longrightarrow> v_owner (acct t' j) = v_owner (acct t j))
      \<and> (v_owner (acct t' k) = v_owner (acct t k) \<or> address_is_signer a sg)"
    and "instruction_key S t i = Inr key" and "address_create S key seed = Inr a"
    and "tx_index S t i = Inr k" and "get_signers S t = Inr sg"
  shows "reassigns t t'"
  using assms(1) address_holder [OF assms(2-5)] by (metis reassigns_def)

lemma holder_steps:
  assumes "instruction_key S t i = Inr key" and "address_create S key seed = Inr a"
    and "get_signers S t = Inr sg"
  shows "borrow S t i = Inr u \<Longrightarrow> assign S i a p sg t = Inr t' \<Longrightarrow> reassigns t t'"
    and "borrow S t i = Inr u \<Longrightarrow> allocate_and_assign S i a m p sg t = Inr t' \<Longrightarrow> reassigns t t'"
    and "create_account S f i a l m p sg t = Inr t' \<Longrightarrow> reassigns t t'"
proof -
  note finish = holder_reassigns [OF _ assms(1,2) _ assms(3)]
  show "borrow S t i = Inr u \<Longrightarrow> assign S i a p sg t = Inr t' \<Longrightarrow> reassigns t t'"
    using borrow_index assign_reassigns finish by meson
  show "borrow S t i = Inr u \<Longrightarrow> allocate_and_assign S i a m p sg t = Inr t' \<Longrightarrow> reassigns t t'"
    using borrow_index allocate_and_assign_reassigns finish by meson
  show "create_account S f i a l m p sg t = Inr t' \<Longrightarrow> reassigns t t'"
    using create_account_reassigns finish by meson
qed

lemma process_reassigns:
  assumes "process_system_instruction S t = Inr t'" shows "reassigns t t'"
proof -
  obtain ins sg where ins: "instruction_of S t = Inr ins" and sg: "get_signers S t = Inr sg"
    using assms by (auto simp: process_system_instruction_def rbind_Inr_iff)
  note step = assms [unfolded process_system_instruction_def ins sg rbind_simps]
  have nonce: "borrow S t i = Inr u \<Longrightarrow> set_versions S i v t = Inr t' \<Longrightarrow> reassigns t t'" for i u v
    using versions_keep_owners keeps_reassigns by blast
  show ?thesis
  proof (cases ins)
    case (CreateAccount l m p)
    then show ?thesis
      using step by (auto simp: rbind_Inr_iff intro: holder_steps [OF _ _ sg])
  next
    case (CreateAccountWithSeed base seed l m p)
    then show ?thesis
      using step by (auto simp: rbind_Inr_iff intro: holder_steps [OF _ _ sg])
  next
    case (Assign p)
    then show ?thesis
      using step by (auto simp: rbind_Inr_iff intro: holder_steps [OF _ _ sg])
  next
    case (Transfer l)
    then show ?thesis using step by (auto simp: rbind_Inr_iff intro: keeps_reassigns transfer_keeps_owners)
  next
    case (TransferWithSeed l seed owner)
    then show ?thesis
      using step by (auto simp: rbind_Inr_iff intro: keeps_reassigns transfer_with_seed_keeps_owners)
  next
    case AdvanceNonceAccount
    then show ?thesis using step by (auto simp: rbind_Inr_iff dest!: nonce_sets intro: nonce)
  next
    case (WithdrawNonceAccount l)
    then show ?thesis using step by (auto simp: rbind_Inr_iff intro: keeps_reassigns withdraw_keeps_owners)
  next
    case (InitializeNonceAccount p)
    then show ?thesis using step by (auto simp: rbind_Inr_iff dest!: nonce_sets intro: nonce)
  next
    case (AuthorizeNonceAccount p)
    then show ?thesis using step by (auto simp: rbind_Inr_iff dest!: nonce_sets intro: nonce)
  next
    case UpgradeNonceAccount
    then show ?thesis using step by (auto simp: rbind_Inr_iff dest!: nonce_sets intro: nonce)
  next
    case (Allocate m)
    then show ?thesis
      using step by (auto simp: rbind_Inr_iff intro: keeps_reassigns dest!: borrow_index allocate_keeps_owners)
  next
    case (AllocateWithSeed base seed m p)
    then show ?thesis
      using step by (auto simp: rbind_Inr_iff intro: holder_steps [OF _ _ sg])
  next
    case (AssignWithSeed base seed p)
    then show ?thesis
      using step by (auto simp: rbind_Inr_iff intro: holder_steps [OF _ _ sg])
  qed
qed

end

text \<open>
  The owning program of an account only changes with the consent of the account: its key
  signed the instruction, or a base key signed from which its address derives.
\<close>

theorem system_reassign_authorised:
  assumes "transaction_sdk S acct n" and "process_system_instruction S t = Inr t'"
    and "v_owner (acct t' k) \<noteq> v_owner (acct t k)"
  shows "\<exists>key signers. key_at S t k = Inr key \<and> get_signers S t = Inr signers
    \<and> (key \<in> signers \<or> (\<exists>base seed owner. base \<in> signers \<and> create_with_seed S base seed owner = Inr key))"
  using transaction_sdk.process_reassigns [OF assms(1,2)] assms(3)
  unfolding transaction_sdk.reassigns_def [OF assms(1)] transaction_sdk.holder_signed_def [OF assms(1)]
  by blast

section \<open>The nonce state machine\<close>

text \<open>
  C10. A nonce advances once per blockhash: after a successful advance its value is the
  current blockhash's and its authority is the same, a second advance with any signers fails,
  and so does closing the account by withdrawing its whole balance.
\<close>

theorem nonce_advances_once:
  assumes "transaction_sdk S acct n" and "borrow S t i = Inr ()"
    and "advance_nonce_account S i signers t = Inr t'"
  shows "(\<exists>v d v' d'. get_versions S t i = Inr v \<and> state_of S v = Initialized d
        \<and> get_versions S t' i = Inr v' \<and> state_of S v' = Initialized d'
        \<and> authority d \<in> signers \<and> authority d' = authority d
        \<and> durable_nonce d \<noteq> blockhash_nonce S \<and> durable_nonce d' = blockhash_nonce S)
    \<and> (\<forall>signers'. \<exists>e. advance_nonce_account S i signers' t' = Inl e)
    \<and> (\<forall>j rent signers'. \<exists>e. withdraw_nonce_account S i (get_lamports S t' i) j rent signers' t' = Inl e)"
proof -
  obtain k where k: "tx_index S t i = Inr k"
    using transaction_sdk.borrow_index [OF assms(1,2)] by blast
  obtain v d where v: "get_versions S t i = Inr v" "state_of S v = Initialized d" "authority d \<in> signers"
    "durable_nonce d \<noteq> blockhash_nonce S"
    and set: "set_versions S i (new_versions S (Initialized \<lparr>authority = authority d,
        durable_nonce = blockhash_nonce S, fee_per_signature = lamports_per_signature S\<rparr>)) t = Inr t'"
    using assms(3) by (auto simp: advance_nonce_account_def rbind_def
        split: if_splits sum.split_asm nonce_state.split_asm)
  note facts = transaction_sdk.versions_facts [OF assms(1) set k]
  have w: "is_writable_at S t' i"
    using assms(3) facts by (auto simp: advance_nonce_account_def split: if_splits)
  show ?thesis
    using v facts w assms(2)
    by (auto simp: advance_nonce_account_def withdraw_nonce_account_def transaction_sdk.new_state [OF assms(1)])
qed

text \<open>
  A withdrawal to another account needs the nonce's authority and either leaves at least
  the rent-exempt minimum, or takes everything and leaves the nonce uninitialised.
\<close>

theorem nonce_withdrawal_leaves_rent:
  assumes "transaction_sdk S acct n" and "tx_index S t i = Inr f" and "tx_index S t j = Inr g" and "f \<noteq> g"
    and "get_versions S t i = Inr v" and "state_of S v = Initialized d"
    and "withdraw_nonce_account S i l j rent signers t = Inr t'"
  shows "authority d \<in> signers
    \<and> unat (v_lamports (acct t' f)) + unat l = unat (v_lamports (acct t f))
    \<and> unat (v_lamports (acct t' g)) = unat (v_lamports (acct t g)) + unat l
    \<and> (rent (length (v_data (acct t f))) \<le> v_lamports (acct t' f)
      \<or> v_lamports (acct t' f) = 0
          \<and> (\<exists>u. set_versions S i (new_versions S Uninitialized) t = Inr u \<and> get_versions S u i = Inr (new_versions S Uninitialized)))"
proof -
  obtain v' u w where v': "get_versions S t i = Inr v'"
    and u: "u = t \<and> (case state_of S v' of
            Uninitialized \<Rightarrow> l \<le> get_lamports S t i
          | Initialized d \<Rightarrow> l \<noteq> get_lamports S t i
              \<and> unat l + unat (rent (length (get_data S t i))) \<le> unat (get_lamports S t i))
      \<or> (\<exists>d. state_of S v' = Initialized d) \<and> l = get_lamports S t i
          \<and> set_versions S i (new_versions S Uninitialized) t = Inr u"
    and a: "case state_of S v' of Initialized d \<Rightarrow> authority d \<in> signers | Uninitialized \<Rightarrow> get_key S t i \<in> signers"
    and sub: "checked_sub_lamports S i l u = Inr w" and add: "checked_add_lamports S j l w = Inr t'"
    using assms(7) by (rule transaction_sdk.withdraw_split [OF assms(1)])
  note set = transaction_sdk.set_keeps(3) [OF assms(1,2)]
  have keep: "transaction_sdk.keeps_balances S acct t u"
    using u set transaction_sdk.keeps_refl [OF assms(1)] by blast
  then have ui: "tx_index S u i = Inr f" "tx_index S u j = Inr g"
    using assms(2,3) by (simp_all add: transaction_sdk.keeps_balances_def [OF assms(1)])
  have "transaction_sdk.moved acct n u t' f g l"
    by (rule transaction_sdk.sub_add_moved [OF assms(1) sub add ui])
  then have m: "unat (v_lamports (acct t' k)) + (if k = f then unat l else 0)
      = unat (v_lamports (acct t k)) + (if k = g then unat l else 0)" for k
    using keep by (simp add: transaction_sdk.moved_def [OF assms(1)] transaction_sdk.keeps_balances_def [OF assms(1)])
  note facts = transaction_sdk.index_facts [OF assms(1,2)]
  have "rent (length (v_data (acct t f))) \<le> v_lamports (acct t' f)
      \<or> l = v_lamports (acct t f) \<and> set_versions S i (new_versions S Uninitialized) t = Inr u"
    using u m [of f] facts assms(4,5,6) v' by (auto simp: word_le_nat_alt)
  moreover have "l = v_lamports (acct t f) \<Longrightarrow> v_lamports (acct t' f) = 0"
    using m [of f] assms(4) by (simp add: word_unat_eq_iff)
  ultimately show ?thesis
    using a v' assms(4,5,6) m [of f] m [of g] transaction_sdk.versions_facts [OF assms(1) _ assms(2)] by auto
qed

section \<open>A context\<close>

text \<open>
  A concrete transaction context: the accounts and their nonce states as functions of the
  index in the transaction, with one flag per account for its signature; every account may be
  written.
\<close>

record ctx =
  ctx_accounts :: "nat \<Rightarrow> account_view"
  ctx_nonces :: "nat \<Rightarrow> nonce_state"

definition resize :: "nat \<Rightarrow> bytes \<Rightarrow> bytes" where
  "resize m d = take m d @ replicate (m - length d) 0"

definition ctx_at :: "nat list \<Rightarrow> nat \<Rightarrow> 'a \<Rightarrow> instruction_error + 'a" where
  "ctx_at ixs i x = (if i < length ixs then Inr x else Inl (SdkError 0))"

definition ctx_sdk ::
  "system_instruction \<Rightarrow> nat list \<Rightarrow> (nat \<Rightarrow> pubkey) \<Rightarrow> (nat \<Rightarrow> bool) \<Rightarrow> (ctx, nonce_state) sdk" where
  "ctx_sdk ins ixs keys signs =
     (let view = (\<lambda>t i. ctx_accounts t (ixs ! i));
          update = (\<lambda>i g t. t\<lparr>ctx_accounts := (ctx_accounts t)(ixs ! i := g (ctx_accounts t (ixs ! i)))\<rparr>)
      in \<lparr>instruction_of = \<lambda>_. Inr ins,
          check_accounts = \<lambda>_ m. if m \<le> length ixs then Inr () else Inl (SdkError 1),
          tx_index = \<lambda>_ i. ctx_at ixs i (ixs ! i),
          key_at = \<lambda>_ k. Inr (keys k),
          signer_at = \<lambda>_ i. ctx_at ixs i (signs (ixs ! i)),
          get_signers = \<lambda>_. Inr (keys ` set (filter signs ixs)),
          borrow = \<lambda>_ i. ctx_at ixs i (),
          get_key = \<lambda>_ i. keys (ixs ! i),
          get_lamports = \<lambda>t i. v_lamports (view t i),
          get_data = \<lambda>t i. v_data (view t i),
          get_owner = \<lambda>t i. v_owner (view t i),
          is_writable_at = \<lambda>_ _. True,
          checked_sub_lamports = \<lambda>i l t. rbind (ctx_at ixs i ()) (\<lambda>_.
            case checked_sub (v_lamports (view t i)) l of None \<Rightarrow> Inl (SdkError 2)
            | Some b \<Rightarrow> Inr (update i (v_lamports_update (\<lambda>_. b)) t)),
          checked_add_lamports = \<lambda>i l t. rbind (ctx_at ixs i ()) (\<lambda>_.
            case checked_add (v_lamports (view t i)) l of None \<Rightarrow> Inl (SdkError 2)
            | Some b \<Rightarrow> Inr (update i (v_lamports_update (\<lambda>_. b)) t)),
          set_data_length = \<lambda>i m t. ctx_at ixs i (update i (\<lambda>a. a\<lparr>v_data := resize (unat m) (v_data a)\<rparr>) t),
          set_owner = \<lambda>i p t. ctx_at ixs i (update i (v_owner_update (\<lambda>_. p)) t),
          get_versions = \<lambda>t i. ctx_at ixs i (ctx_nonces t (ixs ! i)),
          set_versions = \<lambda>i v t. ctx_at ixs i (t\<lparr>ctx_nonces := (ctx_nonces t)(ixs ! i := v)\<rparr>),
          state_of = \<lambda>v. v,
          new_versions = \<lambda>s. s,
          upgrade_versions = \<lambda>_. None,
          authorize_versions = \<lambda>v sg p. (case v of Uninitialized \<Rightarrow> Inl AuthUninitialized
            | Initialized d \<Rightarrow> if authority d \<in> sg then Inr (Initialized (d\<lparr>authority := p\<rparr>))
                else Inl (AuthMissingSignature (authority d))),
          create_with_seed = \<lambda>base seed owner. Inr (base + of_nat (length seed) + owner),
          feature_active = \<lambda>_. True,
          blockhash_nonce = 9,
          lamports_per_signature = 0,
          recent_blockhashes = \<lambda>_ _. Inr [1],
          rent_sysvar = \<lambda>_ _. Inr (\<lambda>len. of_nat len + 2)\<rparr>)"

lemma length_resize [simp]: "length (resize m d) = m"
  by (simp add: resize_def)

lemma le_foldr_max: "k \<in> set ks \<Longrightarrow> k \<le> foldr max ks (0 :: nat)"
  by (induction ks) auto

lemma ctx_data_exists:
  "\<exists>d. length d = length (v_data (f k)) \<and> f = f(k := f k\<lparr>v_data := d\<rparr>)"
  "\<exists>d. length d = m \<and> f(k := a\<lparr>v_data := resize m x\<rparr>) = f(k := a\<lparr>v_data := d\<rparr>)"
  by (rule exI [of _ "v_data (f k)"] exI [of _ "resize m x"]; simp)+

lemma ctx_sdk_contract: "transaction_sdk (ctx_sdk ins ixs keys signs) ctx_accounts (Suc (foldr max ixs 0))"
  by unfold_locales
     (auto simp: ctx_sdk_def ctx_at_def Let_def rbind_def checked_sub_def checked_add_def less_Suc_eq_le le_foldr_max
        ctx_data_exists split: if_splits sum.splits option.splits)

interpretation ctx: transaction_sdk "ctx_sdk ins ixs keys signs" ctx_accounts "Suc (foldr max ixs 0)"
  for ins ixs keys signs
  by (rule ctx_sdk_contract)

definition sample_ctx :: ctx where
  "sample_ctx =
     \<lparr>ctx_accounts = (\<lambda>k. \<lparr>v_lamports = 100 + of_nat k, v_owner = 0, v_data = []\<rparr>),
      ctx_nonces = (\<lambda>_. Initialized \<lparr>authority = 5, durable_nonce = 1, fee_per_signature = 0\<rparr>)\<rparr>"

abbreviation sample_key :: "nat \<Rightarrow> pubkey" where "sample_key \<equiv> \<lambda>k. 5 + of_nat k"

abbreviation sample_sdk :: "system_instruction \<Rightarrow> (ctx, nonce_state) sdk" where
  "sample_sdk ins \<equiv> ctx_sdk ins [0, 1] sample_key (\<lambda>k. k = 0)"

lemmas ctx_defs = ctx_sdk_def ctx_at_def sample_ctx_def Let_def checked_sub_def checked_add_def
  process_system_instruction_def transfer_def transfer_verified_def create_account_def
  allocate_and_assign_def allocate_def assign_def address_create_def address_is_signer_def
  instruction_key_def advance_nonce_account_def withdraw_nonce_account_def resize_def
  system_program_id_def MAX_PERMITTED_DATA_LENGTH_def

lemma sample_transfer:
  "\<exists>t'. process_system_instruction (sample_sdk (Transfer 30)) sample_ctx = Inr t'
     \<and> v_lamports (ctx_accounts t' 0) = 70"
  by (simp add: ctx_defs)

theorem system_conserves_lamports_witness:
  "\<exists>t'. process_system_instruction (sample_sdk (Transfer 30)) sample_ctx = Inr t'
     \<and> (\<Sum>k < 2. unat (v_lamports (ctx_accounts t' k))) = 201"
proof -
  obtain t' where t': "process_system_instruction (sample_sdk (Transfer 30)) sample_ctx = Inr t'"
    using sample_transfer by blast
  have two: "Suc (foldr max [0, 1] 0) = (2 :: nat)" by simp
  have "(\<Sum>k < 2. unat (v_lamports (ctx_accounts sample_ctx k))) = 201"
    by (simp add: sample_ctx_def lessThan_nat_numeral)
  then show ?thesis
    using system_conserves_lamports [OF ctx_sdk_contract t', unfolded two] t' by metis
qed

theorem system_debit_authorised_witness: "tx_index (sample_sdk (Transfer 30)) sample_ctx 0 = Inr 0"
proof -
  obtain t' where t': "process_system_instruction (sample_sdk (Transfer 30)) sample_ctx = Inr t'"
    "v_lamports (ctx_accounts t' 0) < v_lamports (ctx_accounts sample_ctx 0)"
    using sample_transfer by (force simp: sample_ctx_def)
  show ?thesis by (rule conjunct1 [OF system_debit_authorised [OF ctx_sdk_contract t']])
qed

theorem system_reassign_authorised_witness:
  "\<exists>signers. get_signers (sample_sdk (Assign 7)) sample_ctx = Inr signers \<and> signers \<noteq> {}"
proof -
  obtain t' where t': "process_system_instruction (sample_sdk (Assign 7)) sample_ctx = Inr t'"
    "v_owner (ctx_accounts t' 0) \<noteq> v_owner (ctx_accounts sample_ctx 0)"
    by (simp add: ctx_defs)
  show ?thesis using system_reassign_authorised [OF ctx_sdk_contract t'] by auto
qed

theorem nonce_advances_once_witness:
  "\<exists>t' e. advance_nonce_account (sample_sdk AdvanceNonceAccount) 0 {5} sample_ctx = Inr t'
      \<and> advance_nonce_account (sample_sdk AdvanceNonceAccount) 0 {5} t' = Inl e"
proof -
  obtain t' where t': "advance_nonce_account (sample_sdk AdvanceNonceAccount) 0 {5} sample_ctx = Inr t'"
    by (simp add: ctx_defs)
  have "borrow (sample_sdk AdvanceNonceAccount) sample_ctx 0 = Inr ()" by (simp add: ctx_defs)
  from nonce_advances_once [OF ctx_sdk_contract this t'] t' show ?thesis by blast
qed

theorem nonce_withdrawal_leaves_rent_witness:
  "\<exists>t'. withdraw_nonce_account (sample_sdk (WithdrawNonceAccount 10)) 0 10 1 (\<lambda>_. 2) {5} sample_ctx = Inr t'
     \<and> unat (v_lamports (ctx_accounts t' 1)) = 111"
proof -
  let ?S = "sample_sdk (WithdrawNonceAccount 10)"
  obtain t' where t': "withdraw_nonce_account ?S 0 10 1 (\<lambda>_. 2) {5} sample_ctx = Inr t'"
    by (simp add: ctx_defs)
  have "tx_index ?S sample_ctx 0 = Inr 0" "tx_index ?S sample_ctx 1 = Inr 1" "(0::nat) \<noteq> 1"
    "get_versions ?S sample_ctx 0 = Inr (Initialized \<lparr>authority = 5, durable_nonce = 1, fee_per_signature = 0\<rparr>)"
    "state_of ?S (Initialized \<lparr>authority = 5, durable_nonce = 1, fee_per_signature = 0\<rparr>)
       = Initialized \<lparr>authority = 5, durable_nonce = 1, fee_per_signature = 0\<rparr>"
    by (simp_all add: ctx_defs)
  from nonce_withdrawal_leaves_rent [OF ctx_sdk_contract this t'] t' show ?thesis
    by (auto simp: sample_ctx_def)
qed

end
