(* ===== verification/Playnet_Bank.thy ===== *)
theory Playnet_Bank
  imports Playnet_System
begin

text \<open>
  The bank of the in-browser runtime: \<open>wasm/playnet/src/runtime/bank.rs\<close> (loading,
  executing, committing and recording a transaction), \<open>message_processor.rs\<close>,
  \<open>transaction_history.rs\<close> and the result of a simulation of \<open>types.rs\<close>.  The SDK's transaction
  context is an abstract state \<open>'c\<close>; its operations, the program ids, the hasher and the
  serialisations are the fields of \<open>runtime\<close>.  A sanitised message is a record of what the code
  asks of it.  The error counters are local to a load and dropped with it, so they are not part
  of the state.
\<close>

section \<open>Data\<close>

record account =
  lamports :: u64
  data :: bytes
  owner :: pubkey
  executable :: bool
  rent_epoch :: u64

definition default_account :: account where
  "default_account = \<lparr>lamports = 0, data = [], owner = 0, executable = False, rent_epoch = 0\<rparr>"

definition new_account :: "u64 \<Rightarrow> nat \<Rightarrow> pubkey \<Rightarrow> account" where
  "new_account l space p = \<lparr>lamports = l, data = replicate space 0, owner = p, executable = False, rent_epoch = 0\<rparr>"

type_synonym tx_account = "pubkey \<times> account"
type_synonym signature = "512 word"

datatype tx_error =
    AccountNotFound
  | ProgramAccountNotFound
  | InvalidWritableAccount
  | InvalidProgramForExecution
  | CallChainTooDeep
  | InvalidAccountForFee
  | InsufficientFundsForFee
  | MaxLoadedAccountsDataSizeExceeded
  | MissingSignatureForFee
  | AlreadyProcessed
  | InvalidAccountIndex
  | InstructionError u8 instruction_error
  | OtherTxError nat

record compiled_instruction =
  program_id_index :: nat
  ix_accounts :: "nat list"
  ix_data :: bytes

record message =
  account_keys :: "pubkey list"
  instructions :: "compiled_instruction list"
  recent_blockhash :: hash
  num_required_signatures :: u8
  is_writable :: "nat \<Rightarrow> bool"
  is_signer :: "nat \<Rightarrow> bool"
  is_non_loader_key :: "nat \<Rightarrow> bool"
  upgradeable_loader_present :: bool

record tx =
  msg :: message
  signatures :: "signature list"
  signature :: signature

record instruction_account =
  index_in_transaction :: nat
  index_in_caller :: nat
  index_in_callee :: nat
  acc_is_signer :: bool
  acc_is_writable :: bool

record return_data =
  rd_program :: pubkey
  rd_data :: bytes

record 'c runtime =
  native_loader :: pubkey
  bpf_loader :: pubkey
  upgradeable_loader :: pubkey
  sysvar_owner :: pubkey
  instructions_sysvar :: pubkey
  clock_account :: tx_account \<comment> \<open>id and serialised default of the sysvar\<close>
  rent_account :: tx_account
  clock_timestamp :: i64
  minimum_rent :: "nat \<Rightarrow> u64"
  instructions_owned_by_sysvar :: bool
  instructions_data :: "message \<Rightarrow> bytes"
  programdata_of :: "bytes \<Rightarrow> pubkey option" \<comment> \<open>the address when the state decodes to \<open>Program\<close>\<close>
  nonce_of :: "bytes \<Rightarrow> nonce_state option"
  nonce_size :: nat
  hasher :: "bytes \<Rightarrow> hash"
  is_precompile :: "pubkey \<Rightarrow> bool"
  new_context :: "tx_account list \<Rightarrow> 'c"
  context_accounts :: "'c \<Rightarrow> tx_account list"
  context_return_data :: "'c \<Rightarrow> return_data"
  context_logs :: "'c \<Rightarrow> string list"
  find_index_of_account :: "'c \<Rightarrow> pubkey \<Rightarrow> nat option"
  store_current_index :: "nat \<Rightarrow> nat \<Rightarrow> 'c \<Rightarrow> 'c option" \<comment> \<open>account index, instruction index\<close>
  run_precompile :: "nat list \<Rightarrow> instruction_account list \<Rightarrow> bytes \<Rightarrow> 'c \<Rightarrow> 'c \<times> (instruction_error + unit)"
  process_instruction ::
    "bytes \<Rightarrow> instruction_account list \<Rightarrow> nat list \<Rightarrow> 'c \<Rightarrow> 'c \<times> (instruction_error + unit) \<times> u64"
  airdrop_tx :: "pubkey \<Rightarrow> pubkey \<Rightarrow> u64 \<Rightarrow> hash \<Rightarrow> tx_error + tx"

text \<open>\<open>as IndexOfAccount\<close> and \<open>as u8\<close> truncate.\<close>

definition as_index :: "nat \<Rightarrow> nat" where "as_index k = k mod 65536"

record confirmed_meta =
  fee :: u64
  pre_balances :: "u64 list"
  post_balances :: "u64 list"
  log_messages :: "string list option"
  meta_err :: "tx_error option"
  compute_units_consumed :: "u64 option"

record tx_data =
  tx_slot :: u64
  tx_tx :: tx
  tx_meta :: "confirmed_meta option"
  block_time :: "i64 option"

record bank =
  accounts :: "pubkey \<Rightarrow> account option"
  txs :: "signature \<Rightarrow> tx_data option"
  slot :: u64
  block_height :: u64
  genesis_hash :: hash
  latest_blockhash :: hash
  airdrop_key :: pubkey

record simulation =
  sim_result :: "tx_error + unit"
  pre_accounts :: "tx_account list"
  post_accounts :: "tx_account list"
  logs :: "string list"
  units_consumed :: u64
  sim_return_data :: "return_data option"

definition simulation_error :: "tx_error \<Rightarrow> simulation" where
  "simulation_error e =
     \<lparr>sim_result = Inl e, pre_accounts = [], post_accounts = [], logs = [], units_consumed = 0,
      sim_return_data = None\<rparr>"

definition LAMPORTS_PER_SIGNATURE :: u64 where "LAMPORTS_PER_SIGNATURE = 0"
definition LAMPORTS_PER_SOL :: u64 where "LAMPORTS_PER_SOL = 1000000000"

section \<open>The message processor\<close>

fun position :: "('a \<Rightarrow> bool) \<Rightarrow> 'a list \<Rightarrow> nat option" where
  "position P [] = None"
| "position P (x # xs) = (if P x then Some 0 else map_option Suc (position P xs))"

definition instruction_account_at :: "message \<Rightarrow> nat list \<Rightarrow> nat \<Rightarrow> instruction_account" where
  "instruction_account_at m ixs k =
     \<lparr>index_in_transaction = as_index (ixs ! k), index_in_caller = as_index (ixs ! k),
      index_in_callee = as_index
        (case position (\<lambda>i. i = ixs ! k) (take k ixs) of None \<Rightarrow> k | Some p \<Rightarrow> p),
      acc_is_signer = is_signer m (ixs ! k), acc_is_writable = is_writable m (ixs ! k)\<rparr>"

definition build_instruction_accounts :: "message \<Rightarrow> compiled_instruction \<Rightarrow> instruction_account list" where
  "build_instruction_accounts m ix =
     map (instruction_account_at m (ix_accounts ix)) [0..<length (ix_accounts ix)]"

text \<open>One instruction: the fix-up of the instructions sysvar, then the precompile or the program.\<close>

definition fix_instructions_sysvar :: "'c runtime \<Rightarrow> nat \<Rightarrow> 'c \<Rightarrow> tx_error + 'c" where
  "fix_instructions_sysvar R idx c =
     (case find_index_of_account R c (instructions_sysvar R) of
        None \<Rightarrow> Inr c
      | Some i \<Rightarrow> ok_or (store_current_index R i (idx mod 65536) c) InvalidAccountIndex)"

definition process_one ::
  "'c runtime \<Rightarrow> message \<Rightarrow> nat \<Rightarrow> compiled_instruction \<Rightarrow> nat list \<Rightarrow> u64 \<Rightarrow> 'c
     \<Rightarrow> 'c \<times> u64 \<times> (unit, tx_error) res" where
  "process_one R m idx ix program_indices units c =
     (if length (account_keys m) \<le> program_id_index ix then (c, units, Inl Panic)
      else case fix_instructions_sysvar R idx c of
        Inl e \<Rightarrow> (c, units, Inl (Err e))
      | Inr c \<Rightarrow>
         (let accs = build_instruction_accounts m ix;
              (c, r, units) =
                (if is_precompile R (account_keys m ! program_id_index ix) then
                   (let (c, r) = run_precompile R program_indices accs (ix_data ix) c in (c, r, units))
                 else
                   (let (c, r, used) = process_instruction R (ix_data ix) accs program_indices c
                    in (c, r, saturating_add units used)))
          in (c, units, case r of Inl e \<Rightarrow> Inl (Err (InstructionError (of_nat idx) e)) | Inr _ \<Rightarrow> Inr ())))"

fun process_instructions ::
  "'c runtime \<Rightarrow> message \<Rightarrow> nat \<Rightarrow> (compiled_instruction \<times> nat list) list \<Rightarrow> u64 \<Rightarrow> 'c
     \<Rightarrow> 'c \<times> u64 \<times> (unit, tx_error) res" where
  "process_instructions R m idx [] units c = (c, units, Inr ())"
| "process_instructions R m idx ((ix, pis) # rest) units c =
     (case process_one R m idx ix pis units c of
        (c, units, Inl e) \<Rightarrow> (c, units, Inl e)
      | (c, units, Inr _) \<Rightarrow> process_instructions R m (Suc idx) rest units c)"

definition process_message ::
  "'c runtime \<Rightarrow> message \<Rightarrow> nat list list \<Rightarrow> 'c \<Rightarrow> 'c \<times> u64 \<times> (unit, tx_error) res" where
  "process_message R m program_indices c =
     process_instructions R m 0 (zip (instructions m) program_indices) 0 c"

section \<open>Loading\<close>

definition get_account_default :: "bank \<Rightarrow> pubkey \<Rightarrow> account" where
  "get_account_default b k = (case accounts b k of Some a \<Rightarrow> a | None \<Rightarrow> default_account)"

definition set_account :: "pubkey \<Rightarrow> account \<Rightarrow> bank \<Rightarrow> bank" where
  "set_account k a b = b\<lparr>accounts := (accounts b)(k \<mapsto> a)\<rparr>"

definition get_fee_for_message :: "message \<Rightarrow> u64 option" where
  "get_fee_for_message m =
     checked_mul (ucast (max (num_required_signatures m) 1)) LAMPORTS_PER_SIGNATURE"

definition construct_instructions_account :: "'c runtime \<Rightarrow> message \<Rightarrow> bool \<Rightarrow> account" where
  "construct_instructions_account R m is_owned_by_sysvar =
     default_account\<lparr>data := instructions_data R m,
       owner := (if is_owned_by_sysvar then sysvar_owner R else system_program_id)\<rparr>"

text \<open>\<open>fee + min_balance\<close> is a \<open>u64\<close> addition; a nonce account as fee payer is a \<open>todo!()\<close>.\<close>

definition validate_fee_payer :: "'c runtime \<Rightarrow> account \<Rightarrow> u64 \<Rightarrow> (unit, tx_error) res" where
  "validate_fee_payer R payer f =
     (if lamports payer = 0 then Inl (Err AccountNotFound)
      else case get_system_account_kind (nonce_of R) (nonce_size R) (owner payer) (data payer) of
        None \<Rightarrow> Inl (Err InvalidAccountForFee)
      | Some NonceKind \<Rightarrow> Inl Panic
      | Some SystemKind \<Rightarrow>
          if lamports payer < f + 0 then Inl (Err InsufficientFundsForFee) else Inr ())"

definition accumulate_data_size :: "nat \<Rightarrow> nat \<Rightarrow> nat option \<Rightarrow> tx_error + nat" where
  "accumulate_data_size sofar sz limit =
     (case limit of
        None \<Rightarrow> Inr sofar
      | Some l \<Rightarrow> if sofar + sz > l then Inl MaxLoadedAccountsDataSizeExceeded else Inr (sofar + sz))"

text \<open>
  The account of key \<open>i\<close> of the message, with the sz to count and the program data account
  an upgradeable program drags in; \<open>validated\<close> tells that a fee payer has been accepted.
\<close>

definition load_account ::
  "'c runtime \<Rightarrow> bank \<Rightarrow> message \<Rightarrow> u64 \<Rightarrow> nat \<Rightarrow> pubkey \<Rightarrow> bool
     \<Rightarrow> (account \<times> nat \<times> tx_account list \<times> bool, tx_error) res" where
  "load_account R b m f i key validated =
     (if \<not> is_non_loader_key m i then
        (let a = get_account_default b key in Inr (a, length (data a), [], validated))
      else if key = instructions_sysvar R then
        Inr (construct_instructions_account R m (instructions_owned_by_sysvar R), 0, [], validated)
      else
        (let a = get_account_default b key
         in rbind (if validated then Inr () else validate_fee_payer R a f) (\<lambda>_.
            if owner a = upgradeable_loader R then
              (if is_writable m i \<and> \<not> upgradeable_loader_present m then Inl (Err InvalidWritableAccount)
               else if executable a then
                 (case programdata_of R (data a) of
                    None \<Rightarrow> Inl (Err InvalidProgramForExecution)
                  | Some pd \<Rightarrow>
                     (case accounts b pd of
                        None \<Rightarrow> Inl (Err ProgramAccountNotFound)
                      | Some pa \<Rightarrow> Inr (a, length (data pa), [(pd, pa)], True)))
               else Inr (a, 0, [], True))
            else if executable a \<and> is_writable m i then Inl (Err InvalidWritableAccount)
            else Inr (a, 0, [], True))))"

fun load_accounts ::
  "'c runtime \<Rightarrow> bank \<Rightarrow> message \<Rightarrow> u64 \<Rightarrow> nat option \<Rightarrow> nat \<Rightarrow> pubkey list \<Rightarrow> bool \<Rightarrow> nat
     \<Rightarrow> (tx_account list \<times> tx_account list \<times> bool \<times> nat, tx_error) res" where
  "load_accounts R b m f limit i [] validated sz = Inr ([], [], validated, sz)"
| "load_accounts R b m f limit i (key # keys) validated sz =
     rbind (load_account R b m f i key validated) (\<lambda>(a, extra, deps, validated).
     rbind (lift_err (accumulate_data_size sz (length (data a) + extra) limit)) (\<lambda>sz.
     rbind (load_accounts R b m f limit (Suc i) keys validated sz) (\<lambda>(as, ds, validated, sz).
     Inr ((key, a) # as, deps @ ds, validated, sz))))"

text \<open>
  The chain of loaders of a program: \<open>accs\<close> grows by the accounts of the chain, \<open>indices\<close>
  collects their positions, the innermost loader first.
\<close>

function load_chain ::
  "'c runtime \<Rightarrow> bank \<Rightarrow> nat option \<Rightarrow> bool \<Rightarrow> nat \<Rightarrow> pubkey \<Rightarrow> tx_account list \<Rightarrow> nat list \<Rightarrow> nat
     \<Rightarrow> (tx_account list \<times> nat list \<times> nat, tx_error) res" where
  "load_chain R b limit already_loaded depth program_id accs indices sz =
     (if program_id = native_loader R then Inr (accs, indices, sz)
      else if 5 \<le> depth then Inl (Err CallChainTooDeep)
      else case accounts b program_id of
        None \<Rightarrow> Inl (Err ProgramAccountNotFound)
      | Some program \<Rightarrow>
         (let counted = \<not> (depth = 0 \<and> already_loaded);
              program_index = as_index (length accs);
              accs = accs @ [(program_id, program)]
          in if length accs \<le> program_index then Inl Panic
             else
               let program = snd (accs ! program_index);
                   program_owner = owner program;
                   program_size = (if counted then length (data program) else 0)
               in if \<not> executable program then Inl (Err InvalidProgramForExecution)
                  else rbind
                    (if program_owner = upgradeable_loader R then
                       (case programdata_of R (data program) of
                          None \<Rightarrow> Inl (Err InvalidProgramForExecution)
                        | Some pd \<Rightarrow>
                           (case accounts b pd of
                              None \<Rightarrow> Inl (Err ProgramAccountNotFound)
                            | Some pa \<Rightarrow>
                                Inr (accs @ [(pd, pa)], as_index (length accs) # program_index # indices,
                                     program_size + (if counted then length (data pa) else 0))))
                     else Inr (accs, program_index # indices, program_size))
                    (\<lambda>(accs, indices, extra).
                     rbind (lift_err (accumulate_data_size sz extra limit)) (\<lambda>sz.
                     load_chain R b limit already_loaded (Suc depth) program_owner accs indices sz))))"
  by pat_completeness auto
termination
  by (relation "measure (\<lambda>(_, _, _, _, depth, _). 5 - depth)") auto

declare load_chain.simps [simp del]

definition load_executable_accounts ::
  "'c runtime \<Rightarrow> bank \<Rightarrow> nat option \<Rightarrow> tx_account list \<Rightarrow> nat \<Rightarrow> nat
     \<Rightarrow> (tx_account list \<times> nat list \<times> nat, tx_error) res" where
  "load_executable_accounts R b limit accs program_account_index sz =
     (if length accs \<le> program_account_index then Inl (Err ProgramAccountNotFound)
      else load_chain R b limit (snd (accs ! program_account_index) \<noteq> default_account) 0
             (fst (accs ! program_account_index)) accs [] sz)"

fun load_programs ::
  "'c runtime \<Rightarrow> bank \<Rightarrow> nat option \<Rightarrow> compiled_instruction list \<Rightarrow> tx_account list \<Rightarrow> nat
     \<Rightarrow> (tx_account list \<times> nat list list, tx_error) res" where
  "load_programs R b limit [] accs sz = Inr (accs, [])"
| "load_programs R b limit (ix # ixs) accs sz =
     rbind (load_executable_accounts R b limit accs (program_id_index ix) sz) (\<lambda>(accs, indices, sz).
     rbind (load_programs R b limit ixs accs sz) (\<lambda>(accs, rest). Inr (accs, indices # rest)))"

record loaded_tx =
  l_accounts :: "tx_account list"
  l_program_indices :: "nat list list"

definition load_tx_accounts :: "'c runtime \<Rightarrow> bank \<Rightarrow> tx \<Rightarrow> u64 \<Rightarrow> (loaded_tx, tx_error) res" where
  "load_tx_accounts R b t f =
     (if signatures t = [] \<and> f \<noteq> 0 then Inl (Err MissingSignatureForFee)
      else
        let m = msg t; limit = None
        in rbind (load_accounts R b m f limit 0 (account_keys m) False 0) (\<lambda>(accs, deps, validated, sz).
           if \<not> validated then Inl (Err AccountNotFound)
           else rbind (load_programs R b limit (instructions m) (accs @ deps) sz) (\<lambda>(accs, indices).
                Inr \<lparr>l_accounts = accs, l_program_indices = indices\<rparr>)))"

definition load_tx :: "'c runtime \<Rightarrow> bank \<Rightarrow> tx \<Rightarrow> (loaded_tx, tx_error) res" where
  "load_tx R b t = load_tx_accounts R b t 0"

section \<open>Executing\<close>

definition trim_return_data :: "return_data \<Rightarrow> return_data option" where
  "trim_return_data rd =
     (case position (\<lambda>x. x \<noteq> 0) (rev (rd_data rd)) of
        None \<Rightarrow> None
      | Some k \<Rightarrow> Some (rd\<lparr>rd_data := take (length (rd_data rd) - k) (rd_data rd)\<rparr>))"

record details =
  log_content :: "string list"
  details_return :: "return_data option"
  executed_units :: u64

definition execute_loaded_tx ::
  "'c runtime \<Rightarrow> tx \<Rightarrow> loaded_tx \<Rightarrow> loaded_tx \<times> (details, tx_error) res" where
  "execute_loaded_tx R t l =
     (let (c, units, r) = process_message R (msg t) (l_program_indices l) (new_context R (l_accounts l));
          l' = l\<lparr>l_accounts := context_accounts R c\<rparr>
      in case r of
           Inl e \<Rightarrow> (l', Inl e)
         | Inr _ \<Rightarrow> (l', Inr \<lparr>log_content = context_logs R c,
                         details_return = trim_return_data (context_return_data R c),
                         executed_units = units\<rparr>))"

text \<open>A panic while simulating unwinds out of the bank: it is the left summand.\<close>

definition simulate_tx :: "'c runtime \<Rightarrow> bank \<Rightarrow> tx \<Rightarrow> unit + simulation" where
  "simulate_tx R b t =
     (case load_tx R b t of
        Inl Panic \<Rightarrow> Inl ()
      | Inl (Err e) \<Rightarrow> Inr (simulation_error e)
      | Inr l \<Rightarrow>
         (let count = length (account_keys (msg t));
              pre = take count (l_accounts l);
              (l, r) = execute_loaded_tx R t l
          in case r of
               Inl Panic \<Rightarrow> Inl ()
             | Inl (Err e) \<Rightarrow> Inr (simulation_error e)
             | Inr d \<Rightarrow> Inr \<lparr>sim_result = Inr (), pre_accounts = pre, post_accounts = take count (l_accounts l),
                          logs = log_content d, units_consumed = executed_units d,
                          sim_return_data = details_return d\<rparr>))"

section \<open>Committing\<close>

definition new_slot :: "'c runtime \<Rightarrow> bank \<Rightarrow> bank" where
  "new_slot R b =
     b\<lparr>latest_blockhash := hasher R (key_bytes (latest_blockhash b)), slot := slot b + 1,
       block_height := block_height b + 1\<rparr>"

fun is_loader_write :: "'c runtime \<Rightarrow> message \<Rightarrow> compiled_instruction list \<Rightarrow> bool option" where
  "is_loader_write R m [] = Some False"
| "is_loader_write R m (ix # ixs) =
     (if length (account_keys m) \<le> program_id_index ix then None
      else if account_keys m ! program_id_index ix = upgradeable_loader R \<and> prefix [1] (ix_data ix)
        then Some True
      else is_loader_write R m ixs)"

definition save_tx ::
  "'c runtime \<Rightarrow> tx \<Rightarrow> simulation \<Rightarrow> u64 \<Rightarrow> bank \<Rightarrow> bank \<times> (signature, tx_error) res" where
  "save_tx R t sim f b =
     (case is_loader_write R (msg t) (instructions (msg t)) of
        None \<Rightarrow> (b, Inl Panic)
      | Some True \<Rightarrow> (b, Inr (signature t))
      | Some False \<Rightarrow>
         (case txs b (signature t) of
            Some _ \<Rightarrow> (b, Inl (Err AlreadyProcessed))
          | None \<Rightarrow>
             (let meta = \<lparr>fee = f, pre_balances = map (lamports \<circ> snd) (pre_accounts sim),
                          post_balances = map (lamports \<circ> snd) (post_accounts sim),
                          log_messages = Some (logs sim),
                          meta_err = (case sim_result sim of Inl e \<Rightarrow> Some e | Inr _ \<Rightarrow> None),
                          compute_units_consumed = Some (units_consumed sim)\<rparr>;
                  d = \<lparr>tx_slot = slot b, tx_tx = t, tx_meta = Some meta, block_time = Some (clock_timestamp R)\<rparr>
              in (new_slot R (b\<lparr>txs := (txs b)(signature t \<mapsto> d)\<rparr>), Inr (signature t)))))"

definition set_accounts :: "tx_account list \<Rightarrow> bank \<Rightarrow> bank" where
  "set_accounts as b = foldl (\<lambda>b (k, a). set_account k a b) b as"

definition process_tx :: "'c runtime \<Rightarrow> tx \<Rightarrow> bank \<Rightarrow> bank \<times> (signature, tx_error) res" where
  "process_tx R t b =
     (case simulate_tx R b t of
        Inl _ \<Rightarrow> (b, Inl Panic)
      | Inr sim \<Rightarrow>
         (case sim_result sim of
            Inl e \<Rightarrow> (b, Inl (Err e))
          | Inr _ \<Rightarrow>
             (case get_fee_for_message (msg t) of
                None \<Rightarrow> (b, Inl Panic)
              | Some f \<Rightarrow> save_tx R t sim f (set_accounts (post_accounts sim) b))))"

definition airdrop :: "'c runtime \<Rightarrow> pubkey \<Rightarrow> u64 \<Rightarrow> bank \<Rightarrow> bank \<times> (signature, tx_error) res" where
  "airdrop R to_key l b =
     (case airdrop_tx R (airdrop_key b) to_key l (latest_blockhash b) of
        Inl e \<Rightarrow> (b, Inl (Err e))
      | Inr t \<Rightarrow> process_tx R t b)"

section \<open>Creating a bank\<close>

text \<open>\<open>keypair\<close> is the public key of the fresh \<open>Keypair::new()\<close>.\<close>

definition default_bank :: "'c runtime \<Rightarrow> pubkey \<Rightarrow> bank" where
  "default_bank R keypair =
     (let h = hasher R (map of_char ''playnet'')
      in \<lparr>accounts = Map.empty, txs = Map.empty, slot = 0, block_height = 0, genesis_hash = h,
          latest_blockhash = h, airdrop_key = keypair\<rparr>)"

definition native_program :: "'c runtime \<Rightarrow> account" where
  "native_program R = (new_account 1 0 (native_loader R))\<lparr>executable := True\<rparr>"

text \<open>\<open>saved\<close> is the deserialised bank when there was one that deserialises; its \<open>txs\<close> are skipped.\<close>

definition new_bank :: "'c runtime \<Rightarrow> pubkey \<Rightarrow> bank option \<Rightarrow> bank" where
  "new_bank R keypair saved =
     (let b = (case saved of Some b \<Rightarrow> b\<lparr>txs := Map.empty\<rparr> | None \<Rightarrow> default_bank R keypair);
          b = set_account (bpf_loader R) (native_program R) b;
          b = set_account (upgradeable_loader R) (native_program R) b;
          b = set_account system_program_id (native_program R) b;
          b = set_account (fst (clock_account R)) (snd (clock_account R)) b;
          b = set_account (fst (rent_account R)) (snd (rent_account R)) b
      in set_account (airdrop_key b) (new_account (1000000 * LAMPORTS_PER_SOL) 0 system_program_id) b)"

definition get_genesis_hash :: "bank \<Rightarrow> hash" where
  "get_genesis_hash b = latest_blockhash b"

definition get_latest_blockhash :: "bank \<Rightarrow> hash" where
  "get_latest_blockhash b = latest_blockhash b"

definition get_minimum_balance_for_rent_exemption :: "'c runtime \<Rightarrow> nat \<Rightarrow> u64" where
  "get_minimum_balance_for_rent_exemption R len = max (minimum_rent R len) 1"

section \<open>Instruction accounts\<close>

lemma position_None: "position P xs = None \<longleftrightarrow> (\<forall>x \<in> set xs. \<not> P x)"
  by (induction xs) auto

lemma position_Some: "position P xs = Some k \<longleftrightarrow> k < length xs \<and> P (xs ! k) \<and> (\<forall>j < k. \<not> P (xs ! j))"
proof (induction xs arbitrary: k)
  case (Cons x xs)
  then show ?case by (cases k) (auto simp: less_Suc_eq_0_disj)
qed simp

lemma as_index_id: "k < 65536 \<Longrightarrow> as_index k = k"
  by (simp add: as_index_def)

text \<open>
  The accounts handed to a program mirror the instruction: entry \<open>k\<close> names account \<open>k\<close> of
  the instruction with the signer and writable flags of the message, and \<open>index_in_callee\<close> is
  the first position with the same account, so duplicates point to one borrow.
\<close>

theorem instruction_accounts_deduplicated:
  assumes "length (ix_accounts ix) \<le> 65536" and "\<forall>i \<in> set (ix_accounts ix). i < 256"
  shows "length (build_instruction_accounts m ix) = length (ix_accounts ix)
    \<and> (\<forall>k < length (ix_accounts ix). let a = build_instruction_accounts m ix ! k; i = ix_accounts ix ! k in
         index_in_transaction a = i \<and> index_in_caller a = i
       \<and> acc_is_signer a = is_signer m i \<and> acc_is_writable a = is_writable m i
       \<and> index_in_callee a \<le> k \<and> ix_accounts ix ! index_in_callee a = i
       \<and> (\<forall>j < index_in_callee a. ix_accounts ix ! j \<noteq> i))"
proof -
  let ?xs = "ix_accounts ix"
  have "let a = instruction_account_at m ?xs k in
         index_in_transaction a = ?xs ! k \<and> index_in_caller a = ?xs ! k
       \<and> acc_is_signer a = is_signer m (?xs ! k) \<and> acc_is_writable a = is_writable m (?xs ! k)
       \<and> index_in_callee a \<le> k \<and> ?xs ! index_in_callee a = ?xs ! k
       \<and> (\<forall>j < index_in_callee a. ?xs ! j \<noteq> ?xs ! k)" if k: "k < length ?xs" for k
  proof -
    let ?p = "case position (\<lambda>i. i = ?xs ! k) (take k ?xs) of None \<Rightarrow> k | Some p \<Rightarrow> p"
    have small: "?xs ! k < 65536" using assms(2) k nth_mem by fastforce
    have p: "?p \<le> k \<and> ?xs ! ?p = ?xs ! k \<and> (\<forall>j < ?p. ?xs ! j \<noteq> ?xs ! k)"
    proof (cases "position (\<lambda>i. i = ?xs ! k) (take k ?xs)")
      case None
      have "?xs ! j \<noteq> ?xs ! k" if "j < k" for j
      proof -
        have "take k ?xs ! j \<in> set (take k ?xs)" using that k by (intro nth_mem) simp
        then show ?thesis using None that by (auto simp: position_None)
      qed
      then show ?thesis using None by simp
    next
      case (Some q)
      then have "q < k" "?xs ! q = ?xs ! k" "\<forall>j < q. ?xs ! j \<noteq> ?xs ! k"
        using k by (auto simp: position_Some)
      then show ?thesis using Some by simp
    qed
    then have "as_index ?p = ?p" using k assms(1) by (intro as_index_id) linarith
    then show ?thesis
      using p small by (simp add: instruction_account_at_def Let_def as_index_id)
  qed
  then show ?thesis by (simp add: build_instruction_accounts_def Let_def)
qed

section \<open>Order of execution\<close>

lemma process_instructions_append:
  "process_instructions R m idx (ps @ qs) units c =
     (case process_instructions R m idx ps units c of
        (c, units, Inl e) \<Rightarrow> (c, units, Inl e)
      | (c, units, Inr _) \<Rightarrow> process_instructions R m (idx + length ps) qs units c)"
  by (induction ps arbitrary: idx units c) (auto split: prod.splits sum.splits)

lemma process_instructions_fails:
  assumes "process_instructions R m idx ps units c = (c', units', Inl e)"
  shows "\<exists>k ck uk. k < length ps \<and> process_instructions R m idx (take k ps) units c = (ck, uk, Inr ())
     \<and> process_one R m (idx + k) (fst (ps ! k)) (snd (ps ! k)) uk ck = (c', units', Inl e)"
  using assms
proof (induction ps arbitrary: idx units c)
  case (Cons p ps)
  obtain ix pis where p: "p = (ix, pis)" by fastforce
  obtain c1 u1 r where one: "process_one R m idx ix pis units c = (c1, u1, r)" by (metis prod_cases3)
  show ?case
  proof (cases r)
    case (Inl e')
    then show ?thesis using Cons.prems one p by (intro exI [of _ 0]) auto
  next
    case (Inr u)
    then have "process_instructions R m (Suc idx) ps u1 c1 = (c', units', Inl e)"
      using Cons.prems one p by simp
    from Cons.IH [OF this] obtain k ck uk where
      "k < length ps" "process_instructions R m (Suc idx) (take k ps) u1 c1 = (ck, uk, Inr ())"
      "process_one R m (Suc idx + k) (fst (ps ! k)) (snd (ps ! k)) uk ck = (c', units', Inl e)"
      by blast
    then show ?thesis using one p Inr by (intro exI [of _ "Suc k"]) simp
  qed
qed simp

text \<open>
  A message is executed in order and stops at its first failing instruction: the error
  reports that instruction's number (as a byte), every instruction before it succeeded on the
  state its predecessors left, and none after it ran.
\<close>

theorem message_stops_at_first_failure:
  assumes "process_message R m program_indices c = (c', units, Inl (Err (InstructionError i e)))"
  shows "\<exists>k ck uk. k < length (instructions m) \<and> i = of_nat k
    \<and> process_instructions R m 0 (take k (zip (instructions m) program_indices)) 0 c = (ck, uk, Inr ())
    \<and> process_one R m k (instructions m ! k) (program_indices ! k) uk ck
        = (c', units, Inl (Err (InstructionError i e)))"
proof -
  let ?ps = "zip (instructions m) program_indices"
  obtain k ck uk where k: "k < length ?ps"
    and before: "process_instructions R m 0 (take k ?ps) 0 c = (ck, uk, Inr ())"
    and fails: "process_one R m k (fst (?ps ! k)) (snd (?ps ! k)) uk ck = (c', units, Inl (Err (InstructionError i e)))"
    using process_instructions_fails [OF assms [unfolded process_message_def]] by auto
  then have "i = of_nat k"
    by (auto simp: process_one_def fix_instructions_sysvar_def ok_or_Inl_iff Let_def
        split: if_splits sum.splits prod.splits option.splits)
  then show ?thesis using k before fails by auto
qed

section \<open>A runtime\<close>

text \<open>
  A concrete runtime for the witnesses: the context is the list of accounts, and a program
  fails on the data \<open>[9]\<close>, moves one lamport from account 0 to account 1 on \<open>[2]\<close> and does
  nothing otherwise.
\<close>

definition sample_step :: "bytes \<Rightarrow> tx_account list \<Rightarrow> tx_account list \<times> (instruction_error + unit)" where
  "sample_step d c =
     (if d = [9] then (c, Inl MissingRequiredSignature)
      else if d = [2] then
        (c[0 := (fst (c ! 0), snd (c ! 0)\<lparr>lamports := lamports (snd (c ! 0)) - 1\<rparr>),
           1 := (fst (c ! 1), snd (c ! 1)\<lparr>lamports := lamports (snd (c ! 1)) + 1\<rparr>)], Inr ())
      else (c, Inr ()))"

definition sample_runtime :: "tx_account list runtime" where
  "sample_runtime =
     \<lparr>native_loader = 101, bpf_loader = 102, upgradeable_loader = 103, sysvar_owner = 104,
      instructions_sysvar = 105, clock_account = (106, default_account), rent_account = (107, default_account),
      clock_timestamp = 0, minimum_rent = (\<lambda>n. of_nat n), instructions_owned_by_sysvar = False,
      instructions_data = (\<lambda>_. []), programdata_of = (\<lambda>_. None), nonce_of = (\<lambda>_. None), nonce_size = 80,
      hasher = (\<lambda>d. of_nat (Suc (le_nat d))), is_precompile = (\<lambda>_. False), new_context = (\<lambda>c. c),
      context_accounts = (\<lambda>c. c), context_return_data = (\<lambda>_. \<lparr>rd_program = 0, rd_data = []\<rparr>),
      context_logs = (\<lambda>_. []), find_index_of_account = (\<lambda>_ _. None), store_current_index = (\<lambda>_ _ _. None),
      run_precompile = (\<lambda>_ _ _ c. (c, Inr ())),
      process_instruction = (\<lambda>d _ _ c. (case sample_step d c of (c, r) \<Rightarrow> (c, r, 10))),
      airdrop_tx = (\<lambda>_ _ _ _. Inl (OtherTxError 0))\<rparr>"

definition sample_message :: "bytes list \<Rightarrow> message" where
  "sample_message ds =
     \<lparr>account_keys = [1, 2, 50], instructions = map (\<lambda>d. \<lparr>program_id_index = 2, ix_accounts = [0, 1], ix_data = d\<rparr>) ds,
      recent_blockhash = 0, num_required_signatures = 1, is_writable = (\<lambda>i. i < 2), is_signer = (\<lambda>i. i = 0),
      is_non_loader_key = (\<lambda>i. i < 2), upgradeable_loader_present = False\<rparr>"

definition sample_tx :: "bytes list \<Rightarrow> tx" where
  "sample_tx ds = \<lparr>msg = sample_message ds, signatures = [7], signature = 7\<rparr>"

definition sample_accounts :: "u64 \<Rightarrow> u64 \<Rightarrow> pubkey \<Rightarrow> account option" where
  "sample_accounts x y =
     [1 \<mapsto> new_account x 0 0, 2 \<mapsto> new_account y 0 0, 50 \<mapsto> (new_account 1 0 101)\<lparr>executable := True\<rparr>]"

definition sample_bank :: bank where
  "sample_bank =
     \<lparr>accounts = sample_accounts 100 5, txs = Map.empty, slot = 0, block_height = 0,
      genesis_hash = 3, latest_blockhash = 3, airdrop_key = 9\<rparr>"

lemmas sample_defs = sample_runtime_def sample_message_def sample_tx_def sample_bank_def sample_step_def
  sample_accounts_def

definition sample_instruction :: compiled_instruction where
  "sample_instruction = \<lparr>program_id_index = 0, ix_accounts = [3, 1, 3], ix_data = []\<rparr>"

theorem instruction_accounts_deduplicated_witness:
  "ix_accounts sample_instruction ! index_in_callee (build_instruction_accounts (sample_message []) sample_instruction ! 2) = 3"
  using instruction_accounts_deduplicated [of sample_instruction "sample_message []"]
  by (simp add: sample_instruction_def Let_def All_less_Suc numeral_2_eq_2 numeral_3_eq_3)

theorem message_stops_at_first_failure_witness:
  "\<exists>k. k < 3 \<and> (1 :: u8) = of_nat k"
proof -
  have "\<exists>c' u. process_message sample_runtime (sample_message [[], [9], []]) [[2], [2], [2]] []
      = (c', u, Inl (Err (InstructionError 1 MissingRequiredSignature)))"
    by (simp add: process_message_def process_one_def fix_instructions_sysvar_def sample_defs Let_def)
  then obtain c' u where "process_message sample_runtime (sample_message [[], [9], []]) [[2], [2], [2]] []
      = (c', u, Inl (Err (InstructionError 1 MissingRequiredSignature)))" by blast
  from message_stops_at_first_failure [OF this]
  obtain k where "k < length (instructions (sample_message [[], [9], []]))" "(1 :: u8) = of_nat k" by blast
  then show ?thesis by (intro exI [of _ k]) (simp add: sample_message_def)
qed

section \<open>What a load returns\<close>

lemma load_accounts_Cons:
  assumes "load_accounts R b m f limit i (key # keys) validated sz = Inr (as, ds, validated', sz')"
  obtains a e d v sz1 as' ds' where "load_account R b m f i key validated = Inr (a, e, d, v)"
    and "load_accounts R b m f limit (Suc i) keys v sz1 = Inr (as', ds', validated', sz')"
    and "as = (key, a) # as'" and "ds = d @ ds'"
  using assms by (auto simp: rbind_Inr_iff)

lemma load_accounts_keys:
  "load_accounts R b m f limit i keys validated sz = Inr (as, ds, validated', sz') \<Longrightarrow> map fst as = keys"
proof (induction keys arbitrary: i validated sz as ds)
  case (Cons key keys)
  from Cons.prems show ?case by (rule load_accounts_Cons) (use Cons.IH in auto)
qed simp

lemma load_account_validates:
  "load_account R b m f i key validated = Inr (a, e, ds, validated') \<Longrightarrow>
     validated' = validated
   \<or> (is_non_loader_key m i \<and> key \<noteq> instructions_sysvar R \<and> a = get_account_default b key \<and> validated'
        \<and> validate_fee_payer R a f = Inr ())"
  by (auto simp: load_account_def Let_def rbind_Inr_iff split: if_splits option.splits)

lemma load_accounts_validates:
  assumes "load_accounts R b m f limit i keys False sz = Inr (as, ds, True, sz')"
  shows "\<exists>j < length keys. is_non_loader_key m (i + j)
     \<and> validate_fee_payer R (get_account_default b (keys ! j)) f = Inr ()"
  using assms
proof (induction keys arbitrary: i sz as ds)
  case (Cons key keys)
  obtain a e d v as' ds' sz1 where la: "load_account R b m f i key False = Inr (a, e, d, v)"
    and rest: "load_accounts R b m f limit (Suc i) keys v sz1 = Inr (as', ds', True, sz')"
    using Cons.prems by (rule load_accounts_Cons)
  show ?case
  proof (cases v)
    case False
    then have "load_accounts R b m f limit (Suc i) keys False sz1 = Inr (as', ds', True, sz')"
      using rest by simp
    from Cons.IH [OF this] obtain j where "j < length keys" "is_non_loader_key m (Suc i + j)"
      "validate_fee_payer R (get_account_default b (keys ! j)) f = Inr ()"
      by blast
    then show ?thesis by (intro exI [of _ "Suc j"]) simp
  next
    case True
    then show ?thesis using load_account_validates [OF la] by (intro exI [of _ 0]) auto
  qed
qed simp

text \<open>
  The specification of a loader chain: from a program to the native loader, every program
  executable, an upgradeable one followed by its program data.
\<close>

inductive loader_chain :: "'c runtime \<Rightarrow> bank \<Rightarrow> pubkey \<Rightarrow> nat \<Rightarrow> tx_account list \<Rightarrow> bool" for R b where
  Native: "loader_chain R b (native_loader R) 0 []"
| Plain: "p \<noteq> native_loader R \<Longrightarrow> accounts b p = Some a \<Longrightarrow> executable a \<Longrightarrow> owner a \<noteq> upgradeable_loader R
    \<Longrightarrow> loader_chain R b (owner a) n as \<Longrightarrow> loader_chain R b p (Suc n) ((p, a) # as)"
| Upgradeable: "p \<noteq> native_loader R \<Longrightarrow> accounts b p = Some a \<Longrightarrow> executable a \<Longrightarrow> owner a = upgradeable_loader R
    \<Longrightarrow> programdata_of R (data a) = Some pd \<Longrightarrow> accounts b pd = Some pa
    \<Longrightarrow> loader_chain R b (owner a) n as \<Longrightarrow> loader_chain R b p (Suc n) ((p, a) # (pd, pa) # as)"

inductive_cases loader_chainE: "loader_chain R b p n as"

definition chain_result :: "tx_account list \<Rightarrow> nat list \<Rightarrow> tx_account list \<Rightarrow> tx_account list \<times> nat list" where
  "chain_result accs indices as = (accs @ as, rev [length accs..<length accs + length as] @ indices)"

lemma accumulate_None [simp]: "accumulate_data_size sz e None = Inr sz"
  by (simp add: accumulate_data_size_def)

lemma load_chain_native [simp]: "load_chain R b limit al d (native_loader R) accs ids sz = Inr (accs, ids, sz)"
  by (subst load_chain.simps) simp

lemma chain_result_Cons:
  "chain_result accs ids (x # as) = chain_result (accs @ [x]) (length accs # ids) as"
  by (simp add: chain_result_def upt_conv_Cons del: upt_Suc)

lemma load_chain_plain:
  assumes "p \<noteq> native_loader R" and "d < 5" and "accounts b p = Some a" and "executable a"
    and "owner a \<noteq> upgradeable_loader R" and "length accs < 65536"
  shows "load_chain R b None al d p accs ids sz
       = load_chain R b None al (Suc d) (owner a) (accs @ [(p, a)]) (length accs # ids) sz"
  using assms by (subst load_chain.simps) (simp add: Let_def as_index_id)

lemma load_chain_upgradeable:
  assumes "p \<noteq> native_loader R" and "d < 5" and "accounts b p = Some a" and "executable a"
    and "owner a = upgradeable_loader R" and "programdata_of R (data a) = Some pd" and "accounts b pd = Some pa"
    and "Suc (length accs) < 65536"
  shows "load_chain R b None al d p accs ids sz
       = load_chain R b None al (Suc d) (owner a) (accs @ [(p, a), (pd, pa)]) (Suc (length accs) # length accs # ids) sz"
  using assms by (subst load_chain.simps) (simp add: Let_def as_index_id)

lemma load_chain_step:
  assumes "load_chain R b None al d p accs ids sz = Inr r" and "p \<noteq> native_loader R"
    and "Suc (length accs) < 65536"
  shows "\<exists>a. d < 5 \<and> accounts b p = Some a \<and> executable a
    \<and> (owner a = upgradeable_loader R \<longrightarrow> (\<exists>pd pa. programdata_of R (data a) = Some pd \<and> accounts b pd = Some pa))"
  using assms
  by (subst (asm) load_chain.simps) (auto simp: Let_def rbind_Inr_iff as_index_id split: if_splits option.splits)

lemma load_chain_sound:
  "load_chain R b None al d p accs ids sz = Inr (accs', ids', sz') \<Longrightarrow> d \<le> 5
    \<Longrightarrow> length accs + 2 * (5 - d) \<le> 65536
    \<Longrightarrow> sz' = sz \<and> (\<exists>n as. loader_chain R b p n as \<and> n \<le> 5 - d \<and> (accs', ids') = chain_result accs ids as)"
proof (induction "5 - d" arbitrary: d p accs ids)
  case 0
  then have "p = native_loader R"
    using load_chain.simps [of R b None al d p accs ids sz] by (auto split: if_splits)
  then show ?case using 0 loader_chain.Native by (auto simp: chain_result_def)
next
  case (Suc k)
  show ?case
  proof (cases "p = native_loader R")
    case True
    then have "sz' = sz \<and> (accs', ids') = chain_result accs ids []"
      using Suc.prems by (simp add: chain_result_def)
    then show ?thesis using True loader_chain.Native [of R b] by blast
  next
    case False
    have room: "Suc (length accs) < 65536" using Suc by linarith
    obtain a where d: "d < 5" and a: "accounts b p = Some a" "executable a"
      and up: "owner a = upgradeable_loader R \<Longrightarrow>
        \<exists>pd pa. programdata_of R (data a) = Some pd \<and> accounts b pd = Some pa"
      using load_chain_step [OF Suc.prems(1) False room] by blast
    have k: "k = 5 - Suc d" using Suc by linarith
    show ?thesis
    proof (cases "owner a = upgradeable_loader R")
      case True
      then obtain pd pa where pd: "programdata_of R (data a) = Some pd" "accounts b pd = Some pa"
        using up by blast
      have rest: "load_chain R b None al (Suc d) (owner a) (accs @ [(p, a), (pd, pa)]) (Suc (length accs) # length accs # ids) sz
          = Inr (accs', ids', sz')"
        using Suc.prems(1) load_chain_upgradeable [OF False d a True pd room] by simp
      have "length (accs @ [(p, a), (pd, pa)]) + 2 * (5 - Suc d) \<le> 65536" using Suc d by simp
      from Suc.hyps(1) [OF k rest _ this] d obtain n as where
        "loader_chain R b (owner a) n as" "n \<le> 5 - Suc d" "sz' = sz"
        "(accs', ids') = chain_result (accs @ [(p, a), (pd, pa)]) (Suc (length accs) # length accs # ids) as"
        by auto
      then show ?thesis
        using loader_chain.Upgradeable [OF False a True pd] d
        by (intro conjI exI [of _ "Suc n"] exI [of _ "(p, a) # (pd, pa) # as"]) (auto simp: chain_result_Cons)
    next
      case plain: False
      have rest: "load_chain R b None al (Suc d) (owner a) (accs @ [(p, a)]) (length accs # ids) sz
          = Inr (accs', ids', sz')"
        using Suc.prems(1) load_chain_plain [OF False d a plain] room by simp
      have "length (accs @ [(p, a)]) + 2 * (5 - Suc d) \<le> 65536" using Suc d by simp
      from Suc.hyps(1) [OF k rest _ this] d obtain n as where
        "loader_chain R b (owner a) n as" "n \<le> 5 - Suc d" "sz' = sz"
        "(accs', ids') = chain_result (accs @ [(p, a)]) (length accs # ids) as"
        by auto
      then show ?thesis
        using loader_chain.Plain [OF False a plain] d
        by (intro conjI exI [of _ "Suc n"] exI [of _ "(p, a) # as"]) (auto simp: chain_result_Cons)
    qed
  qed
qed

lemma load_chain_complete:
  "loader_chain R b p n as \<Longrightarrow> d + n \<le> 5 \<Longrightarrow> length accs + 2 * (5 - d) \<le> 65536 \<Longrightarrow>
     load_chain R b None al d p accs ids sz
       = Inr (fst (chain_result accs ids as), snd (chain_result accs ids as), sz)"
proof (induction arbitrary: d accs ids rule: loader_chain.induct)
  case Native
  then show ?case by (simp add: chain_result_def)
next
  case (Plain p a n as)
  then show ?case by (simp add: load_chain_plain chain_result_Cons)
next
  case (Upgradeable p a pd pa n as)
  then show ?case by (simp add: load_chain_upgradeable chain_result_Cons)
qed

text \<open>
  Loading the program of an instruction computes its loader chain: it succeeds exactly
  when the program leads to the native loader through at most five executable accounts, it
  appends that chain and nothing else to the loaded accounts, and the indices it returns are
  the positions of the chain, innermost first.
\<close>

theorem load_executable_is_chain:
  assumes "length accs + 10 \<le> 65536"
  shows "load_executable_accounts R b None accs i sz = Inr (accs', indices, sz') \<longleftrightarrow>
     i < length accs \<and> sz' = sz
   \<and> (\<exists>n as. loader_chain R b (fst (accs ! i)) n as \<and> n \<le> 5 \<and> accs' = accs @ as
        \<and> indices = rev [length accs..<length accs + length as])"
proof
  assume "load_executable_accounts R b None accs i sz = Inr (accs', indices, sz')"
  then have "i < length accs"
    and "load_chain R b None (snd (accs ! i) \<noteq> default_account) 0 (fst (accs ! i)) accs [] sz = Inr (accs', indices, sz')"
    by (auto simp: load_executable_accounts_def split: if_splits)
  then show "i < length accs \<and> sz' = sz
   \<and> (\<exists>n as. loader_chain R b (fst (accs ! i)) n as \<and> n \<le> 5 \<and> accs' = accs @ as
        \<and> indices = rev [length accs..<length accs + length as])"
    using load_chain_sound assms by (fastforce simp: chain_result_def)
next
  assume "i < length accs \<and> sz' = sz
   \<and> (\<exists>n as. loader_chain R b (fst (accs ! i)) n as \<and> n \<le> 5 \<and> accs' = accs @ as
        \<and> indices = rev [length accs..<length accs + length as])"
  then obtain n as where "i < length accs" "sz' = sz" "loader_chain R b (fst (accs ! i)) n as" "0 + n \<le> 5"
    "accs' = accs @ as" "indices = rev [length accs..<length accs + length as]" by auto
  then show "load_executable_accounts R b None accs i sz = Inr (accs', indices, sz')"
    using load_chain_complete [of R b "fst (accs ! i)" n as 0 accs] assms
    by (simp add: load_executable_accounts_def chain_result_def)
qed

lemma sample_chain: "loader_chain sample_runtime sample_bank 50 1 [(50, (new_account 1 0 101)\<lparr>executable := True\<rparr>)]"
  using loader_chain.Plain [of 50 sample_runtime sample_bank "(new_account 1 0 101)\<lparr>executable := True\<rparr>" 0 "[]"]
    loader_chain.Native [of sample_runtime sample_bank]
  by (simp add: sample_defs new_account_def)

theorem load_executable_is_chain_witness:
  "\<exists>a. load_executable_accounts sample_runtime sample_bank None [(50, default_account)] 0 7
     = Inr ([(50, default_account), (50, a)], [1], 7)"
proof -
  let ?a = "(new_account 1 0 101)\<lparr>executable := True\<rparr>"
  have "load_executable_accounts sample_runtime sample_bank None [(50, default_account)] 0 7
     = Inr ([(50, default_account), (50, ?a)], [1], 7)"
    using sample_chain
    by (subst load_executable_is_chain) (auto intro!: exI [of _ 1] exI [of _ "[(50, ?a)]"])
  then show ?thesis by blast
qed

section \<open>What a transaction commits\<close>

lemma set_accounts_fields [simp]:
  "txs (set_accounts as b) = txs b" "slot (set_accounts as b) = slot b"
  "block_height (set_accounts as b) = block_height b" "genesis_hash (set_accounts as b) = genesis_hash b"
  "latest_blockhash (set_accounts as b) = latest_blockhash b" "airdrop_key (set_accounts as b) = airdrop_key b"
  by (induction as arbitrary: b) (auto simp: set_accounts_def set_account_def)

lemma accounts_set_accounts: "accounts (set_accounts as b) = accounts b ++ map_of (rev as)"
proof (induction as arbitrary: b)
  case (Cons x as)
  obtain k a where x: "x = (k, a)" by (cases x)
  have "set_accounts (x # as) b = set_accounts as (set_account k a b)" by (simp add: set_accounts_def x)
  then show ?case
    using Cons.IH [of "set_account k a b"] by (simp add: set_account_def x map_add_def fun_upd_def fun_eq_iff split: option.split)
qed (simp add: set_accounts_def)

lemma get_fee_zero [simp]: "get_fee_for_message m = Some 0"
  by (simp add: get_fee_for_message_def checked_mul_def LAMPORTS_PER_SIGNATURE_def)

text \<open>The three ways a transaction goes through \<open>process_tx\<close>.\<close>

lemma process_tx_cases:
  assumes "process_tx R t b = (b', r)"
  obtains (failed) "b' = b" and "\<forall>s. r \<noteq> Inr s"
      and "r = Inl Panic \<or> (\<exists>sim e. simulate_tx R b t = Inr sim \<and> sim_result sim = Inl e \<and> r = Inl (Err e))"
    | (stuck) sim where "simulate_tx R b t = Inr sim" and "sim_result sim = Inr ()"
      and "b' = set_accounts (post_accounts sim) b" and "r = Inl Panic \<and> is_loader_write R (msg t) (instructions (msg t)) = None
         \<or> r = Inl (Err AlreadyProcessed) \<and> txs b (signature t) \<noteq> None"
    | (unrecorded) sim where "simulate_tx R b t = Inr sim" and "sim_result sim = Inr ()"
      and "is_loader_write R (msg t) (instructions (msg t)) = Some True"
      and "b' = set_accounts (post_accounts sim) b" and "r = Inr (signature t)"
    | (recorded) sim d where "simulate_tx R b t = Inr sim" and "sim_result sim = Inr ()"
      and "is_loader_write R (msg t) (instructions (msg t)) = Some False" and "txs b (signature t) = None"
      and "tx_slot d = slot b" and "tx_tx d = t" and "\<exists>m. tx_meta d = Some m \<and> meta_err m = None \<and> fee m = 0"
      and "block_time d = Some (clock_timestamp R)"
      and "b' = new_slot R ((set_accounts (post_accounts sim) b)\<lparr>txs := (txs b)(signature t \<mapsto> d)\<rparr>)"
      and "r = Inr (signature t)"
proof (cases "simulate_tx R b t")
  case (Inl u)
  then show thesis using assms by (intro failed) (auto simp: process_tx_def)
next
  case (Inr sim)
  show thesis
  proof (cases "sim_result sim")
    case (Inl e)
    then show thesis using assms Inr by (intro failed) (auto simp: process_tx_def)
  next
    case res: (Inr u)
    note run = assms [unfolded process_tx_def Inr sum.case res get_fee_zero option.case save_tx_def]
    consider (panic) "is_loader_write R (msg t) (instructions (msg t)) = None"
      | (skipped) "is_loader_write R (msg t) (instructions (msg t)) = Some True"
      | (dup) "is_loader_write R (msg t) (instructions (msg t)) = Some False" "txs b (signature t) \<noteq> None"
      | (fresh) "is_loader_write R (msg t) (instructions (msg t)) = Some False" "txs b (signature t) = None"
      by (cases "is_loader_write R (msg t) (instructions (msg t))") auto
    then show thesis
    proof cases
      case panic
      then show thesis using run Inr res by (intro stuck [of sim]) auto
    next
      case skipped
      then show thesis using run Inr res by (intro unrecorded [of sim]) auto
    next
      case dup
      then show thesis using run Inr res by (intro stuck [of sim]) auto
    next
      case fresh
      let ?d = "\<lparr>tx_slot = slot b, tx_tx = t,
          tx_meta = Some \<lparr>fee = 0, pre_balances = map (lamports \<circ> snd) (pre_accounts sim),
             post_balances = map (lamports \<circ> snd) (post_accounts sim), log_messages = Some (logs sim),
             meta_err = None, compute_units_consumed = Some (units_consumed sim)\<rparr>,
          block_time = Some (clock_timestamp R)\<rparr>"
      show thesis
        by (rule recorded [of sim ?d]) (use run Inr res fresh in \<open>auto simp: Let_def\<close>)
    qed
  qed
qed

text \<open>
  C11. A transaction commits all of its accounts or none.  When \<open>process_tx\<close> returns a signature,
  the simulation succeeded and every account of the message holds its post-state; the history gained
  exactly this signature at the slot that was current, after which a new slot begins, except for an
  upgradeable-loader write, which commits the accounts and leaves no history entry and no new slot.
  When it fails, history, slot, height and hash are as before, and the accounts are as before or,
  after a successful simulation, all committed; the second happens only for a signature the history
  already has, refused after the accounts were committed, and for a panic.
\<close>

theorem transaction_commits_atomically:
  "(process_tx R t b = (b', Inr s) \<longrightarrow>
      s = signature t
    \<and> (\<exists>sim. simulate_tx R b t = Inr sim \<and> sim_result sim = Inr ()
         \<and> accounts b' = accounts b ++ map_of (rev (post_accounts sim)))
    \<and> (is_loader_write R (msg t) (instructions (msg t)) = Some True \<and> txs b' = txs b \<and> slot b' = slot b
         \<and> latest_blockhash b' = latest_blockhash b
       \<or> is_loader_write R (msg t) (instructions (msg t)) = Some False \<and> txs b s = None
         \<and> (\<exists>d. txs b' = (txs b)(s \<mapsto> d) \<and> tx_slot d = slot b \<and> tx_tx d = t
              \<and> (\<exists>m. tx_meta d = Some m \<and> meta_err m = None))
         \<and> slot b' = slot b + 1 \<and> latest_blockhash b' = hasher R (key_bytes (latest_blockhash b))))
   \<and> (process_tx R t b = (b', Inl (Err e)) \<and> e \<noteq> AlreadyProcessed \<longrightarrow> b' = b)
   \<and> (process_tx R t b = (b', Inl f) \<longrightarrow>
        txs b' = txs b \<and> slot b' = slot b \<and> block_height b' = block_height b
      \<and> latest_blockhash b' = latest_blockhash b
      \<and> (b' = b
         \<or> (f = Panic \<or> f = Err AlreadyProcessed \<and> txs b (signature t) \<noteq> None)
           \<and> (\<exists>sim. simulate_tx R b t = Inr sim \<and> sim_result sim = Inr ()
                \<and> accounts b' = accounts b ++ map_of (rev (post_accounts sim)))))"
proof (intro conjI impI)
  assume "process_tx R t b = (b', Inr s)"
  then show "s = signature t" by (rule process_tx_cases) auto
next
  assume "process_tx R t b = (b', Inr s)"
  then show "\<exists>sim. simulate_tx R b t = Inr sim \<and> sim_result sim = Inr ()
         \<and> accounts b' = accounts b ++ map_of (rev (post_accounts sim))"
    by (rule process_tx_cases) (auto simp: accounts_set_accounts new_slot_def)
next
  assume "process_tx R t b = (b', Inr s)"
  then show "is_loader_write R (msg t) (instructions (msg t)) = Some True \<and> txs b' = txs b \<and> slot b' = slot b
         \<and> latest_blockhash b' = latest_blockhash b
       \<or> is_loader_write R (msg t) (instructions (msg t)) = Some False \<and> txs b s = None
         \<and> (\<exists>d. txs b' = (txs b)(s \<mapsto> d) \<and> tx_slot d = slot b \<and> tx_tx d = t
              \<and> (\<exists>m. tx_meta d = Some m \<and> meta_err m = None))
         \<and> slot b' = slot b + 1 \<and> latest_blockhash b' = hasher R (key_bytes (latest_blockhash b))"
    by (rule process_tx_cases) (auto simp: new_slot_def)
next
  assume "process_tx R t b = (b', Inl (Err e)) \<and> e \<noteq> AlreadyProcessed"
  then have "process_tx R t b = (b', Inl (Err e))" "e \<noteq> AlreadyProcessed" by simp_all
  then show "b' = b" by - (rule process_tx_cases, assumption, auto)
next
  assume "process_tx R t b = (b', Inl f)"
  then show "txs b' = txs b" "slot b' = slot b" "block_height b' = block_height b"
    "latest_blockhash b' = latest_blockhash b"
    by (rule process_tx_cases; simp)+
next
  assume "process_tx R t b = (b', Inl f)"
  then show "b' = b
         \<or> (f = Panic \<or> f = Err AlreadyProcessed \<and> txs b (signature t) \<noteq> None)
           \<and> (\<exists>sim. simulate_tx R b t = Inr sim \<and> sim_result sim = Inr ()
                \<and> accounts b' = accounts b ++ map_of (rev (post_accounts sim)))"
    by (rule process_tx_cases) (auto simp: accounts_set_accounts)
qed

text \<open>
  The duplicate check comes too late: a transaction whose signature is already in the
  history is refused with \<open>AlreadyProcessed\<close>, but its effects on the accounts have been
  committed once more.
\<close>

theorem duplicate_commits_again:
  assumes "simulate_tx R b t = Inr sim" and "sim_result sim = Inr ()"
    and "is_loader_write R (msg t) (instructions (msg t)) = Some False" and "txs b (signature t) = Some d"
  shows "\<exists>b'. process_tx R t b = (b', Inl (Err AlreadyProcessed))
    \<and> accounts b' = accounts b ++ map_of (rev (post_accounts sim)) \<and> txs b' = txs b \<and> slot b' = slot b"
  using assms by (auto simp: process_tx_def save_tx_def accounts_set_accounts)

lemma sample_simulates:
  "\<exists>sim. simulate_tx sample_runtime (sample_bank\<lparr>accounts := sample_accounts x y, txs := h, slot := n\<rparr>) (sample_tx [[2]]) = Inr sim
     \<and> sim_result sim = Inr ()
     \<and> map_of (rev (post_accounts sim)) 1 = Some (new_account (x - 1) 0 0)"
  if "x \<noteq> 0"
  using that
  by (simp add: simulate_tx_def load_tx_def load_tx_accounts_def load_account_def sample_defs get_account_default_def
      load_executable_accounts_def load_chain.simps validate_fee_payer_def get_system_account_kind_def
      new_account_def execute_loaded_tx_def process_message_def process_one_def fix_instructions_sysvar_def
      system_program_id_def as_index_def default_account_def Let_def)

lemma sample_not_write: "is_loader_write sample_runtime (msg (sample_tx [[2]])) (instructions (msg (sample_tx [[2]]))) = Some False"
  by (simp add: sample_defs)

definition sample_record :: tx_data where
  "sample_record = \<lparr>tx_slot = 0, tx_tx = sample_tx [[2]], tx_meta = None, block_time = None\<rparr>"

theorem duplicate_commits_again_witness:
  "\<exists>b'. process_tx sample_runtime (sample_tx [[2]])
        (sample_bank\<lparr>accounts := sample_accounts 99 6, txs := [7 \<mapsto> sample_record], slot := 1\<rparr>)
      = (b', Inl (Err AlreadyProcessed))
    \<and> accounts b' 1 = Some (new_account 98 0 0)"
proof -
  let ?b = "sample_bank\<lparr>accounts := sample_accounts 99 6, txs := [7 \<mapsto> sample_record], slot := 1\<rparr>"
  obtain sim where sim: "simulate_tx sample_runtime ?b (sample_tx [[2]]) = Inr sim" "sim_result sim = Inr ()"
    and post: "map_of (rev (post_accounts sim)) 1 = Some (new_account 98 0 0)"
    using sample_simulates [where x = 99 and y = 6 and h = "[7 \<mapsto> sample_record]" and n = 1] by auto
  have "txs ?b (signature (sample_tx [[2]])) = Some sample_record" by (simp add: sample_tx_def)
  from duplicate_commits_again [OF sim sample_not_write this] post show ?thesis
    by (auto simp: map_add_def)
qed

theorem transaction_commits_atomically_witness:
  "\<exists>b' s. process_tx sample_runtime (sample_tx [[2]]) (sample_bank\<lparr>accounts := sample_accounts 100 5, txs := Map.empty, slot := 0\<rparr>) = (b', Inr s)
     \<and> s = 7 \<and> slot b' = 1"
proof -
  let ?b = "sample_bank\<lparr>accounts := sample_accounts 100 5, txs := Map.empty, slot := 0\<rparr>"
  obtain sim where "simulate_tx sample_runtime ?b (sample_tx [[2]]) = Inr sim" "sim_result sim = Inr ()"
    using sample_simulates [where x = 100 and y = 5 and h = Map.empty and n = 0] by auto
  then obtain b' where run: "process_tx sample_runtime (sample_tx [[2]]) ?b = (b', Inr (signature (sample_tx [[2]])))"
    using sample_not_write by (auto simp: process_tx_def save_tx_def Let_def)
  from transaction_commits_atomically [of sample_runtime "sample_tx [[2]]" ?b b' "signature (sample_tx [[2]])"]
  show ?thesis using run sample_not_write by (auto simp: sample_tx_def)
qed

section \<open>The ledger\<close>

datatype bank_op = Send tx | Airdrop pubkey u64

definition bank_step :: "'c runtime \<Rightarrow> bank_op \<Rightarrow> bank \<Rightarrow> bank \<times> (signature, tx_error) res" where
  "bank_step R op b = (case op of Send t \<Rightarrow> process_tx R t b | Airdrop k l \<Rightarrow> airdrop R k l b)"

definition ledger :: "'c runtime \<Rightarrow> bank \<Rightarrow> bool" where
  "ledger R b \<longleftrightarrow>
     block_height b = slot b
   \<and> latest_blockhash b = ((\<lambda>h. hasher R (key_bytes h)) ^^ unat (slot b)) (genesis_hash b)
   \<and> (\<forall>s d. txs b s = Some d \<longrightarrow> tx_slot d < slot b)
   \<and> (\<forall>s s' d d'. txs b s = Some d \<and> txs b s' = Some d' \<and> tx_slot d = tx_slot d' \<longrightarrow> s = s')"

lemma ledger_set_accounts: "ledger R b \<Longrightarrow> ledger R (set_accounts as b)"
  by (simp add: ledger_def)

lemma ledger_new_slot:
  assumes "ledger R b" and "unat (slot b) + 1 < 2 ^ 64" and "tx_slot d = slot b" and "txs b s = None"
  shows "ledger R (new_slot R (b\<lparr>txs := (txs b)(s \<mapsto> d)\<rparr>))"
proof -
  have n: "unat (slot b + 1) = Suc (unat (slot b))"
    using assms(2) unat_add_nowrap [of "slot b" 1] by simp
  have lt: "x < slot b + 1 \<longleftrightarrow> x \<le> slot b" for x
    by (simp add: word_less_nat_alt word_le_nat_alt n less_Suc_eq_le)
  show ?thesis
    using assms(1,3,4)
    by (auto simp: ledger_def new_slot_def n lt split: if_splits dest: order_less_imp_le)
       (metis order_less_irrefl)+
qed

lemma process_tx_ledger:
  assumes "ledger R b" and "unat (slot b) + 1 < 2 ^ 64" and "process_tx R t b = (b', r)"
  shows "ledger R b' \<and> unat (slot b') \<le> unat (slot b) + 1"
  using assms(3)
proof (cases rule: process_tx_cases)
  case (recorded sim d)
  have "ledger R b'"
    using ledger_new_slot [OF ledger_set_accounts [OF assms(1)], where d = d and s = "signature t"]
      recorded assms(2) by simp
  moreover have "unat (slot b + 1) = unat (slot b) + 1"
    using assms(2) unat_add_nowrap [of "slot b" 1] by simp
  ultimately show ?thesis using recorded by (simp add: new_slot_def)
qed (use assms(1) ledger_set_accounts in auto)

lemma bank_step_ledger:
  assumes "ledger R b" and "unat (slot b) + 1 < 2 ^ 64"
  shows "ledger R (fst (bank_step R op b)) \<and> unat (slot (fst (bank_step R op b))) \<le> unat (slot b) + 1"
proof (cases op)
  case (Send t)
  then show ?thesis
    using process_tx_ledger [OF assms, of t] by (cases "process_tx R t b") (auto simp: bank_step_def)
next
  case (Airdrop k l)
  show ?thesis
  proof (cases "airdrop_tx R (airdrop_key b) k l (latest_blockhash b)")
    case (Inl e)
    then show ?thesis using assms by (simp add: bank_step_def Airdrop airdrop_def)
  next
    case (Inr t)
    then show ?thesis
      using process_tx_ledger [OF assms, of t]
      by (cases "process_tx R t b") (auto simp: bank_step_def Airdrop airdrop_def)
  qed
qed

lemma run_ledger:
  "ledger R b \<Longrightarrow> unat (slot b) + length ops < 2 ^ 64 \<Longrightarrow>
     ledger R (fst (run_steps (bank_step R) ops b))
   \<and> unat (slot (fst (run_steps (bank_step R) ops b))) \<le> unat (slot b) + length ops"
proof (induction ops arbitrary: b)
  case (Cons op ops)
  have "ledger R (fst (bank_step R op b)) \<and> unat (slot (fst (bank_step R op b))) \<le> unat (slot b) + 1"
    using Cons.prems by (intro bank_step_ledger) auto
  then show ?case
    using Cons.IH [of "fst (bank_step R op b)"] Cons.prems by (auto simp: Let_def)
qed simp

lemma new_bank_ledger: "ledger R (new_bank R keypair None) \<and> slot (new_bank R keypair None) = 0"
  by (simp add: new_bank_def default_bank_def set_account_def ledger_def Let_def)

text \<open>
  C12. From a new bank, through any transactions and airdrops, the ledger is a chain: the
  block height is the slot, the latest blockhash is the genesis hash hashed once per slot, and
  every transaction of the history has a slot of its own in the past.
\<close>

theorem ledger_is_a_chain:
  assumes "length ops < 2 ^ 64"
  shows "let b = fst (run_steps (bank_step R) ops (new_bank R keypair None)) in
      block_height b = slot b
    \<and> latest_blockhash b = ((\<lambda>h. hasher R (key_bytes h)) ^^ unat (slot b)) (genesis_hash b)
    \<and> (\<forall>s d. txs b s = Some d \<longrightarrow> tx_slot d < slot b)
    \<and> (\<forall>s s' d d'. txs b s = Some d \<and> txs b s' = Some d' \<and> tx_slot d = tx_slot d' \<longrightarrow> s = s')"
proof -
  have "ledger R (fst (run_steps (bank_step R) ops (new_bank R keypair None)))"
    using run_ledger [of R "new_bank R keypair None" ops] new_bank_ledger [of R keypair] assms by simp
  then show ?thesis by (simp add: ledger_def Let_def)
qed

theorem ledger_is_a_chain_witness:
  "let b = fst (run_steps (bank_step sample_runtime) [Send (sample_tx [[2]])] (new_bank sample_runtime 9 None))
   in block_height b = slot b"
  using ledger_is_a_chain [of "[Send (sample_tx [[2]])]" sample_runtime 9] by (simp add: Let_def)

text \<open>The RPC's genesis hash is the latest blockhash, which moves with every recorded transaction.\<close>

lemma genesis_hash_moves:
  assumes "hasher R (key_bytes (latest_blockhash b)) \<noteq> latest_blockhash b"
  shows "get_genesis_hash (new_slot R b) \<noteq> get_genesis_hash b"
  using assms by (simp add: get_genesis_hash_def new_slot_def)

end
