(* ===== verification/Playnet_Rpc.thy ===== *)
theory Playnet_Rpc
  imports Playnet_Bank
begin

text \<open>
  The JSON-RPC face of the in-browser runtime: \<open>wasm/playnet/src/rpc.rs\<close>, its result types
  \<open>types.rs\<close>, \<open>utils.rs\<close>, the constructor and save data of \<open>playnet.rs\<close> and the account and keypair
  adapters of \<open>serde.rs\<close>.  Text encodings, JSON, the sanitiser and the signature checks of the
  SDK are the fields of \<open>rpc_sdk\<close>.  A panic is the left summand \<open>Inl ()\<close>.
\<close>

section \<open>The SDK and the encodings\<close>

datatype transaction_version = Legacy | Number u8

text \<open>
  What \<open>serde_json\<close> reads and writes for a bank.  The accounts are in the order the hash map
  iterates, their keys as strings.
\<close>

record saved_bank =
  saved_accounts :: "(string \<times> account) list"
  saved_slot :: u64
  saved_block_height :: u64
  saved_genesis :: hash
  saved_blockhash :: hash
  saved_keypair :: bytes

record ('v, 'm) rpc_sdk =
  parse_pubkey :: "string \<Rightarrow> pubkey option"
  show_pubkey :: "pubkey \<Rightarrow> string"
  parse_signature :: "string \<Rightarrow> signature option"
  show_signature :: "signature \<Rightarrow> string"
  show_hash :: "hash \<Rightarrow> string"
  show_error :: "tx_error \<Rightarrow> string"
  parse_transaction :: "bytes \<Rightarrow> 'v option" \<comment> \<open>\<open>serde_json::from_slice\<close>, then \<open>VersionedTransaction::from\<close>\<close>
  parse_message :: "bytes \<Rightarrow> 'm option"
  sanitise_message :: "'m \<Rightarrow> message option"
  try_create :: "'v \<Rightarrow> tx_error + tx" \<comment> \<open>\<open>SanitizedTransaction::try_create\<close>\<close>
  verify_signatures :: "tx \<Rightarrow> tx_error + unit"
  verify_precompiles :: "tx \<Rightarrow> tx_error + unit" \<comment> \<open>under the default feature set\<close>
  version_of :: "tx \<Rightarrow> transaction_version"
  encode_tx :: "tx \<Rightarrow> string" \<comment> \<open>base64 of the bincode\<close>
  parse_bank :: "string \<Rightarrow> saved_bank option"
  print_bank :: "saved_bank \<Rightarrow> string"
  keypair_bytes :: "pubkey \<Rightarrow> bytes" \<comment> \<open>of the keypair with this public key\<close>
  keypair_of_bytes :: "bytes \<Rightarrow> pubkey option"

definition unwrap :: "'a option \<Rightarrow> unit + 'a" where
  "unwrap x = ok_or x ()"

section \<open>Results\<close>

record wasm_account =
  wa_lamports :: u64
  wa_data :: bytes
  wa_owner :: pubkey
  wa_executable :: bool
  wa_rent_epoch :: u64

definition wasm_account_of :: "account \<Rightarrow> wasm_account" where
  "wasm_account_of a =
     \<lparr>wa_lamports = lamports a, wa_data = data a, wa_owner = owner a, wa_executable = executable a,
      wa_rent_epoch = rent_epoch a\<rparr>"

record latest_blockhash_result =
  result_blockhash :: hash
  last_valid_block_height :: u64

definition blockhash_text :: "('v, 'm) rpc_sdk \<Rightarrow> latest_blockhash_result \<Rightarrow> string" where
  "blockhash_text S r = show_hash S (result_blockhash r)"

definition result_error :: "('v, 'm) rpc_sdk \<Rightarrow> tx_error + 'a \<Rightarrow> string option" where
  "result_error S r = (case r of Inr _ \<Rightarrow> None | Inl e \<Rightarrow> Some (show_error S e))"

definition simulation_failure :: "('v, 'm) rpc_sdk \<Rightarrow> simulation \<Rightarrow> string option" where
  "simulation_failure S r = result_error S (sim_result r)"

type_synonym send_result = "tx_error + string"

definition result_tx_hash :: "send_result \<Rightarrow> unit + string" where
  "result_tx_hash r = (case r of Inl _ \<Rightarrow> Inl () | Inr h \<Rightarrow> Inr h)"

datatype commitment = Processed | Confirmed | Finalized

record signature_status =
  confirmation_status :: "commitment option"
  confirmations :: "nat option"
  status_slot :: u64
  status_err :: "tx_error option"

definition status_error :: "('v, 'm) rpc_sdk \<Rightarrow> signature_status \<Rightarrow> string option" where
  "status_error S s = map_option (show_error S) (status_err s)"

text \<open>\<open>GetTransactionResult\<close>: every accessor but \<open>exists\<close> unwraps.\<close>

type_synonym get_transaction_result = "tx_data option"

definition result_exists :: "get_transaction_result \<Rightarrow> bool" where
  "result_exists r = (r \<noteq> None)"

definition result_block_time :: "get_transaction_result \<Rightarrow> unit + i64 option" where
  "result_block_time r = rbind (unwrap r) (\<lambda>d. Inr (block_time d))"

definition result_version :: "('v, 'm) rpc_sdk \<Rightarrow> get_transaction_result \<Rightarrow> unit + u8 option" where
  "result_version S r =
     rbind (unwrap r) (\<lambda>d. Inr (case version_of S (tx_tx d) of Legacy \<Rightarrow> None | Number v \<Rightarrow> Some v))"

definition result_meta :: "get_transaction_result \<Rightarrow> unit + confirmed_meta" where
  "result_meta r = rbind (unwrap r) (\<lambda>d. unwrap (tx_meta d))"

definition result_transaction :: "('v, 'm) rpc_sdk \<Rightarrow> get_transaction_result \<Rightarrow> unit + string" where
  "result_transaction S r = rbind (unwrap r) (\<lambda>d. Inr (encode_tx S (tx_tx d)))"

definition meta_error :: "('v, 'm) rpc_sdk \<Rightarrow> confirmed_meta \<Rightarrow> string option" where
  "meta_error S m = map_option (show_error S) (meta_err m)"

section \<open>Requests\<close>

text \<open>\<open>utils.rs\<close>: a byte string that is no transaction panics; one that fails to sanitise is an error.\<close>

definition get_sanitized_tx_from_serialized_tx ::
  "('v, 'm) rpc_sdk \<Rightarrow> bytes \<Rightarrow> unit + (tx_error + tx)" where
  "get_sanitized_tx_from_serialized_tx S serialized =
     rbind (unwrap (parse_transaction S serialized)) (\<lambda>v. Inr (try_create S v))"

definition get_account_info :: "('v, 'm) rpc_sdk \<Rightarrow> bank \<Rightarrow> string \<Rightarrow> unit + wasm_account" where
  "get_account_info S b key =
     rbind (unwrap (parse_pubkey S key)) (\<lambda>k. Inr (wasm_account_of (get_account_default b k)))"

definition rpc_genesis_hash :: "('v, 'm) rpc_sdk \<Rightarrow> bank \<Rightarrow> string" where
  "rpc_genesis_hash S b = show_hash S (get_genesis_hash b)"

definition rpc_latest_blockhash :: "bank \<Rightarrow> latest_blockhash_result" where
  "rpc_latest_blockhash b =
     \<lparr>result_blockhash = get_latest_blockhash b, last_valid_block_height = block_height b\<rparr>"

definition rpc_fee_for_message :: "('v, 'm) rpc_sdk \<Rightarrow> bytes \<Rightarrow> unit + u64 option" where
  "rpc_fee_for_message S serialized =
     rbind (unwrap (parse_message S serialized)) (\<lambda>m.
     rbind (unwrap (sanitise_message S m)) (\<lambda>m. Inr (get_fee_for_message m)))"

definition simulate_transaction ::
  "'c runtime \<Rightarrow> ('v, 'm) rpc_sdk \<Rightarrow> bank \<Rightarrow> bytes \<Rightarrow> unit + simulation" where
  "simulate_transaction R S b serialized =
     rbind (get_sanitized_tx_from_serialized_tx S serialized) (\<lambda>r.
     (case r of Inl e \<Rightarrow> Inr (simulation_error e) | Inr t \<Rightarrow> simulate_tx R b t))"

definition verify_transaction :: "('v, 'm) rpc_sdk \<Rightarrow> tx \<Rightarrow> tx_error + unit" where
  "verify_transaction S t = rbind (verify_signatures S t) (\<lambda>_. verify_precompiles S t)"

definition send_result_of :: "('v, 'm) rpc_sdk \<Rightarrow> (signature, tx_error) res \<Rightarrow> unit + send_result" where
  "send_result_of S r =
     (case r of
        Inl Panic \<Rightarrow> Inl ()
      | Inl (Err e) \<Rightarrow> Inr (Inl e)
      | Inr s \<Rightarrow> Inr (Inr (show_signature S s)))"

definition send_transaction ::
  "'c runtime \<Rightarrow> ('v, 'm) rpc_sdk \<Rightarrow> bytes \<Rightarrow> bank \<Rightarrow> bank \<times> (unit + send_result)" where
  "send_transaction R S serialized b =
     (case get_sanitized_tx_from_serialized_tx S serialized of
        Inl _ \<Rightarrow> (b, Inl ())
      | Inr (Inl e) \<Rightarrow> (b, Inr (Inl e))
      | Inr (Inr t) \<Rightarrow>
         (case verify_transaction S t of
            Inl e \<Rightarrow> (b, Inr (Inl e))
          | Inr _ \<Rightarrow> (let (b, r) = process_tx R t b in (b, send_result_of S r))))"

definition request_airdrop ::
  "'c runtime \<Rightarrow> ('v, 'm) rpc_sdk \<Rightarrow> string \<Rightarrow> u64 \<Rightarrow> bank \<Rightarrow> bank \<times> (unit + send_result)" where
  "request_airdrop R S key l b =
     (case parse_pubkey S key of
        None \<Rightarrow> (b, Inl ())
      | Some k \<Rightarrow> (let (b, r) = airdrop R k l b in (b, send_result_of S r)))"

definition get_transaction ::
  "('v, 'm) rpc_sdk \<Rightarrow> bank \<Rightarrow> string \<Rightarrow> unit + get_transaction_result" where
  "get_transaction S b sig = rbind (unwrap (parse_signature S sig)) (\<lambda>s. Inr (txs b s))"

text \<open>\<open>current_slot - tx_data.get_slot()\<close> panics below zero.\<close>

definition signature_status_of :: "bank \<Rightarrow> signature \<Rightarrow> unit + signature_status option" where
  "signature_status_of b sig =
     (case txs b sig of
        None \<Rightarrow> Inr None
      | Some d \<Rightarrow>
         (case checked_sub (slot b) (tx_slot d) of
            None \<Rightarrow> Inl ()
          | Some n \<Rightarrow>
              Inr (Some \<lparr>confirmation_status = Some (if n = 0 then Processed else if n < 32 then Confirmed else Finalized),
                    confirmations = Some (unat n), status_slot = tx_slot d,
                    status_err = (case tx_meta d of None \<Rightarrow> None | Some m \<Rightarrow> meta_err m)\<rparr>)))"

text \<open>\<open>getSignatureStatuses\<close>: a value of the list that is no string, or no signature, panics.\<close>

fun get_signature_statuses ::
  "('v, 'm) rpc_sdk \<Rightarrow> bank \<Rightarrow> string option list \<Rightarrow> unit + signature_status option list" where
  "get_signature_statuses S b [] = Inr []"
| "get_signature_statuses S b (js # rest) =
     rbind (unwrap js) (\<lambda>text.
     rbind (unwrap (parse_signature S text)) (\<lambda>sig.
     rbind (signature_status_of b sig) (\<lambda>st.
     rbind (get_signature_statuses S b rest) (\<lambda>sts. Inr (st # sts)))))"

section \<open>Saving and restoring\<close>

definition serialize_accounts ::
  "('v, 'm) rpc_sdk \<Rightarrow> tx_account list \<Rightarrow> (string \<times> account) list" where
  "serialize_accounts S entries = map (\<lambda>(k, a). (show_pubkey S k, a)) entries"

fun deserialize_accounts ::
  "('v, 'm) rpc_sdk \<Rightarrow> (string \<times> account) list \<Rightarrow> (pubkey \<Rightarrow> account option)
     \<Rightarrow> unit + (pubkey \<Rightarrow> account option)" where
  "deserialize_accounts S [] hm = Inr hm"
| "deserialize_accounts S ((s, a) # rest) hm =
     rbind (unwrap (parse_pubkey S s)) (\<lambda>k. deserialize_accounts S rest (hm(k \<mapsto> a)))"

text \<open>\<open>entries\<close> is the bank's account map in its iteration order; \<open>txs\<close> and the runtime parts are skipped.\<close>

definition save_bank :: "('v, 'm) rpc_sdk \<Rightarrow> tx_account list \<Rightarrow> bank \<Rightarrow> saved_bank" where
  "save_bank S entries b =
     \<lparr>saved_accounts = serialize_accounts S entries, saved_slot = slot b, saved_block_height = block_height b,
      saved_genesis = genesis_hash b, saved_blockhash = latest_blockhash b,
      saved_keypair = keypair_bytes S (airdrop_key b)\<rparr>"

definition get_save_data :: "('v, 'm) rpc_sdk \<Rightarrow> tx_account list \<Rightarrow> bank \<Rightarrow> string" where
  "get_save_data S entries b = print_bank S (save_bank S entries b)"

definition restore_bank :: "('v, 'm) rpc_sdk \<Rightarrow> saved_bank \<Rightarrow> unit + bank" where
  "restore_bank S saved =
     rbind (deserialize_accounts S (saved_accounts saved) Map.empty) (\<lambda>as.
     rbind (unwrap (keypair_of_bytes S (saved_keypair saved))) (\<lambda>k.
     Inr \<lparr>accounts = as, txs = Map.empty, slot = saved_slot saved, block_height = saved_block_height saved,
          genesis_hash = saved_genesis saved, latest_blockhash = saved_blockhash saved, airdrop_key = k\<rparr>))"

text \<open>\<open>Playnet::new\<close>: save data that does not parse starts a fresh bank.\<close>

definition playnet_new ::
  "'c runtime \<Rightarrow> ('v, 'm) rpc_sdk \<Rightarrow> pubkey \<Rightarrow> string option \<Rightarrow> unit + bank" where
  "playnet_new R S keypair maybe_bank_string =
     (case Option.bind maybe_bank_string (parse_bank S) of
        None \<Rightarrow> Inr (new_bank R keypair None)
      | Some saved \<Rightarrow> rbind (restore_bank S saved) (\<lambda>b. Inr (new_bank R keypair (Some b))))"

section \<open>Statuses on a ledger\<close>

lemma unwrap_simps [simp]: "unwrap None = Inl ()" "unwrap (Some x) = Inr x"
  by (simp_all add: unwrap_def)

text \<open>
  Asking for the status of a signature never panics on a ledger: an unknown signature has
  none, and a known one is reported with its slot, at least one confirmation, and never as
  merely processed; it is finalized exactly from 32 confirmations on.
\<close>

theorem signature_status_confirmed:
  assumes "ledger R b"
  shows "(txs b s = None \<longrightarrow> signature_status_of b s = Inr None)
    \<and> (\<forall>d. txs b s = Some d \<longrightarrow>
        (\<exists>n. 0 < n \<and> unat (slot b) = unat (tx_slot d) + n
         \<and> signature_status_of b s = Inr (Some
             \<lparr>confirmation_status = Some (if n < 32 then Confirmed else Finalized), confirmations = Some n,
              status_slot = tx_slot d, status_err = Option.bind (tx_meta d) meta_err\<rparr>)))"
proof (intro conjI allI impI)
  fix d assume d: "txs b s = Some d"
  then have lt: "unat (tx_slot d) < unat (slot b)"
    using assms by (auto simp: ledger_def word_less_nat_alt)
  let ?n = "slot b - tx_slot d"
  have n: "unat ?n = unat (slot b) - unat (tx_slot d)"
    using lt by (simp add: unat_sub word_le_nat_alt)
  then have "?n \<noteq> 0" using lt by (auto simp: word_unat_eq_iff)
  moreover have "?n < 32 \<longleftrightarrow> unat ?n < 32" by (simp add: word_less_nat_alt)
  moreover have "checked_sub (slot b) (tx_slot d) = Some ?n"
    using lt by (simp add: checked_sub_def word_le_nat_alt)
  ultimately show "\<exists>n. 0 < n \<and> unat (slot b) = unat (tx_slot d) + n
         \<and> signature_status_of b s = Inr (Some
             \<lparr>confirmation_status = Some (if n < 32 then Confirmed else Finalized), confirmations = Some n,
              status_slot = tx_slot d, status_err = Option.bind (tx_meta d) meta_err\<rparr>)"
    using d lt n by (intro exI [of _ "unat ?n"]) (auto simp: signature_status_of_def split: option.splits)
qed (simp add: signature_status_of_def)

theorem signature_status_confirmed_witness: "signature_status_of (new_bank sample_runtime 9 None) 7 = Inr None"
  using signature_status_confirmed [OF conjunct1 [OF new_bank_ledger [of sample_runtime 9]], of 7]
  by (simp add: new_bank_def default_bank_def set_account_def Let_def)

section \<open>What a sender sees\<close>

lemma send_transaction_accepted:
  assumes "send_transaction R S raw b = (b', Inr (Inr h))"
  obtains v t where "parse_transaction S raw = Some v" and "try_create S v = Inr t"
    and "verify_signatures S t = Inr ()" and "verify_precompiles S t = Inr ()"
    and "process_tx R t b = (b', Inr (signature t))" and "h = show_signature S (signature t)"
proof -
  from assms obtain v t where t: "parse_transaction S raw = Some v" "try_create S v = Inr t"
      "verify_transaction S t = Inr ()"
    and run: "(let (b, r) = process_tx R t b in (b, send_result_of S r)) = (b', Inr (Inr h))"
    by (cases "parse_transaction S raw")
      (auto simp: send_transaction_def get_sanitized_tx_from_serialized_tx_def split: sum.splits)
  obtain r where r: "process_tx R t b = (b', r)" "send_result_of S r = Inr (Inr h)"
    using run by (cases "process_tx R t b") auto
  then obtain s where s: "r = Inr s" "h = show_signature S s"
    by (auto simp: send_result_of_def split: sum.splits fault.splits)
  have "s = signature t"
    using r(1) s(1) by (auto elim: process_tx_cases)
  then show thesis
    using that t r(1) s by (auto simp: verify_transaction_def rbind_Inr_iff)
qed

lemma recorded_status:
  assumes "txs b' s = Some d" and "slot b' = slot b + 1" and "tx_slot d = slot b"
    and "tx_meta d = Some m" and "meta_err m = None" and "unat (slot b) + 1 < 2 ^ 64"
  shows "signature_status_of b' s
     = Inr (Some \<lparr>confirmation_status = Some Confirmed, confirmations = Some 1, status_slot = slot b,
         status_err = None\<rparr>)"
proof -
  have "unat (slot b + 1) = unat (slot b) + 1" using assms(6) unat_add_nowrap [of "slot b" 1] by simp
  then have "slot b \<le> slot b + 1" by (simp add: word_le_nat_alt)
  then show ?thesis using assms(1-5) by (simp add: signature_status_of_def checked_sub_def)
qed

text \<open>
  C31. A sender can follow what it sent, unless it writes to the upgradeable loader.  When
  \<open>sendTransaction\<close> answers with a hash, the transaction was well formed and its signatures and
  precompiles verified.  A transaction that writes to the upgradeable loader is not recorded: the
  history is left as it was.  Any other is: \<open>getTransaction\<close> on that hash then has the transaction,
  without error, none of its accessors panics, and \<open>getSignatureStatuses\<close> reports it confirmed once
  at the slot it was sent in.  The slot counter must have room for one more slot, and the text of a
  signature must parse back.
\<close>

theorem sent_transaction_reported:
  assumes "send_transaction R S raw b = (b', Inr (Inr h))" and "unat (slot b) + 1 < 2 ^ 64"
    and "\<And>s. parse_signature S (show_signature S s) = Some s"
  shows "\<exists>v t. parse_transaction S raw = Some v \<and> try_create S v = Inr t
    \<and> verify_signatures S t = Inr () \<and> verify_precompiles S t = Inr ()
    \<and> (if is_loader_write R (msg t) (instructions (msg t)) = Some True then txs b' = txs b
       else txs b (signature t) = None
        \<and> (\<exists>d m. get_transaction S b' h = Inr (Some d) \<and> result_exists (Some d) \<and> tx_tx d = t
             \<and> result_block_time (Some d) = Inr (Some (clock_timestamp R))
             \<and> result_transaction S (Some d) = Inr (encode_tx S t)
             \<and> result_meta (Some d) = Inr m \<and> meta_error S m = None \<and> fee m = 0)
        \<and> get_signature_statuses S b' [Some h]
            = Inr [Some \<lparr>confirmation_status = Some Confirmed, confirmations = Some 1,
                         status_slot = slot b, status_err = None\<rparr>])"
  using assms(1)
proof (rule send_transaction_accepted)
  fix v t
  assume t: "parse_transaction S raw = Some v" "try_create S v = Inr t"
      "verify_signatures S t = Inr ()" "verify_precompiles S t = Inr ()"
    and run: "process_tx R t b = (b', Inr (signature t))" and h: "h = show_signature S (signature t)"
  show ?thesis
    using run
  proof (cases rule: process_tx_cases)
    case (recorded sim d)
    then obtain m where m: "tx_meta d = Some m" "meta_err m = None" "fee m = 0" by blast
    have b': "txs b' (signature t) = Some d" "slot b' = slot b + 1"
      using recorded by (simp_all add: new_slot_def)
    have "get_transaction S b' h = Inr (Some d)"
      using b' assms(3) by (simp add: get_transaction_def h)
    moreover have "get_signature_statuses S b' [Some h]
        = Inr [Some \<lparr>confirmation_status = Some Confirmed, confirmations = Some 1,
                     status_slot = slot b, status_err = None\<rparr>]"
      using recorded_status [OF b' recorded(5) m(1,2) assms(2)] assms(3) by (simp add: h)
    ultimately show ?thesis
      using t recorded m
      by (simp add: result_exists_def result_block_time_def result_transaction_def result_meta_def meta_error_def)
  qed (use t in auto)
qed

section \<open>Save data\<close>

text \<open>Reading back what \<open>to_string\<close> wrote makes the text of a key injective.\<close>

lemma show_pubkey_inj:
  assumes "\<And>k. parse_pubkey S (show_pubkey S k) = Some k"
  shows "show_pubkey S j = show_pubkey S k \<longleftrightarrow> j = k"
  by (metis assms option.inject)

lemma deserialize_accounts_spec:
  assumes "\<And>k. parse_pubkey S (show_pubkey S k) = Some k"
    and "fst ` set ys \<subseteq> range (show_pubkey S)" and "distinct (map fst ys)"
  shows "deserialize_accounts S ys hm
     = Inr (\<lambda>k. case map_of ys (show_pubkey S k) of None \<Rightarrow> hm k | Some a \<Rightarrow> Some a)"
  using assms(2,3)
proof (induction ys arbitrary: hm)
  case (Cons y ys)
  obtain k a where y: "y = (show_pubkey S k, a)" using Cons.prems(1) by (cases y) auto
  have fresh: "map_of ys (show_pubkey S k) = None"
    using Cons.prems(2) by (simp add: y map_of_eq_None_iff)
  have "deserialize_accounts S ys (hm(k \<mapsto> a))
      = Inr (\<lambda>j. case map_of ys (show_pubkey S j) of None \<Rightarrow> (hm(k \<mapsto> a)) j | Some a \<Rightarrow> Some a)"
    using Cons.prems by (intro Cons.IH) (auto simp: y)
  moreover have "(case map_of ys (show_pubkey S j) of None \<Rightarrow> (hm(k \<mapsto> a)) j | Some a \<Rightarrow> Some a)
      = (case map_of (y # ys) (show_pubkey S j) of None \<Rightarrow> hm j | Some a \<Rightarrow> Some a)" for j
    using fresh by (cases "j = k") (simp_all add: y show_pubkey_inj [OF assms(1)] option.case_eq_if)
  ultimately show ?case by (simp add: y assms(1))
qed simp

lemma serialize_accounts_lookup:
  assumes "\<And>k. parse_pubkey S (show_pubkey S k) = Some k"
  shows "map_of (serialize_accounts S entries) (show_pubkey S k) = map_of entries k"
  by (induction entries) (auto simp: serialize_accounts_def show_pubkey_inj [OF assms])

lemma restored_accounts:
  assumes "\<And>k. parse_pubkey S (show_pubkey S k) = Some k"
    and "map_of stored = map_of (serialize_accounts S entries)" and "distinct (map fst stored)"
  shows "deserialize_accounts S stored Map.empty = Inr (map_of entries)"
proof -
  have "fst ` set stored = fst ` set (serialize_accounts S entries)"
    using arg_cong [OF assms(2), of dom] by (simp add: dom_map_of_conv_image_fst)
  then have "fst ` set stored \<subseteq> range (show_pubkey S)"
    by (auto simp: serialize_accounts_def)
  from deserialize_accounts_spec [OF assms(1) this assms(3), of Map.empty] show ?thesis
    unfolding assms(2) serialize_accounts_lookup [OF assms(1)]
    by (simp add: fun_eq_iff option.case_eq_if)
qed

text \<open>The accounts every bank starts with.\<close>

definition built_in :: "'c runtime \<Rightarrow> pubkey \<Rightarrow> (pubkey \<times> account) list" where
  "built_in R airdrop_kp =
     [(bpf_loader R, native_program R), (upgradeable_loader R, native_program R),
      (system_program_id, native_program R), clock_account R, rent_account R,
      (airdrop_kp, new_account (1000000 * LAMPORTS_PER_SOL) 0 system_program_id)]"

lemma new_bank_saved:
  "new_bank R keypair (Some b) = set_accounts (built_in R (airdrop_key b)) (b\<lparr>txs := Map.empty\<rparr>)"
  by (cases "clock_account R"; cases "rent_account R")
    (simp add: new_bank_def built_in_def set_accounts_def set_account_def Let_def)

text \<open>
  C32. A reload keeps the chain, but not the history and not the built-in accounts.  A runtime
  created from the save data of a bank, in whatever order the account map and the parsed object
  iterate, has the slot, block height, hashes and airdrop key of that bank, and every account of it
  with one exception: the six built-in ones (the two loaders, the System program, clock, rent and the
  airdrop account, whose balance starts again at a million SOL) are those of a new bank, whatever was
  saved for them.  The transaction history is empty.
\<close>

theorem reload_keeps_bank:
  assumes "map_of entries = accounts b"
    and "\<And>k. parse_pubkey S (show_pubkey S k) = Some k"
    and "\<And>k. keypair_of_bytes S (keypair_bytes S k) = Some k"
    and "parse_bank S (get_save_data S entries b) = Some ((save_bank S entries b)\<lparr>saved_accounts := stored\<rparr>)"
    and "map_of stored = map_of (serialize_accounts S entries)" and "distinct (map fst stored)"
  shows "\<exists>b'. playnet_new R S keypair (Some (get_save_data S entries b)) = Inr b'
    \<and> slot b' = slot b \<and> block_height b' = block_height b \<and> genesis_hash b' = genesis_hash b
    \<and> latest_blockhash b' = latest_blockhash b \<and> airdrop_key b' = airdrop_key b \<and> txs b' = Map.empty
    \<and> accounts b' = accounts b ++ map_of (rev (built_in R (airdrop_key b)))"
proof -
  let ?b = "b\<lparr>txs := Map.empty\<rparr>"
  have "restore_bank S ((save_bank S entries b)\<lparr>saved_accounts := stored\<rparr>) = Inr ?b"
    using assms(3) by (simp add: restore_bank_def save_bank_def restored_accounts [OF assms(2,5,6)] assms(1))
  then have "playnet_new R S keypair (Some (get_save_data S entries b)) = Inr (new_bank R keypair (Some ?b))"
    by (simp add: playnet_new_def assms(4))
  then show ?thesis
    by (simp add: new_bank_saved accounts_set_accounts)
qed

section \<open>Witnesses\<close>

definition sample_rpc :: "saved_bank \<Rightarrow> (bytes, bytes) rpc_sdk" where
  "sample_rpc stored =
     \<lparr>parse_pubkey = (\<lambda>s. Some (of_nat (length s))), show_pubkey = (\<lambda>k. replicate (unat k) (CHR ''1'')),
      parse_signature = (\<lambda>s. Some (of_nat (length s))), show_signature = (\<lambda>k. replicate (unat k) (CHR ''1'')),
      show_hash = (\<lambda>_. ''hash''), show_error = (\<lambda>_. ''error''),
      parse_transaction = (\<lambda>raw. Some raw), parse_message = (\<lambda>m. Some m), sanitise_message = (\<lambda>_. Some (sample_message [])),
      try_create = (\<lambda>raw. Inr (sample_tx [raw])), verify_signatures = (\<lambda>_. Inr ()), verify_precompiles = (\<lambda>_. Inr ()),
      version_of = (\<lambda>_. Legacy), encode_tx = (\<lambda>_. ''tx''), parse_bank = (\<lambda>_. Some stored), print_bank = (\<lambda>_. ''bank''),
      keypair_bytes = key_bytes, keypair_of_bytes = (\<lambda>d. Some (bytes_key d))\<rparr>"

text \<open>Sending the sample transaction to a bank where accounts 1 and 2 have 100 and 5 lamports.\<close>

definition funded_bank :: bank where
  "funded_bank = sample_bank\<lparr>accounts := sample_accounts 100 5, txs := Map.empty, slot := 0\<rparr>"

lemma sample_sends:
  "\<exists>b'. send_transaction sample_runtime (sample_rpc s) [2] funded_bank = (b', Inr (Inr (replicate 7 (CHR ''1''))))
     \<and> b' \<noteq> funded_bank"
proof -
  obtain sim where "simulate_tx sample_runtime funded_bank (sample_tx [[2]]) = Inr sim" "sim_result sim = Inr ()"
    using sample_simulates [where x = 100 and y = 5 and h = Map.empty and n = 0] by (auto simp: funded_bank_def)
  then obtain b' where run: "process_tx sample_runtime (sample_tx [[2]]) funded_bank = (b', Inr (signature (sample_tx [[2]])))"
      and "slot b' = 1"
    using sample_not_write
    by (auto simp: process_tx_def save_tx_def Let_def funded_bank_def new_slot_def)
  then show ?thesis
    by (auto simp: send_transaction_def get_sanitized_tx_from_serialized_tx_def sample_rpc_def
        verify_transaction_def send_result_of_def sample_tx_def funded_bank_def)
qed

abbreviation sample_save :: saved_bank where
  "sample_save \<equiv>
     \<lparr>saved_accounts = [(''11111'', default_account)], saved_slot = 3, saved_block_height = 0,
      saved_genesis = 3, saved_blockhash = 3, saved_keypair = key_bytes 9\<rparr>"

theorem sent_transaction_reported_witness:
  "\<exists>b'. send_transaction sample_runtime (sample_rpc sample_save) [2] funded_bank = (b', Inr (Inr (replicate 7 (CHR ''1''))))
     \<and> get_signature_statuses (sample_rpc sample_save) b' [Some (replicate 7 (CHR ''1''))]
       = Inr [Some \<lparr>confirmation_status = Some Confirmed, confirmations = Some 1, status_slot = 0, status_err = None\<rparr>]"
proof -
  obtain b' where run: "send_transaction sample_runtime (sample_rpc sample_save) [2] funded_bank
      = (b', Inr (Inr (replicate 7 (CHR ''1''))))"
    using sample_sends by blast
  from run sent_transaction_reported [OF run] sample_not_write show ?thesis
    by (auto simp: sample_rpc_def funded_bank_def)
qed

definition sample_saved :: bank where
  "sample_saved = sample_bank\<lparr>accounts := [5 \<mapsto> default_account], slot := 3\<rparr>"

abbreviation sample_disk :: "(bytes, bytes) rpc_sdk" where
  "sample_disk \<equiv> sample_rpc sample_save"

theorem reload_keeps_bank_witness:
  "\<exists>b'. playnet_new sample_runtime sample_disk 9 (Some ''bank'') = Inr b'
     \<and> slot b' = 3 \<and> accounts b' 5 = Some default_account"
proof -
  let ?es = "[(5 :: pubkey, default_account)]"
  have five: "replicate 5 (CHR ''1'') = ''11111''" by (simp add: numeral_eq_Suc)
  have saved: "serialize_accounts sample_disk ?es = [(''11111'', default_account)]"
    using five by (simp add: serialize_accounts_def sample_rpc_def)
  have data: "get_save_data sample_disk ?es sample_saved = ''bank''"
    by (simp add: get_save_data_def sample_rpc_def)
  have "\<exists>b'. playnet_new sample_runtime sample_disk 9 (Some (get_save_data sample_disk ?es sample_saved)) = Inr b'
    \<and> slot b' = slot sample_saved \<and> block_height b' = block_height sample_saved
    \<and> genesis_hash b' = genesis_hash sample_saved \<and> latest_blockhash b' = latest_blockhash sample_saved
    \<and> airdrop_key b' = airdrop_key sample_saved \<and> txs b' = Map.empty
    \<and> accounts b' = accounts sample_saved ++ map_of (rev (built_in sample_runtime (airdrop_key sample_saved)))"
  proof (rule reload_keeps_bank)
    show "map_of ?es = accounts sample_saved" by (simp add: sample_saved_def)
    show "parse_bank sample_disk (get_save_data sample_disk ?es sample_saved)
        = Some ((save_bank sample_disk ?es sample_saved)\<lparr>saved_accounts := [(''11111'', default_account)]\<rparr>)"
      by (simp add: sample_rpc_def save_bank_def sample_saved_def sample_bank_def)
  qed (simp_all add: saved, simp_all add: sample_rpc_def)
  moreover have "map_of (rev (built_in sample_runtime 9)) 5 = None"
    by (simp add: built_in_def sample_runtime_def system_program_id_def)
  then have "(accounts sample_saved ++ map_of (rev (built_in sample_runtime (airdrop_key sample_saved)))) 5
      = Some default_account"
    by (simp add: sample_saved_def sample_bank_def map_add_def)
  moreover have "slot sample_saved = 3" by (simp add: sample_saved_def)
  ultimately show ?thesis unfolding data by metis
qed

end
