(* ===== verification/Client_Rpc.thy ===== *)
theory Client_Rpc
  imports Playnet_Rpc
begin

text \<open>
  The RPC client of the command line tools: the methods of \<open>wasm/solana-client/src/client.rs\<close> that
  read accounts, balances, fees and blockhashes, send transactions and wait for their
  confirmation, \<open>UiAccount::decode\<close> of the account decoder, and the durable nonce helpers
  \<open>nonce_utils.rs\<close> and blockhash queries of \<open>rpc_config.rs\<close>.  The JSON-RPC server is a record of
  operations on a world \<open>'w\<close>, the fields of \<open>client\<close>; the last section gives the server the
  in-browser runtime is, as \<open>client/src/utils/playnet/rpc-response.ts\<close> presents it to the client.
\<close>

section \<open>Actions on a world\<close>

text \<open>An asynchronous function: it may fail or panic, and leaves the world changed either way.\<close>

type_synonym ('w, 'e, 'a) act = "'w \<Rightarrow> ('e fault + 'a) \<times> 'w"

definition aret :: "'a \<Rightarrow> ('w, 'e, 'a) act" where "aret a w = (Inr a, w)"

definition afail :: "'e \<Rightarrow> ('w, 'e, 'a) act" where "afail e w = (Inl (Err e), w)"

definition apanic :: "('w, 'e, 'a) act" where "apanic w = (Inl Panic, w)"

definition abind :: "('w, 'e, 'a) act \<Rightarrow> ('a \<Rightarrow> ('w, 'e, 'b) act) \<Rightarrow> ('w, 'e, 'b) act" where
  "abind m f w = (case m w of (Inl e, w') \<Rightarrow> (Inl e, w') | (Inr a, w') \<Rightarrow> f a w')"

definition amap_err :: "('e \<Rightarrow> 'f) \<Rightarrow> ('w, 'e, 'a) act \<Rightarrow> ('w, 'f, 'a) act" where
  "amap_err g m w =
     (case m w of
        (Inl (Err e), w') \<Rightarrow> (Inl (Err (g e)), w')
      | (Inl Panic, w') \<Rightarrow> (Inl Panic, w')
      | (Inr a, w') \<Rightarrow> (Inr a, w'))"

definition aresult :: "('a, 'e) res \<Rightarrow> ('w, 'e, 'a) act" where "aresult r w = (r, w)"

lemma act_simps [simp]:
  "aret a w = (Inr a, w)" "afail e w = (Inl (Err e), w)" "apanic w = (Inl Panic, w)" "aresult r w = (r, w)"
  by (simp_all add: aret_def afail_def apanic_def aresult_def)

lemma abind_Inr_iff:
  "abind m f w = (Inr b, w'') \<longleftrightarrow> (\<exists>a w'. m w = (Inr a, w') \<and> f a w' = (Inr b, w''))"
  by (auto simp: abind_def split: prod.splits sum.splits)

lemma abind_Inl_iff:
  "abind m f w = (Inl e, w'') \<longleftrightarrow>
     m w = (Inl e, w'') \<or> (\<exists>a w'. m w = (Inr a, w') \<and> f a w' = (Inl e, w''))"
  by (auto simp: abind_def split: prod.splits sum.splits)

lemma amap_err_Inr_iff [simp]: "amap_err g m w = (Inr b, w') \<longleftrightarrow> m w = (Inr b, w')"
  by (auto simp: amap_err_def split: prod.splits sum.splits fault.splits)

lemma amap_err_world [simp]: "snd (amap_err g m w) = snd (m w)"
  by (auto simp: amap_err_def split: prod.splits sum.splits fault.splits)

section \<open>The server\<close>

datatype client_error = ClientError u16 string \<comment> \<open>HTTP status and message\<close>

text \<open>\<open>ClientError::new\<close> has the status \<open>SEE_OTHER\<close>.\<close>

definition new_client_error :: "string \<Rightarrow> client_error" where "new_client_error s = ClientError 303 s"

text \<open>\<open>CommitmentLevel\<close>; \<open>AtOther\<close> stands for \<open>Processed\<close> and the deprecated levels.\<close>

datatype commitment_level = AtFinalized | AtConfirmed | AtOther

datatype ui_encoding = EncBinary | EncBase58 | EncBase64 | EncJsonParsed

datatype ui_data = UiLegacyBinary string | UiJson string | UiBinary string ui_encoding

record ui_account =
  ui_lamports :: u64
  ui_data :: ui_data
  ui_owner :: string
  ui_executable :: bool
  ui_rent_epoch :: u64

record ('w, 'm, 't) client =
  commitment_config :: commitment_level
  base58_decode :: "string \<Rightarrow> bytes option"
  base64_decode :: "string \<Rightarrow> bytes option"
  key_of_text :: "string \<Rightarrow> pubkey option"
  key_text :: "pubkey \<Rightarrow> string"
  hash_of_text :: "string \<Rightarrow> hash option"
  nonce_versions :: "bytes \<Rightarrow> nonce_state option" \<comment> \<open>the state inside \<open>StateMut::<Versions>::state\<close>\<close>
  tx_signatures :: "'t \<Rightarrow> signature list"
  ep_balance :: "pubkey \<Rightarrow> commitment_level \<Rightarrow> ('w, client_error, u64) act"
  ep_account :: "pubkey \<Rightarrow> commitment_level \<Rightarrow> ui_encoding option \<Rightarrow> ('w, client_error, ui_account option) act"
  ep_multiple :: "pubkey list \<Rightarrow> commitment_level option \<Rightarrow> ('w, client_error, ui_account option list) act"
  ep_latest_blockhash :: "commitment_level \<Rightarrow> ('w, client_error, string \<times> u64) act"
  ep_blockhash_valid :: "hash \<Rightarrow> commitment_level \<Rightarrow> ('w, client_error, bool) act"
  ep_minimum_balance :: "nat \<Rightarrow> ('w, client_error, u64) act"
  ep_fee :: "'m \<Rightarrow> ('w, client_error, u64 option) act"
  ep_send :: "'t \<Rightarrow> commitment_level \<Rightarrow> ('w, client_error, signature) act"
  ep_statuses :: "signature list \<Rightarrow> ('w, client_error, signature_status option list) act"
  ep_airdrop :: "pubkey \<Rightarrow> u64 \<Rightarrow> ('w, client_error, signature) act"
  ep_epoch :: "('w, client_error, u64) act"
  ep_sleep :: "u64 \<Rightarrow> 'w \<Rightarrow> 'w"

definition MAX_RETRIES :: nat where "MAX_RETRIES = 5"
definition SLEEP_MS :: u64 where "SLEEP_MS = 2000"

section \<open>Reading\<close>

definition ui_bytes :: "('w, 'm, 't) client \<Rightarrow> ui_data \<Rightarrow> bytes option" where
  "ui_bytes C d =
     (case d of
        UiJson _ \<Rightarrow> None
      | UiLegacyBinary blob \<Rightarrow> base58_decode C blob
      | UiBinary blob enc \<Rightarrow>
         (case enc of
            EncBase58 \<Rightarrow> base58_decode C blob
          | EncBase64 \<Rightarrow> base64_decode C blob
          | EncBinary \<Rightarrow> None
          | EncJsonParsed \<Rightarrow> None))"

definition ui_decode :: "('w, 'm, 't) client \<Rightarrow> ui_account \<Rightarrow> account option" where
  "ui_decode C u =
     Option.bind (ui_bytes C (ui_data u)) (\<lambda>d.
     Option.bind (key_of_text C (ui_owner u)) (\<lambda>k.
     Some \<lparr>lamports = ui_lamports u, data = d, owner = k, executable = ui_executable u,
           rent_epoch = ui_rent_epoch u\<rparr>))"

definition get_balance_with_commitment ::
  "('w, 'm, 't) client \<Rightarrow> pubkey \<Rightarrow> commitment_level \<Rightarrow> ('w, client_error, u64) act" where
  "get_balance_with_commitment C k c = ep_balance C k c"

definition get_account_with_config ::
  "('w, 'm, 't) client \<Rightarrow> pubkey \<Rightarrow> commitment_level \<Rightarrow> ui_encoding option
     \<Rightarrow> ('w, client_error, account option) act" where
  "get_account_with_config C k c enc =
     abind (ep_account C k c enc) (\<lambda>v.
     aret (case v of Some u \<Rightarrow> ui_decode C u | None \<Rightarrow> None))"

definition get_account_with_commitment ::
  "('w, 'm, 't) client \<Rightarrow> pubkey \<Rightarrow> commitment_level \<Rightarrow> ('w, client_error, account option) act" where
  "get_account_with_commitment C k c = get_account_with_config C k c (Some EncBase64)"

definition get_account :: "('w, 'm, 't) client \<Rightarrow> pubkey \<Rightarrow> ('w, client_error, account) act" where
  "get_account C k =
     abind (get_account_with_commitment C k (commitment_config C)) (\<lambda>a.
     (case a of
        Some a \<Rightarrow> aret a
      | None \<Rightarrow> afail (new_client_error (''Account '' @ key_text C k @ '' not found.''))))"

definition get_account_data :: "('w, 'm, 't) client \<Rightarrow> pubkey \<Rightarrow> ('w, client_error, bytes) act" where
  "get_account_data C k = abind (get_account C k) (\<lambda>a. aret (data a))"

text \<open>\<open>get_multiple_accounts_with_config\<close> drops the missing accounts before it decodes.\<close>

definition get_multiple_accounts_with_config ::
  "('w, 'm, 't) client \<Rightarrow> pubkey list \<Rightarrow> commitment_level option
     \<Rightarrow> ('w, client_error, account option list) act" where
  "get_multiple_accounts_with_config C ks c =
     abind (ep_multiple C ks c) (\<lambda>vs.
     aret (map (\<lambda>v. ui_decode C (the v)) (filter (\<lambda>v. v \<noteq> None) vs)))"

definition get_latest_blockhash_with_config ::
  "('w, 'm, 't) client \<Rightarrow> commitment_level \<Rightarrow> ('w, client_error, hash \<times> u64) act" where
  "get_latest_blockhash_with_config C c =
     abind (ep_latest_blockhash C c) (\<lambda>(text, height).
     (case hash_of_text C text of
        None \<Rightarrow> afail (new_client_error ''Hash not parsable.'')
      | Some h \<Rightarrow> aret (h, height)))"

definition latest_hash :: "('w, 'm, 't) client \<Rightarrow> ('w, client_error, hash) act" where
  "latest_hash C = abind (get_latest_blockhash_with_config C (commitment_config C)) (\<lambda>r. aret (fst r))"

definition client_minimum_balance :: "('w, 'm, 't) client \<Rightarrow> nat \<Rightarrow> ('w, client_error, u64) act" where
  "client_minimum_balance C len = ep_minimum_balance C len"

text \<open>A fee the server does not know is read as zero (\<open>unwrap_or_default\<close>).\<close>

definition client_fee :: "('w, 'm, 't) client \<Rightarrow> 'm \<Rightarrow> ('w, client_error, u64) act" where
  "client_fee C m = abind (ep_fee C m) (\<lambda>f. aret (case f of Some v \<Rightarrow> v | None \<Rightarrow> 0))"

section \<open>Sending and confirming\<close>

definition client_send ::
  "('w, 'm, 't) client \<Rightarrow> 't \<Rightarrow> commitment_level \<Rightarrow> ('w, client_error, signature) act" where
  "client_send C t preflight =
     abind (ep_send C t preflight) (\<lambda>sig.
     (case tx_signatures C t of
        [] \<Rightarrow> apanic
      | first # _ \<Rightarrow>
          if sig \<noteq> first then afail (new_client_error ''RPC node returned mismatched signature'')
          else aret first))"

definition commitment_matches :: "commitment_level \<Rightarrow> commitment \<Rightarrow> bool" where
  "commitment_matches c current =
     (case c of
        AtFinalized \<Rightarrow> current = Finalized
      | AtConfirmed \<Rightarrow> current = Finalized \<or> current = Confirmed
      | AtOther \<Rightarrow> True)"

text \<open>One round answers when it can; \<open>signature_statuses[0]\<close> panics on an empty answer.\<close>

definition settled :: "commitment_level \<Rightarrow> signature_status option \<Rightarrow> bool option" where
  "settled c st =
     (case st of
        None \<Rightarrow> None
      | Some s \<Rightarrow>
         (case confirmation_status s of
            None \<Rightarrow> None
          | Some current \<Rightarrow> if commitment_matches c current then Some (status_err s = None) else None))"

fun confirm_rounds ::
  "('w, 'm, 't) client \<Rightarrow> signature \<Rightarrow> commitment_level \<Rightarrow> nat \<Rightarrow> ('w, client_error, bool) act" where
  "confirm_rounds C sig c 0 = aret False"
| "confirm_rounds C sig c (Suc n) =
     abind (ep_statuses C [sig]) (\<lambda>sts.
     (case sts of
        [] \<Rightarrow> apanic
      | st # _ \<Rightarrow>
         (case settled c st of
            Some success \<Rightarrow> aret success
          | None \<Rightarrow> (\<lambda>w. confirm_rounds C sig c n (ep_sleep C SLEEP_MS w)))))"

definition confirm_transaction ::
  "('w, 'm, 't) client \<Rightarrow> signature \<Rightarrow> commitment_level \<Rightarrow> ('w, client_error, bool) act" where
  "confirm_transaction C sig c = confirm_rounds C sig c MAX_RETRIES"

text \<open>The outcome of the confirmation is dropped.\<close>

definition send_and_confirm_with ::
  "('w, 'm, 't) client \<Rightarrow> 't \<Rightarrow> commitment_level \<Rightarrow> ('w, client_error, signature) act" where
  "send_and_confirm_with C t c =
     abind (client_send C t c) (\<lambda>sig.
     abind (confirm_transaction C sig c) (\<lambda>_. aret sig))"

definition send_and_confirm :: "('w, 'm, 't) client \<Rightarrow> 't \<Rightarrow> ('w, client_error, signature) act" where
  "send_and_confirm C t = send_and_confirm_with C t (commitment_config C)"

section \<open>Durable nonces\<close>

datatype client_nonce_error =
    NonceInvalidAccountOwner
  | NonceInvalidAccountData
  | NonceUnexpectedDataSize
  | NonceInvalidHash hash hash \<comment> \<open>provided, expected\<close>
  | NonceInvalidAuthority pubkey pubkey
  | NonceInvalidStateForOperation
  | NonceClient string

definition account_identity_ok :: "account \<Rightarrow> client_nonce_error + unit" where
  "account_identity_ok a =
     (if owner a \<noteq> system_program_id then Inl NonceInvalidAccountOwner
      else if data a = [] then Inl NonceUnexpectedDataSize
      else Inr ())"

definition error_text :: "client_error \<Rightarrow> string" where
  "error_text e = (case e of ClientError _ s \<Rightarrow> ''Client error: '' @ s)"

text \<open>The default configuration has no encoding.\<close>

definition nonce_account ::
  "('w, 'm, 't) client \<Rightarrow> pubkey \<Rightarrow> commitment_level \<Rightarrow> ('w, client_nonce_error, account) act" where
  "nonce_account C k c =
     abind (amap_err (\<lambda>e. NonceClient (error_text e)) (get_account_with_config C k c None)) (\<lambda>a.
     (case a of
        None \<Rightarrow> afail (NonceClient (''AccountNotFound: pubkey='' @ key_text C k))
      | Some a \<Rightarrow>
         (case account_identity_ok a of
            Inl e \<Rightarrow> afail e
          | Inr _ \<Rightarrow> aret a)))"

definition state_from_account :: "('w, 'm, 't) client \<Rightarrow> account \<Rightarrow> client_nonce_error + nonce_state" where
  "state_from_account C a =
     rbind (account_identity_ok a) (\<lambda>_. ok_or (nonce_versions C (data a)) NonceInvalidAccountData)"

definition data_from_state :: "nonce_state \<Rightarrow> client_nonce_error + nonce_data" where
  "data_from_state s =
     (case s of Uninitialized \<Rightarrow> Inl NonceInvalidStateForOperation | Initialized d \<Rightarrow> Inr d)"

definition data_from_account :: "('w, 'm, 't) client \<Rightarrow> account \<Rightarrow> client_nonce_error + nonce_data" where
  "data_from_account C a =
     rbind (account_identity_ok a) (\<lambda>_. rbind (state_from_account C a) data_from_state)"

section \<open>Blockhash queries\<close>

datatype blockhash_source = Cluster | NonceAccount pubkey

text \<open>Errors of either kind are boxed.\<close>

datatype boxed_error = BoxedClient client_error | BoxedNonce client_nonce_error | BoxedText string

definition nonce_source_data ::
  "('w, 'm, 't) client \<Rightarrow> pubkey \<Rightarrow> commitment_level \<Rightarrow> ('w, boxed_error, nonce_data) act" where
  "nonce_source_data C k c =
     amap_err BoxedNonce
       (abind (nonce_account C k c) (\<lambda>a.
        (case data_from_account C a of Inl e \<Rightarrow> afail e | Inr d \<Rightarrow> aret d)))"

definition source_blockhash ::
  "('w, 'm, 't) client \<Rightarrow> blockhash_source \<Rightarrow> commitment_level \<Rightarrow> ('w, boxed_error, hash) act" where
  "source_blockhash C s c =
     (case s of
        Cluster \<Rightarrow> abind (amap_err BoxedClient (get_latest_blockhash_with_config C c)) (\<lambda>r. aret (fst r))
      | NonceAccount k \<Rightarrow> abind (nonce_source_data C k c) (\<lambda>d. aret (durable_nonce d)))"

text \<open>For a nonce account only its data is read: any hash is then valid.\<close>

definition source_hash_valid ::
  "('w, 'm, 't) client \<Rightarrow> blockhash_source \<Rightarrow> hash \<Rightarrow> commitment_level \<Rightarrow> ('w, boxed_error, bool) act" where
  "source_hash_valid C s h c =
     (case s of
        Cluster \<Rightarrow> amap_err BoxedClient (ep_blockhash_valid C h c)
      | NonceAccount k \<Rightarrow> abind (nonce_source_data C k c) (\<lambda>_. aret True))"

datatype blockhash_query = QueryNone hash | QueryFeeCalculator blockhash_source hash | QueryAll blockhash_source

definition new_blockhash_query :: "hash option \<Rightarrow> bool \<Rightarrow> pubkey option \<Rightarrow> unit + blockhash_query" where
  "new_blockhash_query blockhash sign_only nonce_key =
     (let source = (case nonce_key of Some k \<Rightarrow> NonceAccount k | None \<Rightarrow> Cluster)
      in case blockhash of
           Some h \<Rightarrow> if sign_only then Inr (QueryNone h) else Inr (QueryFeeCalculator source h)
         | None \<Rightarrow> if \<not> sign_only then Inr (QueryAll source) else Inl ())"

definition query_blockhash ::
  "('w, 'm, 't) client \<Rightarrow> blockhash_query \<Rightarrow> commitment_level \<Rightarrow> ('w, boxed_error, hash) act" where
  "query_blockhash C q c =
     (case q of
        QueryNone h \<Rightarrow> aret h
      | QueryFeeCalculator s h \<Rightarrow>
          abind (source_hash_valid C s h c) (\<lambda>ok.
          if \<not> ok then afail (BoxedText ''Hash has expired'') else aret h)
      | QueryAll s \<Rightarrow> source_blockhash C s c)"

section \<open>Servers that queries leave alone\<close>

text \<open>
  \<open>quiet f m\<close>: the action keeps the observation \<open>f\<close> of the world, such as the transactions
  submitted so far, on every path.
\<close>

definition quiet :: "('w \<Rightarrow> 'l) \<Rightarrow> ('w, 'e, 'a) act \<Rightarrow> bool" where
  "quiet f m = (\<forall>w. f (snd (m w)) = f w)"

named_theorems quiet_intros \<open>actions that submit nothing\<close>

lemma quiet_unit [quiet_intros]:
  "quiet f (aret a)" "quiet f (afail e)" "quiet f apanic" "quiet f (aresult r)"
  by (simp_all add: quiet_def)

lemma quiet_abind [quiet_intros]:
  assumes "quiet f m" and "\<And>a. quiet f (g a)"
  shows "quiet f (abind m g)"
  using assms by (auto simp: quiet_def abind_def split: prod.splits sum.splits) (metis snd_conv)+

lemma quiet_amap_err [quiet_intros]: "quiet f m \<Longrightarrow> quiet f (amap_err g m)"
  by (simp add: quiet_def)

lemma quiet_if [quiet_intros]: "quiet f m \<Longrightarrow> quiet f m' \<Longrightarrow> quiet f (if b then m else m')"
  by simp

lemma quiet_option [quiet_intros]:
  "quiet f m \<Longrightarrow> (\<And>x. quiet f (g x)) \<Longrightarrow> quiet f (case a of None \<Rightarrow> m | Some x \<Rightarrow> g x)"
  by (simp split: option.split)

lemma quiet_sum [quiet_intros]:
  "(\<And>x. quiet f (g x)) \<Longrightarrow> (\<And>x. quiet f (h x)) \<Longrightarrow> quiet f (case a of Inl x \<Rightarrow> g x | Inr x \<Rightarrow> h x)"
  by (simp split: sum.split)

lemma quiet_prod [quiet_intros]: "(\<And>x y. quiet f (g x y)) \<Longrightarrow> quiet f (case a of (x, y) \<Rightarrow> g x y)"
  by (simp split: prod.split)

lemma quiet_list [quiet_intros]:
  "quiet f m \<Longrightarrow> (\<And>x xs. quiet f (g x xs)) \<Longrightarrow> quiet f (case a of [] \<Rightarrow> m | x # xs \<Rightarrow> g x xs)"
  by (simp split: list.split)

lemma quietD: "quiet f m \<Longrightarrow> m w = (r, w') \<Longrightarrow> f w' = f w"
  by (metis quiet_def snd_conv)

locale quiet_server =
  fixes C :: "('w, 'm, 't) client" and sent :: "'w \<Rightarrow> 'l"
  assumes quiet_balance: "quiet sent (ep_balance C k c)"
    and quiet_account: "quiet sent (ep_account C k c enc)"
    and quiet_latest: "quiet sent (ep_latest_blockhash C c)"
    and quiet_valid: "quiet sent (ep_blockhash_valid C h c)"
    and quiet_minimum: "quiet sent (ep_minimum_balance C len)"
    and quiet_fee: "quiet sent (ep_fee C m)"
    and quiet_statuses: "quiet sent (ep_statuses C sigs)"
    and quiet_epoch: "quiet sent (ep_epoch C)"
    and quiet_sleep: "sent (ep_sleep C ms w) = sent w"

context quiet_server
begin

lemmas quiet_queries = quiet_balance quiet_account quiet_latest quiet_valid quiet_minimum quiet_fee
  quiet_statuses quiet_epoch

lemma quiet_reading:
  "quiet sent (get_balance_with_commitment C k c)" "quiet sent (get_account_with_config C k c enc)"
  "quiet sent (get_account_with_commitment C k c)" "quiet sent (get_account C k)"
  "quiet sent (get_account_data C k)" "quiet sent (get_latest_blockhash_with_config C c)"
  "quiet sent (latest_hash C)" "quiet sent (client_minimum_balance C len)" "quiet sent (client_fee C m)"
  unfolding get_balance_with_commitment_def get_account_with_config_def get_account_with_commitment_def
    get_account_def get_account_data_def get_latest_blockhash_with_config_def latest_hash_def
    client_minimum_balance_def client_fee_def
  by (intro quiet_intros quiet_queries)+

lemma quiet_rounds: "quiet sent (confirm_rounds C sig c n)"
proof (induction n)
  case (Suc n)
  have "quiet sent (\<lambda>w. confirm_rounds C sig c n (ep_sleep C SLEEP_MS w))"
    using Suc by (simp add: quiet_def quiet_sleep)
  then show ?case
    unfolding confirm_rounds.simps by (intro quiet_intros quiet_queries)
qed (simp add: quiet_def)

lemma quiet_confirm: "quiet sent (confirm_transaction C sig c)"
  by (simp add: confirm_transaction_def quiet_rounds)

lemma quiet_nonce: "quiet sent (nonce_account C k c)" "quiet sent (nonce_source_data C k c)"
  unfolding nonce_account_def nonce_source_data_def
  by (intro quiet_intros quiet_reading)+

lemma quiet_query: "quiet sent (query_blockhash C q c)"
  unfolding query_blockhash_def source_hash_valid_def source_blockhash_def
  by (cases q) (auto intro!: quiet_intros quiet_reading quiet_nonce quiet_queries split: blockhash_source.split)

text \<open>A transaction reaches the server through one request, before its confirmation.\<close>

lemma send_and_confirm_submits:
  assumes "send_and_confirm C t w = (r, w')"
  shows "sent w' = sent (snd (ep_send C t (commitment_config C) w))"
proof -
  obtain r1 w1 where send: "ep_send C t (commitment_config C) w = (r1, w1)" by fastforce
  have confirm: "quiet sent (abind (confirm_transaction C sig c) (\<lambda>_. aret sig))" for sig c
    by (intro quiet_intros quiet_confirm)
  show ?thesis
    using assms quietD [OF confirm]
    by (auto simp: send_and_confirm_def send_and_confirm_with_def client_send_def send abind_def
        split: sum.splits list.splits if_splits prod.splits)
qed

end

section \<open>Waiting for a confirmation\<close>

text \<open>
  The confirmation loop on a server that is only changed by waiting: with \<open>st w\<close> the status at
  \<open>w\<close>, the answer is that of the first of at most five polls whose status settles the
  requested commitment, and \<open>False\<close> if none does.
\<close>

fun first_settled ::
  "commitment_level \<Rightarrow> ('w \<Rightarrow> signature_status option) \<Rightarrow> ('w \<Rightarrow> 'w) \<Rightarrow> nat \<Rightarrow> 'w \<Rightarrow> bool option" where
  "first_settled c st wait 0 w = None"
| "first_settled c st wait (Suc n) w =
     (case settled c (st w) of Some b \<Rightarrow> Some b | None \<Rightarrow> first_settled c st wait n (wait w))"

lemma first_settled_iff:
  "first_settled c st wait n w = Some b \<longleftrightarrow>
     (\<exists>j < n. settled c (st ((wait ^^ j) w)) = Some b \<and> (\<forall>i < j. settled c (st ((wait ^^ i) w)) = None))"
proof (induction n arbitrary: w)
  case (Suc n)
  show ?case
  proof (cases "settled c (st w)")
    case None
    have "(\<exists>j < Suc n. settled c (st ((wait ^^ j) w)) = Some b \<and> (\<forall>i < j. settled c (st ((wait ^^ i) w)) = None))
      \<longleftrightarrow> (\<exists>j < n. settled c (st ((wait ^^ j) (wait w))) = Some b
             \<and> (\<forall>i < j. settled c (st ((wait ^^ i) (wait w))) = None))"
      using None by (simp add: Ex_less_Suc2 All_less_Suc2 funpow_swap1 flip: funpow_Suc_right)
    then show ?thesis using Suc None by simp
  next
    case (Some s)
    then show ?thesis by (auto simp: Ex_less_Suc2 All_less_Suc2)
  qed
qed simp

lemma confirm_rounds_first:
  assumes "\<And>w. ep_statuses C [sig] w = (Inr [st w], w)"
  shows "fst (confirm_rounds C sig c n w) = Inr (first_settled c st (ep_sleep C SLEEP_MS) n w = Some True)"
  by (induction n arbitrary: w) (simp_all add: abind_def assms split: option.split)

text \<open>
  C33. Sending and confirming reports the sending only.  On a server that waiting alone changes,
  the confirmation is true exactly when, of at most five polls, the first one whose status
  settles the requested commitment has no error; but \<open>send_and_confirm_transaction\<close> answers
  with the signature whatever the confirmation found, a failed or unseen transaction included.
\<close>

theorem confirmation_dropped:
  assumes "\<And>w. ep_statuses C [sig] w = (Inr [st w], w)"
    and "ep_send C t (commitment_config C) w = (Inr sig, w1)" and "tx_signatures C t = sig # sigs"
  shows "fst (send_and_confirm C t w) = Inr sig
    \<and> fst (confirm_transaction C sig c w1) = Inr
        (\<exists>j < 5. settled c (st ((ep_sleep C SLEEP_MS ^^ j) w1)) = Some True
              \<and> (\<forall>i < j. settled c (st ((ep_sleep C SLEEP_MS ^^ i) w1)) = None))"
proof -
  have confirm: "fst (confirm_transaction C sig c w1)
      = Inr (first_settled c st (ep_sleep C SLEEP_MS) 5 w1 = Some True)" for c
    by (simp add: confirm_transaction_def MAX_RETRIES_def confirm_rounds_first [OF assms(1)])
  obtain w2 where "confirm_transaction C sig (commitment_config C) w1
      = (Inr (first_settled (commitment_config C) st (ep_sleep C SLEEP_MS) 5 w1 = Some True), w2)"
    using confirm [of "commitment_config C"] by (metis prod.collapse)
  then have "fst (send_and_confirm C t w) = Inr sig"
    by (simp add: send_and_confirm_def send_and_confirm_with_def client_send_def abind_def assms(2,3))
  then show ?thesis
    by (simp add: confirm first_settled_iff)
qed

text \<open>
  The answer of \<open>get_multiple_accounts\<close> leaves out the accounts that do not exist, so its
  positions are not those of the keys.
\<close>

lemma multiple_accounts_shift:
  assumes "ep_multiple C ks c w = (Inr vs, w')" and "length vs = length ks" and "None \<in> set vs"
  shows "\<exists>as. get_multiple_accounts_with_config C ks c w = (Inr as, w') \<and> length as < length ks"
proof -
  have "length (filter (\<lambda>v. v \<noteq> None) vs) < length vs"
    using assms(3) by (intro length_filter_less) auto
  then show ?thesis
    using assms(1,2) by (simp add: get_multiple_accounts_with_config_def abind_def)
qed

section \<open>The in-browser runtime as a server\<close>

text \<open>
  \<open>rpc-response.ts\<close> answers the client's requests from the RPC methods of the runtime; a method
  it does not list, or an error of the runtime, is thrown and reaches the client as an error,
  and a panic of the runtime ends the module.  \<open>W\<close> serialises transactions and messages; \<open>C\<close>
  supplies the codecs.  An account without lamports is reported as missing.
\<close>

record ('m, 't) wire =
  wire_tx :: "'t \<Rightarrow> bytes"
  wire_message :: "'m \<Rightarrow> bytes"
  wire_base64 :: "bytes \<Rightarrow> string"

definition thrown :: "string \<Rightarrow> client_error" where "thrown s = ClientError 500 s"

definition not_implemented :: "('w, client_error, 'a) act" where
  "not_implemented = afail (thrown ''Method is not yet implemented.'')"

definition of_rpc :: "unit + 'a \<Rightarrow> ('a, client_error) res" where
  "of_rpc r = (case r of Inl _ \<Rightarrow> Inl Panic | Inr a \<Rightarrow> Inr a)"

definition served_account ::
  "('m, 't) wire \<Rightarrow> ('w, 'm, 't) client \<Rightarrow> wasm_account \<Rightarrow> ui_account option" where
  "served_account W C a =
     (if wa_lamports a = 0 then None
      else Some \<lparr>ui_lamports = wa_lamports a, ui_data = UiBinary (wire_base64 W (wa_data a)) EncBase64,
                 ui_owner = key_text C (wa_owner a), ui_executable = wa_executable a,
                 ui_rent_epoch = wa_rent_epoch a\<rparr>)"

definition served_hash ::
  "('v, 'n) rpc_sdk \<Rightarrow> unit + send_result \<Rightarrow> (signature, client_error) res" where
  "served_hash S r =
     (case r of
        Inl _ \<Rightarrow> Inl Panic
      | Inr (Inl e) \<Rightarrow> Inl (Err (thrown (show_error S e)))
      | Inr (Inr h) \<Rightarrow> lift_err (ok_or (parse_signature S h) (thrown ''invalid signature'')))"

definition playnet_client ::
  "'c runtime \<Rightarrow> ('v, 'n) rpc_sdk \<Rightarrow> ('m, 't) wire \<Rightarrow> (bank, 'm, 't) client \<Rightarrow> (bank, 'm, 't) client" where
  "playnet_client R S W C =
     C\<lparr>ep_balance := (\<lambda>k _ b. (of_rpc (map_sum id wa_lamports (get_account_info S b (show_pubkey S k))), b)),
       ep_account := (\<lambda>k _ _ b. (of_rpc (map_sum id (served_account W C) (get_account_info S b (show_pubkey S k))), b)),
       ep_multiple := (\<lambda>_ _. not_implemented),
       ep_latest_blockhash := (\<lambda>_ b. (Inr (blockhash_text S (rpc_latest_blockhash b),
                                            last_valid_block_height (rpc_latest_blockhash b)), b)),
       ep_blockhash_valid := (\<lambda>_ _. not_implemented),
       ep_minimum_balance := (\<lambda>len b. (Inr (get_minimum_balance_for_rent_exemption R len), b)),
       ep_fee := (\<lambda>m b. (of_rpc (rpc_fee_for_message S (wire_message W m)), b)),
       ep_send := (\<lambda>t _ b. (let (b, r) = send_transaction R S (wire_tx W t) b in (served_hash S r, b))),
       ep_statuses := (\<lambda>sigs b. (of_rpc (get_signature_statuses S b (map (Some \<circ> show_signature S) sigs)), b)),
       ep_airdrop := (\<lambda>k l b. (let (b, r) = request_airdrop R S (show_pubkey S k) l b in (served_hash S r, b))),
       ep_epoch := not_implemented,
       ep_sleep := (\<lambda>_ b. b)\<rparr>"

text \<open>Queries leave the bank as it is.\<close>

interpretation playnet: quiet_server "playnet_client R S W C" "\<lambda>b. b"
  by unfold_locales (simp_all add: playnet_client_def quiet_def not_implemented_def)

section \<open>A server for the witnesses\<close>

text \<open>A server whose balances and fees are constants and that reports every transaction as failed.\<close>

definition failed_status :: signature_status where
  "failed_status = \<lparr>confirmation_status = Some Finalized, confirmations = None, status_slot = 1,
     status_err = Some AccountNotFound\<rparr>"

definition sample_codec :: "('w, 'm, 't) client" where
  "sample_codec =
     \<lparr>commitment_config = AtConfirmed, base58_decode = (\<lambda>_. None), base64_decode = (\<lambda>_. Some []),
      key_of_text = (\<lambda>_. Some 0), key_text = (\<lambda>_. ''key''), hash_of_text = (\<lambda>_. Some 3),
      nonce_versions = (\<lambda>_. None), tx_signatures = (\<lambda>_. [7]),
      ep_balance = (\<lambda>_ _. not_implemented), ep_account = (\<lambda>_ _ _. not_implemented),
      ep_multiple = (\<lambda>_ _. not_implemented), ep_latest_blockhash = (\<lambda>_. not_implemented),
      ep_blockhash_valid = (\<lambda>_ _. not_implemented), ep_minimum_balance = (\<lambda>_. not_implemented),
      ep_fee = (\<lambda>_. not_implemented), ep_send = (\<lambda>_ _. not_implemented),
      ep_statuses = (\<lambda>_. not_implemented), ep_airdrop = (\<lambda>_ _. not_implemented),
      ep_epoch = not_implemented, ep_sleep = (\<lambda>_ w. w)\<rparr>"

definition sample_client :: "u64 \<Rightarrow> u64 \<Rightarrow> (nat, 'm, 't) client" where
  "sample_client balance f =
     sample_codec\<lparr>ep_balance := (\<lambda>_ _ w. (Inr balance, w)), ep_minimum_balance := (\<lambda>_ w. (Inr 10, w)),
       ep_latest_blockhash := (\<lambda>_ w. (Inr (''hash'', 1), w)), ep_fee := (\<lambda>_ w. (Inr (Some f), w)),
       ep_send := (\<lambda>_ _ w. (Inr 7, Suc w)), ep_statuses := (\<lambda>_ w. (Inr [Some failed_status], w))\<rparr>"

lemma sample_client_simps [simp]:
  "ep_balance (sample_client x f) k c w = (Inr x, w)"
  "ep_fee (sample_client x f) m w = (Inr (Some f), w)"
  "ep_minimum_balance (sample_client x f) len w = (Inr 10, w)"
  "ep_latest_blockhash (sample_client x f) c w = (Inr (''hash'', 1), w)"
  "hash_of_text (sample_client x f) s = Some 3"
  "ep_send (sample_client x f) t c w = (Inr 7, Suc w)"
  "ep_statuses (sample_client x f) sigs w = (Inr [Some failed_status], w)"
  "tx_signatures (sample_client x f) t = [7]"
  by (simp_all add: sample_client_def sample_codec_def)

theorem confirmation_dropped_witness:
  "fst (send_and_confirm (sample_client 100 5 :: (nat, unit, unit) client) () 0) = Inr 7
   \<and> fst (confirm_transaction (sample_client 100 5 :: (nat, unit, unit) client) 7 AtConfirmed 1) = Inr False"
proof -
  let ?C = "sample_client 100 5 :: (nat, unit, unit) client"
  from confirmation_dropped [of ?C 7 "\<lambda>_. Some failed_status" "()" 0 1 "[]" AtConfirmed]
  show ?thesis by (simp add: settled_def failed_status_def commitment_matches_def)
qed

end
