(* ===== verification/Cli_Signers.thy ===== *)
theory Cli_Signers
  imports Client_Rpc
begin

text \<open>
  How the command line tools turn arguments into signers and commands:
  \<open>generate_unique_signers\<close>, \<open>CliSignerInfo\<close> of \<open>clap-v3-utils/src/keypair.rs\<close>, \<open>signer_of\<close> of
  \<open>input_parsers.rs\<close>, and the parsers of \<open>solana-cli/src/commands/wallet.rs\<close> and \<open>nonce.rs\<close> for the
  commands that sign.  What clap matched, and the reading of keys and signers from their
  locations, are the fields of \<open>matches\<close>; signers are equal when their public keys are
  (the SDK's equality).
\<close>

section \<open>Errors of the command line\<close>

datatype cli_error =
    CliBadParameter string
  | CliClient client_error
  | CliInsufficientFundsForFee u64 pubkey
  | CliInsufficientFundsForSpend u64 pubkey
  | CliInsufficientFundsForSpendAndFee u64 u64 pubkey
  | CliInvalidNonce client_nonce_error
  | CliDynamicProgramError string
  | CliRpcRequestError string
  | CliSigner string \<comment> \<open>a boxed \<open>SignerError\<close> or key error\<close>

text \<open>The conversions of \<open>cli.rs\<close> and of \<open>?\<close>.\<close>

definition cli_of_nonce :: "client_nonce_error \<Rightarrow> cli_error" where
  "cli_of_nonce e = (case e of NonceClient s \<Rightarrow> CliRpcRequestError s | _ \<Rightarrow> CliInvalidNonce e)"

definition cli_of_boxed :: "boxed_error \<Rightarrow> cli_error" where
  "cli_of_boxed e =
     (case e of
        BoxedClient c \<Rightarrow> CliClient c
      | BoxedNonce n \<Rightarrow> CliInvalidNonce n
      | BoxedText s \<Rightarrow> CliDynamicProgramError s)"

section \<open>Signers\<close>

fun push_unique :: "('s \<Rightarrow> pubkey) \<Rightarrow> 's list \<Rightarrow> 's option list \<Rightarrow> 's list" where
  "push_unique key us [] = us"
| "push_unique key us (None # bulk) = push_unique key us bulk"
| "push_unique key us (Some s # bulk) =
     push_unique key (if list_ex (\<lambda>u. key u = key s) us then us else us @ [s]) bulk"

definition generate_unique_signers :: "('s \<Rightarrow> pubkey) \<Rightarrow> 's \<Rightarrow> 's option list \<Rightarrow> 's list" where
  "generate_unique_signers key default_signer bulk =
     push_unique key (if list_ex Option.is_none bulk then [default_signer] else []) bulk"

definition index_of :: "('s \<Rightarrow> pubkey) \<Rightarrow> 's list \<Rightarrow> pubkey option \<Rightarrow> nat option" where
  "index_of key signers pk =
     (case pk of Some k \<Rightarrow> position (\<lambda>s. key s = k) signers | None \<Rightarrow> Some 0)"

definition index_of_or_none :: "('s \<Rightarrow> pubkey) \<Rightarrow> 's list \<Rightarrow> pubkey option \<Rightarrow> nat option" where
  "index_of_or_none key signers pk =
     (case pk of Some k \<Rightarrow> position (\<lambda>s. key s = k) signers | None \<Rightarrow> None)"

definition signers_for_message :: "('s \<Rightarrow> pubkey) \<Rightarrow> 's list \<Rightarrow> pubkey list \<Rightarrow> 's list" where
  "signers_for_message key signers signer_keys = filter (\<lambda>s. key s \<in> set signer_keys) signers"

section \<open>Arguments\<close>

record 's matches =
  arg_value :: "string \<Rightarrow> string option"
  arg_present :: "string \<Rightarrow> bool"
  signer_from_path :: "string \<Rightarrow> string \<Rightarrow> string + 's" \<comment> \<open>location, argument name\<close>
  pubkey_from_path :: "string \<Rightarrow> string \<Rightarrow> string + pubkey"
  parse_key :: "string \<Rightarrow> pubkey option"
  parse_hash :: "string \<Rightarrow> hash option"
  parse_sol :: "string \<Rightarrow> u64 option" \<comment> \<open>\<open>sol_to_lamports\<close> of the parsed number\<close>
  keypair_key :: "string \<Rightarrow> pubkey option" \<comment> \<open>of the keypair file or seed phrase\<close>

definition value_of :: "'s matches \<Rightarrow> (string \<Rightarrow> 'a option) \<Rightarrow> string \<Rightarrow> 'a option" where
  "value_of A parse name = (case arg_value A name of Some v \<Rightarrow> parse v | None \<Rightarrow> None)"

definition pubkey_of :: "'s matches \<Rightarrow> string \<Rightarrow> pubkey option" where
  "pubkey_of A name =
     (case value_of A (parse_key A) name of
        Some k \<Rightarrow> Some k
      | None \<Rightarrow> Option.bind (arg_value A name) (keypair_key A))"

text \<open>\<open>signer_of\<close> and \<open>pubkey_of_signer\<close>; their boxed error becomes a \<open>DynamicProgramError\<close>.\<close>

definition boxed :: "string + 'a \<Rightarrow> ('a, cli_error) res" where
  "boxed r = (case r of Inl e \<Rightarrow> Inl (Err (CliDynamicProgramError e)) | Inr a \<Rightarrow> Inr a)"

definition signer_of ::
  "('s \<Rightarrow> pubkey) \<Rightarrow> 's matches \<Rightarrow> string \<Rightarrow> ('s option \<times> pubkey option, cli_error) res" where
  "signer_of key A name =
     (case arg_value A name of
        Some location \<Rightarrow>
          rbind (boxed (signer_from_path A location name)) (\<lambda>s. Inr (Some s, Some (key s)))
      | None \<Rightarrow> Inr (None, None))"

definition pubkey_of_signer :: "'s matches \<Rightarrow> string \<Rightarrow> (pubkey option, cli_error) res" where
  "pubkey_of_signer A name =
     (case arg_value A name of
        Some location \<Rightarrow> rbind (boxed (pubkey_from_path A location name)) (\<lambda>k. Inr (Some k))
      | None \<Rightarrow> Inr None)"

definition unwrapped :: "'a option \<Rightarrow> ('a, cli_error) res" where
  "unwrapped x = (case x of None \<Rightarrow> Inl Panic | Some a \<Rightarrow> Inr a)"

datatype spend_amount = SpendAll | SpendSome u64 | SpendRentExempt

definition new_spend_amount :: "u64 option \<Rightarrow> bool \<Rightarrow> (spend_amount, cli_error) res" where
  "new_spend_amount amount sign_only =
     (case amount of
        Some l \<Rightarrow> Inr (SpendSome l)
      | None \<Rightarrow> if \<not> sign_only then Inr SpendAll else Inl Panic)"

definition lamports_of_sol :: "'s matches \<Rightarrow> string \<Rightarrow> u64 option" where
  "lamports_of_sol A name = value_of A (parse_sol A) name"

definition spend_amount_from_matches :: "'s matches \<Rightarrow> string \<Rightarrow> (spend_amount, cli_error) res" where
  "spend_amount_from_matches A name =
     new_spend_amount (lamports_of_sol A name) (arg_present A ''sign_only'')"

definition blockhash_query_from_matches :: "'s matches \<Rightarrow> (blockhash_query, cli_error) res" where
  "blockhash_query_from_matches A =
     (case new_blockhash_query (value_of A (parse_hash A) ''blockhash'') (arg_present A ''sign_only'')
             (pubkey_of A ''nonce'') of
        Inl _ \<Rightarrow> Inl Panic
      | Inr q \<Rightarrow> Inr q)"

section \<open>Commands\<close>

text \<open>\<open>CliCommand::Transfer\<close>; signers are named by their index.\<close>

record transfer_command =
  t_amount :: spend_amount
  t_to :: pubkey
  t_sign_only :: bool
  t_dump_message :: bool
  t_allow_unfunded :: bool
  t_no_wait :: bool
  t_blockhash_query :: blockhash_query
  t_nonce_account :: "pubkey option"
  t_nonce_authority :: nat
  t_memo :: "string option"
  t_fee_payer :: nat
  t_from :: nat
  t_seed :: "string option"
  t_seed_program :: "pubkey option"

record program_ids =
  stake_program :: pubkey
  vote_program_id :: pubkey

definition ascii_upper :: "char \<Rightarrow> char" where
  "ascii_upper c =
     (let n = of_char c :: nat in if 97 \<le> n \<and> n \<le> 122 then char_of (n - 32) else c)"

definition derived_program_id :: "program_ids \<Rightarrow> 's matches \<Rightarrow> string \<Rightarrow> pubkey option" where
  "derived_program_id I A name =
     Option.bind (arg_value A name) (\<lambda>v.
     let upper = map ascii_upper v
     in if upper = ''NONCE'' \<or> upper = ''SYSTEM'' then Some system_program_id
        else if upper = ''STAKE'' then Some (stake_program I)
        else if upper = ''VOTE'' then Some (vote_program_id I)
        else pubkey_of A name)"

definition parse_transfer ::
  "('s \<Rightarrow> pubkey) \<Rightarrow> program_ids \<Rightarrow> 's matches \<Rightarrow> 's \<Rightarrow> (transfer_command \<times> 's list, cli_error) res" where
  "parse_transfer key I A default_signer =
     rbind (spend_amount_from_matches A ''amount'') (\<lambda>amount.
     rbind (pubkey_of_signer A ''to'') (\<lambda>to_opt.
     rbind (unwrapped to_opt) (\<lambda>to_key.
     rbind (blockhash_query_from_matches A) (\<lambda>query.
     rbind (pubkey_of_signer A ''nonce'') (\<lambda>nonce_key.
     rbind (signer_of key A ''nonce_authority'') (\<lambda>(nonce_authority, nonce_authority_key).
     rbind (signer_of key A ''fee_payer'') (\<lambda>(fee_payer, fee_payer_key).
     rbind (signer_of key A ''from'') (\<lambda>(from_signer, from_key).
     let bulk = [fee_payer, from_signer] @ (if nonce_key \<noteq> None then [nonce_authority] else []);
         signers = generate_unique_signers key default_signer bulk
     in rbind (unwrapped (index_of key signers nonce_authority_key)) (\<lambda>nonce_index.
        rbind (unwrapped (index_of key signers fee_payer_key)) (\<lambda>fee_index.
        rbind (unwrapped (index_of key signers from_key)) (\<lambda>from_index.
        Inr (\<lparr>t_amount = amount, t_to = to_key, t_sign_only = arg_present A ''sign_only'',
              t_dump_message = arg_present A ''dump_transaction_message'',
              t_allow_unfunded = arg_present A ''allow_unfunded_recipient'',
              t_no_wait = arg_present A ''no_wait'', t_blockhash_query = query,
              t_nonce_account = nonce_key, t_nonce_authority = nonce_index,
              t_memo = arg_value A ''memo'', t_fee_payer = fee_index, t_from = from_index,
              t_seed = arg_value A ''derived_address_seed'',
              t_seed_program = derived_program_id I A ''derived_address_program_id''\<rparr>, signers))))))))))))"

text \<open>
  The nonce commands share their signers: the default one first, then the authority when one
  was given.
\<close>

definition nonce_command_signers ::
  "('s \<Rightarrow> pubkey) \<Rightarrow> 's matches \<Rightarrow> 's \<Rightarrow> ('s list \<times> nat, cli_error) res" where
  "nonce_command_signers key A default_signer =
     rbind (signer_of key A ''nonce_authority'') (\<lambda>(nonce_authority, nonce_authority_key).
     let signers = generate_unique_signers key default_signer [None, nonce_authority]
     in rbind (unwrapped (index_of key signers nonce_authority_key)) (\<lambda>i. Inr (signers, i)))"

definition required_key :: "'s matches \<Rightarrow> string \<Rightarrow> (pubkey, cli_error) res" where
  "required_key A name = rbind (pubkey_of_signer A name) unwrapped"

text \<open>The nonce account, the new authority, the memo, the authority's index and the signers.\<close>

definition parse_authorize_nonce ::
  "('s \<Rightarrow> pubkey) \<Rightarrow> 's matches \<Rightarrow> 's
     \<Rightarrow> (pubkey \<times> pubkey \<times> string option \<times> nat \<times> 's list, cli_error) res" where
  "parse_authorize_nonce key A default_signer =
     rbind (required_key A ''nonce_account_pubkey'') (\<lambda>nonce_key.
     rbind (required_key A ''new_authority'') (\<lambda>new_authority.
     rbind (nonce_command_signers key A default_signer) (\<lambda>(signers, i).
     Inr (nonce_key, new_authority, arg_value A ''memo'', i, signers))))"

definition parse_new_nonce ::
  "('s \<Rightarrow> pubkey) \<Rightarrow> 's matches \<Rightarrow> 's \<Rightarrow> (pubkey \<times> string option \<times> nat \<times> 's list, cli_error) res" where
  "parse_new_nonce key A default_signer =
     rbind (required_key A ''nonce_account_pubkey'') (\<lambda>nonce_key.
     rbind (nonce_command_signers key A default_signer) (\<lambda>(signers, i).
     Inr (nonce_key, arg_value A ''memo'', i, signers)))"

definition parse_withdraw_nonce ::
  "('s \<Rightarrow> pubkey) \<Rightarrow> 's matches \<Rightarrow> 's
     \<Rightarrow> (pubkey \<times> pubkey \<times> u64 \<times> string option \<times> nat \<times> 's list, cli_error) res" where
  "parse_withdraw_nonce key A default_signer =
     rbind (required_key A ''nonce_account_pubkey'') (\<lambda>nonce_key.
     rbind (required_key A ''destination_account_pubkey'') (\<lambda>destination.
     rbind (unwrapped (lamports_of_sol A ''amount'')) (\<lambda>amount.
     rbind (nonce_command_signers key A default_signer) (\<lambda>(signers, i).
     Inr (nonce_key, destination, amount, arg_value A ''memo'', i, signers)))))"

text \<open>\<open>fresh\<close> is the keypair generated for the account.\<close>

definition parse_create_nonce ::
  "('s \<Rightarrow> pubkey) \<Rightarrow> 's matches \<Rightarrow> 's \<Rightarrow> 's
     \<Rightarrow> (nat \<times> string option \<times> pubkey option \<times> string option \<times> spend_amount \<times> 's list, cli_error) res" where
  "parse_create_nonce key A default_signer fresh =
     rbind (spend_amount_from_matches A ''amount'') (\<lambda>amount.
     rbind (pubkey_of_signer A ''nonce_authority'') (\<lambda>nonce_authority.
     let signers = generate_unique_signers key default_signer [None, Some fresh]
     in rbind (unwrapped (index_of key signers (Some (key fresh)))) (\<lambda>i.
        Inr (i, arg_value A ''seed'', nonce_authority, arg_value A ''memo'', amount, signers))))"

text \<open>\<open>parse_airdrop\<close> and \<open>parse_balance\<close> take the default signer only without a key.\<close>

definition parse_airdrop ::
  "'s matches \<Rightarrow> 's \<Rightarrow> (pubkey option \<times> u64 \<times> 's list, cli_error) res" where
  "parse_airdrop A default_signer =
     rbind (pubkey_of_signer A ''to'') (\<lambda>k.
     rbind (unwrapped (lamports_of_sol A ''amount'')) (\<lambda>l.
     Inr (k, l, if k \<noteq> None then [] else [default_signer])))"

definition parse_balance ::
  "'s matches \<Rightarrow> 's \<Rightarrow> (pubkey option \<times> bool \<times> 's list, cli_error) res" where
  "parse_balance A default_signer =
     rbind (pubkey_of_signer A ''pubkey'') (\<lambda>k.
     Inr (k, arg_present A ''lamports'', if k \<noteq> None then [] else [default_signer]))"

section \<open>The signers of a command\<close>

lemma list_ex_key: "list_ex (\<lambda>u. key u = key s) us \<longleftrightarrow> key s \<in> key ` set us"
  unfolding list_ex_iff image_iff by metis

lemma push_unique_step [simp]:
  "key s \<in> key ` set us \<Longrightarrow> push_unique key us (Some s # bulk) = push_unique key us bulk"
  "key s \<notin> key ` set us \<Longrightarrow> push_unique key us (Some s # bulk) = push_unique key (us @ [s]) bulk"
  by (simp_all only: push_unique.simps list_ex_key if_True if_False)

declare push_unique.simps(3) [simp del]

lemma push_unique_induct [case_names Nil None Old New]:
  assumes "\<And>us. P us []" and "\<And>us bulk. P us bulk \<Longrightarrow> P us (None # bulk)"
    and "\<And>us s bulk. key s \<in> key ` set us \<Longrightarrow> P us bulk \<Longrightarrow> P us (Some s # bulk)"
    and "\<And>us s bulk. key s \<notin> key ` set us \<Longrightarrow> P (us @ [s]) bulk \<Longrightarrow> P us (Some s # bulk)"
  shows "P us bulk"
proof (induction bulk arbitrary: us)
  case (Cons b bulk)
  show ?case
  proof (cases b)
    case (Some s)
    then show ?thesis using assms(3,4) Cons.IH by (cases "key s \<in> key ` set us") auto
  qed (use assms(2) Cons.IH in auto)
qed (rule assms(1))

lemma push_unique_prefix: "\<exists>more. push_unique key us bulk = us @ more"
  by (induction us bulk rule: push_unique_induct [where key = key]) auto

lemma push_unique_distinct:
  "distinct (map key us) \<Longrightarrow> distinct (map key (push_unique key us bulk))"
  by (induction us bulk rule: push_unique_induct [where key = key]) simp_all

lemma push_unique_keys:
  "key ` set (push_unique key us bulk) = key ` set us \<union> {key s | s. Some s \<in> set bulk}"
  by (induction us bulk rule: push_unique_induct [where key = key]) (simp_all, blast+)

lemma generated_distinct: "distinct (map key (generate_unique_signers key d bulk))"
  by (simp add: generate_unique_signers_def push_unique_distinct)

lemma generated_keys:
  "key ` set (generate_unique_signers key d bulk)
     = (if None \<in> set bulk then {key d} else {}) \<union> {key s | s. Some s \<in> set bulk}"
  by (auto simp: generate_unique_signers_def push_unique_keys list_ex_iff Option.is_none_def)

lemma generated_default_first:
  assumes "None \<in> set bulk"
  shows "\<exists>more. generate_unique_signers key d bulk = d # more"
  using assms push_unique_prefix [of key "[d]" bulk]
  by (auto simp: generate_unique_signers_def list_ex_iff Option.is_none_def)

text \<open>An argument resolves to its own signer, or to the default one when it is missing.\<close>

definition resolves :: "('s \<Rightarrow> pubkey) \<Rightarrow> 's list \<Rightarrow> nat \<Rightarrow> 's option \<Rightarrow> 's \<Rightarrow> bool" where
  "resolves key signers i given d \<longleftrightarrow>
     i < length signers \<and> key (signers ! i) = (case given of Some s \<Rightarrow> key s | None \<Rightarrow> key d)"

lemma index_resolves:
  assumes "index_of key (generate_unique_signers key d bulk) (map_option key given) = Some i"
    and "given \<in> set bulk"
  shows "resolves key (generate_unique_signers key d bulk) i given d"
proof (cases given)
  case None
  then obtain more where "generate_unique_signers key d bulk = d # more"
    using generated_default_first [of bulk key d] assms(2) by auto
  then show ?thesis using assms(1) None by (simp add: index_of_def resolves_def)
next
  case (Some s)
  then show ?thesis using assms(1) by (auto simp: index_of_def resolves_def position_Some)
qed

lemma index_found:
  assumes "given \<in> set bulk"
  shows "\<exists>i. index_of key (generate_unique_signers key d bulk) (map_option key given) = Some i"
proof (cases given)
  case (Some s)
  then have "key s \<in> key ` set (generate_unique_signers key d bulk)"
    using assms by (auto simp: generated_keys)
  then have "position (\<lambda>x. key x = key s) (generate_unique_signers key d bulk) \<noteq> None"
    by (auto simp: position_None)
  then show ?thesis using Some by (auto simp: index_of_def)
qed (simp add: index_of_def)

lemma signer_of_keys:
  "signer_of key A name = Inr (s, k) \<Longrightarrow> k = map_option key s"
  by (auto simp: signer_of_def rbind_Inr_iff split: option.splits)

lemma unwrapped_Inr [simp]: "unwrapped x = Inr a \<longleftrightarrow> x = Some a"
  by (auto simp: unwrapped_def split: option.splits)

text \<open>
  The indices of a parsed transfer name the right signers.  No key is repeated; the source
  and the fee payer are the signers given for them, or the default signer where none was given;
  and so is the nonce authority when there is a nonce account.
\<close>

theorem transfer_signers_resolve:
  assumes "parse_transfer key I A d = Inr (cmd, signers)"
  shows "\<exists>from_arg fee_arg nonce_arg.
      signer_of key A ''from'' = Inr (from_arg, map_option key from_arg)
    \<and> signer_of key A ''fee_payer'' = Inr (fee_arg, map_option key fee_arg)
    \<and> signer_of key A ''nonce_authority'' = Inr (nonce_arg, map_option key nonce_arg)
    \<and> distinct (map key signers)
    \<and> resolves key signers (t_from cmd) from_arg d
    \<and> resolves key signers (t_fee_payer cmd) fee_arg d
    \<and> (t_nonce_account cmd \<noteq> None \<longrightarrow> resolves key signers (t_nonce_authority cmd) nonce_arg d)"
proof -
  from assms obtain nonce_key nonce_arg nk fee_arg fk from_arg ffk ni fi oi bulk where
    args: "signer_of key A ''nonce_authority'' = Inr (nonce_arg, nk)"
      "signer_of key A ''fee_payer'' = Inr (fee_arg, fk)" "signer_of key A ''from'' = Inr (from_arg, ffk)"
    and bulk: "bulk = [fee_arg, from_arg] @ (if nonce_key \<noteq> None then [nonce_arg] else [])"
    and signers: "signers = generate_unique_signers key d bulk"
    and idx: "index_of key signers nk = Some ni" "index_of key signers fk = Some fi" "index_of key signers ffk = Some oi"
    and cmd: "t_nonce_authority cmd = ni" "t_fee_payer cmd = fi" "t_from cmd = oi" "t_nonce_account cmd = nonce_key"
    by (auto simp: parse_transfer_def rbind_Inr_iff Let_def split: prod.splits)
  note keys = args [THEN signer_of_keys]
  have "resolves key signers oi from_arg d" "resolves key signers fi fee_arg d"
    using idx bulk unfolding signers keys by (auto intro!: index_resolves)
  moreover have "nonce_key \<noteq> None \<Longrightarrow> resolves key signers ni nonce_arg d"
    using idx bulk unfolding signers keys by (auto intro!: index_resolves)
  ultimately show ?thesis
    using args cmd generated_distinct [of key d bulk] unfolding keys signers by auto
qed

text \<open>Arguments for the witness: signers are keys, each location the text of one.\<close>

definition sample_matches :: "pubkey matches" where
  "sample_matches =
     \<lparr>arg_value = [''amount'' \<mapsto> ''1'', ''to'' \<mapsto> ''55555'', ''fee_payer'' \<mapsto> ''22'', ''nonce'' \<mapsto> ''333''],
      arg_present = (\<lambda>_. False), signer_from_path = (\<lambda>l _. Inr (of_nat (length l))),
      pubkey_from_path = (\<lambda>l _. Inr (of_nat (length l))), parse_key = (\<lambda>l. Some (of_nat (length l))),
      parse_hash = (\<lambda>_. None), parse_sol = (\<lambda>_. Some 10), keypair_key = (\<lambda>_. None)\<rparr>"

theorem transfer_signers_resolve_witness:
  "\<exists>cmd. parse_transfer id \<lparr>stake_program = 5, vote_program_id = 6\<rparr> sample_matches 9 = Inr (cmd, [9, 2])
     \<and> resolves id [9, 2 :: pubkey] (t_fee_payer cmd) (Some 2) 9
     \<and> resolves id [9, 2 :: pubkey] (t_nonce_authority cmd) None 9"
proof -
  obtain cmd where "parse_transfer id \<lparr>stake_program = 5, vote_program_id = 6\<rparr> sample_matches 9 = Inr (cmd, [9, 2])"
      and "t_nonce_account cmd \<noteq> None"
    by (simp add: parse_transfer_def sample_matches_def spend_amount_from_matches_def new_spend_amount_def
        lamports_of_sol_def value_of_def pubkey_of_signer_def boxed_def blockhash_query_from_matches_def
        new_blockhash_query_def pubkey_of_def signer_of_def generate_unique_signers_def index_of_def
        unwrapped_def push_unique.simps(3))
  from this(1) this(2) transfer_signers_resolve [OF this(1)] show ?thesis
    by (auto simp: sample_matches_def signer_of_def boxed_def)
qed

end
