(* ===== verification/Cli_Spend.thy ===== *)
theory Cli_Spend
  imports Cli_Signers
begin

text \<open>
  Whether an account can pay: the balance and fee checks of \<open>solana-cli/src/utils/checks.rs\<close> and
  the resolution of the amount to spend of \<open>spend_utils.rs\<close>.  Sums of \<open>u64\<close> wrap, as they do in
  the release build.  Amounts in errors are lamports.
\<close>

section \<open>Checks\<close>

fun sum_fees :: "('w, 'm, 't) client \<Rightarrow> u64 \<Rightarrow> 'm list \<Rightarrow> ('w, cli_error, u64) act" where
  "sum_fees C acc [] = aret acc"
| "sum_fees C acc (m # ms) =
     abind (amap_err CliClient (client_fee C m)) (\<lambda>f. sum_fees C (acc + f) ms)"

definition get_fee_for_messages :: "('w, 'm, 't) client \<Rightarrow> 'm list \<Rightarrow> ('w, cli_error, u64) act" where
  "get_fee_for_messages C ms = sum_fees C 0 ms"

definition check_account_for_balance ::
  "('w, 'm, 't) client \<Rightarrow> pubkey \<Rightarrow> u64 \<Rightarrow> commitment_level \<Rightarrow> ('w, client_error, bool) act" where
  "check_account_for_balance C k balance c =
     abind (get_balance_with_commitment C k c) (\<lambda>l. aret (l \<noteq> 0 \<and> balance \<le> l))"

definition check_account_for_spend_and_fee ::
  "('w, 'm, 't) client \<Rightarrow> pubkey \<Rightarrow> u64 \<Rightarrow> u64 \<Rightarrow> commitment_level \<Rightarrow> ('w, cli_error, unit) act" where
  "check_account_for_spend_and_fee C k balance f c =
     abind (amap_err CliClient (check_account_for_balance C k (balance + f) c)) (\<lambda>ok.
     if \<not> ok then
       (if 0 < balance then afail (CliInsufficientFundsForSpendAndFee balance f k)
        else afail (CliInsufficientFundsForFee f k))
     else aret ())"

definition check_account_for_spend_multiple_fees ::
  "('w, 'm, 't) client \<Rightarrow> pubkey \<Rightarrow> u64 \<Rightarrow> 'm list \<Rightarrow> commitment_level \<Rightarrow> ('w, cli_error, unit) act" where
  "check_account_for_spend_multiple_fees C k balance ms c =
     abind (get_fee_for_messages C ms) (\<lambda>f. check_account_for_spend_and_fee C k balance f c)"

definition check_account_for_multiple_fees ::
  "('w, 'm, 't) client \<Rightarrow> pubkey \<Rightarrow> 'm list \<Rightarrow> commitment_level \<Rightarrow> ('w, cli_error, unit) act" where
  "check_account_for_multiple_fees C k ms c = check_account_for_spend_multiple_fees C k 0 ms c"

definition check_account_for_fee ::
  "('w, 'm, 't) client \<Rightarrow> pubkey \<Rightarrow> 'm \<Rightarrow> commitment_level \<Rightarrow> ('w, cli_error, unit) act" where
  "check_account_for_fee C k m c = check_account_for_multiple_fees C k [m] c"

definition check_unique_pubkeys :: "pubkey \<times> string \<Rightarrow> pubkey \<times> string \<Rightarrow> (unit, cli_error) res" where
  "check_unique_pubkeys k0 k1 =
     (if fst k0 = fst k1 then
        Inl (Err (CliBadParameter (''Identical pubkeys found: `'' @ snd k0 @ ''` and `'' @ snd k1 @ ''` must be unique'')))
      else Inr ())"

section \<open>Spending\<close>

text \<open>
  \<open>B\<close> builds the message for an amount (it may panic), \<open>setb\<close> sets its recent blockhash.  The
  answer is the message, the amount and the fee.
\<close>

definition resolve_spend_message ::
  "('w, 'm, 't) client \<Rightarrow> (hash \<Rightarrow> 'm \<Rightarrow> 'm) \<Rightarrow> (u64 \<Rightarrow> ('m, cli_error) res) \<Rightarrow> spend_amount \<Rightarrow> hash option
     \<Rightarrow> u64 \<Rightarrow> pubkey \<Rightarrow> pubkey \<Rightarrow> u64 \<Rightarrow> ('w, cli_error, 'm \<times> u64 \<times> u64) act" where
  "resolve_spend_message C setb B amount blockhash from_balance from_key fee_key rent_minimum =
     abind (case blockhash of
              Some h \<Rightarrow> abind (aresult (B 0)) (\<lambda>m. get_fee_for_messages C [setb h m])
            | None \<Rightarrow> aret 0) (\<lambda>f.
     let available = (if from_key = fee_key then saturating_sub from_balance f else from_balance);
         spend = (case amount of
                    SpendSome l \<Rightarrow> l
                  | SpendAll \<Rightarrow> available
                  | SpendRentExempt \<Rightarrow> saturating_sub available rent_minimum)
     in abind (aresult (B spend)) (\<lambda>m. aret (m, spend, f)))"

definition resolve_spend_tx ::
  "('w, 'm, 't) client \<Rightarrow> (hash \<Rightarrow> 'm \<Rightarrow> 'm) \<Rightarrow> (u64 \<Rightarrow> ('m, cli_error) res) \<Rightarrow> bool \<Rightarrow> spend_amount \<Rightarrow> hash
     \<Rightarrow> pubkey \<Rightarrow> pubkey \<Rightarrow> commitment_level \<Rightarrow> ('w, cli_error, 'm \<times> u64) act" where
  "resolve_spend_tx C setb B sign_only amount blockhash from_key fee_key c =
     (if sign_only then
        abind (resolve_spend_message C setb B amount None 0 from_key fee_key 0) (\<lambda>(m, spend, _). aret (m, spend))
      else
        abind (amap_err CliClient (get_balance_with_commitment C from_key c)) (\<lambda>from_balance.
        abind (if amount = SpendRentExempt then
                 abind (amap_err CliClient (get_account_data C from_key)) (\<lambda>d.
                 amap_err CliClient (client_minimum_balance C (length d)))
               else aret 0) (\<lambda>rent_minimum.
        abind (resolve_spend_message C setb B amount (Some blockhash) from_balance from_key fee_key rent_minimum)
          (\<lambda>(m, spend, f).
        if from_key = fee_key then
          (if from_balance = 0 \<or> from_balance < spend + f then
             afail (CliInsufficientFundsForSpendAndFee spend f from_key)
           else aret (m, spend))
        else if from_balance < spend then afail (CliInsufficientFundsForSpend spend from_key)
        else abind (amap_err CliClient (check_account_for_balance C fee_key f c)) (\<lambda>ok.
             if \<not> ok then afail (CliInsufficientFundsForFee f fee_key) else aret (m, spend))))))"

text \<open>\<open>resolve_spend_tx_and_check_account_balance\<close>: the source pays the fee.\<close>

definition resolve_own_spend_tx ::
  "('w, 'm, 't) client \<Rightarrow> (hash \<Rightarrow> 'm \<Rightarrow> 'm) \<Rightarrow> (u64 \<Rightarrow> ('m, cli_error) res) \<Rightarrow> bool \<Rightarrow> spend_amount \<Rightarrow> hash
     \<Rightarrow> pubkey \<Rightarrow> commitment_level \<Rightarrow> ('w, cli_error, 'm \<times> u64) act" where
  "resolve_own_spend_tx C setb B sign_only amount blockhash from_key c =
     resolve_spend_tx C setb B sign_only amount blockhash from_key from_key c"

section \<open>The checks submit nothing\<close>

context quiet_server
begin

lemma quiet_fees: "quiet sent (sum_fees C acc ms)" "quiet sent (get_fee_for_messages C ms)"
proof -
  show "quiet sent (sum_fees C acc ms)" for acc ms
    by (induction ms arbitrary: acc) (auto intro!: quiet_intros quiet_reading)
  then show "quiet sent (get_fee_for_messages C ms)" by (simp add: get_fee_for_messages_def)
qed

lemma quiet_checks:
  "quiet sent (check_account_for_balance C k balance c)"
  "quiet sent (check_account_for_spend_and_fee C k balance f c)"
  "quiet sent (check_account_for_fee C k m c)"
  unfolding check_account_for_balance_def check_account_for_spend_and_fee_def check_account_for_fee_def
    check_account_for_multiple_fees_def check_account_for_spend_multiple_fees_def
  by (intro quiet_intros quiet_reading quiet_fees)+

lemma quiet_message:
  "quiet sent (resolve_spend_message C setb B amount h bal from_key fee_key rent)"
  "quiet sent (if amount = SpendRentExempt then
       abind (amap_err CliClient (get_account_data C from_key)) (\<lambda>d.
       amap_err CliClient (client_minimum_balance C (length d))) else aret 0)"
  unfolding resolve_spend_message_def Let_def
  by (intro quiet_intros quiet_reading quiet_fees)+

lemma quiet_spend: "quiet sent (resolve_spend_tx C setb B so amount h from_key fee_key c)"
  unfolding resolve_spend_tx_def resolve_spend_message_def Let_def
  by (intro quiet_intros quiet_reading quiet_fees quiet_checks)

end

section \<open>What an accepted spend can pay\<close>

lemma resolve_spend_message_Inr:
  assumes "resolve_spend_message C setb B amount blockhash bal from_key fee_key rent w = (Inr (m, spend, f), w')"
  shows "B spend = Inr m
    \<and> spend = (let available = (if from_key = fee_key then saturating_sub bal f else bal) in
         case amount of SpendSome l \<Rightarrow> l | SpendAll \<Rightarrow> available
         | SpendRentExempt \<Rightarrow> saturating_sub available rent)
    \<and> (blockhash = None \<longrightarrow> f = 0 \<and> w' = w)
    \<and> (\<forall>h. blockhash = Some h \<longrightarrow> (\<exists>m0. B 0 = Inr m0 \<and> get_fee_for_messages C [setb h m0] w = (Inr f, w')))"
  using assms
  by (auto simp: resolve_spend_message_def abind_Inr_iff Let_def split: option.splits)

lemma saturating_sub_le: "saturating_sub a b \<le> a" for a b :: "'a::len word"
  by (simp add: saturating_sub_def word_le_nat_alt unat_sub_nowrap)

lemma spend_plus_fee:
  fixes s bal f :: u64
  assumes "s \<le> saturating_sub bal f" and "s + f \<le> bal"
  shows "unat s + unat f \<le> unat bal"
proof (cases "f \<le> bal")
  case True
  then have "unat s \<le> unat bal - unat f"
    using assms(1) by (simp add: saturating_sub_def word_le_nat_alt unat_sub_nowrap)
  then show ?thesis using True by (simp add: word_le_nat_alt)
next
  case False
  then have "s = 0" using assms(1) by (simp add: saturating_sub_def)
  then show ?thesis using assms(2) by (simp add: word_le_nat_alt)
qed

lemma saturating_sub_mono_trans: "s \<le> saturating_sub x r \<Longrightarrow> s \<le> x" for s x r :: u64
  using saturating_sub_le [of x r] by (rule order.trans [rotated])

text \<open>
  C34. An accepted spend is covered.  When the amount of a transaction is resolved online, the
  message is built for exactly that amount and the fee is asked for the message built for
  zero with the recent blockhash.  A source that pays the fee itself has a non-zero balance of
  at least the amount and the fee, provided an explicitly given amount and the fee do not
  overflow together; with everything spent the two exhaust the balance.  Otherwise the source
  has the amount and the fee payer's balance is non-zero and covers the fee.
\<close>

theorem accepted_spend_covered:
  assumes "resolve_spend_tx C setb B False amount h from_key fee_key c w = (Inr (m, spend), w')"
  shows "\<exists>bal f w1 w2 w3. get_balance_with_commitment C from_key c w = (Inr bal, w1)
    \<and> B spend = Inr m
    \<and> (\<exists>m0. B 0 = Inr m0 \<and> get_fee_for_messages C [setb h m0] w2 = (Inr f, w3))
    \<and> (\<forall>l. amount = SpendSome l \<longrightarrow> spend = l)
    \<and> (if from_key = fee_key then
         0 < bal
         \<and> (unat spend + unat f < 2 ^ 64 \<or> (\<forall>l. amount \<noteq> SpendSome l) \<longrightarrow> unat spend + unat f \<le> unat bal)
         \<and> (amount = SpendAll \<longrightarrow> unat spend + unat f = unat bal)
       else
         spend \<le> bal \<and> (amount = SpendAll \<longrightarrow> spend = bal)
         \<and> (\<exists>fb w4. get_balance_with_commitment C fee_key c w3 = (Inr fb, w4) \<and> 0 < fb \<and> f \<le> fb))"
proof -
  from assms obtain bal rent w1 w2 f w3 where
    bal: "get_balance_with_commitment C from_key c w = (Inr bal, w1)"
    and msg: "resolve_spend_message C setb B amount (Some h) bal from_key fee_key rent w2 = (Inr (m, spend, f), w3)"
    and check: "if from_key = fee_key then \<not> (bal = 0 \<or> bal < spend + f)
      else \<not> bal < spend \<and> (\<exists>fb w4. get_balance_with_commitment C fee_key c w3 = (Inr fb, w4) \<and> fb \<noteq> 0 \<and> f \<le> fb)"
    by (auto simp: resolve_spend_tx_def abind_Inr_iff check_account_for_balance_def split: if_splits prod.splits)
  note parts = resolve_spend_message_Inr [OF msg]
  have own: "0 < bal
         \<and> (unat spend + unat f < 2 ^ 64 \<or> (\<forall>l. amount \<noteq> SpendSome l) \<longrightarrow> unat spend + unat f \<le> unat bal)
         \<and> (amount = SpendAll \<longrightarrow> unat spend + unat f = unat bal)" (is ?own) if same: "from_key = fee_key"
  proof -
    have le: "spend + f \<le> bal" and pos: "0 < bal"
      using check same by (auto simp: word_neq_0_conv)
    have "spend \<le> saturating_sub bal f" if "\<forall>l. amount \<noteq> SpendSome l"
      using parts that same by (cases amount) (auto simp: saturating_sub_le)
    moreover have "unat spend + unat f \<le> unat bal" if "unat spend + unat f < 2 ^ 64"
      using le that unat_add_nowrap [of spend f] by (simp add: word_le_nat_alt)
    moreover have "unat spend + unat f = unat bal" if "amount = SpendAll"
    proof -
      have s: "spend = saturating_sub bal f" using parts that same by simp
      then have "f \<le> bal" using le by (cases "f \<le> bal") (auto simp: saturating_sub_def)
      then show ?thesis using s by (simp add: saturating_sub_def unat_sub_nowrap word_le_nat_alt)
    qed
    ultimately show ?thesis using pos spend_plus_fee [OF _ le] by blast
  qed
  have other: "spend \<le> bal \<and> (amount = SpendAll \<longrightarrow> spend = bal)
         \<and> (\<exists>fb w4. get_balance_with_commitment C fee_key c w3 = (Inr fb, w4) \<and> 0 < fb \<and> f \<le> fb)" (is ?other)
    if "from_key \<noteq> fee_key"
    using check parts that by (auto simp: word_neq_0_conv)
  obtain m0 where m0: "B 0 = Inr m0" "get_fee_for_messages C [setb h m0] w2 = (Inr f, w3)"
    using parts by blast
  have built: "B spend = Inr m" using parts by (rule conjunct1)
  have given: "\<forall>l. amount = SpendSome l \<longrightarrow> spend = l"
    using conjunct1 [OF conjunct2 [OF parts]] by simp
  show ?thesis
  proof (intro exI conjI)
    show "get_balance_with_commitment C from_key c w = (Inr bal, w1)" by (rule bal)
    show "B spend = Inr m" by (rule built)
    show "B 0 = Inr m0" by (rule m0)
    show "get_fee_for_messages C [setb h m0] w2 = (Inr f, w3)" by (rule m0)
    show "\<forall>l. amount = SpendSome l \<longrightarrow> spend = l" by (rule given)
    show "if from_key = fee_key then ?own else ?other"
      by (rule if_split [THEN iffD2], rule conjI, rule impI, erule own, rule impI, erule other)
  qed
qed

text \<open>
  The overflow is real: with 5000 lamports of fee, \<open>2^64 - 1\<close> lamports are accepted from a source
  that has 5000.
\<close>

lemma overflowing_spend_accepted:
  "resolve_spend_tx (sample_client 5000 5000) (\<lambda>_ m. m) (\<lambda>l. Inr l) False (SpendSome (- 1)) h k k c w
     = (Inr (- 1 :: u64, - 1), w)"
  by (simp add: resolve_spend_tx_def resolve_spend_message_def get_balance_with_commitment_def
      get_fee_for_messages_def client_fee_def abind_def amap_err_def Let_def)

theorem accepted_spend_covered_witness:
  "let C = sample_client 6000 5000 :: (nat, u64, unit) client in
     resolve_spend_tx C (\<lambda>_ m. m) (\<lambda>l. Inr l) False SpendAll 7 3 3 AtConfirmed 0 = (Inr (1000, 1000), 0)
   \<and> (\<exists>bal f w1 w2 w3. get_balance_with_commitment C 3 AtConfirmed 0 = (Inr bal, w1)
        \<and> get_fee_for_messages C [0] w2 = (Inr f, w3) \<and> unat (1000 :: u64) + unat f = unat bal)"
proof -
  let ?C = "sample_client 6000 5000 :: (nat, u64, unit) client"
  have run: "resolve_spend_tx ?C (\<lambda>_ m. m) (\<lambda>l. Inr l) False SpendAll 7 3 3 AtConfirmed 0 = (Inr (1000, 1000), 0)"
    by (simp add: resolve_spend_tx_def resolve_spend_message_def get_balance_with_commitment_def
        get_fee_for_messages_def client_fee_def abind_def amap_err_def Let_def saturating_sub_def)
  from run accepted_spend_covered [OF run] show ?thesis
    unfolding Let_def by fastforce
qed

end
