(* ===== verification/Cli_Wallet.thy ===== *)
theory Cli_Wallet
  imports Cli_Spend Client_Instruction
begin

text \<open>
  The commands of \<open>solana-cli/src/commands/wallet.rs\<close> and \<open>nonce.rs\<close> that move lamports or change a
  nonce account: which checks they make on the server, and the one transaction they submit.
  Building instructions and messages, signing and the text of an answer are the SDK's, the
  fields of \<open>cli_sdk\<close>; lines printed to the terminal are left out.
\<close>

section \<open>Configuration\<close>

record ('s, 'm, 't) cli_sdk =
  signer_key :: "'s \<Rightarrow> pubkey"
  sys_transfer :: "pubkey \<Rightarrow> pubkey \<Rightarrow> u64 \<Rightarrow> client_instruction"
  sys_transfer_with_seed :: "pubkey \<Rightarrow> pubkey \<Rightarrow> string \<Rightarrow> pubkey \<Rightarrow> pubkey \<Rightarrow> u64 \<Rightarrow> client_instruction"
  sys_advance_nonce :: "pubkey \<Rightarrow> pubkey \<Rightarrow> client_instruction"
  sys_authorize_nonce :: "pubkey \<Rightarrow> pubkey \<Rightarrow> pubkey \<Rightarrow> client_instruction"
  sys_withdraw_nonce :: "pubkey \<Rightarrow> pubkey \<Rightarrow> pubkey \<Rightarrow> u64 \<Rightarrow> client_instruction"
  sys_create_nonce :: "pubkey \<Rightarrow> pubkey \<Rightarrow> pubkey \<Rightarrow> u64 \<Rightarrow> client_instruction list"
  sys_create_nonce_with_seed ::
    "pubkey \<Rightarrow> pubkey \<Rightarrow> pubkey \<Rightarrow> string \<Rightarrow> pubkey \<Rightarrow> u64 \<Rightarrow> client_instruction list"
  key_with_seed :: "pubkey \<Rightarrow> string \<Rightarrow> pubkey \<Rightarrow> string + pubkey"
  key_of_bytes :: "bytes \<Rightarrow> pubkey option" \<comment> \<open>\<open>Pubkey::try_from\<close>\<close>
  new_message :: "client_instruction list \<Rightarrow> pubkey \<Rightarrow> 'm"
  new_message_with_nonce :: "client_instruction list \<Rightarrow> pubkey \<Rightarrow> pubkey \<Rightarrow> pubkey \<Rightarrow> 'm"
  set_blockhash :: "hash \<Rightarrow> 'm \<Rightarrow> 'm"
  tx_message :: "'t \<Rightarrow> 'm"
  try_sign :: "'m \<Rightarrow> 's list \<Rightarrow> hash \<Rightarrow> string + 't"
  try_partial_sign :: "'m \<Rightarrow> 's list \<Rightarrow> hash \<Rightarrow> string + 't"
  signature_text :: "signature \<Rightarrow> string"
  sign_only_text :: "'t \<Rightarrow> bool \<Rightarrow> string"
  balance_text :: "u64 \<Rightarrow> bool \<Rightarrow> string"
  hash_text :: "hash \<Rightarrow> string"
  nonce_size_of_state :: nat

text \<open>\<open>config.signers[i]\<close>.\<close>

definition signer_at_index :: "'s list \<Rightarrow> nat \<Rightarrow> ('w, cli_error, 's) act" where
  "signer_at_index signers i = (if i < length signers then aret (signers ! i) else apanic)"

definition config_pubkey :: "('s, 'm, 't) cli_sdk \<Rightarrow> 's list \<Rightarrow> ('w, cli_error, pubkey) act" where
  "config_pubkey D signers =
     (case signers of
        [] \<Rightarrow> afail (CliSigner ''Default keypair must be set if pubkey arg not provided'')
      | s # _ \<Rightarrow> aret (signer_key D s))"

definition signer_result :: "string + 'a \<Rightarrow> ('w, cli_error, 'a) act" where
  "signer_result r = (case r of Inl e \<Rightarrow> afail (CliSigner e) | Inr a \<Rightarrow> aret a)"

text \<open>\<open>log_instruction_custom_error\<close> of the result of sending.\<close>

definition signature_answer ::
  "('s, 'm, 't) cli_sdk \<Rightarrow> ('w, client_error, signature) act \<Rightarrow> ('w, cli_error, string) act" where
  "signature_answer D m = abind (amap_err CliClient m) (\<lambda>sig. aret (signature_text D sig))"

definition memo_instructions ::
  "('s, 'm, 't) cli_sdk \<Rightarrow> string option \<Rightarrow> client_instruction list
     \<Rightarrow> (client_instruction list, cli_error) res" where
  "memo_instructions D memo ixs = with_memo (key_of_bytes D) memo ixs"

section \<open>Transfers\<close>

definition send_tx_wrapper ::
  "('w, 'm, 't) client \<Rightarrow> 't \<Rightarrow> bool \<Rightarrow> ('w, client_error, signature) act" where
  "send_tx_wrapper C t no_wait =
     (if no_wait then client_send C t (commitment_config C) else send_and_confirm C t)"

definition check_nonce_account ::
  "('w, 'm, 't) client \<Rightarrow> account \<Rightarrow> pubkey \<Rightarrow> hash \<Rightarrow> (unit, cli_error) res" where
  "check_nonce_account C a nonce_authority nonce_hash =
     (case state_from_account C a of
        Inl e \<Rightarrow> Inl (Err (cli_of_nonce e))
      | Inr Uninitialized \<Rightarrow> Inl (Err (cli_of_nonce NonceInvalidStateForOperation))
      | Inr (Initialized d) \<Rightarrow>
          if durable_nonce d \<noteq> nonce_hash then
            Inl (Err (cli_of_nonce (NonceInvalidHash nonce_hash (durable_nonce d))))
          else if nonce_authority \<noteq> authority d then
            Inl (Err (cli_of_nonce (NonceInvalidAuthority nonce_authority (authority d))))
          else Inr ())"

text \<open>The source: the signer's key, or an address derived from it when seed and program are given.\<close>

definition transfer_source ::
  "('s, 'm, 't) cli_sdk \<Rightarrow> pubkey \<Rightarrow> string option \<Rightarrow> pubkey option
     \<Rightarrow> ('w, cli_error, pubkey \<times> (string \<times> pubkey) option) act" where
  "transfer_source D base seed program =
     (case (seed, program) of
        (Some s, Some p) \<Rightarrow> abind (signer_result (key_with_seed D base s p)) (\<lambda>k. aret (k, Some (s, p)))
      | _ \<Rightarrow> aret (base, None))"

definition transfer_message ::
  "('s, 'm, 't) cli_sdk \<Rightarrow> pubkey \<Rightarrow> pubkey \<Rightarrow> (string \<times> pubkey) option \<Rightarrow> pubkey \<Rightarrow> string option
     \<Rightarrow> pubkey option \<Rightarrow> pubkey \<Rightarrow> pubkey \<Rightarrow> u64 \<Rightarrow> ('m, cli_error) res" where
  "transfer_message D base from_key with_seed to_key memo nonce_key nonce_authority fee_key l =
     rbind (memo_instructions D memo
              [case with_seed of
                 Some (s, p) \<Rightarrow> sys_transfer_with_seed D from_key base s p to_key l
               | None \<Rightarrow> sys_transfer D from_key to_key l]) (\<lambda>ixs.
     Inr (case nonce_key of
            Some n \<Rightarrow> new_message_with_nonce D ixs fee_key n nonce_authority
          | None \<Rightarrow> new_message D ixs fee_key))"

definition check_nonce_online ::
  "('w, 'm, 't) client \<Rightarrow> commitment_level \<Rightarrow> pubkey option \<Rightarrow> pubkey \<Rightarrow> hash \<Rightarrow> ('w, cli_error, unit) act" where
  "check_nonce_online C c nonce_key nonce_authority blockhash =
     (case nonce_key of
        None \<Rightarrow> aret ()
      | Some n \<Rightarrow>
          abind (amap_err CliInvalidNonce (nonce_account C n c)) (\<lambda>a.
          aresult (check_nonce_account C a nonce_authority blockhash)))"

text \<open>
  Everything before the signature: the key of the nonce authority, the blockhash, the source,
  the message and the amount.
\<close>

definition transfer_prepare ::
  "('w, 'm, 't) client \<Rightarrow> ('s, 'm, 't) cli_sdk \<Rightarrow> 's list \<Rightarrow> commitment_level \<Rightarrow> transfer_command
     \<Rightarrow> ('w, cli_error, pubkey \<times> hash \<times> pubkey \<times> 'm \<times> u64) act" where
  "transfer_prepare C D signers c cmd =
     abind (signer_at_index signers (t_from cmd)) (\<lambda>source.
     abind (amap_err cli_of_boxed (query_blockhash C (t_blockhash_query cmd) c)) (\<lambda>blockhash.
     abind (if \<not> t_sign_only cmd \<and> \<not> t_allow_unfunded cmd then
              abind (amap_err CliClient (get_balance_with_commitment C (t_to cmd) c)) (\<lambda>l.
              if l = 0 then afail (CliDynamicProgramError ''The recipient address is not funded'')
              else aret ())
            else aret ()) (\<lambda>_.
     abind (signer_at_index signers (t_nonce_authority cmd)) (\<lambda>nonce_auth.
     abind (signer_at_index signers (t_fee_payer cmd)) (\<lambda>fee_payer.
     abind (transfer_source D (signer_key D source) (t_seed cmd) (t_seed_program cmd)) (\<lambda>(from_key, with_seed).
     abind (resolve_spend_tx C (set_blockhash D)
              (transfer_message D (signer_key D source) from_key with_seed (t_to cmd) (t_memo cmd)
                 (t_nonce_account cmd) (signer_key D nonce_auth) (signer_key D fee_payer))
              (t_sign_only cmd) (t_amount cmd) blockhash from_key (signer_key D fee_payer) c) (\<lambda>(m, spend).
     aret (signer_key D nonce_auth, blockhash, from_key, m, spend))))))))"

definition process_wallet_transfer ::
  "('w, 'm, 't) client \<Rightarrow> ('s, 'm, 't) cli_sdk \<Rightarrow> 's list \<Rightarrow> commitment_level \<Rightarrow> transfer_command
     \<Rightarrow> ('w, cli_error, string) act" where
  "process_wallet_transfer C D signers c cmd =
     abind (transfer_prepare C D signers c cmd) (\<lambda>(nonce_auth, blockhash, from_key, m, spend).
     if t_sign_only cmd then
       abind (signer_result (try_partial_sign D m signers blockhash)) (\<lambda>t.
       aret (sign_only_text D t (t_dump_message cmd)))
     else
       abind (check_nonce_online C c (t_nonce_account cmd) nonce_auth blockhash) (\<lambda>_.
       abind (signer_result (try_sign D m signers blockhash)) (\<lambda>t.
       signature_answer D (send_tx_wrapper C t (t_no_wait cmd)))))"

section \<open>Balances and airdrops\<close>

definition key_or_default ::
  "('s, 'm, 't) cli_sdk \<Rightarrow> 's list \<Rightarrow> pubkey option \<Rightarrow> ('w, cli_error, pubkey) act" where
  "key_or_default D signers k = (case k of Some k \<Rightarrow> aret k | None \<Rightarrow> config_pubkey D signers)"

definition process_balance ::
  "('w, 'm, 't) client \<Rightarrow> ('s, 'm, 't) cli_sdk \<Rightarrow> 's list \<Rightarrow> commitment_level \<Rightarrow> pubkey option \<Rightarrow> bool
     \<Rightarrow> ('w, cli_error, string) act" where
  "process_balance C D signers c k use_lamports_unit =
     abind (key_or_default D signers k) (\<lambda>k.
     abind (amap_err CliClient (get_balance_with_commitment C k c)) (\<lambda>l.
     aret (balance_text D l use_lamports_unit)))"

text \<open>Confirmation failing prints a line; an error of it is the command's.\<close>

definition request_and_confirm_airdrop ::
  "('w, 'm, 't) client \<Rightarrow> commitment_level \<Rightarrow> pubkey \<Rightarrow> u64 \<Rightarrow> ('w, client_error, signature) act" where
  "request_and_confirm_airdrop C c k l =
     abind (ep_airdrop C k l) (\<lambda>sig.
     abind (confirm_transaction C sig c) (\<lambda>_. aret sig))"

definition process_airdrop ::
  "('w, 'm, 't) client \<Rightarrow> ('s, 'm, 't) cli_sdk \<Rightarrow> 's list \<Rightarrow> commitment_level \<Rightarrow> pubkey option \<Rightarrow> u64
     \<Rightarrow> ('w, cli_error, string) act" where
  "process_airdrop C D signers c k l =
     abind (key_or_default D signers k) (\<lambda>k.
     abind (amap_err CliClient (get_balance_with_commitment C k c)) (\<lambda>pre_balance.
     abind (signature_answer D (request_and_confirm_airdrop C c k l)) (\<lambda>_.
     abind (amap_err CliClient (get_balance_with_commitment C k c)) (\<lambda>current_balance.
     aret (if current_balance < saturating_add pre_balance l then ''''
           else balance_text D current_balance False)))))"

section \<open>Nonce accounts\<close>

text \<open>Signing with all signers, checking the fee of the default one, submitting.\<close>

definition sign_check_send ::
  "('w, 'm, 't) client \<Rightarrow> ('s, 'm, 't) cli_sdk \<Rightarrow> 's list \<Rightarrow> commitment_level \<Rightarrow> 'm \<Rightarrow> hash
     \<Rightarrow> ('w, cli_error, string) act" where
  "sign_check_send C D signers c m blockhash =
     abind (signer_result (try_sign D m signers blockhash)) (\<lambda>t.
     abind (signer_at_index signers 0) (\<lambda>payer.
     abind (check_account_for_fee C (signer_key D payer) (tx_message D t) c) (\<lambda>_.
     signature_answer D (send_and_confirm C t))))"

definition process_authorize_nonce_account ::
  "('w, 'm, 't) client \<Rightarrow> ('s, 'm, 't) cli_sdk \<Rightarrow> 's list \<Rightarrow> commitment_level
     \<Rightarrow> pubkey \<Rightarrow> nat \<Rightarrow> string option \<Rightarrow> pubkey \<Rightarrow> ('w, cli_error, string) act" where
  "process_authorize_nonce_account C D signers c nonce_key auth_index memo new_authority =
     abind (amap_err CliClient (latest_hash C)) (\<lambda>blockhash.
     abind (signer_at_index signers auth_index) (\<lambda>auth.
     abind (aresult (memo_instructions D memo [sys_authorize_nonce D nonce_key (signer_key D auth) new_authority])) (\<lambda>ixs.
     abind (signer_at_index signers 0) (\<lambda>payer.
     sign_check_send C D signers c (new_message D ixs (signer_key D payer)) blockhash))))"

definition process_withdraw_from_nonce_account ::
  "('w, 'm, 't) client \<Rightarrow> ('s, 'm, 't) cli_sdk \<Rightarrow> 's list \<Rightarrow> commitment_level
     \<Rightarrow> pubkey \<Rightarrow> nat \<Rightarrow> string option \<Rightarrow> pubkey \<Rightarrow> u64 \<Rightarrow> ('w, cli_error, string) act" where
  "process_withdraw_from_nonce_account C D signers c nonce_key auth_index memo destination l =
     abind (amap_err CliClient (latest_hash C)) (\<lambda>blockhash.
     abind (signer_at_index signers auth_index) (\<lambda>auth.
     abind (aresult (memo_instructions D memo [sys_withdraw_nonce D nonce_key (signer_key D auth) destination l])) (\<lambda>ixs.
     abind (signer_at_index signers 0) (\<lambda>payer.
     sign_check_send C D signers c (new_message D ixs (signer_key D payer)) blockhash))))"

text \<open>A missing nonce account is reported before anything is signed.\<close>

definition process_new_nonce ::
  "('w, 'm, 't) client \<Rightarrow> ('s, 'm, 't) cli_sdk \<Rightarrow> 's list \<Rightarrow> commitment_level
     \<Rightarrow> pubkey \<Rightarrow> nat \<Rightarrow> string option \<Rightarrow> ('w, cli_error, string) act" where
  "process_new_nonce C D signers c nonce_key auth_index memo =
     abind (signer_at_index signers 0) (\<lambda>payer.
     abind (aresult (check_unique_pubkeys (signer_key D payer, ''cli keypair'') (nonce_key, ''nonce_account_pubkey''))) (\<lambda>_.
     abind (amap_err (\<lambda>e. CliBadParameter (''Unable to advance nonce account. error: '' @ error_text e))
              (get_account C nonce_key)) (\<lambda>_.
     abind (signer_at_index signers auth_index) (\<lambda>auth.
     abind (aresult (memo_instructions D memo [sys_advance_nonce D nonce_key (signer_key D auth)])) (\<lambda>ixs.
     abind (amap_err CliClient (latest_hash C)) (\<lambda>blockhash.
     sign_check_send C D signers c (new_message D ixs (signer_key D payer)) blockhash))))))"

definition process_get_nonce ::
  "('w, 'm, 't) client \<Rightarrow> ('s, 'm, 't) cli_sdk \<Rightarrow> commitment_level \<Rightarrow> pubkey \<Rightarrow> ('w, cli_error, string) act" where
  "process_get_nonce C D c nonce_key =
     amap_err CliInvalidNonce
       (abind (nonce_account C nonce_key c) (\<lambda>a.
        (case state_from_account C a of
           Inl e \<Rightarrow> afail e
         | Inr Uninitialized \<Rightarrow> aret ''Nonce account is uninitialized''
         | Inr (Initialized d) \<Rightarrow> aret (hash_text D (durable_nonce d)))))"

definition create_nonce_message ::
  "('s, 'm, 't) cli_sdk \<Rightarrow> pubkey \<Rightarrow> pubkey \<Rightarrow> pubkey \<Rightarrow> string option \<Rightarrow> pubkey \<Rightarrow> string option \<Rightarrow> u64
     \<Rightarrow> ('m, cli_error) res" where
  "create_nonce_message D payer_key nonce_key address seed nonce_authority memo l =
     rbind (memo_instructions D memo
              (case seed of
                 Some s \<Rightarrow> sys_create_nonce_with_seed D payer_key address nonce_key s nonce_authority l
               | None \<Rightarrow> sys_create_nonce D payer_key nonce_key nonce_authority l)) (\<lambda>ixs.
     Inr (new_message D ixs payer_key))"

text \<open>An account at the address, a nonce account or not, ends the command; so does too small an amount.\<close>

definition process_create_nonce_account ::
  "('w, 'm, 't) client \<Rightarrow> ('s, 'm, 't) cli_sdk \<Rightarrow> 's list \<Rightarrow> commitment_level
     \<Rightarrow> nat \<Rightarrow> string option \<Rightarrow> pubkey option \<Rightarrow> string option \<Rightarrow> spend_amount
     \<Rightarrow> ('w, cli_error, unit) act \<Rightarrow> ('w, cli_error, string) act" where
  "process_create_nonce_account C D signers c nonce_index seed nonce_authority memo amount feature_check =
     abind (signer_at_index signers nonce_index) (\<lambda>nonce_signer.
     let nonce_key = signer_key D nonce_signer in
     abind (case seed of
              Some s \<Rightarrow> signer_result (key_with_seed D nonce_key s system_program_id)
            | None \<Rightarrow> aret nonce_key) (\<lambda>address.
     abind (signer_at_index signers 0) (\<lambda>payer.
     let payer_key = signer_key D payer;
         auth = (case nonce_authority of Some k \<Rightarrow> k | None \<Rightarrow> payer_key) in
     abind (aresult (check_unique_pubkeys (payer_key, ''cli keypair'') (address, ''nonce_account''))) (\<lambda>_.
     abind (amap_err CliClient (latest_hash C)) (\<lambda>blockhash.
     abind (resolve_own_spend_tx C (set_blockhash D)
              (create_nonce_message D payer_key nonce_key address seed auth memo) False amount blockhash payer_key c)
       (\<lambda>(m, l).
     abind (\<lambda>w. (case nonce_account C address AtFinalized w of
                    (Inl Panic, w) \<Rightarrow> (Inl Panic, w)
                  | (Inl (Err _), w) \<Rightarrow> (Inr (), w)
                  | (Inr a, w) \<Rightarrow>
                      (Inl (Err (CliBadParameter
                         (if is_ok (state_from_account C a) then ''Nonce account already exists''
                          else ''Account already exists and is not a nonce account''))), w))) (\<lambda>_.
     abind (amap_err CliClient (client_minimum_balance C (nonce_size_of_state D))) (\<lambda>minimum.
     if l < minimum then afail (CliBadParameter ''need more lamports for nonce account to be rent exempt'')
     else
       abind (signer_result (try_sign D m signers blockhash)) (\<lambda>t.
       abind feature_check (\<lambda>_.
       signature_answer D (send_and_confirm C t)))))))))))"

record shown_nonce =
  shown_balance :: u64
  shown_minimum :: u64
  shown_nonce :: "nonce_data option"

definition process_show_nonce_account ::
  "('w, 'm, 't) client \<Rightarrow> ('s, 'm, 't) cli_sdk \<Rightarrow> commitment_level \<Rightarrow> pubkey \<Rightarrow> ('w, cli_error, shown_nonce) act" where
  "process_show_nonce_account C D c nonce_key =
     abind (amap_err CliInvalidNonce (nonce_account C nonce_key c)) (\<lambda>a.
     abind (amap_err CliClient (client_minimum_balance C (nonce_size_of_state D))) (\<lambda>minimum.
     (case state_from_account C a of
        Inl e \<Rightarrow> afail (CliInvalidNonce e)
      | Inr Uninitialized \<Rightarrow>
          aret \<lparr>shown_balance = lamports a, shown_minimum = minimum, shown_nonce = None\<rparr>
      | Inr (Initialized d) \<Rightarrow>
          aret \<lparr>shown_balance = lamports a, shown_minimum = minimum, shown_nonce = Some d\<rparr>)))"

section \<open>What a transfer submits\<close>

lemma quiet_pure [quiet_intros]:
  "quiet f (signer_at_index signers i)" "quiet f (signer_result x)" "quiet f (transfer_source D k seed p)"
  by (auto simp: signer_at_index_def signer_result_def transfer_source_def
      intro!: quiet_intros split: option.split sum.split)

lemma abind_continues:
  assumes "abind m f w = (r, w')" and "quiet sent m" and "sent w' \<noteq> sent w"
  obtains a w1 where "m w = (Inr a, w1)" and "sent w1 = sent w" and "f a w1 = (r, w')"
proof -
  obtain x w1 where m: "m w = (x, w1)" by fastforce
  then have same: "sent w1 = sent w" using quietD [OF assms(2)] by blast
  show thesis
  proof (cases x)
    case (Inl e)
    then show thesis using assms(1,3) m same by (simp add: abind_def)
  next
    case (Inr a)
    then show thesis using that assms(1) m same by (simp add: abind_def)
  qed
qed

lemma signer_at_index_Inr: "signer_at_index signers i w = (Inr s, w') \<longleftrightarrow> i < length signers \<and> s = signers ! i \<and> w' = w"
  by (auto simp: signer_at_index_def)

lemma signer_result_Inr [simp]: "signer_result x w = (Inr a, w') \<longleftrightarrow> x = Inr a \<and> w' = w"
  by (auto simp: signer_result_def split: sum.splits)

context quiet_server
begin

lemma quiet_nonce_online: "quiet sent (check_nonce_online C c n k h)"
  unfolding check_nonce_online_def by (intro quiet_intros quiet_nonce)

lemma quiet_recipient:
  "quiet sent (if b then abind (amap_err CliClient (get_balance_with_commitment C k c))
       (\<lambda>l. if l = 0 then afail e else aret ()) else aret ())"
  by (intro quiet_intros quiet_reading)

lemma quiet_prepare: "quiet sent (transfer_prepare C D signers c cmd)"
  unfolding transfer_prepare_def
  by (intro quiet_intros quiet_query quiet_reading quiet_spend)

lemma send_wrapper_submits:
  assumes "signature_answer D (send_tx_wrapper C t no_wait) w = (r, w')"
  shows "sent w' = sent (snd (ep_send C t (commitment_config C) w))"
proof -
  obtain r1 w1 where sub: "send_tx_wrapper C t no_wait w = (r1, w1)" by fastforce
  have "w1 = w'"
    using assms sub by (auto simp: signature_answer_def abind_def amap_err_def split: sum.splits fault.splits)
  moreover have "sent w1 = sent (snd (ep_send C t (commitment_config C) w))"
  proof (cases no_wait)
    case True
    then show ?thesis
      using sub by (auto simp: send_tx_wrapper_def client_send_def abind_def
          split: prod.splits sum.splits list.splits if_splits)
  next
    case False
    then show ?thesis using sub send_and_confirm_submits by (simp add: send_tx_wrapper_def)
  qed
  ultimately show ?thesis by simp
qed

text \<open>
  A transfer that changed what was sent made one submission, of a transaction signed for the
  prepared message after the nonce check.
\<close>

lemma transfer_submits:
  assumes run: "process_wallet_transfer C D signers c cmd w = (r, w')" and changed: "sent w' \<noteq> sent w"
  obtains nonce_auth blockhash from_key m spend t w1 w2 w3 where
    "\<not> t_sign_only cmd"
    "transfer_prepare C D signers c cmd w = (Inr (nonce_auth, blockhash, from_key, m, spend), w1)"
    "check_nonce_online C c (t_nonce_account cmd) nonce_auth blockhash w2 = (Inr (), w3)" "sent w2 = sent w"
    "try_sign D m signers blockhash = Inr t"
    "sent w3 = sent w" "sent w' = sent (snd (ep_send C t (commitment_config C) w3))"
proof -
  let ?finish = "\<lambda>(nonce_auth, blockhash, from_key, m, spend).
     if t_sign_only cmd then
       abind (signer_result (try_partial_sign D m signers blockhash)) (\<lambda>t.
       aret (sign_only_text D t (t_dump_message cmd)))
     else
       abind (check_nonce_online C c (t_nonce_account cmd) nonce_auth blockhash) (\<lambda>_.
       abind (signer_result (try_sign D m signers blockhash)) (\<lambda>t.
       signature_answer D (send_tx_wrapper C t (t_no_wait cmd))))"
  obtain p w1 where p: "transfer_prepare C D signers c cmd w = (Inr p, w1)" and s1: "sent w1 = sent w"
      and fin: "?finish p w1 = (r, w')"
    using abind_continues [OF run [unfolded process_wallet_transfer_def] quiet_prepare changed] by blast
  obtain nonce_auth blockhash from_key m spend where tuple: "p = (nonce_auth, blockhash, from_key, m, spend)"
    by (metis prod_cases5)
  have online: "\<not> t_sign_only cmd"
  proof
    assume "t_sign_only cmd"
    moreover have "quiet sent (abind (signer_result (try_partial_sign D m signers blockhash)) (\<lambda>t.
       aret (sign_only_text D t (t_dump_message cmd))))" by (intro quiet_intros)
    ultimately have "sent w' = sent w1" using fin tuple quietD by fastforce
    then show False using changed s1 by simp
  qed
  then have rest: "abind (check_nonce_online C c (t_nonce_account cmd) nonce_auth blockhash) (\<lambda>_.
       abind (signer_result (try_sign D m signers blockhash)) (\<lambda>t.
       signature_answer D (send_tx_wrapper C t (t_no_wait cmd)))) w1 = (r, w')"
    using fin tuple by simp
  obtain u w3 where check: "check_nonce_online C c (t_nonce_account cmd) nonce_auth blockhash w1 = (Inr u, w3)"
      and s3: "sent w3 = sent w1"
      and sign: "abind (signer_result (try_sign D m signers blockhash)) (\<lambda>t.
       signature_answer D (send_tx_wrapper C t (t_no_wait cmd))) w3 = (r, w')"
    using abind_continues [OF rest quiet_nonce_online] changed s1 by metis
  obtain t w4 where t: "signer_result (try_sign D m signers blockhash) w3 = (Inr t, w4)"
      and send: "signature_answer D (send_tx_wrapper C t (t_no_wait cmd)) w4 = (r, w')"
    using abind_continues [OF sign quiet_pure(2)] changed s1 s3 by metis
  have prep: "transfer_prepare C D signers c cmd w = (Inr (nonce_auth, blockhash, from_key, m, spend), w1)"
    using p tuple by simp
  have checked: "check_nonce_online C c (t_nonce_account cmd) nonce_auth blockhash w1 = (Inr (), w3)"
    using check by simp
  show thesis
    by (rule that [OF online prep checked s1])
      (use t s1 s3 send_wrapper_submits [OF send] in simp_all)
qed

lemma prepare_checks:
  assumes prep: "transfer_prepare C D signers c cmd w = (Inr (nonce_auth, blockhash, from_key, m, spend), w')"
    and online: "\<not> t_sign_only cmd"
  obtains seeds w1 w2 w3 w4 w5 l where
    "t_from cmd < length signers" "t_fee_payer cmd < length signers" "t_nonce_authority cmd < length signers"
    "nonce_auth = signer_key D (signers ! t_nonce_authority cmd)"
    "t_allow_unfunded cmd \<or> get_balance_with_commitment C (t_to cmd) c w1 = (Inr l, w2) \<and> l \<noteq> 0" "sent w1 = sent w"
    "transfer_source D (signer_key D (signers ! t_from cmd)) (t_seed cmd) (t_seed_program cmd) w3
       = (Inr (from_key, seeds), w4)"
    "resolve_spend_tx C (set_blockhash D)
       (transfer_message D (signer_key D (signers ! t_from cmd)) from_key seeds (t_to cmd) (t_memo cmd)
          (t_nonce_account cmd) nonce_auth (signer_key D (signers ! t_fee_payer cmd)))
       False (t_amount cmd) blockhash from_key (signer_key D (signers ! t_fee_payer cmd)) c w4 = (Inr (m, spend), w5)"
    "sent w4 = sent w"
proof -
  let ?fund = "if \<not> t_sign_only cmd \<and> \<not> t_allow_unfunded cmd then
              abind (amap_err CliClient (get_balance_with_commitment C (t_to cmd) c)) (\<lambda>l.
              if l = 0 then afail (CliDynamicProgramError ''The recipient address is not funded'')
              else aret ())
            else aret ()"
  from prep obtain w1 w2 w4 seeds u where
    idx: "t_from cmd < length signers" "t_fee_payer cmd < length signers" "t_nonce_authority cmd < length signers"
      "nonce_auth = signer_key D (signers ! t_nonce_authority cmd)"
    and query: "amap_err cli_of_boxed (query_blockhash C (t_blockhash_query cmd) c) w = (Inr blockhash, w1)"
    and fund: "?fund w1 = (Inr u, w2)"
    and source: "transfer_source D (signer_key D (signers ! t_from cmd)) (t_seed cmd) (t_seed_program cmd) w2
       = (Inr (from_key, seeds), w4)"
    and spend: "resolve_spend_tx C (set_blockhash D)
       (transfer_message D (signer_key D (signers ! t_from cmd)) from_key seeds (t_to cmd) (t_memo cmd)
          (t_nonce_account cmd) nonce_auth (signer_key D (signers ! t_fee_payer cmd)))
       (t_sign_only cmd) (t_amount cmd) blockhash from_key (signer_key D (signers ! t_fee_payer cmd)) c w4
       = (Inr (m, spend), w')"
    unfolding transfer_prepare_def
    by (simp only: abind_Inr_iff signer_at_index_Inr split_paired_Ex case_prod_conv act_simps prod.inject sum.inject)
      (clarify, blast)
  have "sent w1 = sent w" using quietD [OF quiet_amap_err [OF quiet_query] query] .
  moreover have "sent w2 = sent w1" using quietD [OF quiet_recipient fund] .
  moreover have "sent w4 = sent w2" using quietD [OF quiet_pure(3) source] .
  moreover have "\<exists>l v. get_balance_with_commitment C (t_to cmd) c w1 = (Inr l, v) \<and> l \<noteq> 0" if "\<not> t_allow_unfunded cmd"
    using fund that online by (auto simp: abind_Inr_iff split: if_splits)
  ultimately show thesis
    using that idx source spend online by (cases "t_allow_unfunded cmd") auto
qed

end

section \<open>Transfers on the in-browser runtime\<close>

text \<open>On the runtime a query leaves the bank as it is and a fee is zero.\<close>

lemma playnet_balance:
  assumes "\<And>k. parse_pubkey S (show_pubkey S k) = Some k"
  shows "get_balance_with_commitment (playnet_client R S W C) k c b = (Inr (lamports (get_account_default b k)), b)"
  by (simp add: get_balance_with_commitment_def playnet_client_def get_account_info_def assms of_rpc_def
      wasm_account_of_def)

lemma playnet_fee:
  assumes "get_fee_for_messages (playnet_client R S W C) [m] b = (Inr f, b')"
  shows "f = 0"
proof -
  obtain fo b1 where "ep_fee (playnet_client R S W C) m b = (Inr fo, b1)" "f = (case fo of Some v \<Rightarrow> v | None \<Rightarrow> 0)"
    using assms by (auto simp: get_fee_for_messages_def client_fee_def abind_Inr_iff)
  then show ?thesis
    by (auto simp: playnet_client_def of_rpc_def rpc_fee_for_message_def rbind_Inr_iff split: sum.splits)
qed

lemma playnet_spend:
  fixes W :: "('m, 't) wire" and C :: "(bank, 'm, 't) client"
  assumes parse: "\<And>k. parse_pubkey S (show_pubkey S k) = Some k"
    and spend: "resolve_spend_tx (playnet_client R S W C) setb B False amount h from_key fee_key c b = (Inr (m, spend), b')"
  defines "bal \<equiv> \<lambda>k. lamports (get_account_default b k)"
  shows "B spend = Inr m \<and> spend \<le> bal from_key \<and> (amount = SpendAll \<longrightarrow> spend = bal from_key) \<and> 0 < bal fee_key"
proof -
  let ?P = "playnet_client R S W C"
  note balance = playnet_balance [OF parse, where R = R and W = W and C = C]
  obtain rent b1 f b2 where
    rent: "(if amount = SpendRentExempt then
         abind (amap_err CliClient (get_account_data ?P from_key)) (\<lambda>d.
         amap_err CliClient (client_minimum_balance ?P (length d))) else aret 0) b = (Inr rent, b1)"
    and msg: "resolve_spend_message ?P setb B amount (Some h) (bal from_key) from_key fee_key rent b1
        = (Inr (m, spend, f), b2)"
    and check: "if from_key = fee_key then \<not> (bal from_key = 0 \<or> bal from_key < spend + f)
      else \<not> bal from_key < spend \<and> (\<exists>fb b3. get_balance_with_commitment ?P fee_key c b2 = (Inr fb, b3) \<and> fb \<noteq> 0 \<and> f \<le> fb)"
    using spend
    by (auto simp: resolve_spend_tx_def abind_Inr_iff balance bal_def check_account_for_balance_def
        split: if_splits prod.splits)
  have "b2 = b"
    using quietD [OF playnet.quiet_message(1) msg] quietD [OF playnet.quiet_message(2) rent] by simp
  note parts = resolve_spend_message_Inr [OF msg]
  obtain m0 where "get_fee_for_messages ?P [setb h m0] b1 = (Inr f, b2)" using parts by blast
  then have f: "f = 0" by (rule playnet_fee)
  have "spend \<le> bal from_key" "0 < bal fee_key"
    using check f \<open>b2 = b\<close> by (auto simp: balance bal_def word_neq_0_conv split: if_splits)
  moreover have "amount = SpendAll \<Longrightarrow> spend = bal from_key"
    using parts f by (auto simp: saturating_sub_def)
  ultimately show ?thesis using parts by blast
qed

lemma check_nonce_account_Inr:
  "check_nonce_account C a auth h = Inr u \<longleftrightarrow>
     (\<exists>d. state_from_account C a = Inr (Initialized d) \<and> durable_nonce d = h \<and> authority d = auth)"
  by (auto simp: check_nonce_account_def split: sum.splits nonce_state.splits)

text \<open>
  C35. A transfer command on the in-browser runtime changes the bank only by sending one
  transaction, online, and only when it may: the transaction is the signed message of the
  transfer of the resolved amount from the source; the bank at that moment gives the source at
  least that amount (exactly that amount for \<open>ALL\<close>), the fee payer a balance, the recipient a
  balance unless unfunded recipients are allowed; and a nonce account given holds the blockhash
  signed over and names the signing nonce authority.
\<close>

theorem playnet_transfer_guarded:
  fixes W :: "('m, 't) wire" and C :: "(bank, 'm, 't) client"
  assumes "process_wallet_transfer (playnet_client R S W C) D signers c cmd b = (r, b')" and "b' \<noteq> b"
    and "\<And>k. parse_pubkey S (show_pubkey S k) = Some k"
  shows "let key = \<lambda>i. signer_key D (signers ! i); bal = \<lambda>k. lamports (get_account_default b k);
             P = playnet_client R S W C
    in \<not> t_sign_only cmd
     \<and> t_from cmd < length signers \<and> t_fee_payer cmd < length signers \<and> t_nonce_authority cmd < length signers
     \<and> (\<exists>from_key seeds blockhash m spend t.
          transfer_source D (key (t_from cmd)) (t_seed cmd) (t_seed_program cmd) b = (Inr (from_key, seeds), b)
        \<and> transfer_message D (key (t_from cmd)) from_key seeds (t_to cmd) (t_memo cmd) (t_nonce_account cmd)
            (key (t_nonce_authority cmd)) (key (t_fee_payer cmd)) spend = Inr m
        \<and> try_sign D m signers blockhash = Inr t
        \<and> b' = fst (send_transaction R S (wire_tx W t) b)
        \<and> (t_allow_unfunded cmd \<or> bal (t_to cmd) \<noteq> 0)
        \<and> spend \<le> bal from_key \<and> (t_amount cmd = SpendAll \<longrightarrow> spend = bal from_key)
        \<and> 0 < bal (key (t_fee_payer cmd))
        \<and> (\<forall>n. t_nonce_account cmd = Some n \<longrightarrow>
             (\<exists>a d. nonce_account P n c b = (Inr a, b) \<and> state_from_account P a = Inr (Initialized d)
                 \<and> durable_nonce d = blockhash \<and> authority d = key (t_nonce_authority cmd))))"
proof -
  let ?P = "playnet_client R S W C"
  obtain nonce_auth blockhash from_key m spend t b1 b2 b3 where
    online: "\<not> t_sign_only cmd"
    and prep: "transfer_prepare ?P D signers c cmd b = (Inr (nonce_auth, blockhash, from_key, m, spend), b1)"
    and nonce: "check_nonce_online ?P c (t_nonce_account cmd) nonce_auth blockhash b2 = (Inr (), b3)" "b2 = b"
    and signed: "try_sign D m signers blockhash = Inr t"
    and sent: "b3 = b" "b' = snd (ep_send ?P t (commitment_config ?P) b3)"
    using playnet.transfer_submits [OF assms(1,2)] by metis
  obtain seeds w1 w2 w3 w4 w5 l where
    idx: "t_from cmd < length signers" "t_fee_payer cmd < length signers" "t_nonce_authority cmd < length signers"
      "nonce_auth = signer_key D (signers ! t_nonce_authority cmd)"
    and fund: "t_allow_unfunded cmd \<or> get_balance_with_commitment ?P (t_to cmd) c w1 = (Inr l, w2) \<and> l \<noteq> 0" "w1 = b"
    and source: "transfer_source D (signer_key D (signers ! t_from cmd)) (t_seed cmd) (t_seed_program cmd) w3
       = (Inr (from_key, seeds), w4)"
    and spent: "resolve_spend_tx ?P (set_blockhash D)
       (transfer_message D (signer_key D (signers ! t_from cmd)) from_key seeds (t_to cmd) (t_memo cmd)
          (t_nonce_account cmd) nonce_auth (signer_key D (signers ! t_fee_payer cmd)))
       False (t_amount cmd) blockhash from_key (signer_key D (signers ! t_fee_payer cmd)) c w4 = (Inr (m, spend), w5)"
    and w4: "w4 = b"
    by (rule playnet.prepare_checks [OF prep online])
  have w3: "w3 = b" using quietD [OF quiet_pure(3) [where f = "\<lambda>b. b"] source] w4 by simp
  have send: "b' = fst (send_transaction R S (wire_tx W t) b)"
    using sent by (simp add: playnet_client_def case_prod_unfold Let_def)
  have "\<exists>a d. nonce_account ?P n c b = (Inr a, b) \<and> state_from_account ?P a = Inr (Initialized d)
      \<and> durable_nonce d = blockhash \<and> authority d = nonce_auth" if n: "t_nonce_account cmd = Some n" for n
  proof -
    obtain a w where a: "nonce_account ?P n c b = (Inr a, w)" "check_nonce_account ?P a nonce_auth blockhash = Inr ()"
      using nonce n by (auto simp: check_nonce_online_def abind_Inr_iff)
    moreover have "w = b" using quietD [OF playnet.quiet_nonce(1) a(1)] .
    ultimately show ?thesis by (auto simp: check_nonce_account_Inr)
  qed
  moreover have "t_allow_unfunded cmd \<or> lamports (get_account_default b (t_to cmd)) \<noteq> 0"
    using fund playnet_balance [OF assms(3), where R = R and W = W and C = C] by auto
  ultimately show ?thesis
    using online idx source [unfolded w3 w4] send signed playnet_spend [OF assms(3) spent [unfolded w4]]
    unfolding Let_def by metis
qed

section \<open>A transfer\<close>

text \<open>Messages and transactions are bytes; every signed transaction is the sample one.\<close>

definition sample_cli :: "(pubkey, bytes, bytes) cli_sdk" where
  "sample_cli =
     (let ix = \<lparr>ix_program_id = 0, ix_accounts = [], ix_data = []\<rparr> in
      \<lparr>signer_key = id, sys_transfer = (\<lambda>_ _ _. ix), sys_transfer_with_seed = (\<lambda>_ _ _ _ _ _. ix),
      sys_advance_nonce = (\<lambda>_ _. ix), sys_authorize_nonce = (\<lambda>_ _ _. ix), sys_withdraw_nonce = (\<lambda>_ _ _ _. ix),
      sys_create_nonce = (\<lambda>_ _ _ _. []), sys_create_nonce_with_seed = (\<lambda>_ _ _ _ _ _. []),
      key_with_seed = (\<lambda>_ _ _. Inl ''seed''), key_of_bytes = (\<lambda>_. None),
      new_message = (\<lambda>_ _. [1]), new_message_with_nonce = (\<lambda>_ _ _ _. [1]), set_blockhash = (\<lambda>_ m. m),
      tx_message = (\<lambda>_. [1]), try_sign = (\<lambda>_ _ _. Inr [2]), try_partial_sign = (\<lambda>_ _ _. Inr [2]),
      signature_text = (\<lambda>_. ''signature''), sign_only_text = (\<lambda>_ _. ''signed''), balance_text = (\<lambda>_ _. ''balance''),
      hash_text = (\<lambda>_. ''hash''), nonce_size_of_state = 80\<rparr>)"

definition sample_transfer :: transfer_command where
  "sample_transfer =
     \<lparr>t_amount = SpendAll, t_to = 2, t_sign_only = False, t_dump_message = False, t_allow_unfunded = False,
      t_no_wait = True, t_blockhash_query = QueryAll Cluster, t_nonce_account = None, t_nonce_authority = 0,
      t_memo = None, t_fee_payer = 0, t_from = 0, t_seed = None, t_seed_program = None\<rparr>"

definition sample_wire :: "(bytes, bytes) wire" where
  "sample_wire = \<lparr>wire_tx = id, wire_message = id, wire_base64 = (\<lambda>_. [])\<rparr>"

abbreviation sample_playnet :: "saved_bank \<Rightarrow> (bank, bytes, bytes) client" where
  "sample_playnet s \<equiv> playnet_client sample_runtime (sample_rpc s) sample_wire sample_codec"

lemma sample_parse: "parse_pubkey (sample_rpc s) (show_pubkey (sample_rpc s) k) = Some k"
  by (simp add: sample_rpc_def)

lemma sample_balance:
  "get_balance_with_commitment (sample_playnet s) k c b = (Inr (lamports (get_account_default b k)), b)"
  by (rule playnet_balance [OF sample_parse])

lemma sample_reads:
  "query_blockhash (sample_playnet s) (QueryAll Cluster) c b = (Inr 3, b)"
  "client_fee (sample_playnet s) m b = (Inr 0, b)"
  "tx_signatures (sample_playnet s) t = [7]"
  by (simp_all add: query_blockhash_def source_blockhash_def get_latest_blockhash_with_config_def client_fee_def
      playnet_client_def sample_codec_def sample_rpc_def abind_def amap_err_def of_rpc_def rpc_fee_for_message_def)

lemma sample_transfer_prepare:
  "transfer_prepare (sample_playnet s) sample_cli [1] AtConfirmed sample_transfer funded_bank
     = (Inr (1, 3, 1, [1], 100), funded_bank)"
proof -
  have "lamports (get_account_default funded_bank 1) = 100" "lamports (get_account_default funded_bank 2) = 5"
    by (simp_all add: funded_bank_def get_account_default_def sample_accounts_def new_account_def)
  then show ?thesis
    by (simp add: transfer_prepare_def signer_at_index_def sample_transfer_def sample_cli_def abind_def amap_err_def
        sample_reads sample_balance transfer_source_def resolve_spend_tx_def resolve_spend_message_def
        transfer_message_def memo_instructions_def get_fee_for_messages_def saturating_sub_def Let_def)
qed

theorem playnet_transfer_guarded_witness:
  "\<exists>b'. process_wallet_transfer (sample_playnet sample_save) sample_cli [1] AtConfirmed sample_transfer funded_bank
        = (Inr ''signature'', b')
     \<and> b' = fst (send_transaction sample_runtime (sample_rpc sample_save) [2] funded_bank)"
proof -
  let ?P = "sample_playnet sample_save"
  obtain b' where send: "send_transaction sample_runtime (sample_rpc sample_save) [2] funded_bank
      = (b', Inr (Inr (replicate 7 (CHR ''1''))))" and changed: "b' \<noteq> funded_bank"
    using sample_sends by blast
  have "ep_send ?P [2] c funded_bank = (Inr 7, b')" for c
    using send by (simp add: playnet_client_def sample_wire_def served_hash_def sample_rpc_def)
  then have run: "process_wallet_transfer ?P sample_cli [1] AtConfirmed sample_transfer funded_bank = (Inr ''signature'', b')"
    by (simp add: process_wallet_transfer_def sample_transfer_prepare abind_def)
      (simp add: sample_transfer_def check_nonce_online_def abind_def signer_result_def sample_cli_def Let_def
        signature_answer_def send_tx_wrapper_def client_send_def sample_reads amap_err_def)
  from playnet_transfer_guarded [OF run changed sample_parse]
  have "b' = fst (send_transaction sample_runtime (sample_rpc sample_save) [2] funded_bank)"
    by (auto simp: Let_def sample_cli_def sample_wire_def)
  then show ?thesis using run by blast
qed

end
