(* ===== verification/Vote_State.thy ===== *)
theory Vote_State
  imports Prelude
begin

text \<open>
  The state of a vote account and the operations on it: \<open>program/vote/vote_state/mod.rs\<close>,
  \<open>authorized_voters.rs\<close>, \<open>vote_state_versions.rs\<close>, \<open>vote_state_0_23_5.rs\<close> and
  \<open>vote_error.rs\<close>.  A method with \<open>&mut self\<close> returns the new state; the state it leaves behind
  with an error is dropped by every caller.  A \<open>BTreeMap\<close> is its list of entries in the order of
  the keys, a \<open>VecDeque\<close> a list, front first; the integers wrap as in a release build.
\<close>

section \<open>Data\<close>

type_synonym vote_hash = "256 word"
type_synonym slot_hashes = "(u64 \<times> vote_hash) list" \<comment> \<open>newest slot first\<close>

datatype vote_error =
    VoteTooOld | SlotsMismatch | SlotHashMismatch | EmptySlots | TimestampTooOld | TooSoonToReauthorize
  | LockoutConflict | NewVoteStateLockoutMismatch | SlotsNotOrdered | ConfirmationsNotOrdered
  | ZeroConfirmations | ConfirmationTooLarge | RootRollBack | ConfirmationRollBack | SlotSmallerThanRoot
  | TooManyVotes | VotesTooOldAllFiltered | RootOnDifferentFork

datatype vote_instruction_error =
    VoteCustom vote_error \<comment> \<open>\<open>VoteError\<close> as \<open>InstructionError::Custom\<close>\<close>
  | InvalidAccountData
  | MissingRequiredSignature
  | InsufficientFunds
  | AccountAlreadyInitialized
  | UninitializedAccount
  | AccountDataTooSmall
  | GenericError
  | VoteSdkError nat

type_synonym 'a vote_res = "('a, vote_instruction_error) res"

definition vote_err :: "(('a, vote_error) res) \<Rightarrow> 'a vote_res" where
  "vote_err r = (case r of Inr a \<Rightarrow> Inr a | Inl (Err e) \<Rightarrow> Inl (Err (VoteCustom e)) | Inl Panic \<Rightarrow> Inl Panic)"

lemma vote_err_Inr [simp]: "vote_err r = Inr a \<longleftrightarrow> r = Inr a"
  by (auto simp: vote_err_def split: sum.splits fault.splits)

lemma vote_err_Panic [simp]: "vote_err r = Inl Panic \<longleftrightarrow> r = Inl Panic"
  by (auto simp: vote_err_def split: sum.splits fault.splits)

definition MAX_LOCKOUT_HISTORY :: nat where "MAX_LOCKOUT_HISTORY = 31"
definition INITIAL_LOCKOUT :: nat where "INITIAL_LOCKOUT = 2"
definition MAX_EPOCH_CREDITS_HISTORY :: nat where "MAX_EPOCH_CREDITS_HISTORY = 64"
definition MAX_ITEMS :: nat where "MAX_ITEMS = 32"
definition VOTE_STATE_SIZE :: nat where "VOTE_STATE_SIZE = 3731"

record lockout =
  lo_slot :: u64
  confirmation_count :: u32

definition new_lockout :: "u64 \<Rightarrow> lockout" where
  "new_lockout s = \<lparr>lo_slot = s, confirmation_count = 1\<rparr>"

definition lockout_slots :: "lockout \<Rightarrow> u64" where
  "lockout_slots v = (of_nat INITIAL_LOCKOUT :: u64) ^ unat (confirmation_count v)"

definition last_locked_out_slot :: "lockout \<Rightarrow> u64" where
  "last_locked_out_slot v = lo_slot v + lockout_slots v"

definition is_locked_out_at_slot :: "lockout \<Rightarrow> u64 \<Rightarrow> bool" where
  "is_locked_out_at_slot v s \<longleftrightarrow> s \<le> last_locked_out_slot v"

record vote =
  vote_slots :: "u64 list"
  vote_hash_of :: vote_hash
  vote_timestamp :: "i64 option"

record vote_state_update =
  upd_lockouts :: "lockout list"
  upd_root :: "u64 option"
  upd_hash :: vote_hash
  upd_timestamp :: "i64 option"

definition new_vote :: "u64 list \<Rightarrow> vote_hash \<Rightarrow> vote" where
  "new_vote slots h = \<lparr>vote_slots = slots, vote_hash_of = h, vote_timestamp = None\<rparr>"

definition update_of_slots :: "(u64 \<times> u32) list \<Rightarrow> vote_state_update" where
  "update_of_slots recent =
     \<lparr>upd_lockouts = map (\<lambda>(s, c). \<lparr>lo_slot = s, confirmation_count = c\<rparr>) recent,
      upd_root = None, upd_hash = 0, upd_timestamp = None\<rparr>"

definition new_update :: "lockout list \<Rightarrow> u64 option \<Rightarrow> vote_hash \<Rightarrow> vote_state_update" where
  "new_update los root h =
     \<lparr>upd_lockouts = los, upd_root = root, upd_hash = h, upd_timestamp = None\<rparr>"

definition update_slots :: "vote_state_update \<Rightarrow> u64 list" where
  "update_slots u = map lo_slot (upd_lockouts u)"

record vote_init =
  init_node :: pubkey
  init_voter :: pubkey
  init_withdrawer :: pubkey
  init_commission :: u8

datatype vote_authorize = Voter | Withdrawer

record block_timestamp =
  bt_slot :: u64
  bt_timestamp :: i64

section \<open>Vote transactions\<close>

datatype vote_transaction = VoteTx vote | UpdateTx vote_state_update

fun tx_slots :: "vote_transaction \<Rightarrow> u64 list" where
  "tx_slots (VoteTx v) = vote_slots v"
| "tx_slots (UpdateTx u) = update_slots u"

fun tx_slot :: "vote_transaction \<Rightarrow> nat \<Rightarrow> (u64, unit) res" where
  "tx_slot (VoteTx v) i = (if i < length (vote_slots v) then Inr (vote_slots v ! i) else Inl Panic)"
| "tx_slot (UpdateTx u) i =
     (if i < length (upd_lockouts u) then Inr (lo_slot (upd_lockouts u ! i)) else Inl Panic)"

fun tx_len :: "vote_transaction \<Rightarrow> nat" where
  "tx_len (VoteTx v) = length (vote_slots v)"
| "tx_len (UpdateTx u) = length (upd_lockouts u)"

fun tx_is_empty :: "vote_transaction \<Rightarrow> bool" where
  "tx_is_empty (VoteTx v) \<longleftrightarrow> vote_slots v = []"
| "tx_is_empty (UpdateTx u) \<longleftrightarrow> upd_lockouts u = []"

fun tx_hash :: "vote_transaction \<Rightarrow> vote_hash" where
  "tx_hash (VoteTx v) = vote_hash_of v"
| "tx_hash (UpdateTx u) = upd_hash u"

fun tx_timestamp :: "vote_transaction \<Rightarrow> i64 option" where
  "tx_timestamp (VoteTx v) = vote_timestamp v"
| "tx_timestamp (UpdateTx u) = upd_timestamp u"

fun tx_set_timestamp :: "i64 option \<Rightarrow> vote_transaction \<Rightarrow> vote_transaction" where
  "tx_set_timestamp ts (VoteTx v) = VoteTx (v\<lparr>vote_timestamp := ts\<rparr>)"
| "tx_set_timestamp ts (UpdateTx u) = UpdateTx (u\<lparr>upd_timestamp := ts\<rparr>)"

definition last_of :: "'a list \<Rightarrow> 'a option" where
  "last_of xs = (if xs = [] then None else Some (last xs))"

fun tx_last_voted_slot :: "vote_transaction \<Rightarrow> u64 option" where
  "tx_last_voted_slot (VoteTx v) = last_of (vote_slots v)"
| "tx_last_voted_slot (UpdateTx u) = map_option lo_slot (last_of (upd_lockouts u))"

definition tx_last_voted_slot_hash :: "vote_transaction \<Rightarrow> (u64 \<times> vote_hash) option" where
  "tx_last_voted_slot_hash t = map_option (\<lambda>s. (s, tx_hash t)) (tx_last_voted_slot t)"

lemma last_of_simps [simp]: "last_of [] = None" "last_of (xs @ [x]) = Some x"
  by (simp_all add: last_of_def)

lemma last_of_Some_iff: "last_of xs = Some x \<longleftrightarrow> (\<exists>ys. xs = ys @ [x])"
  by (cases xs rule: rev_cases) auto

lemma last_of_None_iff [simp]: "last_of xs = None \<longleftrightarrow> xs = []"
  by (simp add: last_of_def)

section \<open>Histories of voters\<close>

record 'a circ_buf =
  cb_buf :: "'a list"
  cb_idx :: nat
  cb_is_empty :: bool

definition default_circ_buf :: "'a \<Rightarrow> 'a circ_buf" where
  "default_circ_buf d = \<lparr>cb_buf = replicate MAX_ITEMS d, cb_idx = MAX_ITEMS - 1, cb_is_empty = True\<rparr>"

definition cb_append :: "'a \<Rightarrow> 'a circ_buf \<Rightarrow> 'a circ_buf" where
  "cb_append x c =
     (let i = (cb_idx c + 1) mod MAX_ITEMS in
      c\<lparr>cb_idx := i, cb_buf := (cb_buf c)[i := x], cb_is_empty := False\<rparr>)"

definition cb_last :: "'a circ_buf \<Rightarrow> 'a option" where
  "cb_last c = (if \<not> cb_is_empty c then Some (cb_buf c ! cb_idx c) else None)"

text \<open>\<open>AuthorizedVoters\<close>: the keys authorised from an epoch on.\<close>

type_synonym authorized_voters = "(u64 \<times> pubkey) list"

fun btree_insert :: "'k::linorder \<Rightarrow> 'v \<Rightarrow> ('k \<times> 'v) list \<Rightarrow> ('k \<times> 'v) list" where
  "btree_insert k v [] = [(k, v)]"
| "btree_insert k v ((k', v') # m) =
     (if k < k' then (k, v) # (k', v') # m
      else if k = k' then (k, v) # m
      else (k', v') # btree_insert k v m)"

definition new_authorized_voters :: "u64 \<Rightarrow> pubkey \<Rightarrow> authorized_voters" where
  "new_authorized_voters e k = btree_insert e k []"

text \<open>The flag says whether the epoch has an entry of its own.\<close>

definition get_or_calculate_authorized_voter_for_epoch ::
  "u64 \<Rightarrow> authorized_voters \<Rightarrow> (pubkey \<times> bool) option" where
  "get_or_calculate_authorized_voter_for_epoch e av =
     (case map_of av e of
        None \<Rightarrow> map_option (\<lambda>p. (snd p, False)) (last_of (filter (\<lambda>p. fst p < e) av))
      | Some k \<Rightarrow> Some (k, True))"

definition get_authorized_voter :: "u64 \<Rightarrow> authorized_voters \<Rightarrow> pubkey option" where
  "get_authorized_voter e av = map_option fst (get_or_calculate_authorized_voter_for_epoch e av)"

definition get_and_cache_authorized_voter_for_epoch ::
  "u64 \<Rightarrow> authorized_voters \<Rightarrow> (pubkey \<times> authorized_voters) option" where
  "get_and_cache_authorized_voter_for_epoch e av =
     map_option (\<lambda>(k, existed). (k, if existed then av else btree_insert e k av))
       (get_or_calculate_authorized_voter_for_epoch e av)"

definition purge_authorized_voters :: "u64 \<Rightarrow> authorized_voters \<Rightarrow> (authorized_voters, 'e) res" where
  "purge_authorized_voters current av =
     (let kept = filter (\<lambda>p. \<not> fst p < current) av in
      if kept = [] then Inl Panic else Inr kept)"

definition voters_first :: "authorized_voters \<Rightarrow> (u64 \<times> pubkey) option" where
  "voters_first av = (case av of [] \<Rightarrow> None | p # _ \<Rightarrow> Some p)"

definition voters_last :: "authorized_voters \<Rightarrow> (u64 \<times> pubkey) option" where
  "voters_last av = last_of av"

definition voters_contains :: "u64 \<Rightarrow> authorized_voters \<Rightarrow> bool" where
  "voters_contains e av = (map_of av e \<noteq> None)"

section \<open>The vote state\<close>

record vote_state =
  node_pubkey :: pubkey
  authorized_withdrawer :: pubkey
  commission :: u8
  votes :: "lockout list"
  root_slot :: "u64 option"
  authorized_voters :: authorized_voters
  prior_voters :: "(pubkey \<times> u64 \<times> u64) circ_buf"
  epoch_credits :: "(u64 \<times> u64 \<times> u64) list"
  last_timestamp :: block_timestamp

definition default_vote_state :: vote_state where
  "default_vote_state =
     \<lparr>node_pubkey = 0, authorized_withdrawer = 0, commission = 0, votes = [], root_slot = None,
      authorized_voters = [], prior_voters = default_circ_buf (0, 0, 0), epoch_credits = [],
      last_timestamp = \<lparr>bt_slot = 0, bt_timestamp = 0\<rparr>\<rparr>"

record clock =
  clock_epoch :: u64
  leader_schedule_epoch :: u64

definition new_vote_state :: "vote_init \<Rightarrow> clock \<Rightarrow> vote_state" where
  "new_vote_state vi clk =
     default_vote_state\<lparr>node_pubkey := init_node vi,
       authorized_voters := new_authorized_voters (clock_epoch clk) (init_voter vi),
       authorized_withdrawer := init_withdrawer vi,
       commission := init_commission vi\<rparr>"

text \<open>The version before the history of authorised voters, with a circular buffer of its own.\<close>

record 'a circ_buf_0_23_5 =
  old_buf :: "'a list"
  old_idx :: nat

definition old_append :: "'a \<Rightarrow> 'a circ_buf_0_23_5 \<Rightarrow> 'a circ_buf_0_23_5" where
  "old_append x c =
     (let i = (old_idx c + 1) mod MAX_ITEMS in c\<lparr>old_idx := i, old_buf := (old_buf c)[i := x]\<rparr>)"

record vote_state_0_23_5 =
  old_node_pubkey :: pubkey
  old_authorized_voter :: pubkey
  old_authorized_voter_epoch :: u64
  old_prior_voters :: "(pubkey \<times> u64 \<times> u64 \<times> u64) circ_buf_0_23_5"
  old_authorized_withdrawer :: pubkey
  old_commission :: u8
  old_votes :: "lockout list"
  old_root_slot :: "u64 option"
  old_epoch_credits :: "(u64 \<times> u64 \<times> u64) list"
  old_last_timestamp :: block_timestamp

datatype vote_state_versions = V0_23_5 vote_state_0_23_5 | Current vote_state

fun convert_to_current :: "vote_state_versions \<Rightarrow> vote_state" where
  "convert_to_current (V0_23_5 s) =
     \<lparr>node_pubkey = old_node_pubkey s, authorized_withdrawer = old_authorized_withdrawer s,
      commission = old_commission s, votes = old_votes s, root_slot = old_root_slot s,
      authorized_voters = new_authorized_voters (old_authorized_voter_epoch s) (old_authorized_voter s),
      prior_voters = default_circ_buf (0, 0, 0), epoch_credits = old_epoch_credits s,
      last_timestamp = old_last_timestamp s\<rparr>"
| "convert_to_current (Current s) = s"

fun is_uninitialized :: "vote_state_versions \<Rightarrow> bool" where
  "is_uninitialized (V0_23_5 s) \<longleftrightarrow> old_authorized_voter s = 0"
| "is_uninitialized (Current s) \<longleftrightarrow> authorized_voters s = []"

section \<open>Reading the state\<close>

definition last_lockout :: "vote_state \<Rightarrow> lockout option" where
  "last_lockout s = last_of (votes s)"

definition last_voted_slot :: "vote_state \<Rightarrow> u64 option" where
  "last_voted_slot s = map_option lo_slot (last_lockout s)"

definition nth_recent_vote :: "nat \<Rightarrow> vote_state \<Rightarrow> lockout option" where
  "nth_recent_vote position s =
     (if position < length (votes s) then Some (votes s ! (length (votes s) - 1 - position)) else None)"

definition tower :: "vote_state \<Rightarrow> u64 list" where
  "tower s = map lo_slot (votes s)"

definition current_epoch :: "vote_state \<Rightarrow> u64" where
  "current_epoch s = (if epoch_credits s = [] then 0 else fst (last (epoch_credits s)))"

definition credits :: "vote_state \<Rightarrow> u64" where
  "credits s = (if epoch_credits s = [] then 0 else fst (snd (last (epoch_credits s))))"

text \<open>\<open>binary_search_by\<close> on the slots of the tower, between \<open>left\<close> and \<open>right\<close>.\<close>

function search_slot :: "lockout list \<Rightarrow> u64 \<Rightarrow> nat \<Rightarrow> nat \<Rightarrow> bool" where
  "search_slot vs candidate left right =
     (if left < right then
        (let mid = left + (right - left) div 2; s = lo_slot (vs ! mid) in
         if s < candidate then search_slot vs candidate (mid + 1) right
         else if candidate < s then search_slot vs candidate left mid
         else True)
      else False)"
  by pat_completeness auto
termination
  by (relation "measure (\<lambda>(vs, candidate, left, right). right - left)") auto

declare search_slot.simps [simp del]

definition contains_slot :: "u64 \<Rightarrow> vote_state \<Rightarrow> bool" where
  "contains_slot candidate s = search_slot (votes s) candidate 0 (length (votes s))"

text \<open>\<open>commission_split\<close>: the voter's and the stakers' share, and whether there were two.\<close>

definition commission_split :: "vote_state \<Rightarrow> u64 \<Rightarrow> u64 \<times> u64 \<times> bool" where
  "commission_split s on =
     (let split = min (commission s) 100 in
      if split = 0 then (0, on, False)
      else if split = 100 then (on, 0, False)
      else
        (let wide = ucast on :: 128 word;
             mine = wide * ucast split div 100;
             theirs = wide * ucast (100 - split) div 100
         in (ucast mine, ucast theirs, True)))"

text \<open>
  Each share is its percentage rounded down, so together they never exceed the reward and lose
  at most one lamport; the flag says whether both parties have a share.
\<close>

lemma unat_share:
  fixes on :: u64
  assumes "unat p \<le> 100"
  shows "unat (ucast ((ucast on :: 128 word) * ucast (p :: u8) div 100) :: u64) = unat on * unat p div 100"
proof -
  have on: "unat on < 2 ^ 64" using unat_lt_width [of on] by simp
  have wide: "unat (ucast on :: 128 word) = unat on" "unat (ucast p :: 128 word) = unat p"
    using on assms by (simp_all add: unsigned_ucast_eq take_bit_nat_eq_self)
  have prod: "unat ((ucast on :: 128 word) * ucast p) = unat on * unat p"
  proof -
    have "unat on * unat p \<le> 2 ^ 64 * 100"
      using on assms by (intro mult_le_mono) simp_all
    then have "unat (ucast on :: 128 word) * unat (ucast p :: 128 word) < 2 ^ LENGTH(128)"
      by (simp add: wide)
    from unat_mult_nowrap [OF this] show ?thesis by (simp add: wide)
  qed
  have "unat on * unat p \<le> unat on * 100" using assms by (rule mult_le_mono2)
  then have "unat on * unat p div 100 < 2 ^ 64" using on by linarith
  then show ?thesis
    by (simp add: unsigned_ucast_eq unat_div prod take_bit_nat_eq_self)
qed

lemma commission_split_shares:
  assumes "commission_split s on = (mine, theirs, was_split)"
  shows "unat mine = unat on * min 100 (unat (commission s)) div 100"
    and "unat theirs = unat on * (100 - min 100 (unat (commission s))) div 100"
    and "unat mine + unat theirs \<le> unat on \<and> unat on \<le> unat mine + unat theirs + 1"
    and "was_split \<longleftrightarrow> 0 < unat (commission s) \<and> unat (commission s) < 100"
proof -
  let ?c = "min (commission s) 100"
  have c: "unat ?c = min 100 (unat (commission s))"
    by (auto simp: min_def word_le_nat_alt)
  have z: "(?c = 0) = (unat ?c = 0)" and h: "(?c = 100) = (unat ?c = 100)"
    using unat_eq_zero [of ?c] word_unat_eq_iff [of ?c 100] by auto
  have rest: "unat (100 - ?c) = 100 - unat ?c"
    by (simp add: unat_sub min_def)
  show mine: "unat mine = unat on * min 100 (unat (commission s)) div 100"
    using assms unat_share [of ?c on] c z h by (auto simp: commission_split_def Let_def split: if_splits)
  show theirs: "unat theirs = unat on * (100 - min 100 (unat (commission s))) div 100"
    using assms unat_share [of "100 - ?c" on] c z h rest
    by (auto simp: commission_split_def Let_def split: if_splits)
  show "unat mine + unat theirs \<le> unat on \<and> unat on \<le> unat mine + unat theirs + 1"
  proof -
    let ?m = "min 100 (unat (commission s))"
    have "unat on * ?m + unat on * (100 - ?m) = 100 * unat on"
      by (simp add: distrib_left [symmetric])
    then show ?thesis unfolding mine theirs by linarith
  qed
  show "was_split \<longleftrightarrow> 0 < unat (commission s) \<and> unat (commission s) < 100"
    using assms c z h by (auto simp: commission_split_def Let_def split: if_splits)
qed

section \<open>Voting\<close>

definition pop_expired_votes :: "u64 \<Rightarrow> lockout list \<Rightarrow> lockout list" where
  "pop_expired_votes next vs = rev (dropWhile (\<lambda>v. \<not> is_locked_out_at_slot v next) (rev vs))"

definition double_lockouts :: "lockout list \<Rightarrow> lockout list" where
  "double_lockouts vs =
     map (\<lambda>(i, v). if length vs > i + unat (confirmation_count v)
                    then v\<lparr>confirmation_count := confirmation_count v + 1\<rparr> else v) (enumerate 0 vs)"

definition increment_credits :: "u64 \<Rightarrow> u64 \<Rightarrow> (u64 \<times> u64 \<times> u64) list \<Rightarrow> (u64 \<times> u64 \<times> u64) list" where
  "increment_credits epoch n ecs =
     (let ecs =
        (if ecs = [] then [(epoch, 0, 0)]
         else case last ecs of (last_epoch, earned, prev) \<Rightarrow>
           if epoch \<noteq> last_epoch then
             (let ecs = (if earned \<noteq> prev then ecs @ [(epoch, earned, earned)]
                         else butlast ecs @ [(epoch, earned, prev)])
              in if length ecs > MAX_EPOCH_CREDITS_HISTORY then tl ecs else ecs)
           else ecs)
      in case last ecs of (last_epoch, earned, prev) \<Rightarrow> butlast ecs @ [(last_epoch, earned + n, prev)])"

definition process_next_vote_slot :: "u64 \<Rightarrow> u64 \<Rightarrow> vote_state \<Rightarrow> vote_state" where
  "process_next_vote_slot next epoch s =
     (if (case last_voted_slot s of None \<Rightarrow> False | Some l \<Rightarrow> next \<le> l) then s
      else
        (let s = s\<lparr>votes := pop_expired_votes next (votes s)\<rparr>;
             s = (if length (votes s) = MAX_LOCKOUT_HISTORY then
                    s\<lparr>votes := tl (votes s), root_slot := Some (lo_slot (hd (votes s))),
                      epoch_credits := increment_credits epoch 1 (epoch_credits s)\<rparr>
                  else s)
         in s\<lparr>votes := double_lockouts (votes s @ [new_lockout next])\<rparr>))"

definition process_timestamp :: "u64 \<Rightarrow> i64 \<Rightarrow> vote_state \<Rightarrow> vote_error + vote_state" where
  "process_timestamp slot timestamp s =
     (let l = last_timestamp s; now = \<lparr>bt_slot = slot, bt_timestamp = timestamp\<rparr> in
      if (slot < bt_slot l \<or> sint timestamp < sint (bt_timestamp l))
         \<or> (slot = bt_slot l \<and> now \<noteq> l \<and> bt_slot l \<noteq> 0)
      then Inl TimestampTooOld
      else Inr (s\<lparr>last_timestamp := now\<rparr>))"

text \<open>The features of the cluster that the code asks \<open>FeatureSet::is_active\<close> about.\<close>

datatype vote_feature =
    Filter_votes_outside_slot_hashes
  | Vote_state_update_credit_per_dequeue
  | Vote_withdraw_authority_may_change_authorized_voter

type_synonym features = "vote_feature \<Rightarrow> bool"

text \<open>
  \<open>check_slots_are_valid\<close>.  \<open>slots_step\<close> is the body of its loop on the indices \<open>(i, j)\<close>:
  the slots from \<open>i\<close> on are unchecked and the hashes below \<open>j\<close> are left, the oldest last.
\<close>

definition slots_running :: "u64 list \<Rightarrow> nat \<times> nat \<Rightarrow> bool" where
  "slots_running slots = (\<lambda>(i, j). i < length slots \<and> 0 < j)"

definition slots_step :: "u64 option \<Rightarrow> u64 list \<Rightarrow> slot_hashes \<Rightarrow> nat \<times> nat \<Rightarrow> nat \<times> nat" where
  "slots_step last_voted slots hs = (\<lambda>(i, j).
     if (case last_voted of None \<Rightarrow> False | Some l \<Rightarrow> slots ! i \<le> l) then (i + 1, j)
     else if slots ! i \<noteq> fst (hs ! (j - 1)) then (i, j - 1)
     else (i + 1, j - 1))"

function slots_loop :: "u64 option \<Rightarrow> u64 list \<Rightarrow> slot_hashes \<Rightarrow> nat \<times> nat \<Rightarrow> nat \<times> nat" where
  "slots_loop last_voted slots hs p =
     (if slots_running slots p then slots_loop last_voted slots hs (slots_step last_voted slots hs p) else p)"
  by pat_completeness auto
termination
  by (relation "measure (\<lambda>(l, slots, hs, i, j). (length slots - i) + j)")
    (auto simp: slots_running_def slots_step_def split: option.splits)

declare slots_loop.simps [simp del]

definition check_slots_are_valid :: "u64 list \<Rightarrow> vote_hash \<Rightarrow> slot_hashes \<Rightarrow> vote_state \<Rightarrow> vote_error + unit" where
  "check_slots_are_valid slots h hs s =
     (let (i, j) = slots_loop (last_voted_slot s) slots hs (0, length hs) in
      if j = length hs then Inl VoteTooOld
      else if i \<noteq> length slots then Inl SlotsMismatch
      else if snd (hs ! j) \<noteq> h then Inl SlotHashMismatch
      else Inr ())"

definition filtered_vote_slots :: "vote \<Rightarrow> slot_hashes \<Rightarrow> features option \<Rightarrow> u64 list" where
  "filtered_vote_slots v hs fs =
     (case fs of
        Some active \<Rightarrow>
          if active Filter_votes_outside_slot_hashes then
            (let earliest = (if hs = [] then 0 else fst (last hs)) in
             filter (\<lambda>s. earliest \<le> s) (vote_slots v))
          else vote_slots v
      | None \<Rightarrow> vote_slots v)"

definition process_vote :: "vote \<Rightarrow> slot_hashes \<Rightarrow> u64 \<Rightarrow> features option \<Rightarrow> vote_state \<Rightarrow> vote_error + vote_state" where
  "process_vote v hs epoch fs s =
     (if vote_slots v = [] then Inl EmptySlots
      else
        (let slots = filtered_vote_slots v hs fs in
         if slots = [] then Inl VotesTooOldAllFiltered
         else rbind (check_slots_are_valid slots (vote_hash_of v) hs s) (\<lambda>_.
              Inr (fold (\<lambda>slot. process_next_vote_slot slot epoch) slots s))))"

text \<open>The unchecked variants ignore the result: an error leaves the state as it was.\<close>

definition process_vote_unchecked :: "vote \<Rightarrow> vote_state \<Rightarrow> vote_state" where
  "process_vote_unchecked v s =
     (case process_vote v (map (\<lambda>x. (x, vote_hash_of v)) (rev (vote_slots v))) (current_epoch s) None s of
        Inr s' \<Rightarrow> s' | Inl _ \<Rightarrow> s)"

definition process_slot_vote_unchecked :: "u64 \<Rightarrow> vote_state \<Rightarrow> vote_state" where
  "process_slot_vote_unchecked slot s = process_vote_unchecked (new_vote [slot] 0) s"

section \<open>Proposed towers\<close>

text \<open>
  The scan of \<open>check_update_vote_state_slots_are_valid\<close>: the index into the proposed tower, the
  number of hashes left, the root while it is still to be checked, and the indices to filter out.
\<close>

record update_scan =
  scan_index :: nat
  scan_hashes :: nat
  scan_root :: "u64 option"
  scan_filter :: "nat list"

definition scan_running :: "lockout list \<Rightarrow> update_scan \<Rightarrow> bool" where
  "scan_running los sc \<longleftrightarrow> scan_index sc < length los \<and> 0 < scan_hashes sc"

definition proposed_slot :: "lockout list \<Rightarrow> update_scan \<Rightarrow> u64" where
  "proposed_slot los sc = (case scan_root sc of Some r \<Rightarrow> r | None \<Rightarrow> lo_slot (los ! scan_index sc))"

definition scan_old_slot ::
  "vote_state \<Rightarrow> u64 \<Rightarrow> u64 \<Rightarrow> update_scan \<Rightarrow> (update_scan, vote_error) res" where
  "scan_old_slot s earliest proposed sc =
     (if \<not> proposed < earliest then Inl Panic
      else
        (let sc = (if \<not> contains_slot proposed s \<and> scan_root sc = None
                   then sc\<lparr>scan_filter := scan_filter sc @ [scan_index sc]\<rparr> else sc) in
         case scan_root sc of
           Some _ \<Rightarrow>
             (case root_slot s of
                None \<Rightarrow> Inl Panic
              | Some r \<Rightarrow> if r < earliest then Inr (sc\<lparr>scan_root := None\<rparr>) else Inl Panic)
         | None \<Rightarrow> Inr (sc\<lparr>scan_index := scan_index sc + 1\<rparr>)))"

definition scan_step ::
  "vote_state \<Rightarrow> lockout list \<Rightarrow> slot_hashes \<Rightarrow> u64 \<Rightarrow> update_scan \<Rightarrow> (update_scan, vote_error) res" where
  "scan_step s los hs earliest sc =
     (let proposed = proposed_slot los sc in
      if scan_root sc = None \<and> 0 < scan_index sc \<and> proposed \<le> lo_slot (los ! (scan_index sc - 1))
      then Inl (Err SlotsNotOrdered)
      else
        (let ancestor = fst (hs ! (scan_hashes sc - 1)) in
         if proposed < ancestor then
           (if scan_hashes sc = length hs then scan_old_slot s earliest proposed sc
            else Inl (Err (if scan_root sc \<noteq> None then RootOnDifferentFork else SlotsMismatch)))
         else if ancestor < proposed then Inr (sc\<lparr>scan_hashes := scan_hashes sc - 1\<rparr>)
         else if scan_root sc \<noteq> None then Inr (sc\<lparr>scan_root := None\<rparr>)
         else Inr (sc\<lparr>scan_index := scan_index sc + 1, scan_hashes := scan_hashes sc - 1\<rparr>)))"

definition scan_work :: "lockout list \<Rightarrow> update_scan \<Rightarrow> nat" where
  "scan_work los sc =
     (length los - scan_index sc) + scan_hashes sc + (if scan_root sc = None then 0 else 1)"

lemma scan_step_work:
  assumes "scan_running los sc" and "scan_step s los hs earliest sc = Inr sc'"
  shows "scan_work los sc' < scan_work los sc"
  using assms
  by (auto simp: scan_step_def scan_old_slot_def scan_running_def scan_work_def Let_def
      split: if_splits option.splits)

function scan_loop ::
  "vote_state \<Rightarrow> lockout list \<Rightarrow> slot_hashes \<Rightarrow> u64 \<Rightarrow> update_scan \<Rightarrow> (update_scan, vote_error) res" where
  "scan_loop s los hs earliest sc =
     (if scan_running los sc then
        (case scan_step s los hs earliest sc of
           Inl e \<Rightarrow> Inl e
         | Inr sc' \<Rightarrow> scan_loop s los hs earliest sc')
      else Inr sc)"
  by pat_completeness auto
termination
  by (relation "measure (\<lambda>(s, los, hs, earliest, sc). scan_work los sc)") (auto intro: scan_step_work)

declare scan_loop.simps [simp del]

text \<open>\<open>retain\<close> with the running index and the indices still to filter out.\<close>

fun retain_unlisted :: "nat \<Rightarrow> nat list \<Rightarrow> 'a list \<Rightarrow> 'a list" where
  "retain_unlisted i dropped [] = []"
| "retain_unlisted i [] (x # xs) = x # retain_unlisted (i + 1) [] xs"
| "retain_unlisted i (d # ds) (x # xs) =
     (if i = d then retain_unlisted (i + 1) ds xs else x # retain_unlisted (i + 1) (d # ds) xs)"

definition check_update_vote_state_slots_are_valid ::
  "vote_state_update \<Rightarrow> slot_hashes \<Rightarrow> vote_state \<Rightarrow> (vote_state_update, vote_error) res" where
  "check_update_vote_state_slots_are_valid u hs s =
     (if upd_lockouts u = [] then Inl (Err EmptySlots)
      else if (case last_voted_slot s of None \<Rightarrow> False | Some l \<Rightarrow> lo_slot (last (upd_lockouts u)) \<le> l)
      then Inl (Err VoteTooOld)
      else
        (let last_slot = lo_slot (last (upd_lockouts u)) in
         if hs = [] then Inl (Err SlotsMismatch)
         else
           (let earliest = fst (last hs) in
            if last_slot < earliest then Inl (Err VoteTooOld)
            else
              (let u = (case upd_root u of
                          Some r \<Rightarrow> if r < earliest then u\<lparr>upd_root := root_slot s\<rparr> else u
                        | None \<Rightarrow> u)
               in rbind (scan_loop s (upd_lockouts u) hs earliest
                   \<lparr>scan_index = 0, scan_hashes = length hs, scan_root = upd_root u, scan_filter = []\<rparr>)
                  (\<lambda>sc.
                  if scan_index sc \<noteq> length (upd_lockouts u) then Inl (Err SlotsMismatch)
                  else if \<not> scan_hashes sc < length hs then Inl Panic
                  else if last_slot \<noteq> fst (hs ! scan_hashes sc) then Inl Panic
                  else if snd (hs ! scan_hashes sc) \<noteq> upd_hash u then Inl (Err SlotHashMismatch)
                  else Inr (u\<lparr>upd_lockouts := retain_unlisted 0 (scan_filter sc) (upd_lockouts u)\<rparr>))))))"

text \<open>The shape a proposed tower must have; the second argument is the vote before.\<close>

fun check_tower :: "u64 option \<Rightarrow> lockout option \<Rightarrow> lockout list \<Rightarrow> vote_error + unit" where
  "check_tower new_root previous [] = Inr ()"
| "check_tower new_root previous (v # vs) =
     (if confirmation_count v = 0 then Inl ZeroConfirmations
      else if confirmation_count v > of_nat MAX_LOCKOUT_HISTORY then Inl ConfirmationTooLarge
      else if (case new_root of None \<Rightarrow> False | Some r \<Rightarrow> lo_slot v \<le> r \<and> r \<noteq> 0) then Inl SlotSmallerThanRoot
      else rbind
        (case previous of
           None \<Rightarrow> Inr ()
         | Some p \<Rightarrow>
             if lo_slot p \<ge> lo_slot v then Inl SlotsNotOrdered
             else if confirmation_count p \<le> confirmation_count v then Inl ConfirmationsNotOrdered
             else if lo_slot v > last_locked_out_slot p then Inl NewVoteStateLockoutMismatch
             else Inr ())
        (\<lambda>_. check_tower new_root (Some v) vs))"

text \<open>How many of the current votes the new root covers, and how many slots it finalises.\<close>

fun count_rooted :: "u64 option \<Rightarrow> lockout list \<Rightarrow> nat \<times> u64 \<Rightarrow> nat \<times> u64" where
  "count_rooted new_root [] (i, n) = (i, n)"
| "count_rooted new_root (v # vs) (i, n) =
     (case new_root of
        Some r \<Rightarrow>
          if lo_slot v \<le> r then count_rooted new_root vs (i + 1, if lo_slot v \<noteq> r then n + 1 else n)
          else (i, n)
      | None \<Rightarrow> (i, n))"

text \<open>The walk over the current votes behind the new root and the new votes.\<close>

fun check_no_rollback :: "lockout list \<Rightarrow> lockout list \<Rightarrow> vote_error + unit" where
  "check_no_rollback (c # cs) (v # vs) =
     (if lo_slot c < lo_slot v then
        (if last_locked_out_slot c \<ge> lo_slot v then Inl LockoutConflict else check_no_rollback cs (v # vs))
      else if lo_slot c = lo_slot v then
        (if confirmation_count v < confirmation_count c then Inl ConfirmationRollBack
         else check_no_rollback cs vs)
      else check_no_rollback (c # cs) vs)"
| "check_no_rollback _ _ = Inr ()"

definition check_root :: "u64 option \<Rightarrow> u64 option \<Rightarrow> vote_error + unit" where
  "check_root new_root current =
     (case (new_root, current) of
        (Some new, Some cur) \<Rightarrow> if new < cur then Inl RootRollBack else Inr ()
      | (None, Some _) \<Rightarrow> Inl RootRollBack
      | _ \<Rightarrow> Inr ())"

definition process_new_vote_state ::
  "lockout list \<Rightarrow> u64 option \<Rightarrow> i64 option \<Rightarrow> u64 \<Rightarrow> features option \<Rightarrow> vote_state
     \<Rightarrow> (vote_state, vote_error) res" where
  "process_new_vote_state new_state new_root timestamp epoch fs s =
     (if new_state = [] then Inl Panic
      else if length new_state > MAX_LOCKOUT_HISTORY then Inl (Err TooManyVotes)
      else rbind (lift_err (check_root new_root (root_slot s))) (\<lambda>_.
        rbind (lift_err (check_tower new_root None new_state)) (\<lambda>_.
        let (i, finalized) = count_rooted new_root (votes s) (0, 1) in
        rbind (lift_err (check_no_rollback (drop i (votes s)) new_state)) (\<lambda>_.
        let earned = (if (case fs of None \<Rightarrow> False | Some active \<Rightarrow> active Vote_state_update_credit_per_dequeue)
                      then finalized else 1);
            s = (if root_slot s \<noteq> new_root
                 then s\<lparr>epoch_credits := increment_credits epoch earned (epoch_credits s)\<rparr> else s)
        in rbind (case timestamp of
               Some ts \<Rightarrow> lift_err (process_timestamp (lo_slot (last new_state)) ts s)
             | None \<Rightarrow> Inr s)
             (\<lambda>s. Inr (s\<lparr>root_slot := new_root, votes := new_state\<rparr>))))))"

section \<open>Changing the authorised voter\<close>

definition get_and_update_authorized_voter :: "u64 \<Rightarrow> vote_state \<Rightarrow> (pubkey \<times> vote_state) vote_res" where
  "get_and_update_authorized_voter current s =
     (case get_and_cache_authorized_voter_for_epoch current (authorized_voters s) of
        None \<Rightarrow> Inl (Err InvalidAccountData)
      | Some (k, av) \<Rightarrow>
          rbind (purge_authorized_voters current av) (\<lambda>av. Inr (k, s\<lparr>authorized_voters := av\<rparr>)))"

definition set_new_authorized_voter ::
  "pubkey \<Rightarrow> u64 \<Rightarrow> u64 \<Rightarrow> (pubkey \<Rightarrow> vote_instruction_error + unit) \<Rightarrow> vote_state \<Rightarrow> vote_state vote_res" where
  "set_new_authorized_voter authorized current target verify s =
     rbind (get_and_update_authorized_voter current s) (\<lambda>(epoch_voter, s).
     rbind (lift_err (verify epoch_voter)) (\<lambda>_.
     if voters_contains target (authorized_voters s) then Inl (Err (VoteCustom TooSoonToReauthorize))
     else
       (case voters_last (authorized_voters s) of
          None \<Rightarrow> Inl (Err InvalidAccountData)
        | Some (latest_epoch, latest) \<Rightarrow>
            rbind (if latest \<noteq> authorized then
                     (let switched = (case cb_last (prior_voters s) of None \<Rightarrow> 0 | Some (_, _, e) \<Rightarrow> e) in
                      if \<not> latest_epoch < target then Inl Panic
                      else Inr (s\<lparr>prior_voters := cb_append (latest, switched, target) (prior_voters s)\<rparr>))
                   else Inr s)
              (\<lambda>s. Inr (s\<lparr>authorized_voters := btree_insert target authorized (authorized_voters s)\<rparr>)))))"

end
