(* ===== verification/Vote_Tower.thy ===== *)
theory Vote_Tower
  imports Vote_State
begin

text \<open>
  The tower of a vote account: what \<open>process_next_vote_slot\<close> and \<open>process_new_vote_state\<close> keep
  (\<open>tower_ok\<close>, \<open>state_ok\<close>) and that neither forgets a vote before its lockout has passed
  (\<open>no_rollback\<close>).  The lemmas bound the slots by \<open>2 ^ 63\<close>, so that adding a lockout of at most
  \<open>2 ^ 32\<close> does not wrap.
\<close>

section \<open>Lockouts\<close>

lemma unat_lockout:
  assumes "unat (lo_slot v) < 2 ^ 63" and "unat (confirmation_count v) \<le> 32"
  shows "unat (last_locked_out_slot v) = unat (lo_slot v) + 2 ^ unat (confirmation_count v)"
proof -
  let ?n = "unat (confirmation_count v)"
  have le: "(2::nat) ^ ?n \<le> 2 ^ 32"
    using assms(2) by (intro power_increasing) auto
  have "(2::nat) ^ ?n mod 2 ^ 64 = 2 ^ ?n"
    using le by (intro mod_less) simp
  then have "unat ((2::u64) ^ ?n) = 2 ^ ?n"
    using unat_of_nat [where 'a = 64, of "2 ^ ?n"] by (simp add: take_bit_eq_mod)
  moreover have "unat (lo_slot v) + 2 ^ ?n < 2 ^ 64"
    using assms(1) le by simp
  ultimately show ?thesis
    by (simp add: last_locked_out_slot_def lockout_slots_def INITIAL_LOCKOUT_def unat_add_nowrap)
qed

lemma lockout_mono:
  assumes "lo_slot v = lo_slot w" and "unat (lo_slot v) < 2 ^ 63"
    and "unat (confirmation_count v) \<le> unat (confirmation_count w)" and "unat (confirmation_count w) \<le> 32"
  shows "last_locked_out_slot v \<le> last_locked_out_slot w"
  using assms unat_lockout [of v] unat_lockout [of w]
  by (simp add: word_le_nat_alt power_increasing)

lemma slot_below_lockout:
  assumes "unat (lo_slot v) < 2 ^ 63" and "unat (confirmation_count v) \<le> 32"
  shows "lo_slot v < last_locked_out_slot v"
  using unat_lockout [OF assms] by (simp add: word_less_nat_alt)

section \<open>Well-formed towers\<close>

lemma successively_conv_nth:
  "successively P xs \<longleftrightarrow> (\<forall>i. Suc i < length xs \<longrightarrow> P (xs ! i) (xs ! Suc i))"
proof (induction P xs rule: successively.induct)
  case (3 P x y xs)
  then show ?case
    by (auto simp: nth_Cons split: nat.splits)
qed auto

definition follows :: "lockout \<Rightarrow> lockout \<Rightarrow> bool" where
  "follows v w \<longleftrightarrow>
     lo_slot v < lo_slot w \<and> confirmation_count w < confirmation_count v \<and> lo_slot w \<le> last_locked_out_slot v"

definition vote_ok :: "lockout \<Rightarrow> bool" where
  "vote_ok v \<longleftrightarrow> 0 < unat (confirmation_count v) \<and> unat (confirmation_count v) \<le> MAX_LOCKOUT_HISTORY
     \<and> unat (lo_slot v) < 2 ^ 63"

definition tower_ok :: "lockout list \<Rightarrow> bool" where
  "tower_ok vs \<longleftrightarrow> successively follows vs \<and> (\<forall>v\<in>set vs. vote_ok v)"

definition root_below :: "u64 option \<Rightarrow> lockout list \<Rightarrow> bool" where
  "root_below root vs \<longleftrightarrow> (\<forall>r. root = Some r \<longrightarrow> vs \<noteq> [] \<and> (r = 0 \<or> (\<forall>v\<in>set vs. r < lo_slot v)))"

definition state_ok :: "vote_state \<Rightarrow> bool" where
  "state_ok s \<longleftrightarrow> tower_ok (votes s) \<and> root_below (root_slot s) (votes s)"

lemma vote_okD:
  "vote_ok v \<Longrightarrow> unat (confirmation_count v) \<le> 32" "vote_ok v \<Longrightarrow> unat (lo_slot v) < 2 ^ 63"
  "vote_ok v \<Longrightarrow> 0 < unat (confirmation_count v)" "vote_ok v \<Longrightarrow> unat (confirmation_count v) \<le> 31"
  by (auto simp: vote_ok_def MAX_LOCKOUT_HISTORY_def)

lemma tower_ok_Nil [simp]: "tower_ok []"
  by (simp add: tower_ok_def)

lemma tower_ok_vote: "tower_ok vs \<Longrightarrow> v \<in> set vs \<Longrightarrow> vote_ok v"
  by (simp add: tower_ok_def)

lemma tower_ok_append:
  "tower_ok (xs @ ys) \<longleftrightarrow>
     tower_ok xs \<and> tower_ok ys \<and> (xs \<noteq> [] \<and> ys \<noteq> [] \<longrightarrow> follows (last xs) (hd ys))"
  by (auto simp: tower_ok_def successively_append_iff)

lemma tower_slots_sorted: "tower_ok vs \<Longrightarrow> sorted_wrt (\<lambda>v w. lo_slot v < lo_slot w) vs"
proof -
  assume "tower_ok vs"
  then have "successively (\<lambda>v w. lo_slot v < lo_slot w) vs"
    unfolding tower_ok_def by (elim conjE successively_mono) (simp add: follows_def)
  then show ?thesis
    by (subst (asm) successively_conv_sorted_wrt) (auto intro!: transpI)
qed

lemma tower_confirmations_sorted:
  "tower_ok vs \<Longrightarrow> sorted_wrt (\<lambda>v w. confirmation_count w < confirmation_count v) vs"
proof -
  assume "tower_ok vs"
  then have "successively (\<lambda>v w. confirmation_count w < confirmation_count v) vs"
    unfolding tower_ok_def by (elim conjE successively_mono) (simp add: follows_def)
  then show ?thesis
    by (subst (asm) successively_conv_sorted_wrt) (auto intro!: transpI)
qed

lemma tower_last_max: "tower_ok (vs @ [l]) \<Longrightarrow> v \<in> set vs \<Longrightarrow> lo_slot v < lo_slot l"
  using tower_slots_sorted [of "vs @ [l]"] by (simp add: sorted_wrt_append)

lemma tower_hd_min: "tower_ok (f # vs) \<Longrightarrow> v \<in> set vs \<Longrightarrow> lo_slot f < lo_slot v"
  using tower_slots_sorted [of "f # vs"] by simp

text \<open>The confirmations fall from front to back, so each is at least the number of votes left.\<close>

lemma confirmations_at_least:
  assumes "tower_ok vs" and "i < length vs"
  shows "length vs - i \<le> unat (confirmation_count (vs ! i))"
  using assms
proof (induction vs arbitrary: i)
  case (Cons v vs)
  have ok: "tower_ok vs" and v: "vote_ok v"
    using Cons.prems(1) tower_ok_append [of "[v]" vs] by (auto simp: tower_ok_def)
  show ?case
  proof (cases i)
    case 0
    show ?thesis
    proof (cases vs)
      case (Cons w ws)
      then have "length vs \<le> unat (confirmation_count w)"
        using Cons.IH [OF ok, of 0] by simp
      moreover have "confirmation_count w < confirmation_count v"
        using Cons.prems(1) Cons by (simp add: tower_ok_def follows_def)
      ultimately show ?thesis
        using 0 by (simp add: word_less_nat_alt)
    qed (use 0 v in \<open>auto simp: vote_ok_def\<close>)
  qed (use Cons.IH [OF ok] Cons.prems(2) in auto)
qed simp

lemma tower_length: "tower_ok vs \<Longrightarrow> length vs \<le> MAX_LOCKOUT_HISTORY"
  using confirmations_at_least [of vs 0] tower_ok_vote [of vs "vs ! 0"]
  by (cases vs) (auto simp: vote_ok_def)

section \<open>Doubling\<close>

definition bumped :: "nat \<Rightarrow> nat \<Rightarrow> lockout \<Rightarrow> lockout" where
  "bumped n i v =
     (if n > i + unat (confirmation_count v) then v\<lparr>confirmation_count := confirmation_count v + 1\<rparr> else v)"

lemma double_lockouts_simps [simp]:
  "length (double_lockouts vs) = length vs"
  "i < length vs \<Longrightarrow> double_lockouts vs ! i = bumped (length vs) i (vs ! i)"
  by (auto simp: double_lockouts_def bumped_def nth_enumerate_eq split: prod.splits)

lemma bumped_simps [simp]: "lo_slot (bumped n i v) = lo_slot v"
  by (simp add: bumped_def)

lemma unat_bumped:
  "unat (confirmation_count v) \<le> 31 \<Longrightarrow>
     unat (confirmation_count (bumped n i v)) =
       (if n > i + unat (confirmation_count v) then Suc (unat (confirmation_count v))
        else unat (confirmation_count v))"
  by (auto simp: bumped_def unat_add_nowrap)

lemma bumped_mono: "unat (confirmation_count v) \<le> 31 \<Longrightarrow>
    confirmation_count v \<le> confirmation_count (bumped n i v)"
  by (simp add: word_le_nat_alt unat_bumped)

lemma bumped_lockout:
  "vote_ok v \<Longrightarrow> last_locked_out_slot v \<le> last_locked_out_slot (bumped n i v)"
  by (rule lockout_mono) (auto simp: unat_bumped dest: vote_okD)

lemma double_slots: "map lo_slot (double_lockouts vs) = map lo_slot vs"
  by (rule nth_equalityI) auto

text \<open>
  A tower with a new vote on top, before the doubling: the vote below is still locked at the
  new slot, but may have a single confirmation as well.
\<close>

lemma double_lockouts_ok:
  assumes ok: "tower_ok vs" and len: "length vs < MAX_LOCKOUT_HISTORY"
    and top: "vs \<noteq> [] \<Longrightarrow> lo_slot (last vs) < n \<and> is_locked_out_at_slot (last vs) n"
    and n: "unat n < 2 ^ 63"
  shows "tower_ok (double_lockouts (vs @ [new_lockout n]))"
proof -
  let ?ws = "vs @ [new_lockout n]" and ?ds = "double_lockouts (vs @ [new_lockout n])"
  let ?c = "\<lambda>i. unat (confirmation_count (?ws ! i))"
  have c: "1 \<le> ?c i" "?c i \<le> 31" "unat (lo_slot (?ws ! i)) < 2 ^ 63"
    "i < length vs \<longrightarrow> length vs - i \<le> ?c i" "\<not> i < length vs \<longrightarrow> ?c i = 1" if i: "i < length ?ws" for i
  proof -
    show "1 \<le> ?c i" "?c i \<le> 31" "unat (lo_slot (?ws ! i)) < 2 ^ 63"
      using i n vote_okD [OF tower_ok_vote [OF ok nth_mem, of i]]
      by (auto simp: nth_append new_lockout_def)
    show "i < length vs \<longrightarrow> length vs - i \<le> ?c i"
      using confirmations_at_least [OF ok, of i] by (simp add: nth_append)
    show "\<not> i < length vs \<longrightarrow> ?c i = 1"
      using i by (simp add: nth_append new_lockout_def)
  qed
  have len': "length ?ws \<le> 31"
    using len by (simp add: MAX_LOCKOUT_HISTORY_def)
  have good: "vote_ok (?ds ! i)" if i: "i < length ?ws" for i
    using c [OF i] i len' by (auto simp: vote_ok_def unat_bumped MAX_LOCKOUT_HISTORY_def)
  have step: "follows (?ds ! i) (?ds ! Suc i)" if i: "Suc i < length ?ws" for i
  proof -
    have old: "lo_slot (?ws ! i) < lo_slot (?ws ! Suc i) \<and> lo_slot (?ws ! Suc i) \<le> last_locked_out_slot (?ws ! i)
        \<and> (Suc i < length vs \<longrightarrow> ?c (Suc i) < ?c i)"
    proof (cases "Suc i < length vs")
      case True
      then have "follows (vs ! i) (vs ! Suc i)"
        using ok by (simp add: tower_ok_def successively_conv_nth)
      then show ?thesis using True by (simp add: nth_append follows_def word_less_nat_alt)
    next
      case False
      then have "i = length vs - 1" "vs \<noteq> []" using i by auto
      then show ?thesis
        using top by (simp add: nth_append last_conv_nth is_locked_out_at_slot_def new_lockout_def)
    qed
    have ds: "?ds ! i = bumped (length ?ws) i (?ws ! i)"
      using i by (intro double_lockouts_simps) simp
    have "vote_ok (?ws ! i)"
      using c [of i] i by (simp add: vote_ok_def MAX_LOCKOUT_HISTORY_def)
    from bumped_lockout [OF this] have "lo_slot (?ws ! Suc i) \<le> last_locked_out_slot (?ds ! i)"
      using old unfolding ds by (blast intro: order_trans)
    moreover have "unat (confirmation_count (?ds ! Suc i)) < unat (confirmation_count (?ds ! i))"
      using c [of i] c [of "Suc i"] i old by (auto simp: unat_bumped split: if_splits)
    ultimately show ?thesis
      using old i by (simp add: follows_def word_less_nat_alt)
  qed
  show ?thesis
    unfolding tower_ok_def
  proof
    show "successively follows ?ds"
      using step by (simp add: successively_conv_nth)
    show "\<forall>v\<in>set ?ds. vote_ok v"
      using good by (auto simp: in_set_conv_nth)
  qed
qed

section \<open>One vote\<close>

lemma pop_expired_prefix: "\<exists>popped. vs = pop_expired_votes n vs @ popped \<and>
    (\<forall>v\<in>set popped. last_locked_out_slot v < n)"
proof (intro exI conjI)
  let ?P = "\<lambda>v. \<not> is_locked_out_at_slot v n"
  show "vs = pop_expired_votes n vs @ rev (takeWhile ?P (rev vs))"
    unfolding pop_expired_votes_def rev_append [symmetric] takeWhile_dropWhile_id by simp
  show "\<forall>v\<in>set (rev (takeWhile ?P (rev vs))). last_locked_out_slot v < n"
    by (auto dest!: set_takeWhileD simp: is_locked_out_at_slot_def)
qed

lemma pop_expired_last: "pop_expired_votes n vs \<noteq> [] \<Longrightarrow> is_locked_out_at_slot (last (pop_expired_votes n vs)) n"
  using hd_dropWhile [of "\<lambda>v. \<not> is_locked_out_at_slot v n" "rev vs"]
  by (simp add: pop_expired_votes_def last_rev)

lemma last_voted_slot_eq: "last_voted_slot s = (if votes s = [] then None else Some (lo_slot (last (votes s))))"
  by (simp add: last_voted_slot_def last_lockout_def last_of_def)

lemma tower_below_last: "tower_ok vs \<Longrightarrow> v \<in> set vs \<Longrightarrow> lo_slot v \<le> lo_slot (last vs)"
  by (cases vs rule: rev_cases) (auto dest: tower_last_max order.strict_implies_order)

text \<open>
  What a new vote does to the tower: the votes it expires go, the oldest becomes the root when
  the tower is full, and the rest is doubled with the new vote on top.
\<close>

lemma process_next_cases:
  assumes new: "\<forall>v\<in>set (votes s). lo_slot v < n"
  obtains kept popped where "votes s = kept @ popped" "\<forall>v\<in>set popped. last_locked_out_slot v < n"
    and "kept \<noteq> [] \<Longrightarrow> is_locked_out_at_slot (last kept) n"
    and "if length kept = MAX_LOCKOUT_HISTORY
         then process_next_vote_slot n e s =
           s\<lparr>votes := double_lockouts (tl kept @ [new_lockout n]), root_slot := Some (lo_slot (hd kept)),
             epoch_credits := increment_credits e 1 (epoch_credits s)\<rparr>
         else process_next_vote_slot n e s = s\<lparr>votes := double_lockouts (kept @ [new_lockout n])\<rparr>"
proof -
  obtain popped where p: "votes s = pop_expired_votes n (votes s) @ popped"
    "\<forall>v\<in>set popped. last_locked_out_slot v < n"
    using pop_expired_prefix by blast
  have "\<not> (case last_voted_slot s of None \<Rightarrow> False | Some l \<Rightarrow> n \<le> l)"
    using new by (simp add: last_voted_slot_eq not_le)
  then show thesis
    by (intro that [OF p pop_expired_last]) (simp_all add: process_next_vote_slot_def Let_def)
qed

lemma process_next_old: "\<exists>v\<in>set (votes s). n \<le> lo_slot v \<Longrightarrow> tower_ok (votes s) \<Longrightarrow> process_next_vote_slot n e s = s"
  using tower_below_last by (fastforce simp: process_next_vote_slot_def last_voted_slot_eq)

lemma set_double: "\<exists>i<length vs. v = bumped (length vs) i (vs ! i)" if "v \<in> set (double_lockouts vs)"
  using that by (auto simp: in_set_conv_nth)

lemma double_set_slot: "v \<in> set (double_lockouts vs) \<Longrightarrow> lo_slot v \<in> lo_slot ` set vs"
  by (metis double_slots image_eqI list.set_map)

text \<open>A tower from which votes are dropped at either end.\<close>

lemma tower_middle: "tower_ok (xs @ ys @ zs) \<Longrightarrow> tower_ok ys"
  by (simp add: tower_ok_append)

lemma process_next_ok:
  assumes ok: "state_ok s" and n: "unat n < 2 ^ 63"
  shows "state_ok (process_next_vote_slot n e s)"
proof (cases "\<forall>v\<in>set (votes s). lo_slot v < n")
  case False
  then show ?thesis
    using process_next_old [of s n e] ok by (auto simp: state_ok_def not_less)
next
  case True
  obtain kept popped where split: "votes s = kept @ popped" and top: "kept \<noteq> [] \<Longrightarrow> is_locked_out_at_slot (last kept) n"
    and eq: "if length kept = MAX_LOCKOUT_HISTORY
         then process_next_vote_slot n e s =
           s\<lparr>votes := double_lockouts (tl kept @ [new_lockout n]), root_slot := Some (lo_slot (hd kept)),
             epoch_credits := increment_credits e 1 (epoch_credits s)\<rparr>
         else process_next_vote_slot n e s = s\<lparr>votes := double_lockouts (kept @ [new_lockout n])\<rparr>"
    using process_next_cases [OF True] by metis
  have kept: "tower_ok kept" "\<And>v. v \<in> set kept \<Longrightarrow> lo_slot v < n"
    using ok split True by (auto simp: state_ok_def tower_ok_append)
  have ds: "tower_ok (double_lockouts (vs @ [new_lockout n]))"
    if "tower_ok vs" "length vs < MAX_LOCKOUT_HISTORY" "vs \<noteq> [] \<Longrightarrow> last vs = last kept \<and> kept \<noteq> []" for vs
    using that kept(2) [OF last_in_set] top n by (intro double_lockouts_ok) auto
  show ?thesis
  proof (cases "length kept = MAX_LOCKOUT_HISTORY")
    case True
    then obtain f rest where f: "kept = f # rest"
      by (cases kept) (auto simp: MAX_LOCKOUT_HISTORY_def)
    have "tower_ok rest"
      using kept(1) tower_middle [of "[f]" rest "[]"] by (simp add: f)
    then have "tower_ok (double_lockouts (rest @ [new_lockout n]))"
      using True f by (intro ds) auto
    moreover have "lo_slot f < lo_slot v" if "v \<in> set (double_lockouts (rest @ [new_lockout n]))" for v
      using double_set_slot [OF that] tower_hd_min [of f rest] kept f by (auto simp: new_lockout_def)
    moreover have "double_lockouts (rest @ [new_lockout n]) \<noteq> []"
      by (metis double_lockouts_simps(1) length_0_conv snoc_eq_iff_butlast)
    ultimately show ?thesis
      using eq True f by (simp add: state_ok_def root_below_def)
  next
    case False
    have len: "length kept < MAX_LOCKOUT_HISTORY"
      using tower_length [OF kept(1)] False by simp
    have r: "r = 0 \<or> (\<forall>v\<in>set (double_lockouts (kept @ [new_lockout n])). r < lo_slot v)"
      if "root_slot s = Some r" for r
    proof -
      have old: "votes s \<noteq> []" "r = 0 \<or> (\<forall>v\<in>set (votes s). r < lo_slot v)"
        using ok that by (auto simp: state_ok_def root_below_def)
      then have "r = 0 \<or> r < n"
        using \<open>\<forall>v\<in>set (votes s). lo_slot v < n\<close> last_in_set [OF old(1)] by (meson order_less_trans)
      then show ?thesis
        using old split by (auto simp: new_lockout_def dest!: double_set_slot)
    qed
    have "double_lockouts (kept @ [new_lockout n]) \<noteq> []"
      by (metis double_lockouts_simps(1) length_0_conv snoc_eq_iff_butlast)
    then show ?thesis
      using eq False ds [OF kept(1) len] r ok by (auto simp: state_ok_def root_below_def)
  qed
qed

section \<open>Nothing is rolled back\<close>

text \<open>
  A vote of the state before is still there with at least its confirmations, or the root has
  reached it, or the tower has a vote beyond its lockout.
\<close>

definition respected :: "vote_state \<Rightarrow> lockout \<Rightarrow> bool" where
  "respected s v \<longleftrightarrow>
     (\<exists>w\<in>set (votes s). lo_slot w = lo_slot v \<and> confirmation_count v \<le> confirmation_count w)
   \<or> (\<exists>r. root_slot s = Some r \<and> lo_slot v \<le> r)
   \<or> (\<exists>w\<in>set (votes s). last_locked_out_slot v < lo_slot w)"

definition no_rollback :: "vote_state \<Rightarrow> vote_state \<Rightarrow> bool" where
  "no_rollback s s' \<longleftrightarrow>
     (\<forall>r. root_slot s = Some r \<longrightarrow> (\<exists>r'. root_slot s' = Some r' \<and> r \<le> r'))
   \<and> (\<forall>v\<in>set (votes s). respected s' v)"

lemma respected_same: "v \<in> set (votes s) \<Longrightarrow> respected s v"
  by (auto simp: respected_def)

lemma no_rollback_refl: "no_rollback s s"
  by (auto simp: no_rollback_def respected_same)

lemma respectedI:
  "w \<in> set (votes s) \<Longrightarrow> lo_slot w = lo_slot v \<Longrightarrow> confirmation_count v \<le> confirmation_count w \<Longrightarrow> respected s v"
  "root_slot s = Some r \<Longrightarrow> lo_slot v \<le> r \<Longrightarrow> respected s v"
  "w \<in> set (votes s) \<Longrightarrow> last_locked_out_slot v < lo_slot w \<Longrightarrow> respected s v"
  by (auto simp: respected_def)

lemma respected_cases:
  assumes "respected s v"
  obtains (same) w where "w \<in> set (votes s)" "lo_slot w = lo_slot v" "confirmation_count v \<le> confirmation_count w"
    | (rooted) r where "root_slot s = Some r" "lo_slot v \<le> r"
    | (past) w where "w \<in> set (votes s)" "last_locked_out_slot v < lo_slot w"
  using assms by (auto simp: respected_def)

lemma respected_mono:
  assumes "respected s w" and w: "lo_slot w = lo_slot v" "confirmation_count v \<le> confirmation_count w"
    "last_locked_out_slot v \<le> last_locked_out_slot w"
  shows "respected s v"
  using assms(1)
proof (cases rule: respected_cases)
  case (same x) then show ?thesis using w by (intro respectedI(1) [of x]) simp_all
next
  case (rooted r) then show ?thesis using w by (intro respectedI(2) [of s r]) simp_all
next
  case (past x) then show ?thesis using w by (intro respectedI(3) [of x]) simp_all
qed

lemma respected_past:
  assumes "respected s w" and w: "last_locked_out_slot v < lo_slot w" "lo_slot v \<le> last_locked_out_slot v"
    "lo_slot w \<le> last_locked_out_slot w"
  shows "respected s v"
  using assms(1)
proof (cases rule: respected_cases)
  case (same x) then show ?thesis using w by (intro respectedI(3) [of x]) simp_all
next
  case (rooted r) then show ?thesis using w by (intro respectedI(2) [of s r]) simp_all
next
  case (past x) then show ?thesis using w by (intro respectedI(3) [of x]) simp_all
qed

lemma respected_trans:
  assumes "respected s v" and "no_rollback s s'" and "vote_ok v" and ok: "\<forall>w\<in>set (votes s). vote_ok w"
  shows "respected s' v"
proof -
  have v: "lo_slot v \<le> last_locked_out_slot v"
    using slot_below_lockout [of v] vote_okD [OF assms(3)] by simp
  from assms(1) show ?thesis
  proof (cases rule: respected_cases)
    case (same w)
    have "last_locked_out_slot v \<le> last_locked_out_slot w"
      using same vote_okD [OF assms(3)] vote_okD [of w] ok by (intro lockout_mono) (auto simp: word_le_nat_alt)
    moreover have "respected s' w"
      using assms(2) same(1) by (simp add: no_rollback_def)
    ultimately show ?thesis
      using respected_mono [of s' w v] same(2,3) by blast
  next
    case (rooted r)
    obtain r' where "root_slot s' = Some r'" "r \<le> r'"
      using assms(2) rooted(1) by (auto simp: no_rollback_def)
    then show ?thesis
      using rooted(2) respectedI(2) [of s' r' v] by simp
  next
    case (past w)
    then have w: "respected s' w" "lo_slot w \<le> last_locked_out_slot w"
      using assms(2) slot_below_lockout [of w] vote_okD [of w] ok by (auto simp: no_rollback_def)
    then show ?thesis
      using respected_past [of s' w v] past(2) v by blast
  qed
qed

lemma no_rollback_trans:
  assumes "no_rollback s s'" and "no_rollback s' s''" and "tower_ok (votes s)" and "tower_ok (votes s')"
  shows "no_rollback s s''"
  unfolding no_rollback_def
proof (intro conjI ballI allI impI)
  show "respected s'' v" if "v \<in> set (votes s)" for v
    using that assms respected_trans [OF _ assms(2), of v] by (simp add: no_rollback_def tower_ok_def)
  show "\<exists>r'. root_slot s'' = Some r' \<and> r \<le> r'" if root: "root_slot s = Some r" for r
  proof -
    obtain r1 where r1: "root_slot s' = Some r1" "r \<le> r1"
      using assms(1) root by (auto simp: no_rollback_def)
    obtain r2 where "root_slot s'' = Some r2" "r1 \<le> r2"
      using assms(2) r1(1) by (auto simp: no_rollback_def)
    then show ?thesis using r1(2) by auto
  qed
qed

lemma bumped_set:
  assumes "v \<in> set vs" and "vote_ok v"
  shows "\<exists>w\<in>set (double_lockouts vs). lo_slot w = lo_slot v \<and> confirmation_count v \<le> confirmation_count w"
proof -
  obtain i where i: "i < length vs" "vs ! i = v"
    using assms(1) by (auto simp: in_set_conv_nth)
  then have "bumped (length vs) i v \<in> set (double_lockouts vs)"
    by (metis double_lockouts_simps nth_mem)
  then show ?thesis
    using bumped_mono [of v "length vs" i] vote_okD [OF assms(2)] by (intro bexI) auto
qed

lemma new_vote_on_top: "\<exists>w\<in>set (double_lockouts (vs @ [new_lockout n])). lo_slot w = n"
proof -
  have "n \<in> lo_slot ` set (double_lockouts (vs @ [new_lockout n]))"
    unfolding list.set_map [symmetric] double_slots by (simp add: new_lockout_def)
  then show ?thesis by auto
qed

lemma process_next_no_rollback:
  assumes ok: "state_ok s"
  shows "no_rollback s (process_next_vote_slot n e s)"
proof (cases "\<forall>v\<in>set (votes s). lo_slot v < n")
  case False
  then show ?thesis
    using process_next_old [of s n e] ok by (auto simp: state_ok_def not_less no_rollback_refl)
next
  case True
  let ?s = "process_next_vote_slot n e s"
  obtain kept popped where split: "votes s = kept @ popped" and popped: "\<forall>v\<in>set popped. last_locked_out_slot v < n"
    and eq: "if length kept = MAX_LOCKOUT_HISTORY
         then ?s = s\<lparr>votes := double_lockouts (tl kept @ [new_lockout n]), root_slot := Some (lo_slot (hd kept)),
             epoch_credits := increment_credits e 1 (epoch_credits s)\<rparr>
         else ?s = s\<lparr>votes := double_lockouts (kept @ [new_lockout n])\<rparr>"
    using process_next_cases [OF True] by metis
  have v_ok: "vote_ok v" if "v \<in> set (votes s)" for v
    using ok that by (simp add: state_ok_def tower_ok_def)
  have past: "respected ?s v" if "v \<in> set popped" for v
  proof -
    obtain vs where "votes ?s = double_lockouts (vs @ [new_lockout n])"
      using eq by (auto split: if_splits)
    then show ?thesis
      using new_vote_on_top [of vs n] popped that by (auto simp: respected_def)
  qed
  have same: "respected ?s v" if "v \<in> set vs" "votes ?s = double_lockouts (vs @ [new_lockout n])" "set vs \<subseteq> set kept" for v vs
    using bumped_set [of v "vs @ [new_lockout n]"] that v_ok split by (auto simp: respected_def)
  show ?thesis
  proof (cases "length kept = MAX_LOCKOUT_HISTORY")
    case True
    then obtain f rest where f: "kept = f # rest"
      by (cases kept) (auto simp: MAX_LOCKOUT_HISTORY_def)
    have "r \<le> lo_slot f" if "root_slot s = Some r" for r
      using ok that split f by (auto simp: state_ok_def root_below_def)
    moreover have "respected ?s f"
      using eq True f by (simp add: respected_def)
    moreover have "respected ?s v" if "v \<in> set rest" for v
      using same [of v rest] that eq True f by auto
    ultimately show ?thesis
      using eq True f split past by (auto simp: no_rollback_def)
  next
    case False
    then have "root_slot ?s = root_slot s" "respected ?s v" if "v \<in> set kept" for v
      using eq same [of v kept] that by auto
    then show ?thesis
      using eq False split past by (auto simp: no_rollback_def)
  qed
qed

section \<open>A proposed tower\<close>

text \<open>\<open>check_tower\<close> decides the shape.\<close>

definition above_root :: "u64 option \<Rightarrow> lockout \<Rightarrow> bool" where
  "above_root root v \<longleftrightarrow> (\<forall>r. root = Some r \<longrightarrow> r = 0 \<or> r < lo_slot v)"

lemma check_tower_iff:
  "check_tower root previous vs = Inr () \<longleftrightarrow>
     successively follows ((case previous of None \<Rightarrow> [] | Some p \<Rightarrow> [p]) @ vs)
   \<and> (\<forall>v\<in>set vs. 0 < unat (confirmation_count v) \<and> unat (confirmation_count v) \<le> MAX_LOCKOUT_HISTORY
        \<and> above_root root v)"
proof (induction root previous vs rule: check_tower.induct)
  case (2 root previous v vs)
  have c: "confirmation_count v = 0 \<longleftrightarrow> \<not> 0 < unat (confirmation_count v)"
    "confirmation_count v > of_nat MAX_LOCKOUT_HISTORY \<longleftrightarrow> \<not> unat (confirmation_count v) \<le> MAX_LOCKOUT_HISTORY"
    by (auto simp: MAX_LOCKOUT_HISTORY_def word_less_nat_alt unat_gt_0)
  show ?case
  proof (cases "0 < unat (confirmation_count v) \<and> unat (confirmation_count v) \<le> MAX_LOCKOUT_HISTORY \<and> above_root root v")
    case False
    then show ?thesis
      using c by (auto simp: above_root_def not_less split: option.splits)
  next
    case True
    have r: "\<not> (case root of None \<Rightarrow> False | Some r \<Rightarrow> lo_slot v \<le> r \<and> r \<noteq> 0)"
      using True by (auto simp: above_root_def not_less split: option.splits)
    have IH: "check_tower root (Some v) vs = Inr () \<longleftrightarrow> successively follows (v # vs)
        \<and> (\<forall>v\<in>set vs. 0 < unat (confirmation_count v) \<and> unat (confirmation_count v) \<le> MAX_LOCKOUT_HISTORY
        \<and> above_root root v)"
      using 2 True c r by simp
    show ?thesis
    proof (cases previous)
      case None
      then show ?thesis using IH True c r by simp
    next
      case (Some p)
      then show ?thesis
        using IH True c r by (auto simp: follows_def not_le not_less)
    qed
  qed
qed (auto split: option.splits)

text \<open>The votes the new root covers are a prefix of the tower.\<close>

lemma count_rooted_index:
  "fst (count_rooted root vs (i, n)) =
     i + length (case root of None \<Rightarrow> [] | Some r \<Rightarrow> takeWhile (\<lambda>v. lo_slot v \<le> r) vs)"
  by (induction root vs "(i, n)" arbitrary: i n rule: count_rooted.induct) (auto split: option.splits)

lemma behind_root:
  "drop (fst (count_rooted root vs (0, n))) vs =
     (case root of None \<Rightarrow> vs | Some r \<Rightarrow> dropWhile (\<lambda>v. lo_slot v \<le> r) vs)"
  by (simp add: count_rooted_index dropWhile_eq_drop split: option.splits)

lemma rooted_or_behind:
  assumes "v \<in> set vs"
  shows "(\<exists>r. root = Some r \<and> lo_slot v \<le> r) \<or> v \<in> set (drop (fst (count_rooted root vs (0, n))) vs)"
proof (cases root)
  case (Some r)
  have "v \<in> set (takeWhile (\<lambda>v. lo_slot v \<le> r) vs) \<or> v \<in> set (dropWhile (\<lambda>v. lo_slot v \<le> r) vs)"
    using assms takeWhile_dropWhile_id [of "\<lambda>v. lo_slot v \<le> r" vs] by (metis Un_iff set_append)
  then show ?thesis
    using Some by (auto simp: behind_root dest: set_takeWhileD)
qed (simp add: behind_root assms)

text \<open>
  The walk over the two towers.  The first vote of the new tower beyond a current vote lies
  beyond its lockout, unless the vote itself is there.
\<close>

lemma check_no_rollback_sound:
  assumes "check_no_rollback cs vs = Inr ()" and "sorted_wrt (\<lambda>v w. lo_slot v < lo_slot w) cs"
    and "sorted_wrt (\<lambda>v w. lo_slot v < lo_slot w) vs" and "c \<in> set cs"
  shows "(\<exists>w\<in>set vs. lo_slot w = lo_slot c \<and> confirmation_count c \<le> confirmation_count w)
    \<or> (lo_slot c \<notin> lo_slot ` set vs \<and> (\<forall>w\<in>set vs. lo_slot c < lo_slot w \<longrightarrow> last_locked_out_slot c < lo_slot w))"
  using assms
proof (induction cs vs rule: check_no_rollback.induct)
  case (1 d cs v vs)
  consider (less) "lo_slot d < lo_slot v" | (same) "lo_slot d = lo_slot v" | (greater) "lo_slot v < lo_slot d"
    by (meson linorder_less_linear)
  then show ?case
  proof cases
    case less
    have rest: "check_no_rollback cs (v # vs) = Inr ()" and lock: "last_locked_out_slot d < lo_slot v"
      using "1.prems"(1) less by (auto split: if_splits)
    show ?thesis
    proof (cases "c = d")
      case True
      have "lo_slot v \<le> lo_slot w" if "w \<in> set (v # vs)" for w
        using "1.prems"(3) that by auto
      then show ?thesis
        using True lock less by (fastforce dest: order_less_le_trans)
    next
      case False
      then show ?thesis
        using "1.IH"(1) [OF less _ rest] "1.prems" lock by (auto simp: not_le)
    qed
  next
    case same
    have rest: "check_no_rollback cs vs = Inr ()" and conf: "confirmation_count d \<le> confirmation_count v"
      using "1.prems"(1) same by (auto split: if_splits)
    show ?thesis
    proof (cases "c = d")
      case True
      then show ?thesis using same conf by auto
    next
      case False
      then have "c \<in> set cs" "lo_slot v < lo_slot c"
        using "1.prems"(2,4) same by auto
      then show ?thesis
        using "1.IH"(2) [OF _ same _ rest] "1.prems"(2,3) conf same by (auto simp: not_less)
    qed
  next
    case greater
    then have rest: "check_no_rollback (d # cs) vs = Inr ()" and "lo_slot v < lo_slot c"
      using "1.prems"(1,2,4) by (auto split: if_splits)
    then show ?thesis
      using "1.IH"(3) [OF _ _ rest] greater "1.prems"(2,3,4) by auto
  qed
qed auto

lemma process_new_accepted:
  assumes "process_new_vote_state new root ts e fs s = Inr s'"
  shows "votes s' = new \<and> root_slot s' = root \<and> new \<noteq> [] \<and> length new \<le> MAX_LOCKOUT_HISTORY
    \<and> check_root root (root_slot s) = Inr () \<and> check_tower root None new = Inr ()
    \<and> check_no_rollback (drop (fst (count_rooted root (votes s) (0, 1))) (votes s)) new = Inr ()
    \<and> authorized_voters s' = authorized_voters s \<and> authorized_withdrawer s' = authorized_withdrawer s
    \<and> node_pubkey s' = node_pubkey s \<and> commission s' = commission s"
  using assms
  by (auto simp: process_new_vote_state_def process_timestamp_def rbind_Inr_iff Let_def
      split: if_splits prod.splits option.splits)

lemma process_new_ok:
  assumes "process_new_vote_state new root ts e fs s = Inr s'"
    and "\<forall>v\<in>set new. unat (lo_slot v) < 2 ^ 63"
  shows "state_ok s'"
  using process_new_accepted [OF assms(1)] assms(2)
  by (auto simp: state_ok_def tower_ok_def root_below_def check_tower_iff vote_ok_def above_root_def)

lemma process_new_no_rollback:
  assumes run: "process_new_vote_state new root ts e fs s = Inr s'"
    and ok: "tower_ok (votes s)" and slots: "\<forall>v\<in>set new. unat (lo_slot v) < 2 ^ 63"
    and newer: "\<forall>v\<in>set (votes s). lo_slot v < lo_slot (last new)"
  shows "no_rollback s s'"
proof -
  have acc: "votes s' = new" "root_slot s' = root" "new \<noteq> []" "check_root root (root_slot s) = Inr ()"
    and walk: "check_no_rollback (drop (fst (count_rooted root (votes s) (0, 1))) (votes s)) new = Inr ()"
    using process_new_accepted [OF run] by auto
  have new_ok: "tower_ok new"
    using process_new_ok [OF run slots] acc by (simp add: state_ok_def)
  have behind: "respected s' v" if v: "v \<in> set (drop (fst (count_rooted root (votes s) (0, 1))) (votes s))" for v
  proof -
    have "sorted_wrt (\<lambda>v w. lo_slot v < lo_slot w) (drop (fst (count_rooted root (votes s) (0, 1))) (votes s))"
      using tower_slots_sorted [OF ok] by (rule sorted_wrt_drop)
    moreover have "lo_slot v < lo_slot (last new)"
      using newer in_set_dropD [OF v] by simp
    ultimately show ?thesis
      using check_no_rollback_sound [OF walk _ tower_slots_sorted [OF new_ok] v] acc last_in_set [OF acc(3)]
      by (auto simp: respected_def)
  qed
  have "respected s' v" if "v \<in> set (votes s)" for v
    using rooted_or_behind [OF that, of root 1] behind acc(2) by (auto simp: respected_def)
  moreover have "\<exists>r'. root_slot s' = Some r' \<and> r \<le> r'" if "root_slot s = Some r" for r
    using acc(2,4) that by (auto simp: check_root_def split: option.splits if_splits)
  ultimately show ?thesis
    by (simp add: no_rollback_def)
qed

section \<open>Credits\<close>

lemma last_tl_snoc [simp]: "0 < length xs \<Longrightarrow> last (tl (xs @ [y])) = y"
  by (cases xs) auto

lemma increment_credits_last:
  "\<exists>prev. last (increment_credits e n ecs) = (e, (if ecs = [] then 0 else fst (snd (last ecs))) + n, prev)"
  by (auto simp: increment_credits_def Let_def MAX_EPOCH_CREDITS_HISTORY_def split: prod.splits)

lemma increment_credits_length:
  "length ecs \<le> MAX_EPOCH_CREDITS_HISTORY \<Longrightarrow> length (increment_credits e n ecs) \<le> MAX_EPOCH_CREDITS_HISTORY"
  by (auto simp: increment_credits_def Let_def MAX_EPOCH_CREDITS_HISTORY_def split: prod.splits)

lemma increment_credits_Nil [simp]: "increment_credits e n ecs \<noteq> []"
  by (auto simp: increment_credits_def Let_def split: prod.splits)

end
