(* ===== verification/Vote_Checks.thy ===== *)
theory Vote_Checks
  imports Vote_Tower
begin

text \<open>
  The two checks of a vote against the history of the fork: \<open>check_slots_are_valid\<close> is shown to
  decide its specification, and \<open>check_update_vote_state_slots_are_valid\<close> to end, never to fail
  one of its assertions, and to let only slots of the history or of the former tower through.
\<close>

section \<open>Slots of a vote\<close>

definition newer :: "u64 option \<Rightarrow> u64 \<Rightarrow> bool" where
  "newer last_voted slot \<longleftrightarrow> (\<forall>l. last_voted = Some l \<longrightarrow> l < slot)"

lemma slots_step_newer:
  "slots_step last_voted slots hs (i, j) =
     (if \<not> newer last_voted (slots ! i) then (i + 1, j)
      else if slots ! i \<noteq> fst (hs ! (j - 1)) then (i, j - 1)
      else (i + 1, j - 1))"
  by (auto simp: slots_step_def newer_def split: option.splits)

lemma slots_loop_step:
  "i < length slots \<Longrightarrow> 0 < j \<Longrightarrow>
     slots_loop l slots hs (i, j) = slots_loop l slots hs (slots_step l slots hs (i, j))"
  "\<not> (i < length slots \<and> 0 < j) \<Longrightarrow> slots_loop l slots hs (i, j) = (i, j)"
  using slots_loop.simps [of l slots hs "(i, j)"] by (auto simp: slots_running_def)

text \<open>Whatever the order, the loop passes only over old slots and slots of the history.\<close>

lemma slots_loop_passed:
  assumes "slots_loop l slots hs p = (i', j')" and "snd p \<le> length hs" and "fst p \<le> length slots"
  shows "fst p \<le> i' \<and> i' \<le> length slots \<and> j' \<le> snd p
    \<and> (\<forall>k. fst p \<le> k \<and> k < i' \<longrightarrow> \<not> newer l (slots ! k) \<or> slots ! k \<in> fst ` set hs)"
  using assms
proof (induction l slots hs p rule: slots_loop.induct)
  case (1 l slots hs p)
  obtain i j where p: "p = (i, j)" by fastforce
  show ?case
  proof (cases "i < length slots \<and> 0 < j")
    case False
    then show ?thesis using "1.prems" p by (auto simp: slots_loop_step)
  next
    case True
    let ?q = "slots_step l slots hs (i, j)"
    have q: "i \<le> fst ?q" "fst ?q \<le> i + 1" "snd ?q \<le> j"
      by (auto simp: slots_step_newer)
    have "slots_loop l slots hs ?q = (i', j')"
      using "1.prems"(1) True p by (simp add: slots_loop_step)
    moreover have "fst ?q \<le> length slots" "snd ?q \<le> length hs"
      using q True "1.prems"(2) p by auto
    ultimately have IH: "fst ?q \<le> i' \<and> i' \<le> length slots \<and> j' \<le> snd ?q
        \<and> (\<forall>k. fst ?q \<le> k \<and> k < i' \<longrightarrow> \<not> newer l (slots ! k) \<or> slots ! k \<in> fst ` set hs)"
      using "1.IH" True p by (simp add: slots_running_def)
    have "\<not> newer l (slots ! i) \<or> slots ! i \<in> fst ` set hs" if "fst ?q \<noteq> i"
    proof -
      have "hs ! (j - 1) \<in> set hs"
        using True "1.prems"(2) p by (intro nth_mem) (simp, linarith)
      then show ?thesis
        using that by (auto simp: slots_step_newer split: if_splits)
    qed
    then have "\<not> newer l (slots ! k) \<or> slots ! k \<in> fst ` set hs" if "i \<le> k" "k < i'" for k
      using IH q(1,2) that by (cases "k = i \<and> fst ?q \<noteq> i") force+
    then show ?thesis
      using IH q p by auto
  qed
qed

lemma check_slots_passed:
  assumes "check_slots_are_valid slots h hs s = Inr ()" and "slot \<in> set slots"
    and "newer (last_voted_slot s) slot"
  shows "slot \<in> fst ` set hs"
proof -
  obtain i j where r: "slots_loop (last_voted_slot s) slots hs (0, length hs) = (i, j)" by fastforce
  then have "i = length slots"
    using assms(1) by (auto simp: check_slots_are_valid_def split: if_splits)
  then show ?thesis
    using slots_loop_passed [OF r] assms(2,3) by (auto simp: in_set_conv_nth)
qed

text \<open>
  On a vote with increasing slots and a history with decreasing ones, as the runtime keeps it,
  the indices the loop ends with say whether every new slot is in the history, and where the
  newest one is.
\<close>

lemma slots_loop_result:
  assumes "sorted_wrt (<) slots" and "sorted_wrt (\<lambda>a b. fst b < fst a) hs"
    and "slots_loop l slots hs p = (i', j')" and "snd p \<le> length hs" and "fst p \<le> length slots"
    and "snd p = 0 \<Longrightarrow> \<forall>s\<in>set (drop (fst p) slots). newer l s"
  shows "if \<forall>s\<in>set (drop (fst p) slots). newer l s \<longrightarrow> s \<in> fst ` set (take (snd p) hs)
    then i' = length slots
      \<and> (if \<exists>s\<in>set (drop (fst p) slots). newer l s then j' < snd p \<and> fst (hs ! j') = last slots else j' = snd p)
    else i' < length slots \<and> (0 < snd p \<longrightarrow> j' < snd p)"
  using assms
proof (induction l slots hs p rule: slots_loop.induct)
  case (1 l slots hs p)
  obtain i j where p: "p = (i, j)" by fastforce
  have i_le: "i \<le> length slots" and j_le: "j \<le> length hs" using "1.prems" p by auto
  show ?case
  proof (cases "i < length slots \<and> 0 < j")
    case False
    then have ij: "i' = i" "j' = j" using "1.prems"(3) p by (auto simp: slots_loop_step)
    show ?thesis
    proof (cases "i = length slots")
      case True then show ?thesis using ij p by simp
    next
      case ne: False
      then have "j = 0" "slots ! i \<in> set (drop i slots)"
        using False i_le Cons_nth_drop_Suc [of i slots] by (auto simp: list.set_intros(1) dest: sym)
      then show ?thesis
        using "1.prems"(6) ne ij p i_le by auto
    qed
  next
    case True
    let ?q = "slots_step l slots hs (i, j)"
    let ?a = "slots ! i" and ?b = "fst (hs ! (j - 1))"
    have i: "i < length slots" and j: "0 < j" using True by auto
    have q: "slots_loop l slots hs ?q = (i', j')"
      using "1.prems"(3) True p by (simp add: slots_loop_step)
    note IH = "1.IH" [unfolded p slots_running_def, simplified, OF True "1.prems"(1,2) q]
    have drop_i: "drop i slots = ?a # drop (i + 1) slots"
      using i by (simp add: Cons_nth_drop_Suc)
    have later: "?a < s" if "s \<in> set (drop (i + 1) slots)" for s
    proof -
      have "sorted_wrt (<) (drop i slots)" using "1.prems"(1) by (rule sorted_wrt_drop)
      then show ?thesis using that drop_i by simp
    qed
    have take_j: "take j hs = take (j - 1) hs @ [hs ! (j - 1)]"
      using j j_le take_Suc_conv_app_nth [of "j - 1" hs] by simp
    have newer_hash: "?b < fst x" if "x \<in> set (take (j - 1) hs)" for x
    proof -
      have "sorted_wrt (\<lambda>a b. fst b < fst a) (take j hs)" using "1.prems"(2) by (rule sorted_wrt_take)
      then show ?thesis using that take_j by (simp add: sorted_wrt_append)
    qed
    have up: "newer l s" if "newer l ?a" "s \<in> set (drop (i + 1) slots)" for s
      using that later [of s] by (auto simp: newer_def intro: order_less_trans)
    show ?thesis
    proof (cases "newer l ?a")
      case False
      then have qq: "?q = (i + 1, j)" by (simp add: slots_step_newer)
      show ?thesis
        using IH [unfolded qq fst_conv snd_conv] i j j_le False drop_i p by simp
    next
      case a: True
      have all: "\<forall>s\<in>set (drop i slots). newer l s"
        using a up drop_i by simp
      have all': "(\<forall>s\<in>set (drop i slots). newer l s \<longrightarrow> s \<in> X) \<longleftrightarrow> (\<forall>s\<in>set (drop i slots). s \<in> X)" for X
        using all by blast
      have ex: "\<exists>s\<in>set (drop i slots). newer l s"
        using a drop_i by simp
      have le: "j' \<le> snd ?q"
      proof -
        have "snd ?q \<le> length hs" "fst ?q \<le> length slots"
          using i j_le by (auto simp: slots_step_newer)
        then show ?thesis using slots_loop_passed [OF q] by blast
      qed
      show ?thesis
      proof (cases "?a = ?b")
        case False
        then have qq: "?q = (i, j - 1)" using a by (simp add: slots_step_newer)
        have "(\<forall>s\<in>set (drop i slots). s \<in> fst ` set (take j hs))
          \<longleftrightarrow> (\<forall>s\<in>set (drop i slots). s \<in> fst ` set (take (j - 1) hs))"
        proof
          assume sub: "\<forall>s\<in>set (drop i slots). s \<in> fst ` set (take j hs)"
          then have "?a \<in> fst ` set (take j hs)"
            using drop_i by simp
          then have "?b < ?a"
            using False take_j newer_hash by auto
          then have "?b < s" if "s \<in> set (drop i slots)" for s
            using that later drop_i by (auto intro: order_less_trans)
          then have "s \<noteq> ?b" if "s \<in> set (drop i slots)" for s
            using that by blast
          then show "\<forall>s\<in>set (drop i slots). s \<in> fst ` set (take (j - 1) hs)"
            using sub take_j by auto
        qed (use take_j in auto)
        note same = this
        have "if \<forall>s\<in>set (drop i slots). newer l s \<longrightarrow> s \<in> fst ` set (take (j - 1) hs)
          then i' = length slots
            \<and> (if \<exists>s\<in>set (drop i slots). newer l s then j' < j - 1 \<and> fst (hs ! j') = last slots else j' = j - 1)
          else i' < length slots \<and> (0 < j - 1 \<longrightarrow> j' < j - 1)"
          by (rule IH [unfolded qq fst_conv snd_conv]) (use all i j_le in auto)
        moreover have "j' < j" using le j qq by simp
        ultimately show ?thesis
          unfolding p fst_conv snd_conv all' same by (simp add: ex split: if_splits)
      next
        case eq: True
        then have qq: "?q = (i + 1, j - 1)" using a by (simp add: slots_step_newer)
        have sub: "(\<forall>s\<in>set (drop i slots). s \<in> fst ` set (take j hs))
          \<longleftrightarrow> (\<forall>s\<in>set (drop (i + 1) slots). s \<in> fst ` set (take (j - 1) hs))"
          using eq later take_j drop_i by fastforce
        have rest: "\<forall>s\<in>set (drop (i + 1) slots). newer l s"
          using all drop_i by simp
        show ?thesis
        proof (cases "i + 1 = length slots")
          case True
          then have "i' = i + 1" "j' = j - 1"
            using q qq by (simp_all add: slots_loop_step)
          moreover have "last slots = ?a"
            using True i last_conv_nth [of slots] by (metis add_diff_cancel_right' list.size(3) not_less_zero)
          ultimately show ?thesis
            using True sub all eq drop_i j p by simp
        next
          case False
          then have ne: "\<exists>s\<in>set (drop (i + 1) slots). newer l s"
            using rest i nth_mem [of 0 "drop (i + 1) slots"] by (metis Suc_eq_plus1 Suc_lessI drop_eq_Nil last_in_set not_le)
          have rest': "(\<forall>s\<in>set (drop (i + 1) slots). newer l s \<longrightarrow> s \<in> X)
              \<longleftrightarrow> (\<forall>s\<in>set (drop (i + 1) slots). s \<in> X)" for X
            using rest by blast
          have "if \<forall>s\<in>set (drop (i + 1) slots). newer l s \<longrightarrow> s \<in> fst ` set (take (j - 1) hs)
            then i' = length slots \<and> (if \<exists>s\<in>set (drop (i + 1) slots). newer l s
                then j' < j - 1 \<and> fst (hs ! j') = last slots else j' = j - 1)
            else i' < length slots \<and> (0 < j - 1 \<longrightarrow> j' < j - 1)"
            by (rule IH [unfolded qq fst_conv snd_conv]) (use rest i j_le in auto)
          moreover have "j' < j" using le j qq by simp
          ultimately show ?thesis
            unfolding p fst_conv snd_conv all' rest' sub by (simp only: ex ne if_True) (auto split: if_splits)
        qed
      qed
    qed
  qed
qed

text \<open>The history at the index of the newest slot.\<close>

lemma map_of_unique: "distinct (map fst hs) \<Longrightarrow> j < length hs \<Longrightarrow> map_of hs (fst (hs ! j)) = Some (snd (hs ! j))"
  by (metis map_of_eq_Some_iff nth_mem prod.collapse)

lemma history_distinct: "sorted_wrt (\<lambda>a b. fst b < fst a) hs \<Longrightarrow> distinct (map fst hs)"
  for hs :: slot_hashes
  by (induction hs) fastforce+

definition slots_verdict :: "u64 option \<Rightarrow> u64 list \<Rightarrow> vote_hash \<Rightarrow> slot_hashes \<Rightarrow> vote_error + unit" where
  "slots_verdict last_voted slots h hs =
     (let news = filter (newer last_voted) slots in
      if news = [] \<or> hs = [] then Inl VoteTooOld
      else if \<not> set news \<subseteq> fst ` set hs then Inl SlotsMismatch
      else if map_of hs (last slots) \<noteq> Some h then Inl SlotHashMismatch
      else Inr ())"

text \<open>
  C23. The merge of a vote's slots with the history decides what it should: the vote is too
  old when none of its slots is newer than the last one voted on, mismatched when a newer slot
  is not in the history, and otherwise accepted exactly when the hash is the one the history
  records for its newest slot.
\<close>

theorem slots_check_decides:
  assumes "sorted_wrt (<) slots" and "sorted_wrt (\<lambda>a b. fst b < fst a) hs"
  shows "check_slots_are_valid slots h hs s = slots_verdict (last_voted_slot s) slots h hs"
proof -
  let ?l = "last_voted_slot s" and ?news = "\<exists>x\<in>set slots. newer (last_voted_slot s) x"
  obtain i j where r: "slots_loop ?l slots hs (0, length hs) = (i, j)" by fastforce
  show ?thesis
  proof (cases "hs = []")
    case True
    then have "j = 0" using slots_loop_passed [OF r] by simp
    then show ?thesis using True r by (simp add: check_slots_are_valid_def slots_verdict_def)
  next
    case False
    have res: "if \<forall>x\<in>set slots. newer ?l x \<longrightarrow> x \<in> fst ` set hs
      then i = length slots \<and> (if ?news then j < length hs \<and> fst (hs ! j) = last slots else j = length hs)
      else i < length slots \<and> j < length hs"
      using slots_loop_result [OF assms r, unfolded fst_conv snd_conv drop_0 take_all [OF order.refl]] False
      by (simp split: if_splits)
    have hash: "map_of hs (fst (hs ! j)) = Some (snd (hs ! j))" if "j < length hs"
      using map_of_unique [OF history_distinct [OF assms(2)] that] .
    have "filter (newer ?l) slots = [] \<longleftrightarrow> \<not> ?news"
      by (auto simp: filter_empty_conv)
    moreover have "set (filter (newer ?l) slots) \<subseteq> fst ` set hs \<longleftrightarrow> (\<forall>x\<in>set slots. newer ?l x \<longrightarrow> x \<in> fst ` set hs)"
      by auto
    ultimately show ?thesis
      using res hash False r by (auto simp: check_slots_are_valid_def slots_verdict_def Let_def split: if_splits)
  qed
qed

text \<open>
  A tower with votes on slots 1 and 2, asked to add 2 and 4 on a fork of slots 1, 2, 4.
\<close>

definition two_votes :: vote_state where
  "two_votes = default_vote_state\<lparr>votes := [\<lparr>lo_slot = 1, confirmation_count = 2\<rparr>, \<lparr>lo_slot = 2, confirmation_count = 1\<rparr>]\<rparr>"

theorem slots_check_decides_witness:
  "check_slots_are_valid [2, 4] 7 [(4, 7), (2, 6), (1, 5)] two_votes = Inr ()"
proof -
  have "check_slots_are_valid [2, 4] 7 [(4, 7), (2, 6), (1, 5)] two_votes
      = slots_verdict (last_voted_slot two_votes) [2, 4] 7 [(4, 7), (2, 6), (1, 5)]"
    by (rule slots_check_decides) simp_all
  then show ?thesis
    by (simp add: slots_verdict_def newer_def two_votes_def last_voted_slot_eq)
qed

section \<open>Searching the tower\<close>

lemma search_slot_sound:
  "search_slot vs c left right \<Longrightarrow> right \<le> length vs \<Longrightarrow> c \<in> lo_slot ` set vs"
proof (induction vs c left right rule: search_slot.induct)
  case (1 vs c left right)
  let ?mid = "left + (right - left) div 2"
  have lr: "left < right" using "1.prems"(1) by (subst (asm) search_slot.simps) (auto split: if_splits)
  then have mid: "?mid < right" by auto
  consider (less) "lo_slot (vs ! ?mid) < c" | (greater) "c < lo_slot (vs ! ?mid)" | (same) "lo_slot (vs ! ?mid) = c"
    by (meson linorder_less_linear)
  then show ?case
  proof cases
    case less
    then have "search_slot vs c (?mid + 1) right"
      using "1.prems"(1) lr by (subst (asm) search_slot.simps) (simp add: Let_def)
    then show ?thesis using "1.IH"(1) less lr "1.prems"(2) by simp
  next
    case greater
    then have "search_slot vs c left ?mid"
      using "1.prems"(1) lr by (subst (asm) search_slot.simps) (auto simp add: Let_def)
    then show ?thesis using "1.IH"(2) [OF lr refl refl] greater mid "1.prems"(2) by (simp add: not_less)
  next
    case same
    then show ?thesis using mid "1.prems"(2) by (metis image_eqI nth_mem order_less_le_trans)
  qed
qed

lemma search_slot_complete:
  "sorted_wrt (\<lambda>v w. lo_slot v < lo_slot w) vs \<Longrightarrow> right \<le> length vs \<Longrightarrow>
   left \<le> k \<Longrightarrow> k < right \<Longrightarrow> lo_slot (vs ! k) = c \<Longrightarrow> search_slot vs c left right"
proof (induction vs c left right rule: search_slot.induct)
  case (1 vs c left right)
  let ?mid = "left + (right - left) div 2"
  have lr: "left < right" and mid: "?mid < right" using "1.prems" by auto
  have order: "lo_slot (vs ! i) < lo_slot (vs ! j)" if "i < j" "j < right" for i j
    using sorted_wrt_nth_less [OF "1.prems"(1) that(1)] that(2) "1.prems"(2) by simp
  consider (less) "?mid < k" | (greater) "k < ?mid" | (same) "k = ?mid" by linarith
  then show ?case
  proof cases
    case less
    then show ?thesis
      using "1.IH"(1) [OF lr refl refl] "1.prems" lr order [OF less]
      by (subst search_slot.simps) (simp add: Let_def)
  next
    case greater
    then show ?thesis
      using "1.IH"(2) [OF lr refl refl] "1.prems" lr mid order [OF greater]
      by (subst search_slot.simps) (auto simp add: Let_def)
  next
    case same
    then show ?thesis
      using "1.prems" lr by (subst search_slot.simps) (simp add: Let_def)
  qed
qed

lemma contains_slot_iff:
  assumes "tower_ok (votes s)"
  shows "contains_slot c s \<longleftrightarrow> c \<in> lo_slot ` set (votes s)"
proof
  show "contains_slot c s \<Longrightarrow> c \<in> lo_slot ` set (votes s)"
    unfolding contains_slot_def by (erule search_slot_sound [OF _ order.refl])
  assume "c \<in> lo_slot ` set (votes s)"
  then obtain k where "k < length (votes s)" "lo_slot (votes s ! k) = c"
    by (auto simp: in_set_conv_nth)
  then show "contains_slot c s"
    unfolding contains_slot_def
    by (intro search_slot_complete [OF tower_slots_sorted [OF assms], of _ 0 k]) simp_all
qed

section \<open>Proposed towers\<close>

text \<open>
  The invariant of the scan.  The slots before the index are in order, each in the history, or
  too old for it and then filtered out or known to the tower; the root has been found, or is
  the root of the tower and too old as well.
\<close>

definition passed_slot :: "vote_state \<Rightarrow> slot_hashes \<Rightarrow> u64 \<Rightarrow> nat list \<Rightarrow> lockout list \<Rightarrow> nat \<Rightarrow> bool" where
  "passed_slot s hs earliest dropped los k \<longleftrightarrow>
     lo_slot (los ! k) \<in> fst ` set hs
   \<or> lo_slot (los ! k) < earliest \<and> (k \<in> set dropped \<or> contains_slot (lo_slot (los ! k)) s)"

definition known_root :: "vote_state \<Rightarrow> slot_hashes \<Rightarrow> u64 option \<Rightarrow> bool" where
  "known_root s hs root \<longleftrightarrow> (\<forall>r. root = Some r \<longrightarrow> r \<in> fst ` set hs \<or> root_slot s = Some r)"

definition scan_inv ::
  "vote_state \<Rightarrow> lockout list \<Rightarrow> slot_hashes \<Rightarrow> u64 \<Rightarrow> u64 option \<Rightarrow> update_scan \<Rightarrow> bool" where
  "scan_inv s los hs earliest root sc \<longleftrightarrow>
     scan_index sc \<le> length los \<and> scan_hashes sc \<le> length hs
   \<and> (scan_root sc = None \<or> scan_root sc = root)
   \<and> (scan_root sc = None \<longrightarrow> known_root s hs root)
   \<and> (scan_root sc \<noteq> None \<longrightarrow> scan_index sc = 0)
   \<and> (\<forall>r. root = Some r \<longrightarrow> earliest \<le> r \<or> root_slot s = Some r)
   \<and> (\<forall>k < scan_index sc. passed_slot s hs earliest (scan_filter sc) los k)
   \<and> (\<forall>k. 0 < k \<and> k < scan_index sc \<longrightarrow> lo_slot (los ! (k - 1)) < lo_slot (los ! k))
   \<and> sorted_wrt (<) (scan_filter sc) \<and> (\<forall>d\<in>set (scan_filter sc). d < scan_index sc \<and> lo_slot (los ! d) < earliest)
   \<and> (0 < scan_index sc \<and> scan_index sc = length los \<longrightarrow>
        lo_slot (last los) < earliest
        \<or> scan_hashes sc < length hs \<and> fst (hs ! scan_hashes sc) = lo_slot (last los))"

lemma scan_step_inv:
  assumes inv: "scan_inv s los hs (fst (last hs)) root sc" and run: "scan_running los sc"
  shows "case scan_step s los hs (fst (last hs)) sc of
      Inr sc' \<Rightarrow> scan_inv s los hs (fst (last hs)) root sc' | Inl e \<Rightarrow> e \<noteq> Panic"
proof -
  let ?e = "fst (last hs)" and ?i = "scan_index sc" and ?j = "scan_hashes sc"
  let ?p = "proposed_slot los sc" and ?a = "fst (hs ! (scan_hashes sc - 1))"
  have i: "?i < length los" and j: "0 < ?j" "?j \<le> length hs"
    using inv run by (auto simp: scan_inv_def scan_running_def)
  have a: "?a \<in> fst ` set hs"
    using j by (intro imageI nth_mem) linarith
  have last_i: "last los = los ! ?i" if "?i + 1 = length los"
    using that i last_conv_nth [of los] by (metis add_diff_cancel_right' length_0_conv not_less_zero)
  show ?thesis
  proof (cases "scan_root sc")
    case (Some r)
    have facts: "root = Some r" "?p = r" "?i = 0" "\<forall>r. root = Some r \<longrightarrow> ?e \<le> r \<or> root_slot s = Some r"
      using inv unfolding scan_inv_def proposed_slot_def Some by auto
    have oldest: "?a = ?e" if "?j = length hs"
      using that j last_conv_nth [of hs] by (cases hs) auto
    consider (less) "r < ?a" | (greater) "?a < r" | (same) "r = ?a"
      by (meson linorder_less_linear)
    then show ?thesis
    proof cases
      case less
      show ?thesis
      proof (cases "?j = length hs")
        case True
        then have "root_slot s = Some r" "r < ?e"
          using less facts oldest by auto
        then show ?thesis
          using Some facts inv True less oldest
          by (auto simp: scan_step_def scan_old_slot_def Let_def scan_inv_def known_root_def)
      qed (use Some less facts in \<open>simp add: scan_step_def Let_def\<close>)
    next
      case greater
      then show ?thesis
        using Some facts inv by (auto simp: scan_step_def Let_def scan_inv_def)
    next
      case same
      then show ?thesis
        using Some facts inv a by (auto simp: scan_step_def Let_def scan_inv_def known_root_def)
    qed
  next
    case None
    have p: "?p = lo_slot (los ! ?i)" using None by (simp add: proposed_slot_def)
    have oldest: "?a = ?e" if "?j = length hs"
      using that j last_conv_nth [of hs] by (cases hs) auto
    show ?thesis
    proof (cases "0 < ?i \<and> ?p \<le> lo_slot (los ! (?i - 1))")
      case True
      then show ?thesis using None by (simp add: scan_step_def)
    next
      case False
      then have order: "0 < ?i \<longrightarrow> lo_slot (los ! (?i - 1)) < lo_slot (los ! ?i)"
        using p by auto
      have nle: "(scan_root sc = None \<and> 0 < ?i \<and> ?p \<le> lo_slot (los ! (?i - 1))) = False"
        using False by simp
      have unroll: "scan_step s los hs ?e sc =
          (if ?p < ?a then
             (if ?j = length hs then scan_old_slot s ?e ?p sc else Inl (Err SlotsMismatch))
           else if ?a < ?p then Inr (sc\<lparr>scan_hashes := ?j - 1\<rparr>)
           else Inr (sc\<lparr>scan_index := ?i + 1, scan_hashes := ?j - 1\<rparr>))"
        unfolding scan_step_def Let_def nle if_False by (simp add: None)
      consider (less) "?p < ?a" | (greater) "?a < ?p" | (same) "?p = ?a"
        by (meson linorder_less_linear)
      then show ?thesis
      proof cases
        case less
        show ?thesis
        proof (cases "?j = length hs")
          case True
          then have old: "?p < ?e" using less oldest by simp
          then have eq: "scan_step s los hs ?e sc =
              Inr (sc\<lparr>scan_filter := (if contains_slot ?p s then scan_filter sc else scan_filter sc @ [?i]),
                      scan_index := ?i + 1\<rparr>)"
            using unroll less True None by (simp add: scan_old_slot_def Let_def)
          show ?thesis
            unfolding eq using inv None i p old order last_i
            by (auto simp: scan_inv_def passed_slot_def less_Suc_eq sorted_wrt_append)
        qed (use unroll less in simp)
      next
        case greater
        then show ?thesis
          using inv None i unroll by (auto simp: scan_inv_def)
      next
        case same
        then have eq: "scan_step s los hs ?e sc = Inr (sc\<lparr>scan_index := ?i + 1, scan_hashes := ?j - 1\<rparr>)"
          using unroll by simp
        show ?thesis
          unfolding eq using inv None i p same a order last_i j
          by (auto simp: scan_inv_def passed_slot_def less_Suc_eq)
      qed
    qed
  qed
qed

lemma scan_loop_inv:
  "scan_inv s los hs (fst (last hs)) root sc \<Longrightarrow>
     case scan_loop s los hs (fst (last hs)) sc of
       Inr sc' \<Rightarrow> scan_inv s los hs (fst (last hs)) root sc' \<and> \<not> scan_running los sc'
     | Inl e \<Rightarrow> e \<noteq> Panic"
proof (induction s los hs "fst (last hs)" sc rule: scan_loop.induct)
  case (1 s los hs sc)
  show ?case
  proof (cases "scan_running los sc")
    case True
    have step: "case scan_step s los hs (fst (last hs)) sc of
        Inr sc' \<Rightarrow> scan_inv s los hs (fst (last hs)) root sc' | Inl e \<Rightarrow> e \<noteq> Panic"
      using scan_step_inv [OF "1.prems" True] .
    show ?thesis
    proof (cases "scan_step s los hs (fst (last hs)) sc")
      case (Inl e)
      then show ?thesis using step True by (subst scan_loop.simps) simp
    next
      case (Inr sc')
      then show ?thesis
        using step True "1.hyps" [OF True Inr] by (subst scan_loop.simps) simp
    qed
  next
    case False
    then show ?thesis using "1.prems" by (subst scan_loop.simps) simp
  qed
qed

text \<open>The scan with a bound on its iterations: \<open>None\<close> when the bound is too small.\<close>

fun scan_within ::
  "nat \<Rightarrow> vote_state \<Rightarrow> lockout list \<Rightarrow> slot_hashes \<Rightarrow> u64 \<Rightarrow> update_scan \<Rightarrow> (update_scan, vote_error) res option" where
  "scan_within 0 s los hs earliest sc = (if scan_running los sc then None else Some (Inr sc))"
| "scan_within (Suc n) s los hs earliest sc =
     (if scan_running los sc then
        (case scan_step s los hs earliest sc of
           Inl e \<Rightarrow> Some (Inl e)
         | Inr sc' \<Rightarrow> scan_within n s los hs earliest sc')
      else Some (Inr sc))"

lemma scan_within_enough:
  "scan_work los sc \<le> n \<Longrightarrow> scan_within n s los hs earliest sc = Some (scan_loop s los hs earliest sc)"
proof (induction n arbitrary: sc)
  case 0
  then have "\<not> scan_running los sc"
    by (auto simp: scan_work_def scan_running_def)
  then show ?case by (subst scan_loop.simps) simp
next
  case (Suc n)
  show ?case
  proof (cases "scan_running los sc")
    case True
    show ?thesis
    proof (cases "scan_step s los hs earliest sc")
      case (Inr sc')
      then have "scan_work los sc' \<le> n"
        using scan_step_work [OF True Inr] Suc.prems by simp
      then show ?thesis
        using True Inr Suc.IH by (subst scan_loop.simps) simp
    qed (use True in \<open>subst scan_loop.simps, simp\<close>)
  qed (subst scan_loop.simps, simp)
qed

text \<open>What is left of a tower when the listed indices are filtered out.\<close>

lemma retain_all: "retain_unlisted i [] xs = xs"
  by (induction i "[] :: nat list" xs rule: retain_unlisted.induct) auto

lemma retain_unlisted_nth:
  assumes "sorted_wrt (<) ds" and "\<forall>d\<in>set ds. i \<le> d"
  shows "retain_unlisted i ds xs = map (\<lambda>k. xs ! k) (filter (\<lambda>k. i + k \<notin> set ds) [0..<length xs])"
  using assms
proof (induction i ds xs rule: retain_unlisted.induct)
  case (2 i x xs)
  then show ?case by (simp add: retain_all map_nth [of "x # xs", simplified length_Cons] del: upt_Suc)
next
  case (3 i d ds x xs)
  have shift: "map (\<lambda>k. (x # xs) ! k) (filter (\<lambda>k. i + k \<notin> S) [0..<length (x # xs)]) =
      (if i \<in> S then [] else [x]) @ map (\<lambda>k. xs ! k) (filter (\<lambda>k. (i + 1) + k \<notin> S) [0..<length xs])" for S
    by (simp add: upt_conv_Cons map_Suc_upt [symmetric] filter_map comp_def del: upt_Suc)
  show ?case
  proof (cases "i = d")
    case True
    have later: "\<forall>e\<in>set ds. i + 1 \<le> e" using 3 True by auto
    then have "(\<lambda>k. (i + 1) + k \<notin> set (d # ds)) = (\<lambda>k. (i + 1) + k \<notin> set ds)" using True by auto
    then show ?thesis
      using 3 True later shift [of "set (d # ds)"] by (simp del: upt_Suc)
  next
    case False
    then have "\<forall>e\<in>set (d # ds). i + 1 \<le> e" "i \<notin> set (d # ds)" using 3 by (auto simp: Suc_le_eq le_less)
    then show ?thesis
      using 3 False shift [of "set (d # ds)"] by (simp del: upt_Suc)
  qed
qed simp

definition scan_start :: "slot_hashes \<Rightarrow> u64 option \<Rightarrow> update_scan" where
  "scan_start hs root = \<lparr>scan_index = 0, scan_hashes = length hs, scan_root = root, scan_filter = []\<rparr>"

definition safe_root :: "vote_state_update \<Rightarrow> slot_hashes \<Rightarrow> vote_state \<Rightarrow> u64 option" where
  "safe_root u hs s =
     (case upd_root u of Some r \<Rightarrow> if r < fst (last hs) then root_slot s else Some r | None \<Rightarrow> None)"

lemma scan_start_inv: "scan_inv s los hs (fst (last hs)) (safe_root u hs s) (scan_start hs (safe_root u hs s))"
  by (auto simp: scan_inv_def scan_start_def known_root_def safe_root_def split: option.splits if_splits)

lemma check_update_unfold:
  "check_update_vote_state_slots_are_valid u hs s =
     (if upd_lockouts u = [] then Inl (Err EmptySlots)
      else if (case last_voted_slot s of None \<Rightarrow> False | Some l \<Rightarrow> lo_slot (last (upd_lockouts u)) \<le> l)
      then Inl (Err VoteTooOld)
      else if hs = [] then Inl (Err SlotsMismatch)
      else if lo_slot (last (upd_lockouts u)) < fst (last hs) then Inl (Err VoteTooOld)
      else rbind (scan_loop s (upd_lockouts u) hs (fst (last hs)) (scan_start hs (safe_root u hs s))) (\<lambda>sc.
        if scan_index sc \<noteq> length (upd_lockouts u) then Inl (Err SlotsMismatch)
        else if \<not> scan_hashes sc < length hs then Inl Panic
        else if lo_slot (last (upd_lockouts u)) \<noteq> fst (hs ! scan_hashes sc) then Inl Panic
        else if snd (hs ! scan_hashes sc) \<noteq> upd_hash u then Inl (Err SlotHashMismatch)
        else Inr (u\<lparr>upd_root := safe_root u hs s,
                    upd_lockouts := retain_unlisted 0 (scan_filter sc) (upd_lockouts u)\<rparr>)))"
proof -
  have eq: "(case upd_root u of Some r \<Rightarrow> if r < fst (last hs) then u\<lparr>upd_root := root_slot s\<rparr> else u | None \<Rightarrow> u)
      = u\<lparr>upd_root := safe_root u hs s\<rparr>"
    by (cases u) (simp add: safe_root_def split: option.splits)
  have sel: "upd_lockouts (u\<lparr>upd_root := x\<rparr>) = upd_lockouts u" "upd_hash (u\<lparr>upd_root := x\<rparr>) = upd_hash u"
    "upd_root (u\<lparr>upd_root := x\<rparr>) = x" for x
    by simp_all
  show ?thesis
    unfolding check_update_vote_state_slots_are_valid_def Let_def eq sel scan_start_def by simp
qed

text \<open>At the end of a successful scan the last vote is the one at the index into the history.\<close>

lemma scan_end:
  assumes "scan_inv s los hs e root sc" and "scan_index sc = length los" and "los \<noteq> []"
    and "\<not> lo_slot (last los) < e"
  shows "scan_hashes sc < length hs \<and> fst (hs ! scan_hashes sc) = lo_slot (last los)"
  using assms by (auto simp: scan_inv_def)

text \<open>
  C24. The check of a proposed tower ends within as many iterations as there are votes and
  hashes, and one more for the root, and none of its assertions and indexings can fail,
  whatever the account, the sender and the history contain.
\<close>

theorem update_check_ends:
  "scan_within (length (upd_lockouts u) + length hs + 1) s (upd_lockouts u) hs e (scan_start hs root)
     = Some (scan_loop s (upd_lockouts u) hs e (scan_start hs root))
   \<and> check_update_vote_state_slots_are_valid u hs s \<noteq> Inl Panic"
proof
  show "scan_within (length (upd_lockouts u) + length hs + 1) s (upd_lockouts u) hs e (scan_start hs root)
      = Some (scan_loop s (upd_lockouts u) hs e (scan_start hs root))"
    by (rule scan_within_enough) (simp add: scan_work_def scan_start_def)
  let ?r = "scan_loop s (upd_lockouts u) hs (fst (last hs)) (scan_start hs (safe_root u hs s))"
  have inv: "case ?r of
      Inr sc \<Rightarrow> scan_inv s (upd_lockouts u) hs (fst (last hs)) (safe_root u hs s) sc
        \<and> \<not> scan_running (upd_lockouts u) sc
    | Inl e \<Rightarrow> e \<noteq> Panic"
    using scan_loop_inv [OF scan_start_inv] .
  show "check_update_vote_state_slots_are_valid u hs s \<noteq> Inl Panic"
  proof (cases ?r)
    case (Inr sc)
    then have "scan_inv s (upd_lockouts u) hs (fst (last hs)) (safe_root u hs s) sc"
      using inv by simp
    from scan_end [OF this] show ?thesis
      unfolding check_update_unfold Inr by auto
  qed (use inv in \<open>auto simp: check_update_unfold\<close>)
qed

lemma scan_slots_sorted:
  assumes "\<forall>k. 0 < k \<and> k < length los \<longrightarrow> lo_slot (los ! (k - 1)) < lo_slot (los ! k)"
  shows "sorted_wrt (\<lambda>v w. lo_slot v < lo_slot w) los"
proof -
  have "lo_slot (los ! i) < lo_slot (los ! Suc i)" if "Suc i < length los" for i
    using assms [rule_format, of "Suc i"] that by simp
  then have "successively (\<lambda>v w. lo_slot v < lo_slot w) los"
    by (simp add: successively_conv_nth)
  then show ?thesis
    by (subst (asm) successively_conv_sorted_wrt) (auto intro!: transpI)
qed

lemma accepted_update_on_fork_facts:
  assumes "check_update_vote_state_slots_are_valid u hs s = Inr u'"
  shows "upd_lockouts u' \<noteq> [] \<and> last (upd_lockouts u') = last (upd_lockouts u)
    \<and> newer (last_voted_slot s) (lo_slot (last (upd_lockouts u')))
    \<and> (lo_slot (last (upd_lockouts u')), upd_hash u') \<in> set hs
    \<and> sorted_wrt (\<lambda>v w. lo_slot v < lo_slot w) (upd_lockouts u')
    \<and> set (upd_lockouts u') \<subseteq> set (upd_lockouts u)
    \<and> (\<forall>v\<in>set (upd_lockouts u'). lo_slot v \<in> fst ` set hs \<or> contains_slot (lo_slot v) s)
    \<and> known_root s hs (upd_root u')
    \<and> upd_timestamp u' = upd_timestamp u"
proof -
  let ?los = "upd_lockouts u" and ?e = "fst (last hs)"
  obtain sc where ne: "?los \<noteq> []" "hs \<noteq> []" and new: "newer (last_voted_slot s) (lo_slot (last ?los))"
    and recent: "\<not> lo_slot (last ?los) < ?e"
    and scan: "scan_loop s ?los hs ?e (scan_start hs (safe_root u hs s)) = Inr sc"
    and fin: "scan_index sc = length ?los" "scan_hashes sc < length hs"
      "lo_slot (last ?los) = fst (hs ! scan_hashes sc)" "snd (hs ! scan_hashes sc) = upd_hash u"
    and u': "u' = u\<lparr>upd_root := safe_root u hs s, upd_lockouts := retain_unlisted 0 (scan_filter sc) ?los\<rparr>"
    using assms by (auto simp: check_update_unfold rbind_Inr_iff newer_def not_le split: if_splits option.splits)
  have inv: "scan_inv s ?los hs ?e (safe_root u hs s) sc"
    using scan_loop_inv [OF scan_start_inv [of s ?los hs u]] scan by simp
  let ?kept = "filter (\<lambda>k. k \<notin> set (scan_filter sc)) [0..<length ?los]"
  have kept: "upd_lockouts u' = map (\<lambda>k. ?los ! k) ?kept"
    using retain_unlisted_nth [of "scan_filter sc" 0 ?los] inv u' by (simp add: scan_inv_def)
  have "length ?los - 1 \<notin> set (scan_filter sc)"
    using inv recent ne by (auto simp: scan_inv_def last_conv_nth)
  then have "?kept = filter (\<lambda>k. k \<notin> set (scan_filter sc)) [0..<length ?los - 1] @ [length ?los - 1]"
    using ne upt_Suc_append [of 0 "length ?los - 1"] by simp
  then have last: "upd_lockouts u' \<noteq> []" "last (upd_lockouts u') = last ?los"
    using kept ne by (auto simp: last_conv_nth)
  have "sorted_wrt (\<lambda>v w. lo_slot v < lo_slot w) ?los"
    using inv fin(1) by (intro scan_slots_sorted) (simp add: scan_inv_def)
  then have "sorted_wrt (\<lambda>j k. lo_slot (?los ! j) < lo_slot (?los ! k)) ?kept"
    by (intro sorted_wrt_filter) (auto simp: sorted_wrt_iff_nth_less)
  then have sorted: "sorted_wrt (\<lambda>v w. lo_slot v < lo_slot w) (upd_lockouts u')"
    unfolding kept sorted_wrt_map .
  have "lo_slot (?los ! k) \<in> fst ` set hs \<or> contains_slot (lo_slot (?los ! k)) s"
    if "k < length ?los" "k \<notin> set (scan_filter sc)" for k
    using inv fin(1) that by (auto simp: scan_inv_def passed_slot_def)
  then have on_fork: "\<forall>v\<in>set (upd_lockouts u'). lo_slot v \<in> fst ` set hs \<or> contains_slot (lo_slot v) s"
    unfolding kept by auto
  have sub: "set (upd_lockouts u') \<subseteq> set ?los"
    unfolding kept by auto
  have hash: "(lo_slot (last ?los), upd_hash u) \<in> set hs"
    using fin nth_mem [OF fin(2)] by (metis prod.collapse)
  have root: "known_root s hs (safe_root u hs s)"
    using inv ne fin(1) by (auto simp: scan_inv_def)
  show ?thesis
    using last new sorted on_fork sub hash root by (simp add: u')
qed

text \<open>
  C25. A proposed tower that is accepted is ordered, newer than the last vote, and its last
  slot has the hash of the history.  Every vote kept is on a slot of the history or on one the
  tower already had, and the root is in the history or the root of the tower.
\<close>

theorem accepted_update_on_fork:
  assumes "check_update_vote_state_slots_are_valid u hs s = Inr u'"
  shows "upd_lockouts u' \<noteq> [] \<and> last (upd_lockouts u') = last (upd_lockouts u)
    \<and> newer (last_voted_slot s) (lo_slot (last (upd_lockouts u')))
    \<and> (lo_slot (last (upd_lockouts u')), upd_hash u') \<in> set hs
    \<and> sorted_wrt (\<lambda>v w. lo_slot v < lo_slot w) (upd_lockouts u')
    \<and> set (upd_lockouts u') \<subseteq> set (upd_lockouts u)
    \<and> (\<forall>v\<in>set (upd_lockouts u'). lo_slot v \<in> fst ` set hs \<or> contains_slot (lo_slot v) s)
    \<and> known_root s hs (upd_root u')
    \<and> upd_timestamp u' = upd_timestamp u"
  using accepted_update_on_fork_facts [OF assms] .

theorem accepted_update_on_fork_witness:
  "\<exists>u'. check_update_vote_state_slots_are_valid
       \<lparr>upd_lockouts = [\<lparr>lo_slot = 1, confirmation_count = 4\<rparr>, \<lparr>lo_slot = 4, confirmation_count = 1\<rparr>],
        upd_root = None, upd_hash = 7, upd_timestamp = None\<rparr>
       [(4, 7), (2, 6)] two_votes = Inr u'
     \<and> (4, 7) \<in> set [(4, 7 :: vote_hash), (2, 6)] \<and> lo_slot (last (upd_lockouts u')) = 4"
proof -
  let ?u = "\<lparr>upd_lockouts = [\<lparr>lo_slot = 1, confirmation_count = 4\<rparr>, \<lparr>lo_slot = 4, confirmation_count = 1\<rparr>],
        upd_root = None, upd_hash = 7, upd_timestamp = None\<rparr> :: vote_state_update"
  let ?hs = "[(4, 7), (2, 6)] :: slot_hashes"
  have "contains_slot 1 two_votes"
    by (simp add: contains_slot_def two_votes_def search_slot.simps Let_def)
  then have "scan_loop two_votes (upd_lockouts ?u) ?hs 2 (scan_start ?hs None) =
      Inr \<lparr>scan_index = 2, scan_hashes = 0, scan_root = None, scan_filter = []\<rparr>"
    by (simp add: scan_loop.simps scan_step_def scan_old_slot_def scan_running_def scan_start_def proposed_slot_def
        Let_def word_le_nat_alt)
  then have run: "check_update_vote_state_slots_are_valid ?u ?hs two_votes = Inr ?u"
    by (simp add: check_update_unfold safe_root_def two_votes_def last_voted_slot_eq default_vote_state_def retain_all)
  show ?thesis
    using accepted_update_on_fork [OF run] run by auto
qed

end
