(* ===== verification/Vote_Program.thy ===== *)
theory Vote_Program
  imports Vote_Checks
begin

text \<open>
  The operations on vote accounts: the public functions at the end of
  \<open>program/vote/vote_state/mod.rs\<close>, with the reading and writing of account data.  The SDK's
  borrowed accounts, with their bincode state, are the fields of the record \<open>vote_sdk\<close>, over an
  abstract account \<open>'a\<close> and transaction context \<open>'t\<close>; its laws are the locale \<open>vote_accounts\<close>.
\<close>

section \<open>The SDK\<close>

record ('t, 'a) vote_sdk =
  get_state :: "'a \<Rightarrow> vote_instruction_error + vote_state_versions"
  set_state :: "features \<Rightarrow> vote_state_versions \<Rightarrow> 'a \<Rightarrow> vote_instruction_error + 'a"
  get_lamports :: "'a \<Rightarrow> u64"
  get_data_len :: "'a \<Rightarrow> nat"
  checked_sub_lamports :: "features \<Rightarrow> u64 \<Rightarrow> 'a \<Rightarrow> vote_instruction_error + 'a"
  checked_add_lamports :: "features \<Rightarrow> u64 \<Rightarrow> 'a \<Rightarrow> vote_instruction_error + 'a"
  try_borrow :: "'t \<Rightarrow> nat \<Rightarrow> vote_instruction_error + 'a" \<comment> \<open>\<open>try_borrow_instruction_account\<close>\<close>
  release :: "nat \<Rightarrow> 'a \<Rightarrow> 't \<Rightarrow> 't" \<comment> \<open>what was done to the borrowed account, in the context\<close>

section \<open>Handlers\<close>

definition verify_authorized_signer :: "pubkey \<Rightarrow> pubkey set \<Rightarrow> vote_instruction_error + unit" where
  "verify_authorized_signer authorized signers =
     (if authorized \<in> signers then Inr () else Inl MissingRequiredSignature)"

definition authorize ::
  "('t, 'a) vote_sdk \<Rightarrow> pubkey \<Rightarrow> vote_authorize \<Rightarrow> pubkey set \<Rightarrow> clock \<Rightarrow> features \<Rightarrow> 'a \<Rightarrow> 'a vote_res" where
  "authorize S authorized which signers clk active a =
     rbind (lift_err (get_state S a)) (\<lambda>versioned.
     let s = convert_to_current versioned in
     rbind (case which of
         Voter \<Rightarrow>
           (let withdrawer_signed =
              (if active Vote_withdraw_authority_may_change_authorized_voter
               then is_ok (verify_authorized_signer (authorized_withdrawer s) signers) else False)
            in set_new_authorized_voter authorized (clock_epoch clk) (leader_schedule_epoch clk + 1)
                 (\<lambda>epoch_voter. if withdrawer_signed then Inr () else verify_authorized_signer epoch_voter signers) s)
       | Withdrawer \<Rightarrow>
           rbind (lift_err (verify_authorized_signer (authorized_withdrawer s) signers)) (\<lambda>_.
           Inr (s\<lparr>authorized_withdrawer := authorized\<rparr>)))
       (\<lambda>s. lift_err (set_state S active (Current s) a)))"

definition update_validator_identity ::
  "('t, 'a) vote_sdk \<Rightarrow> pubkey \<Rightarrow> pubkey set \<Rightarrow> features \<Rightarrow> 'a \<Rightarrow> 'a vote_res" where
  "update_validator_identity S node signers active a =
     rbind (lift_err (get_state S a)) (\<lambda>versioned.
     let s = convert_to_current versioned in
     rbind (lift_err (verify_authorized_signer (authorized_withdrawer s) signers)) (\<lambda>_.
     rbind (lift_err (verify_authorized_signer node signers)) (\<lambda>_.
     lift_err (set_state S active (Current (s\<lparr>node_pubkey := node\<rparr>)) a))))"

definition update_commission ::
  "('t, 'a) vote_sdk \<Rightarrow> u8 \<Rightarrow> pubkey set \<Rightarrow> features \<Rightarrow> 'a \<Rightarrow> 'a vote_res" where
  "update_commission S c signers active a =
     rbind (lift_err (get_state S a)) (\<lambda>versioned.
     let s = convert_to_current versioned in
     rbind (lift_err (verify_authorized_signer (authorized_withdrawer s) signers)) (\<lambda>_.
     lift_err (set_state S active (Current (s\<lparr>commission := c\<rparr>)) a)))"

definition reject_active_close :: "clock option \<Rightarrow> vote_state \<Rightarrow> bool" where
  "reject_active_close clk s =
     (case (clk, last_of (epoch_credits s)) of
        (Some clk, Some (last_epoch_with_credits, _, _)) \<Rightarrow>
          saturating_sub (clock_epoch clk) last_epoch_with_credits < 2
      | _ \<Rightarrow> False)"

definition withdraw ::
  "('t, 'a) vote_sdk \<Rightarrow> nat \<Rightarrow> u64 \<Rightarrow> nat \<Rightarrow> pubkey set \<Rightarrow> (nat \<Rightarrow> u64) option \<Rightarrow> clock option \<Rightarrow> features
     \<Rightarrow> 't \<Rightarrow> 't vote_res" where
  "withdraw S vote_i lamports to_i signers minimum_balance clk active t =
     rbind (lift_err (try_borrow S t vote_i)) (\<lambda>a.
     rbind (lift_err (get_state S a)) (\<lambda>versioned.
     let s = convert_to_current versioned in
     rbind (lift_err (verify_authorized_signer (authorized_withdrawer s) signers)) (\<lambda>_.
     rbind (lift_err (ok_or (checked_sub (get_lamports S a) lamports) InsufficientFunds)) (\<lambda>remaining.
     rbind (if remaining = 0 then
              (if reject_active_close clk s then Inl (Err InvalidAccountData)
               else lift_err (set_state S active (Current default_vote_state) a))
            else
              (case minimum_balance of
                 Some minimum \<Rightarrow>
                   if remaining < minimum (get_data_len S a) then Inl (Err InsufficientFunds) else Inr a
               | None \<Rightarrow> Inr a)) (\<lambda>a.
     rbind (lift_err (checked_sub_lamports S active lamports a)) (\<lambda>a.
     let t = release S vote_i a t in
     rbind (lift_err (try_borrow S t to_i)) (\<lambda>b.
     rbind (lift_err (checked_add_lamports S active lamports b)) (\<lambda>b.
     Inr (release S to_i b t)))))))))"

definition initialize_account ::
  "('t, 'a) vote_sdk \<Rightarrow> vote_init \<Rightarrow> pubkey set \<Rightarrow> clock \<Rightarrow> features \<Rightarrow> 'a \<Rightarrow> 'a vote_res" where
  "initialize_account S vi signers clk active a =
     (if get_data_len S a \<noteq> VOTE_STATE_SIZE then Inl (Err InvalidAccountData)
      else rbind (lift_err (get_state S a)) (\<lambda>versioned.
        if \<not> is_uninitialized versioned then Inl (Err AccountAlreadyInitialized)
        else rbind (lift_err (verify_authorized_signer (init_node vi) signers)) (\<lambda>_.
             lift_err (set_state S active (Current (new_vote_state vi clk)) a))))"

definition verify_and_get_vote_state ::
  "('t, 'a) vote_sdk \<Rightarrow> 'a \<Rightarrow> clock \<Rightarrow> pubkey set \<Rightarrow> vote_state vote_res" where
  "verify_and_get_vote_state S a clk signers =
     rbind (lift_err (get_state S a)) (\<lambda>versioned.
     if is_uninitialized versioned then Inl (Err UninitializedAccount)
     else rbind (get_and_update_authorized_voter (clock_epoch clk) (convert_to_current versioned)) (\<lambda>(voter, s).
          rbind (lift_err (verify_authorized_signer voter signers)) (\<lambda>_. Inr s)))"

definition process_vote_account ::
  "('t, 'a) vote_sdk \<Rightarrow> slot_hashes \<Rightarrow> clock \<Rightarrow> vote \<Rightarrow> pubkey set \<Rightarrow> features \<Rightarrow> 'a \<Rightarrow> 'a vote_res" where
  "process_vote_account S hs clk v signers active a =
     rbind (verify_and_get_vote_state S a clk signers) (\<lambda>s.
     rbind (vote_err (lift_err (process_vote v hs (clock_epoch clk) (Some active) s))) (\<lambda>s.
     rbind (case vote_timestamp v of
         Some timestamp \<Rightarrow>
           if vote_slots v = [] then Inl (Err (VoteCustom EmptySlots))
           else vote_err (lift_err (process_timestamp (Max (set (vote_slots v))) timestamp s))
       | None \<Rightarrow> Inr s) (\<lambda>s.
     lift_err (set_state S active (Current s) a))))"

definition process_vote_state_update ::
  "('t, 'a) vote_sdk \<Rightarrow> slot_hashes \<Rightarrow> clock \<Rightarrow> vote_state_update \<Rightarrow> pubkey set \<Rightarrow> features \<Rightarrow> 'a \<Rightarrow> 'a vote_res" where
  "process_vote_state_update S hs clk u signers active a =
     rbind (verify_and_get_vote_state S a clk signers) (\<lambda>s.
     rbind (vote_err (check_update_vote_state_slots_are_valid u hs s)) (\<lambda>u.
     rbind (vote_err (process_new_vote_state (upd_lockouts u) (upd_root u) (upd_timestamp u)
              (clock_epoch clk) (Some active) s)) (\<lambda>s.
     lift_err (set_state S active (Current s) a))))"

section \<open>Account data\<close>

text \<open>bincode on account data; writing fails with its kind of error.\<close>

datatype bincode_error = SizeLimit | OtherBincode

record vote_codec =
  codec_read :: "bytes \<Rightarrow> vote_state_versions option"
  codec_write :: "vote_state_versions \<Rightarrow> bytes \<Rightarrow> bincode_error + bytes" \<comment> \<open>\<open>serialize_into\<close> a buffer\<close>

record shared_account =
  sh_lamports :: u64
  sh_data :: bytes
  sh_owner :: pubkey

definition vote_deserialize :: "vote_codec \<Rightarrow> bytes \<Rightarrow> vote_instruction_error + vote_state" where
  "vote_deserialize C input =
     (case codec_read C input of
        Some versioned \<Rightarrow> Inr (convert_to_current versioned)
      | None \<Rightarrow> Inl InvalidAccountData)"

definition vote_serialize :: "vote_codec \<Rightarrow> vote_state_versions \<Rightarrow> bytes \<Rightarrow> vote_instruction_error + bytes" where
  "vote_serialize C versioned output =
     (case codec_write C versioned output of
        Inr d \<Rightarrow> Inr d
      | Inl SizeLimit \<Rightarrow> Inl AccountDataTooSmall
      | Inl OtherBincode \<Rightarrow> Inl GenericError)"

definition vote_state_from :: "vote_codec \<Rightarrow> shared_account \<Rightarrow> vote_state option" where
  "vote_state_from C a = (case vote_deserialize C (sh_data a) of Inr s \<Rightarrow> Some s | Inl _ \<Rightarrow> None)"

definition vote_state_to :: "vote_codec \<Rightarrow> vote_state_versions \<Rightarrow> shared_account \<Rightarrow> shared_account option" where
  "vote_state_to C versioned a =
     (case vote_serialize C versioned (sh_data a) of Inr d \<Rightarrow> Some (a\<lparr>sh_data := d\<rparr>) | Inl _ \<Rightarrow> None)"

definition credits_from :: "vote_codec \<Rightarrow> shared_account \<Rightarrow> u64 option" where
  "credits_from C a = map_option credits (vote_state_from C a)"

definition get_rent_exempt_reserve :: "(nat \<Rightarrow> u64) \<Rightarrow> u64" where
  "get_rent_exempt_reserve minimum_balance = minimum_balance VOTE_STATE_SIZE"

definition DEFAULT_PRIOR_VOTERS_OFFSET :: nat where "DEFAULT_PRIOR_VOTERS_OFFSET = 82"

definition is_correct_size_and_initialized :: "bytes \<Rightarrow> bool" where
  "is_correct_size_and_initialized data \<longleftrightarrow>
     length data = VOTE_STATE_SIZE
   \<and> slice 4 DEFAULT_PRIOR_VOTERS_OFFSET data \<noteq> replicate DEFAULT_PRIOR_VOTERS_OFFSET 0"

definition create_account_with_authorized ::
  "vote_codec \<Rightarrow> pubkey \<Rightarrow> pubkey \<Rightarrow> pubkey \<Rightarrow> pubkey \<Rightarrow> u8 \<Rightarrow> u64 \<Rightarrow> (shared_account, unit) res" where
  "create_account_with_authorized C vote_program node voter withdrawer c lamports =
     (let fresh = \<lparr>sh_lamports = lamports, sh_data = replicate VOTE_STATE_SIZE 0, sh_owner = vote_program\<rparr>;
          s = new_vote_state
                \<lparr>init_node = node, init_voter = voter, init_withdrawer = withdrawer, init_commission = c\<rparr>
                \<lparr>clock_epoch = 0, leader_schedule_epoch = 0\<rparr>
      in case vote_state_to C (Current s) fresh of Some a \<Rightarrow> Inr a | None \<Rightarrow> Inl Panic)"

definition create_vote_account ::
  "vote_codec \<Rightarrow> pubkey \<Rightarrow> pubkey \<Rightarrow> pubkey \<Rightarrow> u8 \<Rightarrow> u64 \<Rightarrow> (shared_account, unit) res" where
  "create_vote_account C vote_program vote_key node c lamports =
     create_account_with_authorized C vote_program node vote_key vote_key c lamports"

end
