(* ===== verification/Vote_Safety.thy ===== *)
theory Vote_Safety
  imports Vote_Program
begin

text \<open>
  What the operations on a vote account keep and need: the tower over any run, who has to sign
  for which change, when a new voter takes over, and what a withdrawal leaves behind.  The steps
  (\<open>vote_step\<close>) are all the operations of \<open>Vote_Program\<close> that write an account, seen from one account;
  the flag of a step marks those that start its state anew.
\<close>

section \<open>Authorised voters\<close>

definition voters_ok :: "authorized_voters \<Rightarrow> bool" where
  "voters_ok av \<longleftrightarrow> sorted_wrt (<) (map fst av)"

text \<open>The voter of an epoch is the one of the last entry up to it.\<close>

lemma voter_at:
  assumes "voters_ok av"
  shows "get_authorized_voter e av = map_option snd (last_of (filter (\<lambda>p. fst p \<le> e) av))"
proof (cases "map_of av e")
  case (Some k)
  have "last_of (filter (\<lambda>p. fst p \<le> e) av) = Some (e, k)"
    using assms Some
  proof (induction av)
    case (Cons p av)
    show ?case
    proof (cases "fst p = e")
      case True
      have "filter (\<lambda>p. fst p \<le> e) av = []"
        using Cons.prems(1) True by (auto simp: voters_ok_def filter_empty_conv not_le)
      then show ?thesis
        using True Cons.prems(2) by (cases p) (simp add: last_of_def)
    next
      case False
      then have "map_of av e = Some k"
        using Cons.prems(2) by (cases p) simp
      then have IH: "last_of (filter (\<lambda>p. fst p \<le> e) av) = Some (e, k)"
        using Cons by (simp add: voters_ok_def)
      have "fst p < e"
        using Cons.prems(1) map_of_SomeD [OF \<open>map_of av e = Some k\<close>] by (auto simp: voters_ok_def)
      then show ?thesis
        using IH by (auto simp: last_of_def split: if_splits)
    qed
  qed simp
  then show ?thesis
    by (simp add: get_authorized_voter_def get_or_calculate_authorized_voter_for_epoch_def Some)
next
  case None
  then have "(fst p \<le> e) = (fst p < e)" if "p \<in> set av" for p
    using that by (auto simp: map_of_eq_None_iff order_le_less)
  then have "filter (\<lambda>p. fst p \<le> e) av = filter (\<lambda>p. fst p < e) av"
    by (intro filter_cong) auto
  then show ?thesis
    by (simp add: get_authorized_voter_def get_or_calculate_authorized_voter_for_epoch_def None
        option.map_comp comp_def)
qed

lemma btree_insert_split:
  assumes "voters_ok av" and "map_of av e = None"
  shows "btree_insert e k av = filter (\<lambda>p. fst p < e) av @ (e, k) # filter (\<lambda>p. e < fst p) av"
  using assms
proof (induction av)
  case (Cons p av)
  obtain e' k' where p: "p = (e', k')" by fastforce
  have av: "voters_ok av" "map_of av e = None" "e' \<noteq> e" and later: "\<forall>q\<in>set av. e' < fst q"
    using Cons.prems p by (auto simp: voters_ok_def split: if_splits)
  show ?case
  proof (cases "e < e'")
    case True
    then have "filter (\<lambda>p. fst p < e) av = []" "filter (\<lambda>p. e < fst p) av = av"
      using later by (auto simp: filter_empty_conv filter_id_conv not_less)
    then show ?thesis using True p by simp
  next
    case False
    then have "e' < e" using av(3) by simp
    then show ?thesis using Cons.IH [OF av(1,2)] False p by auto
  qed
qed simp

lemma kept_from_existing:
  "voters_ok av \<Longrightarrow> map_of av e = Some k \<Longrightarrow>
     filter (\<lambda>p. \<not> fst p < e) av = (e, k) # filter (\<lambda>p. e < fst p) av"
proof (induction av)
  case (Cons p av)
  obtain e' k' where p: "p = (e', k')" by fastforce
  have later: "\<forall>q\<in>set av. e' < fst q" and ok: "voters_ok av"
    using Cons.prems p by (auto simp: voters_ok_def)
  show ?case
  proof (cases "e' = e")
    case True
    have "filter (\<lambda>p. \<not> fst p < e) av = filter (\<lambda>p. e < fst p) av"
      using later True by (intro filter_cong) auto
    then show ?thesis using Cons.prems(2) True p by simp
  next
    case False
    then have m: "map_of av e = Some k" using Cons.prems(2) p by simp
    then have "e' < e" using later by (auto dest!: map_of_SomeD)
    then show ?thesis using Cons.IH [OF ok m] p by auto
  qed
qed simp

text \<open>
  Looking up the voter of the current epoch: the map afterwards starts with the current epoch.
\<close>

lemma get_and_update_eq:
  assumes "voters_ok (authorized_voters s)"
  shows "get_and_update_authorized_voter c s =
     (case get_authorized_voter c (authorized_voters s) of
        None \<Rightarrow> Inl (Err InvalidAccountData)
      | Some k \<Rightarrow> Inr (k, s\<lparr>authorized_voters := (c, k) # filter (\<lambda>p. c < fst p) (authorized_voters s)\<rparr>))"
proof (cases "map_of (authorized_voters s) c")
  case (Some k)
  then show ?thesis
    using kept_from_existing [OF assms Some]
    by (simp add: get_and_update_authorized_voter_def get_and_cache_authorized_voter_for_epoch_def
        get_authorized_voter_def get_or_calculate_authorized_voter_for_epoch_def purge_authorized_voters_def)
next
  case None
  let ?av = "authorized_voters s"
  have kept: "filter (\<lambda>p. \<not> fst p < c) (btree_insert c k ?av) = (c, k) # filter (\<lambda>p. c < fst p) ?av" for k
  proof -
    have "filter (\<lambda>p. \<not> fst p < c) (filter (\<lambda>p. c < fst p) ?av) = filter (\<lambda>p. c < fst p) ?av"
      unfolding filter_filter by (rule filter_cong) auto
    then show ?thesis
      unfolding btree_insert_split [OF assms None] by simp
  qed
  show ?thesis
    by (cases "last_of (filter (\<lambda>p. fst p < c) ?av)")
      (simp_all add: get_and_update_authorized_voter_def get_and_cache_authorized_voter_for_epoch_def
        get_authorized_voter_def get_or_calculate_authorized_voter_for_epoch_def purge_authorized_voters_def
        None kept)
qed

lemma voters_after_update:
  assumes "voters_ok av" and "get_authorized_voter c av = Some k" and "c \<le> e"
  shows "get_authorized_voter e ((c, k) # filter (\<lambda>p. c < fst p) av) = get_authorized_voter e av"
    and "voters_ok ((c, k) # filter (\<lambda>p. c < fst p) av)"
proof -
  have sorted: "sorted_wrt (\<lambda>p q. fst p < fst q) av"
    using assms(1) by (simp add: voters_ok_def sorted_wrt_map)
  show ok: "voters_ok ((c, k) # filter (\<lambda>p. c < fst p) av)"
    using sorted by (auto simp: voters_ok_def sorted_wrt_map sorted_wrt_filter)
  let ?le = "\<lambda>e. filter (\<lambda>p. fst p \<le> e) av"
  let ?mid = "filter (\<lambda>p. c < fst p \<and> fst p \<le> e) av"
  have "filter (\<lambda>p. fst p \<le> e) av = ?le c @ ?mid"
    using sorted
  proof (induction av)
    case (Cons p av)
    show ?case
    proof (cases "fst p \<le> c")
      case True then show ?thesis using Cons assms(3) by auto
    next
      case False
      then have "filter (\<lambda>p. fst p \<le> c) av = []"
        using Cons.prems by (auto simp: filter_empty_conv not_le)
      then show ?thesis using Cons False by (auto simp: not_le)
    qed
  qed simp
  moreover have "filter (\<lambda>p. fst p \<le> e) ((c, k) # filter (\<lambda>p. c < fst p) av) = (c, k) # ?mid"
    using assms(3) by (simp add: conj_commute)
  moreover have "map_option snd (last_of (?le c)) = Some k"
    using assms(1,2) voter_at by metis
  ultimately show "get_authorized_voter e ((c, k) # filter (\<lambda>p. c < fst p) av) = get_authorized_voter e av"
    unfolding voter_at [OF assms(1)] voter_at [OF ok] by (cases "?mid = []") (auto simp: last_of_def)
qed

lemma voters_contains_iff: "voters_contains e av \<longleftrightarrow> e \<in> fst ` set av"
  by (simp add: voters_contains_def map_of_eq_None_iff)

text \<open>The last voter stays the last one when the current epoch gets an entry.\<close>

lemma last_voter_same:
  assumes "voters_ok av" and "get_authorized_voter c av = Some k"
  shows "snd (last ((c, k) # filter (\<lambda>p. c < fst p) av)) = snd (last av)"
proof (cases "filter (\<lambda>p. c < fst p) av = []")
  case True
  then have "filter (\<lambda>p. fst p \<le> c) av = av"
    by (auto simp: filter_empty_conv filter_id_conv not_less)
  then show ?thesis
    using True assms(2) voter_at [OF assms(1)] by (auto simp: last_of_def split: if_splits)
next
  case False
  then have ne: "av \<noteq> []" by auto
  then obtain front p where av: "av = front @ [p]" by (cases av rule: rev_cases) auto
  have "c < fst p"
  proof (rule ccontr)
    assume p: "\<not> c < fst p"
    obtain q where q: "q \<in> set av" "c < fst q" using False by (auto simp: filter_empty_conv)
    then have "q \<in> set front" using p by (auto simp: av)
    then have "fst q < fst p"
      using assms(1) by (auto simp: voters_ok_def av sorted_wrt_append)
    then show False using p q(2) by simp
  qed
  then show ?thesis by (simp add: av)
qed

lemma btree_insert_end:
  "voters_ok av \<Longrightarrow> \<forall>p\<in>set av. fst p < e \<Longrightarrow> btree_insert e k av = av @ [(e, k)]"
  by (induction av) (auto simp: voters_ok_def)

lemma voter_at_snoc:
  assumes "voters_ok (av @ [(t, k)])"
  shows "get_authorized_voter e (av @ [(t, k)]) = (if e < t then get_authorized_voter e av else Some k)"
proof -
  have "voters_ok av" using assms by (simp add: voters_ok_def sorted_wrt_append)
  then show ?thesis by (auto simp: voter_at assms not_le)
qed

lemma cb_last_append:
  "length (cb_buf c) = MAX_ITEMS \<Longrightarrow> cb_last (cb_append x c) = Some x"
  by (simp add: cb_last_def cb_append_def Let_def MAX_ITEMS_def)

text \<open>
  C22. Changing the voter needs the consent of the voter of the current epoch (\<open>verify\<close>), leaves
  every epoch from the current one up to the target with its voter (the entries of earlier epochs are
  purged), gives the target and every later epoch to the new one, and cannot be repeated for the same
  target.  A voter who is replaced is remembered with the epoch its service ends.
\<close>

theorem voter_change_takes_over:
  assumes "set_new_authorized_voter k current target verify s = Inr s'"
    and "voters_ok (authorized_voters s)" and "\<forall>p\<in>set (authorized_voters s). fst p \<le> target"
    and "current \<le> target" and "length (cb_buf (prior_voters s)) = MAX_ITEMS"
  shows "(\<exists>voter. get_authorized_voter current (authorized_voters s) = Some voter \<and> verify voter = Inr ())
    \<and> (\<forall>e. current \<le> e \<longrightarrow> get_authorized_voter e (authorized_voters s') =
          (if e < target then get_authorized_voter e (authorized_voters s) else Some k))
    \<and> voters_ok (authorized_voters s')
    \<and> (snd (last (authorized_voters s)) \<noteq> k \<longrightarrow>
          (\<exists>since. cb_last (prior_voters s') = Some (snd (last (authorized_voters s)), since, target)))
    \<and> (\<forall>k' v'. (\<forall>x. v' x = Inr ()) \<longrightarrow>
          set_new_authorized_voter k' current target v' s' = Inl (Err (VoteCustom TooSoonToReauthorize)))"
proof -
  let ?av = "authorized_voters s"
  obtain voter where voter: "get_authorized_voter current ?av = Some voter" and consent: "verify voter = Inr ()"
    using assms(1) by (auto simp: set_new_authorized_voter_def get_and_update_eq [OF assms(2)] rbind_Inr_iff
        split: option.splits)
  let ?av1 = "(current, voter) # filter (\<lambda>p. current < fst p) ?av"
  let ?s1 = "s\<lparr>authorized_voters := ?av1\<rparr>"
  have av1: "voters_ok ?av1" "\<And>e. current \<le> e \<Longrightarrow> get_authorized_voter e ?av1 = get_authorized_voter e ?av"
    using voters_after_update [OF assms(2) voter] by auto
  have update: "get_and_update_authorized_voter current s = Inr (voter, ?s1)"
    by (simp add: get_and_update_eq [OF assms(2)] voter)
  have fresh: "\<not> voters_contains target ?av1"
    using assms(1) by (auto simp: set_new_authorized_voter_def update consent split: if_splits)
  then have before: "\<forall>p\<in>set ?av1. fst p < target"
    using assms(3,4) by (auto simp: voters_contains_iff order_le_less)
  have latest: "voters_last ?av1 = Some (last ?av1)"
    by (simp add: voters_last_def last_of_def)
  have set_eq: "set_new_authorized_voter k current target verify s =
      rbind (if snd (last ?av1) \<noteq> k then
               (let switched = (case cb_last (prior_voters s) of None \<Rightarrow> 0 | Some (_, _, e) \<Rightarrow> e) in
                if \<not> fst (last ?av1) < target then Inl Panic
                else Inr (?s1\<lparr>prior_voters := cb_append (snd (last ?av1), switched, target) (prior_voters s)\<rparr>))
             else Inr ?s1)
        (\<lambda>s. Inr (s\<lparr>authorized_voters := btree_insert target k (authorized_voters s)\<rparr>))"
    using fresh latest by (simp add: set_new_authorized_voter_def update consent case_prod_beta)
  obtain pv where s': "s' = ?s1\<lparr>prior_voters := pv, authorized_voters := ?av1 @ [(target, k)]\<rparr>"
    and pv: "snd (last ?av1) \<noteq> k \<longrightarrow> (\<exists>since. pv = cb_append (snd (last ?av1), since, target) (prior_voters s))"
  proof (cases "snd (last ?av1) = k")
    case True
    then have "s' = ?s1\<lparr>prior_voters := prior_voters s, authorized_voters := ?av1 @ [(target, k)]\<rparr>"
      using assms(1) btree_insert_end [OF av1(1) before] unfolding set_eq by simp
    then show thesis using that True by blast
  next
    case False
    then have "\<exists>since. s' = ?s1\<lparr>prior_voters := cb_append (snd (last ?av1), since, target) (prior_voters s),
        authorized_voters := ?av1 @ [(target, k)]\<rparr>"
      using assms(1) btree_insert_end [OF av1(1) before] unfolding set_eq
      by (auto simp: Let_def rbind_Inr_iff simp del: last.simps split: if_splits)
    then show thesis using that by blast
  qed
  have av': "authorized_voters s' = ?av1 @ [(target, k)]"
    by (simp add: s')
  have ok': "voters_ok (authorized_voters s')"
    using av1(1) before by (auto simp: s' voters_ok_def sorted_wrt_append)
  have at: "get_authorized_voter e (authorized_voters s') =
      (if e < target then get_authorized_voter e ?av else Some k)" if "current \<le> e" for e
    unfolding av' voter_at_snoc [OF ok' [unfolded av']] av1(2) [OF that] by (rule refl)
  have again: "set_new_authorized_voter k' current target v' s' = Inl (Err (VoteCustom TooSoonToReauthorize))"
    if "\<forall>x. v' x = Inr ()" for k' v'
  proof -
    have lt: "current < target" using before by simp
    then have "voters_contains target ((current, x) # filter (\<lambda>p. current < fst p) (authorized_voters s'))" for x
      by (simp add: s' voters_contains_iff)
    then show ?thesis
      using that at [of current] lt voter
      by (simp add: set_new_authorized_voter_def get_and_update_eq [OF ok'])
  qed
  have "\<exists>since. cb_last (prior_voters s') = Some (snd (last ?av), since, target)" if "snd (last ?av) \<noteq> k"
    using pv that cb_last_append [OF assms(5)] last_voter_same [OF assms(2) voter] by (auto simp: s')
  then show ?thesis
    using voter consent at ok' again by blast
qed

definition one_voter :: vote_state where
  "one_voter = default_vote_state\<lparr>authorized_withdrawer := 8, authorized_voters := [(3, 7)]\<rparr>"

theorem voter_change_takes_over_witness:
  "\<exists>s'. set_new_authorized_voter 9 3 5 (\<lambda>k. if k = 7 then Inr () else Inl MissingRequiredSignature) one_voter = Inr s'
     \<and> get_authorized_voter 4 (authorized_voters s') = Some 7
     \<and> get_authorized_voter 5 (authorized_voters s') = Some 9"
proof -
  let ?v = "\<lambda>k :: pubkey. if k = 7 then Inr () else Inl MissingRequiredSignature"
  have voters: "authorized_voters one_voter = [(3, 7)]" "voters_ok (authorized_voters one_voter)"
    by (simp_all add: one_voter_def voters_ok_def)
  have at: "get_authorized_voter e (authorized_voters one_voter) = Some 7" if "3 \<le> e" for e
    unfolding voter_at [OF voters(2)] unfolding voters(1) using that by (simp add: last_of_def)
  have "get_authorized_voter 3 [(3 :: u64, 7 :: pubkey)] = Some 7"
    using at [of 3] voters(1) by simp
  then have "\<exists>s'. set_new_authorized_voter 9 3 5 ?v one_voter = Inr s'"
    by (simp add: set_new_authorized_voter_def get_and_update_eq [OF voters(2)] voters(1) voters_contains_def
        voters_last_def last_of_def Let_def word_less_nat_alt)
  then obtain s' where s': "set_new_authorized_voter 9 3 5 ?v one_voter = Inr s'" ..
  have "\<forall>p\<in>set (authorized_voters one_voter). fst p \<le> 5" "(3 :: u64) \<le> 5"
    "length (cb_buf (prior_voters one_voter)) = MAX_ITEMS"
    by (simp_all add: voters(1) word_le_nat_alt one_voter_def default_vote_state_def default_circ_buf_def)
  from voter_change_takes_over [OF s' voters(2) this]
  have "\<forall>e. 3 \<le> e \<longrightarrow> get_authorized_voter e (authorized_voters s') =
      (if e < 5 then get_authorized_voter e (authorized_voters one_voter) else Some 9)"
    by blast
  from this [rule_format, of 4] this [rule_format, of 5] show ?thesis
    using s' at [of 4] by (auto simp: word_le_nat_alt word_less_nat_alt)
qed

section \<open>The contract of the accounts\<close>

text \<open>
  What the program relies on: a written state is read back, the balance operations are exact
  or fail, and a borrowed account is one of the transaction, possibly the same one twice.
\<close>

locale vote_accounts =
  fixes S :: "('t, 'a) vote_sdk" and index :: "'t \<Rightarrow> nat \<Rightarrow> nat option" and acct :: "'t \<Rightarrow> nat \<Rightarrow> 'a"
    and n :: nat
  assumes set_facts: "set_state S f v a = Inr a' \<Longrightarrow>
        get_state S a' = Inr v \<and> get_lamports S a' = get_lamports S a \<and> get_data_len S a' = get_data_len S a"
    and sub_facts: "checked_sub_lamports S f l a = Inr a' \<Longrightarrow>
        l \<le> get_lamports S a \<and> get_lamports S a' = get_lamports S a - l
        \<and> get_state S a' = get_state S a \<and> get_data_len S a' = get_data_len S a"
    and add_facts: "checked_add_lamports S f l a = Inr a' \<Longrightarrow>
        unat (get_lamports S a) + unat l < 2 ^ 64 \<and> get_lamports S a' = get_lamports S a + l
        \<and> get_state S a' = get_state S a \<and> get_data_len S a' = get_data_len S a"
    and borrow_facts: "try_borrow S t i = Inr a \<Longrightarrow> \<exists>k. index t i = Some k \<and> k < n \<and> acct t k = a"
    and release_facts: "index t i = Some k \<Longrightarrow>
        acct (release S i a t) = (acct t)(k := a) \<and> index (release S i a t) = index t"

text \<open>The vote state an account holds.\<close>

definition holds :: "('t, 'a) vote_sdk \<Rightarrow> 'a \<Rightarrow> vote_state \<Rightarrow> bool" where
  "holds S a s \<longleftrightarrow> (\<exists>v. get_state S a = Inr v \<and> convert_to_current v = s)"

lemma holds_unique: "holds S a s \<Longrightarrow> holds S a s' \<Longrightarrow> s' = s"
  by (auto simp: holds_def)

definition history_ok :: "slot_hashes \<Rightarrow> bool" where
  "history_ok hs \<longleftrightarrow> (\<forall>x\<in>set hs. unat (fst x) < 2 ^ 63)"

text \<open>
  One operation, signed by \<open>signers\<close> at the clock \<open>clk\<close>, as an account sees it: it is the one the
  operation works on or, for a withdrawal, any account \<open>j\<close> of the instruction, source, recipient or
  bystander.  The flag tells whether the operation starts the state of the account anew: an
  initialisation, or a withdrawal of all it has.
\<close>

inductive vote_step ::
  "('t, 'a) vote_sdk \<Rightarrow> ('t \<Rightarrow> nat \<Rightarrow> nat option) \<Rightarrow> pubkey set \<Rightarrow> clock \<Rightarrow> features \<Rightarrow> bool \<Rightarrow> 'a \<Rightarrow> 'a \<Rightarrow> bool"
  for S index signers clk active where
  step_initialize: "initialize_account S vi signers clk active a = Inr a' \<Longrightarrow>
    vote_step S index signers clk active True a a'"
| step_authorize: "authorize S k which signers clk active a = Inr a' \<Longrightarrow>
    vote_step S index signers clk active False a a'"
| step_identity: "update_validator_identity S k signers active a = Inr a' \<Longrightarrow>
    vote_step S index signers clk active False a a'"
| step_commission: "update_commission S c signers active a = Inr a' \<Longrightarrow>
    vote_step S index signers clk active False a a'"
| step_vote: "history_ok hs \<Longrightarrow> process_vote_account S hs clk v signers active a = Inr a' \<Longrightarrow>
    vote_step S index signers clk active False a a'"
| step_update: "history_ok hs \<Longrightarrow> process_vote_state_update S hs clk u signers active a = Inr a' \<Longrightarrow>
    vote_step S index signers clk active False a a'"
| step_withdraw: "withdraw S vote_i l to_i signers minimum close_clk active t = Inr t' \<Longrightarrow>
    try_borrow S t j = Inr a \<Longrightarrow> try_borrow S t' j = Inr a' \<Longrightarrow>
    vote_step S index signers clk active (index t j = index t vote_i \<and> get_lamports S a = l) a a'"

text \<open>A run, and whether the state was started anew during it.\<close>

inductive vote_run ::
  "('t, 'a) vote_sdk \<Rightarrow> ('t \<Rightarrow> nat \<Rightarrow> nat option) \<Rightarrow> bool \<Rightarrow> 'a \<Rightarrow> 'a \<Rightarrow> bool" for S index where
  run_refl: "vote_run S index False a a"
| run_step: "vote_run S index anew a b \<Longrightarrow> vote_step S index signers clk active fresh b c \<Longrightarrow>
    vote_run S index (anew \<or> fresh) a c"

section \<open>The tower over a run\<close>

definition tower_kept :: "vote_state \<Rightarrow> vote_state \<Rightarrow> bool" where
  "tower_kept s s' \<longleftrightarrow> votes s' = votes s \<and> root_slot s' = root_slot s"

lemma tower_kept_ok: "tower_kept s s' \<Longrightarrow> state_ok s \<Longrightarrow> state_ok s' \<and> no_rollback s s'"
  by (auto simp: tower_kept_def state_ok_def no_rollback_def respected_def)

lemma no_rollback_kept: "tower_kept s0 s \<Longrightarrow> no_rollback s s' \<Longrightarrow> no_rollback s0 s'"
  by (simp add: tower_kept_def no_rollback_def)

lemma get_and_update_tower: "get_and_update_authorized_voter c s = Inr (k, s') \<Longrightarrow> tower_kept s s'"
  by (auto simp: get_and_update_authorized_voter_def tower_kept_def rbind_Inr_iff split: option.splits)

lemma set_voter_tower: "set_new_authorized_voter k c t verify s = Inr s' \<Longrightarrow> tower_kept s s'"
  by (auto simp: set_new_authorized_voter_def rbind_Inr_iff tower_kept_def Let_def
      dest!: get_and_update_tower split: if_splits option.splits)

lemma process_timestamp_tower: "process_timestamp slot ts s = Inr s' \<Longrightarrow> tower_kept s s'"
  by (auto simp: process_timestamp_def tower_kept_def Let_def split: if_splits)

lemma tower_kept_trans: "tower_kept s s' \<Longrightarrow> tower_kept s' s'' \<Longrightarrow> tower_kept s s''"
  by (simp add: tower_kept_def)

lemma last_voted_map: "last_voted_slot s = last_of (map lo_slot (votes s))"
  by (simp add: last_voted_slot_eq last_of_def last_map)

text \<open>A vote can only raise the last voted slot.\<close>

lemma process_next_last:
  assumes "last_voted_slot s = Some l"
  shows "\<exists>l'. last_voted_slot (process_next_vote_slot m e s) = Some l' \<and> l \<le> l'"
proof (cases "m \<le> l")
  case True
  then show ?thesis using assms by (simp add: process_next_vote_slot_def)
next
  case False
  then obtain vs where "votes (process_next_vote_slot m e s) = double_lockouts (vs @ [new_lockout m])"
    using assms by (auto simp: process_next_vote_slot_def Let_def)
  then show ?thesis
    using False by (simp add: last_voted_map double_slots new_lockout_def)
qed

lemma fresh_states_ok:
  "state_ok default_vote_state" "voters_ok (authorized_voters default_vote_state)"
  "state_ok (new_vote_state vi clk)" "voters_ok (authorized_voters (new_vote_state vi clk))"
  by (simp_all add: state_ok_def root_below_def new_vote_state_def default_vote_state_def
      voters_ok_def new_authorized_voters_def)

lemma votes_keep:
  assumes "\<forall>m\<in>set slots. (\<exists>l. last_voted_slot s = Some l \<and> m \<le> l) \<or> unat m < 2 ^ 63" and "state_ok s"
  shows "state_ok (fold (\<lambda>m. process_next_vote_slot m e) slots s)
       \<and> no_rollback s (fold (\<lambda>m. process_next_vote_slot m e) slots s)"
  using assms
proof (induction slots arbitrary: s)
  case (Cons m slots)
  let ?s = "process_next_vote_slot m e s"
  have one: "state_ok ?s \<and> no_rollback s ?s"
  proof (cases "unat m < 2 ^ 63")
    case True
    then show ?thesis
      using process_next_ok [OF Cons.prems(2)] process_next_no_rollback [OF Cons.prems(2)] by blast
  next
    case False
    then have "?s = s"
      using Cons.prems(1) by (auto simp: process_next_vote_slot_def)
    then show ?thesis using Cons.prems(2) no_rollback_refl by simp
  qed
  have "(\<exists>l. last_voted_slot ?s = Some l \<and> x \<le> l) \<or> unat x < 2 ^ 63" if x: "x \<in> set slots" for x
  proof (cases "unat x < 2 ^ 63")
    case False
    then obtain l where l: "last_voted_slot s = Some l" "x \<le> l"
      using Cons.prems(1) x by auto
    obtain l' where "last_voted_slot ?s = Some l'" "l \<le> l'"
      using process_next_last [OF l(1)] by blast
    then show ?thesis using l(2) by auto
  qed simp
  then have "state_ok (fold (\<lambda>m. process_next_vote_slot m e) slots ?s)
      \<and> no_rollback ?s (fold (\<lambda>m. process_next_vote_slot m e) slots ?s)"
    using Cons.IH one by blast
  then show ?case
    using one no_rollback_trans [of s ?s] Cons.prems(2) by (auto simp: state_ok_def)
qed (simp add: no_rollback_refl)

lemma process_vote_keeps:
  assumes "process_vote v hs e fs s = Inr s'" and "state_ok s" and "history_ok hs"
  shows "state_ok s' \<and> no_rollback s s'"
proof -
  let ?slots = "filtered_vote_slots v hs fs"
  have ok: "check_slots_are_valid ?slots (vote_hash_of v) hs s = Inr ()"
    and s': "s' = fold (\<lambda>m. process_next_vote_slot m e) ?slots s"
    using assms(1) by (auto simp: process_vote_def rbind_Inr_iff Let_def split: if_splits)
  have "(\<exists>l. last_voted_slot s = Some l \<and> m \<le> l) \<or> unat m < 2 ^ 63" if "m \<in> set ?slots" for m
  proof (cases "newer (last_voted_slot s) m")
    case True
    then show ?thesis using check_slots_passed [OF ok that True] assms(3) by (auto simp: history_ok_def)
  next
    case False
    then show ?thesis by (auto simp: newer_def not_less)
  qed
  then show ?thesis
    unfolding s' using assms(2) by (intro votes_keep) auto
qed

lemma process_update_keeps:
  assumes check: "check_update_vote_state_slots_are_valid u hs s = Inr u'"
    and run: "process_new_vote_state (upd_lockouts u') (upd_root u') ts e fs s = Inr s'"
    and ok: "state_ok s" and hs: "history_ok hs"
  shows "state_ok s' \<and> no_rollback s s'"
proof -
  note acc = accepted_update_on_fork_facts [OF check]
  have slots: "\<forall>v\<in>set (upd_lockouts u'). unat (lo_slot v) < 2 ^ 63"
  proof
    fix v assume v: "v \<in> set (upd_lockouts u')"
    have tower: "tower_ok (votes s)" using ok by (simp add: state_ok_def)
    have "lo_slot v \<in> fst ` set hs \<or> lo_slot v \<in> lo_slot ` set (votes s)"
      using acc v contains_slot_iff [OF tower] by blast
    then show "unat (lo_slot v) < 2 ^ 63"
      using hs tower_ok_vote [OF tower] vote_okD(2) by (auto simp: history_ok_def)
  qed
  have newer: "lo_slot v < lo_slot (last (upd_lockouts u'))" if "v \<in> set (votes s)" for v
  proof -
    have "lo_slot v \<le> lo_slot (last (votes s))"
      using tower_below_last that ok by (auto simp: state_ok_def)
    then show ?thesis
      using acc that by (auto simp: newer_def last_voted_slot_eq split: if_splits)
  qed
  show ?thesis
    using process_new_ok [OF run slots] process_new_no_rollback [OF run _ slots] newer ok
    by (auto simp: state_ok_def)
qed

lemma verify_signer_iff [simp]: "verify_authorized_signer k signers = Inr u \<longleftrightarrow> k \<in> signers"
  by (simp add: verify_authorized_signer_def)

text \<open>The fields a vote writes, and the others.\<close>

definition ballot :: "vote_state \<Rightarrow> lockout list \<times> u64 option \<times> (u64 \<times> u64 \<times> u64) list \<times> block_timestamp" where
  "ballot s = (votes s, root_slot s, epoch_credits s, last_timestamp s)"

definition owners :: "vote_state \<Rightarrow> pubkey \<times> pubkey \<times> u8" where
  "owners s = (node_pubkey s, authorized_withdrawer s, commission s)"

lemma get_and_update_fields:
  assumes "get_and_update_authorized_voter c s = Inr (k, s')"
  shows "ballot s' = ballot s \<and> owners s' = owners s \<and> tower_kept s s'"
    and "voters_ok (authorized_voters s) \<Longrightarrow> get_authorized_voter c (authorized_voters s) = Some k
      \<and> (\<forall>e. c \<le> e \<longrightarrow> get_authorized_voter e (authorized_voters s') = get_authorized_voter e (authorized_voters s))"
proof -
  show "ballot s' = ballot s \<and> owners s' = owners s \<and> tower_kept s s'"
    using assms by (auto simp: get_and_update_authorized_voter_def tower_kept_def ballot_def owners_def
        rbind_Inr_iff split: option.splits)
  assume ok: "voters_ok (authorized_voters s)"
  then have k: "get_authorized_voter c (authorized_voters s) = Some k"
    and s': "s' = s\<lparr>authorized_voters := (c, k) # filter (\<lambda>p. c < fst p) (authorized_voters s)\<rparr>"
    using assms by (auto simp: get_and_update_eq split: option.splits)
  then show "get_authorized_voter c (authorized_voters s) = Some k
      \<and> (\<forall>e. c \<le> e \<longrightarrow> get_authorized_voter e (authorized_voters s') = get_authorized_voter e (authorized_voters s))"
    using voters_after_update(1) [OF ok k] by simp
qed

lemma set_voter_split:
  assumes "set_new_authorized_voter k c t verify s = Inr s'"
  obtains voter s1 pv av where "get_and_update_authorized_voter c s = Inr (voter, s1)" "verify voter = Inr ()"
    and "s' = s1\<lparr>prior_voters := pv, authorized_voters := av\<rparr>"
proof -
  obtain voter s1 where g: "get_and_update_authorized_voter c s = Inr (voter, s1)" "verify voter = Inr ()"
    using assms by (auto simp: set_new_authorized_voter_def rbind_Inr_iff)
  have "\<exists>pv av. s' = s1\<lparr>prior_voters := pv, authorized_voters := av\<rparr>"
  proof (cases "voters_last (authorized_voters s1)")
    case (Some p)
    show ?thesis
    proof (cases "snd p = k")
      case True
      then have "s' = s1\<lparr>prior_voters := prior_voters s1, authorized_voters := btree_insert t k (authorized_voters s1)\<rparr>"
        using assms g Some by (auto simp: set_new_authorized_voter_def case_prod_beta split: if_splits)
      then show ?thesis by blast
    next
      case False
      then show ?thesis
        using assms g Some
        by (auto simp: set_new_authorized_voter_def rbind_Inr_iff Let_def case_prod_beta split: if_splits)
    qed
  qed (use assms g in \<open>auto simp: set_new_authorized_voter_def split: if_splits\<close>)
  then show thesis using g that by blast
qed

lemma set_voter_fields: "set_new_authorized_voter k c t verify s = Inr s' \<Longrightarrow> ballot s' = ballot s \<and> owners s' = owners s"
  by (erule set_voter_split) (auto dest!: get_and_update_fields(1) simp: ballot_def owners_def)

lemma btree_insert_keys: "fst ` set (btree_insert e k av) = insert e (fst ` set av)"
  by (induction e k av rule: btree_insert.induct) (simp_all add: insert_commute)

lemma btree_insert_ok: "voters_ok av \<Longrightarrow> voters_ok (btree_insert e k av)"
proof (induction e k av rule: btree_insert.induct)
  case (2 e k e' k' av)
  have later: "\<forall>x\<in>fst ` set av. e' < x" and ok: "voters_ok av"
    using "2.prems" by (simp_all add: voters_ok_def)
  consider "e < e'" | "e = e'" | "e' < e" by fastforce
  then show ?case
  proof cases
    case 1
    then show ?thesis using later ok by (fastforce simp: voters_ok_def)
  next
    case 3
    then have "voters_ok (btree_insert e k av)" using "2.IH" ok by auto
    moreover have "\<forall>x\<in>fst ` set (btree_insert e k av). e' < x"
      unfolding btree_insert_keys using later 3 by auto
    ultimately show ?thesis using 3 by (auto simp: voters_ok_def)
  qed (use later ok in \<open>simp add: voters_ok_def\<close>)
qed (simp add: voters_ok_def)

lemma set_voter_in_order:
  assumes "set_new_authorized_voter k c t verify s = Inr s'" and "voters_ok (authorized_voters s)"
  shows "voters_ok (authorized_voters s')"
proof -
  obtain voter s1 where g: "get_and_update_authorized_voter c s = Inr (voter, s1)"
    and s': "authorized_voters s' = btree_insert t k (authorized_voters s1)"
    using assms(1)
    by (auto simp: set_new_authorized_voter_def rbind_Inr_iff Let_def case_prod_beta split: if_splits option.splits)
  have "voters_ok (authorized_voters s1)"
    using g voters_after_update(2) [OF assms(2) _ order_refl]
    by (auto simp: get_and_update_eq [OF assms(2)] split: option.splits)
  then show ?thesis by (simp add: s' btree_insert_ok)
qed

lemma process_vote_fields: "process_vote v hs e fs s = Inr s' \<Longrightarrow>
    owners s' = owners s \<and> authorized_voters s' = authorized_voters s"
proof -
  have one: "owners (process_next_vote_slot m e s) = owners s
      \<and> authorized_voters (process_next_vote_slot m e s) = authorized_voters s" for m s
    by (simp add: process_next_vote_slot_def owners_def Let_def)
  have "owners (fold (\<lambda>m. process_next_vote_slot m e) slots s) = owners s
      \<and> authorized_voters (fold (\<lambda>m. process_next_vote_slot m e) slots s) = authorized_voters s" for slots
    by (induction slots arbitrary: s) (simp_all add: one)
  then show "process_vote v hs e fs s = Inr s' \<Longrightarrow> ?thesis"
    by (auto simp: process_vote_def rbind_Inr_iff Let_def split: if_splits)
qed

lemma process_timestamp_fields: "process_timestamp m ts s = Inr s' \<Longrightarrow>
    owners s' = owners s \<and> authorized_voters s' = authorized_voters s \<and> tower_kept s s'"
  by (auto simp: process_timestamp_def owners_def tower_kept_def Let_def split: if_splits)

text \<open>A vote instruction starts from the state with the voters of the epoch, whose voter signed.\<close>

lemma verify_and_get_facts:
  assumes "verify_and_get_vote_state S a clk signers = Inr s1"
  obtains s voter where "holds S a s" "get_and_update_authorized_voter (clock_epoch clk) s = Inr (voter, s1)"
    and "voter \<in> signers"
  using assms by (auto simp: verify_and_get_vote_state_def rbind_Inr_iff holds_def split: if_splits)

text \<open>
  Every step is one of these: the authorised voter votes, the withdrawer rules, a new voter is
  named, the state stays (a withdrawal leaves something, or concerns the account only as recipient
  or bystander), or it starts anew, blank after a withdrawal of everything, or initialised.
\<close>

definition votes_step :: "pubkey set \<Rightarrow> clock \<Rightarrow> vote_state \<Rightarrow> vote_state \<Rightarrow> bool" where
  "votes_step signers clk s s' \<longleftrightarrow>
     (\<exists>voter s1. get_and_update_authorized_voter (clock_epoch clk) s = Inr (voter, s1) \<and> voter \<in> signers
        \<and> owners s' = owners s \<and> authorized_voters s' = authorized_voters s1
        \<and> (state_ok s1 \<longrightarrow> state_ok s' \<and> no_rollback s1 s'))"

inductive step_kind :: "pubkey set \<Rightarrow> clock \<Rightarrow> features \<Rightarrow> vote_state \<Rightarrow> bool \<Rightarrow> vote_state \<Rightarrow> bool"
  for signers clk active s where
  kind_votes: "votes_step signers clk s s' \<Longrightarrow> step_kind signers clk active s False s'"
| kind_withdrawer: "authorized_withdrawer s \<in> signers \<Longrightarrow>
    step_kind signers clk active s False (s\<lparr>authorized_withdrawer := k\<rparr>)"
| kind_commission: "authorized_withdrawer s \<in> signers \<Longrightarrow>
    step_kind signers clk active s False (s\<lparr>commission := c\<rparr>)"
| kind_node: "authorized_withdrawer s \<in> signers \<Longrightarrow> k \<in> signers \<Longrightarrow>
    step_kind signers clk active s False (s\<lparr>node_pubkey := k\<rparr>)"
| kind_voter: "set_new_authorized_voter k (clock_epoch clk) (leader_schedule_epoch clk + 1) verify s = Inr s' \<Longrightarrow>
    (\<And>voter. verify voter = Inr () \<Longrightarrow> voter \<in> signers
       \<or> active Vote_withdraw_authority_may_change_authorized_voter \<and> authorized_withdrawer s \<in> signers) \<Longrightarrow>
    step_kind signers clk active s False s'"
| kind_same: "step_kind signers clk active s False s"
| kind_blank: "authorized_withdrawer s \<in> signers \<Longrightarrow> step_kind signers clk active s True default_vote_state"
| kind_initial: "is_uninitialized v \<Longrightarrow> convert_to_current v = s \<Longrightarrow> init_node vi \<in> signers \<Longrightarrow>
    step_kind signers clk active s True (new_vote_state vi clk)"

context vote_accounts
begin

lemma written: "set_state S f (Current s) a = Inr a' \<Longrightarrow> holds S a' s"
  using set_facts by (force simp: holds_def)

lemma vote_shape:
  assumes "process_vote_account S hs clk v signers active a = Inr a'" and "history_ok hs"
  shows "\<exists>s s'. holds S a s \<and> holds S a' s' \<and> votes_step signers clk s s'"
proof -
  obtain s1 s2 s' where s1: "verify_and_get_vote_state S a clk signers = Inr s1"
    and s2: "process_vote v hs (clock_epoch clk) (Some active) s1 = Inr s2"
    and opt: "(case vote_timestamp v of
         Some timestamp \<Rightarrow>
           if vote_slots v = [] then Inl (Err (VoteCustom EmptySlots))
           else vote_err (lift_err (process_timestamp (Max (set (vote_slots v))) timestamp s2))
       | None \<Rightarrow> Inr s2) = Inr s'" and h': "holds S a' s'"
    using assms(1) by (auto simp: process_vote_account_def rbind_Inr_iff dest!: written)
  from opt have s': "s' = s2 \<or> (\<exists>m ts. process_timestamp m ts s2 = Inr s')"
    by (auto split: option.splits if_splits)
  obtain s voter where s: "holds S a s" "get_and_update_authorized_voter (clock_epoch clk) s = Inr (voter, s1)"
    "voter \<in> signers"
    using verify_and_get_facts [OF s1] by blast
  have rest: "owners s' = owners s2 \<and> authorized_voters s' = authorized_voters s2 \<and> tower_kept s2 s'"
    using s' process_timestamp_fields by (auto simp: tower_kept_def)
  have "state_ok s' \<and> no_rollback s1 s'" if ok: "state_ok s1"
    using process_vote_keeps [OF s2 ok assms(2)] rest tower_kept_ok [of s2 s']
    by (auto simp: no_rollback_def tower_kept_def respected_def)
  then have "votes_step signers clk s s'"
    using s(2,3) rest process_vote_fields [OF s2] get_and_update_fields(1) [OF s(2)]
    by (auto simp: votes_step_def)
  then show ?thesis using s(1) h' by blast
qed

lemma update_shape:
  assumes "process_vote_state_update S hs clk u signers active a = Inr a'" and "history_ok hs"
  shows "\<exists>s s'. holds S a s \<and> holds S a' s' \<and> votes_step signers clk s s'"
proof -
  obtain s1 u' s' where s1: "verify_and_get_vote_state S a clk signers = Inr s1"
    and u': "check_update_vote_state_slots_are_valid u hs s1 = Inr u'"
    and s': "process_new_vote_state (upd_lockouts u') (upd_root u') (upd_timestamp u') (clock_epoch clk)
        (Some active) s1 = Inr s'" "holds S a' s'"
    using assms(1) by (auto simp: process_vote_state_update_def rbind_Inr_iff dest!: written)
  obtain s voter where s: "holds S a s" "get_and_update_authorized_voter (clock_epoch clk) s = Inr (voter, s1)"
    "voter \<in> signers"
    using verify_and_get_facts [OF s1] by blast
  have "owners s' = owners s1" "authorized_voters s' = authorized_voters s1"
    using process_new_accepted [OF s'(1)] by (simp_all add: owners_def)
  then have "votes_step signers clk s s'"
    using s(2,3) get_and_update_fields(1) [OF s(2)] process_update_keeps [OF u' s'(1) _ assms(2)]
    by (auto simp: votes_step_def)
  then show ?thesis using s(1) s'(2) by blast
qed

lemma withdraw_effect:
  assumes "withdraw S vote_i l to_i signers minimum clk active t = Inr t'"
  obtains f g s where "index t vote_i = Some f" and "index t to_i = Some g" and "holds S (acct t f) s"
    and "authorized_withdrawer s \<in> signers"
    and "l \<le> get_lamports S (acct t f)"
    and "\<forall>k. unat (get_lamports S (acct t' k)) + (if k = f then unat l else 0)
          = unat (get_lamports S (acct t k)) + (if k = g then unat l else 0)"
    and "(\<Sum>k<n. unat (get_lamports S (acct t' k))) = (\<Sum>k<n. unat (get_lamports S (acct t k)))"
    and "if get_lamports S (acct t f) = l
       then holds S (acct t' f) default_vote_state \<and> \<not> reject_active_close clk s
       else holds S (acct t' f) s
          \<and> (\<forall>m. minimum = Some m \<longrightarrow> m (get_data_len S (acct t f)) \<le> get_lamports S (acct t f) - l)"
    and "\<And>k. k \<noteq> f \<Longrightarrow> get_state S (acct t' k) = get_state S (acct t k)" and "index t' = index t"
proof -
  let ?lam = "\<lambda>a. unat (get_lamports S a)"
  obtain a v a1 a2 b b1 where b: "try_borrow S t vote_i = Inr a" and v: "get_state S a = Inr v"
    and signed: "authorized_withdrawer (convert_to_current v) \<in> signers" and le: "l \<le> get_lamports S a"
    and mid: "(if get_lamports S a - l = 0 then
              (if reject_active_close clk (convert_to_current v) then Inl (Err InvalidAccountData)
               else lift_err (set_state S active (Current default_vote_state) a))
            else
              (case minimum of
                 Some m \<Rightarrow> if get_lamports S a - l < m (get_data_len S a) then Inl (Err InsufficientFunds) else Inr a
               | None \<Rightarrow> Inr a)) = Inr a1"
    and sub: "checked_sub_lamports S active l a1 = Inr a2"
    and to: "try_borrow S (release S vote_i a2 t) to_i = Inr b" and add: "checked_add_lamports S active l b = Inr b1"
    and t': "t' = release S to_i b1 (release S vote_i a2 t)"
    using assms by (auto simp: withdraw_def rbind_Inr_iff Let_def ok_or_Inr_iff checked_sub_SomeD)
  obtain f where f: "index t vote_i = Some f" "f < n" "acct t f = a"
    using borrow_facts [OF b] by blast
  have rel: "acct (release S vote_i a2 t) = (acct t)(f := a2)" "index (release S vote_i a2 t) = index t"
    using release_facts [OF f(1)] by auto
  obtain g where g: "index t to_i = Some g" "g < n" "((acct t)(f := a2)) g = b"
    using borrow_facts [OF to] rel by auto
  have acct': "acct t' = (acct t)(f := a2, g := b1)"
    using release_facts [of "release S vote_i a2 t" to_i g b1] rel g(1) t' by simp
  have a1: "get_lamports S a1 = get_lamports S a
      \<and> (if get_lamports S a = l
         then get_state S a1 = Inr (Current default_vote_state) \<and> \<not> reject_active_close clk (convert_to_current v)
         else get_state S a1 = Inr v
           \<and> (\<forall>m. minimum = Some m \<longrightarrow> m (get_data_len S a) \<le> get_lamports S a - l))"
    using mid v set_facts [of active "Current default_vote_state" a a1]
    by (auto split: if_splits option.splits)
  have a2: "?lam a2 + unat l = ?lam a" "get_state S a2 = get_state S a1"
    using sub_facts [OF sub] a1 le by (auto simp: unat_sub_nowrap word_le_nat_alt)
  have b1: "?lam b1 = ?lam b + unat l" "get_state S b1 = get_state S b"
    using add_facts [OF add] by (auto simp: unat_add_nowrap)
  have moved: "?lam (acct t' k) + (if k = f then unat l else 0) = ?lam (acct t k) + (if k = g then unat l else 0)" for k
    using a2(1) b1(1) g(3) f(3) by (auto simp: acct' split: if_splits)
  have "(\<Sum>k<n. ?lam (acct t' k)) + (\<Sum>k<n. if k = f then unat l else 0)
      = (\<Sum>k<n. ?lam (acct t k)) + (\<Sum>k<n. if k = g then unat l else 0)"
    by (simp only: sum.distrib [symmetric] moved)
  then have total: "(\<Sum>k<n. ?lam (acct t' k)) = (\<Sum>k<n. ?lam (acct t k))"
    using f(2) g(2) by simp
  have state: "get_state S (acct t' f) = get_state S a1"
    using a2(2) b1(2) g(3) by (auto simp: acct')
  have after: "if get_lamports S (acct t f) = l
       then holds S (acct t' f) default_vote_state \<and> \<not> reject_active_close clk (convert_to_current v)
       else holds S (acct t' f) (convert_to_current v)
          \<and> (\<forall>m. minimum = Some m \<longrightarrow> m (get_data_len S (acct t f)) \<le> get_lamports S (acct t f) - l)"
    using a1 state f(3) by (auto simp: holds_def)
  have "holds S (acct t f) (convert_to_current v)" using v f(3) by (auto simp: holds_def)
  moreover have "get_state S (acct t' k) = get_state S (acct t k)" if "k \<noteq> f" for k
    using that b1(2) g(3) by (auto simp: acct')
  moreover have "index t' = index t"
    using release_facts [of "release S vote_i a2 t" to_i g b1] rel g(1) t' by simp
  moreover have "l \<le> get_lamports S (acct t f)"
    using le f(3) by simp
  ultimately show ?thesis
    using that [OF f(1) g(1) _ signed _ _ total after] moved by blast
qed


lemma step_shape:
  assumes "vote_step S index signers clk active anew a a'"
  shows "(\<exists>s s'. holds S a s \<and> holds S a' s' \<and> step_kind signers clk active s anew s')
    \<or> get_state S a' = get_state S a \<and> \<not> anew"
  using assms
proof (cases rule: vote_step.cases)
  case (step_authorize k which)
  then obtain v where v: "get_state S a = Inr v"
    by (auto simp: authorize_def rbind_Inr_iff)
  let ?s = "convert_to_current v"
  have h: "holds S a ?s" using v by (auto simp: holds_def)
  show ?thesis
  proof (cases which)
    case Voter
    let ?signed = "if active Vote_withdraw_authority_may_change_authorized_voter
      then is_ok (verify_authorized_signer (authorized_withdrawer ?s) signers) else False"
    let ?verify = "\<lambda>voter. if ?signed then Inr () else verify_authorized_signer voter signers"
    obtain s' where run: "set_new_authorized_voter k (clock_epoch clk) (leader_schedule_epoch clk + 1) ?verify ?s = Inr s'"
      and w: "set_state S active (Current s') a = Inr a'"
      using step_authorize v Voter by (auto simp: authorize_def rbind_Inr_iff Let_def)
    have "step_kind signers clk active ?s False s'"
      by (rule kind_voter [OF run]) (auto simp: is_ok_iff split: if_splits)
    then show ?thesis using h written [OF w] step_authorize(1) by blast
  next
    case Withdrawer
    then have "authorized_withdrawer ?s \<in> signers"
      "set_state S active (Current (?s\<lparr>authorized_withdrawer := k\<rparr>)) a = Inr a'"
      using step_authorize v by (auto simp: authorize_def rbind_Inr_iff Let_def)
    then show ?thesis using h written kind_withdrawer step_authorize(1) by blast
  qed
next
  case (step_identity k)
  then obtain v where "holds S a (convert_to_current v)" "authorized_withdrawer (convert_to_current v) \<in> signers"
    "k \<in> signers" "set_state S active (Current ((convert_to_current v)\<lparr>node_pubkey := k\<rparr>)) a = Inr a'"
    by (auto simp: update_validator_identity_def rbind_Inr_iff Let_def holds_def)
  then show ?thesis using written kind_node step_identity(1) by blast
next
  case (step_commission c)
  then obtain v where "holds S a (convert_to_current v)" "authorized_withdrawer (convert_to_current v) \<in> signers"
    "set_state S active (Current ((convert_to_current v)\<lparr>commission := c\<rparr>)) a = Inr a'"
    by (auto simp: update_commission_def rbind_Inr_iff Let_def holds_def)
  then show ?thesis using written kind_commission step_commission(1) by blast
next
  case (step_vote hs v)
  then show ?thesis using vote_shape kind_votes step_vote(1) by blast
next
  case (step_update hs u)
  then show ?thesis using update_shape kind_votes step_update(1) by blast
next
  case (step_initialize vi)
  then obtain v where "get_state S a = Inr v" "is_uninitialized v" "init_node vi \<in> signers"
    "set_state S active (Current (new_vote_state vi clk)) a = Inr a'"
    by (auto simp: initialize_account_def rbind_Inr_iff split: if_splits)
  then show ?thesis using written kind_initial step_initialize(1) by (force simp: holds_def)
next
  case (step_withdraw vote_i l to_i minimum close_clk t t' j)
  obtain f g s where f: "index t vote_i = Some f" "holds S (acct t f) s" "authorized_withdrawer s \<in> signers"
    and after: "if get_lamports S (acct t f) = l
       then holds S (acct t' f) default_vote_state \<and> \<not> reject_active_close close_clk s
       else holds S (acct t' f) s
          \<and> (\<forall>m. minimum = Some m \<longrightarrow> m (get_data_len S (acct t f)) \<le> get_lamports S (acct t f) - l)"
    and others: "\<And>k. k \<noteq> f \<Longrightarrow> get_state S (acct t' k) = get_state S (acct t k)" and i: "index t' = index t"
    by (rule withdraw_effect [OF step_withdraw(2)]) (rule that; assumption)
  obtain k where k: "index t j = Some k" "acct t k = a" "acct t' k = a'"
    using borrow_facts [OF step_withdraw(3)] borrow_facts [OF step_withdraw(4)] i by auto
  show ?thesis
  proof (cases "k = f")
    case True
    have anew: "anew \<longleftrightarrow> get_lamports S a = l"
      unfolding step_withdraw(1) k(1) f(1) True by simp
    have a: "acct t f = a" "acct t' f = a'"
      using k(2,3) unfolding True by simp_all
    have "holds S a s" "holds S a' (if anew then default_vote_state else s)"
      using f(2) after unfolding a anew by (simp_all split: if_splits)
    moreover have "step_kind signers clk active s anew (if anew then default_vote_state else s)"
      using kind_blank [OF f(3)] kind_same by (cases anew) simp_all
    ultimately show ?thesis
      by metis
  next
    case False
    then show ?thesis
      using others [OF False] k f(1) step_withdraw(1) by simp
  qed
qed

lemma step_from:
  assumes "vote_step S index signers clk active anew a a'" and "holds S a s"
  obtains s' where "holds S a' s'" and "step_kind signers clk active s anew s'"
  using step_shape [OF assms(1)]
proof
  assume "\<exists>s s'. holds S a s \<and> holds S a' s' \<and> step_kind signers clk active s anew s'"
  then show thesis using that holds_unique [OF assms(2)] by blast
next
  assume "get_state S a' = get_state S a \<and> \<not> anew"
  then show thesis using that [of s] assms(2) kind_same by (cases anew) (auto simp: holds_def)
qed

lemma step_keeps:
  assumes "vote_step S index signers clk active anew a a'" and "holds S a s" and "state_ok s"
  shows "\<exists>s'. holds S a' s' \<and> state_ok s' \<and> (\<not> anew \<longrightarrow> no_rollback s s')"
proof -
  obtain s' where s': "holds S a' s'" "step_kind signers clk active s anew s'"
    using step_from [OF assms(1,2)] .
  from s'(2) have "state_ok s' \<and> (\<not> anew \<longrightarrow> no_rollback s s')"
  proof cases
    case kind_votes
    then obtain voter s1 where g: "get_and_update_authorized_voter (clock_epoch clk) s = Inr (voter, s1)"
      and keep: "state_ok s1 \<longrightarrow> state_ok s' \<and> no_rollback s1 s'"
      by (auto simp: votes_step_def)
    have k: "tower_kept s s1" using get_and_update_tower [OF g] .
    then show ?thesis using keep tower_kept_ok [OF k assms(3)] no_rollback_kept [OF k] by blast
  next
    case (kind_voter k verify)
    then show ?thesis using tower_kept_ok [OF set_voter_tower assms(3)] by blast
  qed (use tower_kept_ok [OF _ assms(3)] fresh_states_ok in \<open>simp_all add: tower_kept_def\<close>)
  then show ?thesis using s'(1) by blast
qed

lemma run_keeps:
  assumes "vote_run S index anew a a'" and "holds S a s" and "state_ok s"
  shows "\<exists>s'. holds S a' s' \<and> state_ok s' \<and> (\<not> anew \<longrightarrow> no_rollback s s')"
  using assms
proof (induction rule: vote_run.induct)
  case (run_step anew a b signers clk active fresh c)
  then obtain s1 where s1: "holds S b s1" "state_ok s1" "\<not> anew \<longrightarrow> no_rollback s s1" by blast
  then obtain s2 where "holds S c s2" "state_ok s2" "\<not> fresh \<longrightarrow> no_rollback s1 s2"
    using step_keeps [OF run_step.hyps(2)] by blast
  then show ?case
    using no_rollback_trans [of s s1 s2] s1 run_step.prems(2) by (auto simp: state_ok_def)
qed (use no_rollback_refl in blast)

text \<open>Only the withdrawer takes lamports from an account.\<close>

lemma step_debit:
  assumes "vote_step S index signers clk active anew a a'" and "holds S a s"
    and "get_lamports S a' < get_lamports S a"
  shows "authorized_withdrawer s \<in> signers"
proof -
  have same: "get_lamports S b' = get_lamports S b" if "set_state S f v b = Inr b'" for f v b b'
    using set_facts [OF that] by simp
  from assms(1) show ?thesis
  proof (cases rule: vote_step.cases)
    case (step_withdraw vote_i l to_i minimum close_clk t t' j)
    obtain f g s0 where f: "index t vote_i = Some f" "holds S (acct t f) s0" "authorized_withdrawer s0 \<in> signers"
      and moved: "\<forall>k. unat (get_lamports S (acct t' k)) + (if k = f then unat l else 0)
          = unat (get_lamports S (acct t k)) + (if k = g then unat l else 0)"
      and i: "index t' = index t"
      by (rule withdraw_effect [OF step_withdraw(2)]) (rule that; assumption)
    obtain k where k: "index t j = Some k" "acct t k = a" "acct t' k = a'"
      using borrow_facts [OF step_withdraw(3)] borrow_facts [OF step_withdraw(4)] i by auto
    have "k = f"
      using moved [rule_format, of k] k assms(3) by (auto simp: word_less_nat_alt split: if_splits)
    then show ?thesis using f k holds_unique [OF assms(2)] by auto
  qed (use assms(3) same in \<open>auto simp: initialize_account_def authorize_def update_validator_identity_def
      update_commission_def process_vote_account_def process_vote_state_update_def rbind_Inr_iff Let_def
      dest!: same split: if_splits\<close>)
qed

end

text \<open>What each kind of step needs.\<close>

definition voter_signed :: "pubkey set \<Rightarrow> clock \<Rightarrow> vote_state \<Rightarrow> bool" where
  "voter_signed signers clk s \<longleftrightarrow>
     (\<exists>voter. get_authorized_voter (clock_epoch clk) (authorized_voters s) = Some voter \<and> voter \<in> signers)"

definition step_signed :: "pubkey set \<Rightarrow> clock \<Rightarrow> features \<Rightarrow> vote_state \<Rightarrow> vote_state \<Rightarrow> bool" where
  "step_signed signers clk active s s' \<longleftrightarrow>
     (node_pubkey s' \<noteq> node_pubkey s \<longrightarrow> authorized_withdrawer s \<in> signers \<and> node_pubkey s' \<in> signers)
   \<and> (commission s' \<noteq> commission s \<or> authorized_withdrawer s' \<noteq> authorized_withdrawer s \<longrightarrow>
        authorized_withdrawer s \<in> signers)
   \<and> (ballot s' \<noteq> ballot s \<longrightarrow> voter_signed signers clk s)
   \<and> ((\<exists>e. clock_epoch clk \<le> e \<and>
           get_authorized_voter e (authorized_voters s') \<noteq> get_authorized_voter e (authorized_voters s)) \<longrightarrow>
        voter_signed signers clk s
        \<or> active Vote_withdraw_authority_may_change_authorized_voter \<and> authorized_withdrawer s \<in> signers)"

text \<open>A state that starts anew: blank by the withdrawer, or initialised where there was none.\<close>

definition started_anew :: "pubkey set \<Rightarrow> clock \<Rightarrow> vote_state \<Rightarrow> vote_state \<Rightarrow> bool" where
  "started_anew signers clk s s' \<longleftrightarrow>
     authorized_withdrawer s \<in> signers \<and> s' = default_vote_state
   \<or> (\<exists>v vi. is_uninitialized v \<and> convert_to_current v = s \<and> init_node vi \<in> signers
        \<and> s' = new_vote_state vi clk)"

lemma kind_signed:
  assumes "step_kind signers clk active s anew s'" and ok: "voters_ok (authorized_voters s)"
  shows "(if anew then started_anew signers clk s s' else step_signed signers clk active s s')
    \<and> voters_ok (authorized_voters s')"
  using assms(1)
proof cases
  case kind_votes
  then obtain voter s1 where g: "get_and_update_authorized_voter (clock_epoch clk) s = Inr (voter, s1)"
    and signed: "voter \<in> signers" and same: "owners s' = owners s" "authorized_voters s' = authorized_voters s1"
    by (auto simp: votes_step_def)
  have "voter_signed signers clk s"
    using get_and_update_fields(2) [OF g ok] signed by (auto simp: voter_signed_def)
  moreover have "voters_ok (authorized_voters s')"
    using g voters_after_update(2) [OF ok _ order_refl] same(2) by (auto simp: get_and_update_eq [OF ok] split: option.splits)
  ultimately show ?thesis
    using same(1) kind_votes by (simp add: step_signed_def owners_def)
next
  case (kind_voter k verify)
  obtain voter s1 where g: "get_and_update_authorized_voter (clock_epoch clk) s = Inr (voter, s1)"
    and v: "verify voter = Inr ()"
    using set_voter_split [OF kind_voter(2)] by metis
  have "voter_signed signers clk s
      \<or> active Vote_withdraw_authority_may_change_authorized_voter \<and> authorized_withdrawer s \<in> signers"
    using get_and_update_fields(2) [OF g ok] kind_voter(3) [OF v] by (auto simp: voter_signed_def)
  then show ?thesis
    using set_voter_fields [OF kind_voter(2)] kind_voter(1) set_voter_in_order [OF kind_voter(2) ok]
    by (simp add: step_signed_def owners_def)
qed (use ok fresh_states_ok in \<open>auto simp: step_signed_def ballot_def started_anew_def\<close>)

section \<open>Concrete accounts\<close>

text \<open>Accounts as pairs of a balance and a versioned state, a context as the list of its accounts.\<close>

definition sample_vote_sdk :: "((u64 \<times> vote_state_versions) list, u64 \<times> vote_state_versions) vote_sdk" where
  "sample_vote_sdk =
     \<lparr>get_state = (\<lambda>a. Inr (snd a)), set_state = (\<lambda>f v a. Inr (fst a, v)), get_lamports = fst,
      get_data_len = (\<lambda>a. VOTE_STATE_SIZE),
      checked_sub_lamports = (\<lambda>f l a. if l \<le> fst a then Inr (fst a - l, snd a) else Inl InsufficientFunds),
      checked_add_lamports = (\<lambda>f l a. if unat (fst a) + unat l < 2 ^ 64 then Inr (fst a + l, snd a)
         else Inl (VoteSdkError 1)),
      try_borrow = (\<lambda>t i. if i < length t \<and> i < 2 then Inr (t ! i) else Inl (VoteSdkError 0)),
      release = (\<lambda>i a t. t[i := a])\<rparr>"

definition sample_index :: "(u64 \<times> vote_state_versions) list \<Rightarrow> nat \<Rightarrow> nat option" where
  "sample_index t i = (if i < length t \<and> i < 2 then Some i else None)"

lemmas sample_vote_simps = sample_vote_sdk_def sample_index_def

interpretation sample_votes: vote_accounts sample_vote_sdk sample_index nth 2
  by unfold_locales (auto simp: sample_vote_simps fun_eq_iff nth_list_update split: if_splits)

text \<open>The state with one voter, and its account after a vote on slot 4.\<close>

lemma one_voter_ok: "state_ok one_voter" "voters_ok (authorized_voters one_voter)"
  by (simp_all add: state_ok_def root_below_def one_voter_def default_vote_state_def voters_ok_def)

definition clock_3 :: clock where "clock_3 = \<lparr>clock_epoch = 3, leader_schedule_epoch = 4\<rparr>"

lemma sample_set: "set_state sample_vote_sdk f v a = Inr (fst a, v)"
  by (simp add: sample_vote_sdk_def)

lemma clock_3_epoch: "clock_epoch clock_3 = 3"
  by (simp add: clock_3_def)

lemma new_vote_timestamp: "vote_timestamp (new_vote slots h) = None"
  by (simp add: new_vote_def)

lemma one_voter_votes:
  "\<exists>a'. process_vote_account sample_vote_sdk [(4, 9)] clock_3 (new_vote [4] 9) {7} (\<lambda>_. False)
      (100, Current one_voter) = Inr a' \<and> a' \<noteq> (100, Current one_voter)"
proof -
  have at: "get_authorized_voter 3 (authorized_voters one_voter) = Some 7"
    by (simp add: one_voter_def voter_at voters_ok_def last_of_def)
  let ?s = "one_voter\<lparr>authorized_voters := [(3, 7)]\<rparr>"
  have v: "verify_and_get_vote_state sample_vote_sdk (100, Current one_voter) clock_3 {7} = Inr ?s"
    using at by (simp add: verify_and_get_vote_state_def sample_vote_sdk_def clock_3_def
        get_and_update_eq [OF one_voter_ok(2)] verify_authorized_signer_def) (simp add: one_voter_def)
  have "process_vote (new_vote [4] 9) [(4, 9)] 3 (Some (\<lambda>_. False)) ?s = Inr (process_next_vote_slot 4 3 ?s)"
    by (simp add: process_vote_def new_vote_def filtered_vote_slots_def check_slots_are_valid_def slots_loop.simps
        slots_running_def slots_step_def last_voted_slot_eq one_voter_def default_vote_state_def)
  then have "process_vote_account sample_vote_sdk [(4, 9)] clock_3 (new_vote [4] 9) {7} (\<lambda>_. False)
      (100, Current one_voter) = Inr (100, Current (process_next_vote_slot 4 3 ?s))"
    using v by (simp add: process_vote_account_def sample_set clock_3_epoch new_vote_timestamp vote_err_def)
  moreover have "votes (process_next_vote_slot 4 3 ?s) \<noteq> []"
    by (simp add: process_next_vote_slot_def one_voter_def default_vote_state_def last_voted_slot_eq
        pop_expired_votes_def double_lockouts_def Let_def)
  then have "process_next_vote_slot 4 3 ?s \<noteq> one_voter"
    by (auto simp: one_voter_def default_vote_state_def)
  ultimately show ?thesis by auto
qed

lemma one_voter_step:
  "\<exists>a'. vote_step sample_vote_sdk sample_index {7} clock_3 (\<lambda>_. False) False (100, Current one_voter) a'
     \<and> a' \<noteq> (100, Current one_voter)"
  using one_voter_votes step_vote [of "[(4, 9)]" sample_vote_sdk clock_3] by (fastforce simp: history_ok_def)

text \<open>The withdrawer, key 8, takes everything.\<close>

lemma one_voter_closes:
  "vote_step sample_vote_sdk sample_index {8} clock_3 (\<lambda>_. False) True (100, Current one_voter)
     (0, Current default_vote_state)"
proof -
  let ?t = "[(100, Current one_voter), (5, Current default_vote_state)] :: (u64 \<times> vote_state_versions) list"
  have run: "withdraw sample_vote_sdk 0 100 1 {8} None (Some clock_3) (\<lambda>_. False) ?t
      = Inr [(0, Current default_vote_state), (105, Current default_vote_state)]"
    by (simp add: withdraw_def sample_vote_sdk_def verify_authorized_signer_def one_voter_def default_vote_state_def
        checked_sub_def word_le_nat_alt Let_def reject_active_close_def last_of_def)
  show ?thesis
    using step_withdraw [OF run, of 0 "(100, Current one_voter)" "(0, Current default_vote_state)"
        sample_index clock_3]
    by (simp add: sample_vote_sdk_def)
qed

lemma sample_holds: "holds sample_vote_sdk (l, Current s) s"
  by (simp add: holds_def sample_vote_sdk_def)

section \<open>Results\<close>

text \<open>
  C20. Over any run of successful operations as an account sees them (initialisation, votes, proposed
  towers, changes of authorities, identity and commission, and withdrawals, from it or elsewhere), in
  any order and by any signers, starting from an ordered tower and with slot histories below \<open>2^63\<close>,
  the tower stays ordered with lockouts that double towards the front and a root below.  Unless the
  run starts the state anew, by an initialisation or by a withdrawal of everything, which blank the
  tower, the root never moves back and no vote is forgotten unless the root has reached it or the
  tower holds a vote beyond its lockout.
\<close>

theorem tower_never_rolls_back:
  assumes "vote_accounts S index acct n" and "vote_run S index anew a a'" and "holds S a s" and "state_ok s"
  shows "\<exists>s'. holds S a' s' \<and> state_ok s' \<and> (\<not> anew \<longrightarrow> no_rollback s s')"
  by (rule vote_accounts.run_keeps [OF assms])

theorem tower_never_rolls_back_witness:
  "\<exists>a' s'. vote_run sample_vote_sdk sample_index False (100, Current one_voter) a' \<and> a' \<noteq> (100, Current one_voter)
     \<and> holds sample_vote_sdk a' s' \<and> state_ok s' \<and> no_rollback one_voter s'"
proof -
  obtain a' where step: "vote_step sample_vote_sdk sample_index {7} clock_3 (\<lambda>_. False) False (100, Current one_voter) a'"
    and ne: "a' \<noteq> (100, Current one_voter)"
    using one_voter_step by blast
  have run: "vote_run sample_vote_sdk sample_index False (100, Current one_voter) a'"
    using run_step [OF run_refl step] by simp
  show ?thesis
    using tower_never_rolls_back [OF sample_votes.vote_accounts_axioms run sample_holds one_voter_ok(1)] run ne
    by blast
qed

text \<open>
  C21. What changes needs a signature.  In a successful operation that does not start the state anew,
  a new identity of the validator needs that of the withdrawer and of the identity itself, the
  commission and the withdrawer that of the withdrawer, the votes, root, credits and timestamp that
  of the voter of the epoch, and the voter of the present or a later epoch that of the present one,
  or of the withdrawer with the feature.  The state starts anew only as the blank one, when the
  withdrawer signed to take everything, or as that of an initialisation signed by the new identity,
  where the account was uninitialised.  Lamports leave the account only with the withdrawer's
  signature.  The map of voters has to be in order, and stays so.
\<close>

theorem vote_changes_authorised:
  assumes "vote_accounts S index acct n" and "vote_step S index signers clk active anew a a'" and "holds S a s"
    and "voters_ok (authorized_voters s)"
  shows "(\<exists>s'. holds S a' s' \<and> voters_ok (authorized_voters s')
      \<and> (if anew then started_anew signers clk s s' else step_signed signers clk active s s'))
    \<and> (get_lamports S a' < get_lamports S a \<longrightarrow> authorized_withdrawer s \<in> signers)"
proof -
  obtain s' where "holds S a' s'" "step_kind signers clk active s anew s'"
    using vote_accounts.step_from [OF assms(1-3)] by blast
  then show ?thesis
    using kind_signed assms(4) vote_accounts.step_debit [OF assms(1-3)] by blast
qed

theorem vote_changes_authorised_witness:
  "\<exists>a' s'. vote_step sample_vote_sdk sample_index {7} clock_3 (\<lambda>_. False) False (100, Current one_voter) a'
     \<and> a' \<noteq> (100, Current one_voter) \<and> holds sample_vote_sdk a' s'
     \<and> step_signed {7} clock_3 (\<lambda>_. False) one_voter s'
   \<and> started_anew {8} clock_3 one_voter default_vote_state"
proof -
  obtain a' where step: "vote_step sample_vote_sdk sample_index {7} clock_3 (\<lambda>_. False) False (100, Current one_voter) a'"
    and ne: "a' \<noteq> (100, Current one_voter)"
    using one_voter_step by blast
  have "started_anew {8} clock_3 one_voter default_vote_state"
    using vote_changes_authorised [OF sample_votes.vote_accounts_axioms one_voter_closes sample_holds one_voter_ok(2)]
      holds_unique [OF sample_holds] by auto
  moreover have "\<exists>s'. holds sample_vote_sdk a' s' \<and> step_signed {7} clock_3 (\<lambda>_. False) one_voter s'"
    using vote_changes_authorised [OF sample_votes.vote_accounts_axioms step sample_holds one_voter_ok(2)] by auto
  ultimately show ?thesis
    using step ne by blast
qed

text \<open>
  A withdrawal is signed by the withdrawer, moves exactly its amount to the named account,
  leaves the sum of the balances alone, and either leaves at least the rent-exempt minimum with
  the state untouched, or takes everything, which needs an account without recent credits and
  leaves it blank.
\<close>

theorem withdrawal_leaves_rent:
  assumes "vote_accounts S index acct n"
    and "withdraw S vote_i l to_i signers minimum clk active t = Inr t'"
  shows "\<exists>f g s. index t vote_i = Some f \<and> index t to_i = Some g \<and> holds S (acct t f) s
    \<and> authorized_withdrawer s \<in> signers
    \<and> l \<le> get_lamports S (acct t f)
    \<and> (\<forall>k. unat (get_lamports S (acct t' k)) + (if k = f then unat l else 0)
          = unat (get_lamports S (acct t k)) + (if k = g then unat l else 0))
    \<and> (\<Sum>k<n. unat (get_lamports S (acct t' k))) = (\<Sum>k<n. unat (get_lamports S (acct t k)))
    \<and> (if get_lamports S (acct t f) = l
       then holds S (acct t' f) default_vote_state \<and> \<not> reject_active_close clk s
       else holds S (acct t' f) s
          \<and> (\<forall>m. minimum = Some m \<longrightarrow> m (get_data_len S (acct t f)) \<le> get_lamports S (acct t f) - l))"
  by (rule vote_accounts.withdraw_effect [OF assms]) blast

theorem withdrawal_leaves_rent_witness:
  "\<exists>t'. withdraw sample_vote_sdk 0 60 1 {8} (Some (\<lambda>_. 40)) None (\<lambda>_. False)
       [(100, Current one_voter), (5, Current default_vote_state)] = Inr t'
     \<and> (\<Sum>k<2. unat (fst (t' ! k))) = 105"
proof -
  let ?t = "[(100, Current one_voter), (5, Current default_vote_state)] :: (u64 \<times> vote_state_versions) list"
  have "withdraw sample_vote_sdk 0 60 1 {8} (Some (\<lambda>_. 40)) None (\<lambda>_. False) ?t
      = Inr [(40, Current one_voter), (65, Current default_vote_state)]"
    by (simp add: withdraw_def sample_vote_sdk_def verify_authorized_signer_def one_voter_def default_vote_state_def
        checked_sub_def word_le_nat_alt Let_def)
  then obtain t' where t': "withdraw sample_vote_sdk 0 60 1 {8} (Some (\<lambda>_. 40)) None (\<lambda>_. False) ?t = Inr t'"
    by blast
  have "(\<Sum>k<2. unat (get_lamports sample_vote_sdk (t' ! k))) = (\<Sum>k<2. unat (get_lamports sample_vote_sdk (?t ! k)))"
    using withdrawal_leaves_rent [OF sample_votes.vote_accounts_axioms t'] by blast
  moreover have "{..<2 :: nat} = {0, 1}" by auto
  ultimately show ?thesis
    using t' by (simp add: sample_vote_sdk_def)
qed

end
