(* ===== verification/Vote_Client.thy ===== *)
theory Vote_Client
  imports Vote_Safety Client_Instruction
begin

text \<open>
  The builders of \<open>program/vote/vote_instruction.rs\<close>.  The bincode encoding of the instruction,
  the System program's instructions and the addresses of the sysvars belong to the SDK; they
  are the fields of \<open>vote_client\<close>.  The lemmas say who has to sign each instruction, and that
  those signatures are the ones the handlers ask for.
\<close>

section \<open>Instructions\<close>

datatype vote_instruction =
    InitializeAccount vote_init
  | Authorize pubkey vote_authorize
  | Vote vote
  | Withdraw u64
  | UpdateValidatorIdentity
  | UpdateCommission u8
  | VoteSwitch vote vote_hash
  | AuthorizeChecked vote_authorize
  | UpdateVoteState vote_state_update
  | UpdateVoteStateSwitch vote_state_update vote_hash

record vote_client =
  vote_program :: pubkey
  rent_id :: pubkey
  clock_id :: pubkey
  slot_hashes_id :: pubkey
  encode_vote_instruction :: "vote_instruction \<Rightarrow> bytes"
  system_create_account :: "pubkey \<Rightarrow> pubkey \<Rightarrow> u64 \<Rightarrow> u64 \<Rightarrow> pubkey \<Rightarrow> client_instruction"
  system_create_account_with_seed ::
    "pubkey \<Rightarrow> pubkey \<Rightarrow> pubkey \<Rightarrow> string \<Rightarrow> u64 \<Rightarrow> u64 \<Rightarrow> pubkey \<Rightarrow> client_instruction"

text \<open>\<open>Instruction::new_with_bincode\<close>.\<close>

definition vote_ix :: "vote_client \<Rightarrow> vote_instruction \<Rightarrow> account_meta list \<Rightarrow> client_instruction" where
  "vote_ix C i metas =
     \<lparr>ix_program_id = vote_program C, ix_accounts = metas, ix_data = encode_vote_instruction C i\<rparr>"

section \<open>Builders\<close>

definition vote_initialize_account_ix ::
  "vote_client \<Rightarrow> pubkey \<Rightarrow> vote_init \<Rightarrow> client_instruction" where
  "vote_initialize_account_ix C vote_key vi =
     vote_ix C (InitializeAccount vi)
       [writable vote_key False, readonly (rent_id C) False,
        readonly (clock_id C) False, readonly (init_node vi) True]"

definition vote_authorize_ix ::
  "vote_client \<Rightarrow> pubkey \<Rightarrow> pubkey \<Rightarrow> pubkey \<Rightarrow> vote_authorize \<Rightarrow> client_instruction" where
  "vote_authorize_ix C vote_key authorized new_authorized which =
     vote_ix C (Authorize new_authorized which)
       [writable vote_key False, readonly (clock_id C) False, readonly authorized True]"

definition vote_authorize_checked_ix ::
  "vote_client \<Rightarrow> pubkey \<Rightarrow> pubkey \<Rightarrow> pubkey \<Rightarrow> vote_authorize \<Rightarrow> client_instruction" where
  "vote_authorize_checked_ix C vote_key authorized new_authorized which =
     vote_ix C (AuthorizeChecked which)
       [writable vote_key False, readonly (clock_id C) False,
        readonly authorized True, readonly new_authorized True]"

definition vote_update_validator_identity_ix ::
  "vote_client \<Rightarrow> pubkey \<Rightarrow> pubkey \<Rightarrow> pubkey \<Rightarrow> client_instruction" where
  "vote_update_validator_identity_ix C vote_key withdrawer node =
     vote_ix C UpdateValidatorIdentity
       [writable vote_key False, readonly node True, readonly withdrawer True]"

definition vote_update_commission_ix ::
  "vote_client \<Rightarrow> pubkey \<Rightarrow> pubkey \<Rightarrow> u8 \<Rightarrow> client_instruction" where
  "vote_update_commission_ix C vote_key withdrawer c =
     vote_ix C (UpdateCommission c)
       [writable vote_key False, readonly withdrawer True]"

definition vote_vote_ix ::
  "vote_client \<Rightarrow> pubkey \<Rightarrow> pubkey \<Rightarrow> vote \<Rightarrow> client_instruction" where
  "vote_vote_ix C vote_key voter v =
     vote_ix C (Vote v)
       [writable vote_key False, readonly (slot_hashes_id C) False,
        readonly (clock_id C) False, readonly voter True]"

definition vote_vote_switch_ix ::
  "vote_client \<Rightarrow> pubkey \<Rightarrow> pubkey \<Rightarrow> vote \<Rightarrow> vote_hash \<Rightarrow> client_instruction" where
  "vote_vote_switch_ix C vote_key voter v proof_hash =
     vote_ix C (VoteSwitch v proof_hash)
       [writable vote_key False, readonly (slot_hashes_id C) False,
        readonly (clock_id C) False, readonly voter True]"

definition vote_update_vote_state_ix ::
  "vote_client \<Rightarrow> pubkey \<Rightarrow> pubkey \<Rightarrow> vote_state_update \<Rightarrow> client_instruction" where
  "vote_update_vote_state_ix C vote_key voter u =
     vote_ix C (UpdateVoteState u)
       [writable vote_key False, readonly voter True]"

definition vote_update_vote_state_switch_ix ::
  "vote_client \<Rightarrow> pubkey \<Rightarrow> pubkey \<Rightarrow> vote_state_update \<Rightarrow> vote_hash \<Rightarrow> client_instruction" where
  "vote_update_vote_state_switch_ix C vote_key voter u proof_hash =
     vote_ix C (UpdateVoteStateSwitch u proof_hash)
       [writable vote_key False, readonly voter True]"

definition vote_withdraw_ix ::
  "vote_client \<Rightarrow> pubkey \<Rightarrow> pubkey \<Rightarrow> u64 \<Rightarrow> pubkey \<Rightarrow> client_instruction" where
  "vote_withdraw_ix C vote_key withdrawer lamports to_key =
     vote_ix C (Withdraw lamports)
       [writable vote_key False, writable to_key False, readonly withdrawer True]"

definition vote_create_account_ix ::
  "vote_client \<Rightarrow> pubkey \<Rightarrow> pubkey \<Rightarrow> vote_init \<Rightarrow> u64 \<Rightarrow> client_instruction list" where
  "vote_create_account_ix C from_key vote_key vi lamports =
     [system_create_account C from_key vote_key lamports (of_nat VOTE_STATE_SIZE) (vote_program C),
      vote_initialize_account_ix C vote_key vi]"

definition vote_create_account_with_seed_ix ::
  "vote_client \<Rightarrow> pubkey \<Rightarrow> pubkey \<Rightarrow> pubkey \<Rightarrow> string \<Rightarrow> vote_init \<Rightarrow> u64
     \<Rightarrow> client_instruction list" where
  "vote_create_account_with_seed_ix C from_key vote_key base seed vi lamports =
     [system_create_account_with_seed C from_key vote_key base seed lamports (of_nat VOTE_STATE_SIZE)
        (vote_program C),
      vote_initialize_account_ix C vote_key vi]"

section \<open>Signers\<close>

lemmas vote_builders =
  vote_initialize_account_ix_def vote_authorize_ix_def vote_authorize_checked_ix_def
  vote_update_validator_identity_ix_def vote_update_commission_ix_def vote_vote_ix_def vote_vote_switch_ix_def
  vote_update_vote_state_ix_def vote_update_vote_state_switch_ix_def vote_withdraw_ix_def vote_ix_def

lemma vote_signers:
  "required_signers (vote_initialize_account_ix C k vi) = {init_node vi}"
  "required_signers (vote_authorize_ix C k authorized new which) = {authorized}"
  "required_signers (vote_authorize_checked_ix C k authorized new which) = {authorized, new}"
  "required_signers (vote_update_validator_identity_ix C k withdrawer node) = {node, withdrawer}"
  "required_signers (vote_update_commission_ix C k withdrawer c) = {withdrawer}"
  "required_signers (vote_vote_ix C k voter v) = {voter}"
  "required_signers (vote_vote_switch_ix C k voter v h) = {voter}"
  "required_signers (vote_update_vote_state_ix C k voter u) = {voter}"
  "required_signers (vote_update_vote_state_switch_ix C k voter u h) = {voter}"
  "required_signers (vote_withdraw_ix C k withdrawer l to_key) = {withdrawer}"
  by (simp_all add: vote_builders)

text \<open>
  The signers a builder asks for pass the check of the handler when the builder was given the
  keys the account names.
\<close>

lemma signed_commission:
  assumes "get_state S a = Inr versioned" and "authorized_withdrawer (convert_to_current versioned) = w"
  shows "update_commission S c (required_signers (vote_update_commission_ix C k w c)) active a
    = lift_err (set_state S active (Current ((convert_to_current versioned)\<lparr>commission := c\<rparr>)) a)"
  using assms by (simp add: update_commission_def vote_signers verify_authorized_signer_def Let_def
      del: required_signers_code)

lemma signed_identity:
  assumes "get_state S a = Inr versioned" and "authorized_withdrawer (convert_to_current versioned) = w"
  shows "update_validator_identity S node (required_signers (vote_update_validator_identity_ix C k w node)) active a
    = lift_err (set_state S active (Current ((convert_to_current versioned)\<lparr>node_pubkey := node\<rparr>)) a)"
  using assms by (simp add: update_validator_identity_def vote_signers verify_authorized_signer_def Let_def
      del: required_signers_code)

lemma signed_initialize:
  assumes "get_data_len S a = VOTE_STATE_SIZE" and "get_state S a = Inr versioned" and "is_uninitialized versioned"
  shows "initialize_account S vi (required_signers (vote_initialize_account_ix C k vi)) clk active a
    = lift_err (set_state S active (Current (new_vote_state vi clk)) a)"
  using assms by (simp add: initialize_account_def vote_signers verify_authorized_signer_def
      del: required_signers_code)

lemma signed_vote:
  assumes "get_state S a = Inr versioned" and "\<not> is_uninitialized versioned"
    and "voters_ok (authorized_voters (convert_to_current versioned))"
    and "get_authorized_voter (clock_epoch clk) (authorized_voters (convert_to_current versioned)) = Some voter"
  shows "\<exists>s. verify_and_get_vote_state S a clk (required_signers (vote_vote_ix C k voter v)) = Inr s
    \<and> tower_kept (convert_to_current versioned) s"
  using assms by (simp add: verify_and_get_vote_state_def get_and_update_eq vote_signers
      verify_authorized_signer_def tower_kept_def del: required_signers_code)

end
