(* ===== verification/Cli_Vote.thy ===== *)
theory Cli_Vote
  imports Cli_Wallet Vote_Client
begin

text \<open>
  The vote commands of \<open>solana-cli/src/commands/vote.rs\<close> that are left in the browser build
  (\<open>parse_vote_authorize\<close>, \<open>process_vote_authorize\<close>, \<open>get_vote_account\<close>), the authority check of
  \<open>stake.rs\<close>, and how \<open>parse_command\<close> of \<open>cli.rs\<close> picks a parser for a subcommand.
\<close>

section \<open>Choosing a parser\<close>

text \<open>The arms of \<open>parse_command\<close>; a name without an arm is \<open>unreachable!()\<close>.\<close>

definition command_parsers :: "(string \<times> string) list" where
  "command_parsers =
     [(''block'', ''parse_get_block''), (''block-height'', ''parse_get_block_height''),
      (''block-production'', ''parse_show_block_production''), (''block-time'', ''parse_get_block_time''),
      (''cluster-date'', ''ClusterDate''), (''cluster-version'', ''ClusterVersion''),
      (''epoch'', ''parse_get_epoch''), (''epoch-info'', ''parse_get_epoch_info''),
      (''feature'', ''parse_feature_subcommand''), (''first-available-block'', ''FirstAvailableBlock''),
      (''genesis-hash'', ''GetGenesisHash''), (''inflation'', ''parse_inflation_subcommand''),
      (''largest-accounts'', ''parse_largest_accounts''), (''rent'', ''Rent''), (''slot'', ''parse_get_slot''),
      (''stakes'', ''parse_show_stakes''), (''supply'', ''parse_supply''), (''total-supply'', ''parse_total_supply''),
      (''transaction-count'', ''parse_get_transaction_count''),
      (''transaction-history'', ''parse_transaction_history''), (''validators'', ''parse_show_validators''),
      (''authorize-nonce-account'', ''parse_authorize_nonce_account''),
      (''create-nonce-account'', ''parse_create_nonce_account''), (''nonce'', ''parse_get_nonce''),
      (''new-nonce'', ''parse_new_nonce''), (''nonce-account'', ''parse_show_nonce_account''),
      (''withdraw-from-nonce-account'', ''parse_withdraw_from_nonce_account''),
      (''program'', ''parse_program_subcommand''), (''stake-account'', ''parse_show_stake_account''),
      (''stake-history'', ''parse_show_stake_history''),
      (''vote-authorize-withdrawer-checked'', ''parse_vote_authorize''),
      (''vote-account'', ''parse_vote_get_account_command''), (''account'', ''parse_account''),
      (''address'', ''Address''), (''airdrop'', ''parse_airdrop''), (''balance'', ''parse_balance''),
      (''confirm'', ''parse_confirm''), (''create-address-with-seed'', ''parse_create_address_with_seed''),
      (''decode-transaction'', ''parse_decode_transaction''), (''transfer'', ''parse_transfer'')]"

text \<open>The subcommands \<open>vote_subcommands\<close> registers with clap.\<close>

definition vote_subcommands :: "string list" where
  "vote_subcommands = [''vote-authorize-withdrawer'', ''vote-account'']"

definition parser_for :: "string \<Rightarrow> unit + string" where
  "parser_for name = (case map_of command_parsers name of None \<Rightarrow> Inl () | Some p \<Rightarrow> Inr p)"

text \<open>The subcommand clap accepts for a new withdrawer is not one \<open>parse_command\<close> knows: it panics.\<close>

lemma authorize_withdrawer_unreachable:
  "''vote-authorize-withdrawer'' \<in> set vote_subcommands \<and> parser_for ''vote-authorize-withdrawer'' = Inl ()"
  by (simp add: vote_subcommands_def parser_for_def command_parsers_def)

section \<open>Parsing\<close>

record vote_authorize_command =
  va_account :: pubkey
  va_new_authority :: pubkey
  va_kind :: vote_authorize
  va_sign_only :: bool
  va_dump_message :: bool
  va_query :: blockhash_query
  va_nonce_account :: "pubkey option"
  va_nonce_authority :: nat
  va_memo :: "string option"
  va_fee_payer :: nat
  va_authorized :: nat
  va_new_signer :: "nat option"

text \<open>The current authority is the default signer; it is not among the bulk signers.\<close>

definition parse_vote_authorize ::
  "('s \<Rightarrow> pubkey) \<Rightarrow> 's matches \<Rightarrow> 's \<Rightarrow> vote_authorize \<Rightarrow> bool
     \<Rightarrow> (vote_authorize_command \<times> 's list, cli_error) res" where
  "parse_vote_authorize key A default_signer kind checked =
     rbind (required_key A ''vote_account_pubkey'') (\<lambda>vote_key.
     rbind (blockhash_query_from_matches A) (\<lambda>query.
     let nonce_key = pubkey_of A ''nonce'' in
     rbind (signer_of key A ''nonce_authority'') (\<lambda>(nonce_authority, nonce_authority_key).
     rbind (signer_of key A ''fee_payer'') (\<lambda>(fee_payer, fee_payer_key).
     rbind (if checked then
              rbind (signer_of key A ''new_authorized'') (\<lambda>(s, k).
              rbind (unwrapped k) (\<lambda>k. Inr ([fee_payer, s], k)))
            else rbind (required_key A ''new_authorized_pubkey'') (\<lambda>k. Inr ([fee_payer], k))) (\<lambda>(bulk, new_key).
     let bulk = bulk @ (if nonce_key \<noteq> None then [nonce_authority] else []);
         signers = generate_unique_signers key default_signer bulk
     in rbind (unwrapped (index_of key signers nonce_authority_key)) (\<lambda>nonce_index.
        rbind (unwrapped (index_of key signers fee_payer_key)) (\<lambda>fee_index.
        rbind (unwrapped (index_of key signers (Some (key default_signer)))) (\<lambda>auth_index.
        Inr (\<lparr>va_account = vote_key, va_new_authority = new_key, va_kind = kind,
              va_sign_only = arg_present A ''sign_only'', va_dump_message = arg_present A ''dump_transaction_message'',
              va_query = query, va_nonce_account = nonce_key, va_nonce_authority = nonce_index,
              va_memo = arg_value A ''memo'', va_fee_payer = fee_index, va_authorized = auth_index,
              va_new_signer = (if checked then index_of key signers (Some new_key) else None)\<rparr>, signers)))))))))"

section \<open>Processing\<close>

definition check_current_authority :: "pubkey list \<Rightarrow> pubkey \<Rightarrow> (unit, cli_error) res" where
  "check_current_authority permitted provided =
     (if provided \<notin> set permitted then Inl (Err (CliRpcRequestError ''Invalid authority provided''))
      else Inr ())"

text \<open>\<open>decode\<close> is \<open>VoteState::deserialize\<close>.\<close>

definition get_vote_account ::
  "('w, 'm, 't) client \<Rightarrow> vote_client \<Rightarrow> (bytes \<Rightarrow> vote_state option) \<Rightarrow> pubkey \<Rightarrow> commitment_level
     \<Rightarrow> ('w, cli_error, account \<times> vote_state) act" where
  "get_vote_account C V decode k c =
     abind (amap_err CliClient (get_account_with_commitment C k c)) (\<lambda>a.
     (case a of
        None \<Rightarrow> afail (CliRpcRequestError ''account does not exist'')
      | Some a \<Rightarrow>
          if owner a \<noteq> vote_program V then afail (CliRpcRequestError ''not a vote account'')
          else (case decode (data a) of
                  None \<Rightarrow> afail (CliRpcRequestError ''Account data could not be deserialized to vote state'')
                | Some s \<Rightarrow> aret (a, s))))"

definition check_vote_authority ::
  "('w, 'm, 't) client \<Rightarrow> bool \<Rightarrow> pubkey \<Rightarrow> pubkey \<Rightarrow> vote_authorize \<Rightarrow> bool \<Rightarrow> vote_state option
     \<Rightarrow> ('w, cli_error, unit) act" where
  "check_vote_authority C has_new_signer auth_key new_key kind interactive vs =
     (case kind of
        Voter \<Rightarrow>
          (case vs of
             None \<Rightarrow> aret ()
           | Some s \<Rightarrow>
               abind (amap_err CliClient (ep_epoch C)) (\<lambda>epoch.
               (case get_authorized_voter epoch (authorized_voters s) of
                  None \<Rightarrow> afail (CliRpcRequestError ''Invalid vote account state; no authorized voters found'')
                | Some voter \<Rightarrow>
                    abind (aresult (check_current_authority [voter, authorized_withdrawer s] auth_key)) (\<lambda>_.
                    if has_new_signer \<and> interactive then afail (CliBadParameter ''invalid new authorized vote signer'')
                    else aret ()))))
      | Withdrawer \<Rightarrow>
          abind (aresult (check_unique_pubkeys (auth_key, ''authorized_account'') (new_key, ''new_authorized_pubkey''))) (\<lambda>_.
          (case vs of
             None \<Rightarrow> aret ()
           | Some s \<Rightarrow> aresult (check_current_authority [authorized_withdrawer s] auth_key))))"

definition vote_authorize_message ::
  "('s, 'm, 't) cli_sdk \<Rightarrow> vote_client \<Rightarrow> vote_authorize_command \<Rightarrow> pubkey
     \<Rightarrow> (client_instruction list, cli_error) res" where
  "vote_authorize_message D V cmd auth_key =
     memo_instructions D (va_memo cmd)
       [if va_new_signer cmd \<noteq> None
        then vote_authorize_checked_ix V (va_account cmd) auth_key (va_new_authority cmd) (va_kind cmd)
        else vote_authorize_ix V (va_account cmd) auth_key (va_new_authority cmd) (va_kind cmd)]"

text \<open>The fee is checked for \<open>signers[0]\<close>, whoever the fee payer is.\<close>

definition process_vote_authorize ::
  "('w, 'm, 't) client \<Rightarrow> ('s, 'm, 't) cli_sdk \<Rightarrow> vote_client \<Rightarrow> (bytes \<Rightarrow> vote_state option) \<Rightarrow> ('s \<Rightarrow> bool)
     \<Rightarrow> 's list \<Rightarrow> commitment_level \<Rightarrow> vote_authorize_command \<Rightarrow> ('w, cli_error, string) act" where
  "process_vote_authorize C D V decode interactive signers c cmd =
     abind (signer_at_index signers (va_authorized cmd)) (\<lambda>auth.
     abind (case va_new_signer cmd of
              None \<Rightarrow> aret False
            | Some i \<Rightarrow> abind (signer_at_index signers i) (\<lambda>s. aret (interactive s))) (\<lambda>is_interactive.
     abind (if \<not> va_sign_only cmd then
              abind (get_vote_account C V decode (va_account cmd) c) (\<lambda>(_, s). aret (Some s))
            else aret None) (\<lambda>vs.
     abind (check_vote_authority C (va_new_signer cmd \<noteq> None) (signer_key D auth) (va_new_authority cmd)
              (va_kind cmd) is_interactive vs) (\<lambda>_.
     abind (aresult (vote_authorize_message D V cmd (signer_key D auth))) (\<lambda>ixs.
     abind (amap_err cli_of_boxed (query_blockhash C (va_query cmd) c)) (\<lambda>blockhash.
     abind (signer_at_index signers (va_nonce_authority cmd)) (\<lambda>nonce_auth.
     abind (signer_at_index signers (va_fee_payer cmd)) (\<lambda>fee_payer.
     let m = (case va_nonce_account cmd of
                Some n \<Rightarrow> new_message_with_nonce D ixs (signer_key D fee_payer) n (signer_key D nonce_auth)
              | None \<Rightarrow> new_message D ixs (signer_key D fee_payer)) in
     if va_sign_only cmd then
       abind (signer_result (try_partial_sign D m signers blockhash)) (\<lambda>t.
       aret (sign_only_text D t (va_dump_message cmd)))
     else
       abind (signer_result (try_sign D m signers blockhash)) (\<lambda>t.
       abind (check_nonce_online C c (va_nonce_account cmd) (signer_key D nonce_auth) blockhash) (\<lambda>_.
       abind (signer_at_index signers 0) (\<lambda>first.
       abind (check_account_for_fee C (signer_key D first) (tx_message D t) c) (\<lambda>_.
       signature_answer D (send_and_confirm C t)))))))))))))"

section \<open>The current authority is missing from the signers\<close>

text \<open>
  When a fee payer and a new authority are given, and a nonce authority with every nonce account,
  the default signer is not added; unless it is one of them the parser panics on its index.
\<close>

lemma vote_authorize_panics:
  assumes "signer_of key A ''fee_payer'' = Inr (Some payer, Some (key payer))"
    and "signer_of key A ''new_authorized'' = Inr (Some new, Some (key new))"
    and "signer_of key A ''nonce_authority'' = Inr (None, None)" and "pubkey_of A ''nonce'' = None"
    and "required_key A ''vote_account_pubkey'' = Inr k" and "blockhash_query_from_matches A = Inr q"
    and "key payer \<noteq> key d" and "key new \<noteq> key d"
  shows "parse_vote_authorize key A d kind True = Inl Panic"
proof -
  let ?signers = "generate_unique_signers key d [Some payer, Some new]"
  have keys: "key ` set ?signers = {key payer, key new}" by (auto simp: generated_keys)
  have "key d \<notin> key ` set ?signers" unfolding keys using assms(7,8) by simp
  then have "index_of key ?signers (Some (key d)) = None"
    by (simp add: index_of_def position_None image_iff eq_commute [of "key d"])
  moreover obtain i where "index_of key ?signers (Some (key payer)) = Some i"
    using index_found [of "Some payer" "[Some payer, Some new]" key d] by auto
  moreover have "index_of key ?signers None = Some 0" by (simp add: index_of_def)
  ultimately show ?thesis
    using assms(1-6) by (simp add: parse_vote_authorize_def unwrapped_def Let_def)
qed

end
