(* ===== verification/Spl_Token.thy ===== *)
theory Spl_Token
  imports Token_Client
begin

text \<open>
  The classic token program as the clients know it: the instructions and builders of
  \<open>spl_token/instruction.rs\<close>, the raw account readers of \<open>spl_token/state.rs\<close>, and the builders of
  \<open>spl_associated_token_account\<close>.  The properties compare it with Token-2022, which says it takes
  over every classic instruction.  The private helpers for keys and the error codes are the same
  code as in \<open>spl_token_2022\<close> and shared here; \<open>slice::split_at\<close> panics when the slice is short.
\<close>

section \<open>Instructions\<close>

datatype spl_authority_type = SplMintTokens | SplFreezeAccount | SplAccountOwner | SplCloseAuthority

datatype spl_instruction =
    SplInitializeMint u8 pubkey "pubkey option"
  | SplInitializeAccount
  | SplInitializeMultisig u8
  | SplTransfer u64
  | SplApprove u64
  | SplRevoke
  | SplSetAuthority spl_authority_type "pubkey option"
  | SplMintTo u64
  | SplBurn u64
  | SplCloseAccount
  | SplFreeze
  | SplThaw
  | SplTransferChecked u64 u8
  | SplApproveChecked u64 u8
  | SplMintToChecked u64 u8
  | SplBurnChecked u64 u8
  | SplInitializeAccount2 pubkey
  | SplSyncNative
  | SplInitializeAccount3 pubkey
  | SplInitializeMultisig2 u8
  | SplInitializeMint2 u8 pubkey "pubkey option"
  | SplGetAccountDataSize
  | SplInitializeImmutableOwner
  | SplAmountToUiAmount u64
  | SplUiAmountToAmount string

fun spl_authority_byte :: "spl_authority_type \<Rightarrow> u8" where
  "spl_authority_byte SplMintTokens = 0"
| "spl_authority_byte SplFreezeAccount = 1"
| "spl_authority_byte SplAccountOwner = 2"
| "spl_authority_byte SplCloseAuthority = 3"

definition spl_authority_of :: "u8 \<Rightarrow> spl_authority_type token_res" where
  "spl_authority_of b =
     (if b = 0 then Inr SplMintTokens else if b = 1 then Inr SplFreezeAccount
      else if b = 2 then Inr SplAccountOwner else if b = 3 then Inr SplCloseAuthority
      else err (Token InvalidInstruction))"

definition split_at :: "nat \<Rightarrow> bytes \<Rightarrow> (bytes \<times> bytes) token_res" where
  "split_at n d = (if length d < n then Inl Panic else Inr (take n d, drop n d))"

definition spl_amount_decimals :: "bytes \<Rightarrow> (u64 \<times> u8) token_res" where
  "spl_amount_decimals rest =
     rbind (split_at 8 rest) (\<lambda>(a, rest).
     rbind (lift_err (split_first rest)) (\<lambda>(d, _). Inr (bytes_u64 a, d)))"

definition spl_unpack :: "bytes \<Rightarrow> spl_instruction token_res" where
  "spl_unpack input =
     rbind (lift_err (split_first input)) (\<lambda>(tag, rest).
     if tag = 0 then rbind (lift_err (unpack_mint_fields rest)) (\<lambda>(d, authority, freeze). Inr (SplInitializeMint d authority freeze))
     else if tag = 1 then Inr SplInitializeAccount
     else if tag = 2 then rbind (lift_err (split_first rest)) (\<lambda>(m, _). Inr (SplInitializeMultisig m))
     else if tag = 3 then rbind (lift_err (unpack_amount rest)) (\<lambda>a. Inr (SplTransfer a))
     else if tag = 4 then rbind (lift_err (unpack_amount rest)) (\<lambda>a. Inr (SplApprove a))
     else if tag = 7 then rbind (lift_err (unpack_amount rest)) (\<lambda>a. Inr (SplMintTo a))
     else if tag = 8 then rbind (lift_err (unpack_amount rest)) (\<lambda>a. Inr (SplBurn a))
     else if tag = 5 then Inr SplRevoke
     else if tag = 6 then rbind (lift_err (split_first rest)) (\<lambda>(b, rest).
       rbind (spl_authority_of b) (\<lambda>ty.
       rbind (lift_err (unpack_pubkey_option rest)) (\<lambda>(k, _). Inr (SplSetAuthority ty k))))
     else if tag = 9 then Inr SplCloseAccount
     else if tag = 10 then Inr SplFreeze
     else if tag = 11 then Inr SplThaw
     else if tag = 12 then rbind (spl_amount_decimals rest) (\<lambda>(a, d). Inr (SplTransferChecked a d))
     else if tag = 13 then rbind (spl_amount_decimals rest) (\<lambda>(a, d). Inr (SplApproveChecked a d))
     else if tag = 14 then rbind (spl_amount_decimals rest) (\<lambda>(a, d). Inr (SplMintToChecked a d))
     else if tag = 15 then rbind (spl_amount_decimals rest) (\<lambda>(a, d). Inr (SplBurnChecked a d))
     else if tag = 16 then rbind (lift_err (unpack_pubkey rest)) (\<lambda>(k, _). Inr (SplInitializeAccount2 k))
     else if tag = 17 then Inr SplSyncNative
     else if tag = 18 then rbind (lift_err (unpack_pubkey rest)) (\<lambda>(k, _). Inr (SplInitializeAccount3 k))
     else if tag = 19 then rbind (lift_err (split_first rest)) (\<lambda>(m, _). Inr (SplInitializeMultisig2 m))
     else if tag = 20 then rbind (lift_err (unpack_mint_fields rest)) (\<lambda>(d, authority, freeze). Inr (SplInitializeMint2 d authority freeze))
     else if tag = 21 then Inr SplGetAccountDataSize
     else if tag = 22 then Inr SplInitializeImmutableOwner
     else if tag = 23 then rbind (split_at 8 rest) (\<lambda>(a, _). Inr (SplAmountToUiAmount (bytes_u64 a)))
     else if tag = 24 then rbind (lift_err (from_utf8 rest)) (\<lambda>s. Inr (SplUiAmountToAmount s))
     else err (Token InvalidInstruction))"

fun spl_pack :: "spl_instruction \<Rightarrow> bytes" where
  "spl_pack (SplInitializeMint d authority freeze) = 0 # d # key_bytes authority @ pack_pubkey_option freeze"
| "spl_pack SplInitializeAccount = [1]"
| "spl_pack (SplInitializeMultisig m) = [2, m]"
| "spl_pack (SplTransfer a) = 3 # u64_bytes a"
| "spl_pack (SplApprove a) = 4 # u64_bytes a"
| "spl_pack (SplMintTo a) = 7 # u64_bytes a"
| "spl_pack (SplBurn a) = 8 # u64_bytes a"
| "spl_pack SplRevoke = [5]"
| "spl_pack (SplSetAuthority ty k) = 6 # spl_authority_byte ty # pack_pubkey_option k"
| "spl_pack SplCloseAccount = [9]"
| "spl_pack SplFreeze = [10]"
| "spl_pack SplThaw = [11]"
| "spl_pack (SplTransferChecked a d) = 12 # u64_bytes a @ [d]"
| "spl_pack (SplApproveChecked a d) = 13 # u64_bytes a @ [d]"
| "spl_pack (SplMintToChecked a d) = 14 # u64_bytes a @ [d]"
| "spl_pack (SplBurnChecked a d) = 15 # u64_bytes a @ [d]"
| "spl_pack (SplInitializeAccount2 k) = 16 # key_bytes k"
| "spl_pack SplSyncNative = [17]"
| "spl_pack (SplInitializeAccount3 k) = 18 # key_bytes k"
| "spl_pack (SplInitializeMultisig2 m) = [19, m]"
| "spl_pack (SplInitializeMint2 d authority freeze) = 20 # d # key_bytes authority @ pack_pubkey_option freeze"
| "spl_pack SplGetAccountDataSize = [21]"
| "spl_pack SplInitializeImmutableOwner = [22]"
| "spl_pack (SplAmountToUiAmount a) = 23 # u64_bytes a"
| "spl_pack (SplUiAmountToAmount s) = 24 # map char_byte s"

section \<open>The same instructions in Token-2022\<close>

fun widen_authority :: "spl_authority_type \<Rightarrow> authority_type" where
  "widen_authority SplMintTokens = AuthMintTokens"
| "widen_authority SplFreezeAccount = AuthFreezeAccount"
| "widen_authority SplAccountOwner = AuthAccountOwner"
| "widen_authority SplCloseAuthority = AuthCloseAccount"

fun widen :: "spl_instruction \<Rightarrow> token_instruction" where
  "widen (SplInitializeMint d authority freeze) = InitializeMint d authority freeze"
| "widen SplInitializeAccount = InitializeAccount"
| "widen (SplInitializeMultisig m) = InitializeMultisig m"
| "widen (SplTransfer a) = Transfer a"
| "widen (SplApprove a) = Approve a"
| "widen SplRevoke = Revoke"
| "widen (SplSetAuthority ty k) = SetAuthority (widen_authority ty) k"
| "widen (SplMintTo a) = MintTo a"
| "widen (SplBurn a) = Burn a"
| "widen SplCloseAccount = CloseAccount"
| "widen SplFreeze = FreezeAccount"
| "widen SplThaw = ThawAccount"
| "widen (SplTransferChecked a d) = TransferChecked a d"
| "widen (SplApproveChecked a d) = ApproveChecked a d"
| "widen (SplMintToChecked a d) = MintToChecked a d"
| "widen (SplBurnChecked a d) = BurnChecked a d"
| "widen (SplInitializeAccount2 k) = InitializeAccount2 k"
| "widen SplSyncNative = SyncNative"
| "widen (SplInitializeAccount3 k) = InitializeAccount3 k"
| "widen (SplInitializeMultisig2 m) = InitializeMultisig2 m"
| "widen (SplInitializeMint2 d authority freeze) = InitializeMint2 d authority freeze"
| "widen SplGetAccountDataSize = GetAccountDataSize []"
| "widen SplInitializeImmutableOwner = InitializeImmutableOwner"
| "widen (SplAmountToUiAmount a) = AmountToUiAmount a"
| "widen (SplUiAmountToAmount s) = UiAmountToAmount s"

lemma widen_authority_byte [simp]: "authority_byte (widen_authority ty) = spl_authority_byte ty"
  by (cases ty) simp_all

lemma pack_widen [simp]: "pack_instruction (widen i) = spl_pack i"
  by (cases i) simp_all

lemma split_at_append [simp]: "length a = n \<Longrightarrow> split_at n (a @ rest) = Inr (a, rest)"
  by (simp add: split_at_def)

lemma split_at_exact [simp]: "length a = n \<Longrightarrow> split_at n a = Inr (a, [])"
  by (simp add: split_at_def)

lemma spl_authority_of_byte [simp]: "spl_authority_of (spl_authority_byte ty) = Inr ty"
  by (cases ty) (simp_all add: spl_authority_of_def)

lemma spl_unpack_pack:
  "str_invariant (widen i) \<Longrightarrow> spl_unpack (spl_pack i) = Inr i"
  by (cases i) (simp_all add: spl_unpack_def spl_amount_decimals_def unpack_amount_def unpack_mint_fields_def
      from_utf8_bytes)

fun classic :: "token_instruction \<Rightarrow> bool" where
  "classic (SetAuthority ty k) \<longleftrightarrow> ty \<in> {AuthMintTokens, AuthFreezeAccount, AuthAccountOwner, AuthCloseAccount}"
| "classic (GetAccountDataSize ts) \<longleftrightarrow> ts = []"
| "classic (InitializeMintCloseAuthority k) \<longleftrightarrow> False"
| "classic (TransferFeeExtension i) \<longleftrightarrow> False"
| "classic ConfidentialTransferExtension \<longleftrightarrow> False"
| "classic DefaultAccountStateExtension \<longleftrightarrow> False"
| "classic (Reallocate ts) \<longleftrightarrow> False"
| "classic MemoTransferExtension \<longleftrightarrow> False"
| "classic CreateNativeMint \<longleftrightarrow> False"
| "classic InitializeNonTransferableMint \<longleftrightarrow> False"
| "classic InterestBearingMintExtension \<longleftrightarrow> False"
| "classic _ \<longleftrightarrow> True"

lemma classic_widen [simp]: "classic (widen i)"
proof (cases i)
  case (SplSetAuthority ty k)
  then show ?thesis by (cases ty) simp_all
qed simp_all

text \<open>\<open>GetAccountDataSize\<close>: the newer program reads the bytes behind the tag as extension types.\<close>

definition data_size_answer :: "bytes \<Rightarrow> program_error + token_instruction \<Rightarrow> bool" where
  "data_size_answer rest new =
     (case new of
        Inr j \<Rightarrow> \<exists>ts. j = GetAccountDataSize ts \<and> rest = concat (map (\<lambda>t. u16_bytes (extension_code t)) ts)
      | Inl e \<Rightarrow> e = InvalidAccountData \<and> (\<forall>ts. rest \<noteq> concat (map (\<lambda>t. u16_bytes (extension_code t)) ts)))"

definition takes_over :: "bytes \<Rightarrow> spl_instruction token_res \<Rightarrow> program_error + token_instruction \<Rightarrow> bool" where
  "takes_over input old new =
     (case old of
        Inr i \<Rightarrow>
          if i = SplGetAccountDataSize then hd input = 21 \<and> data_size_answer (tl input) new
          else new = Inr (widen i)
      | Inl Panic \<Rightarrow> length input < 9 \<and> hd input \<in> {12, 13, 14, 15, 23} \<and> new = Inl (Token InvalidInstruction)
      | Inl (Err e) \<Rightarrow> e = Token InvalidInstruction \<and> (case new of Inl _ \<Rightarrow> True | Inr j \<Rightarrow> \<not> classic j))"

lemma extension_type_of_Inr: "extension_type_of a = Inr t \<Longrightarrow> a = u16_bytes (extension_code t)"
proof -
  assume a: "extension_type_of a = Inr t"
  then have "bytes_u16 a = extension_code t" "length a = 2"
    by (auto simp: extension_type_of_def find_Some_iff ok_or_Inr_iff split: if_splits)
  then show ?thesis
    using u16_bytes_bytes_u16 [of a] by simp
qed

lemma unpack_extension_types_Inr:
  "unpack_extension_types d = Inr ts \<Longrightarrow> d = concat (map (\<lambda>t. u16_bytes (extension_code t)) ts)"
proof (induction d arbitrary: ts rule: unpack_extension_types.induct)
  case (2 b)
  then show ?case by (simp add: extension_type_of_def)
next
  case (3 a b rest)
  then obtain t us where "extension_type_of [a, b] = Inr t" "unpack_extension_types rest = Inr us" "ts = t # us"
    by (auto simp: rbind_Inr_iff)
  then show ?case
    using "3.IH" extension_type_of_Inr [of "[a, b]" t] by simp
qed simp

lemma unpack_extension_types_Inl: "unpack_extension_types d = Inl e \<Longrightarrow> e = InvalidAccountData"
  by (induction d rule: unpack_extension_types.induct)
    (auto simp: rbind_Inl_iff extension_type_of_def ok_or_Inl_iff split: if_splits)

lemma data_size_answered:
  "data_size_answer rest (rbind (unpack_extension_types rest) (\<lambda>ts. Inr (GetAccountDataSize ts)))"
proof (cases "unpack_extension_types rest")
  case (Inl e)
  then show ?thesis
    using unpack_extension_types_Inl by (auto simp: data_size_answer_def)
next
  case (Inr ts)
  then show ?thesis
    using unpack_extension_types_Inr by (auto simp: data_size_answer_def)
qed

text \<open>Readers that fail alike in both programs.\<close>

lemma takes_over_read:
  assumes "\<And>e. r = Inl e \<Longrightarrow> e = Token InvalidInstruction"
    and "\<And>x. r = Inr x \<Longrightarrow> takes_over input (f x) (g x)"
  shows "takes_over input (rbind (lift_err r) f) (rbind r g)"
  using assms by (cases r) (auto simp: takes_over_def)

lemma takes_over_reads:
  assumes "\<And>e. r = Inl e \<Longrightarrow> e = Token InvalidInstruction"
  shows "(\<And>x. widen (f x) = g x \<and> f x \<noteq> SplGetAccountDataSize) \<Longrightarrow> takes_over input (rbind (lift_err r) (\<lambda>x. Inr (f x))) (rbind r (\<lambda>x. Inr (g x)))"
  using assms by (intro takes_over_read) (auto simp: takes_over_def)

lemma takes_over_reads2:
  assumes "\<And>e. r = Inl e \<Longrightarrow> e = Token InvalidInstruction" and "\<And>x. widen (f x) = g x \<and> f x \<noteq> SplGetAccountDataSize"
  shows "takes_over input (rbind (lift_err r) (\<lambda>(x, _). Inr (f x))) (rbind r (\<lambda>(x, _). Inr (g x)))"
  using assms by (intro takes_over_read) (auto simp: takes_over_def)

lemma takes_over_reads3:
  assumes "\<And>e. r = Inl e \<Longrightarrow> e = Token InvalidInstruction" and "\<And>x y z. widen (f x y z) = g x y z \<and> f x y z \<noteq> SplGetAccountDataSize"
  shows "takes_over input (rbind (lift_err r) (\<lambda>(x, y, z). Inr (f x y z))) (rbind r (\<lambda>(x, y, z). Inr (g x y z)))"
  using assms by (intro takes_over_read) (auto simp: takes_over_def)

lemma takes_over_same: "widen i = j \<Longrightarrow> i \<noteq> SplGetAccountDataSize \<Longrightarrow> takes_over input (Inr i) (Inr j)"
  by (simp add: takes_over_def)

lemma reader_errors:
  "split_first d = Inl e \<Longrightarrow> e = Token InvalidInstruction"
  "unpack_amount d = Inl e \<Longrightarrow> e = Token InvalidInstruction"
  "unpack_pubkey d = Inl e \<Longrightarrow> e = Token InvalidInstruction"
  "unpack_pubkey_option d = Inl e \<Longrightarrow> e = Token InvalidInstruction"
  "unpack_mint_fields d = Inl e \<Longrightarrow> e = Token InvalidInstruction"
  "from_utf8 d = Inl e \<Longrightarrow> e = Token InvalidInstruction"
proof -
  show first: "split_first d = Inl e \<Longrightarrow> e = Token InvalidInstruction" for d
    by (auto simp: split_first_def split: list.splits)
  show key: "unpack_pubkey d = Inl e \<Longrightarrow> e = Token InvalidInstruction" for d
    by (auto simp: unpack_pubkey_def split: if_splits)
  show option: "unpack_pubkey_option d = Inl e \<Longrightarrow> e = Token InvalidInstruction" for d
    by (auto simp: unpack_pubkey_option_def rbind_Inl_iff dest: key split: list.splits if_splits)
  show "unpack_mint_fields d = Inl e \<Longrightarrow> e = Token InvalidInstruction"
    by (auto simp: unpack_mint_fields_def rbind_Inl_iff dest: first key option)
qed (auto simp: unpack_amount_def unpack_u64_def from_utf8_def rbind_Inl_iff split: if_splits)

text \<open>The panics: a checked amount and the amount of \<open>AmountToUiAmount\<close> cut short.\<close>

lemma takes_over_checked:
  assumes "tag \<in> {12, 13, 14, 15}" and "\<And>a d. widen (f a d) = g a d \<and> f a d \<noteq> SplGetAccountDataSize"
  shows "takes_over (tag # rest) (rbind (spl_amount_decimals rest) (\<lambda>(a, d). Inr (f a d)))
    (rbind (unpack_amount_decimals rest) (\<lambda>(a, d, _). Inr (g a d)))"
proof (cases "length rest < 8")
  case True
  then show ?thesis
    using assms(1) by (auto simp: takes_over_def spl_amount_decimals_def split_at_def unpack_amount_decimals_def unpack_u64_def)
next
  case False
  then show ?thesis
    by (cases "drop 8 rest") (simp_all add: takes_over_def spl_amount_decimals_def split_at_def
        unpack_amount_decimals_def unpack_u64_def split_first_def assms(2))
qed

lemma takes_over_amount:
  "takes_over (23 # rest) (rbind (split_at 8 rest) (\<lambda>(a, _). Inr (SplAmountToUiAmount (bytes_u64 a))))
     (rbind (unpack_amount rest) (\<lambda>a. Inr (AmountToUiAmount a)))"
  by (simp add: takes_over_def split_at_def unpack_amount_def unpack_u64_def)

lemma takes_over_authority:
  assumes "\<And>ty. takes_over input (f ty) (g (widen_authority ty))"
    and "\<And>ty j. g ty = Inr j \<Longrightarrow> \<exists>k. j = SetAuthority ty k"
  shows "takes_over input (rbind (spl_authority_of b) f) (rbind (authority_of b) g)"
proof (cases "b \<in> {0, 1, 2, 3}")
  case True
  then show ?thesis
    using assms(1) [of SplMintTokens] assms(1) [of SplFreezeAccount] assms(1) [of SplAccountOwner]
      assms(1) [of SplCloseAuthority] by (auto simp: spl_authority_of_def authority_of_def)
next
  case False
  then have "spl_authority_of b = err (Token InvalidInstruction)"
    by (simp add: spl_authority_of_def)
  moreover have "\<not> classic j" if "rbind (authority_of b) g = Inr j" for j
    using that False by (auto simp: authority_of_def rbind_Inr_iff dest!: assms(2) split: if_splits)
  ultimately show ?thesis by (auto simp: takes_over_def split: sum.splits)
qed

lemma takes_over_new:
  assumes "\<And>j. r = Inr j \<Longrightarrow> \<not> classic j"
  shows "takes_over input (err (Token InvalidInstruction)) r"
  using assms by (auto simp: takes_over_def split: sum.splits)

abbreviation classic_tags :: "u8 list" where
  "classic_tags \<equiv> [0, 1, 2, 3, 4, 5, 6, 7, 8, 9, 10, 11, 12, 13, 14, 15, 16, 17, 18, 19, 20, 21, 22, 23, 24]"

lemma newer_instructions:
  assumes "tag \<notin> set classic_tags" and "unpack_instruction (tag # rest) = Inr j"
  shows "\<not> classic j"
  using assms by (auto simp: unpack_instruction_def rbind_Inr_iff split: if_splits)

lemma spl_unpack_takes_over: "takes_over input (spl_unpack input) (unpack_instruction input)"
proof (cases input)
  case (Cons tag rest)
  show ?thesis
  proof (cases "tag \<in> set classic_tags")
    case True
    have size: "takes_over (21 # rest) (Inr SplGetAccountDataSize)
        (rbind (unpack_extension_types rest) (\<lambda>ts. Inr (GetAccountDataSize ts)))"
      using data_size_answered by (simp add: takes_over_def)
    have authority: "takes_over (6 # rest)
        (rbind (lift_err (split_first rest)) (\<lambda>(b, rest). rbind (spl_authority_of b) (\<lambda>ty.
           rbind (lift_err (unpack_pubkey_option rest)) (\<lambda>(k, _). Inr (SplSetAuthority ty k)))))
        (rbind (split_first rest) (\<lambda>(b, rest). rbind (authority_of b) (\<lambda>ty.
           rbind (unpack_pubkey_option rest) (\<lambda>(k, _). Inr (SetAuthority ty k)))))"
    proof (rule takes_over_read, erule reader_errors)
      fix x :: "u8 \<times> bytes"
      obtain b r where x: "x = (b, r)" by (cases x)
      have "takes_over (6 # rest)
          (rbind (lift_err (unpack_pubkey_option r)) (\<lambda>(k, _). Inr (SplSetAuthority ty k)))
          (rbind (unpack_pubkey_option r) (\<lambda>(k, _). Inr (SetAuthority (widen_authority ty) k)))" for ty
        by (rule takes_over_read, erule reader_errors) (auto simp: takes_over_def)
      then show "takes_over (6 # rest)
          (case x of (b, rest) \<Rightarrow> rbind (spl_authority_of b) (\<lambda>ty.
             rbind (lift_err (unpack_pubkey_option rest)) (\<lambda>(k, _). Inr (SplSetAuthority ty k))))
          (case x of (b, rest) \<Rightarrow> rbind (authority_of b) (\<lambda>ty.
             rbind (unpack_pubkey_option rest) (\<lambda>(k, _). Inr (SetAuthority ty k))))"
        unfolding x prod.case
        by (rule takes_over_authority) (auto simp: rbind_Inr_iff)
    qed
    show ?thesis
      using True unfolding Cons
      by (simp, elim disjE)
        (simp_all add: spl_unpack_def unpack_instruction_def size authority takes_over_amount takes_over_checked
          takes_over_reads takes_over_reads2 takes_over_reads3 reader_errors takes_over_same)
  next
    case False
    then show ?thesis
      unfolding Cons using newer_instructions [OF False]
      by (simp add: spl_unpack_def) (rule takes_over_new, simp)
  qed
qed (simp add: spl_unpack_def unpack_instruction_def split_first_def takes_over_def)

text \<open>
  C36. Token-2022 takes over the classic instructions, all but one as they are.  What the classic
  program unpacks is the same instruction for Token-2022, except \<open>GetAccountDataSize\<close>: the classic
  program ignores the bytes behind its tag, while the newer one reads them as the extension types of
  the instruction, and refuses it with \<open>InvalidAccountData\<close> when they are no list of such types.  What
  the classic program refuses is refused by Token-2022 too or is one of its newer instructions; and
  the classic one panics only on an amount cut short, which Token-2022 refuses.  Packing agrees for
  every classic instruction.
\<close>

theorem classic_instructions_taken_over:
  "takes_over input (spl_unpack input) (unpack_instruction input)
   \<and> spl_pack i = pack_instruction (widen i)
   \<and> (str_invariant (widen i) \<longrightarrow> spl_unpack (spl_pack i) = Inr i)"
  using spl_unpack_takes_over spl_unpack_pack by simp

theorem classic_instructions_taken_over_witness:
  "spl_unpack (spl_pack (SplTransferChecked 5 2)) = Inr (SplTransferChecked 5 2)
   \<and> spl_unpack [12, 5, 0] = Inl Panic \<and> unpack_instruction [12, 5, 0] = Inl (Token InvalidInstruction)
   \<and> spl_unpack [21, 1, 0] = Inr SplGetAccountDataSize
   \<and> data_size_answer [1, 0] (unpack_instruction [21, 1, 0])"
proof -
  have panic: "spl_unpack [12, 5, 0] = Inl Panic" and size: "spl_unpack [21, 1, 0] = Inr SplGetAccountDataSize"
    by (simp_all add: spl_unpack_def spl_amount_decimals_def split_at_def)
  from classic_instructions_taken_over [of "[12, 5, 0]" "SplTransferChecked 5 2"]
    classic_instructions_taken_over [of "[21, 1, 0]" "SplTransferChecked 5 2"] panic size
  show ?thesis
    by (simp add: takes_over_def)
qed

section \<open>The builders\<close>

definition check_spl_program :: "pubkey \<Rightarrow> unit token_res" where
  "check_spl_program p = (if p \<noteq> spl_token_id then err IncorrectProgramId else Inr ())"

definition spl_instruction_for :: "pubkey \<Rightarrow> account_meta list \<Rightarrow> spl_instruction \<Rightarrow> client_instruction" where
  "spl_instruction_for p metas i = \<lparr>ix_program_id = p, ix_accounts = metas, ix_data = spl_pack i\<rparr>"

definition spl_initialize_mint_ix ::
  "pubkey \<Rightarrow> pubkey \<Rightarrow> pubkey \<Rightarrow> pubkey \<Rightarrow> pubkey option \<Rightarrow> u8 \<Rightarrow> client_instruction token_res" where
  "spl_initialize_mint_ix p rent mint_key authority freeze dec =
     rbind (check_spl_program p) (\<lambda>_.
     Inr (spl_instruction_for p
       ([writable mint_key False, readonly rent False]) (SplInitializeMint dec authority freeze)))"

definition spl_initialize_mint2_ix ::
  "pubkey \<Rightarrow> pubkey \<Rightarrow> pubkey \<Rightarrow> pubkey option \<Rightarrow> u8 \<Rightarrow> client_instruction token_res" where
  "spl_initialize_mint2_ix p mint_key authority freeze dec =
     rbind (check_spl_program p) (\<lambda>_.
     Inr (spl_instruction_for p
       ([writable mint_key False]) (SplInitializeMint2 dec authority freeze)))"

definition spl_initialize_account_ix ::
  "pubkey \<Rightarrow> pubkey \<Rightarrow> pubkey \<Rightarrow> pubkey \<Rightarrow> pubkey \<Rightarrow> client_instruction token_res" where
  "spl_initialize_account_ix p rent account mint_key owner =
     rbind (check_spl_program p) (\<lambda>_.
     Inr (spl_instruction_for p
       ([writable account False, readonly mint_key False, readonly owner False, readonly rent
         False]) SplInitializeAccount))"

definition spl_initialize_account2_ix ::
  "pubkey \<Rightarrow> pubkey \<Rightarrow> pubkey \<Rightarrow> pubkey \<Rightarrow> pubkey \<Rightarrow> client_instruction token_res" where
  "spl_initialize_account2_ix p rent account mint_key owner =
     rbind (check_spl_program p) (\<lambda>_.
     Inr (spl_instruction_for p
       ([writable account False, readonly mint_key False, readonly rent False]) (SplInitializeAccount2
         owner)))"

definition spl_initialize_account3_ix ::
  "pubkey \<Rightarrow> pubkey \<Rightarrow> pubkey \<Rightarrow> pubkey \<Rightarrow> client_instruction token_res" where
  "spl_initialize_account3_ix p account mint_key owner =
     rbind (check_spl_program p) (\<lambda>_.
     Inr (spl_instruction_for p
       ([writable account False, readonly mint_key False]) (SplInitializeAccount3 owner)))"

definition spl_initialize_multisig_ix ::
  "pubkey \<Rightarrow> pubkey \<Rightarrow> pubkey \<Rightarrow> pubkey list \<Rightarrow> u8 \<Rightarrow> client_instruction token_res" where
  "spl_initialize_multisig_ix p rent multisig_key signer_keys m =
     rbind (check_spl_program p) (\<lambda>_.
     if \<not> is_valid_signer_index (unat m) \<or> \<not> is_valid_signer_index (length signer_keys)
        \<or> length signer_keys < unat m then err MissingRequiredSignature
     else Inr (spl_instruction_for p
       ([writable multisig_key False, readonly rent False] @ map (\<lambda>k. readonly k False)
         signer_keys) (SplInitializeMultisig m)))"

definition spl_initialize_multisig2_ix ::
  "pubkey \<Rightarrow> pubkey \<Rightarrow> pubkey list \<Rightarrow> u8 \<Rightarrow> client_instruction token_res" where
  "spl_initialize_multisig2_ix p multisig_key signer_keys m =
     rbind (check_spl_program p) (\<lambda>_.
     if \<not> is_valid_signer_index (unat m) \<or> \<not> is_valid_signer_index (length signer_keys)
        \<or> length signer_keys < unat m then err MissingRequiredSignature
     else Inr (spl_instruction_for p
       ([writable multisig_key False] @ map (\<lambda>k. readonly k False) signer_keys)
         (SplInitializeMultisig2 m)))"

definition spl_transfer_ix ::
  "pubkey \<Rightarrow> pubkey \<Rightarrow> pubkey \<Rightarrow> pubkey \<Rightarrow> pubkey list \<Rightarrow> u64 \<Rightarrow> client_instruction token_res" where
  "spl_transfer_ix p source destination authority signer_keys amt =
     rbind (check_spl_program p) (\<lambda>_.
     Inr (spl_instruction_for p
       ([writable source False, writable destination False] @ authority_metas authority signer_keys)
         (SplTransfer amt)))"

definition spl_approve_ix ::
  "pubkey \<Rightarrow> pubkey \<Rightarrow> pubkey \<Rightarrow> pubkey \<Rightarrow> pubkey list \<Rightarrow> u64 \<Rightarrow> client_instruction token_res" where
  "spl_approve_ix p source delegate_key owner signer_keys amt =
     rbind (check_spl_program p) (\<lambda>_.
     Inr (spl_instruction_for p
       ([writable source False, readonly delegate_key False] @ authority_metas owner signer_keys)
         (SplApprove amt)))"

definition spl_revoke_ix ::
  "pubkey \<Rightarrow> pubkey \<Rightarrow> pubkey \<Rightarrow> pubkey list \<Rightarrow> client_instruction token_res" where
  "spl_revoke_ix p source owner signer_keys =
     rbind (check_spl_program p) (\<lambda>_.
     Inr (spl_instruction_for p
       ([writable source False] @ authority_metas owner signer_keys) SplRevoke))"

definition spl_set_authority_ix ::
  "pubkey \<Rightarrow> pubkey \<Rightarrow> pubkey option \<Rightarrow> spl_authority_type \<Rightarrow> pubkey \<Rightarrow> pubkey list \<Rightarrow> client_instruction token_res" where
  "spl_set_authority_ix p owned new_authority ty owner signer_keys =
     rbind (check_spl_program p) (\<lambda>_.
     Inr (spl_instruction_for p
       ([writable owned False] @ authority_metas owner signer_keys) (SplSetAuthority ty new_authority)))"

definition spl_mint_to_ix ::
  "pubkey \<Rightarrow> pubkey \<Rightarrow> pubkey \<Rightarrow> pubkey \<Rightarrow> pubkey list \<Rightarrow> u64 \<Rightarrow> client_instruction token_res" where
  "spl_mint_to_ix p mint_key account owner signer_keys amt =
     rbind (check_spl_program p) (\<lambda>_.
     Inr (spl_instruction_for p
       ([writable mint_key False, writable account False] @ authority_metas owner signer_keys)
         (SplMintTo amt)))"

definition spl_burn_ix ::
  "pubkey \<Rightarrow> pubkey \<Rightarrow> pubkey \<Rightarrow> pubkey \<Rightarrow> pubkey list \<Rightarrow> u64 \<Rightarrow> client_instruction token_res" where
  "spl_burn_ix p account mint_key authority signer_keys amt =
     rbind (check_spl_program p) (\<lambda>_.
     Inr (spl_instruction_for p
       ([writable account False, writable mint_key False] @ authority_metas authority signer_keys)
         (SplBurn amt)))"

definition spl_close_account_ix ::
  "pubkey \<Rightarrow> pubkey \<Rightarrow> pubkey \<Rightarrow> pubkey \<Rightarrow> pubkey list \<Rightarrow> client_instruction token_res" where
  "spl_close_account_ix p account destination owner signer_keys =
     rbind (check_spl_program p) (\<lambda>_.
     Inr (spl_instruction_for p
       ([writable account False, writable destination False] @ authority_metas owner signer_keys)
         SplCloseAccount))"

definition spl_freeze_account_ix ::
  "pubkey \<Rightarrow> pubkey \<Rightarrow> pubkey \<Rightarrow> pubkey \<Rightarrow> pubkey list \<Rightarrow> client_instruction token_res" where
  "spl_freeze_account_ix p account mint_key owner signer_keys =
     rbind (check_spl_program p) (\<lambda>_.
     Inr (spl_instruction_for p
       ([writable account False, readonly mint_key False] @ authority_metas owner signer_keys)
         SplFreeze))"

definition spl_thaw_account_ix ::
  "pubkey \<Rightarrow> pubkey \<Rightarrow> pubkey \<Rightarrow> pubkey \<Rightarrow> pubkey list \<Rightarrow> client_instruction token_res" where
  "spl_thaw_account_ix p account mint_key owner signer_keys =
     rbind (check_spl_program p) (\<lambda>_.
     Inr (spl_instruction_for p
       ([writable account False, readonly mint_key False] @ authority_metas owner signer_keys)
         SplThaw))"

definition spl_transfer_checked_ix ::
  "pubkey \<Rightarrow> pubkey \<Rightarrow> pubkey \<Rightarrow> pubkey \<Rightarrow> pubkey \<Rightarrow> pubkey list \<Rightarrow> u64 \<Rightarrow> u8 \<Rightarrow> client_instruction token_res" where
  "spl_transfer_checked_ix p source mint_key destination authority signer_keys amt dec =
     rbind (check_spl_program p) (\<lambda>_.
     Inr (spl_instruction_for p
       ([writable source False, readonly mint_key False, writable destination False] @
         authority_metas authority signer_keys) (SplTransferChecked amt dec)))"

definition spl_approve_checked_ix ::
  "pubkey \<Rightarrow> pubkey \<Rightarrow> pubkey \<Rightarrow> pubkey \<Rightarrow> pubkey \<Rightarrow> pubkey list \<Rightarrow> u64 \<Rightarrow> u8 \<Rightarrow> client_instruction token_res" where
  "spl_approve_checked_ix p source mint_key delegate_key owner signer_keys amt dec =
     rbind (check_spl_program p) (\<lambda>_.
     Inr (spl_instruction_for p
       ([writable source False, readonly mint_key False, readonly delegate_key False] @
         authority_metas owner signer_keys) (SplApproveChecked amt dec)))"

definition spl_mint_to_checked_ix ::
  "pubkey \<Rightarrow> pubkey \<Rightarrow> pubkey \<Rightarrow> pubkey \<Rightarrow> pubkey list \<Rightarrow> u64 \<Rightarrow> u8 \<Rightarrow> client_instruction token_res" where
  "spl_mint_to_checked_ix p mint_key account owner signer_keys amt dec =
     rbind (check_spl_program p) (\<lambda>_.
     Inr (spl_instruction_for p
       ([writable mint_key False, writable account False] @ authority_metas owner signer_keys)
         (SplMintToChecked amt dec)))"

definition spl_burn_checked_ix ::
  "pubkey \<Rightarrow> pubkey \<Rightarrow> pubkey \<Rightarrow> pubkey \<Rightarrow> pubkey list \<Rightarrow> u64 \<Rightarrow> u8 \<Rightarrow> client_instruction token_res" where
  "spl_burn_checked_ix p account mint_key authority signer_keys amt dec =
     rbind (check_spl_program p) (\<lambda>_.
     Inr (spl_instruction_for p
       ([writable account False, writable mint_key False] @ authority_metas authority signer_keys)
         (SplBurnChecked amt dec)))"

definition spl_sync_native_ix ::
  "pubkey \<Rightarrow> pubkey \<Rightarrow> client_instruction token_res" where
  "spl_sync_native_ix p account =
     rbind (check_spl_program p) (\<lambda>_.
     Inr (spl_instruction_for p
       ([writable account False]) SplSyncNative))"

definition spl_get_account_data_size_ix ::
  "pubkey \<Rightarrow> pubkey \<Rightarrow> client_instruction token_res" where
  "spl_get_account_data_size_ix p mint_key =
     rbind (check_spl_program p) (\<lambda>_.
     Inr (spl_instruction_for p
       ([readonly mint_key False]) SplGetAccountDataSize))"

definition spl_initialize_immutable_owner_ix ::
  "pubkey \<Rightarrow> pubkey \<Rightarrow> client_instruction token_res" where
  "spl_initialize_immutable_owner_ix p account =
     rbind (check_spl_program p) (\<lambda>_.
     Inr (spl_instruction_for p
       ([writable account False]) SplInitializeImmutableOwner))"

definition spl_amount_to_ui_amount_ix ::
  "pubkey \<Rightarrow> pubkey \<Rightarrow> u64 \<Rightarrow> client_instruction token_res" where
  "spl_amount_to_ui_amount_ix p mint_key amt =
     rbind (check_spl_program p) (\<lambda>_.
     Inr (spl_instruction_for p
       ([readonly mint_key False]) (SplAmountToUiAmount amt)))"

definition spl_ui_amount_to_amount_ix ::
  "pubkey \<Rightarrow> pubkey \<Rightarrow> string \<Rightarrow> client_instruction token_res" where
  "spl_ui_amount_to_amount_ix p mint_key ui_amount =
     rbind (check_spl_program p) (\<lambda>_.
     Inr (spl_instruction_for p
       ([readonly mint_key False]) (SplUiAmountToAmount ui_amount)))"

definition classic_only :: "pubkey \<Rightarrow> client_instruction token_res \<Rightarrow> client_instruction token_res" where
  "classic_only p r = (if p = spl_token_id then r else err IncorrectProgramId)"

lemma spl_instruction_widen: "spl_instruction_for p metas i = instruction_for p metas (widen i)"
  by (simp add: spl_instruction_for_def instruction_for_def)

lemma check_spl_iff: "check_spl_program p = (if p = spl_token_id then check_spl_token_program_account p else err IncorrectProgramId)"
  by (simp add: check_spl_program_def check_spl_token_program_account_def)

lemmas spl_builder_defs = spl_instruction_widen check_spl_iff
  spl_initialize_mint_ix_def initialize_mint_ix_def
  spl_initialize_mint2_ix_def initialize_mint2_ix_def
  spl_initialize_account_ix_def initialize_account_ix_def
  spl_initialize_account2_ix_def initialize_account2_ix_def
  spl_initialize_account3_ix_def initialize_account3_ix_def
  spl_initialize_multisig_ix_def initialize_multisig_ix_def
  spl_initialize_multisig2_ix_def initialize_multisig2_ix_def
  spl_transfer_ix_def transfer_ix_def
  spl_approve_ix_def approve_ix_def
  spl_revoke_ix_def revoke_ix_def
  spl_set_authority_ix_def set_authority_ix_def
  spl_mint_to_ix_def mint_to_ix_def
  spl_burn_ix_def burn_ix_def
  spl_close_account_ix_def close_account_ix_def
  spl_freeze_account_ix_def freeze_account_ix_def
  spl_thaw_account_ix_def thaw_account_ix_def
  spl_transfer_checked_ix_def transfer_checked_ix_def
  spl_approve_checked_ix_def approve_checked_ix_def
  spl_mint_to_checked_ix_def mint_to_checked_ix_def
  spl_burn_checked_ix_def burn_checked_ix_def
  spl_sync_native_ix_def sync_native_ix_def
  spl_get_account_data_size_ix_def get_account_data_size_ix_def
  spl_initialize_immutable_owner_ix_def initialize_immutable_owner_ix_def
  spl_amount_to_ui_amount_ix_def amount_to_ui_amount_ix_def
  spl_ui_amount_to_amount_ix_def ui_amount_to_amount_ix_def

text \<open>
  The clients of both programs send the same instructions: for the classic program's id each of
  its builders gives exactly what the builder of Token-2022 of that name gives (accounts, roles
  and data), and for every other id, that of Token-2022 included, it refuses.
\<close>

theorem classic_builders_agree:
  "spl_initialize_mint_ix p rent mint_key authority freeze dec = classic_only p (initialize_mint_ix p rent mint_key authority freeze dec)
   \<and> spl_initialize_mint2_ix p mint_key authority freeze dec = classic_only p (initialize_mint2_ix p mint_key authority freeze dec)
   \<and> spl_initialize_account_ix p rent account mint_key owner = classic_only p (initialize_account_ix p rent account mint_key owner)
   \<and> spl_initialize_account2_ix p rent account mint_key owner = classic_only p (initialize_account2_ix p rent account mint_key owner)
   \<and> spl_initialize_account3_ix p account mint_key owner = classic_only p (initialize_account3_ix p account mint_key owner)
   \<and> spl_initialize_multisig_ix p rent multisig_key signer_keys m = classic_only p (initialize_multisig_ix p rent multisig_key signer_keys m)
   \<and> spl_initialize_multisig2_ix p multisig_key signer_keys m = classic_only p (initialize_multisig2_ix p multisig_key signer_keys m)
   \<and> spl_transfer_ix p source destination authority signer_keys amt = classic_only p (transfer_ix p source destination authority signer_keys amt)
   \<and> spl_approve_ix p source delegate_key owner signer_keys amt = classic_only p (approve_ix p source delegate_key owner signer_keys amt)
   \<and> spl_revoke_ix p source owner signer_keys = classic_only p (revoke_ix p source owner signer_keys)
   \<and> spl_set_authority_ix p owned new_authority ty owner signer_keys = classic_only p (set_authority_ix p owned new_authority (widen_authority ty) owner signer_keys)
   \<and> spl_mint_to_ix p mint_key account owner signer_keys amt = classic_only p (mint_to_ix p mint_key account owner signer_keys amt)
   \<and> spl_burn_ix p account mint_key authority signer_keys amt = classic_only p (burn_ix p account mint_key authority signer_keys amt)
   \<and> spl_close_account_ix p account destination owner signer_keys = classic_only p (close_account_ix p account destination owner signer_keys)
   \<and> spl_freeze_account_ix p account mint_key owner signer_keys = classic_only p (freeze_account_ix p account mint_key owner signer_keys)
   \<and> spl_thaw_account_ix p account mint_key owner signer_keys = classic_only p (thaw_account_ix p account mint_key owner signer_keys)
   \<and> spl_transfer_checked_ix p source mint_key destination authority signer_keys amt dec = classic_only p (transfer_checked_ix p source mint_key destination authority signer_keys amt dec)
   \<and> spl_approve_checked_ix p source mint_key delegate_key owner signer_keys amt dec = classic_only p (approve_checked_ix p source mint_key delegate_key owner signer_keys amt dec)
   \<and> spl_mint_to_checked_ix p mint_key account owner signer_keys amt dec = classic_only p (mint_to_checked_ix p mint_key account owner signer_keys amt dec)
   \<and> spl_burn_checked_ix p account mint_key authority signer_keys amt dec = classic_only p (burn_checked_ix p account mint_key authority signer_keys amt dec)
   \<and> spl_sync_native_ix p account = classic_only p (sync_native_ix p account)
   \<and> spl_get_account_data_size_ix p mint_key = classic_only p (get_account_data_size_ix p mint_key [])
   \<and> spl_initialize_immutable_owner_ix p account = classic_only p (initialize_immutable_owner_ix p account)
   \<and> spl_amount_to_ui_amount_ix p mint_key amt = classic_only p (amount_to_ui_amount_ix p mint_key amt)
   \<and> spl_ui_amount_to_amount_ix p mint_key ui_amount = classic_only p (ui_amount_to_amount_ix p mint_key ui_amount)"
  by (intro conjI; cases "p = spl_token_id"; simp add: spl_builder_defs classic_only_def)

section \<open>Raw account readers\<close>

text \<open>\<open>GenericTokenAccount\<close>: the classic program has no account but the plain one of 165 bytes.\<close>

definition spl_valid_account_data :: "bytes \<Rightarrow> bool" where
  "spl_valid_account_data d \<longleftrightarrow> length d = 165 \<and> is_initialized_account d"

definition spl_unpack_account_owner :: "bytes \<Rightarrow> pubkey option" where
  "spl_unpack_account_owner d =
     (if spl_valid_account_data d then Some (bytes_key (slice 32 32 d)) else None)"

definition spl_unpack_account_mint :: "bytes \<Rightarrow> pubkey option" where
  "spl_unpack_account_mint d =
     (if spl_valid_account_data d then Some (bytes_key (slice 0 32 d)) else None)"

lemma classic_account_readers:
  "spl_valid_account_data d \<Longrightarrow> valid_account_data d
     \<and> unpack_account_owner d = spl_unpack_account_owner d \<and> unpack_account_mint d = spl_unpack_account_mint d"
  "valid_account_data d \<Longrightarrow> length d \<le> 165 \<Longrightarrow> spl_valid_account_data d"
  by (auto simp: spl_valid_account_data_def valid_account_data_def unpack_account_owner_def
      spl_unpack_account_owner_def unpack_account_mint_def spl_unpack_account_mint_def)

section \<open>Associated token accounts\<close>

text \<open>
  \<open>find\<close> is \<open>Pubkey::find_program_address\<close>, \<open>ata\<close> the id of the associated token account program and
  \<open>system\<close> that of the System program.  Borsh writes an enum without fields as its index.
\<close>

datatype ata_instruction = AtaCreate | AtaCreateIdempotent | AtaRecoverNested

fun ata_bytes :: "ata_instruction \<Rightarrow> bytes" where
  "ata_bytes AtaCreate = [0]"
| "ata_bytes AtaCreateIdempotent = [1]"
| "ata_bytes AtaRecoverNested = [2]"

record ata_sdk =
  find_address :: "bytes list \<Rightarrow> pubkey \<Rightarrow> pubkey \<times> u8"
  ata_id :: pubkey
  system_id :: pubkey
  rent_id :: pubkey

definition associated_address_and_bump :: "ata_sdk \<Rightarrow> pubkey \<Rightarrow> pubkey \<Rightarrow> pubkey \<Rightarrow> pubkey \<Rightarrow> pubkey \<times> u8" where
  "associated_address_and_bump K wallet mint_key program_id prog =
     find_address K [key_bytes wallet, key_bytes prog, key_bytes mint_key] program_id"

definition associated_address_for :: "ata_sdk \<Rightarrow> pubkey \<Rightarrow> pubkey \<Rightarrow> pubkey \<Rightarrow> pubkey" where
  "associated_address_for K wallet mint_key prog =
     fst (associated_address_and_bump K wallet mint_key (ata_id K) prog)"

definition associated_address :: "ata_sdk \<Rightarrow> pubkey \<Rightarrow> pubkey \<Rightarrow> pubkey" where
  "associated_address K wallet mint_key = associated_address_for K wallet mint_key spl_token_id"

definition build_ata_instruction ::
  "ata_sdk \<Rightarrow> pubkey \<Rightarrow> pubkey \<Rightarrow> pubkey \<Rightarrow> pubkey \<Rightarrow> ata_instruction \<Rightarrow> client_instruction token_res" where
  "build_ata_instruction K funding wallet mint_key prog i =
     (if i \<notin> {AtaCreate, AtaCreateIdempotent} then Inl Panic
      else Inr \<lparr>ix_program_id = ata_id K,
        ix_accounts = [writable funding True, writable (associated_address_for K wallet mint_key prog) False,
          readonly wallet False, readonly mint_key False, readonly (system_id K) False, readonly prog False],
        ix_data = ata_bytes i\<rparr>)"

definition create_associated_ix :: "ata_sdk \<Rightarrow> pubkey \<Rightarrow> pubkey \<Rightarrow> pubkey \<Rightarrow> pubkey \<Rightarrow> client_instruction token_res" where
  "create_associated_ix K funding wallet mint_key prog =
     build_ata_instruction K funding wallet mint_key prog AtaCreate"

definition create_associated_idempotent_ix ::
  "ata_sdk \<Rightarrow> pubkey \<Rightarrow> pubkey \<Rightarrow> pubkey \<Rightarrow> pubkey \<Rightarrow> client_instruction token_res" where
  "create_associated_idempotent_ix K funding wallet mint_key prog =
     build_ata_instruction K funding wallet mint_key prog AtaCreateIdempotent"

definition recover_nested_ix :: "ata_sdk \<Rightarrow> pubkey \<Rightarrow> pubkey \<Rightarrow> pubkey \<Rightarrow> pubkey \<Rightarrow> client_instruction" where
  "recover_nested_ix K wallet owner_mint nested_mint prog =
     (let owner_account = associated_address_for K wallet owner_mint prog;
          destination = associated_address_for K wallet nested_mint prog;
          nested = associated_address_for K owner_account nested_mint prog
      in \<lparr>ix_program_id = ata_id K,
          ix_accounts = [writable nested False, readonly nested_mint False, writable destination False,
            readonly owner_account False, readonly owner_mint False, writable wallet True,
            readonly prog False],
          ix_data = ata_bytes AtaRecoverNested\<rparr>)"

text \<open>The deprecated builder in \<open>mod.rs\<close>, for the classic program only.\<close>

definition old_create_associated_ix :: "ata_sdk \<Rightarrow> pubkey \<Rightarrow> pubkey \<Rightarrow> pubkey \<Rightarrow> client_instruction" where
  "old_create_associated_ix K funding wallet mint_key =
     \<lparr>ix_program_id = ata_id K,
      ix_accounts = [writable funding True, writable (associated_address K wallet mint_key) False,
        readonly wallet False, readonly mint_key False, readonly (system_id K) False,
        readonly spl_token_id False, readonly (rent_id K) False],
      ix_data = []\<rparr>"

text \<open>
  A nested account is recovered from the address it was created at by mistake, to the one the
  wallet's own creation would use.
\<close>

lemma recovered_addresses:
  assumes "create_associated_ix K f1 wallet owner_mint tp = Inr owner_ix"
    and "create_associated_ix K f2 (meta_key (ix_accounts owner_ix ! 1)) nested_mint tp = Inr nested_ix"
    and "create_associated_ix K f3 wallet nested_mint tp = Inr own_ix"
  shows "map meta_key (ix_accounts (recover_nested_ix K wallet owner_mint nested_mint tp))
    = [meta_key (ix_accounts nested_ix ! 1), nested_mint, meta_key (ix_accounts own_ix ! 1),
       meta_key (ix_accounts owner_ix ! 1), owner_mint, wallet, tp]
    \<and> required_signers (recover_nested_ix K wallet owner_mint nested_mint tp) = {wallet}"
  using assms by (auto simp: create_associated_ix_def build_ata_instruction_def recover_nested_ix_def Let_def)

end
