(* ===== verification/Spl_Cli.thy ===== *)
theory Spl_Cli
  imports Spl_Token Cli_Wallet "HOL-Library.AList"
begin

text \<open>
  The token commands, \<open>spl-token-cli/src/cli.rs\<close>: what each asks the server, which instructions it
  builds with the builders of \<open>Spl_Token\<close>, and the one transaction it submits through
  \<open>handle_tx\<close>.  The parsed accounts of the server, \<open>f64\<close> arithmetic, the SDK and the iteration order
  of a hash map are parameters; lines printed to the terminal are left out.
\<close>

section \<open>The command line's environment\<close>

datatype token_cli_error = TokenBoxed boxed_error | TokenProgram program_error | TokenSigner string

abbreviation said :: "string \<Rightarrow> token_cli_error" where "said s \<equiv> TokenBoxed (BoxedText s)"

abbreviation of_client :: "client_error \<Rightarrow> token_cli_error" where "of_client e \<equiv> TokenBoxed (BoxedClient e)"

record ui_token_account =
  ut_mint :: string
  ut_owner :: string
  ut_amount :: string
  ut_ui_amount :: string \<comment> \<open>\<open>ui_amount_string\<close>\<close>
  ut_decimals :: u8
  ut_delegate :: "string option"
  ut_frozen :: bool
  ut_is_native :: bool
  ut_close_authority :: "string option"

datatype token_account_type = TatAccount ui_token_account | TatMint | TatMultisig

text \<open>
  \<open>parse_token\<close> reads the JSON of a parsed account as a \<open>TokenAccountType\<close>, \<open>parsed_program\<close> its
  program.  \<open>amount_times\<close> is \<open>(ui_amount * factor as f64) as u64\<close>.
\<close>

record ('s, 'f, 'm, 't) token_cli =
  tc_sdk :: "('s, 'm, 't) cli_sdk"
  tc_ata :: ata_sdk
  tc_memo_id :: pubkey
  tc_create_account :: "pubkey \<Rightarrow> pubkey \<Rightarrow> u64 \<Rightarrow> u64 \<Rightarrow> pubkey \<Rightarrow> client_instruction"
  tc_message_signers :: "'m \<Rightarrow> pubkey list"
  tc_amount_times :: "'f \<Rightarrow> 32 word \<Rightarrow> u64"
  tc_sol_to_lamports :: "'f \<Rightarrow> u64"
  tc_parse_token :: "string \<Rightarrow> string + token_account_type"
  tc_parsed_program :: "string \<Rightarrow> string"
  tc_mint_pack :: "mint pack_fns"
  tc_account_pack :: "token_account pack_fns"
  tc_multisig_pack :: "multisig pack_fns"

record 'w token_server =
  ts_balance :: "pubkey \<Rightarrow> ('w, client_error, string) act" \<comment> \<open>the amount as text\<close>
  ts_by_owner :: "pubkey \<Rightarrow> pubkey \<Rightarrow> ('w, client_error, (string \<times> ui_account) list) act" \<comment> \<open>of a program\<close>
  ts_by_mint :: "pubkey \<Rightarrow> pubkey \<Rightarrow> ('w, client_error, (string \<times> ui_account) list) act"
  ts_supply :: "pubkey \<Rightarrow> ('w, client_error, string) act"

text \<open>\<open>multisigner_pubkeys\<close>, \<open>nonce_account\<close> and \<open>nonce_authority\<close> are what \<open>get_config\<close> leaves empty.\<close>

record token_config =
  fee_payer_key :: pubkey
  cfg_nonce_account :: "pubkey option"
  cfg_nonce_authority :: "pubkey option"
  cfg_query :: blockhash_query
  cfg_sign_only :: bool
  cfg_dump :: bool
  cfg_multisigners :: "pubkey list"
  cfg_program :: pubkey

definition spl_native_mint_id :: pubkey where
  "spl_native_mint_id = 0x100000000f0a098553beb1adc39c4da35c01846637f68fb8481abfe57889b06"

text \<open>\<open>10_usize.pow(decimals)\<close>: \<open>usize\<close> has 32 bits in the browser, and a release build wraps.\<close>

definition ten_to :: "u8 \<Rightarrow> 32 word" where "ten_to d = 10 ^ unat d"

definition ui_amount_to_amount :: "('s, 'f, 'm, 't) token_cli \<Rightarrow> 'f \<Rightarrow> u8 \<Rightarrow> u64" where
  "ui_amount_to_amount X ui dec = tc_amount_times X ui (ten_to dec)"

definition built :: "'a token_res \<Rightarrow> ('w, token_cli_error, 'a) act" where
  "built r = (case r of Inl Panic \<Rightarrow> apanic | Inl (Err e) \<Rightarrow> afail (TokenProgram e) | Inr a \<Rightarrow> aret a)"

definition build_memo :: "('s, 'f, 'm, 't) token_cli \<Rightarrow> string \<Rightarrow> pubkey list \<Rightarrow> client_instruction" where
  "build_memo X memo signer_keys =
     \<lparr>ix_program_id = tc_memo_id X, ix_accounts = map (\<lambda>k. readonly k True) signer_keys, ix_data = text_bytes memo\<rparr>"

definition memo_of :: "('s, 'f, 'm, 't) token_cli \<Rightarrow> token_config \<Rightarrow> string option \<Rightarrow> client_instruction list" where
  "memo_of X cfg memo = (case memo of None \<Rightarrow> [] | Some t \<Rightarrow> [build_memo X t [fee_payer_key cfg]])"

section \<open>Configuration\<close>

text \<open>
  \<open>get_config\<close> with the arguments \<open>A\<close> and the wallet's key: the nonce arguments are commented out,
  but the blockhash query still reads them.
\<close>

definition get_config :: "'s matches \<Rightarrow> pubkey \<Rightarrow> (token_config, cli_error) res" where
  "get_config A wallet =
     rbind (blockhash_query_from_matches A) (\<lambda>q.
     rbind (unwrapped (pubkey_of A ''program_id'')) (\<lambda>p.
     Inr \<lparr>fee_payer_key = wallet, cfg_nonce_account = None, cfg_nonce_authority = None, cfg_query = q,
          cfg_sign_only = arg_present A ''sign_only'', cfg_dump = False, cfg_multisigners = [],
          cfg_program = p\<rparr>))"

text \<open>\<open>unwrap\<close> of a boxed error panics like that of \<open>None\<close>.\<close>

definition signer_key_arg :: "'s matches \<Rightarrow> string \<Rightarrow> (pubkey option, cli_error) res" where
  "signer_key_arg A name = (case pubkey_of_signer A name of Inl _ \<Rightarrow> Inl Panic | Inr k \<Rightarrow> Inr k)"

definition default_address :: "'s matches \<Rightarrow> pubkey \<Rightarrow> (pubkey, cli_error) res" where
  "default_address A wallet =
     rbind (signer_key_arg A ''owner'') (\<lambda>k. Inr (case k of Some k \<Rightarrow> k | None \<Rightarrow> wallet))"

definition pubkey_or_default :: "'s matches \<Rightarrow> pubkey \<Rightarrow> string \<Rightarrow> (pubkey, cli_error) res" where
  "pubkey_or_default A wallet name =
     (if name \<noteq> ''owner'' then
        rbind (signer_key_arg A name) (\<lambda>k. case k of Some k \<Rightarrow> Inr k | None \<Rightarrow> default_address A wallet)
      else default_address A wallet)"

definition associated_for_token_or_override ::
  "ata_sdk \<Rightarrow> token_config \<Rightarrow> 's matches \<Rightarrow> pubkey \<Rightarrow> string \<Rightarrow> pubkey option \<Rightarrow> (pubkey, cli_error) res" where
  "associated_for_token_or_override K cfg A wallet name token =
     rbind (signer_key_arg A name) (\<lambda>k.
     (case k of
        Some k \<Rightarrow> Inr k
      | None \<Rightarrow>
          rbind (unwrapped token) (\<lambda>token.
          rbind (default_address A wallet) (\<lambda>owner.
          Inr (associated_address_for K owner token (cfg_program cfg))))))"

definition associated_or_override ::
  "ata_sdk \<Rightarrow> token_config \<Rightarrow> 's matches \<Rightarrow> pubkey \<Rightarrow> string \<Rightarrow> (pubkey, cli_error) res" where
  "associated_or_override K cfg A wallet name =
     rbind (signer_key_arg A ''token'') (associated_for_token_or_override K cfg A wallet name)"

section \<open>Reading the server\<close>

definition token_account_not_found :: "('w, 'm, 't) client \<Rightarrow> pubkey \<Rightarrow> ('w, client_error, 'a) act" where
  "token_account_not_found C k = afail (new_client_error (''AccountNotFound: pubkey='' @ key_text C k))"

definition get_token_account ::
  "('w, 'm, 't) client \<Rightarrow> ('s, 'f, 'm, 't) token_cli \<Rightarrow> pubkey \<Rightarrow> ('w, client_error, ui_token_account option) act" where
  "get_token_account C X k =
     abind (ep_account C k (commitment_config C) (Some EncJsonParsed)) (\<lambda>v.
     (case v of
        None \<Rightarrow> token_account_not_found C k
      | Some u \<Rightarrow>
         (case ui_data u of
            UiJson s \<Rightarrow>
             (case tc_parse_token X s of
                Inl e \<Rightarrow> afail (new_client_error e)
              | Inr (TatAccount a) \<Rightarrow> aret (Some a)
              | Inr _ \<Rightarrow> token_account_not_found C k)
          | _ \<Rightarrow> token_account_not_found C k)))"

definition check_fee_payer_balance ::
  "('w, 'm, 't) client \<Rightarrow> token_config \<Rightarrow> u64 \<Rightarrow> ('w, token_cli_error, unit) act" where
  "check_fee_payer_balance C cfg required =
     abind (amap_err of_client (get_balance_with_commitment C (fee_payer_key cfg) (commitment_config C))) (\<lambda>l.
     if l < required then afail (said ''Fee payer has insufficient balance'') else aret ())"

definition check_wallet_balance ::
  "('w, 'm, 't) client \<Rightarrow> pubkey \<Rightarrow> u64 \<Rightarrow> ('w, token_cli_error, unit) act" where
  "check_wallet_balance C wallet required =
     abind (amap_err of_client (get_balance_with_commitment C wallet (commitment_config C))) (\<lambda>l.
     if l < required then afail (said ''Wallet has insufficient balance'') else aret ())"

definition resolve_mint_info ::
  "('w, 'm, 't) client \<Rightarrow> ('s, 'f, 'm, 't) token_cli \<Rightarrow> token_config \<Rightarrow> pubkey \<Rightarrow> pubkey option \<Rightarrow> u8 option
     \<Rightarrow> ('w, token_cli_error, pubkey \<times> u8) act" where
  "resolve_mint_info C X cfg token_account mint_address mint_decimals =
     (if \<not> cfg_sign_only cfg then
        abind (amap_err of_client (get_token_account C X token_account)) (\<lambda>found.
        (case found of
           None \<Rightarrow> afail (said ''Could not find token account'')
         | Some a \<Rightarrow>
            (case key_of_text C (ut_mint a) of
               None \<Rightarrow> afail (said ''Invalid key'')
             | Some source_mint \<Rightarrow>
                 if mint_address \<noteq> None \<and> mint_address \<noteq> Some source_mint
                 then afail (said ''Source does not contain tokens of the mint'')
                 else aret (source_mint, ut_decimals a))))
      else
        aret (case mint_address of Some k \<Rightarrow> k | None \<Rightarrow> 0, case mint_decimals of Some d \<Rightarrow> d | None \<Rightarrow> 0))"

definition validate_mint ::
  "('w, 'm, 't) client \<Rightarrow> ('s, 'f, 'm, 't) token_cli \<Rightarrow> pubkey \<Rightarrow> ('w, token_cli_error, unit) act" where
  "validate_mint C X token = (\<lambda>w.
     (case get_account C token w of
        (Inl Panic, w) \<Rightarrow> (Inl Panic, w)
      | (Inl (Err _), w) \<Rightarrow> (Inl (Err (said ''Invalid mint account'')), w)
      | (Inr a, w) \<Rightarrow>
         (case unpack_checked (tc_mint_pack X) (data a) of
            Inl Panic \<Rightarrow> (Inl Panic, w)
          | Inl (Err _) \<Rightarrow> (Inl (Err (said ''Invalid mint account'')), w)
          | Inr _ \<Rightarrow> (Inr (), w))))"

section \<open>Submitting\<close>

definition signed_with :: "string + 'a \<Rightarrow> ('w, token_cli_error, 'a) act" where
  "signed_with r = (case r of Inl e \<Rightarrow> afail (TokenSigner e) | Inr a \<Rightarrow> aret a)"

definition message_for ::
  "('s, 'f, 'm, 't) token_cli \<Rightarrow> token_config \<Rightarrow> client_instruction list \<Rightarrow> ('w, token_cli_error, 'm) act" where
  "message_for X cfg ixs =
     (case cfg_nonce_account cfg of
        None \<Rightarrow> aret (new_message (tc_sdk X) ixs (fee_payer_key cfg))
      | Some n \<Rightarrow>
         (case cfg_nonce_authority cfg of
            None \<Rightarrow> apanic
          | Some a \<Rightarrow> aret (new_message_with_nonce (tc_sdk X) ixs (fee_payer_key cfg) n a)))"

definition sign_and_send ::
  "('w, 'm, 't) client \<Rightarrow> ('s, 'f, 'm, 't) token_cli \<Rightarrow> token_config \<Rightarrow> 's list \<Rightarrow> bool \<Rightarrow> 'm \<Rightarrow> hash
     \<Rightarrow> ('w, token_cli_error, string) act" where
  "sign_and_send C X cfg wallets no_wait m h =
     (let chosen = signers_for_message (signer_key (tc_sdk X)) wallets (tc_message_signers X m) in
      if cfg_sign_only cfg then
        abind (signed_with (try_partial_sign (tc_sdk X) m chosen h)) (\<lambda>t.
        aret (sign_only_text (tc_sdk X) t (cfg_dump cfg)))
      else
        abind (signed_with (try_sign (tc_sdk X) m chosen h)) (\<lambda>t.
        abind (amap_err of_client (send_tx_wrapper C t no_wait)) (\<lambda>sig.
        aret (signature_text (tc_sdk X) sig))))"

definition handle_tx ::
  "('w, 'm, 't) client \<Rightarrow> ('s, 'f, 'm, 't) token_cli \<Rightarrow> token_config \<Rightarrow> 's list \<Rightarrow> bool \<Rightarrow> u64
     \<Rightarrow> client_instruction list \<Rightarrow> ('w, token_cli_error, string) act" where
  "handle_tx C X cfg wallets no_wait rent_minimum ixs =
     abind (message_for X cfg ixs) (\<lambda>m.
     abind (amap_err TokenBoxed (query_blockhash C (cfg_query cfg) (commitment_config C))) (\<lambda>h.
     abind (amap_err of_client (client_fee C m)) (\<lambda>f.
     abind (if \<not> cfg_sign_only cfg then check_fee_payer_balance C cfg (rent_minimum + f) else aret ()) (\<lambda>_.
     sign_and_send C X cfg wallets no_wait m h))))"

section \<open>Creating\<close>

definition rent_minimum_for ::
  "('w, 'm, 't) client \<Rightarrow> token_config \<Rightarrow> nat \<Rightarrow> ('w, token_cli_error, u64) act" where
  "rent_minimum_for C cfg len =
     (if \<not> cfg_sign_only cfg then amap_err of_client (client_minimum_balance C len) else aret 0)"

definition command_create_token ::
  "('w, 'm, 't) client \<Rightarrow> ('s, 'f, 'm, 't) token_cli \<Rightarrow> token_config \<Rightarrow> 's list
     \<Rightarrow> u8 \<Rightarrow> pubkey \<Rightarrow> pubkey \<Rightarrow> bool \<Rightarrow> string option \<Rightarrow> ('w, token_cli_error, string) act" where
  "command_create_token C X cfg wallets dec token auth_key enable_freeze memo =
     abind (rent_minimum_for C cfg 82) (\<lambda>rent_minimum.
     abind (built (spl_initialize_mint_ix (cfg_program cfg) (rent_id (tc_ata X)) token auth_key
              (if enable_freeze then Some auth_key else None) dec)) (\<lambda>ix.
     handle_tx C X cfg wallets False rent_minimum
       ([tc_create_account X (fee_payer_key cfg) token rent_minimum 82 (cfg_program cfg), ix] @ memo_of X cfg memo)))"

definition command_create_account ::
  "('w, 'm, 't) client \<Rightarrow> ('s, 'f, 'm, 't) token_cli \<Rightarrow> token_config \<Rightarrow> 's list
     \<Rightarrow> pubkey \<Rightarrow> pubkey \<Rightarrow> pubkey option \<Rightarrow> ('w, token_cli_error, string) act" where
  "command_create_account C X cfg wallets token owner_key maybe_account =
     abind (rent_minimum_for C cfg 165) (\<lambda>rent_minimum.
     abind (case maybe_account of
              Some k \<Rightarrow>
                abind (built (spl_initialize_account_ix (cfg_program cfg) (rent_id (tc_ata X)) k token owner_key)) (\<lambda>ix.
                aret (k, False, [tc_create_account X (fee_payer_key cfg) k rent_minimum 165 (cfg_program cfg), ix]))
            | None \<Rightarrow>
                abind (built (create_associated_ix (tc_ata X) (fee_payer_key cfg) owner_key token (cfg_program cfg))) (\<lambda>ix.
                aret (associated_address_for (tc_ata X) owner_key token (cfg_program cfg), True, [ix])))
       (\<lambda>(k, system_account_ok, ixs).
     abind (if \<not> cfg_sign_only cfg then
              abind (amap_err of_client (get_account_with_commitment C k (commitment_config C))) (\<lambda>found.
              (case found of
                 None \<Rightarrow> aret ()
               | Some a \<Rightarrow>
                   if \<not> (owner a = system_program_id \<and> system_account_ok)
                   then afail (said ''Error: Account already exists'') else aret ()))
            else aret ()) (\<lambda>_.
     handle_tx C X cfg wallets False rent_minimum ixs)))"

definition command_create_multisig ::
  "('w, 'm, 't) client \<Rightarrow> ('s, 'f, 'm, 't) token_cli \<Rightarrow> token_config \<Rightarrow> 's list
     \<Rightarrow> pubkey \<Rightarrow> u8 \<Rightarrow> pubkey list \<Rightarrow> ('w, token_cli_error, string) act" where
  "command_create_multisig C X cfg wallets multisig_key minimum_signers members =
     abind (rent_minimum_for C cfg 355) (\<lambda>rent_minimum.
     abind (built (spl_initialize_multisig_ix (cfg_program cfg) (rent_id (tc_ata X)) multisig_key members
              minimum_signers)) (\<lambda>ix.
     handle_tx C X cfg wallets False rent_minimum
       [tc_create_account X (fee_payer_key cfg) multisig_key rent_minimum 355 (cfg_program cfg), ix]))"

section \<open>Authorities\<close>

text \<open>\<open>check_associated_token_account\<close>: an associated account is only handed over when forced.\<close>

definition keeps_associated ::
  "('s, 'f, 'm, 't) token_cli \<Rightarrow> token_config \<Rightarrow> pubkey \<Rightarrow> token_account \<Rightarrow> pubkey \<Rightarrow> pubkey option \<Rightarrow> bool \<Rightarrow> bool" where
  "keeps_associated X cfg k a auth_key new_authority force_authorize \<longleftrightarrow>
     \<not> (k = associated_address_for (tc_ata X) (acc_owner a) (acc_mint a) (cfg_program cfg)
        \<and> \<not> force_authorize \<and> Some auth_key \<noteq> new_authority)"

definition previous_authority ::
  "('s, 'f, 'm, 't) token_cli \<Rightarrow> token_config \<Rightarrow> pubkey \<Rightarrow> bytes \<Rightarrow> spl_authority_type \<Rightarrow> pubkey \<Rightarrow> pubkey option
     \<Rightarrow> bool \<Rightarrow> (pubkey option, token_cli_error) res" where
  "previous_authority X cfg k d ty auth_key new_authority force_authorize =
     (case unpack_checked (tc_mint_pack X) d of
        Inl Panic \<Rightarrow> Inl Panic
      | Inr m \<Rightarrow>
         (case ty of
            SplMintTokens \<Rightarrow> Inr (mint_authority m)
          | SplFreezeAccount \<Rightarrow> Inr (freeze_authority m)
          | _ \<Rightarrow> Inl (Err (said ''Authority type not supported for SPL Token mints'')))
      | Inl (Err _) \<Rightarrow>
         (case unpack_checked (tc_account_pack X) d of
            Inl Panic \<Rightarrow> Inl Panic
          | Inl (Err _) \<Rightarrow> Inl (Err (said ''Unsupported account data format''))
          | Inr a \<Rightarrow>
              if ty \<in> {SplMintTokens, SplFreezeAccount}
              then Inl (Err (said ''Authority type not supported for SPL Token accounts''))
              else if \<not> keeps_associated X cfg k a auth_key new_authority force_authorize
              then Inl (Err (said ''Error: attempting to change the authority of an associated token account''))
              else if ty = SplAccountOwner then Inr (Some (acc_owner a))
              else Inr (Some (case close_authority a of Some c \<Rightarrow> c | None \<Rightarrow> acc_owner a))))"

definition command_authorize ::
  "('w, 'm, 't) client \<Rightarrow> ('s, 'f, 'm, 't) token_cli \<Rightarrow> token_config \<Rightarrow> 's list
     \<Rightarrow> pubkey \<Rightarrow> spl_authority_type \<Rightarrow> pubkey \<Rightarrow> pubkey option \<Rightarrow> bool \<Rightarrow> ('w, token_cli_error, string) act" where
  "command_authorize C X cfg wallets k ty auth_key new_authority force_authorize =
     abind (if \<not> cfg_sign_only cfg then
              abind (amap_err of_client (get_account C k)) (\<lambda>a.
              aresult (previous_authority X cfg k (data a) ty auth_key new_authority force_authorize))
            else aret None) (\<lambda>_.
     abind (built (spl_set_authority_ix (cfg_program cfg) k new_authority ty auth_key (cfg_multisigners cfg))) (\<lambda>ix.
     handle_tx C X cfg wallets False 0 [ix]))"

section \<open>Transfers\<close>

text \<open>The amount: the whole balance when none is given; offline it must be given.\<close>

definition transfer_balance ::
  "('w, 'm, 't) client \<Rightarrow> 'w token_server \<Rightarrow> token_config \<Rightarrow> pubkey \<Rightarrow> u64 option \<Rightarrow> ('w, token_cli_error, u64) act" where
  "transfer_balance C V cfg sender maybe_amount =
     (if \<not> cfg_sign_only cfg then
        abind (amap_err (\<lambda>_. said ''Error: Failed to get token balance of sender address'') (ts_balance V sender)) (\<lambda>text.
        (case parse_u64 text of
           None \<Rightarrow> afail (said ''Token account balance could not be parsed'')
         | Some sender_balance \<Rightarrow>
             let l = (case maybe_amount of Some l \<Rightarrow> l | None \<Rightarrow> sender_balance) in
             if sender_balance < l then afail (said ''Error: Sender has insufficient funds'') else aret l))
      else (case maybe_amount of None \<Rightarrow> apanic | Some l \<Rightarrow> aret l))"

text \<open>Whether the recipient is itself a token account, of the program and of 165 bytes.\<close>

definition recipient_is_token_account ::
  "('w, 'm, 't) client \<Rightarrow> token_config \<Rightarrow> pubkey \<Rightarrow> bool \<Rightarrow> bool \<Rightarrow> bool \<Rightarrow> ('w, token_cli_error, bool) act" where
  "recipient_is_token_account C cfg recipient allow_unfunded allow_non_system is_ata_owner =
     (if \<not> cfg_sign_only cfg then
        abind (amap_err of_client (get_account_with_commitment C recipient (commitment_config C))) (\<lambda>found.
        (case found of
           None \<Rightarrow> if \<not> allow_unfunded then afail (said ''Error: The recipient address is not funded.'') else aret False
         | Some a \<Rightarrow>
             let is_token = (owner a = cfg_program cfg \<and> length (data a) = 165) in
             if \<not> is_token \<and> owner a \<noteq> system_program_id \<and> \<not> allow_non_system
             then afail (said ''Error: The recipient address is not owned by the System Program.'')
             else aret is_token))
      else aret (\<not> is_ata_owner))"

definition needs_funding ::
  "('w, 'm, 't) client \<Rightarrow> token_config \<Rightarrow> pubkey \<Rightarrow> bool \<Rightarrow> ('w, token_cli_error, bool) act" where
  "needs_funding C cfg k fund_recipient =
     (if \<not> cfg_sign_only cfg then
        abind (amap_err of_client (get_account_with_commitment C k (commitment_config C))) (\<lambda>found.
        (case found of
           None \<Rightarrow> aret True
         | Some a \<Rightarrow>
             if owner a = system_program_id then aret True
             else if owner a = cfg_program cfg then aret False
             else afail (said ''Error: Unsupported recipient address'')))
      else aret fund_recipient)"

text \<open>The account paid into, the instructions that create it and their rent.\<close>

definition recipient_account ::
  "('w, 'm, 't) client \<Rightarrow> ('s, 'f, 'm, 't) token_cli \<Rightarrow> token_config \<Rightarrow> pubkey \<Rightarrow> pubkey \<Rightarrow> bool \<Rightarrow> bool
     \<Rightarrow> ('w, token_cli_error, pubkey \<times> client_instruction list \<times> u64) act" where
  "recipient_account C X cfg recipient mint_key is_token fund_recipient =
     (if is_token then aret (recipient, [], 0)
      else
        let k = associated_address_for (tc_ata X) recipient mint_key (cfg_program cfg) in
        abind (needs_funding C cfg k fund_recipient) (\<lambda>needed.
        if \<not> needed then aret (k, [], 0)
        else if \<not> fund_recipient
        then afail (said ''Error: Associated token account does not exist.'')
        else
          abind (rent_minimum_for C cfg 165) (\<lambda>rent_minimum.
          abind (built (create_associated_ix (tc_ata X) (fee_payer_key cfg) recipient mint_key (cfg_program cfg))) (\<lambda>ix.
          aret (k, [ix], rent_minimum)))))"

record token_transfer =
  tt_token :: pubkey
  tt_recipient :: pubkey
  tt_sender :: "pubkey option"
  tt_owner :: pubkey
  tt_allow_unfunded :: bool
  tt_fund_recipient :: bool
  tt_decimals :: "u8 option"
  tt_is_ata_owner :: bool
  tt_unchecked :: bool
  tt_memo :: "string option"
  tt_no_wait :: bool
  tt_allow_non_system :: bool

definition transfer_instruction ::
  "token_config \<Rightarrow> token_transfer \<Rightarrow> pubkey \<Rightarrow> pubkey \<Rightarrow> pubkey \<Rightarrow> u64 \<Rightarrow> u8 \<Rightarrow> client_instruction token_res" where
  "transfer_instruction cfg cmd sender mint_key destination l dec =
     (if tt_unchecked cmd
      then spl_transfer_ix (cfg_program cfg) sender destination (tt_owner cmd) (cfg_multisigners cfg) l
      else spl_transfer_checked_ix (cfg_program cfg) sender mint_key destination (tt_owner cmd)
             (cfg_multisigners cfg) l dec)"

definition transfer_sender :: "('s, 'f, 'm, 't) token_cli \<Rightarrow> token_config \<Rightarrow> token_transfer \<Rightarrow> pubkey" where
  "transfer_sender X cfg cmd =
     (case tt_sender cmd of
        Some k \<Rightarrow> k
      | None \<Rightarrow> associated_address_for (tc_ata X) (tt_owner cmd) (tt_token cmd) (cfg_program cfg))"

definition command_transfer ::
  "('w, 'm, 't) client \<Rightarrow> 'w token_server \<Rightarrow> ('s, 'f, 'm, 't) token_cli \<Rightarrow> token_config \<Rightarrow> 's list
     \<Rightarrow> 'f option \<Rightarrow> token_transfer \<Rightarrow> ('w, token_cli_error, string) act" where
  "command_transfer C V X cfg wallets ui_amount cmd =
     (let sender = transfer_sender X cfg cmd in
     abind (resolve_mint_info C X cfg sender (Some (tt_token cmd)) (tt_decimals cmd)) (\<lambda>(mint_key, dec).
     abind (transfer_balance C V cfg sender (map_option (\<lambda>u. ui_amount_to_amount X u dec) ui_amount)) (\<lambda>l.
     abind (recipient_is_token_account C cfg (tt_recipient cmd) (tt_allow_unfunded cmd) (tt_allow_non_system cmd)
              (tt_is_ata_owner cmd)) (\<lambda>is_token.
     abind (recipient_account C X cfg (tt_recipient cmd) mint_key is_token (tt_fund_recipient cmd))
       (\<lambda>(destination, creation, rent_minimum).
     abind (built (transfer_instruction cfg cmd sender mint_key destination l dec)) (\<lambda>ix.
     handle_tx C X cfg wallets (tt_no_wait cmd) rent_minimum (creation @ [ix] @ memo_of X cfg (tt_memo cmd))))))))"

section \<open>The other commands\<close>

text \<open>The signature all of them share: the client, the environment, the configuration, the signers.\<close>

type_synonym ('w, 's, 'f, 'm, 't, 'r) token_command =
  "('w, 'm, 't) client \<Rightarrow> ('s, 'f, 'm, 't) token_cli \<Rightarrow> token_config \<Rightarrow> 's list \<Rightarrow> 'r"

definition command_burn ::
  "('w, 's, 'f, 'm, 't, pubkey \<Rightarrow> pubkey \<Rightarrow> 'f \<Rightarrow> pubkey option \<Rightarrow> u8 option \<Rightarrow> bool \<Rightarrow> string option
     \<Rightarrow> ('w, token_cli_error, string) act) token_command" where
  "command_burn C X cfg wallets source owner_key ui_amount mint_address mint_decimals unchecked memo =
     abind (resolve_mint_info C X cfg source mint_address mint_decimals) (\<lambda>(mint_key, dec).
     let l = ui_amount_to_amount X ui_amount dec in
     abind (built (if unchecked
                   then spl_burn_ix (cfg_program cfg) source mint_key owner_key (cfg_multisigners cfg) l
                   else spl_burn_checked_ix (cfg_program cfg) source mint_key owner_key (cfg_multisigners cfg) l dec)) (\<lambda>ix.
     handle_tx C X cfg wallets False 0 ([ix] @ memo_of X cfg memo)))"

definition command_mint ::
  "('w, 's, 'f, 'm, 't, pubkey \<Rightarrow> 'f \<Rightarrow> pubkey \<Rightarrow> u8 option \<Rightarrow> pubkey \<Rightarrow> bool
     \<Rightarrow> ('w, token_cli_error, string) act) token_command" where
  "command_mint C X cfg wallets token ui_amount recipient mint_decimals auth_key unchecked =
     abind (resolve_mint_info C X cfg recipient None mint_decimals) (\<lambda>(_, dec).
     let l = ui_amount_to_amount X ui_amount dec in
     abind (built (if unchecked
                   then spl_mint_to_ix (cfg_program cfg) token recipient auth_key (cfg_multisigners cfg) l
                   else spl_mint_to_checked_ix (cfg_program cfg) token recipient auth_key (cfg_multisigners cfg) l dec)) (\<lambda>ix.
     handle_tx C X cfg wallets False 0 [ix]))"

definition command_freeze ::
  "('w, 's, 'f, 'm, 't, pubkey \<Rightarrow> pubkey option \<Rightarrow> pubkey \<Rightarrow> ('w, token_cli_error, string) act) token_command" where
  "command_freeze C X cfg wallets k mint_address auth_key =
     abind (resolve_mint_info C X cfg k mint_address None) (\<lambda>(token, _).
     abind (built (spl_freeze_account_ix (cfg_program cfg) k token auth_key (cfg_multisigners cfg))) (\<lambda>ix.
     handle_tx C X cfg wallets False 0 [ix]))"

definition command_thaw ::
  "('w, 's, 'f, 'm, 't, pubkey \<Rightarrow> pubkey option \<Rightarrow> pubkey \<Rightarrow> ('w, token_cli_error, string) act) token_command" where
  "command_thaw C X cfg wallets k mint_address auth_key =
     abind (resolve_mint_info C X cfg k mint_address None) (\<lambda>(token, _).
     abind (built (spl_thaw_account_ix (cfg_program cfg) k token auth_key (cfg_multisigners cfg))) (\<lambda>ix.
     handle_tx C X cfg wallets False 0 [ix]))"

definition command_wrap ::
  "('w, 's, 'f, 'm, 't, 'f \<Rightarrow> pubkey \<Rightarrow> pubkey option \<Rightarrow> ('w, token_cli_error, string) act) token_command" where
  "command_wrap C X cfg wallets sol wallet wrapped_account =
     (let l = tc_sol_to_lamports X sol in
     abind (case wrapped_account of
              Some k \<Rightarrow>
                abind (built (spl_initialize_account_ix (cfg_program cfg) (rent_id (tc_ata X)) k spl_native_mint_id wallet)) (\<lambda>ix.
                aret [tc_create_account X wallet k l 165 (cfg_program cfg), ix])
            | None \<Rightarrow>
                let k = associated_address_for (tc_ata X) wallet spl_native_mint_id (cfg_program cfg) in
                abind (if \<not> cfg_sign_only cfg then
                         abind (amap_err of_client (get_account_with_commitment C k (commitment_config C))) (\<lambda>found.
                         (case found of
                            None \<Rightarrow> aret ()
                          | Some a \<Rightarrow> if owner a \<noteq> system_program_id
                                      then afail (said ''Error: Account already exists'') else aret ()))
                       else aret ()) (\<lambda>_.
                abind (built (create_associated_ix (tc_ata X) (fee_payer_key cfg) wallet spl_native_mint_id
                         (cfg_program cfg))) (\<lambda>ix.
                aret [sys_transfer (tc_sdk X) wallet k l, ix]))) (\<lambda>ixs.
     abind (if \<not> cfg_sign_only cfg then check_wallet_balance C wallet l else aret ()) (\<lambda>_.
     handle_tx C X cfg wallets False 0 ixs)))"

definition command_unwrap ::
  "('w, 's, 'f, 'm, 't, pubkey \<Rightarrow> pubkey option \<Rightarrow> ('w, token_cli_error, string) act) token_command" where
  "command_unwrap C X cfg wallets wallet address =
     (let k = (case address of
                 Some k \<Rightarrow> k
               | None \<Rightarrow> associated_address_for (tc_ata X) wallet spl_native_mint_id (cfg_program cfg)) in
     abind (if \<not> cfg_sign_only cfg then
              abind (amap_err of_client (get_balance_with_commitment C k (commitment_config C))) (\<lambda>l.
              if l = 0 then afail (said ''No wrapped SOL'') else aret ())
            else aret ()) (\<lambda>_.
     abind (built (spl_close_account_ix (cfg_program cfg) k wallet wallet (cfg_multisigners cfg))) (\<lambda>ix.
     handle_tx C X cfg wallets False 0 [ix])))"

definition command_approve ::
  "('w, 's, 'f, 'm, 't, pubkey \<Rightarrow> pubkey \<Rightarrow> 'f \<Rightarrow> pubkey \<Rightarrow> pubkey option \<Rightarrow> u8 option \<Rightarrow> bool
     \<Rightarrow> ('w, token_cli_error, string) act) token_command" where
  "command_approve C X cfg wallets k owner_key ui_amount delegate_key mint_address mint_decimals unchecked =
     abind (resolve_mint_info C X cfg k mint_address mint_decimals) (\<lambda>(mint_key, dec).
     let l = ui_amount_to_amount X ui_amount dec in
     abind (built (if unchecked
                   then spl_approve_ix (cfg_program cfg) k delegate_key owner_key (cfg_multisigners cfg) l
                   else spl_approve_checked_ix (cfg_program cfg) k mint_key delegate_key owner_key
                          (cfg_multisigners cfg) l dec)) (\<lambda>ix.
     handle_tx C X cfg wallets False 0 [ix]))"

definition command_revoke ::
  "('w, 's, 'f, 'm, 't, pubkey \<Rightarrow> pubkey \<Rightarrow> pubkey option \<Rightarrow> ('w, token_cli_error, string) act) token_command" where
  "command_revoke C X cfg wallets k owner_key delegate_arg =
     abind (if \<not> cfg_sign_only cfg then
              abind (amap_err of_client (get_token_account C X k)) (\<lambda>found.
              (case found of
                 None \<Rightarrow> afail (said ''Could not find token account'')
               | Some a \<Rightarrow>
                  (case ut_delegate a of
                     None \<Rightarrow> aret None
                   | Some text \<Rightarrow>
                      (case key_of_text C text of None \<Rightarrow> afail (said ''Invalid key'') | Some d \<Rightarrow> aret (Some d)))))
            else aret delegate_arg) (\<lambda>d.
     if d = None then afail (said ''No delegate on account'')
     else
       abind (built (spl_revoke_ix (cfg_program cfg) k owner_key (cfg_multisigners cfg))) (\<lambda>ix.
       handle_tx C X cfg wallets False 0 [ix]))"

definition command_close ::
  "('w, 's, 'f, 'm, 't, pubkey \<Rightarrow> pubkey \<Rightarrow> pubkey \<Rightarrow> ('w, token_cli_error, string) act) token_command" where
  "command_close C X cfg wallets k auth_key recipient =
     abind (if \<not> cfg_sign_only cfg then
              abind (amap_err of_client (get_token_account C X k)) (\<lambda>found.
              (case found of
                 None \<Rightarrow> afail (said ''Could not find token account'')
               | Some a \<Rightarrow>
                  (case parse_u64 (ut_amount a) of
                     None \<Rightarrow> afail (said ''Token account balance could not be parsed'')
                   | Some l \<Rightarrow>
                       if \<not> ut_is_native a \<and> 0 < l
                       then afail (said ''Account still has tokens; empty the account in order to close it.'')
                       else aret ())))
            else aret ()) (\<lambda>_.
     abind (built (spl_close_account_ix (cfg_program cfg) k recipient auth_key (cfg_multisigners cfg))) (\<lambda>ix.
     handle_tx C X cfg wallets False 0 [ix]))"

definition command_sync_native ::
  "('w, 's, 'f, 'm, 't, pubkey \<Rightarrow> ('w, token_cli_error, string) act) token_command" where
  "command_sync_native C X cfg wallets k =
     abind (built (spl_sync_native_ix (cfg_program cfg) k)) (\<lambda>ix. handle_tx C X cfg wallets False 0 [ix])"

text \<open>The associated address shown for a wallet, when a mint is given.\<close>

definition command_address ::
  "('w, 'm, 't) client \<Rightarrow> ('s, 'f, 'm, 't) token_cli \<Rightarrow> token_config \<Rightarrow> pubkey option \<Rightarrow> pubkey
     \<Rightarrow> ('w, token_cli_error, pubkey \<times> pubkey option) act" where
  "command_address C X cfg token owner_key =
     (case token of
        None \<Rightarrow> aret (owner_key, None)
      | Some t \<Rightarrow>
          abind (validate_mint C X t) (\<lambda>_.
          aret (owner_key, Some (associated_address_for (tc_ata X) owner_key t (cfg_program cfg)))))"

text \<open>\<open>m\<close>, \<open>n\<close> and the first \<open>n\<close> members; the array has eleven.\<close>

definition command_multisig ::
  "('w, 'm, 't) client \<Rightarrow> ('s, 'f, 'm, 't) token_cli \<Rightarrow> pubkey \<Rightarrow> ('w, token_cli_error, u8 \<times> u8 \<times> pubkey list) act" where
  "command_multisig C X k =
     abind (amap_err of_client (get_account C k)) (\<lambda>a.
     abind (built (unpack_checked (tc_multisig_pack X) (data a))) (\<lambda>s.
     if length (signers s) < unat (valid_signers s) then apanic
     else aret (multisig.required_signers s, valid_signers s, take (unat (valid_signers s)) (signers s))))"

section \<open>Garbage collection\<close>

text \<open>The amount, the decimals, whether it is frozen, and the close authority.\<close>

type_synonym gc_entry = "u64 \<times> u8 \<times> bool \<times> pubkey"

definition gc_parse_key :: "('w, 'm, 't) client \<Rightarrow> string \<Rightarrow> (pubkey, token_cli_error) res" where
  "gc_parse_key C s = (case key_of_text C s of None \<Rightarrow> Inl Panic | Some k \<Rightarrow> Inr k)"

definition gc_account ::
  "('w, 'm, 't) client \<Rightarrow> ('s, 'f, 'm, 't) token_cli \<Rightarrow> pubkey \<Rightarrow> string \<times> ui_account
     \<Rightarrow> ((pubkey \<times> pubkey \<times> gc_entry) option, token_cli_error) res" where
  "gc_account C X owner_key keyed =
     (case ui_data (snd keyed) of
        UiJson s \<Rightarrow>
          if tc_parsed_program X s \<noteq> ''spl-token'' then Inr None
          else (case tc_parse_token X s of
             Inr (TatAccount a) \<Rightarrow>
               rbind (gc_parse_key C (ut_mint a)) (\<lambda>token.
               rbind (gc_parse_key C (fst keyed)) (\<lambda>k.
               rbind (case parse_u64 (ut_amount a) of None \<Rightarrow> Inl Panic | Some l \<Rightarrow> Inr l) (\<lambda>l.
               rbind (case ut_close_authority a of None \<Rightarrow> Inr owner_key | Some t \<Rightarrow> gc_parse_key C t) (\<lambda>c.
               Inr (Some (token, k, l, ut_decimals a, ut_frozen a, c))))))
           | _ \<Rightarrow> Inr None)
      | _ \<Rightarrow> Inr None)"

type_synonym gc_groups = "(pubkey \<times> (pubkey \<times> gc_entry) list) list"

definition gc_insert :: "pubkey \<Rightarrow> pubkey \<Rightarrow> gc_entry \<Rightarrow> gc_groups \<Rightarrow> gc_groups" where
  "gc_insert token k e groups =
     AList.update token
       (AList.update k e (case map_of groups token of None \<Rightarrow> [] | Some held \<Rightarrow> held)) groups"

fun gc_group ::
  "('w, 'm, 't) client \<Rightarrow> ('s, 'f, 'm, 't) token_cli \<Rightarrow> pubkey \<Rightarrow> (string \<times> ui_account) list \<Rightarrow> gc_groups
     \<Rightarrow> (gc_groups, token_cli_error) res" where
  "gc_group C X owner_key [] groups = Inr groups"
| "gc_group C X owner_key (keyed # rest) groups =
     rbind (gc_account C X owner_key keyed) (\<lambda>found.
     gc_group C X owner_key rest
       (case found of None \<Rightarrow> groups | Some (token, k, e) \<Rightarrow> gc_insert token k e groups))"

text \<open>The sum of a release build wraps.\<close>

definition gc_total :: "(pubkey \<times> gc_entry) list \<Rightarrow> u64" where
  "gc_total held = sum_list (map (\<lambda>(_, l, _). l) held)"

definition gc_account_tx ::
  "token_config \<Rightarrow> pubkey \<Rightarrow> bool \<Rightarrow> pubkey \<Rightarrow> pubkey \<Rightarrow> u64 \<Rightarrow> pubkey \<times> gc_entry
     \<Rightarrow> client_instruction list token_res" where
  "gc_account_tx cfg owner_key close_empty token associated sum_held entry =
     (let (k, l, dec, frozen, close_key) = entry in
      if k = associated \<and> 0 < sum_held \<or> k = associated \<and> \<not> close_empty then Inr []
      else if frozen then Inr []
      else if \<not> (l = 0 \<or> k \<noteq> associated) then Inl Panic
      else
        rbind (if 0 < l
               then rbind (spl_transfer_checked_ix (cfg_program cfg) k token associated owner_key
                             (cfg_multisigners cfg) l dec) (\<lambda>ix. Inr [ix])
               else Inr []) (\<lambda>moves.
        rbind (if close_key = owner_key
               then rbind (spl_close_account_ix (cfg_program cfg) k owner_key owner_key
                             (cfg_multisigners cfg)) (\<lambda>ix. Inr [ix])
               else Inr []) (\<lambda>closes.
        Inr (moves @ closes))))"

fun gc_accounts_txs ::
  "token_config \<Rightarrow> pubkey \<Rightarrow> bool \<Rightarrow> pubkey \<Rightarrow> pubkey \<Rightarrow> u64 \<Rightarrow> (pubkey \<times> gc_entry) list
     \<Rightarrow> client_instruction list list token_res" where
  "gc_accounts_txs cfg owner_key close_empty token associated sum_held [] = Inr []"
| "gc_accounts_txs cfg owner_key close_empty token associated sum_held (e # es) =
     rbind (gc_account_tx cfg owner_key close_empty token associated sum_held e) (\<lambda>ixs.
     rbind (gc_accounts_txs cfg owner_key close_empty token associated sum_held es) (\<lambda>txs.
     Inr ((if ixs \<noteq> [] then [ixs] else []) @ txs)))"

fun gc_plan ::
  "('s, 'f, 'm, 't) token_cli \<Rightarrow> token_config \<Rightarrow> pubkey \<Rightarrow> bool \<Rightarrow> u64 \<Rightarrow> gc_groups
     \<Rightarrow> (client_instruction list list \<times> u64) token_res" where
  "gc_plan X cfg owner_key close_empty rent_minimum [] = Inr ([], 0)"
| "gc_plan X cfg owner_key close_empty rent_minimum ((token, held) # groups) =
     (let associated = associated_address_for (tc_ata X) owner_key token (cfg_program cfg);
          sum_held = gc_total held;
          create = 0 < sum_held \<and> associated \<notin> fst ` set held
      in rbind (if create
                then rbind (create_associated_ix (tc_ata X) (fee_payer_key cfg) owner_key token (cfg_program cfg))
                       (\<lambda>ix. Inr [[ix]])
                else Inr []) (\<lambda>creation.
         rbind (gc_accounts_txs cfg owner_key close_empty token associated sum_held held) (\<lambda>txs.
         rbind (gc_plan X cfg owner_key close_empty rent_minimum groups) (\<lambda>(rest, needed).
         Inr (creation @ txs @ rest, (if create then rent_minimum else 0) + needed)))))"

fun handle_txs ::
  "('w, 'm, 't) client \<Rightarrow> ('s, 'f, 'm, 't) token_cli \<Rightarrow> token_config \<Rightarrow> 's list \<Rightarrow> u64
     \<Rightarrow> client_instruction list list \<Rightarrow> ('w, token_cli_error, string list) act" where
  "handle_txs C X cfg wallets needed [] = aret []"
| "handle_txs C X cfg wallets needed (ixs # rest) =
     abind (handle_tx C X cfg wallets False needed ixs) (\<lambda>line.
     abind (handle_txs C X cfg wallets needed rest) (\<lambda>lines. aret (line # lines)))"

text \<open>
  \<open>arrange\<close> is the order the hash map of tokens, and that of the accounts of each, iterate in.
  The plan is complete before anything is sent.
\<close>

definition command_gc ::
  "('w, 'm, 't) client \<Rightarrow> 'w token_server \<Rightarrow> ('s, 'f, 'm, 't) token_cli \<Rightarrow> token_config \<Rightarrow> 's list
     \<Rightarrow> (gc_groups \<Rightarrow> gc_groups) \<Rightarrow> pubkey \<Rightarrow> bool \<Rightarrow> ('w, token_cli_error, string list) act" where
  "command_gc C V X cfg wallets arrange owner_key close_empty =
     abind (amap_err of_client (ts_by_owner V owner_key (cfg_program cfg))) (\<lambda>held.
     if held = [] then aret []
     else
       abind (rent_minimum_for C cfg 165) (\<lambda>rent_minimum.
       abind (aresult (gc_group C X owner_key held [])) (\<lambda>groups.
       abind (built (gc_plan X cfg owner_key close_empty rent_minimum (arrange groups))) (\<lambda>(txs, needed).
       handle_txs C X cfg wallets needed txs))))"

end
