(* ===== verification/Spl_Process.thy ===== *)
theory Spl_Process
  imports Spl_Cli "HOL-Library.Char_ord" "HOL-Library.List_Lexorder"
begin

text \<open>
  The token command line from its arguments on: \<open>process_command\<close> and the commands that only
  show something (\<open>spl-token-cli/src/cli.rs\<close>), the listing of an owner's accounts (\<open>sort.rs\<close>),
  and the entry point \<open>run_spl_token\<close> (\<open>wasm.rs\<close>) behind the parser of clap.
\<close>

section \<open>Arguments\<close>

text \<open>
  \<open>arg_values\<close> are the values of an argument given several times, \<open>parse_f64\<close> is
  \<open>str::parse::<f64>\<close>, \<open>throwaway\<close> the keypair \<open>Keypair::new\<close> makes up, \<open>wallet_signer\<close> the keypair
  of the wallet, and \<open>json_output\<close> whether the output format is one of the two JSON formats.
\<close>

record ('s, 'f) token_args =
  ta_matches :: "'s matches"
  arg_values :: "string \<Rightarrow> string list option"
  parse_f64 :: "string \<Rightarrow> 'f option"
  throwaway :: 's
  wallet_signer :: 's
  json_output :: bool

datatype command_name =
    CnCreateToken | CnClose | CnCreateAccount | CnCreateMultisig | CnAuthorize | CnTransfer | CnBurn | CnMint
  | CnFreeze | CnThaw | CnWrap | CnUnwrap | CnApprove | CnRevoke | CnBalance | CnSupply | CnAccounts | CnAddress
  | CnAccountInfo | CnMultisigInfo | CnGc | CnSyncNative

definition parse_u8 :: "string \<Rightarrow> u8 option" where
  "parse_u8 s =
     (let ds = (case s of [] \<Rightarrow> [] | c # r \<Rightarrow> if c = CHR ''+'' then r else s) in
      if ds = [] \<or> \<not> list_all is_digit_char ds \<or> 2 ^ 8 \<le> digits_value ds then None
      else Some (of_nat (digits_value ds)))"

text \<open>Reading an argument fails by a panic only, \<open>unwrap\<close>, \<open>exit\<close> or an explicit one.\<close>

definition or_panic :: "('a, cli_error) res \<Rightarrow> ('w, token_cli_error, 'a) act" where
  "or_panic r = (case r of Inl _ \<Rightarrow> apanic | Inr a \<Rightarrow> aret a)"

definition opt_key :: "('s, 'f) token_args \<Rightarrow> string \<Rightarrow> ('w, token_cli_error, pubkey option) act" where
  "opt_key A name = or_panic (signer_key_arg (ta_matches A) name)"

definition need_key :: "('s, 'f) token_args \<Rightarrow> string \<Rightarrow> ('w, token_cli_error, pubkey) act" where
  "need_key A name = or_panic (rbind (signer_key_arg (ta_matches A) name) unwrapped)"

definition need :: "('s, 'f) token_args \<Rightarrow> (string \<Rightarrow> 'a option) \<Rightarrow> string \<Rightarrow> ('w, token_cli_error, 'a) act" where
  "need A parse name = or_panic (unwrapped (value_of (ta_matches A) parse name))"

definition get_signer :: "('s, 'f) token_args \<Rightarrow> string \<Rightarrow> ('w, token_cli_error, 's option) act" where
  "get_signer A name =
     (case arg_value (ta_matches A) name of
        None \<Rightarrow> aret None
      | Some path \<Rightarrow>
         (case signer_from_path (ta_matches A) path name of Inl _ \<Rightarrow> apanic | Inr s \<Rightarrow> aret (Some s)))"

text \<open>\<open>signer_or_default\<close> ignores which argument it is asked for.\<close>

definition signer_or_default :: "('s \<Rightarrow> pubkey) \<Rightarrow> ('s, 'f) token_args \<Rightarrow> string \<Rightarrow> 's \<times> pubkey" where
  "signer_or_default key A name = (wallet_signer A, key (wallet_signer A))"

fun keys_from_paths :: "'s matches \<Rightarrow> string \<Rightarrow> string list \<Rightarrow> string + pubkey list" where
  "keys_from_paths M name [] = Inr []"
| "keys_from_paths M name (path # paths) =
     (case pubkey_from_path M path name of
        Inl e \<Rightarrow> Inl e
      | Inr k \<Rightarrow> map_sum id (\<lambda>ks. k # ks) (keys_from_paths M name paths))"

definition pubkeys_of_multiple_signers ::
  "('s, 'f) token_args \<Rightarrow> string \<Rightarrow> string + pubkey list option" where
  "pubkeys_of_multiple_signers A name =
     (case arg_values A name of
        Some paths \<Rightarrow> map_sum id Some (keys_from_paths (ta_matches A) name paths)
      | None \<Rightarrow> Inr None)"

definition authority_type_of :: "string \<Rightarrow> spl_authority_type option" where
  "authority_type_of s =
     (if s = ''mint'' then Some SplMintTokens
      else if s = ''freeze'' then Some SplFreezeAccount
      else if s = ''owner'' then Some SplAccountOwner
      else if s = ''close'' then Some SplCloseAuthority
      else None)"

section \<open>Showing accounts\<close>

record listed_account =
  la_address :: string
  la_account :: ui_token_account
  la_associated :: bool

text \<open>The accounts by mint, those that are none with the reason, the widest balance, the column flag.\<close>

record token_listing =
  tl_accounts :: "(string \<times> listed_account list) list"
  tl_unsupported :: "(string \<times> string) list"
  tl_width :: nat
  tl_aux :: bool

definition real_number_string_trimmed :: "ui_token_account \<Rightarrow> string" where
  "real_number_string_trimmed a =
     (if ut_ui_amount a \<noteq> [] then ut_ui_amount a
      else amount_to_ui_amount_string_trimmed (case parse_u64 (ut_amount a) of Some l \<Rightarrow> l | None \<Rightarrow> 0) (ut_decimals a))"

text \<open>\<open>entry(mint)\<close> of a \<open>BTreeMap\<close>, as a list in the order of the keys.\<close>

fun mint_push :: "string \<Rightarrow> 'a \<Rightarrow> (string \<times> 'a list) list \<Rightarrow> (string \<times> 'a list) list" where
  "mint_push m a [] = [(m, [a])]"
| "mint_push m a ((m', listed) # rest) =
     (if m = m' then (m', listed @ [a]) # rest
      else if m < m' then (m, [a]) # (m', listed) # rest
      else (m', listed) # mint_push m a rest)"

definition unsupported :: "string \<Rightarrow> string \<Rightarrow> token_listing \<Rightarrow> token_listing" where
  "unsupported address e L = L\<lparr>tl_unsupported := tl_unsupported L @ [(address, e)]\<rparr>"

definition list_account ::
  "('w, 'm, 't) client \<Rightarrow> ('s, 'f, 'm, 't) token_cli \<Rightarrow> pubkey \<Rightarrow> pubkey \<Rightarrow> string \<times> ui_account
     \<Rightarrow> token_listing \<Rightarrow> token_listing" where
  "list_account C X owner_key program keyed L =
     (let address = fst keyed in
      case ui_data (snd keyed) of
        UiJson s \<Rightarrow>
          if tc_parsed_program X s \<noteq> ''spl-token''
          then unsupported address (''Unsupported account program: '' @ tc_parsed_program X s) L
          else
           (case tc_parse_token X s of
              Inr (TatAccount a) \<Rightarrow>
                let key = key_of_text C (ut_mint a);
                    associated = (case key of
                        Some k \<Rightarrow> key_text C (associated_address_for (tc_ata X) owner_key k program) = address
                      | None \<Rightarrow> False)
                in L\<lparr>tl_accounts := mint_push (ut_mint a)
                       \<lparr>la_address = address, la_account = a, la_associated = associated\<rparr> (tl_accounts L),
                     tl_width := max (tl_width L) (length (real_number_string_trimmed a)),
                     tl_aux := (tl_aux L \<or> key = None)\<rparr>
            | Inr _ \<Rightarrow> unsupported address ''Not a token account'' L
            | Inl e \<Rightarrow> unsupported address (''Account parse failure: '' @ e) L)
      | _ \<Rightarrow> unsupported address ''Unsupported account data format'' L)"

text \<open>The stable sort that puts associated accounts first.\<close>

definition associated_first :: "listed_account list \<Rightarrow> listed_account list" where
  "associated_first as = filter la_associated as @ filter (\<lambda>a. \<not> la_associated a) as"

definition sort_and_parse_token_accounts ::
  "('w, 'm, 't) client \<Rightarrow> ('s, 'f, 'm, 't) token_cli \<Rightarrow> pubkey \<Rightarrow> (string \<times> ui_account) list \<Rightarrow> pubkey
     \<Rightarrow> token_listing" where
  "sort_and_parse_token_accounts C X owner_key keyed program =
     (let L = fold (list_account C X owner_key program) keyed
            \<lparr>tl_accounts = [], tl_unsupported = [], tl_width = 0, tl_aux = False\<rparr>
      in L\<lparr>tl_accounts := map (\<lambda>(m, as). (m, associated_first as)) (tl_accounts L)\<rparr>)"

section \<open>The commands that only read\<close>

definition command_balance ::
  "'w token_server \<Rightarrow> pubkey \<Rightarrow> ('w, token_cli_error, string) act" where
  "command_balance V address = amap_err (\<lambda>_. said ''Could not find token account'') (ts_balance V address)"

definition command_supply :: "'w token_server \<Rightarrow> pubkey \<Rightarrow> ('w, token_cli_error, string) act" where
  "command_supply V address = amap_err of_client (ts_supply V address)"

text \<open>No listing when the owner has no account at all.\<close>

definition command_accounts ::
  "('w, 'm, 't) client \<Rightarrow> 'w token_server \<Rightarrow> ('s, 'f, 'm, 't) token_cli \<Rightarrow> token_config \<Rightarrow> pubkey option \<Rightarrow> pubkey
     \<Rightarrow> ('w, token_cli_error, token_listing option) act" where
  "command_accounts C V X cfg token owner_key =
     abind (case token of Some t \<Rightarrow> validate_mint C X t | None \<Rightarrow> aret ()) (\<lambda>_.
     abind (amap_err of_client
              (case token of Some t \<Rightarrow> ts_by_mint V owner_key t | None \<Rightarrow> ts_by_owner V owner_key (cfg_program cfg))) (\<lambda>held.
     aret (if held = [] then None
           else Some (sort_and_parse_token_accounts C X owner_key held (cfg_program cfg)))))"

definition command_account_info ::
  "('w, 'm, 't) client \<Rightarrow> ('s, 'f, 'm, 't) token_cli \<Rightarrow> token_config \<Rightarrow> pubkey
     \<Rightarrow> ('w, token_cli_error, listed_account) act" where
  "command_account_info C X cfg address =
     abind (amap_err (\<lambda>_. said ''Could not find token account'') (get_token_account C X address)) (\<lambda>found.
     (case found of
        None \<Rightarrow> apanic
      | Some a \<Rightarrow>
         (case (key_of_text C (ut_mint a), key_of_text C (ut_owner a)) of
            (Some mint_key, Some owner_key) \<Rightarrow>
              aret \<lparr>la_address = key_text C address, la_account = a,
                    la_associated = associated_address_for (tc_ata X) owner_key mint_key (cfg_program cfg) = address\<rparr>
          | _ \<Rightarrow> apanic)))"

section \<open>Processing a command\<close>

datatype token_output =
    OutText string
  | OutLines "string list"
  | OutAmount string
  | OutAccounts "token_listing option"
  | OutAddress pubkey "pubkey option"
  | OutAccount listed_account
  | OutMultisig u8 u8 "pubkey list"

abbreviation out :: "('a \<Rightarrow> token_output) \<Rightarrow> ('w, token_cli_error, 'a) act \<Rightarrow> ('w, token_cli_error, token_output) act" where
  "out f m \<equiv> abind m (\<lambda>x. aret (f x))"

text \<open>
  One definition per arm of \<open>process_command\<close>; \<open>bulk\<close> already ends with the wallet, which signs
  everything.  \<open>arrange\<close> is the order of the hash maps of garbage collection.
\<close>

type_synonym ('w, 's, 'f, 'm, 't) token_arm =
  "('w, 'm, 't) client \<Rightarrow> 'w token_server \<Rightarrow> ('s, 'f, 'm, 't) token_cli \<Rightarrow> (gc_groups \<Rightarrow> gc_groups)
     \<Rightarrow> ('s, 'f) token_args \<Rightarrow> token_config \<Rightarrow> 's list \<Rightarrow> ('w, token_cli_error, token_output) act"

definition arm_create_token :: "('w, 's, 'f, 'm, 't) token_arm" where
  "arm_create_token C V X arrange A cfg bulk =
     abind (need A parse_u8 ''decimals'') (\<lambda>dec.
     abind (or_panic (pubkey_or_default (ta_matches A) (signer_key (tc_sdk X) (wallet_signer A)) ''mint_authority'')) (\<lambda>auth_key.
     abind (get_signer A ''token_keypair'') (\<lambda>found.
     let s = (case found of Some s \<Rightarrow> s | None \<Rightarrow> throwaway A) in
     out OutText (command_create_token C X cfg (bulk @ [s]) dec (signer_key (tc_sdk X) s) auth_key
       (arg_present (ta_matches A) ''enable_freeze'') (arg_value (ta_matches A) ''memo'')))))"

definition arm_create_account :: "('w, 's, 'f, 'm, 't) token_arm" where
  "arm_create_account C V X arrange A cfg bulk =
     abind (need_key A ''token'') (\<lambda>token.
     abind (get_signer A ''account_keypair'') (\<lambda>found.
     abind (or_panic (pubkey_or_default (ta_matches A) (signer_key (tc_sdk X) (wallet_signer A)) ''owner'')) (\<lambda>owner_key.
     out OutText (command_create_account C X cfg (bulk @ (case found of Some s \<Rightarrow> [s] | None \<Rightarrow> [])) token owner_key
       (map_option (signer_key (tc_sdk X)) found)))))"

definition arm_create_multisig :: "('w, 's, 'f, 'm, 't) token_arm" where
  "arm_create_multisig C V X arrange A cfg bulk =
     abind (need A parse_u8 ''minimum_signers'') (\<lambda>minimum.
     abind (case pubkeys_of_multiple_signers A ''multisig_member'' of Inr (Some ks) \<Rightarrow> aret ks | _ \<Rightarrow> apanic) (\<lambda>members.
     if length members < unat minimum then apanic
     else
       abind (get_signer A ''address_keypair'') (\<lambda>found.
       let s = (case found of Some s \<Rightarrow> s | None \<Rightarrow> throwaway A) in
       out OutText (command_create_multisig C X cfg (bulk @ [s]) (signer_key (tc_sdk X) s) minimum members))))"

definition arm_authorize :: "('w, 's, 'f, 'm, 't) token_arm" where
  "arm_authorize C V X arrange A cfg bulk =
     abind (need_key A ''address'') (\<lambda>k.
     abind (need A authority_type_of ''authority_type'') (\<lambda>ty.
     let (s, auth_key) = signer_or_default (signer_key (tc_sdk X)) A ''authority'' in
     abind (opt_key A ''new_authority'') (\<lambda>new_authority.
     out OutText (command_authorize C X cfg (bulk @ [s]) k ty auth_key new_authority
       (arg_present (ta_matches A) ''force'')))))"

definition arm_transfer :: "('w, 's, 'f, 'm, 't) token_arm" where
  "arm_transfer C V X arrange A cfg bulk =
     abind (need_key A ''token'') (\<lambda>token.
     abind (or_panic (unwrapped (arg_value (ta_matches A) ''amount''))) (\<lambda>given.
     abind (if given = ''ALL'' then aret None
            else or_panic (rbind (unwrapped (parse_f64 A given)) (\<lambda>u. Inr (Some u)))) (\<lambda>ui.
     abind (need_key A ''recipient'') (\<lambda>recipient.
     abind (opt_key A ''from'') (\<lambda>sender.
     let (s, owner_key) = signer_or_default (signer_key (tc_sdk X)) A ''owner'' in
     out OutText (command_transfer C V X cfg (bulk @ [s]) ui
       \<lparr>tt_token = token, tt_recipient = recipient, tt_sender = sender, tt_owner = owner_key,
        tt_allow_unfunded = (arg_present (ta_matches A) ''allow_empty_recipient''
                             \<or> arg_present (ta_matches A) ''allow_unfunded_recipient''),
        tt_fund_recipient = arg_present (ta_matches A) ''fund_recipient'',
        tt_decimals = value_of (ta_matches A) parse_u8 ''mint_decimals'',
        tt_is_ata_owner = arg_present (ta_matches A) ''recipient_is_ata_owner'',
        tt_unchecked = arg_present (ta_matches A) ''use_unchecked_instruction'',
        tt_memo = arg_value (ta_matches A) ''memo'', tt_no_wait = arg_present (ta_matches A) ''no_wait'',
        tt_allow_non_system = arg_present (ta_matches A) ''allow_non_system_account_recipient''\<rparr>))))))"

definition arm_burn :: "('w, 's, 'f, 'm, 't) token_arm" where
  "arm_burn C V X arrange A cfg bulk =
     abind (need_key A ''source'') (\<lambda>source.
     let (s, owner_key) = signer_or_default (signer_key (tc_sdk X)) A ''owner'' in
     abind (need A (parse_f64 A) ''amount'') (\<lambda>ui.
     abind (opt_key A ''mint_address'') (\<lambda>mint_address.
     out OutText (command_burn C X cfg (bulk @ [s]) source owner_key ui mint_address
       (value_of (ta_matches A) parse_u8 ''mint_decimals'')
       (arg_present (ta_matches A) ''use_unchecked_instruction'') (arg_value (ta_matches A) ''memo'')))))"

definition arm_mint :: "('w, 's, 'f, 'm, 't) token_arm" where
  "arm_mint C V X arrange A cfg bulk =
     (let (s, auth_key) = signer_or_default (signer_key (tc_sdk X)) A ''mint_authority'' in
     abind (need_key A ''token'') (\<lambda>token.
     abind (need A (parse_f64 A) ''amount'') (\<lambda>ui.
     abind (or_panic (associated_or_override (tc_ata X) cfg (ta_matches A) (signer_key (tc_sdk X) (wallet_signer A))
              ''recipient'')) (\<lambda>recipient.
     out OutText (command_mint C X cfg (bulk @ [s]) token ui recipient
       (value_of (ta_matches A) parse_u8 ''mint_decimals'') auth_key
       (arg_present (ta_matches A) ''use_unchecked_instruction''))))))"

definition arm_freeze :: "('w, 's, 'f, 'm, 't) token_arm" where
  "arm_freeze C V X arrange A cfg bulk =
     (let (s, auth_key) = signer_or_default (signer_key (tc_sdk X)) A ''freeze_authority'' in
     abind (need_key A ''account'') (\<lambda>k.
     abind (opt_key A ''mint_address'') (\<lambda>mint_address.
     out OutText (command_freeze C X cfg (bulk @ [s]) k mint_address auth_key))))"

definition arm_thaw :: "('w, 's, 'f, 'm, 't) token_arm" where
  "arm_thaw C V X arrange A cfg bulk =
     (let (s, auth_key) = signer_or_default (signer_key (tc_sdk X)) A ''freeze_authority'' in
     abind (need_key A ''account'') (\<lambda>k.
     abind (opt_key A ''mint_address'') (\<lambda>mint_address.
     out OutText (command_thaw C X cfg (bulk @ [s]) k mint_address auth_key))))"

definition arm_wrap :: "('w, 's, 'f, 'm, 't) token_arm" where
  "arm_wrap C V X arrange A cfg bulk =
     abind (need A (parse_f64 A) ''amount'') (\<lambda>sol.
     let aux = (if arg_present (ta_matches A) ''create_aux_account'' then [throwaway A] else []);
         (s, wallet) = signer_or_default (signer_key (tc_sdk X)) A ''wallet_keypair''
     in out OutText (command_wrap C X cfg (bulk @ aux @ [s]) sol wallet
          (if aux = [] then None else Some (signer_key (tc_sdk X) (throwaway A)))))"

definition arm_unwrap :: "('w, 's, 'f, 'm, 't) token_arm" where
  "arm_unwrap C V X arrange A cfg bulk =
     (let (s, wallet) = signer_or_default (signer_key (tc_sdk X)) A ''wallet_keypair'' in
     abind (opt_key A ''address'') (\<lambda>address.
     out OutText (command_unwrap C X cfg (bulk @ [s]) wallet address)))"

definition arm_approve :: "('w, 's, 'f, 'm, 't) token_arm" where
  "arm_approve C V X arrange A cfg bulk =
     (let (s, owner_key) = signer_or_default (signer_key (tc_sdk X)) A ''owner'' in
     abind (need_key A ''account'') (\<lambda>k.
     abind (need A (parse_f64 A) ''amount'') (\<lambda>ui.
     abind (need_key A ''delegate'') (\<lambda>delegate_key.
     abind (opt_key A ''mint_address'') (\<lambda>mint_address.
     out OutText (command_approve C X cfg (bulk @ [s]) k owner_key ui delegate_key mint_address
       (value_of (ta_matches A) parse_u8 ''mint_decimals'')
       (arg_present (ta_matches A) ''use_unchecked_instruction'')))))))"

definition arm_revoke :: "('w, 's, 'f, 'm, 't) token_arm" where
  "arm_revoke C V X arrange A cfg bulk =
     (let (s, owner_key) = signer_or_default (signer_key (tc_sdk X)) A ''owner'' in
     abind (need_key A ''account'') (\<lambda>k.
     abind (opt_key A ''delegate_address'') (\<lambda>delegate_arg.
     out OutText (command_revoke C X cfg (bulk @ [s]) k owner_key delegate_arg))))"

definition arm_close :: "('w, 's, 'f, 'm, 't) token_arm" where
  "arm_close C V X arrange A cfg bulk =
     (let (s, auth_key) = signer_or_default (signer_key (tc_sdk X)) A ''close_authority'' in
     abind (or_panic (associated_or_override (tc_ata X) cfg (ta_matches A) (signer_key (tc_sdk X) (wallet_signer A))
              ''address'')) (\<lambda>k.
     abind (or_panic (pubkey_or_default (ta_matches A) (signer_key (tc_sdk X) (wallet_signer A)) ''recipient'')) (\<lambda>recipient.
     out OutText (command_close C X cfg (bulk @ [s]) k auth_key recipient))))"

definition arm_balance :: "('w, 's, 'f, 'm, 't) token_arm" where
  "arm_balance C V X arrange A cfg bulk =
     abind (or_panic (associated_or_override (tc_ata X) cfg (ta_matches A) (signer_key (tc_sdk X) (wallet_signer A))
              ''address'')) (\<lambda>k.
     out OutAmount (command_balance V k))"

definition arm_supply :: "('w, 's, 'f, 'm, 't) token_arm" where
  "arm_supply C V X arrange A cfg bulk =
     abind (need_key A ''address'') (\<lambda>k. out OutAmount (command_supply V k))"

definition arm_accounts :: "('w, 's, 'f, 'm, 't) token_arm" where
  "arm_accounts C V X arrange A cfg bulk =
     abind (opt_key A ''token'') (\<lambda>token.
     abind (or_panic (pubkey_or_default (ta_matches A) (signer_key (tc_sdk X) (wallet_signer A)) ''owner'')) (\<lambda>owner_key.
     out OutAccounts (command_accounts C V X cfg token owner_key)))"

definition arm_address :: "('w, 's, 'f, 'm, 't) token_arm" where
  "arm_address C V X arrange A cfg bulk =
     abind (opt_key A ''token'') (\<lambda>token.
     abind (or_panic (pubkey_or_default (ta_matches A) (signer_key (tc_sdk X) (wallet_signer A)) ''owner'')) (\<lambda>owner_key.
     out (\<lambda>(k, ata). OutAddress k ata) (command_address C X cfg token owner_key)))"

definition arm_account_info :: "('w, 's, 'f, 'm, 't) token_arm" where
  "arm_account_info C V X arrange A cfg bulk =
     abind (or_panic (associated_or_override (tc_ata X) cfg (ta_matches A) (signer_key (tc_sdk X) (wallet_signer A))
              ''address'')) (\<lambda>k.
     out OutAccount (command_account_info C X cfg k))"

definition arm_multisig_info :: "('w, 's, 'f, 'm, 't) token_arm" where
  "arm_multisig_info C V X arrange A cfg bulk =
     abind (need_key A ''address'') (\<lambda>k. out (\<lambda>(m, n, ks). OutMultisig m n ks) (command_multisig C X k))"

definition arm_gc :: "('w, 's, 'f, 'm, 't) token_arm" where
  "arm_gc C V X arrange A cfg bulk =
     (if json_output A then apanic
      else
        let (s, owner_key) = signer_or_default (signer_key (tc_sdk X)) A ''owner'' in
        out OutLines (command_gc C V X cfg (bulk @ [s]) arrange owner_key
          (arg_present (ta_matches A) ''close_empty_associated_accounts'')))"

definition arm_sync_native :: "('w, 's, 'f, 'm, 't) token_arm" where
  "arm_sync_native C V X arrange A cfg bulk =
     abind (or_panic (associated_for_token_or_override (tc_ata X) cfg (ta_matches A)
              (signer_key (tc_sdk X) (wallet_signer A)) ''address'' (Some spl_native_mint_id))) (\<lambda>k.
     out OutText (command_sync_native C X cfg bulk k))"

fun process_arm :: "command_name \<Rightarrow> ('w, 's, 'f, 'm, 't) token_arm" where
  "process_arm CnCreateToken = arm_create_token"
| "process_arm CnCreateAccount = arm_create_account"
| "process_arm CnCreateMultisig = arm_create_multisig"
| "process_arm CnAuthorize = arm_authorize"
| "process_arm CnTransfer = arm_transfer"
| "process_arm CnBurn = arm_burn"
| "process_arm CnMint = arm_mint"
| "process_arm CnFreeze = arm_freeze"
| "process_arm CnThaw = arm_thaw"
| "process_arm CnWrap = arm_wrap"
| "process_arm CnUnwrap = arm_unwrap"
| "process_arm CnApprove = arm_approve"
| "process_arm CnRevoke = arm_revoke"
| "process_arm CnClose = arm_close"
| "process_arm CnBalance = arm_balance"
| "process_arm CnSupply = arm_supply"
| "process_arm CnAccounts = arm_accounts"
| "process_arm CnAddress = arm_address"
| "process_arm CnAccountInfo = arm_account_info"
| "process_arm CnMultisigInfo = arm_multisig_info"
| "process_arm CnGc = arm_gc"
| "process_arm CnSyncNative = arm_sync_native"

definition process_command ::
  "('w, 'm, 't) client \<Rightarrow> 'w token_server \<Rightarrow> ('s, 'f, 'm, 't) token_cli \<Rightarrow> (gc_groups \<Rightarrow> gc_groups)
     \<Rightarrow> ('s, 'f) token_args \<Rightarrow> token_config \<Rightarrow> 's list \<Rightarrow> command_name \<Rightarrow> ('w, token_cli_error, token_output) act" where
  "process_command C V X arrange A cfg bulk name = process_arm name C V X arrange A cfg (bulk @ [wallet_signer A])"

definition run_spl_token ::
  "('w, 'm, 't) client \<Rightarrow> 'w token_server \<Rightarrow> ('s, 'f, 'm, 't) token_cli \<Rightarrow> (gc_groups \<Rightarrow> gc_groups)
     \<Rightarrow> ('s, 'f) token_args \<Rightarrow> command_name \<Rightarrow> ('w, token_cli_error, token_output) act" where
  "run_spl_token C V X arrange A name =
     abind (or_panic (get_config (ta_matches A) (signer_key (tc_sdk X) (wallet_signer A)))) (\<lambda>cfg.
     process_command C V X arrange A cfg [] name)"

lemmas process_arm_defs =
  arm_create_token_def arm_create_account_def arm_create_multisig_def arm_authorize_def arm_transfer_def
  arm_burn_def arm_mint_def arm_freeze_def arm_thaw_def arm_wrap_def
  arm_unwrap_def arm_approve_def arm_revoke_def arm_close_def arm_balance_def
  arm_supply_def arm_accounts_def arm_address_def arm_account_info_def arm_multisig_info_def
  arm_gc_def arm_sync_native_def

end
