(* ===== verification/Spl_Cli_Safety.thy ===== *)
theory Spl_Cli_Safety
  imports Spl_Cli
begin

text \<open>
  What the token commands may do: the transactions a garbage collection plans, and the one
  transaction a token transfer submits with the checks that come before it.
\<close>

section \<open>The plan of a garbage collection\<close>

text \<open>The transaction for one account: its tokens to the associated account, then the account closed.\<close>

definition sweep ::
  "token_config \<Rightarrow> pubkey \<Rightarrow> pubkey \<Rightarrow> pubkey \<Rightarrow> pubkey \<Rightarrow> u64 \<Rightarrow> u8 \<Rightarrow> pubkey \<Rightarrow> client_instruction list" where
  "sweep cfg owner_key token associated k l dec close_key =
     (if 0 < l
      then [spl_instruction_for (cfg_program cfg)
              ([writable k False, readonly token False, writable associated False]
                 @ authority_metas owner_key (cfg_multisigners cfg)) (SplTransferChecked l dec)]
      else []) @
     (if close_key = owner_key
      then [spl_instruction_for (cfg_program cfg)
              ([writable k False, writable owner_key False] @ authority_metas owner_key (cfg_multisigners cfg))
              SplCloseAccount]
      else [])"

lemma check_spl_program_Inr [simp]: "check_spl_program p = Inr u \<longleftrightarrow> p = spl_token_id"
  by (simp add: check_spl_program_def)

definition sweep_entry ::
  "token_config \<Rightarrow> pubkey \<Rightarrow> pubkey \<Rightarrow> pubkey \<Rightarrow> pubkey \<times> gc_entry \<Rightarrow> client_instruction list" where
  "sweep_entry cfg owner_key token associated =
     (\<lambda>(k, l, dec, _, close_key). sweep cfg owner_key token associated k l dec close_key)"

text \<open>
  The accounts to be swept: not frozen, with tokens or for the owner to close, and the associated
  account only when asked for and when there is no balance of the token at all.
\<close>

definition gc_swept :: "pubkey \<Rightarrow> bool \<Rightarrow> pubkey \<Rightarrow> u64 \<Rightarrow> pubkey \<times> gc_entry \<Rightarrow> bool" where
  "gc_swept owner_key close_empty associated sum_held =
     (\<lambda>(k, l, _, frozen, close_key).
        \<not> frozen \<and> (0 < l \<or> close_key = owner_key) \<and> (k = associated \<longrightarrow> close_empty \<and> sum_held = 0))"

text \<open>A token with a balance and no associated account of the owner.\<close>

definition gc_lacks_associated ::
  "('s, 'f, 'm, 't) token_cli \<Rightarrow> token_config \<Rightarrow> pubkey \<Rightarrow> pubkey \<times> (pubkey \<times> gc_entry) list \<Rightarrow> bool" where
  "gc_lacks_associated X cfg owner_key =
     (\<lambda>(token, held). 0 < gc_total held
        \<and> associated_address_for (tc_ata X) owner_key token (cfg_program cfg) \<notin> fst ` set held)"

text \<open>
  What is planned for the accounts of one token: the creation of the associated account where there
  is a balance and no such account, then one transaction for each account to be swept.
\<close>

definition gc_group_plan ::
  "('s, 'f, 'm, 't) token_cli \<Rightarrow> token_config \<Rightarrow> pubkey \<Rightarrow> bool \<Rightarrow> pubkey \<times> (pubkey \<times> gc_entry) list
     \<Rightarrow> client_instruction list list \<Rightarrow> bool" where
  "gc_group_plan X cfg owner_key close_empty = (\<lambda>(token, held) planned.
     let associated = associated_address_for (tc_ata X) owner_key token (cfg_program cfg);
         swept = filter (gc_swept owner_key close_empty associated (gc_total held)) held in
     \<exists>creation. planned = creation @ map (sweep_entry cfg owner_key token associated) swept
       \<and> (if gc_lacks_associated X cfg owner_key (token, held)
          then \<exists>ix. create_associated_ix (tc_ata X) (fee_payer_key cfg) owner_key token (cfg_program cfg) = Inr ix
                 \<and> creation = [[ix]]
          else creation = [])
       \<and> (\<forall>(k, l, _) \<in> set swept. k = associated \<longrightarrow> l = 0))"

lemma gc_account_tx_eq:
  assumes "gc_account_tx cfg ow ce token ata s e = Inr ixs"
  shows "(if ixs \<noteq> [] then [ixs] else []) = (if gc_swept ow ce ata s e then [sweep_entry cfg ow token ata e] else [])
    \<and> (gc_swept ow ce ata s e \<longrightarrow> fst e = ata \<longrightarrow> fst (snd e) = 0)"
proof -
  obtain k l dec frozen c where e: "e = (k, l, dec, frozen, c)" by (cases e)
  show ?thesis
    using assms
    by (auto simp: e gc_account_tx_def Let_def rbind_Inr_iff sweep_entry_def sweep_def gc_swept_def
        spl_transfer_checked_ix_def spl_close_account_ix_def word_gt_0 split: if_splits)
qed

lemma gc_accounts_txs_eq:
  "gc_accounts_txs cfg ow ce token ata s es = Inr planned \<Longrightarrow>
     planned = map (sweep_entry cfg ow token ata) (filter (gc_swept ow ce ata s) es)
   \<and> (\<forall>(k, l, _) \<in> set (filter (gc_swept ow ce ata s) es). k = ata \<longrightarrow> l = 0)"
proof (induction es arbitrary: planned)
  case (Cons e es)
  from Cons.prems obtain ixs rest where
    head: "gc_account_tx cfg ow ce token ata s e = Inr ixs"
    and tail: "gc_accounts_txs cfg ow ce token ata s es = Inr rest"
    and planned: "planned = (if ixs \<noteq> [] then [ixs] else []) @ rest"
    by (auto simp: rbind_Inr_iff)
  show ?case
    using gc_account_tx_eq [OF head] Cons.IH [OF tail] by (auto simp: planned)
qed simp

lemma gc_plan_Cons:
  assumes "gc_plan X cfg ow ce rent_minimum (g # groups) = Inr (plan, needed)"
  obtains mine rest more where "gc_group_plan X cfg ow ce g mine"
    and "gc_plan X cfg ow ce rent_minimum groups = Inr (rest, more)" and "plan = mine @ rest"
    and "needed = (if gc_lacks_associated X cfg ow g then rent_minimum else 0) + more"
proof -
  obtain token held where g: "g = (token, held)" by (cases g)
  let ?ata = "associated_address_for (tc_ata X) ow token (cfg_program cfg)"
  from assms obtain creation mine rest more where
    creation: "(if gc_lacks_associated X cfg ow g
       then rbind (create_associated_ix (tc_ata X) (fee_payer_key cfg) ow token (cfg_program cfg)) (\<lambda>ix. Inr [[ix]])
       else Inr []) = Inr creation"
    and mine: "gc_accounts_txs cfg ow ce token ?ata (gc_total held) held = Inr mine"
    and rest: "gc_plan X cfg ow ce rent_minimum groups = Inr (rest, more)" "plan = (creation @ mine) @ rest"
      "needed = (if gc_lacks_associated X cfg ow g then rent_minimum else 0) + more"
    by (auto simp: g gc_lacks_associated_def Let_def rbind_Inr_iff simp del: not_gr_zero)
  have "gc_group_plan X cfg ow ce g (creation @ mine)"
    using creation gc_accounts_txs_eq [OF mine]
    by (auto simp: g gc_group_plan_def Let_def rbind_Inr_iff split: if_splits)
  then show thesis using that rest by blast
qed

lemma gc_total_pos:
  assumes "(k, l, x) \<in> set held" and "0 < l" and "sum_list (map (\<lambda>(_, l, _). unat l) held) < 2 ^ 64"
  shows "0 < gc_total held"
proof -
  let ?sum = "sum_list (map (\<lambda>(_, l, _). unat l) held)"
  have "gc_total held = of_nat ?sum"
    by (induction held) (auto simp: gc_total_def)
  then have "unat (gc_total held) = ?sum"
    using assms(3) by (simp add: unat_of_nat take_bit_eq_mod)
  moreover have "unat l \<le> ?sum"
    using member_le_sum_list [of "unat l" "map (\<lambda>(_, l, _). unat l) held"] assms(1) by force
  ultimately show ?thesis
    using assms(2) by (simp add: word_less_nat_alt)
qed

text \<open>
  C39. Garbage collection plans exactly the sweeps that are due, token by token in the order of the
  groups, and loses no tokens.  For a token with a balance of which the owner has no associated
  account, the creation of that account comes first.  Then comes one transaction for each account to
  be swept, in order, and nothing else: an account that is not frozen, and has tokens or is the
  owner's to close; its whole balance goes to the owner's associated account of its token, then it is
  closed to the owner, if the owner may.  The associated account itself is swept, empty, exactly when
  asked for and when there is no balance of the token.  The rent asked for is that of the accounts
  created.  The balances of a token are summed in 64 bits: as long as their sum fits, the associated
  account that tokens are moved to is one of the accounts found or is created in the plan.
\<close>

theorem gc_sweeps_into_associated:
  assumes "gc_plan X cfg ow ce rent_minimum groups = Inr (plan, needed)"
  shows "(\<exists>parts. plan = concat parts \<and> list_all2 (gc_group_plan X cfg ow ce) groups parts)
    \<and> needed = sum_list (map (\<lambda>g. if gc_lacks_associated X cfg ow g then rent_minimum else 0) groups)
    \<and> (\<forall>(token, held) \<in> set groups. \<forall>(k, l, x) \<in> set held.
         0 < l \<and> sum_list (map (\<lambda>(_, l, _). unat l) held) < 2 ^ 64 \<longrightarrow>
           associated_address_for (tc_ata X) ow token (cfg_program cfg) \<in> fst ` set held
         \<or> (\<exists>ix. create_associated_ix (tc_ata X) (fee_payer_key cfg) ow token (cfg_program cfg) = Inr ix
              \<and> [ix] \<in> set plan))"
  using assms
proof (induction groups arbitrary: plan needed)
  case (Cons g groups)
  from Cons.prems obtain mine rest more where mine: "gc_group_plan X cfg ow ce g mine"
    and rest: "gc_plan X cfg ow ce rent_minimum groups = Inr (rest, more)" and plan: "plan = mine @ rest"
    and needed: "needed = (if gc_lacks_associated X cfg ow g then rent_minimum else 0) + more"
    by (rule gc_plan_Cons)
  note IH = Cons.IH [OF rest]
  obtain parts where "rest = concat parts" "list_all2 (gc_group_plan X cfg ow ce) groups parts"
    using IH by blast
  then have "\<exists>parts. plan = concat parts \<and> list_all2 (gc_group_plan X cfg ow ce) (g # groups) parts"
    using mine plan by (intro exI [of _ "mine # parts"]) simp
  moreover have "needed = sum_list (map (\<lambda>g. if gc_lacks_associated X cfg ow g then rent_minimum else 0) (g # groups))"
    using IH needed by simp
  moreover have "associated_address_for (tc_ata X) ow token (cfg_program cfg) \<in> fst ` set held
      \<or> (\<exists>ix. create_associated_ix (tc_ata X) (fee_payer_key cfg) ow token (cfg_program cfg) = Inr ix
              \<and> [ix] \<in> set plan)"
    if "(token, held) \<in> set (g # groups)" "(k, l, x) \<in> set held" "0 < l"
      "sum_list (map (\<lambda>(_, l, _). unat l) held) < 2 ^ 64" for token held k l x
  proof (cases "g = (token, held)")
    case True
    then show ?thesis
      using mine gc_total_pos [OF that(2-4)]
      by (auto simp: plan gc_group_plan_def gc_lacks_associated_def Let_def split: if_splits)
  next
    case False
    then have "(token, held) \<in> set groups" using that(1) by simp
    with IH that(2-4) have "associated_address_for (tc_ata X) ow token (cfg_program cfg) \<in> fst ` set held
      \<or> (\<exists>ix. create_associated_ix (tc_ata X) (fee_payer_key cfg) ow token (cfg_program cfg) = Inr ix
              \<and> [ix] \<in> set rest)"
      by blast
    then show ?thesis by (auto simp: plan)
  qed
  ultimately show ?case
    by blast
qed simp

definition sample_gc_config :: token_config where
  "sample_gc_config =
     \<lparr>fee_payer_key = 1, cfg_nonce_account = None, cfg_nonce_authority = None, cfg_query = QueryNone 0,
      cfg_sign_only = False, cfg_dump = False, cfg_multisigners = [], cfg_program = spl_token_id\<rparr>"

definition sample_ata :: ata_sdk where
  "sample_ata = \<lparr>find_address = (\<lambda>_ _. (50, 255)), ata_id = 40, system_id = 0, rent_id = 41\<rparr>"

definition sample_tokens :: "(pubkey, nat, bytes, bytes) token_cli" where
  "sample_tokens =
     \<lparr>tc_sdk = sample_cli, tc_ata = sample_ata, tc_memo_id = 42,
      tc_create_account = (\<lambda>_ _ _ _ _. \<lparr>ix_program_id = 0, ix_accounts = [], ix_data = []\<rparr>),
      tc_message_signers = (\<lambda>_. [1]), tc_amount_times = (\<lambda>u f. of_nat (u * unat f)),
      tc_sol_to_lamports = (\<lambda>u. of_nat (u * 10 ^ 9)), tc_parse_token = (\<lambda>_. Inl ''no token''),
      tc_parsed_program = (\<lambda>s. s), tc_mint_pack = documented_mint_pack,
      tc_account_pack = documented_account_pack, tc_multisig_pack = documented_multisig_pack\<rparr>"

text \<open>
  Of three accounts of token 9, the frozen one stays, the others are swept into a new one; the empty
  associated account of token 8 is closed, as was asked for.
\<close>

definition sample_groups :: gc_groups where
  "sample_groups = [(9, [(20, 5, 2, False, 1), (21, 7, 2, True, 1), (22, 0, 2, False, 1)]), (8, [(50, 0, 2, False, 1)])]"

theorem gc_sweeps_into_associated_witness:
  "\<exists>plan needed ix. gc_plan sample_tokens sample_gc_config 1 True 10 sample_groups = Inr (plan, needed) \<and> needed = 10
     \<and> plan = [[ix], sweep sample_gc_config 1 9 50 20 5 2 1, sweep sample_gc_config 1 9 50 22 0 2 1,
               sweep sample_gc_config 1 8 50 50 0 2 1]"
proof -
  have ata: "associated_address_for (tc_ata sample_tokens) 1 token spl_token_id = 50" for token
    by (simp add: associated_address_for_def associated_address_and_bump_def sample_tokens_def sample_ata_def)
  obtain plan needed where run: "gc_plan sample_tokens sample_gc_config 1 True 10 sample_groups = Inr (plan, needed)"
    by (simp add: ata sample_groups_def sample_gc_config_def gc_total_def gc_account_tx_def create_associated_ix_def
        build_ata_instruction_def spl_transfer_checked_ix_def spl_close_account_ix_def check_spl_program_def Let_def)
  note planned = gc_sweeps_into_associated [OF run]
  show ?thesis
    using planned run
    by (auto simp: sample_groups_def list_all2_Cons1 gc_group_plan_def gc_lacks_associated_def gc_swept_def
        sweep_entry_def gc_total_def ata sample_gc_config_def Let_def)
qed

section \<open>What a token transfer submits\<close>

lemma quiet_token_pure [quiet_intros]:
  "quiet f (built r)" "quiet f (signed_with x)" "quiet f (message_for X cfg ixs)"
  by (auto simp: built_def signed_with_def message_for_def intro!: quiet_intros
      split: sum.split fault.split option.split)

lemma token_pure_Inr [simp]:
  "built r w = (Inr a, w') \<longleftrightarrow> r = Inr a \<and> w' = w"
  "signed_with x w = (Inr b, w') \<longleftrightarrow> x = Inr b \<and> w' = w"
  by (auto simp: built_def signed_with_def split: sum.split fault.split)

lemma message_for_world: "message_for X cfg ixs w = (x, w') \<Longrightarrow> w' = w"
  by (auto simp: message_for_def split: option.splits)

lemma resolve_mint_info_Inr:
  assumes "resolve_mint_info C X cfg k (Some token) dec_arg w = (Inr (mint_key, dec), w')" and "\<not> cfg_sign_only cfg"
  obtains a where "get_token_account C X k w = (Inr (Some a), w')" and "key_of_text C (ut_mint a) = Some token"
    and "mint_key = token" and "dec = ut_decimals a"
  using assms by (auto simp: resolve_mint_info_def abind_Inr_iff split: option.splits if_splits)

lemma transfer_balance_Inr:
  assumes "transfer_balance C V cfg sender given w = (Inr l, w')" and "\<not> cfg_sign_only cfg"
  obtains shown bal where "ts_balance V sender w = (Inr shown, w')" and "parse_u64 shown = Some bal"
    and "l \<le> bal" and "l = (case given of Some x \<Rightarrow> x | None \<Rightarrow> bal)"
  using assms by (cases given) (auto simp: transfer_balance_def abind_Inr_iff Let_def split: option.splits if_splits)

lemma recipient_account_Inr:
  assumes "recipient_account C X cfg recipient mint_key is_token fund w = (Inr (k, creation, rent), w')"
  shows "k = (if is_token then recipient else associated_address_for (tc_ata X) recipient mint_key (cfg_program cfg))
    \<and> (creation = [] \<or> \<not> is_token \<and> fund
        \<and> (\<exists>ix. create_associated_ix (tc_ata X) (fee_payer_key cfg) recipient mint_key (cfg_program cfg) = Inr ix
             \<and> creation = [ix]))"
  using assms by (auto simp: recipient_account_def abind_Inr_iff Let_def split: if_splits)

context quiet_server
begin

lemma quiet_token_reading:
  "quiet sent (get_token_account C X k)" "quiet sent (rent_minimum_for C cfg len)"
  "quiet sent (resolve_mint_info C X cfg k mint_arg dec_arg)"
  "quiet sent (recipient_is_token_account C cfg k b1 b2 b3)" "quiet sent (recipient_account C X cfg k m b1 b2)"
proof -
  show account: "quiet sent (get_token_account C X k)" for k
    unfolding get_token_account_def token_account_not_found_def
    by (auto intro!: quiet_intros quiet_account split: ui_data.split token_account_type.split option.split sum.split)
  show minimum: "quiet sent (rent_minimum_for C cfg len)" for len
    unfolding rent_minimum_for_def by (intro quiet_intros quiet_reading)
  show "quiet sent (resolve_mint_info C X cfg k mint_arg dec_arg)"
    unfolding resolve_mint_info_def by (intro quiet_intros account)
  show "quiet sent (recipient_is_token_account C cfg k b1 b2 b3)"
    unfolding recipient_is_token_account_def Let_def by (intro quiet_intros quiet_reading)
  show "quiet sent (recipient_account C X cfg k m b1 b2)"
    unfolding recipient_account_def needs_funding_def Let_def by (intro quiet_intros quiet_reading minimum)
qed

lemma quiet_transfer_balance:
  assumes "\<And>k. quiet sent (ts_balance V k)"
  shows "quiet sent (transfer_balance C V cfg k given)"
  unfolding transfer_balance_def Let_def by (intro quiet_intros assms)

lemma quiet_fee_payer: "quiet sent (if b then check_fee_payer_balance C cfg l else aret ())"
  unfolding check_fee_payer_balance_def by (intro quiet_intros quiet_reading)

lemma send_wrapper_sent:
  assumes "send_tx_wrapper C t no_wait w = (r, w')"
  shows "sent w' = sent (snd (ep_send C t (commitment_config C) w))"
proof -
  have "signature_answer sample_cli (send_tx_wrapper C t no_wait) w
      = (fst (signature_answer sample_cli (send_tx_wrapper C t no_wait) w), w')"
    using assms by (auto simp: signature_answer_def abind_def amap_err_def split: sum.splits fault.splits)
  then show ?thesis by (rule send_wrapper_submits)
qed

lemma sign_and_send_submits:
  assumes run: "sign_and_send C X cfg wallets no_wait m h w = (r, w')" and changed: "sent w' \<noteq> sent w"
  obtains t where "\<not> cfg_sign_only cfg"
    and "try_sign (tc_sdk X) m (signers_for_message (signer_key (tc_sdk X)) wallets (tc_message_signers X m)) h = Inr t"
    and "sent w' = sent (snd (ep_send C t (commitment_config C) w))"
proof -
  let ?chosen = "signers_for_message (signer_key (tc_sdk X)) wallets (tc_message_signers X m)"
  have online: "\<not> cfg_sign_only cfg"
    using run changed by (auto simp: sign_and_send_def abind_def signed_with_def Let_def split: sum.splits)
  then obtain t r1 where t: "try_sign (tc_sdk X) m ?chosen h = Inr t" and "send_tx_wrapper C t no_wait w = (r1, w')"
    using run changed
    by (auto simp: sign_and_send_def abind_def signed_with_def amap_err_def Let_def
        split: sum.splits prod.splits fault.splits)
  from this(2) show thesis using that online t send_wrapper_sent by blast
qed

lemma handle_tx_submits:
  assumes run: "handle_tx C X cfg wallets no_wait rent ixs w = (r, w')" and changed: "sent w' \<noteq> sent w"
  obtains m h w1 t w2 where "\<not> cfg_sign_only cfg" and "message_for X cfg ixs w = (Inr m, w)"
    and "query_blockhash C (cfg_query cfg) (commitment_config C) w = (Inr h, w1)"
    and "try_sign (tc_sdk X) m (signers_for_message (signer_key (tc_sdk X)) wallets (tc_message_signers X m)) h = Inr t"
    and "sent w2 = sent w" and "sent w' = sent (snd (ep_send C t (commitment_config C) w2))"
proof -
  let ?query = "amap_err TokenBoxed (query_blockhash C (cfg_query cfg) (commitment_config C))"
  let ?check = "\<lambda>f. if \<not> cfg_sign_only cfg then check_fee_payer_balance C cfg (rent + f) else aret ()"
  obtain m v0 where m: "message_for X cfg ixs w = (Inr m, v0)" and s0: "sent v0 = sent w"
    and r0: "abind ?query (\<lambda>h. abind (amap_err of_client (client_fee C m)) (\<lambda>f. abind (?check f) (\<lambda>_.
       sign_and_send C X cfg wallets no_wait m h))) v0 = (r, w')"
    using abind_continues [OF run [unfolded handle_tx_def] quiet_token_pure(3) changed] by blast
  obtain h v1 where h: "?query v0 = (Inr h, v1)" and s1: "sent v1 = sent v0"
    and r1: "abind (amap_err of_client (client_fee C m)) (\<lambda>f. abind (?check f) (\<lambda>_.
       sign_and_send C X cfg wallets no_wait m h)) v1 = (r, w')"
    by (rule abind_continues [OF r0 quiet_amap_err [OF quiet_query]]) (use changed s0 in simp, blast)
  obtain f v2 where s2: "sent v2 = sent v1"
    and r2: "abind (?check f) (\<lambda>_. sign_and_send C X cfg wallets no_wait m h) v2 = (r, w')"
    by (rule abind_continues [OF r1 quiet_amap_err [OF quiet_reading(9)]]) (use changed s0 s1 in simp, blast)
  obtain u v3 where s3: "sent v3 = sent v2" and r3: "sign_and_send C X cfg wallets no_wait m h v3 = (r, w')"
    by (rule abind_continues [OF r2 quiet_fee_payer]) (use changed s0 s1 s2 in simp, blast)
  have m': "message_for X cfg ixs w = (Inr m, w)" and h': "query_blockhash C (cfg_query cfg) (commitment_config C) w = (Inr h, v1)"
    using m h message_for_world [OF m] by auto
  have s: "sent v3 = sent w" using s0 s1 s2 s3 by simp
  show thesis
    by (rule sign_and_send_submits [OF r3]) (use changed s in simp, rule that [OF _ m' h' _ s], assumption+)
qed

lemma command_transfer_submits:
  assumes run: "command_transfer C V X cfg wallets ui cmd w = (r, w')" and changed: "sent w' \<noteq> sent w"
    and quiet_tokens: "\<And>k. quiet sent (ts_balance V k)"
  obtains mint_key dec l is_token k creation rent ix w1 w2 w3 w4 where
    "resolve_mint_info C X cfg (transfer_sender X cfg cmd) (Some (tt_token cmd)) (tt_decimals cmd) w = (Inr (mint_key, dec), w1)"
    and "transfer_balance C V cfg (transfer_sender X cfg cmd) (map_option (\<lambda>u. ui_amount_to_amount X u dec) ui) w1 = (Inr l, w2)"
    and "recipient_is_token_account C cfg (tt_recipient cmd) (tt_allow_unfunded cmd) (tt_allow_non_system cmd)
           (tt_is_ata_owner cmd) w2 = (Inr is_token, w3)"
    and "recipient_account C X cfg (tt_recipient cmd) mint_key is_token (tt_fund_recipient cmd) w3
           = (Inr (k, creation, rent), w4)"
    and "transfer_instruction cfg cmd (transfer_sender X cfg cmd) mint_key k l dec = Inr ix" and "sent w4 = sent w"
    and "handle_tx C X cfg wallets (tt_no_wait cmd) rent (creation @ [ix] @ memo_of X cfg (tt_memo cmd)) w4 = (r, w')"
proof -
  let ?sender = "transfer_sender X cfg cmd"
  let ?send = "\<lambda>mint_key dec l (k, creation, rent).
     abind (built (transfer_instruction cfg cmd ?sender mint_key k l dec)) (\<lambda>ix.
     handle_tx C X cfg wallets (tt_no_wait cmd) rent (creation @ [ix] @ memo_of X cfg (tt_memo cmd)))"
  let ?pay = "\<lambda>mint_key dec l is_token.
     abind (recipient_account C X cfg (tt_recipient cmd) mint_key is_token (tt_fund_recipient cmd)) (?send mint_key dec l)"
  let ?kind = "recipient_is_token_account C cfg (tt_recipient cmd) (tt_allow_unfunded cmd) (tt_allow_non_system cmd)
     (tt_is_ata_owner cmd)"
  let ?balance = "\<lambda>dec. transfer_balance C V cfg ?sender (map_option (\<lambda>u. ui_amount_to_amount X u dec) ui)"
  have start: "abind (resolve_mint_info C X cfg ?sender (Some (tt_token cmd)) (tt_decimals cmd))
      (\<lambda>(mint_key, dec). abind (?balance dec) (\<lambda>l. abind ?kind (?pay mint_key dec l))) w = (r, w')"
    using run by (simp add: command_transfer_def Let_def)
  obtain p w1 where 1: "resolve_mint_info C X cfg ?sender (Some (tt_token cmd)) (tt_decimals cmd) w = (Inr p, w1)"
      "sent w1 = sent w"
    and r1: "(case p of (mint_key, dec) \<Rightarrow> abind (?balance dec) (\<lambda>l. abind ?kind (?pay mint_key dec l))) w1 = (r, w')"
    by (rule abind_continues [OF start quiet_token_reading(3)]) (use changed in simp, blast)
  obtain mint_key dec where p: "p = (mint_key, dec)" by (cases p)
  obtain l w2 where 2: "?balance dec w1 = (Inr l, w2)" "sent w2 = sent w1"
    and r2: "abind ?kind (?pay mint_key dec l) w2 = (r, w')"
    by (rule abind_continues [OF r1 [unfolded p prod.case] quiet_transfer_balance [OF quiet_tokens]])
      (use changed 1(2) in simp, blast)
  obtain is_token w3 where 3: "?kind w2 = (Inr is_token, w3)" "sent w3 = sent w2"
    and r3: "?pay mint_key dec l is_token w3 = (r, w')"
    by (rule abind_continues [OF r2 quiet_token_reading(4)]) (use changed 1(2) 2(2) in simp, blast)
  obtain q w4 where 4: "recipient_account C X cfg (tt_recipient cmd) mint_key is_token (tt_fund_recipient cmd) w3 = (Inr q, w4)"
      "sent w4 = sent w3"
    and r4: "?send mint_key dec l q w4 = (r, w')"
    by (rule abind_continues [OF r3 quiet_token_reading(5)]) (use changed 1(2) 2(2) 3(2) in simp, blast)
  obtain k creation rent where q: "q = (k, creation, rent)" by (cases q)
  have same: "sent w4 = sent w" using 1(2) 2(2) 3(2) 4(2) by simp
  obtain ix w5 where 5: "built (transfer_instruction cfg cmd ?sender mint_key k l dec) w4 = (Inr ix, w5)"
    and r5: "handle_tx C X cfg wallets (tt_no_wait cmd) rent (creation @ [ix] @ memo_of X cfg (tt_memo cmd)) w5 = (r, w')"
    by (rule abind_continues [OF r4 [unfolded q prod.case] quiet_token_pure(1) [where f = sent]]) (use changed same in simp, blast)
  have "transfer_instruction cfg cmd ?sender mint_key k l dec = Inr ix" "w5 = w4" using 5 by simp_all
  then show thesis
    using that 1(1) 2(1) 3(1) 4(1) same r5 unfolding p q by blast
qed

end


text \<open>
  A server where every account asked for as JSON is a token account of the mint 0 and no other
  account exists, and a command that sends 3 of the 100 units to a new associated account.
\<close>

definition sample_token_client :: "(nat, bytes, bytes) client" where
  "sample_token_client =
     (sample_client 6000 5000)\<lparr>ep_account := (\<lambda>_ _ enc w.
        (Inr (if enc = Some EncJsonParsed
              then Some \<lparr>ui_lamports = 10, ui_data = UiJson ''account'', ui_owner = ''owner'',
                         ui_executable = False, ui_rent_epoch = 0\<rparr>
              else None), w))\<rparr>"

definition sample_token_account :: ui_token_account where
  "sample_token_account =
     \<lparr>ut_mint = ''mint'', ut_owner = ''owner'', ut_amount = ''100'', ut_ui_amount = ''100'', ut_decimals = 0, ut_delegate = None,
      ut_frozen = False, ut_is_native = False, ut_close_authority = None\<rparr>"

definition sample_token_environment :: "(pubkey, nat, bytes, bytes) token_cli" where
  "sample_token_environment = sample_tokens\<lparr>tc_parse_token := (\<lambda>_. Inr (TatAccount sample_token_account))\<rparr>"

definition sample_token_server :: "nat token_server" where
  "sample_token_server = \<lparr>ts_balance = (\<lambda>_ w. (Inr ''100'', w)), ts_by_owner = (\<lambda>_ _ w. (Inr [], w)),
      ts_by_mint = (\<lambda>_ _ w. (Inr [], w)), ts_supply = (\<lambda>_ w. (Inr ''100'', w))\<rparr>"

definition sample_token_transfer :: token_transfer where
  "sample_token_transfer =
     \<lparr>tt_token = 0, tt_recipient = 2, tt_sender = None, tt_owner = 1, tt_allow_unfunded = True,
      tt_fund_recipient = True, tt_decimals = None, tt_is_ata_owner = False, tt_unchecked = False,
      tt_memo = Some ''rent'', tt_no_wait = True, tt_allow_non_system = False\<rparr>"

lemma sample_token_client_quiet: "quiet_server sample_token_client id"
  by unfold_locales
    (simp_all add: sample_token_client_def sample_client_def sample_codec_def quiet_def not_implemented_def)

lemma sample_token_fields [simp]:
  "ep_account sample_token_client k c enc w =
     (Inr (if enc = Some EncJsonParsed
           then Some \<lparr>ui_lamports = 10, ui_data = UiJson ''account'', ui_owner = ''owner'',
                      ui_executable = False, ui_rent_epoch = 0\<rparr>
           else None), w)"
  "ep_balance sample_token_client k c w = (Inr 6000, w)" "ep_minimum_balance sample_token_client len w = (Inr 10, w)"
  "ep_fee sample_token_client m w = (Inr (Some 5000), w)" "ep_send sample_token_client t c w = (Inr 7, Suc w)"
  "ep_latest_blockhash sample_token_client c w = (Inr (''hash'', 1), w)" "hash_of_text sample_token_client s = Some 3"
  "ep_statuses sample_token_client sigs w = (Inr [Some failed_status], w)"
  "tx_signatures sample_token_client t = [7]" "key_of_text sample_token_client s = Some 0"
  "tc_parse_token sample_token_environment s = Inr (TatAccount sample_token_account)"
  "tc_ata sample_token_environment = sample_ata" "tc_sdk sample_token_environment = sample_cli"
  "ts_balance sample_token_server k w = (Inr ''100'', w)"
  by (simp_all add: sample_token_client_def sample_client_def sample_codec_def sample_token_environment_def
      sample_tokens_def sample_token_server_def)

lemma abind_step: "m w = (Inr a, w') \<Longrightarrow> abind m f w = f a w'"
  by (simp add: abind_def)

lemma sample_token_submitted:
  "handle_tx sample_token_client sample_token_environment sample_gc_config [1] True 10 ixs w = (Inr ''signature'', Suc w)"
  by (simp add: handle_tx_def message_for_def query_blockhash_def client_fee_def check_fee_payer_balance_def
      get_balance_with_commitment_def sign_and_send_def signed_with_def send_tx_wrapper_def client_send_def
      sample_gc_config_def sample_cli_def amap_err_def abind_def aret_def Let_def)

lemma sample_token_run:
  "command_transfer sample_token_client sample_token_server sample_token_environment sample_gc_config [1] (Some 3)
     sample_token_transfer 0 = (Inr ''signature'', 1)"
proof -
  let ?C = sample_token_client and ?X = sample_token_environment
  have hundred: "parse_u64 ''100'' = Some 100"
    by (simp add: parse_u64_def is_digit_char_def digits_value_def)
  have ata: "associated_address_for sample_ata k t spl_token_id = 50" for k t
    by (simp add: associated_address_for_def associated_address_and_bump_def sample_ata_def)
  have mint: "resolve_mint_info ?C ?X sample_gc_config k (Some 0) None w = (Inr (0, 0), w)" for k w
    by (simp add: resolve_mint_info_def get_token_account_def sample_gc_config_def sample_token_account_def
        amap_err_def abind_def aret_def)
  have amount: "transfer_balance ?C sample_token_server sample_gc_config k (Some 3) w = (Inr 3, w)" for k w
    by (simp add: transfer_balance_def sample_gc_config_def hundred amap_err_def abind_def aret_def)
  have recipient: "recipient_is_token_account ?C sample_gc_config 2 True b b' w = (Inr False, w)" for b b' w
    by (simp add: recipient_is_token_account_def get_account_with_commitment_def get_account_with_config_def
        sample_gc_config_def amap_err_def abind_def aret_def)
  obtain c where creation: "create_associated_ix sample_ata 1 2 0 spl_token_id = Inr c"
    by (simp add: create_associated_ix_def build_ata_instruction_def Let_def)
  have target: "recipient_account ?C ?X sample_gc_config 2 0 False True w = (Inr (50, [c], 10), w)" for w
    by (simp add: recipient_account_def needs_funding_def rent_minimum_for_def client_minimum_balance_def
        get_account_with_commitment_def get_account_with_config_def sample_gc_config_def ata creation built_def
        amap_err_def abind_def aret_def Let_def)
  obtain ix where ix: "transfer_instruction sample_gc_config sample_token_transfer 50 0 50 3 0 = Inr ix"
    by (simp add: transfer_instruction_def sample_token_transfer_def sample_gc_config_def spl_transfer_checked_ix_def
        check_spl_program_def)
  have sender: "transfer_sender ?X sample_gc_config sample_token_transfer = 50"
    by (simp add: transfer_sender_def sample_token_transfer_def sample_gc_config_def ata)
  have shown: "ui_amount_to_amount ?X 3 0 = 3"
    by (simp add: ui_amount_to_amount_def ten_to_def sample_token_environment_def sample_tokens_def)
  have cmd: "tt_token sample_token_transfer = 0" "tt_decimals sample_token_transfer = None"
      "tt_recipient sample_token_transfer = 2" "tt_allow_unfunded sample_token_transfer"
      "tt_fund_recipient sample_token_transfer" "tt_no_wait sample_token_transfer"
    by (simp_all add: sample_token_transfer_def)
  show ?thesis
    by (simp add: command_transfer_def sender shown cmd ix built_def aret_def sample_token_submitted
        abind_step [OF mint] abind_step [OF amount] abind_step [OF recipient] abind_step [OF target])
      (simp add: abind_def sample_token_submitted)
qed


end
