(* ===== verification/Client_Log.thy ===== *)
theory Client_Log
  imports Client_Rpc
begin

text \<open>
  What a client submits, as a log: a contract for servers that keep one (\<open>logging_client\<close>), every
  client made into one (\<open>log_client\<close>), and the logic of actions that submit only good transactions,
  shared by the token and the program commands.
\<close>

section \<open>A server with a log\<close>

definition recorded :: "('w, 'e, 'a) act \<Rightarrow> ('w \<times> 't list, 'e, 'a) act" where
  "recorded m = (\<lambda>(w, l). case m w of (r, w') \<Rightarrow> (r, (w', l)))"

text \<open>Any client, next to the list of what was handed to its server.\<close>

definition log_client :: "('w, 'm, 't) client \<Rightarrow> ('w \<times> 't list, 'm, 't) client" where
  "log_client C =
     \<lparr>commitment_config = commitment_config C, base58_decode = base58_decode C, base64_decode = base64_decode C,
      key_of_text = key_of_text C, key_text = key_text C, hash_of_text = hash_of_text C,
      nonce_versions = nonce_versions C, tx_signatures = tx_signatures C,
      ep_balance = (\<lambda>k c. recorded (ep_balance C k c)), ep_account = (\<lambda>k c e. recorded (ep_account C k c e)),
      ep_multiple = (\<lambda>ks c. recorded (ep_multiple C ks c)),
      ep_latest_blockhash = (\<lambda>c. recorded (ep_latest_blockhash C c)),
      ep_blockhash_valid = (\<lambda>h c. recorded (ep_blockhash_valid C h c)),
      ep_minimum_balance = (\<lambda>n. recorded (ep_minimum_balance C n)), ep_fee = (\<lambda>m. recorded (ep_fee C m)),
      ep_send = (\<lambda>t c (w, l). case ep_send C t c w of (r, w') \<Rightarrow> (r, (w', l @ [t]))),
      ep_statuses = (\<lambda>s. recorded (ep_statuses C s)), ep_airdrop = (\<lambda>k l. recorded (ep_airdrop C k l)),
      ep_epoch = recorded (ep_epoch C), ep_sleep = (\<lambda>ms (w, l). (ep_sleep C ms w, l))\<rparr>"

locale logging_client = quiet_server C sent
  for C :: "('w, 'm, 't) client" and sent :: "'w \<Rightarrow> 't list" +
  assumes send_logs: "sent (snd (ep_send C t c w)) = sent w @ [t]"

lemma recorded_quiet: "quiet snd (recorded m)"
  by (simp add: quiet_def recorded_def split: prod.split)

interpretation logged_client: logging_client "log_client C" snd
  by unfold_locales
    (simp_all add: log_client_def recorded_quiet split: prod.split)

lemma log_client_fields [simp]:
  "commitment_config (log_client C) = commitment_config C" "tx_signatures (log_client C) = tx_signatures C"
  "hash_of_text (log_client C) = hash_of_text C" "key_of_text (log_client C) = key_of_text C"
  "key_text (log_client C) = key_text C" "base64_decode (log_client C) = base64_decode C"
  "ep_account (log_client C) = (\<lambda>k c e. recorded (ep_account C k c e))" "ep_fee (log_client C) = (\<lambda>m. recorded (ep_fee C m))"
  "ep_latest_blockhash (log_client C) = (\<lambda>c. recorded (ep_latest_blockhash C c))"
  "ep_balance (log_client C) = (\<lambda>k c. recorded (ep_balance C k c))"
  "ep_statuses (log_client C) = (\<lambda>sigs. recorded (ep_statuses C sigs))"
  "ep_send (log_client C) = (\<lambda>t c (w, l). case ep_send C t c w of (r, w') \<Rightarrow> (r, (w', l @ [t])))"
  by (simp_all add: log_client_def)

section \<open>Submitting only good transactions\<close>

text \<open>\<open>submits f P once m\<close>: \<open>m\<close> adds transactions with \<open>P\<close> to the log \<open>f\<close>, at most one if \<open>once\<close>.\<close>

definition submits :: "('w \<Rightarrow> 't list) \<Rightarrow> ('t \<Rightarrow> bool) \<Rightarrow> bool \<Rightarrow> ('w, 'e, 'a) act \<Rightarrow> bool" where
  "submits f P once m \<longleftrightarrow>
     (\<forall>w. \<exists>ts. f (snd (m w)) = f w @ ts \<and> (\<forall>t\<in>set ts. P t) \<and> (once \<longrightarrow> length ts \<le> 1))"

named_theorems submits_intros \<open>actions that submit only good transactions\<close>

lemma submits_quiet: "quiet f m \<Longrightarrow> submits f P once m"
  by (auto simp: submits_def quiet_def intro!: exI [of _ "[]"])

lemma submits_unit [submits_intros]:
  "submits f P once (aret a)" "submits f P once (afail e)" "submits f P once apanic" "submits f P once (aresult r)"
  by (rule submits_quiet, rule quiet_unit)+

lemma submits_after [submits_intros]:
  assumes "quiet f m" and "\<And>a. submits f P once (g a)"
  shows "submits f P once (abind m g)"
  unfolding submits_def
proof
  fix w
  show "\<exists>ts. f (snd (abind m g w)) = f w @ ts \<and> (\<forall>t\<in>set ts. P t) \<and> (once \<longrightarrow> length ts \<le> 1)"
  proof (cases "m w")
    case (Pair r w')
    with assms(1) have same: "f w' = f w" by (rule quietD)
    show ?thesis
    proof (cases r)
      case (Inl e)
      then show ?thesis using Pair same by (intro exI [of _ "[]"]) (simp add: abind_def)
    next
      case (Inr a)
      then show ?thesis
        using Pair same assms(2) [of a, unfolded submits_def, rule_format, of w'] by (simp add: abind_def)
    qed
  qed
qed

lemma submits_then:
  assumes "submits f P a m" and "\<And>x. submits f P b (g x)"
  shows "submits f P False (abind m g)"
  unfolding submits_def
proof
  fix w
  obtain r w' where m: "m w = (r, w')" by fastforce
  then obtain ts where ts: "f w' = f w @ ts" "\<forall>t\<in>set ts. P t"
    using assms(1) by (metis snd_conv submits_def)
  show "\<exists>ts. f (snd (abind m g w)) = f w @ ts \<and> (\<forall>t\<in>set ts. P t) \<and> (False \<longrightarrow> length ts \<le> 1)"
  proof (cases r)
    case (Inr x)
    obtain us where "f (snd (g x w')) = f w' @ us" "\<forall>t\<in>set us. P t"
      using assms(2) by (metis submits_def)
    then show ?thesis using ts m Inr by (auto simp: abind_def intro: exI [of _ "ts @ us"])
  qed (use m ts in \<open>auto simp: abind_def\<close>)
qed

lemma submits_before: "submits f P once m \<Longrightarrow> submits f P once (abind m (\<lambda>x. aret (g x)))"
  by (auto simp: submits_def abind_def split: prod.split sum.split) (metis snd_conv)+

lemma submits_amap_err [submits_intros]: "submits f P once m \<Longrightarrow> submits f P once (amap_err g m)"
  by (simp add: submits_def)

lemma submits_if [submits_intros]:
  "submits f P once m \<Longrightarrow> submits f P once m' \<Longrightarrow> submits f P once (if b then m else m')"
  by simp

lemma submits_option [submits_intros]:
  "submits f P once m \<Longrightarrow> (\<And>x. submits f P once (g x)) \<Longrightarrow>
   submits f P once (case a of None \<Rightarrow> m | Some x \<Rightarrow> g x)"
  by (simp split: option.split)

lemma submits_prod [submits_intros]:
  "(\<And>x y. submits f P once (g x y)) \<Longrightarrow> submits f P once (case a of (x, y) \<Rightarrow> g x y)"
  by (simp split: prod.split)

lemma submits_weaken: "submits f P once m \<Longrightarrow> (\<And>t. P t \<Longrightarrow> Q t) \<Longrightarrow> submits f Q once m"
  by (fastforce simp: submits_def)

end
