(* ===== verification/Spl_Process_Safety.thy ===== *)
theory Spl_Process_Safety
  imports Spl_Process Spl_Cli_Safety Client_Log "HOL-Library.Multiset"
begin

text \<open>
  What the token command line submits, whatever the command: one rule per command in the logic of
  \<open>Client_Log\<close>, on a client that logs and a token server that reading leaves alone
  (\<open>logging_server\<close>).  Then: the listing of accounts loses none.
\<close>

section \<open>A server with a log\<close>

definition log_tokens :: "'w token_server \<Rightarrow> ('w \<times> 't list) token_server" where
  "log_tokens V =
     \<lparr>ts_balance = (\<lambda>k. recorded (ts_balance V k)), ts_by_owner = (\<lambda>k p. recorded (ts_by_owner V k p)),
      ts_by_mint = (\<lambda>k m. recorded (ts_by_mint V k m)), ts_supply = (\<lambda>k. recorded (ts_supply V k))\<rparr>"

locale logging_server = logging_client C sent
  for C :: "('w, 'm, 't) client" and sent :: "'w \<Rightarrow> 't list" +
  fixes V :: "'w token_server"
  assumes quiet_tokens: "quiet sent (ts_balance V k)" "quiet sent (ts_by_owner V k p)"
      "quiet sent (ts_by_mint V k p)" "quiet sent (ts_supply V k)"

interpretation logged: logging_server "log_client C" snd "log_tokens V"
  by unfold_locales (simp_all add: log_tokens_def recorded_quiet)

section \<open>The commands\<close>

text \<open>A transaction signed online, for instructions the wallet pays for, by none but the signers \<open>S\<close>.\<close>

definition signed_by ::
  "('s, 'f, 'm, 't) token_cli \<Rightarrow> token_config \<Rightarrow> 's set \<Rightarrow> 't \<Rightarrow> bool" where
  "signed_by X cfg S t \<longleftrightarrow>
     \<not> cfg_sign_only cfg \<and>
     (\<exists>m h chosen. try_sign (tc_sdk X) m chosen h = Inr t \<and> set chosen \<subseteq> S
        \<and> (cfg_nonce_account cfg = None \<longrightarrow> (\<exists>ixs. m = new_message (tc_sdk X) ixs (fee_payer_key cfg))))"

context logging_server
begin

lemma handle_tx_good: "submits sent (signed_by X cfg (set wallets)) True (handle_tx C X cfg wallets no_wait rent ixs)"
  unfolding submits_def
proof
  fix w
  obtain r w' where run: "handle_tx C X cfg wallets no_wait rent ixs w = (r, w')" by fastforce
  show "\<exists>ts. sent (snd (handle_tx C X cfg wallets no_wait rent ixs w)) = sent w @ ts
      \<and> (\<forall>t\<in>set ts. signed_by X cfg (set wallets) t) \<and> (True \<longrightarrow> length ts \<le> 1)"
  proof (cases "sent w' = sent w")
    case False
    then obtain m h w1 t w2 where online: "\<not> cfg_sign_only cfg" and m: "message_for X cfg ixs w = (Inr m, w)"
      and t: "try_sign (tc_sdk X) m (signers_for_message (signer_key (tc_sdk X)) wallets (tc_message_signers X m)) h = Inr t"
      and w2: "sent w2 = sent w" "sent w' = sent (snd (ep_send C t (commitment_config C) w2))"
      by (rule handle_tx_submits [OF run])
    have "cfg_nonce_account cfg = None \<longrightarrow> (\<exists>ixs. m = new_message (tc_sdk X) ixs (fee_payer_key cfg))"
      using m by (auto simp: message_for_def aret_def)
    then have "signed_by X cfg (set wallets) t"
      using online t unfolding signed_by_def
      by (intro conjI exI [of _ m] exI [of _ h]
          exI [of _ "signers_for_message (signer_key (tc_sdk X)) wallets (tc_message_signers X m)"])
        (auto simp: signers_for_message_def)
    then show ?thesis using run w2 by (intro exI [of _ "[t]"]) (simp add: send_logs)
  qed (use run in \<open>auto intro: exI [of _ "[]"]\<close>)
qed

lemma handle_txs_good: "submits sent (signed_by X cfg (set wallets)) False (handle_txs C X cfg wallets needed plan)"
proof (induction plan)
  case (Cons ixs rest)
  then show ?case
    unfolding handle_txs.simps
    by (rule submits_then [OF handle_tx_good submits_before])
qed (simp only: handle_txs.simps submits_unit)

lemma quiet_validate: "quiet sent (validate_mint C X token)"
proof -
  have "sent w' = sent w" if "get_account C token w = (r, w')" for r w w'
    using quietD [OF quiet_reading(4) that] .
  then show ?thesis
    by (auto simp: quiet_def validate_mint_def split: prod.split sum.split fault.split)
qed

lemma quiet_guards:
  "quiet sent (check_fee_payer_balance C cfg l)" "quiet sent (check_wallet_balance C k l)"
  "quiet sent (transfer_balance C V cfg k given)"
  unfolding check_fee_payer_balance_def check_wallet_balance_def
  by (intro quiet_intros quiet_reading quiet_transfer_balance quiet_tokens)+

lemmas quiet_steps = quiet_reading quiet_token_reading quiet_token_pure quiet_guards quiet_validate quiet_tokens

lemmas command_steps = handle_tx_good handle_txs_good submits_intros quiet_steps quiet_intros

lemma creating_good:
  "submits sent (signed_by X cfg (set ws)) True (command_create_token C X cfg ws dec token k b memo)"
  "submits sent (signed_by X cfg (set ws)) True (command_create_account C X cfg ws token k found)"
  "submits sent (signed_by X cfg (set ws)) True (command_create_multisig C X cfg ws k n ks)"
  unfolding command_create_token_def command_create_account_def command_create_multisig_def
  by (rule command_steps)+

lemma moving_good:
  "submits sent (signed_by X cfg (set ws)) True (command_transfer C V X cfg ws ui cmd)"
  "submits sent (signed_by X cfg (set ws)) True (command_burn C X cfg ws k k1 u m d b memo)"
  "submits sent (signed_by X cfg (set ws)) True (command_mint C X cfg ws k u k1 d k2 b)"
  "submits sent (signed_by X cfg (set ws)) True (command_wrap C X cfg ws u k found)"
  "submits sent (signed_by X cfg (set ws)) True (command_unwrap C X cfg ws k address)"
  unfolding command_transfer_def command_burn_def command_mint_def command_wrap_def command_unwrap_def Let_def
  by (rule command_steps)+

lemma managing_good:
  "submits sent (signed_by X cfg (set ws)) True (command_authorize C X cfg ws k ty k1 new b)"
  "submits sent (signed_by X cfg (set ws)) True (command_freeze C X cfg ws k m k1)"
  "submits sent (signed_by X cfg (set ws)) True (command_thaw C X cfg ws k m k1)"
  "submits sent (signed_by X cfg (set ws)) True (command_approve C X cfg ws k k1 u k2 m d b)"
  "submits sent (signed_by X cfg (set ws)) True (command_revoke C X cfg ws k k1 found)"
  "submits sent (signed_by X cfg (set ws)) True (command_close C X cfg ws k k1 k2)"
  "submits sent (signed_by X cfg (set ws)) True (command_sync_native C X cfg ws k)"
  unfolding command_authorize_def command_freeze_def command_thaw_def command_approve_def command_revoke_def
    command_close_def command_sync_native_def Let_def
  by (rule command_steps)+

lemma sweeping_good:
  "submits sent (signed_by X cfg (set ws)) False (command_gc C V X cfg ws arrange k b)"
  unfolding command_gc_def by (rule command_steps)+

end

section \<open>Every command\<close>

text \<open>Who may sign: the wallet, a keypair made up for the call, and those named for a new account.\<close>

definition token_signers :: "('s, 'f) token_args \<Rightarrow> 's set" where
  "token_signers A =
     {wallet_signer A, throwaway A} \<union>
     {s. \<exists>name \<in> {''token_keypair'', ''account_keypair'', ''address_keypair''}. \<exists>path.
        arg_value (ta_matches A) name = Some path \<and> signer_from_path (ta_matches A) path name = Inr s}"

lemma own_signers [simp]: "wallet_signer A \<in> token_signers A" "throwaway A \<in> token_signers A"
  by (simp_all add: token_signers_def)

lemma quiet_arguments:
  "quiet f (or_panic r)" "quiet f (need_key A name)" "quiet f (opt_key A name)" "quiet f (need A parse name)"
  "quiet f (get_signer A name)"
  unfolding or_panic_def need_key_def opt_key_def need_def get_signer_def
  by (intro quiet_intros)+

lemma submits_get_signer:
  assumes "name \<in> {''token_keypair'', ''account_keypair'', ''address_keypair''}"
    and "\<And>found. set_option found \<subseteq> token_signers A \<Longrightarrow> submits f P once (g found)"
  shows "submits f P once (abind (get_signer A name) g)"
proof -
  have "submits f P once (g (Some s))"
    if "arg_value (ta_matches A) name = Some path" "signer_from_path (ta_matches A) path name = Inr s" for path s
  proof (rule assms(2))
    have "s \<in> token_signers A" unfolding token_signers_def using assms(1) that by blast
    then show "set_option (Some s) \<subseteq> token_signers A" by simp
  qed
  moreover have "submits f P once (g None)" by (rule assms(2)) simp
  ultimately show ?thesis
    by (auto simp: get_signer_def submits_def abind_def apanic_def aret_def split: option.split sum.split)
qed

lemmas submits_named_signers =
  submits_get_signer [of "''token_keypair''", OF insertI1]
  submits_get_signer [of "''account_keypair''", OF insertI2, OF insertI1]
  submits_get_signer [of "''address_keypair''", OF insertI2, OF insertI2, OF insertI1]

lemma submits_out:
  assumes "submits f (signed_by X cfg (set ws)) True m" and "set ws \<subseteq> S"
  shows "submits f (signed_by X cfg S) once (abind m (\<lambda>x. aret (g x)))"
proof -
  have "submits f (signed_by X cfg S) True m"
    by (rule submits_weaken [OF assms(1)]) (use assms(2) in \<open>fastforce simp: signed_by_def\<close>)
  from submits_before [OF this, of g] show ?thesis unfolding submits_def by blast
qed

lemma submits_out_many:
  assumes "submits f (signed_by X cfg (set ws)) False m" and "set ws \<subseteq> S"
  shows "submits f (signed_by X cfg S) False (abind m (\<lambda>x. aret (g x)))"
  by (rule submits_before, rule submits_weaken [OF assms(1)]) (use assms(2) in \<open>fastforce simp: signed_by_def\<close>)

context logging_server
begin

lemma quiet_showing:
  "quiet sent (command_balance V k)" "quiet sent (command_supply V k)"
  "quiet sent (command_accounts C V X cfg token k)" "quiet sent (command_address C X cfg token k)"
  "quiet sent (command_account_info C X cfg k)" "quiet sent (command_multisig C X k)"
  unfolding command_balance_def command_supply_def command_accounts_def command_address_def
    command_account_info_def command_multisig_def
  by (intro quiet_intros quiet_steps)+

lemmas arm_steps = creating_good [THEN submits_out] moving_good [THEN submits_out]
  managing_good [THEN submits_out] sweeping_good [THEN submits_out_many] submits_named_signers
  quiet_showing quiet_arguments submits_unit submits_after submits_if submits_option submits_prod quiet_intros

lemma process_arm_once:
  "name \<noteq> CnGc \<Longrightarrow> set bulk \<subseteq> token_signers A \<Longrightarrow>
   submits sent (signed_by X cfg (token_signers A)) once (process_arm name C V X arrange A cfg bulk)"
  by (cases name; hypsubst; unfold process_arm.simps process_arm_defs signer_or_default_def Let_def prod.case;
      ((rule arm_steps)+)?; (auto split: option.splits)?)

lemma process_arm_gc:
  "set bulk \<subseteq> token_signers A \<Longrightarrow>
   submits sent (signed_by X cfg (token_signers A)) False (process_arm CnGc C V X arrange A cfg bulk)"
  unfolding process_arm.simps arm_gc_def signer_or_default_def Let_def prod.case
  by (rule arm_steps)+ simp

lemma run_spl_token_good:
  assumes "run_spl_token C V X arrange A name w = (r, w')"
  shows "\<exists>ts. sent w' = sent w @ ts \<and> (name \<noteq> CnGc \<longrightarrow> length ts \<le> 1)
    \<and> (\<forall>t\<in>set ts. \<exists>cfg. get_config (ta_matches A) (signer_key (tc_sdk X) (wallet_signer A)) = Inr cfg
         \<and> signed_by X cfg (token_signers A) t)"
proof (cases "get_config (ta_matches A) (signer_key (tc_sdk X) (wallet_signer A))")
  case (Inl e)
  then show ?thesis
    using assms by (auto simp: run_spl_token_def or_panic_def abind_def apanic_def)
next
  case (Inr cfg)
  have "submits sent (signed_by X cfg (token_signers A)) (name \<noteq> CnGc)
      (process_arm name C V X arrange A cfg [wallet_signer A])"
    by (cases "name = CnGc") (simp_all add: process_arm_once process_arm_gc del: process_arm.simps)
  then show ?thesis
    using assms Inr
    by (fastforce simp: run_spl_token_def process_command_def or_panic_def abind_def aret_def submits_def
        dest: spec [of _ w])
qed

end

text \<open>The signers an argument names.\<close>

definition named_signers :: "('s, 'f) token_args \<Rightarrow> 's set" where
  "named_signers A =
     {s. \<exists>name path. arg_value (ta_matches A) name = Some path
        \<and> signer_from_path (ta_matches A) path name = Inr s}"

lemma token_signers_named: "token_signers A \<subseteq> {wallet_signer A, throwaway A} \<union> named_signers A"
  by (auto simp: token_signers_def named_signers_def)

text \<open>
  C38. Whatever the token command line is asked to do, on any server: it submits at most one
  transaction, or the ones garbage collection planned, and none when signing offline; each is for
  instructions the wallet pays for, and nobody signs but the wallet, a keypair made up for the call
  and the signers that arguments of the command line name.
\<close>

theorem token_cli_signs_with_wallet:
  assumes "run_spl_token (log_client C) (log_tokens V) X arrange A name (w, []) = (r, (w', submitted))"
  shows "(name \<noteq> CnGc \<longrightarrow> length submitted \<le> 1)
    \<and> (arg_present (ta_matches A) ''sign_only'' \<longrightarrow> submitted = [])
    \<and> (\<forall>t \<in> set submitted. \<exists>ixs h chosen.
         try_sign (tc_sdk X) (new_message (tc_sdk X) ixs (signer_key (tc_sdk X) (wallet_signer A))) chosen h = Inr t
         \<and> set chosen \<subseteq> {wallet_signer A, throwaway A} \<union> named_signers A)"
proof -
  have config: "cfg_sign_only cfg = arg_present (ta_matches A) ''sign_only'' \<and> cfg_nonce_account cfg = None
      \<and> fee_payer_key cfg = k" if "get_config (ta_matches A) k = Inr cfg" for cfg k
    using that by (auto simp: get_config_def rbind_def split: sum.splits)
  have log: "(name \<noteq> CnGc \<longrightarrow> length submitted \<le> 1) \<and> (\<forall>t\<in>set submitted. \<exists>cfg.
      get_config (ta_matches A) (signer_key (tc_sdk X) (wallet_signer A)) = Inr cfg
      \<and> signed_by X cfg (token_signers A) t)"
    using logged.run_spl_token_good [OF assms] by simp
  have signed: "\<not> arg_present (ta_matches A) ''sign_only'' \<and> (\<exists>ixs h chosen.
      try_sign (tc_sdk X) (new_message (tc_sdk X) ixs (signer_key (tc_sdk X) (wallet_signer A))) chosen h = Inr t
      \<and> set chosen \<subseteq> token_signers A)" if "t \<in> set submitted" for t
    using log that config unfolding signed_by_def by metis
  moreover have "length submitted \<le> 1 \<and> submitted = []" if "set submitted = {}"
    using that by simp
  ultimately show ?thesis
    using log token_signers_named [of A] by (cases submitted) (simp, meson list.set_intros(1) subset_trans)
qed

text \<open>Syncing the account 5 of wrapped tokens, with the arguments \<open>address\<close> and \<open>program_id\<close> only.\<close>

definition sample_token_args :: "(pubkey, nat) token_args" where
  "sample_token_args =
     \<lparr>ta_matches = \<lparr>arg_value = (\<lambda>n. if n = ''address'' \<or> n = ''program_id'' then Some n else None),
        arg_present = (\<lambda>_. False), signer_from_path = (\<lambda>_ _. Inl ''no signer''),
        pubkey_from_path = (\<lambda>_ _. Inr 5), parse_key = (\<lambda>_. Some spl_token_id), parse_hash = (\<lambda>_. None),
        parse_sol = (\<lambda>_. None), keypair_key = (\<lambda>_. None)\<rparr>,
      arg_values = (\<lambda>_. None), parse_f64 = (\<lambda>_. None), throwaway = 2, wallet_signer = 1, json_output = False\<rparr>"

lemma sample_log_confirmed:
  "confirm_transaction (log_client sample_token_client) sig AtConfirmed (w, l) = (Inr False, (w, l))"
proof -
  have rounds: "MAX_RETRIES = Suc 4" by (simp add: MAX_RETRIES_def)
  show ?thesis
    unfolding confirm_transaction_def rounds confirm_rounds.simps
    by (simp add: recorded_def settled_def failed_status_def commitment_matches_def abind_def aret_def)
qed

lemma sample_log_submitted:
  "handle_tx (log_client sample_token_client) sample_token_environment (sample_gc_config\<lparr>cfg_query := QueryAll Cluster\<rparr>)
     [1] False 0 ixs (0, []) = (Inr ''signature'', (1, [[2]]))"
proof -
  have level: "commitment_config sample_token_client = AtConfirmed"
    by (simp add: sample_token_client_def sample_client_def sample_codec_def)
  show ?thesis
    by (simp add: handle_tx_def message_for_def query_blockhash_def source_blockhash_def
        get_latest_blockhash_with_config_def client_fee_def check_fee_payer_balance_def
        get_balance_with_commitment_def sign_and_send_def signed_with_def send_tx_wrapper_def client_send_def
        send_and_confirm_def send_and_confirm_with_def sample_log_confirmed level sample_gc_config_def sample_cli_def
        amap_err_def abind_def aret_def recorded_def Let_def)
qed

theorem token_cli_signs_with_wallet_witness:
  "\<exists>r w' t. run_spl_token (log_client sample_token_client) (log_tokens sample_token_server) sample_token_environment id
       sample_token_args CnSyncNative (0, []) = (r, (w', [t])) \<and> w' = 1
     \<and> (\<exists>ixs h chosen. try_sign sample_cli (new_message sample_cli ixs 1) chosen h = Inr t
          \<and> set chosen \<subseteq> {1, 2} \<union> named_signers sample_token_args)"
proof -
  let ?run = "run_spl_token (log_client sample_token_client) (log_tokens sample_token_server) sample_token_environment id
       sample_token_args CnSyncNative (0, [])"
  have config: "get_config (ta_matches sample_token_args) 1 = Inr (sample_gc_config\<lparr>cfg_query := QueryAll Cluster\<rparr>)"
    by (simp add: get_config_def sample_token_args_def sample_gc_config_def blockhash_query_from_matches_def value_of_def
        pubkey_of_def new_blockhash_query_def unwrapped_def)
  have address: "associated_for_token_or_override sample_ata cfg (ta_matches sample_token_args) 1 ''address''
      (Some spl_native_mint_id) = Inr 5" for cfg
    by (simp add: associated_for_token_or_override_def signer_key_arg_def pubkey_of_signer_def boxed_def
        sample_token_args_def)
  have wallet: "signer_key sample_cli k = k" "wallet_signer sample_token_args = 1" "throwaway sample_token_args = 2" for k
    by (simp_all add: sample_cli_def sample_token_args_def Let_def)
  obtain r where run: "?run = (r, (1, [[2]]))"
    using config address wallet sample_log_submitted
    by (simp add: run_spl_token_def process_command_def arm_sync_native_def command_sync_native_def or_panic_def built_def abind_def aret_def
        sample_gc_config_def spl_sync_native_ix_def check_spl_program_def)
  from token_cli_signs_with_wallet [OF run] show ?thesis using run by (simp add: wallet)
qed

section \<open>Listing accounts\<close>

definition listed :: "(string \<times> 'a list) list \<Rightarrow> 'a multiset" where
  "listed groups = mset (concat (map snd groups))"

lemma listed_push [simp]: "listed (mint_push m a groups) = add_mset a (listed groups)"
  by (induction m a groups rule: mint_push.induct) (auto simp: listed_def)

lemma mint_push_keys: "set (map fst (mint_push m a groups)) = insert m (set (map fst groups))"
  by (induction m a groups rule: mint_push.induct) auto

lemma mint_push_sorted:
  "sorted_wrt (<) (map fst groups) \<Longrightarrow> sorted_wrt (<) (map fst (mint_push m a groups))"
proof (induction m a groups rule: mint_push.induct)
  case (2 m a m' listed rest)
  then show ?case
    using mint_push_keys [of m a rest] by (auto simp: not_less intro: less_trans)
qed simp

lemma mint_push_own:
  "(\<forall>(k, as) \<in> set groups. \<forall>b \<in> set as. f b = k) \<Longrightarrow> f a = m \<Longrightarrow>
   \<forall>(k, as) \<in> set (mint_push m a groups). \<forall>b \<in> set as. f b = k"
  by (induction m a groups rule: mint_push.induct) auto

definition accounts_of :: "token_listing \<Rightarrow> listed_account multiset" where
  "accounts_of L = listed (tl_accounts L)"

definition listing_of :: "string list \<Rightarrow> token_listing \<Rightarrow> bool" where
  "listing_of addresses L \<longleftrightarrow>
     image_mset la_address (accounts_of L) + mset (map fst (tl_unsupported L)) = mset addresses
     \<and> sorted_wrt (<) (map fst (tl_accounts L))
     \<and> (\<forall>(m, as) \<in> set (tl_accounts L). \<forall>a \<in> set as. ut_mint (la_account a) = m)
     \<and> (\<forall>a \<in># accounts_of L. length (real_number_string_trimmed (la_account a)) \<le> tl_width L)"

lemma listing_unsupported:
  "listing_of addresses L \<Longrightarrow> listing_of (addresses @ [address]) (unsupported address e L)"
  by (simp add: listing_of_def unsupported_def accounts_of_def)

lemma listing_supported:
  assumes "listing_of addresses L" and "la_address a = address" and "ut_mint (la_account a) = m"
    and "width = max (tl_width L) (length (real_number_string_trimmed (la_account a)))"
  shows "listing_of (addresses @ [address])
    (L\<lparr>tl_accounts := mint_push m a (tl_accounts L), tl_width := width, tl_aux := aux\<rparr>)"
proof -
  note own = mint_push_own [of "tl_accounts L" "\<lambda>b. ut_mint (la_account b)", OF _ assms(3)]
  show ?thesis
    unfolding listing_of_def accounts_of_def
    by (intro conjI) (use assms own in \<open>auto simp: listing_of_def accounts_of_def mint_push_sorted le_max_iff_disj\<close>)
qed

lemma listing_step:
  "listing_of addresses L \<Longrightarrow> listing_of (addresses @ [fst keyed]) (list_account C X k p keyed L)"
  by (auto simp: list_account_def Let_def intro!: listing_unsupported listing_supported
      split: ui_data.split sum.split token_account_type.split)

lemma listing_fold:
  "listing_of addresses L \<Longrightarrow> listing_of (addresses @ map fst keyed) (fold (list_account C X k p) keyed L)"
proof (induction keyed arbitrary: addresses L)
  case (Cons a keyed)
  from Cons.IH [OF listing_step [OF Cons.prems, of a]] show ?case by simp
qed simp

lemma associated_first_simps [simp]:
  "mset (associated_first as) = mset as" "set (associated_first as) = set as"
  by (auto simp: associated_first_def)

lemma associated_first_sorted: "sorted_wrt (\<lambda>a b. la_associated b \<longrightarrow> la_associated a) (associated_first as)"
proof -
  have "sorted_wrt (\<lambda>a b. la_associated b \<longrightarrow> la_associated a) xs"
    if "(\<forall>a\<in>set xs. la_associated a) \<or> (\<forall>a\<in>set xs. \<not> la_associated a)" for xs
    using that by (induction xs) auto
  from this [of "filter la_associated as"] this [of "filter (\<lambda>a. \<not> la_associated a) as"]
  show ?thesis by (simp add: associated_first_def sorted_wrt_append)
qed

lemma listing_sorted:
  assumes "listing_of addresses L"
  shows "listing_of addresses (L\<lparr>tl_accounts := map (\<lambda>(m, as). (m, associated_first as)) (tl_accounts L)\<rparr>)"
proof -
  let ?sort = "map (\<lambda>(m, as). (m, associated_first as))"
  have listed: "listed (?sort groups) = listed groups" for groups
    by (induction groups) (auto simp: listed_def)
  have keys: "map fst (?sort groups) = map fst groups" for groups :: "(string \<times> listed_account list) list"
    by (induction groups) auto
  have own: "(\<forall>(m, as)\<in>set (?sort groups). \<forall>a\<in>set as. ut_mint (la_account a) = m) \<longleftrightarrow>
      (\<forall>(m, as)\<in>set groups. \<forall>a\<in>set as. ut_mint (la_account a) = m)" for groups
    by (induction groups) auto
  show ?thesis
    using assms
    by (cases L)
      (simp only: listing_of_def accounts_of_def token_listing.select_convs token_listing.update_convs listed keys own
        simp_thms, blast)
qed

text \<open>
  The listing of an owner's accounts shows every account the server answered exactly once, under
  its mint or among the unsupported ones; the mints come in order, each once, with the associated
  accounts first; and the column of balances is wide enough for all.
\<close>

theorem listing_is_complete:
  "let L = sort_and_parse_token_accounts C X k keyed p in
   listing_of (map fst keyed) L
   \<and> (\<forall>(m, as) \<in> set (tl_accounts L). sorted_wrt (\<lambda>a b. la_associated b \<longrightarrow> la_associated a) as)"
proof -
  have "listing_of [] \<lparr>tl_accounts = [], tl_unsupported = [], tl_width = 0, tl_aux = False\<rparr>"
    by (simp add: listing_of_def accounts_of_def listed_def)
  from listing_sorted [OF listing_fold [OF this]]
  have "listing_of (map fst keyed) (sort_and_parse_token_accounts C X k keyed p)"
    by (simp add: sort_and_parse_token_accounts_def Let_def)
  then show ?thesis
    by (auto simp: sort_and_parse_token_accounts_def Let_def associated_first_sorted)
qed

end
