(* ===== verification/Cli_Program.thy ===== *)
theory Cli_Program
  imports Cli_Wallet
begin

text \<open>
  The program command of the command line, \<open>solana-cli/src/commands/program.rs\<close>: showing programs and
  buffers, handing over their authority, closing them; and the reading of a program's accounts in
  \<open>solana-client/src/client.rs\<close>.  The upgradeable loader's instructions, its account states and the
  query of the server are parameters.  The messages of errors are kept without the addresses they name.
\<close>

section \<open>The loader\<close>

datatype loader_state =
    LoaderUninitialized
  | LoaderBuffer "pubkey option"
  | LoaderProgram pubkey
  | LoaderProgramData u64 "pubkey option"

text \<open>\<open>Memcmp\<close> filters: an offset and the bytes to be found there.\<close>

type_synonym memcmp = "nat \<times> bytes"

text \<open>
  \<open>loader_state\<close> of an account's bytes is bincode's; \<open>program_accounts\<close> asks for the accounts of the
  upgradeable loader that pass the filters, cut to a length (\<open>None\<close>: no keyed accounts).
\<close>

record ('w, 's, 'm, 't) program_cli =
  pc_sdk :: "('s, 'm, 't) cli_sdk"
  pc_set_upgrade_authority :: "pubkey \<Rightarrow> pubkey \<Rightarrow> pubkey option \<Rightarrow> client_instruction"
  pc_set_buffer_authority :: "pubkey \<Rightarrow> pubkey \<Rightarrow> pubkey \<Rightarrow> client_instruction"
  pc_close_any :: "pubkey \<Rightarrow> pubkey \<Rightarrow> pubkey option \<Rightarrow> pubkey option \<Rightarrow> client_instruction"
  pc_loader_state :: "bytes \<Rightarrow> loader_state option"
  pc_bpf_loader :: pubkey
  pc_bpf_loader_deprecated :: pubkey
  pc_upgradeable :: pubkey
  pc_program_accounts ::
    "memcmp list \<Rightarrow> nat \<Rightarrow> commitment_level \<Rightarrow> ('w, client_error, (string \<times> ui_account) list option) act"

abbreviation cli_text :: "string \<Rightarrow> cli_error" where "cli_text s \<equiv> CliDynamicProgramError s"

section \<open>Commands\<close>

datatype program_command =
    SetBufferAuthority pubkey "nat option" pubkey
  | SetUpgradeAuthority pubkey "nat option" "pubkey option"
  | ProgramShow "pubkey option" pubkey bool bool bool \<comment> \<open>account, authority, programs, buffers, all\<close>
  | ProgramClose "pubkey option" pubkey nat

definition parse_set_buffer_authority ::
  "('s \<Rightarrow> pubkey) \<Rightarrow> 's matches \<Rightarrow> 's \<Rightarrow> (program_command \<times> 's list, cli_error) res" where
  "parse_set_buffer_authority key A default_signer =
     rbind (unwrapped (pubkey_of A ''buffer'')) (\<lambda>buffer_key.
     rbind (signer_of key A ''buffer_authority'') (\<lambda>(s, k).
     rbind (pubkey_of_signer A ''new_buffer_authority'') (\<lambda>new_opt.
     rbind (unwrapped new_opt) (\<lambda>new_key.
     let us = generate_unique_signers key default_signer [s]
     in Inr (SetBufferAuthority buffer_key (index_of key us k) new_key, us)))))"

definition parse_set_upgrade_authority ::
  "('s \<Rightarrow> pubkey) \<Rightarrow> 's matches \<Rightarrow> 's \<Rightarrow> (program_command \<times> 's list, cli_error) res" where
  "parse_set_upgrade_authority key A default_signer =
     rbind (signer_of key A ''upgrade_authority'') (\<lambda>(s, k).
     rbind (unwrapped (pubkey_of A ''program_id'')) (\<lambda>program_key.
     rbind (if arg_present A ''final'' then Inr None else pubkey_of_signer A ''new_upgrade_authority'') (\<lambda>new_opt.
     let us = generate_unique_signers key default_signer [s]
     in Inr (SetUpgradeAuthority program_key (index_of key us k) new_opt, us))))"

definition parse_program_show ::
  "('s \<Rightarrow> pubkey) \<Rightarrow> 's matches \<Rightarrow> 's \<Rightarrow> (program_command \<times> 's list, cli_error) res" where
  "parse_program_show key A default_signer =
     rbind (pubkey_of_signer A ''buffer_authority'') (\<lambda>found.
     Inr (ProgramShow (pubkey_of A ''account'') (case found of Some k \<Rightarrow> k | None \<Rightarrow> key default_signer)
            (arg_present A ''programs'') (arg_present A ''buffers'') (arg_present A ''all''), []))"

definition parse_program_close ::
  "('s \<Rightarrow> pubkey) \<Rightarrow> 's matches \<Rightarrow> 's \<Rightarrow> (program_command \<times> 's list, cli_error) res" where
  "parse_program_close key A default_signer =
     rbind (pubkey_of_signer A ''recipient_account'') (\<lambda>found.
     rbind (signer_of key A ''authority'') (\<lambda>(s, k).
     let us = generate_unique_signers key default_signer [s]
     in rbind (unwrapped (index_of key us k)) (\<lambda>i.
        Inr (ProgramClose (if arg_present A ''buffers'' then None else pubkey_of A ''account'')
               (case found of Some r \<Rightarrow> r | None \<Rightarrow> key default_signer) i, us))))"

text \<open>The match on the name of the subcommand; clap lets no other name through.\<close>

definition parse_program_subcommand ::
  "('s \<Rightarrow> pubkey) \<Rightarrow> string \<Rightarrow> 's matches \<Rightarrow> 's \<Rightarrow> (program_command \<times> 's list, cli_error) res" where
  "parse_program_subcommand key name A default_signer =
     (if name = ''set-buffer-authority'' then parse_set_buffer_authority key A default_signer
      else if name = ''set-upgrade-authority'' then parse_set_upgrade_authority key A default_signer
      else if name = ''show'' then parse_program_show key A default_signer
      else if name = ''close'' then parse_program_close key A default_signer
      else Inl Panic)"

section \<open>Reading\<close>

text \<open>The keyed accounts a server answers, each key and account parsed or refused.\<close>

fun decode_keyed :: "('w, 'm, 't) client \<Rightarrow> (string \<times> ui_account) list \<Rightarrow> client_error + (pubkey \<times> account) list" where
  "decode_keyed C [] = Inr []"
| "decode_keyed C ((text, u) # rest) =
     (case key_of_text C text of
        None \<Rightarrow> Inl (new_client_error (text @ '' is not a valid pubkey.''))
      | Some k \<Rightarrow>
         (case ui_decode C u of
            None \<Rightarrow> Inl (new_client_error (''Unable to decode '' @ key_text C k))
          | Some a \<Rightarrow> map_sum id (\<lambda>as. (k, a) # as) (decode_keyed C rest)))"

definition get_program_accounts_with_config ::
  "('w, 'm, 't) client \<Rightarrow> ('w, 's, 'm, 't) program_cli \<Rightarrow> memcmp list \<Rightarrow> nat
     \<Rightarrow> ('w, client_error, (pubkey \<times> account) list) act" where
  "get_program_accounts_with_config C P filters len =
     abind (pc_program_accounts P filters len (commitment_config C)) (\<lambda>found.
     (case found of
        None \<Rightarrow> afail (new_client_error ''Program account doesn't exist.'')
      | Some keyed \<Rightarrow> (case decode_keyed C keyed of Inl e \<Rightarrow> afail e | Inr as \<Rightarrow> aret as)))"

definition get_accounts_with_filter ::
  "('w, 'm, 't) client \<Rightarrow> ('w, 's, 'm, 't) program_cli \<Rightarrow> memcmp list \<Rightarrow> nat
     \<Rightarrow> ('w, cli_error, (pubkey \<times> account) list) act" where
  "get_accounts_with_filter C P filters len = amap_err CliClient (get_program_accounts_with_config C P filters len)"

text \<open>\<open>data_len\<close> has the 32 bits of \<open>usize\<close> in the browser, and wraps there.\<close>

record shown_buffer =
  sb_address :: string
  sb_authority :: "pubkey option"
  sb_data_len :: "32 word"
  sb_lamports :: u64

record shown_program =
  sp_program :: pubkey
  sp_owner :: pubkey
  sp_programdata :: pubkey
  sp_authority :: "pubkey option"
  sp_last_deploy_slot :: u64
  sp_data_len :: "32 word"
  sp_lamports :: u64

fun shown_buffers ::
  "('w, 'm, 't) client \<Rightarrow> ('w, 's, 'm, 't) program_cli \<Rightarrow> (pubkey \<times> account) list
     \<Rightarrow> (shown_buffer list, cli_error) res" where
  "shown_buffers C P [] = Inr []"
| "shown_buffers C P ((k, a) # rest) =
     (case pc_loader_state P (data a) of
        Some (LoaderBuffer authority_address) \<Rightarrow>
          rbind (shown_buffers C P rest) (\<lambda>bs.
          Inr (\<lparr>sb_address = key_text C k, sb_authority = authority_address, sb_data_len = 0,
                sb_lamports = lamports a\<rparr> # bs))
      | _ \<Rightarrow> Inl (Err (cli_text ''Error parsing Buffer account'')))"

definition authority_filters :: "nat \<Rightarrow> pubkey option \<Rightarrow> memcmp list" where
  "authority_filters n authority_key =
     (case authority_key of None \<Rightarrow> [] | Some k \<Rightarrow> [(n, [1]), (n + 1, key_bytes k)])"

definition get_buffers ::
  "('w, 'm, 't) client \<Rightarrow> ('w, 's, 'm, 't) program_cli \<Rightarrow> pubkey option \<Rightarrow> ('w, cli_error, shown_buffer list) act" where
  "get_buffers C P authority_key =
     abind (get_accounts_with_filter C P ((0, [1, 0, 0, 0]) # authority_filters 4 authority_key) (4 + 1 + 32)) (\<lambda>as.
     aresult (shown_buffers C P as))"

fun shown_programs ::
  "('w, 'm, 't) client \<Rightarrow> ('w, 's, 'm, 't) program_cli \<Rightarrow> (pubkey \<times> account) list
     \<Rightarrow> ('w, cli_error, shown_program list) act" where
  "shown_programs C P [] = aret []"
| "shown_programs C P ((k, a) # rest) =
     (case pc_loader_state P (data a) of
        Some (LoaderProgramData deployed authority_address) \<Rightarrow>
          abind (get_accounts_with_filter C P [(0, [2, 0, 0, 0] @ key_bytes k)] 0) (\<lambda>found.
          if length found \<noteq> 1
          then afail (cli_text ''Error: More than one Program associated with ProgramData account'')
          else
            abind (shown_programs C P rest) (\<lambda>ps.
            aret (\<lparr>sp_program = fst (hd found), sp_owner = owner a, sp_programdata = k, sp_authority = authority_address,
                   sp_last_deploy_slot = deployed, sp_data_len = of_nat (length (data a)) - 45,
                   sp_lamports = lamports a\<rparr> # ps)))
      | _ \<Rightarrow> afail (cli_text ''Error parsing ProgramData account''))"

definition get_programs ::
  "('w, 'm, 't) client \<Rightarrow> ('w, 's, 'm, 't) program_cli \<Rightarrow> pubkey option \<Rightarrow> ('w, cli_error, shown_program list) act" where
  "get_programs C P authority_key =
     abind (get_accounts_with_filter C P ((0, [3, 0, 0, 0]) # authority_filters (4 + 8) authority_key) (4 + 8 + 1 + 32)) (\<lambda>as.
     shown_programs C P as)"

section \<open>Processing\<close>

datatype program_output =
    PoAuthority "pubkey option" bool \<comment> \<open>of a program, or of a buffer\<close>
  | PoLegacy pubkey pubkey nat
  | PoProgram shown_program
  | PoBuffer shown_buffer
  | PoPrograms "shown_program list"
  | PoBuffers "shown_buffer list"
  | PoClosed pubkey u64

text \<open>
  Both transactions have one instruction, the first signer as the payer, and are signed by it and
  the authority; \<open>e\<close> is how a failure of sending is reported.
\<close>

definition sign_with_authority ::
  "('w, 'm, 't) client \<Rightarrow> ('w, 's, 'm, 't) program_cli \<Rightarrow> 's list \<Rightarrow> commitment_level \<Rightarrow> 's \<Rightarrow> hash
     \<Rightarrow> client_instruction \<Rightarrow> string \<Rightarrow> ('w, cli_error, unit) act" where
  "sign_with_authority C P signers c auth_signer h ix e =
     abind (signer_at_index signers 0) (\<lambda>payer.
     abind (signer_result (try_sign (pc_sdk P) (new_message (pc_sdk P) [ix] (signer_key (pc_sdk P) payer))
              [payer, auth_signer] h)) (\<lambda>t.
     abind (amap_err (\<lambda>x. cli_text (e @ error_text x)) (send_and_confirm_with C t c)) (\<lambda>_. aret ())))"

definition authority_instruction ::
  "('w, 's, 'm, 't) program_cli \<Rightarrow> pubkey option \<Rightarrow> pubkey option \<Rightarrow> pubkey \<Rightarrow> pubkey option
     \<Rightarrow> (client_instruction, cli_error) res" where
  "authority_instruction P program_key buffer_key auth_key new_authority =
     (case program_key of
        Some p \<Rightarrow> Inr (pc_set_upgrade_authority P p auth_key new_authority)
      | None \<Rightarrow>
         (case buffer_key of
            Some b \<Rightarrow>
             (case new_authority of
                Some n \<Rightarrow> Inr (pc_set_buffer_authority P b auth_key n)
              | None \<Rightarrow> Inl (Err (cli_text ''Buffer authority cannot be None'')))
          | None \<Rightarrow> Inl (Err (cli_text ''Program or Buffer not provided''))))"

definition process_program_set_authority ::
  "('w, 'm, 't) client \<Rightarrow> ('w, 's, 'm, 't) program_cli \<Rightarrow> 's list \<Rightarrow> commitment_level
     \<Rightarrow> pubkey option \<Rightarrow> pubkey option \<Rightarrow> nat option \<Rightarrow> pubkey option \<Rightarrow> ('w, cli_error, program_output) act" where
  "process_program_set_authority C P signers c program_key buffer_key auth_index new_authority =
     (case auth_index of
        None \<Rightarrow> afail (cli_text ''Set authority requires the current authority'')
      | Some i \<Rightarrow>
          abind (signer_at_index signers i) (\<lambda>auth_signer.
          abind (amap_err CliClient (latest_hash C)) (\<lambda>h.
          abind (aresult (authority_instruction P program_key buffer_key (signer_key (pc_sdk P) auth_signer) new_authority)) (\<lambda>ix.
          abind (sign_with_authority C P signers c auth_signer h ix ''Setting authority failed: '') (\<lambda>_.
          aret (PoAuthority new_authority (program_key \<noteq> None)))))))"

definition close_account_of ::
  "('w, 'm, 't) client \<Rightarrow> ('w, 's, 'm, 't) program_cli \<Rightarrow> 's list \<Rightarrow> commitment_level \<Rightarrow> pubkey \<Rightarrow> pubkey \<Rightarrow> 's
     \<Rightarrow> pubkey option \<Rightarrow> ('w, cli_error, unit) act" where
  "close_account_of C P signers c k recipient auth_signer program_key =
     abind (amap_err CliClient (latest_hash C)) (\<lambda>h.
     sign_with_authority C P signers c auth_signer h
       (pc_close_any P k recipient (Some (signer_key (pc_sdk P) auth_signer)) program_key) ''Close failed: '')"

text \<open>\<open>is_ok\<close> of a result: only a panic goes on.\<close>

definition attempt :: "('w, 'e, 'a) act \<Rightarrow> ('w, 'f, bool) act" where
  "attempt m w =
     (case m w of
        (Inl Panic, w') \<Rightarrow> (Inl Panic, w')
      | (Inl (Err _), w') \<Rightarrow> (Inr False, w')
      | (Inr _, w') \<Rightarrow> (Inr True, w'))"

fun close_buffers ::
  "('w, 'm, 't) client \<Rightarrow> ('w, 's, 'm, 't) program_cli \<Rightarrow> 's list \<Rightarrow> commitment_level \<Rightarrow> pubkey \<Rightarrow> 's
     \<Rightarrow> shown_buffer list \<Rightarrow> ('w, cli_error, shown_buffer list) act" where
  "close_buffers C P signers c recipient auth_signer [] = aret []"
| "close_buffers C P signers c recipient auth_signer (b # bs) =
     (case key_of_text C (sb_address b) of
        None \<Rightarrow> afail (cli_text ''Invalid key'')
      | Some k \<Rightarrow>
          abind (attempt (close_account_of C P signers c k recipient auth_signer None)) (\<lambda>ok.
          abind (close_buffers C P signers c recipient auth_signer bs) (\<lambda>closed.
          aret (if ok then b # closed else closed))))"

definition closed_program :: "('w, cli_error, program_output) act" where
  "closed_program = afail (cli_text ''Program has been closed'')"

definition process_close_buffer ::
  "('w, 'm, 't) client \<Rightarrow> ('w, 's, 'm, 't) program_cli \<Rightarrow> 's list \<Rightarrow> commitment_level \<Rightarrow> pubkey \<Rightarrow> pubkey \<Rightarrow> 's
     \<Rightarrow> account \<Rightarrow> pubkey option \<Rightarrow> ('w, cli_error, program_output) act" where
  "process_close_buffer C P signers c k recipient auth_signer a authority_address =
     (if authority_address \<noteq> Some (signer_key (pc_sdk P) auth_signer)
      then afail (cli_text ''Buffer account authority does not match'')
      else
        abind (close_account_of C P signers c k recipient auth_signer None) (\<lambda>_.
        aret (PoBuffers [\<lparr>sb_address = key_text C k, sb_authority = authority_address, sb_data_len = 0,
                         sb_lamports = lamports a\<rparr>])))"

definition process_close_program ::
  "('w, 'm, 't) client \<Rightarrow> ('w, 's, 'm, 't) program_cli \<Rightarrow> 's list \<Rightarrow> commitment_level \<Rightarrow> pubkey \<Rightarrow> pubkey \<Rightarrow> 's
     \<Rightarrow> pubkey \<Rightarrow> ('w, cli_error, program_output) act" where
  "process_close_program C P signers c k recipient auth_signer data_key =
     abind (amap_err CliClient (get_account_with_commitment C data_key c)) (\<lambda>found.
     (case found of
        None \<Rightarrow> closed_program
      | Some a \<Rightarrow>
         (case pc_loader_state P (data a) of
            Some (LoaderProgramData _ authority_address) \<Rightarrow>
              if authority_address \<noteq> Some (signer_key (pc_sdk P) auth_signer)
              then afail (cli_text ''Program authority does not match'')
              else
                abind (close_account_of C P signers c data_key recipient auth_signer (Some k)) (\<lambda>_.
                aret (PoClosed k (lamports a)))
          | _ \<Rightarrow> closed_program)))"

definition process_close ::
  "('w, 'm, 't) client \<Rightarrow> ('w, 's, 'm, 't) program_cli \<Rightarrow> 's list \<Rightarrow> commitment_level
     \<Rightarrow> pubkey option \<Rightarrow> pubkey \<Rightarrow> nat \<Rightarrow> ('w, cli_error, program_output) act" where
  "process_close C P signers c account_key recipient auth_index =
     abind (signer_at_index signers auth_index) (\<lambda>auth_signer.
     (case account_key of
        Some k \<Rightarrow>
          abind (amap_err CliClient (get_account_with_commitment C k c)) (\<lambda>found.
          (case found of
             None \<Rightarrow> afail (cli_text ''Unable to find the account'')
           | Some a \<Rightarrow>
              (case pc_loader_state P (data a) of
                 Some (LoaderBuffer authority_address) \<Rightarrow>
                   process_close_buffer C P signers c k recipient auth_signer a authority_address
               | Some (LoaderProgram data_key) \<Rightarrow>
                   process_close_program C P signers c k recipient auth_signer data_key
               | _ \<Rightarrow> afail (cli_text ''The account is not a Program or Buffer account''))))
      | None \<Rightarrow>
          abind (get_buffers C P (Some (signer_key (pc_sdk P) auth_signer))) (\<lambda>bs.
          abind (close_buffers C P signers c recipient auth_signer bs) (\<lambda>closed.
          aret (PoBuffers closed)))))"

definition show_upgradeable ::
  "('w, 'm, 't) client \<Rightarrow> ('w, 's, 'm, 't) program_cli \<Rightarrow> commitment_level \<Rightarrow> pubkey \<Rightarrow> account
     \<Rightarrow> ('w, cli_error, program_output) act" where
  "show_upgradeable C P c k a =
     (case pc_loader_state P (data a) of
        Some (LoaderProgram data_key) \<Rightarrow>
          abind (amap_err CliClient (get_account_with_commitment C data_key c)) (\<lambda>found.
          (case found of
             None \<Rightarrow> closed_program
           | Some d \<Rightarrow>
              (case pc_loader_state P (data d) of
                 Some (LoaderProgramData deployed authority_address) \<Rightarrow>
                   aret (PoProgram \<lparr>sp_program = k, sp_owner = owner a, sp_programdata = data_key,
                          sp_authority = authority_address, sp_last_deploy_slot = deployed,
                          sp_data_len = of_nat (length (data d)) - 45, sp_lamports = lamports d\<rparr>)
               | _ \<Rightarrow> closed_program)))
      | Some (LoaderBuffer authority_address) \<Rightarrow>
          aret (PoBuffer \<lparr>sb_address = key_text C k, sb_authority = authority_address,
                 sb_data_len = of_nat (length (data a)) - 37, sb_lamports = lamports a\<rparr>)
      | _ \<Rightarrow> afail (cli_text ''The account is not an upgradeable loader Buffer or Program account''))"

definition process_program_show ::
  "('w, 'm, 't) client \<Rightarrow> ('w, 's, 'm, 't) program_cli \<Rightarrow> commitment_level \<Rightarrow> pubkey option \<Rightarrow> pubkey
     \<Rightarrow> bool \<Rightarrow> bool \<Rightarrow> bool \<Rightarrow> ('w, cli_error, program_output) act" where
  "process_program_show C P c account_key authority_key programs buffers everyone =
     (let authority_filter = (if everyone then None else Some authority_key) in
      case account_key of
        Some k \<Rightarrow>
          abind (amap_err CliClient (get_account C k)) (\<lambda>a.
          if owner a = pc_bpf_loader P \<or> owner a = pc_bpf_loader_deprecated P
          then aret (PoLegacy k (owner a) (length (data a)))
          else if owner a = pc_upgradeable P then show_upgradeable C P c k a
          else afail (cli_text ''The account is not a BPF program''))
      | None \<Rightarrow>
          if programs then abind (get_programs C P authority_filter) (\<lambda>ps. aret (PoPrograms ps))
          else if buffers then abind (get_buffers C P authority_filter) (\<lambda>bs. aret (PoBuffers bs))
          else afail (cli_text ''Invalid parameters''))"

fun process_program_subcommand ::
  "('w, 'm, 't) client \<Rightarrow> ('w, 's, 'm, 't) program_cli \<Rightarrow> 's list \<Rightarrow> commitment_level \<Rightarrow> program_command
     \<Rightarrow> ('w, cli_error, program_output) act" where
  "process_program_subcommand C P signers c (SetBufferAuthority b i n) =
     process_program_set_authority C P signers c None (Some b) i (Some n)"
| "process_program_subcommand C P signers c (SetUpgradeAuthority p i n) =
     process_program_set_authority C P signers c (Some p) None i n"
| "process_program_subcommand C P signers c (ProgramShow k a programs buffers everyone) =
     process_program_show C P c k a programs buffers everyone"
| "process_program_subcommand C P signers c (ProgramClose k recipient i) =
     process_close C P signers c k recipient i"

end
