(* ===== verification/Cli_Program_Safety.thy ===== *)
theory Cli_Program_Safety
  imports Cli_Program Client_Log
begin

text \<open>
  What the program commands submit, in the logic of \<open>Client_Log\<close>: a close is checked against the
  account on the server, and whoever is named as the authority also pays.
\<close>

section \<open>The loader's accounts on a client that logs\<close>

definition log_program ::
  "('w, 's, 'm, 't) program_cli \<Rightarrow> ('w \<times> 't list, 's, 'm, 't) program_cli" where
  "log_program P =
     \<lparr>pc_sdk = pc_sdk P, pc_set_upgrade_authority = pc_set_upgrade_authority P,
      pc_set_buffer_authority = pc_set_buffer_authority P, pc_close_any = pc_close_any P,
      pc_loader_state = pc_loader_state P, pc_bpf_loader = pc_bpf_loader P,
      pc_bpf_loader_deprecated = pc_bpf_loader_deprecated P, pc_upgradeable = pc_upgradeable P,
      pc_program_accounts = (\<lambda>f n c. recorded (pc_program_accounts P f n c))\<rparr>"

lemma log_program_fields [simp]:
  "pc_sdk (log_program P) = pc_sdk P" "pc_set_upgrade_authority (log_program P) = pc_set_upgrade_authority P"
  "pc_set_buffer_authority (log_program P) = pc_set_buffer_authority P"
  "pc_close_any (log_program P) = pc_close_any P" "pc_loader_state (log_program P) = pc_loader_state P"
  by (simp_all add: log_program_def)

locale logging_loader = logging_client C sent
  for C :: "('w, 'm, 't) client" and sent :: "'w \<Rightarrow> 't list" +
  fixes P :: "('w, 's, 'm, 't) program_cli"
  assumes quiet_accounts: "quiet sent (pc_program_accounts P f n c)"

interpretation logged_loader: logging_loader "log_client C" snd "log_program P"
  by unfold_locales (simp add: log_program_def recorded_quiet)

section \<open>Signing\<close>

lemma quiet_signer_at_index: "quiet f (signer_at_index signers i)" "quiet f (signer_result x)"
  by (auto simp: signer_at_index_def signer_result_def intro: quiet_unit split: sum.split)

text \<open>A transaction of one instruction, paid by the first signer and signed by it and \<open>auth_signer\<close>.\<close>

definition authority_signed ::
  "('w, 's, 'm, 't) program_cli \<Rightarrow> 's list \<Rightarrow> 's \<Rightarrow> client_instruction \<Rightarrow> 't \<Rightarrow> bool" where
  "authority_signed P signers auth_signer ix t \<longleftrightarrow>
     signers \<noteq> [] \<and>
     (\<exists>h. try_sign (pc_sdk P) (new_message (pc_sdk P) [ix] (signer_key (pc_sdk P) (hd signers)))
            [hd signers, auth_signer] h = Inr t)"

context logging_loader
begin

lemma send_logged:
  "\<exists>ts. sent (snd (send_and_confirm_with C t c w)) = sent w @ ts \<and> set ts \<subseteq> {t} \<and> length ts \<le> 1"
proof -
  obtain x w1 where send: "ep_send C t c w = (x, w1)" by fastforce
  have logged: "sent w1 = sent w @ [t]" using send_logs [of t c w] send by simp
  have "sent (snd (send_and_confirm_with C t c w)) = sent w1"
    by (auto simp: send_and_confirm_with_def client_send_def send abind_def aret_def afail_def apanic_def
        dest: quietD [OF quiet_confirm] split: sum.split prod.split list.split)
  then show ?thesis using logged by (intro exI [of _ "[t]"]) simp
qed

lemma sign_with_authority_good:
  "submits sent (authority_signed P signers auth_signer ix) True (sign_with_authority C P signers c auth_signer h ix e)"
proof -
  let ?D = "pc_sdk P"
  have send: "submits sent (authority_signed P signers auth_signer ix) True
      (abind (amap_err (\<lambda>x. cli_text (e @ error_text x)) (send_and_confirm_with C t c)) (\<lambda>_. aret ()))"
    if "signers \<noteq> []" "try_sign ?D (new_message ?D [ix] (signer_key ?D (hd signers))) [hd signers, auth_signer] h = Inr t" for t
  proof (intro submits_before submits_amap_err)
    have "authority_signed P signers auth_signer ix t" using that unfolding authority_signed_def by blast
    then show "submits sent (authority_signed P signers auth_signer ix) True (send_and_confirm_with C t c)"
      using send_logged [of t c] unfolding submits_def by blast
  qed
  show ?thesis
  proof (cases "signers = []")
    case False
    then have first: "signer_at_index signers 0 = aret (hd signers)" by (simp add: signer_at_index_def hd_conv_nth)
    show ?thesis
      unfolding sign_with_authority_def first
      using send [OF False]
      by (cases "try_sign ?D (new_message ?D [ix] (signer_key ?D (hd signers))) [hd signers, auth_signer] h")
        (simp_all add: abind_def aret_def signer_result_def submits_def afail_def)
  qed (simp add: sign_with_authority_def signer_at_index_def abind_def apanic_def submits_def)
qed

lemma close_account_good:
  "submits sent (authority_signed P signers auth_signer
       (pc_close_any P k recipient (Some (signer_key (pc_sdk P) auth_signer)) program_key)) True
     (close_account_of C P signers c k recipient auth_signer program_key)"
  unfolding close_account_of_def
  by (intro submits_after quiet_amap_err quiet_reading sign_with_authority_good)

end

section \<open>Closing\<close>

text \<open>
  What the server says before a close: the account is a buffer with that authority, or a program
  whose data account \<open>target\<close> has it.
\<close>

definition close_checked ::
  "('w, 'm, 't) client \<Rightarrow> ('w, 's, 'm, 't) program_cli \<Rightarrow> commitment_level \<Rightarrow> pubkey \<Rightarrow> pubkey \<Rightarrow> 'w
     \<Rightarrow> pubkey \<Rightarrow> pubkey option \<Rightarrow> bool" where
  "close_checked C P c k auth_key w target program_key \<longleftrightarrow>
     (\<exists>a w1. get_account_with_commitment C k c w = (Inr (Some a), w1) \<and>
        (program_key = None \<and> target = k \<and> pc_loader_state P (data a) = Some (LoaderBuffer (Some auth_key))
         \<or> program_key = Some k \<and> pc_loader_state P (data a) = Some (LoaderProgram target) \<and>
           (\<exists>b w2 n. get_account_with_commitment C target c w1 = (Inr (Some b), w2)
              \<and> pc_loader_state P (data b) = Some (LoaderProgramData n (Some auth_key)))))"

lemma submitted_one:
  assumes "submits f Q True m" and "m w = (r, w')" and "f w' \<noteq> f w"
  obtains t where "f w' = f w @ [t]" and "Q t"
proof -
  obtain ts where "f w' = f w @ ts" "\<forall>t\<in>set ts. Q t" "length ts \<le> 1"
    using assms(1) [unfolded submits_def, rule_format, of w] assms(2) by auto
  moreover from this(1) assms(3) have "ts \<noteq> []" by auto
  ultimately show thesis using that by (cases ts) auto
qed

context logging_loader
begin

lemma close_buffer_submits:
  assumes "process_close_buffer C P signers c k recipient s a found w = (r, w')" and "sent w' \<noteq> sent w"
  obtains t where "found = Some (signer_key (pc_sdk P) s)" and "sent w' = sent w @ [t]"
    and "authority_signed P signers s (pc_close_any P k recipient (Some (signer_key (pc_sdk P) s)) None) t"
proof -
  have "found = Some (signer_key (pc_sdk P) s)"
    using assms by (auto simp: process_close_buffer_def afail_def split: if_splits)
  with assms show thesis
    using that by (auto simp: process_close_buffer_def intro: submitted_one [OF submits_before [OF close_account_good]])
qed

lemma close_program_submits:
  assumes run: "process_close_program C P signers c k recipient s data_key w = (r, w')" and changed: "sent w' \<noteq> sent w"
  obtains t b w2 n where "sent w' = sent w @ [t]"
    and "get_account_with_commitment C data_key c w = (Inr (Some b), w2)"
    and "pc_loader_state P (data b) = Some (LoaderProgramData n (Some (signer_key (pc_sdk P) s)))"
    and "authority_signed P signers s (pc_close_any P data_key recipient (Some (signer_key (pc_sdk P) s)) (Some k)) t"
proof -
  obtain found w2 where read: "amap_err CliClient (get_account_with_commitment C data_key c) w = (Inr found, w2)"
      "sent w2 = sent w"
    and rest: "(case found of None \<Rightarrow> closed_program
       | Some a \<Rightarrow> (case pc_loader_state P (data a) of
            Some (LoaderProgramData _ authority_address) \<Rightarrow>
              if authority_address \<noteq> Some (signer_key (pc_sdk P) s)
              then afail (cli_text ''Program authority does not match'')
              else abind (close_account_of C P signers c data_key recipient s (Some k)) (\<lambda>_. aret (PoClosed k (lamports a)))
          | _ \<Rightarrow> closed_program)) w2 = (r, w')"
    by (rule abind_continues [OF run [unfolded process_close_program_def] quiet_amap_err [OF quiet_reading(3)] changed])
  obtain b n where b: "found = Some b" "pc_loader_state P (data b) = Some (LoaderProgramData n (Some (signer_key (pc_sdk P) s)))"
    using rest changed read(2)
    by (auto simp: closed_program_def afail_def split: option.splits loader_state.splits if_splits)
  have run': "abind (close_account_of C P signers c data_key recipient s (Some k)) (\<lambda>_. aret (PoClosed k (lamports b))) w2 = (r, w')"
    using rest b by simp
  obtain t where "sent w' = sent w2 @ [t]"
    and "authority_signed P signers s (pc_close_any P data_key recipient (Some (signer_key (pc_sdk P) s)) (Some k)) t"
    by (rule submitted_one [OF submits_before [OF close_account_good] run']) (use changed read(2) in auto)
  then show thesis using that b read by (auto simp: amap_err_def split: prod.splits sum.splits fault.splits)
qed

lemma process_close_submits:
  assumes run: "process_close C P signers c (Some k) recipient i w = (r, w')" and changed: "sent w' \<noteq> sent w"
  obtains t target program_key where "i < length signers" and "sent w' = sent w @ [t]"
    and "close_checked C P c k (signer_key (pc_sdk P) (signers ! i)) w target program_key"
    and "authority_signed P signers (signers ! i)
      (pc_close_any P target recipient (Some (signer_key (pc_sdk P) (signers ! i))) program_key) t"
proof -
  let ?s = "signers ! i"
  have index: "i < length signers"
    using run changed by (auto simp: process_close_def signer_at_index_def abind_def apanic_def split: if_splits)
  then have run': "abind (amap_err CliClient (get_account_with_commitment C k c)) (\<lambda>found. (case found of
      None \<Rightarrow> afail (cli_text ''Unable to find the account'')
    | Some a \<Rightarrow> (case pc_loader_state P (data a) of
         Some (LoaderBuffer found) \<Rightarrow> process_close_buffer C P signers c k recipient ?s a found
       | Some (LoaderProgram data_key) \<Rightarrow> process_close_program C P signers c k recipient ?s data_key
       | _ \<Rightarrow> afail (cli_text ''The account is not a Program or Buffer account'')))) w = (r, w')"
    using run by (simp add: process_close_def signer_at_index_def abind_def aret_def)
  obtain found w1 where read: "amap_err CliClient (get_account_with_commitment C k c) w = (Inr found, w1)" "sent w1 = sent w"
    and rest: "(case found of
      None \<Rightarrow> afail (cli_text ''Unable to find the account'')
    | Some a \<Rightarrow> (case pc_loader_state P (data a) of
         Some (LoaderBuffer found) \<Rightarrow> process_close_buffer C P signers c k recipient ?s a found
       | Some (LoaderProgram data_key) \<Rightarrow> process_close_program C P signers c k recipient ?s data_key
       | _ \<Rightarrow> afail (cli_text ''The account is not a Program or Buffer account''))) w1 = (r, w')"
    by (rule abind_continues [OF run' quiet_amap_err [OF quiet_reading(3)] changed])
  have changed1: "sent w' \<noteq> sent w1" using changed read(2) by simp
  obtain a where a: "found = Some a" using rest changed1 by (cases found) (auto simp: afail_def)
  have read': "get_account_with_commitment C k c w = (Inr (Some a), w1)"
    using read(1) a by (auto simp: amap_err_def split: prod.splits sum.splits fault.splits)
  consider (buffer) x where "pc_loader_state P (data a) = Some (LoaderBuffer x)"
    | (program) d where "pc_loader_state P (data a) = Some (LoaderProgram d)"
    using rest changed1 a by (auto simp: afail_def split: option.splits loader_state.splits)
  then show thesis
  proof cases
    case buffer
    then have "process_close_buffer C P signers c k recipient ?s a x w1 = (r, w')" using rest a by simp
    then show thesis
      by (rule close_buffer_submits [OF _ changed1])
        (rule that [OF index, of _ k None], use read' read(2) buffer in \<open>auto simp: close_checked_def\<close>)
  next
    case program
    then have "process_close_program C P signers c k recipient ?s d w1 = (r, w')" using rest a by simp
    then show thesis
      by (rule close_program_submits [OF _ changed1])
        (rule that [OF index, of _ d "Some k"], use read' read(2) program in \<open>auto simp: close_checked_def\<close>)
  qed
qed

end

section \<open>Every program command\<close>

lemma submits_attempt [submits_intros]: "submits f Q once m \<Longrightarrow> submits f Q once (attempt m)"
proof -
  have same: "f (snd (attempt m w)) = f (snd (m w))" for w
    by (auto simp: attempt_def split: prod.split sum.split fault.split)
  show "submits f Q once m \<Longrightarrow> submits f Q once (attempt m)" unfolding submits_def same .
qed

lemma submits_signer_at_index:
  "(\<And>s. s \<in> set signers \<Longrightarrow> submits f Q once (g s)) \<Longrightarrow> submits f Q once (abind (signer_at_index signers i) g)"
  by (auto simp: signer_at_index_def submits_def abind_def aret_def apanic_def)

definition by_signers :: "('w, 's, 'm, 't) program_cli \<Rightarrow> 's list \<Rightarrow> 't \<Rightarrow> bool" where
  "by_signers P signers t \<longleftrightarrow> (\<exists>s ix. s \<in> set signers \<and> authority_signed P signers s ix t)"

context logging_loader
begin

lemma signed_good:
  "s \<in> set signers \<Longrightarrow> submits sent (by_signers P signers) True (sign_with_authority C P signers c s h ix e)"
  "s \<in> set signers \<Longrightarrow> submits sent (by_signers P signers) True (close_account_of C P signers c k recipient s p)"
  by (rule submits_weaken [OF sign_with_authority_good] submits_weaken [OF close_account_good], auto simp: by_signers_def)+

lemma quiet_loader_reading:
  "quiet sent (get_accounts_with_filter C P filters len)" "quiet sent (get_buffers C P k)"
  "quiet sent (shown_programs C P as)" "quiet sent (get_programs C P k)" "quiet sent (show_upgradeable C P c k' a)"
proof -
  show accounts: "quiet sent (get_accounts_with_filter C P filters len)" for filters len
    unfolding get_accounts_with_filter_def get_program_accounts_with_config_def
    by (intro quiet_intros quiet_accounts)
  show "quiet sent (get_buffers C P k)"
    unfolding get_buffers_def by (intro quiet_intros accounts)
  show shown: "quiet sent (shown_programs C P as)" for as
  proof (induction as)
    case Nil
    show ?case unfolding shown_programs.simps by (rule quiet_unit)
  next
    case (Cons ka rest)
    then show ?case
      by (cases ka) (auto intro!: quiet_intros accounts split: option.split loader_state.split)
  qed
  show "quiet sent (get_programs C P k)"
    unfolding get_programs_def by (intro quiet_intros accounts shown)
  show "quiet sent (show_upgradeable C P c k' a)"
    unfolding show_upgradeable_def closed_program_def
    by (auto intro!: quiet_intros quiet_reading split: option.split loader_state.split)
qed

lemma quiet_show: "quiet sent (process_program_show C P c k a b1 b2 b3)"
  unfolding process_program_show_def Let_def by (intro quiet_intros quiet_reading quiet_loader_reading)

lemma close_buffers_good:
  "s \<in> set signers \<Longrightarrow> submits sent (by_signers P signers) False (close_buffers C P signers c recipient s bs)"
proof (induction bs)
  case (Cons b bs)
  then show ?case
    unfolding close_buffers.simps
    by (intro submits_option submits_unit submits_then [OF submits_attempt [OF signed_good(2)]] submits_before)
qed (simp only: close_buffers.simps submits_unit)

lemma close_good:
  assumes "s \<in> set signers"
  shows "submits sent (by_signers P signers) True (process_close_buffer C P signers c k recipient s a x)"
    and "submits sent (by_signers P signers) True (process_close_program C P signers c k recipient s d)"
proof -
  note closing = submits_before [OF signed_good(2) [OF assms]]
  show "submits sent (by_signers P signers) True (process_close_buffer C P signers c k recipient s a x)"
    unfolding process_close_buffer_def by (auto intro: submits_unit closing)
  show "submits sent (by_signers P signers) True (process_close_program C P signers c k recipient s d)"
    unfolding process_close_program_def closed_program_def
    by (rule submits_after [OF quiet_amap_err [OF quiet_reading(3)]])
      (auto intro: submits_unit closing split: option.split loader_state.split)
qed

lemma process_close_good:
  "submits sent (by_signers P signers) True (process_close C P signers c (Some k) recipient i)"
  "submits sent (by_signers P signers) False (process_close C P signers c None recipient i)"
  unfolding process_close_def option.case
   apply (rule submits_signer_at_index, rule submits_after [OF quiet_amap_err [OF quiet_reading(3)]])
   apply (auto intro: submits_unit close_good split: option.split loader_state.split) [1]
  apply (rule submits_signer_at_index, rule submits_after [OF quiet_loader_reading(2)])
  apply (erule submits_before [OF close_buffers_good])
  done

lemma process_program_set_authority_good:
  "submits sent (by_signers P signers) True (process_program_set_authority C P signers c p b i n)"
  unfolding process_program_set_authority_def
  by (intro submits_option submits_unit submits_signer_at_index submits_after [OF quiet_amap_err [OF quiet_reading(7)]]
      submits_after [OF quiet_unit(4)] submits_before [OF signed_good(1)])

text \<open>All that any program command submits is signed by the first signer and by one of the signers given.\<close>

lemma process_program_good:
  "submits sent (by_signers P signers) (case cmd of ProgramClose None _ _ \<Rightarrow> False | _ \<Rightarrow> True)
     (process_program_subcommand C P signers c cmd)"
  by (cases cmd) (auto intro: process_program_set_authority_good process_close_good submits_quiet quiet_show split: option.split)

end

section \<open>From the arguments\<close>

text \<open>The signers of a command are one signer: the authority named, or else the wallet.\<close>

definition named_or_wallet :: "'s matches \<Rightarrow> string \<Rightarrow> 's \<Rightarrow> 's \<Rightarrow> bool" where
  "named_or_wallet A name wallet s \<longleftrightarrow>
     (case arg_value A name of None \<Rightarrow> s = wallet | Some path \<Rightarrow> signer_from_path A path name = Inr s)"

lemma one_signer:
  assumes "signer_of key A name = Inr (found, k)"
  shows "\<exists>s. generate_unique_signers key wallet [found] = [s] \<and> named_or_wallet A name wallet s
    \<and> index_of key (generate_unique_signers key wallet [found]) k = Some 0"
  using assms
  by (auto simp: signer_of_def boxed_def rbind_def generate_unique_signers_def named_or_wallet_def index_of_def
      split: option.splits sum.splits)

lemma parse_close_signer:
  assumes "parse_program_close key A wallet = Inr (ProgramClose account recipient i, signers)"
  shows "\<exists>s. signers = [s] \<and> i = 0 \<and> named_or_wallet A ''authority'' wallet s"
  using assms one_signer [of key A "''authority''" _ _ wallet]
  by (fastforce simp: parse_program_close_def rbind_Inr_iff Let_def unwrapped_def split: prod.splits option.splits)

text \<open>
  The authority named on the command line also pays: the wallet, the default signer of every
  other command, is only among the signers when no authority is named.
\<close>

lemma named_authority_pays:
  assumes "arg_value A ''authority'' = Some path" and "signer_from_path A path ''authority'' = Inr s"
    and "parse_program_close key A wallet = Inr (ProgramClose account recipient i, signers)"
  shows "signers = [s]"
  using parse_close_signer [OF assms(3)] assms(1,2) by (auto simp: named_or_wallet_def)

text \<open>
  C37. Closing a program or a buffer.  Whatever is submitted for an account named on the command line
  is one transaction that closes the account the server just showed to have that authority (a
  buffer itself, or the data account of the program), into the recipient asked for (the wallet if
  none was); it is signed by the authority named, or the wallet, which also pays for it.
\<close>

theorem program_close_authorised:
  assumes "parse_program_close (signer_key (pc_sdk P)) A wallet = Inr (ProgramClose (Some k) recipient i, signers)"
    and "process_close (log_client C) (log_program P) signers c (Some k) recipient i (w, []) = (r, (w', submitted))"
    and "submitted \<noteq> []"
  shows "\<exists>s t h target program_key. submitted = [t] \<and> named_or_wallet A ''authority'' wallet s
    \<and> close_checked (log_client C) (log_program P) c k (signer_key (pc_sdk P) s) (w, []) target program_key
    \<and> try_sign (pc_sdk P) (new_message (pc_sdk P)
         [pc_close_any P target recipient (Some (signer_key (pc_sdk P) s)) program_key] (signer_key (pc_sdk P) s))
         [s, s] h = Inr t
    \<and> (arg_value A ''recipient_account'' = None \<longrightarrow> recipient = signer_key (pc_sdk P) wallet)"
proof -
  obtain s where s: "signers = [s]" "i = 0" "named_or_wallet A ''authority'' wallet s"
    using parse_close_signer [OF assms(1)] by blast
  have default: "arg_value A ''recipient_account'' = None \<longrightarrow> recipient = signer_key (pc_sdk P) wallet"
    using assms(1) by (auto simp: parse_program_close_def rbind_Inr_iff Let_def pubkey_of_signer_def split: option.splits)
  show ?thesis
    by (rule logged_loader.process_close_submits [OF assms(2)])
      (use assms(3) s default in \<open>auto simp: authority_signed_def\<close>)
qed

text \<open>A server where every account is a buffer of the wallet 1, and the arguments that close the account 5.\<close>

definition sample_program_client :: "(nat, bytes, bytes) client" where
  "sample_program_client =
     (sample_client 6000 5000)\<lparr>ep_account := (\<lambda>_ _ _ w.
        (Inr (Some \<lparr>ui_lamports = 10, ui_data = UiBinary ''buffer'' EncBase64, ui_owner = ''loader'',
                    ui_executable = False, ui_rent_epoch = 0\<rparr>), w))\<rparr>"

lemma sample_program_fields [simp]:
  "ep_account sample_program_client k c enc w =
     (Inr (Some \<lparr>ui_lamports = 10, ui_data = UiBinary ''buffer'' EncBase64, ui_owner = ''loader'',
                 ui_executable = False, ui_rent_epoch = 0\<rparr>), w)"
  "ep_latest_blockhash sample_program_client c w = (Inr (''hash'', 1), w)" "hash_of_text sample_program_client s = Some 3"
  "ep_send sample_program_client t c w = (Inr 7, Suc w)" "tx_signatures sample_program_client t = [7]"
  "ep_statuses sample_program_client sigs w = (Inr [Some failed_status], w)"
  "key_of_text sample_program_client s = Some 0" "key_text sample_program_client k = ''key''"
  "base64_decode sample_program_client s = Some []"
  by (simp_all add: sample_program_client_def sample_client_def sample_codec_def)

definition sample_program :: "(nat, pubkey, bytes, bytes) program_cli" where
  "sample_program =
     (let ix = \<lparr>ix_program_id = 103, ix_accounts = [], ix_data = []\<rparr> in
      \<lparr>pc_sdk = sample_cli, pc_set_upgrade_authority = (\<lambda>_ _ _. ix), pc_set_buffer_authority = (\<lambda>_ _ _. ix),
       pc_close_any = (\<lambda>_ _ _ _. ix), pc_loader_state = (\<lambda>_. Some (LoaderBuffer (Some 1))),
       pc_bpf_loader = 101, pc_bpf_loader_deprecated = 102, pc_upgradeable = 103,
       pc_program_accounts = (\<lambda>_ _ _ w. (Inr None, w))\<rparr>)"

definition sample_close_args :: "pubkey matches" where
  "sample_close_args =
     \<lparr>arg_value = (\<lambda>n. if n = ''account'' then Some ''5'' else None), arg_present = (\<lambda>_. False),
      signer_from_path = (\<lambda>_ _. Inl ''no signer''), pubkey_from_path = (\<lambda>_ _. Inl ''no key''),
      parse_key = (\<lambda>_. Some 5), parse_hash = (\<lambda>_. None), parse_sol = (\<lambda>_. None), keypair_key = (\<lambda>_. None)\<rparr>"

lemma sample_close_parsed:
  "parse_program_close (signer_key (pc_sdk sample_program)) sample_close_args 1 = Inr (ProgramClose (Some 5) 1 0, [1])"
  by (simp add: parse_program_close_def sample_close_args_def pubkey_of_signer_def signer_of_def generate_unique_signers_def
      index_of_def unwrapped_def pubkey_of_def value_of_def sample_program_def sample_cli_def Let_def)

lemma sample_close_run:
  "process_close (log_client sample_program_client) (log_program sample_program) [1] AtConfirmed (Some 5) 1 0 (0, [])
     = (Inr (PoBuffers [\<lparr>sb_address = ''key'', sb_authority = Some 1, sb_data_len = 0, sb_lamports = 10\<rparr>]), (1, [[2]]))"
proof -
  have rounds: "MAX_RETRIES = Suc 4" by (simp add: MAX_RETRIES_def)
  have confirmed: "confirm_transaction (log_client sample_program_client) sig AtConfirmed w = (Inr False, w)" for sig w
    unfolding confirm_transaction_def rounds confirm_rounds.simps
    by (simp add: recorded_def settled_def failed_status_def commitment_matches_def abind_def aret_def
        split: prod.split)
  show ?thesis
    by (simp add: process_close_def signer_at_index_def get_account_with_commitment_def get_account_with_config_def
        process_close_buffer_def close_account_of_def sign_with_authority_def signer_result_def latest_hash_def
        get_latest_blockhash_with_config_def send_and_confirm_with_def client_send_def confirmed ui_decode_def
        ui_bytes_def recorded_def sample_program_def sample_cli_def amap_err_def abind_def aret_def Let_def)
qed

theorem program_close_authorised_witness:
  "\<exists>s t h. [[2]] = [t] \<and> s = 1
     \<and> try_sign sample_cli (new_message sample_cli [pc_close_any sample_program 5 1 (Some s) None] s) [s, s] h = Inr t"
proof -
  have key: "signer_key (pc_sdk sample_program) k = k" "pc_sdk sample_program = sample_cli" for k
    by (simp_all add: sample_program_def sample_cli_def Let_def)
  have named: "named_or_wallet sample_close_args ''authority'' 1 s \<longleftrightarrow> s = 1" for s
    by (simp add: named_or_wallet_def sample_close_args_def)
  have buffer: "pc_loader_state sample_program d = Some (LoaderBuffer (Some 1))" for d
    by (simp add: sample_program_def Let_def)
  from program_close_authorised [OF sample_close_parsed sample_close_run] show ?thesis
    by (auto simp: key named buffer close_checked_def)
qed

end
