(* ===== verification/Cli_Query.thy ===== *)
theory Cli_Query
  imports Cli_Wallet
begin

text \<open>
  The commands of \<open>solana-cli/src/commands/wallet.rs\<close> and \<open>nonce.rs\<close> that only ask: showing an
  account or a nonce, confirming a signature, deriving an address with a seed; and
  \<open>UiAccount::encode\<close> of the account decoder, the inverse of the \<open>decode\<close> the client uses.
\<close>

section \<open>Encoding an account\<close>

text \<open>\<open>parse_account_data\<close>, the JSON form of the accounts of known programs, is a parameter.\<close>

record ui_encoder =
  base58_text :: "bytes \<Rightarrow> string"
  base64_text :: "bytes \<Rightarrow> string"
  account_json :: "pubkey \<Rightarrow> pubkey \<Rightarrow> bytes \<Rightarrow> string option" \<comment> \<open>address, owner, data\<close>

definition MAX_BASE58_BYTES :: nat where "MAX_BASE58_BYTES = 128"

definition slice_data :: "bytes \<Rightarrow> (nat \<times> nat) option \<Rightarrow> bytes" where
  "slice_data xs config =
     (case config of
        Some (offset, len) \<Rightarrow>
          if offset \<ge> length xs then []
          else if len > length xs - offset then drop offset xs
          else take len (drop offset xs)
      | None \<Rightarrow> xs)"

definition encode_bs58 :: "ui_encoder \<Rightarrow> account \<Rightarrow> (nat \<times> nat) option \<Rightarrow> string" where
  "encode_bs58 E a config =
     (if length (data a) \<le> MAX_BASE58_BYTES then base58_text E (slice_data (data a) config)
      else ''error: data too large for bs58 encoding'')"

definition ui_encode ::
  "('w, 'm, 't) client \<Rightarrow> ui_encoder \<Rightarrow> pubkey \<Rightarrow> account \<Rightarrow> ui_encoding \<Rightarrow> (nat \<times> nat) option \<Rightarrow> ui_account" where
  "ui_encode C E k a enc config =
     \<lparr>ui_lamports = lamports a,
      ui_data =
        (case enc of
           EncBinary \<Rightarrow> UiLegacyBinary (encode_bs58 E a config)
         | EncBase58 \<Rightarrow> UiBinary (encode_bs58 E a config) enc
         | EncBase64 \<Rightarrow> UiBinary (base64_text E (slice_data (data a) config)) enc
         | EncJsonParsed \<Rightarrow>
             (case account_json E k (owner a) (data a) of
                Some parsed \<Rightarrow> UiJson parsed
              | None \<Rightarrow> UiBinary (base64_text E (data a)) EncBase64)),
      ui_owner = key_text C (owner a), ui_executable = executable a, ui_rent_epoch = rent_epoch a\<rparr>"

text \<open>The slice of an account is what the account would hold cut to it, whatever the bounds.\<close>

lemma slice_data_take: "slice_data xs (Some (offset, len)) = take len (drop offset xs)"
  by (auto simp: slice_data_def)

text \<open>
  Decoding what was encoded gives the account back, cut to the slice: in base64 always, in base58 up
  to 128 bytes.  Larger data becomes an error text, which is no base58 and decodes to nothing.
\<close>

lemma ui_encode_decode:
  assumes "\<And>k. key_of_text C (key_text C k) = Some k" and "\<And>xs. base64_decode C (base64_text E xs) = Some xs"
    and "\<And>xs. base58_decode C (base58_text E xs) = Some xs"
    and "base58_decode C ''error: data too large for bs58 encoding'' = None"
  shows "ui_decode C (ui_encode C E k a EncBase64 config) = Some (a\<lparr>data := slice_data (data a) config\<rparr>)"
    and "enc \<in> {EncBinary, EncBase58} \<Longrightarrow>
      ui_decode C (ui_encode C E k a enc config) =
        (if length (data a) \<le> MAX_BASE58_BYTES then Some (a\<lparr>data := slice_data (data a) config\<rparr>) else None)"
    and "account_json E k (owner a) (data a) = None \<Longrightarrow> ui_decode C (ui_encode C E k a EncJsonParsed config) = Some a"
  by (auto simp: ui_encode_def ui_decode_def ui_bytes_def encode_bs58_def assms)

section \<open>Arguments\<close>

definition parse_account :: "'s matches \<Rightarrow> (pubkey \<times> string option \<times> bool, cli_error) res" where
  "parse_account A =
     rbind (required_key A ''account_pubkey'') (\<lambda>k. Inr (k, arg_value A ''output_file'', arg_present A ''lamports''))"

text \<open>\<open>signature_of_text\<close> is \<open>str::parse\<close>; clap requires the signature.\<close>

definition parse_confirm :: "(string \<Rightarrow> signature option) \<Rightarrow> 's matches \<Rightarrow> (signature, cli_error) res" where
  "parse_confirm signature_of_text A =
     rbind (unwrapped (arg_value A ''signature'')) (\<lambda>v.
     (case signature_of_text v of
        Some sig \<Rightarrow> Inr sig
      | None \<Rightarrow> Inl (Err (CliBadParameter ''Invalid signature''))))"

definition parse_create_address_with_seed ::
  "program_ids \<Rightarrow> 's matches \<Rightarrow> 's \<Rightarrow> (pubkey option \<times> string \<times> pubkey \<times> 's list, cli_error) res" where
  "parse_create_address_with_seed I A default_signer =
     rbind (pubkey_of_signer A ''from'') (\<lambda>from_key.
     rbind (unwrapped (derived_program_id I A ''program_id'')) (\<lambda>program.
     rbind (unwrapped (arg_value A ''seed'')) (\<lambda>seed.
     Inr (from_key, seed, program, if from_key \<noteq> None then [] else [default_signer]))))"

definition parse_get_nonce :: "'s matches \<Rightarrow> (pubkey, cli_error) res" where
  "parse_get_nonce A = required_key A ''nonce_account_pubkey''"

definition parse_show_nonce_account :: "'s matches \<Rightarrow> (pubkey \<times> bool, cli_error) res" where
  "parse_show_nonce_account A =
     rbind (required_key A ''nonce_account_pubkey'') (\<lambda>k. Inr (k, arg_present A ''lamports''))"

section \<open>Processing\<close>

text \<open>The account as it is printed, in base64.\<close>

definition process_show_account ::
  "('w, 'm, 't) client \<Rightarrow> ui_encoder \<Rightarrow> pubkey \<Rightarrow> ('w, cli_error, string \<times> ui_account) act" where
  "process_show_account C E k =
     abind (amap_err CliClient (get_account C k)) (\<lambda>a.
     aret (key_text C k, ui_encode C E k a EncBase64 None))"

text \<open>
  What a confirmation shows: the level and error of the status, the transaction or why it could
  not be read.  \<open>ep_transaction\<close> asks for the transaction, \<open>transaction_text\<close> decodes and prints it.
\<close>

record 'x shown_confirmation =
  sc_status :: "commitment option"
  sc_transaction :: "'x option"
  sc_problem :: "client_error option"
  sc_err :: "tx_error option"

definition process_confirm ::
  "('w, 'm, 't) client \<Rightarrow> (signature \<Rightarrow> commitment_level \<Rightarrow> ('w, client_error, 'r) act) \<Rightarrow> ('r \<Rightarrow> 'x option)
     \<Rightarrow> commitment_level \<Rightarrow> bool \<Rightarrow> signature \<Rightarrow> ('w, cli_error, 'x shown_confirmation) act" where
  "process_confirm C ep_transaction transaction_text c verbose sig w =
     (case ep_statuses C [sig] w of
        (Inl Panic, w') \<Rightarrow> (Inl Panic, w')
      | (Inl (Err e), w') \<Rightarrow> (Inl (Err (CliRpcRequestError (''Unable to confirm: '' @ error_text e))), w')
      | (Inr [], w') \<Rightarrow> (Inl Panic, w')
      | (Inr (None # _), w') \<Rightarrow>
          (Inr \<lparr>sc_status = None, sc_transaction = None, sc_problem = None, sc_err = None\<rparr>, w')
      | (Inr (Some s # _), w') \<Rightarrow>
          (let shown = \<lparr>sc_status = confirmation_status s, sc_transaction = None, sc_problem = None,
                        sc_err = status_err s\<rparr>
           in if \<not> verbose then (Inr shown, w')
              else
                (case ep_transaction sig c w' of
                   (Inl Panic, w'') \<Rightarrow> (Inl Panic, w'')
                 | (Inl (Err e), w'') \<Rightarrow> (Inr (shown\<lparr>sc_problem := Some e\<rparr>), w'')
                 | (Inr r, w'') \<Rightarrow>
                     (case transaction_text r of
                        None \<Rightarrow> (Inl Panic, w'')
                      | Some x \<Rightarrow> (Inr (shown\<lparr>sc_transaction := Some x\<rparr>), w'')))))"

definition process_create_address_with_seed ::
  "('w, 'm, 't) client \<Rightarrow> ('s, 'm, 't) cli_sdk \<Rightarrow> 's list \<Rightarrow> pubkey option \<Rightarrow> string \<Rightarrow> pubkey
     \<Rightarrow> ('w, cli_error, string) act" where
  "process_create_address_with_seed C D signers from_key seed program =
     abind (key_or_default D signers from_key) (\<lambda>base.
     abind (signer_result (key_with_seed D base seed program)) (\<lambda>address.
     aret (key_text C address)))"

text \<open>
  The address \<open>create-address-with-seed\<close> prints for the default signer is the one a transfer from
  that signer with the same derived seed and program takes the lamports from.
\<close>

lemma created_address_is_transfer_source:
  assumes "process_create_address_with_seed C D (source # signers) None seed program w = (Inr text_of_key, w')"
  shows "\<exists>address. text_of_key = key_text C address \<and> w' = w
    \<and> transfer_source D (signer_key D source) (Some seed) (Some program) w = (Inr (address, Some (seed, program)), w)"
  using assms
  by (auto simp: process_create_address_with_seed_def key_or_default_def config_pubkey_def transfer_source_def
      abind_def signer_result_def split: sum.splits)

text \<open>
  A confirmed signature is shown with the error the transaction ended with: unlike the sending
  command, \<open>confirm\<close> does tell a failed transaction from a successful one.
\<close>

lemma confirm_tells_failure:
  assumes "ep_statuses C [sig] w = (Inr [Some s], w')"
  shows "\<exists>shown. process_confirm C T X c False sig w = (Inr shown, w') \<and> sc_err shown = status_err s
    \<and> sc_status shown = confirmation_status s"
  by (simp add: process_confirm_def assms)

end
