(* ===== verification/Cli_Feature.thy ===== *)
theory Cli_Feature
  imports Cli_Wallet "HOL-Library.Char_ord" "HOL-Library.List_Lexorder" "HOL-Library.Product_Lexorder"
begin

text \<open>
  The listing of features of \<open>solana-cli/src/commands/feature.rs\<close>: its arguments, the status of a
  feature's account, and the table \<open>process_status\<close> shows, down to its order.  The shares of the
  cluster's stake and nodes, in floating point, are left out.
\<close>

section \<open>Statuses and their order\<close>

datatype feature_status = Inactive | Pending | Active u64

text \<open>\<open>CliFeatureStatus::cmp\<close>: the active ones by their slot, then the pending, then the inactive.\<close>

fun status_le :: "feature_status \<Rightarrow> feature_status \<Rightarrow> bool" where
  "status_le Inactive Inactive = True"
| "status_le Inactive _ = False"
| "status_le _ Inactive = True"
| "status_le Pending Pending = True"
| "status_le Pending _ = False"
| "status_le _ Pending = True"
| "status_le (Active a) (Active b) = (a \<le> b)"

lemma status_le_order:
  "status_le s s" "status_le s t \<or> status_le t s" "status_le s t \<Longrightarrow> status_le t s \<Longrightarrow> s = t"
  "status_le s t \<Longrightarrow> status_le t u \<Longrightarrow> status_le s u"
proof -
  show "status_le s s" by (cases s) simp_all
  show "status_le s t \<or> status_le t s" by (cases s; cases t) auto
  show "status_le s t \<Longrightarrow> status_le t s \<Longrightarrow> s = t" by (cases s; cases t) simp_all
  show "status_le s t \<Longrightarrow> status_le t u \<Longrightarrow> status_le s u" by (cases s; cases t; cases u) simp_all
qed

instantiation feature_status :: linorder
begin

definition less_eq_feature_status :: "feature_status \<Rightarrow> feature_status \<Rightarrow> bool" where
  "less_eq_feature_status = status_le"

definition less_feature_status :: "feature_status \<Rightarrow> feature_status \<Rightarrow> bool" where
  "less_feature_status s t \<longleftrightarrow> status_le s t \<and> s \<noteq> t"

instance
proof
  fix s t u :: feature_status
  note unfolded = less_eq_feature_status_def less_feature_status_def
  show "s < t \<longleftrightarrow> s \<le> t \<and> \<not> t \<le> s" 
    using status_le_order(1-3) by (metis unfolded)
  show "s \<le> s" using status_le_order(1) by (simp add: unfolded)
  show "s \<le> t \<Longrightarrow> t \<le> u \<Longrightarrow> s \<le> u" using status_le_order(4) by (simp add: unfolded)
  show "s \<le> t \<Longrightarrow> t \<le> s \<Longrightarrow> s = t" using status_le_order(3) by (simp add: unfolded)
  show "s \<le> t \<or> t \<le> s" using status_le_order(2) by (simp add: unfolded)
qed

end

record shown_feature =
  sf_id :: string
  sf_description :: string
  sf_status :: feature_status

text \<open>\<open>CliFeature::cmp\<close>.\<close>

definition feature_key :: "shown_feature \<Rightarrow> feature_status \<times> string" where
  "feature_key f = (sf_status f, sf_id f)"

section \<open>Accounts\<close>

text \<open>
  \<open>feature_names\<close> is \<open>FEATURE_NAMES\<close> in the order its keys come in; \<open>feature_of\<close> is
  \<open>feature::from_account\<close>, \<open>activated_at\<close> of an account that is a feature.
\<close>

record 'w feature_env =
  feature_names :: "(pubkey \<times> string) list"
  feature_of :: "account \<Rightarrow> u64 option option"
  ep_slot :: "commitment_level \<Rightarrow> ('w, client_error, u64) act"

definition feature_status_of :: "'w feature_env \<Rightarrow> account \<Rightarrow> feature_status option" where
  "feature_status_of F a =
     map_option (\<lambda>activated. case activated of None \<Rightarrow> Pending | Some s \<Rightarrow> Active s) (feature_of F a)"

definition get_feature_status ::
  "('w, 'm, 't) client \<Rightarrow> 'w feature_env \<Rightarrow> pubkey \<Rightarrow> ('w, cli_error, feature_status option) act" where
  "get_feature_status C F k = amap_err CliClient (abind (get_account C k) (\<lambda>a. aret (feature_status_of F a)))"

definition get_feature_is_active ::
  "('w, 'm, 't) client \<Rightarrow> 'w feature_env \<Rightarrow> pubkey \<Rightarrow> ('w, cli_error, bool) act" where
  "get_feature_is_active C F k =
     abind (get_feature_status C F k) (\<lambda>found.
     aret (case found of Some (Active _) \<Rightarrow> True | _ \<Rightarrow> False))"

definition get_slot :: "('w, 'm, 't) client \<Rightarrow> 'w feature_env \<Rightarrow> ('w, client_error, u64) act" where
  "get_slot C F = ep_slot F (commitment_config C)"

definition get_multiple_accounts ::
  "('w, 'm, 't) client \<Rightarrow> pubkey list \<Rightarrow> ('w, client_error, account option list) act" where
  "get_multiple_accounts C ks = get_multiple_accounts_with_config C ks (Some (commitment_config C))"

section \<open>Arguments\<close>

text \<open>\<open>pubkeys_of\<close> of the values given: a key, or else the key of a keypair file.\<close>

fun pubkeys_of :: "'s matches \<Rightarrow> string list \<Rightarrow> (pubkey list, cli_error) res" where
  "pubkeys_of A [] = Inr []"
| "pubkeys_of A (v # vs) =
     rbind (unwrapped (case parse_key A v of Some k \<Rightarrow> Some k | None \<Rightarrow> keypair_key A v)) (\<lambda>k.
     rbind (pubkeys_of A vs) (\<lambda>ks. Inr (k # ks)))"

definition known_feature ::
  "('w, 'm, 't) client \<Rightarrow> 'w feature_env \<Rightarrow> pubkey \<Rightarrow> (unit, cli_error) res" where
  "known_feature C F k =
     (if k \<in> set (map fst (feature_names F)) then Inr ()
      else Inl (Err (CliBadParameter (''Unknown feature: '' @ key_text C k))))"

fun known_features ::
  "('w, 'm, 't) client \<Rightarrow> 'w feature_env \<Rightarrow> pubkey list \<Rightarrow> (unit, cli_error) res" where
  "known_features C F [] = Inr ()"
| "known_features C F (k # ks) = rbind (known_feature C F k) (\<lambda>_. known_features C F ks)"

text \<open>\<open>features\<close> are the values of that argument; the keys are sorted by their bytes.\<close>

definition parse_feature_status ::
  "('w, 'm, 't) client \<Rightarrow> 'w feature_env \<Rightarrow> 's matches \<Rightarrow> string list option
     \<Rightarrow> (pubkey list \<times> bool, cli_error) res" where
  "parse_feature_status C F A values =
     rbind (case values of
              Some vs \<Rightarrow> rbind (pubkeys_of A vs) (\<lambda>ks. rbind (known_features C F ks) (\<lambda>_. Inr ks))
            | None \<Rightarrow> Inr (map fst (feature_names F))) (\<lambda>ks.
     Inr (sort_key key_bytes ks,
          arg_present A ''display_all'' \<or> length ks < length (feature_names F)))"

section \<open>The listing\<close>

definition DEFAULT_MAX_ACTIVE_DISPLAY_AGE_SLOTS :: u64 where
  "DEFAULT_MAX_ACTIVE_DISPLAY_AGE_SLOTS = 15000000"

definition MAX_MULTIPLE_ACCOUNTS :: nat where "MAX_MULTIPLE_ACCOUNTS = 100"

text \<open>\<open>slice::chunks\<close>, of a positive size.\<close>

fun chunks :: "nat \<Rightarrow> 'a list \<Rightarrow> 'a list list" where
  "chunks n xs = (if n = 0 \<or> xs = [] then [] else take n xs # chunks n (drop n xs))"

declare chunks.simps [simp del]

definition feature_row ::
  "('w, 'm, 't) client \<Rightarrow> 'w feature_env \<Rightarrow> account option \<Rightarrow> pubkey \<Rightarrow> (shown_feature, cli_error) res" where
  "feature_row C F a k =
     (case map_of (feature_names F) k of
        None \<Rightarrow> Inl Panic
      | Some name \<Rightarrow>
          Inr \<lparr>sf_id = key_text C k, sf_description = name,
               sf_status = (case Option.bind a (feature_status_of F) of Some s \<Rightarrow> s | None \<Rightarrow> Inactive)\<rparr>)"

fun feature_rows ::
  "('w, 'm, 't) client \<Rightarrow> 'w feature_env \<Rightarrow> (account option \<times> pubkey) list \<Rightarrow> (shown_feature list, cli_error) res" where
  "feature_rows C F [] = Inr []"
| "feature_rows C F ((a, k) # rest) =
     rbind (feature_row C F a k) (\<lambda>f. rbind (feature_rows C F rest) (\<lambda>fs. Inr (f # fs)))"

definition recent_enough :: "u64 option \<Rightarrow> shown_feature \<Rightarrow> bool" where
  "recent_enough min_activation f =
     (case (min_activation, sf_status f) of (Some m, Active a) \<Rightarrow> m < a | _ \<Rightarrow> True)"

text \<open>\<open>unwrap_or_default\<close>: an error of the client is an empty answer.\<close>

definition or_empty :: "('w, 'e, 'a list) act \<Rightarrow> ('w, 'f, 'a list) act" where
  "or_empty m w =
     (case m w of
        (Inl Panic, w') \<Rightarrow> (Inl Panic, w')
      | (Inl (Err _), w') \<Rightarrow> (Inr [], w')
      | (Inr xs, w') \<Rightarrow> (Inr xs, w'))"

fun feature_chunks ::
  "('w, 'm, 't) client \<Rightarrow> 'w feature_env \<Rightarrow> u64 option \<Rightarrow> pubkey list list
     \<Rightarrow> ('w, cli_error, shown_feature list) act" where
  "feature_chunks C F min_activation [] = aret []"
| "feature_chunks C F min_activation (ks # rest) =
     abind (or_empty (get_multiple_accounts C ks)) (\<lambda>found.
     abind (aresult (feature_rows C F (zip found ks))) (\<lambda>rows.
     abind (feature_chunks C F min_activation rest) (\<lambda>fs.
     aret (filter (recent_enough min_activation) rows @ fs))))"

text \<open>
  \<open>process_status\<close> up to the table: the slot, and the features in their order (\<open>sort_unstable\<close>
  has no choice: two with the same status and id are the same).
\<close>

definition listed_features ::
  "('w, 'm, 't) client \<Rightarrow> 'w feature_env \<Rightarrow> pubkey list \<Rightarrow> bool \<Rightarrow> ('w, cli_error, u64 \<times> shown_feature list) act" where
  "listed_features C F ks display_all =
     abind (amap_err CliClient (get_slot C F)) (\<lambda>current_slot.
     abind (feature_chunks C F
              (if \<not> display_all then checked_sub current_slot DEFAULT_MAX_ACTIVE_DISPLAY_AGE_SLOTS else None)
              (chunks MAX_MULTIPLE_ACCOUNTS ks)) (\<lambda>fs.
     aret (current_slot, sort_key feature_key fs)))"

section \<open>What is listed\<close>

text \<open>The row of a known feature, given what was decoded of its account.\<close>

definition row_of :: "('w, 'm, 't) client \<Rightarrow> 'w feature_env \<Rightarrow> account option \<Rightarrow> pubkey \<Rightarrow> shown_feature" where
  "row_of C F a k =
     \<lparr>sf_id = key_text C k, sf_description = the (map_of (feature_names F) k),
      sf_status = (case Option.bind a (feature_status_of F) of Some s \<Rightarrow> s | None \<Rightarrow> Inactive)\<rparr>"

lemma known_features_iff: "known_features C F ks = Inr () \<longleftrightarrow> set ks \<subseteq> fst ` set (feature_names F)"
  by (induction ks) (auto simp: known_feature_def rbind_def)

lemma feature_row_known: "k \<in> fst ` set (feature_names F) \<Longrightarrow> feature_row C F a k = Inr (row_of C F a k)"
  by (auto simp: feature_row_def row_of_def dom_map_of_conv_image_fst [symmetric] split: option.split)

lemma feature_rows_known:
  "snd ` set aks \<subseteq> fst ` set (feature_names F) \<Longrightarrow>
   feature_rows C F aks = Inr (map (\<lambda>(a, k). row_of C F a k) aks)"
proof (induction aks)
  case (Cons ak aks)
  then show ?case by (cases ak) (simp add: feature_row_known rbind_def)
qed simp

lemma concat_chunks: "0 < n \<Longrightarrow> concat (chunks n xs) = xs"
proof (induction n xs rule: chunks.induct)
  case (1 n xs)
  then show ?case by (subst chunks.simps) auto
qed

lemma chunk_sizes: "ys \<in> set (chunks n xs) \<Longrightarrow> 0 < length ys \<and> length ys \<le> n"
proof (induction n xs rule: chunks.induct)
  case (1 n xs)
  then show ?case by (cases "n = 0 \<or> xs = []") (auto simp: chunks.simps [of n xs])
qed

text \<open>
  On a server that has an account for every feature asked about, each feature is listed with the
  status of its own account, those that have been active for long left out unless all are asked for.
\<close>

lemma feature_chunks_complete:
  assumes answers: "\<And>ks w. ep_multiple C ks (Some (commitment_config C)) w = (Inr (map (\<lambda>k. Some (ui k)) ks), w)"
    and "set (concat kss) \<subseteq> fst ` set (feature_names F)"
  shows "feature_chunks C F m kss w =
    (Inr (filter (recent_enough m) (map (\<lambda>k. row_of C F (ui_decode C (ui k)) k) (concat kss))), w)"
  using assms(2)
proof (induction kss)
  case (Cons ks kss)
  have found: "or_empty (get_multiple_accounts C ks) w = (Inr (map (\<lambda>k. ui_decode C (ui k)) ks), w)" for w
    by (simp add: or_empty_def get_multiple_accounts_def get_multiple_accounts_with_config_def abind_def answers
        filter_map comp_def)
  have pairs: "zip (map (\<lambda>k. ui_decode C (ui k)) ks) ks = map (\<lambda>k. (ui_decode C (ui k), k)) ks"
    by (induction ks) simp_all
  have rows: "feature_rows C F (zip (map (\<lambda>k. ui_decode C (ui k)) ks) ks) =
    Inr (map (\<lambda>k. row_of C F (ui_decode C (ui k)) k) ks)"
    unfolding pairs using Cons.prems by (subst feature_rows_known) auto
  show ?case using Cons by (simp add: abind_def found rows)
qed (simp add: abind_def)

lemma complete_server_lists_statuses:
  assumes "\<And>ks w. ep_multiple C ks (Some (commitment_config C)) w = (Inr (map (\<lambda>k. Some (ui k)) ks), w)"
    and "set ks \<subseteq> fst ` set (feature_names F)" and "ep_slot F (commitment_config C) w = (Inr s, w')"
  shows "listed_features C F ks everything w =
    (Inr (s, sort_key feature_key
      (filter (recent_enough (if everything then None else checked_sub s DEFAULT_MAX_ACTIVE_DISPLAY_AGE_SLOTS))
        (map (\<lambda>k. row_of C F (ui_decode C (ui k)) k) ks))), w')"
proof -
  have all: "concat (chunks MAX_MULTIPLE_ACCOUNTS ks) = ks" by (rule concat_chunks) (simp add: MAX_MULTIPLE_ACCOUNTS_def)
  show ?thesis
    using assms(2) feature_chunks_complete [of C ui "chunks MAX_MULTIPLE_ACCOUNTS ks" F, OF assms(1)]
    by (simp add: listed_features_def get_slot_def abind_def amap_err_def assms(3) all)
qed

text \<open>
  The client drops the missing accounts, and the zip pairs what is left with the first keys: when
  the first of two features has no account, it is listed with the status of the second, and the
  second is not listed.
\<close>

lemma missing_feature_takes_status:
  assumes "ep_multiple C [k1, k2] (Some (commitment_config C)) w' = (Inr [None, Some u], w'')"
    and "k1 \<in> fst ` set (feature_names F)" and "ep_slot F (commitment_config C) w = (Inr s, w')"
  shows "listed_features C F [k1, k2] True w = (Inr (s, [row_of C F (ui_decode C u) k1]), w'')"
proof -
  have one: "chunks MAX_MULTIPLE_ACCOUNTS [k1, k2] = [[k1, k2]]"
    by (simp add: MAX_MULTIPLE_ACCOUNTS_def chunks.simps)
  have found: "or_empty (get_multiple_accounts C [k1, k2]) w' = (Inr [ui_decode C u], w'')"
    by (simp add: or_empty_def get_multiple_accounts_def get_multiple_accounts_with_config_def abind_def assms(1))
  show ?thesis
    by (simp add: listed_features_def get_slot_def abind_def amap_err_def assms(3) one found
        feature_row_known [OF assms(2)] rbind_def recent_enough_def)
qed

end
